(* ===== verification/Sama_Prelude.thy ===== *)
theory Sama_Prelude
  imports Main "HOL-Library.Word"
begin

text \<open>
  Shared vocabulary of the development: identifiers, instants, table operations and the
  lemma collections the component theories use.

  \<^item> A \<open>uuid\<close> is the 128-bit value of \<^verbatim>\<open>github.com/google/uuid\<close>; its version is the
    high nibble of byte 6 (RFC 9562).
  \<^item> A \<open>time\<close> is an instant in nanoseconds since Go's zero \<^verbatim>\<open>time.Time\<close>, so \<open>IsZero\<close> is
    equality with \<open>0\<close>.
  \<^item> A table of the PostgreSQL schema is the list of its rows; \<open>fetch\<close>, \<open>upd\<close>, \<open>del\<close>
    and \<open>cnt\<close> are \<^verbatim>\<open>SELECT ... LIMIT 1\<close>, \<^verbatim>\<open>UPDATE\<close>, \<^verbatim>\<open>DELETE\<close> and
    \<^verbatim>\<open>count(*)\<close>.
\<close>

named_theorems tx_simps "success of a statement or of a composed transaction body"
named_theorems frame_simps "which tables an operation leaves alone"
named_theorems inv_intros "operations keep an invariant"
named_theorems tx_live "runs on a connection that answers every statement"

section \<open>Identifiers and instants\<close>

type_synonym uuid = "128 word"
type_synonym time = int

definition uuid_Nil :: uuid where
  "uuid_Nil = 0"

definition uuid_version :: "uuid \<Rightarrow> int" where
  "uuid_version u = uint u div 2 ^ 76 mod 16"

text \<open>Bits 64 and 65 of the UUID (the top of byte 8): the RFC 4122 variant is \<open>10\<close>.\<close>

definition uuid_variant_rfc4122 :: "uuid \<Rightarrow> bool" where
  "uuid_variant_rfc4122 u \<longleftrightarrow> uint u div 2 ^ 62 mod 4 = 2"

text \<open>The version 7 identifiers used by concrete examples: \<open>n\<close> in the random tail.\<close>

definition v7 :: "nat \<Rightarrow> uuid" where
  "v7 n = word_of_int (int n + 7 * 2 ^ 76 + 2 * 2 ^ 62)"

definition second :: time where
  "second = 1000000000"

definition minute :: time where
  "minute = 60 * second"

definition hour :: time where
  "hour = 60 * minute"

definition day :: time where
  "day = 24 * hour"

lemmas time_units = second_def minute_def hour_def day_def

lemma time_units_pos [simp]: "0 < second" "0 < minute" "0 < hour" "0 < day"
  by (simp_all add: time_units)

text \<open>PostgreSQL's \<^verbatim>\<open>bigint\<close>: an update that leaves the range is a statement error.\<close>

definition bigint_ok :: "int \<Rightarrow> bool" where
  "bigint_ok n \<longleftrightarrow> - (2 ^ 63) \<le> n \<and> n < 2 ^ 63"

section \<open>Character classes of the regular expressions\<close>

definition char_between :: "char \<Rightarrow> char \<Rightarrow> char \<Rightarrow> bool" where
  "char_between a b c \<longleftrightarrow> of_char a \<le> (of_char c :: nat) \<and> (of_char c :: nat) \<le> of_char b"

definition alnum :: "char \<Rightarrow> bool" where
  "alnum c \<longleftrightarrow> char_between CHR ''a'' CHR ''z'' c \<or> char_between CHR ''A'' CHR ''Z'' c
     \<or> char_between CHR ''0'' CHR ''9'' c"

text \<open>\<open>^[A-Za-z0-9][A-Za-z0-9\<^emph>\<open>extra\<close>]{0,n}$\<close>, the shape of every code and reference.\<close>

definition code_like :: "string \<Rightarrow> nat \<Rightarrow> string \<Rightarrow> bool" where
  "code_like extra n s = (case s of [] \<Rightarrow> False
     | c # cs \<Rightarrow> alnum c \<and> length cs \<le> n \<and> list_all (\<lambda>x. alnum x \<or> x \<in> set extra) cs)"

lemma code_like_length: "code_like extra n s \<Longrightarrow> s \<noteq> [] \<and> length s \<le> Suc n"
  by (auto simp: code_like_def split: list.splits)

section \<open>Tables\<close>

abbreviation fetch :: "('r \<Rightarrow> bool) \<Rightarrow> 'r list \<Rightarrow> 'r option" where
  "fetch \<equiv> List.find"

definition upd :: "('r \<Rightarrow> bool) \<Rightarrow> ('r \<Rightarrow> 'r) \<Rightarrow> 'r list \<Rightarrow> 'r list" where
  "upd P f t = map (\<lambda>r. if P r then f r else r) t"

definition del :: "('r \<Rightarrow> bool) \<Rightarrow> 'r list \<Rightarrow> 'r list" where
  "del P t = filter (\<lambda>r. \<not> P r) t"

definition cnt :: "('r \<Rightarrow> bool) \<Rightarrow> 'r list \<Rightarrow> nat" where
  "cnt P t = length (filter P t)"

lemma fetch_Some: "fetch P t = Some r \<Longrightarrow> r \<in> set t \<and> P r"
  by (auto simp: find_Some_iff)

lemma fetch_None: "fetch P t = None \<longleftrightarrow> (\<forall>r \<in> set t. \<not> P r)"
  by (auto simp: find_None_iff)

lemma fetch_unique:
  assumes "distinct (map k t)" "r \<in> set t" "P r" "\<And>r'. P r' \<Longrightarrow> k r' = k r"
  shows "fetch P t = Some r"
proof (cases "fetch P t")
  case None
  with assms(2,3) show ?thesis by (auto simp: fetch_None)
next
  case (Some r')
  then have "r' \<in> set t" "P r'" by (auto dest: fetch_Some)
  with assms have "r' = r" by (metis distinct_map inj_onD)
  with Some show ?thesis by simp
qed

lemma set_upd: "set (upd P f t) = (\<lambda>r. if P r then f r else r) ` set t"
  by (simp add: upd_def)

lemma set_del [simp]: "set (del P t) = {r \<in> set t. \<not> P r}"
  by (simp add: del_def)

lemma in_updD: "r \<in> set (upd P f t) \<Longrightarrow> (r \<in> set t \<and> \<not> P r) \<or> (\<exists>r0 \<in> set t. P r0 \<and> r = f r0)"
  by (auto simp: set_upd split: if_splits)

lemma in_updI: "r \<in> set t \<Longrightarrow> P r \<Longrightarrow> f r \<in> set (upd P f t)"
  by (force simp: set_upd)

lemma in_upd_other: "r \<in> set t \<Longrightarrow> \<not> P r \<Longrightarrow> r \<in> set (upd P f t)"
  by (force simp: set_upd)

lemma fetch_upd:
  "(\<And>r. Q r \<Longrightarrow> P (f r) = P r) \<Longrightarrow> fetch P (upd Q f t) = map_option (\<lambda>r. if Q r then f r else r) (fetch P t)"
  by (induction t) (auto simp: upd_def)

lemma fetch_append: "fetch P (s @ t) = (case fetch P s of None \<Rightarrow> fetch P t | Some r \<Rightarrow> Some r)"
  by (induction s) auto

lemma map_upd_key: "(\<And>r. P r \<Longrightarrow> k (f r) = k r) \<Longrightarrow> map k (upd P f t) = map k t"
  by (simp add: upd_def)

lemma length_upd [simp]: "length (upd P f t) = length t"
  by (simp add: upd_def)

lemma upd_Nil [simp]: "upd P f [] = []" and upd_append: "upd P f (s @ t) = upd P f s @ upd P f t"
  by (simp_all add: upd_def)

lemma upd_no_match: "(\<And>r. r \<in> set t \<Longrightarrow> \<not> P r) \<Longrightarrow> upd P f t = t"
  by (simp add: upd_def map_idI)

lemma distinct_map_del: "distinct (map k t) \<Longrightarrow> distinct (map k (del P t))"
  by (simp add: del_def distinct_map_filter)

lemma del_no_match: "(\<And>r. r \<in> set t \<Longrightarrow> \<not> P r) \<Longrightarrow> del P t = t"
  by (simp add: del_def)

lemma cnt_Nil [simp]: "cnt P [] = 0" and cnt_append [simp]: "cnt P (s @ t) = cnt P s + cnt P t"
  and cnt_Cons [simp]: "cnt P (r # t) = (if P r then Suc (cnt P t) else cnt P t)"
  by (simp_all add: cnt_def)

lemma cnt_zero: "cnt P t = 0 \<longleftrightarrow> (\<forall>r \<in> set t. \<not> P r)"
  by (simp add: cnt_def filter_empty_conv)

lemma cnt_pos: "0 < cnt P t \<longleftrightarrow> (\<exists>r \<in> set t. P r)"
  using cnt_zero [of P t] by auto

lemma cnt_upd_key: "(\<And>r. P r \<Longrightarrow> Q (f r) = Q r) \<Longrightarrow> cnt Q (upd P f t) = cnt Q t"
  by (induction t) (auto simp: upd_def)

lemma cnt_one_fetch:
  assumes "distinct (map k t)" "\<And>r r'. P r \<Longrightarrow> P r' \<Longrightarrow> k r = k r'"
  shows "cnt P t \<le> 1"
  using assms(1)
proof (induction t)
  case (Cons r t)
  show ?case
  proof (cases "P r")
    case True
    have "\<not> P r'" if "r' \<in> set t" for r'
    proof
      assume "P r'"
      with True have "k r = k r'" by (rule assms(2))
      with that Cons.prems show False by auto
    qed
    then have "cnt P t = 0" by (simp add: cnt_zero)
    with True show ?thesis by simp
  next
    case False
    with Cons show ?thesis by simp
  qed
qed simp

lemma unique_key: "distinct (map k t) \<Longrightarrow> r \<in> set t \<Longrightarrow> r' \<in> set t \<Longrightarrow> k r = k r' \<Longrightarrow> r = r'"
  by (metis distinct_map inj_onD)

section \<open>Invariants of step relations\<close>

text \<open>The contract of a state machine: each step keeps its invariant. Every reachable state then has it.\<close>

locale machine =
  fixes step :: "'s \<Rightarrow> 's \<Rightarrow> bool" and inv :: "'s \<Rightarrow> bool"
  assumes keeps: "step s s' \<Longrightarrow> inv s \<Longrightarrow> inv s'"
begin

lemma reachable: "step\<^sup>*\<^sup>* s s' \<Longrightarrow> inv s \<Longrightarrow> inv s'"
  by (induction rule: rtranclp_induct) (auto intro: keeps)

text \<open>A property of one step that composes holds of every sequence of steps.\<close>

lemma reachable_rel:
  assumes "step\<^sup>*\<^sup>* s s'" "inv s" "\<And>s. R s s" "\<And>s t u. R s t \<Longrightarrow> R t u \<Longrightarrow> R s u" "\<And>s s'. inv s \<Longrightarrow> step s s' \<Longrightarrow> R s s'"
  shows "R s s'"
  using assms(1,2) by (induction rule: rtranclp_induct) (use assms(3-) reachable in blast)+

end

end
