(* ===== verification/Sama_Tx.thy ===== *)
theory Sama_Tx
  imports Sama_Prelude
begin

text \<open>
  Transactions against PostgreSQL as a state and error monad, with the failures the Go code
  handles as values.

  A transaction body is a function of a state that holds the database as the transaction sees it
  and the number of statements the connection still answers (\<open>None\<close>: it never fails). Every
  statement may therefore fail, and once one has failed the transaction is aborted: no later
  statement succeeds, as in PostgreSQL. A violated constraint aborts the transaction too.
  \<open>run_tx\<close> is \<^verbatim>\<open>BeginTx\<close>, the body, \<^verbatim>\<open>Commit\<close> and the deferred
  \<^verbatim>\<open>Rollback\<close>; its \<open>lost_ack\<close> is the commit whose acknowledgement never arrives,
  where the caller sees an error although the database has changed.
\<close>

section \<open>Errors\<close>

text \<open>The error values of the packages, prefixed by the package that declares them.\<close>

datatype err =
    OpErrInvalid | OpErrStore | OpErrConflict | OpErrStale | OpErrDenied | OpErrState | OpErrBusy
  | OpErrQuota | OpErrUnsupported | OpErrProvider | OpErrRecovery
  | WsErrNotFound | WsErrDenied | WsErrStore | WsErrInvalid | WsErrConflict | WsErrLimit
  | WsErrPolicyConflict | WsErrBootstrapExists
  | JobErrJob | JobErrNoJob | JobErrLease | JobErrActive | JobErrDrain
  | IdErrRecentRequired | IdErrUnauthenticated | IdErrStore | IdErrRateLimited | IdErrReauthUnsupported | IdErrRandomness
  | IdErrPolicy
  | IdentErrInvalid | AuditErrInvalid | AuditErrMetadata | AuditErrAppend
  | InvErrQuota | InvErrObservation | InvErrScan | ScanFailure string
  | OutErrNetwork | OutErrEndpoint | CtxErr | ProvErrBinding
  | EnvErrEnvelope | EnvErrKeyring
  | ConnErrNotFound | ConnErrStore | ConnErrVersion | ConnErrDisabled | ConnErrCredential | ConnErrUnsupported | ConnErrValidation
  | ConnErrValidationLimit | ConnErrRewrap | ReadErrInvalid | ReadErrStore | PlatformErr string

section \<open>The monad\<close>

record 'd txs =
  t_db :: 'd
  t_left :: "nat option"

type_synonym ('d, 'a) tx = "'d txs \<Rightarrow> (err + 'a) \<times> 'd txs"

definition tx_ret :: "'a \<Rightarrow> ('d, 'a) tx" where
  "tx_ret x = (\<lambda>s. (Inr x, s))"

definition tx_raise :: "err \<Rightarrow> ('d, 'a) tx" where
  "tx_raise e = (\<lambda>s. (Inl e, s))"

definition tx_bind :: "('d, 'a) tx \<Rightarrow> ('a \<Rightarrow> ('d, 'b) tx) \<Rightarrow> ('d, 'b) tx" where
  "tx_bind m f = (\<lambda>s. case m s of (Inl e, s') \<Rightarrow> (Inl e, s') | (Inr x, s') \<Rightarrow> f x s')"

text \<open>\<^verbatim>\<open>if err != nil { return e }\<close>: the callee's error is replaced by the caller's.\<close>

definition tx_as :: "err \<Rightarrow> ('d, 'a) tx \<Rightarrow> ('d, 'a) tx" where
  "tx_as e m = (\<lambda>s. case m s of (Inl _, s') \<Rightarrow> (Inl e, s') | (Inr x, s') \<Rightarrow> (Inr x, s'))"

text \<open>The callee's error as a value the caller inspects; the transaction goes on.\<close>

definition tx_try :: "('d, 'a) tx \<Rightarrow> ('d, err + 'a) tx" where
  "tx_try m = (\<lambda>s. case m s of (r, s') \<Rightarrow> (Inr r, s'))"

section \<open>Statements\<close>

text \<open>
  One statement: \<open>f\<close> gives its result and the new database, or \<open>None\<close> where a constraint is
  violated. \<open>e\<close> is what the Go code returns for the driver's error.
\<close>

definition sql :: "err \<Rightarrow> ('d \<Rightarrow> ('a \<times> 'd) option) \<Rightarrow> ('d, 'a) tx" where
  "sql e f = (\<lambda>s. if t_left s = Some 0 then (Inl e, s)
     else (case f (t_db s) of
         None \<Rightarrow> (Inl e, s\<lparr>t_left := Some 0\<rparr>)
       | Some (x, d) \<Rightarrow> (Inr x, s\<lparr>t_db := d, t_left := map_option (\<lambda>n. n - 1) (t_left s)\<rparr>)))"

definition query :: "err \<Rightarrow> ('d \<Rightarrow> 'a) \<Rightarrow> ('d, 'a) tx" where
  "query e f = sql e (\<lambda>d. Some (f d, d))"

text \<open>\<open>QueryRow(...).Scan\<close> with \<^verbatim>\<open>pgx.ErrNoRows\<close> told apart from other errors.\<close>

definition query_row :: "err \<Rightarrow> err \<Rightarrow> ('d \<Rightarrow> 'a option) \<Rightarrow> ('d, 'a) tx" where
  "query_row none e f = tx_bind (query e f) (\<lambda>r. case r of None \<Rightarrow> tx_raise none | Some x \<Rightarrow> tx_ret x)"

definition exec :: "err \<Rightarrow> ('d \<Rightarrow> 'd option) \<Rightarrow> ('d, unit) tx" where
  "exec e f = sql e (\<lambda>d. map_option (\<lambda>d'. ((), d')) (f d))"

section \<open>Success of a body\<close>

text \<open>
  A body that succeeds is a chain of successful statements. These equivalences turn
  \<open>body s = (Inr x, s')\<close> into the facts each statement saw and the database it left.
\<close>

lemma tx_ret_Inr [tx_simps]: "tx_ret x s = (Inr y, s') \<longleftrightarrow> y = x \<and> s' = s"
  by (auto simp: tx_ret_def)

lemma tx_raise_Inr [tx_simps]: "tx_raise e s = (Inr y, s') \<longleftrightarrow> False"
  by (simp add: tx_raise_def)

lemma tx_bind_Inr [tx_simps]:
  "tx_bind m f s = (Inr y, s') \<longleftrightarrow> (\<exists>x s1. m s = (Inr x, s1) \<and> f x s1 = (Inr y, s'))"
  by (auto simp: tx_bind_def split: prod.splits sum.splits)

lemma tx_as_Inr [tx_simps]: "tx_as e m s = (Inr y, s') \<longleftrightarrow> m s = (Inr y, s')"
  by (auto simp: tx_as_def split: prod.splits sum.splits)

lemma tx_try_Inr [tx_simps]: "tx_try m s = (Inr r, s') \<longleftrightarrow> m s = (r, s')"
  by (auto simp: tx_try_def split: prod.splits)

lemma sql_Inr [tx_simps]:
  "sql e f s = (Inr x, s') \<longleftrightarrow> t_left s \<noteq> Some 0 \<and>
     (\<exists>d. f (t_db s) = Some (x, d) \<and> s' = s\<lparr>t_db := d, t_left := map_option (\<lambda>n. n - 1) (t_left s)\<rparr>)"
  by (auto simp: sql_def split: option.splits)

lemma query_Inr [tx_simps]:
  "query e f s = (Inr x, s') \<longleftrightarrow> t_left s \<noteq> Some 0 \<and> x = f (t_db s)
     \<and> s' = s\<lparr>t_left := map_option (\<lambda>n. n - 1) (t_left s)\<rparr>"
  by (auto simp: query_def tx_simps)

lemma query_row_Inr [tx_simps]:
  "query_row none e f s = (Inr x, s') \<longleftrightarrow> t_left s \<noteq> Some 0 \<and> f (t_db s) = Some x
     \<and> s' = s\<lparr>t_left := map_option (\<lambda>n. n - 1) (t_left s)\<rparr>"
  by (auto simp: query_row_def tx_simps split: option.splits)

lemma exec_Inr [tx_simps]:
  "exec e f s = (Inr x, s') \<longleftrightarrow> t_left s \<noteq> Some 0 \<and>
     (\<exists>d. f (t_db s) = Some d \<and> s' = s\<lparr>t_db := d, t_left := map_option (\<lambda>n. n - 1) (t_left s)\<rparr>)"
  by (auto simp: exec_def tx_simps)

lemma if_tx_Inr [tx_simps]:
  "(if b then tx_raise e else m) s = (Inr x, s') \<longleftrightarrow> \<not> b \<and> m s = (Inr x, s')"
  by (simp add: tx_simps)

section \<open>Running\<close>

text \<open>What the network does to one transaction.\<close>

record net =
  n_left :: "nat option"
  n_lost_ack :: bool

definition good_net :: net where
  "good_net = \<lparr>n_left = None, n_lost_ack = False\<rparr>"

text \<open>\<open>eb\<close>: what the caller returns when \<^verbatim>\<open>BeginTx\<close> fails; \<open>ec\<close>: when \<^verbatim>\<open>Commit\<close> does.\<close>

definition run_tx :: "err \<Rightarrow> err \<Rightarrow> net \<Rightarrow> ('d, 'a) tx \<Rightarrow> 'd \<Rightarrow> (err + 'a) \<times> 'd" where
  "run_tx eb ec n m d =
     (if n_left n = Some 0 then (Inl eb, d)
      else (case m \<lparr>t_db = d, t_left = map_option (\<lambda>k. k - 1) (n_left n)\<rparr> of
          (Inl e, _) \<Rightarrow> (Inl e, d)
        | (Inr x, s) \<Rightarrow>
            (if t_left s = Some 0 then (Inl ec, d)
             else if n_lost_ack n then (Inl ec, t_db s)
             else (Inr x, t_db s))))"

text \<open>A transaction that only reads and is rolled back.\<close>

definition run_read :: "err \<Rightarrow> net \<Rightarrow> ('d, 'a) tx \<Rightarrow> 'd \<Rightarrow> err + 'a" where
  "run_read eb n m d =
     (if n_left n = Some 0 then Inl eb
      else fst (m \<lparr>t_db = d, t_left = map_option (\<lambda>k. k - 1) (n_left n)\<rparr>))"

text \<open>A single statement on the pool, its own transaction.\<close>

definition run_auto :: "err \<Rightarrow> net \<Rightarrow> ('d, 'a) tx \<Rightarrow> 'd \<Rightarrow> (err + 'a) \<times> 'd" where
  "run_auto e n m d =
     (case m \<lparr>t_db = d, t_left = n_left n\<rparr> of
          (Inl e', _) \<Rightarrow> (Inl e', d)
        | (Inr x, s) \<Rightarrow> (if n_lost_ack n then (Inl e, t_db s) else (Inr x, t_db s)))"

text \<open>
  Atomicity: whatever fails, the database is either as it was or as a body that ran to its end
  left it; and a value is returned only in the latter case.
\<close>

lemma run_tx_cases:
  assumes "run_tx eb ec n m d = (r, d')"
  obtains (unchanged) e where "r = Inl e" "d' = d"
  | (committed) x s s' where "t_db s = d" "m s = (Inr x, s')" "d' = t_db s'" "r = Inr x \<or> r = Inl ec"
proof (cases "n_left n = Some 0")
  case True
  with assms unchanged show ?thesis by (auto simp: run_tx_def)
next
  case False
  let ?s = "\<lparr>t_db = d, t_left = map_option (\<lambda>k. k - 1) (n_left n)\<rparr>"
  obtain q s' where m: "m ?s = (q, s')" by (cases "m ?s")
  show ?thesis
  proof (cases q)
    case (Inl e)
    with False m assms unchanged show ?thesis by (auto simp: run_tx_def)
  next
    case (Inr x)
    with False m assms unchanged committed [of ?s x s'] show ?thesis
      by (auto simp: run_tx_def split: if_splits)
  qed
qed

lemma run_tx_Inr:
  assumes "run_tx eb ec n m d = (Inr x, d')"
  obtains s s' where "t_db s = d" "m s = (Inr x, s')" "d' = t_db s'"
  using assms by (auto elim!: run_tx_cases)

lemma run_auto_cases:
  assumes "run_auto e n m d = (r, d')"
  obtains (unchanged) e' where "r = Inl e'" "d' = d"
  | (committed) x s s' where "t_db s = d" "m s = (Inr x, s')" "d' = t_db s'" "r = Inr x \<or> r = Inl e"
proof -
  let ?s = "\<lparr>t_db = d, t_left = n_left n\<rparr>"
  obtain q s' where m: "m ?s = (q, s')" by (cases "m ?s")
  show ?thesis
  proof (cases q)
    case (Inl e)
    with m assms unchanged show ?thesis by (auto simp: run_auto_def)
  next
    case (Inr x)
    with m assms committed [of ?s x s'] show ?thesis
      by (auto simp: run_auto_def split: if_splits)
  qed
qed

lemma run_read_Inr:
  assumes "run_read eb n m d = Inr x"
  obtains s s' where "t_db s = d" "m s = (Inr x, s')"
proof (cases "n_left n = Some 0")
  case True
  with assms show ?thesis by (simp add: run_read_def)
next
  case False
  let ?s = "\<lparr>t_db = d, t_left = map_option (\<lambda>k. k - 1) (n_left n)\<rparr>"
  obtain q s' where m: "m ?s = (q, s')" by (cases "m ?s")
  with False assms have "q = Inr x" by (simp add: run_read_def)
  with m that [of ?s s'] show ?thesis by simp
qed

section \<open>Invariants of bodies\<close>

text \<open>
  \<open>keeps I m\<close>: a body that succeeds from a database with \<open>I\<close> ends in one with \<open>I\<close>. Only
  success matters, because everything else is rolled back.
\<close>

definition keeps :: "('d \<Rightarrow> bool) \<Rightarrow> ('d, 'a) tx \<Rightarrow> bool" where
  "keeps I m \<longleftrightarrow> (\<forall>s x s'. I (t_db s) \<longrightarrow> m s = (Inr x, s') \<longrightarrow> I (t_db s'))"

lemma keepsD: "keeps I m \<Longrightarrow> m s = (Inr x, s') \<Longrightarrow> I (t_db s) \<Longrightarrow> I (t_db s')"
  by (auto simp: keeps_def)

lemma keepsI: "(\<And>s x s'. I (t_db s) \<Longrightarrow> m s = (Inr x, s') \<Longrightarrow> I (t_db s')) \<Longrightarrow> keeps I m"
  by (auto simp: keeps_def)

lemma keeps_ret [inv_intros]: "keeps I (tx_ret x)"
  by (auto simp: keeps_def tx_simps)

lemma keeps_raise [inv_intros]: "keeps I (tx_raise e)"
  by (auto simp: keeps_def tx_simps)

lemma keeps_bind [inv_intros]: "keeps I m \<Longrightarrow> (\<And>x. keeps I (f x)) \<Longrightarrow> keeps I (tx_bind m f)"
  by (rule keepsI) (auto simp: tx_bind_Inr dest: keepsD)

lemma keeps_as [inv_intros]: "keeps I m \<Longrightarrow> keeps I (tx_as e m)"
  by (auto simp: keeps_def tx_simps)

lemma keeps_if [inv_intros]: "(b \<Longrightarrow> keeps I m) \<Longrightarrow> (\<not> b \<Longrightarrow> keeps I m') \<Longrightarrow> keeps I (if b then m else m')"
  by simp

lemma keeps_case_option [inv_intros]:
  "keeps I m \<Longrightarrow> (\<And>x. v = Some x \<Longrightarrow> keeps I (f x)) \<Longrightarrow> keeps I (case v of None \<Rightarrow> m | Some x \<Rightarrow> f x)"
  by (cases v) auto

lemma keeps_case_prod [inv_intros]: "(\<And>x y. keeps I (f x y)) \<Longrightarrow> keeps I (case p of (x, y) \<Rightarrow> f x y)"
  by (cases p) auto

lemma keeps_let [inv_intros]: "(\<And>x. keeps I (f x)) \<Longrightarrow> keeps I (Let v f)"
  by simp

lemma keeps_query [inv_intros]: "keeps I (query e f)"
  by (auto simp: keeps_def tx_simps)

lemma keeps_query_row [inv_intros]: "keeps I (query_row none e f)"
  by (auto simp: keeps_def tx_simps)

lemma keeps_exec: "(\<And>d d'. I d \<Longrightarrow> f d = Some d' \<Longrightarrow> I d') \<Longrightarrow> keeps I (exec e f)"
  by (auto simp: keeps_def tx_simps)

lemma keeps_sql: "(\<And>d x d'. I d \<Longrightarrow> f d = Some (x, d') \<Longrightarrow> I d') \<Longrightarrow> keeps I (sql e f)"
  by (auto simp: keeps_def tx_simps)

lemma keeps_run_tx: "keeps I m \<Longrightarrow> I d \<Longrightarrow> I (snd (run_tx eb ec n m d))"
proof (cases "run_tx eb ec n m d" rule: prod.exhaust)
  case (Pair r d')
  assume "keeps I m" "I d"
  with Pair show ?thesis by (auto elim!: run_tx_cases dest: keepsD)
qed

lemma keeps_run_auto: "keeps I m \<Longrightarrow> I d \<Longrightarrow> I (snd (run_auto e n m d))"
proof (cases "run_auto e n m d" rule: prod.exhaust)
  case (Pair r d')
  assume "keeps I m" "I d"
  with Pair show ?thesis by (auto elim!: run_auto_cases dest: keepsD)
qed

section \<open>Bodies that may end without a commit\<close>

text \<open>
  Some handlers answer from what they read and let the deferred rollback close the transaction. Such
  a body returns whether it wants its changes committed, with its answer.
\<close>

definition run_tx_if :: "err \<Rightarrow> err \<Rightarrow> net \<Rightarrow> ('d, bool \<times> 'a) tx \<Rightarrow> 'd \<Rightarrow> (err + 'a) \<times> 'd" where
  "run_tx_if eb ec n m d =
     (if n_left n = Some 0 then (Inl eb, d)
      else (case m \<lparr>t_db = d, t_left = map_option (\<lambda>k. k - 1) (n_left n)\<rparr> of
          (Inl e, _) \<Rightarrow> (Inl e, d)
        | (Inr (commit, x), s) \<Rightarrow>
            (if \<not> commit then (Inr x, d)
             else if t_left s = Some 0 then (Inl ec, d)
             else if n_lost_ack n then (Inl ec, t_db s)
             else (Inr x, t_db s))))"

lemma run_tx_if_cases:
  assumes "run_tx_if eb ec n m d = (r, d')"
  obtains (unchanged) e where "r = Inl e" "d' = d"
  | (answered) x s s' where "t_db s = d" "m s = (Inr (False, x), s')" "r = Inr x" "d' = d"
  | (committed) x s s' where "t_db s = d" "m s = (Inr (True, x), s')" "d' = t_db s'" "r = Inr x \<or> r = Inl ec"
proof (cases "n_left n = Some 0")
  case True
  with assms unchanged show ?thesis by (auto simp: run_tx_if_def)
next
  case False
  let ?s = "\<lparr>t_db = d, t_left = map_option (\<lambda>k. k - 1) (n_left n)\<rparr>"
  obtain q s' where m: "m ?s = (q, s')" by (cases "m ?s")
  show ?thesis
  proof (cases q)
    case (Inl e)
    with False m assms unchanged show ?thesis by (auto simp: run_tx_if_def)
  next
    case (Inr cx)
    obtain c x where cx: "cx = (c, x)" by (cases cx)
    have db: "t_db ?s = d" by simp
    show ?thesis
    proof (cases c)
      case False
      with Inr cx m \<open>n_left n \<noteq> Some 0\<close> assms have "r = Inr x" "d' = d"
        by (auto simp: run_tx_if_def)
      moreover from False Inr cx m have "m ?s = (Inr (False, x), s')" by simp
      ultimately show ?thesis using answered [OF db] by blast
    next
      case True
      with Inr cx m have m': "m ?s = (Inr (True, x), s')" by simp
      with \<open>n_left n \<noteq> Some 0\<close> assms consider "r = Inl ec" "d' = d"
        | "d' = t_db s'" "r = Inr x \<or> r = Inl ec"
        by (auto simp: run_tx_if_def split: if_splits)
      then show ?thesis
        using unchanged committed [OF db m'] by cases blast+
    qed
  qed
qed

lemma keeps_run_tx_if: "keeps I m \<Longrightarrow> I d \<Longrightarrow> I (snd (run_tx_if eb ec n m d))"
proof (cases "run_tx_if eb ec n m d" rule: prod.exhaust)
  case (Pair r d')
  assume "keeps I m" "I d"
  with Pair show ?thesis by (auto elim!: run_tx_if_cases dest: keepsD)
qed

section \<open>Runs without failures\<close>

text \<open>On a connection that answers every statement, what each construct of a body does.\<close>

lemma query_live [tx_live]: "t_left s = None \<Longrightarrow> query e f s = (Inr (f (t_db s)), s)"
  by (simp add: query_def sql_def)

lemma query_row_live [tx_live]:
  "t_left s = None \<Longrightarrow> query_row none e f s = (case f (t_db s) of None \<Rightarrow> (Inl none, s) | Some x \<Rightarrow> (Inr x, s))"
  by (simp add: query_row_def tx_bind_def query_live tx_raise_def tx_ret_def split: option.splits)

lemma tx_bind_live [tx_live]: "m s = (Inr x, s') \<Longrightarrow> tx_bind m f s = f x s'"
  by (simp add: tx_bind_def)

lemma tx_bind_failed [tx_live]: "m s = (Inl e, s') \<Longrightarrow> tx_bind m f s = (Inl e, s')"
  by (simp add: tx_bind_def)

lemma run_read_live: "run_read eb good_net m d = fst (m \<lparr>t_db = d, t_left = None\<rparr>)"
  by (simp add: run_read_def good_net_def)

section \<open>Verification conditions\<close>

text \<open>
  \<open>vc m Q d\<close>: every successful run of the body \<open>m\<close> from the database \<open>d\<close> ends with a result and a
  database that satisfy \<open>Q\<close>. The rules are directed by the syntax of the body, one per construct, and
  each operation that is called from several bodies adds its own rule to the collection, so that
  the proof of a property of a handler is the proof of what its statements leave behind.
\<close>

named_theorems vc_rules "syntax directed rules for bodies"

definition vc :: "('d, 'a) tx \<Rightarrow> ('a \<Rightarrow> 'd \<Rightarrow> bool) \<Rightarrow> 'd \<Rightarrow> bool" where
  "vc m Q d \<longleftrightarrow> (\<forall>s x s'. t_db s = d \<longrightarrow> m s = (Inr x, s') \<longrightarrow> Q x (t_db s'))"

lemma vcD: "vc m Q d \<Longrightarrow> m s = (Inr x, s') \<Longrightarrow> t_db s = d \<Longrightarrow> Q x (t_db s')"
  by (auto simp: vc_def)

lemma vcI: "(\<And>s x s'. t_db s = d \<Longrightarrow> m s = (Inr x, s') \<Longrightarrow> Q x (t_db s')) \<Longrightarrow> vc m Q d"
  by (auto simp: vc_def)

lemma vc_mono: "vc m Q d \<Longrightarrow> (\<And>x d'. Q x d' \<Longrightarrow> R x d') \<Longrightarrow> vc m R d"
  by (auto simp: vc_def)

lemma vc_ret [vc_rules]: "Q x d \<Longrightarrow> vc (tx_ret x) Q d"
  by (auto simp: vc_def tx_simps)

lemma vc_raise [vc_rules]: "vc (tx_raise e) Q d"
  by (auto simp: vc_def tx_simps)

lemma vc_bind [vc_rules]: "vc m (\<lambda>x. vc (f x) Q) d \<Longrightarrow> vc (tx_bind m f) Q d"
  by (rule vcI) (auto simp: tx_bind_Inr dest!: vcD)

lemma vc_as [vc_rules]: "vc m Q d \<Longrightarrow> vc (tx_as e m) Q d"
  by (auto simp: vc_def tx_simps)

lemma vc_if [vc_rules]: "(b \<Longrightarrow> vc m Q d) \<Longrightarrow> (\<not> b \<Longrightarrow> vc m' Q d) \<Longrightarrow> vc (if b then m else m') Q d"
  by simp

lemma vc_case_option [vc_rules]:
  "(v = None \<Longrightarrow> vc m Q d) \<Longrightarrow> (\<And>x. v = Some x \<Longrightarrow> vc (f x) Q d) \<Longrightarrow> vc (case v of None \<Rightarrow> m | Some x \<Rightarrow> f x) Q d"
  by (cases v) auto

lemma vc_case_sum [vc_rules]:
  "(\<And>e. v = Inl e \<Longrightarrow> vc (g e) Q d) \<Longrightarrow> (\<And>x. v = Inr x \<Longrightarrow> vc (f x) Q d) \<Longrightarrow> vc (case v of Inl e \<Rightarrow> g e | Inr x \<Rightarrow> f x) Q d"
  by (cases v) auto

lemma vc_case_bool [vc_rules]: "(b \<Longrightarrow> vc m Q d) \<Longrightarrow> (\<not> b \<Longrightarrow> vc m' Q d) \<Longrightarrow> vc (case b of True \<Rightarrow> m | False \<Rightarrow> m') Q d"
  by (cases b) auto

lemma vc_case_prod [vc_rules]: "(\<And>x y. p = (x, y) \<Longrightarrow> vc (f x y) Q d) \<Longrightarrow> vc (case p of (x, y) \<Rightarrow> f x y) Q d"
  by (cases p) auto

lemma vc_let [vc_rules]: "(\<And>x. x = v \<Longrightarrow> vc (f x) Q d) \<Longrightarrow> vc (Let v f) Q d"
  by simp

lemma vc_query [vc_rules]: "Q (f d) d \<Longrightarrow> vc (query e f) Q d"
  by (auto simp: vc_def tx_simps)

lemma vc_query_row [vc_rules]: "(\<And>x. f d = Some x \<Longrightarrow> Q x d) \<Longrightarrow> vc (query_row none e f) Q d"
  by (auto simp: vc_def tx_simps)

lemma vc_exec [vc_rules]: "(\<And>d'. f d = Some d' \<Longrightarrow> Q () d') \<Longrightarrow> vc (exec e f) Q d"
  by (auto simp: vc_def tx_simps)

lemma vc_sql [vc_rules]: "(\<And>x d'. f d = Some (x, d') \<Longrightarrow> Q x d') \<Longrightarrow> vc (sql e f) Q d"
  by (auto simp: vc_def tx_simps)

lemma keeps_vc: "keeps I m \<longleftrightarrow> (\<forall>d. I d \<longrightarrow> vc m (\<lambda>_. I) d)"
  by (auto simp: keeps_def vc_def)

lemma vc_keeps: "(\<And>d. I d \<Longrightarrow> vc m (\<lambda>_. I) d) \<Longrightarrow> keeps I m"
  by (simp add: keeps_vc)

lemma keeps_imp_vc: "keeps I m \<Longrightarrow> I d \<Longrightarrow> (\<And>x d'. I d' \<Longrightarrow> Q x d') \<Longrightarrow> vc m Q d"
  by (auto simp: keeps_def vc_def)

text \<open>From a body to the handler that runs it.\<close>

lemma vc_run_tx:
  assumes "run_tx eb ec n m d = (r, d')" "vc m Q d"
  shows "(d' = d \<and> isl r) \<or> (\<exists>x. Q x d' \<and> (r = Inr x \<or> r = Inl ec))"
  using assms(1)
proof (cases rule: run_tx_cases)
  case (committed x s s')
  with assms(2) have "Q x d'" by (auto dest: vcD)
  with committed show ?thesis by blast
qed auto

lemma vc_run_tx_Inr: "run_tx eb ec n m d = (Inr x, d') \<Longrightarrow> vc m Q d \<Longrightarrow> Q x d'"
  by (auto elim!: run_tx_Inr dest: vcD)

lemma vc_run_auto:
  assumes "run_auto e n m d = (r, d')" "vc m Q d"
  shows "(d' = d \<and> isl r) \<or> (\<exists>x. Q x d' \<and> (r = Inr x \<or> r = Inl e))"
  using assms(1)
proof (cases rule: run_auto_cases)
  case (committed x s s')
  with assms(2) have "Q x d'" by (auto dest: vcD)
  with committed show ?thesis by blast
qed auto

lemma vc_run_tx_if:
  assumes "run_tx_if eb ec n m d = (r, d')" "vc m Q d"
  shows "(d' = d \<and> isl r) \<or> (\<exists>x d1. Q (False, x) d1 \<and> r = Inr x \<and> d' = d)
     \<or> (\<exists>x. Q (True, x) d' \<and> (r = Inr x \<or> r = Inl ec))"
  using assms(1)
proof (cases rule: run_tx_if_cases)
  case (answered x s s')
  with assms(2) have "Q (False, x) (t_db s')" by (auto dest: vcD)
  with answered show ?thesis by blast
next
  case (committed x s s')
  with assms(2) have "Q (True, x) d'" by (auto dest: vcD)
  with committed show ?thesis by blast
qed auto

end
