(* ===== verification/Sama_Schema.thy ===== *)
theory Sama_Schema
  imports Sama_Tx
begin

text \<open>
  The PostgreSQL schema of \<^verbatim>\<open>backend/migrations\<close>: one record per table the modelled
  packages read or write, with the columns they use, and the database as the record of all
  tables. A nullable column is an \<open>option\<close>; a composite key is a tuple of columns.
  The states of operations and jobs, text columns with a \<^verbatim>\<open>CHECK\<close> over a fixed list, are
  datatypes; \<open>state_text\<close> gives their spelling.
\<close>

section \<open>Identity and workspaces\<close>

record user_row =
  u_id :: uuid
  u_issuer :: string
  u_subject :: string
  u_display_name :: string
  u_disabled_at :: "time option"

record workspace_row =
  w_id :: uuid
  w_name :: string
  w_policy_version :: int
  w_closed_at :: "time option"
  w_queue_limit :: int
  w_audit_retention_days :: int

record membership_row =
  m_workspace :: uuid
  m_user :: uuid
  m_role :: string
  m_version :: int

record session_row =
  s_token_digest :: string
  s_user :: uuid
  s_csrf_digest :: string
  s_authenticated_at :: time
  s_created_at :: time
  s_last_seen_at :: time
  s_idle_expires_at :: time
  s_absolute_expires_at :: time
  s_reauthenticated :: bool
  s_audit_workspace :: "uuid option"

record challenge_row =
  h_state_digest :: string
  h_browser_digest :: string
  h_nonce :: string
  h_verifier :: string
  h_created_at :: time
  h_expires_at :: time
  h_invitation_digest :: "string option"
  h_session_digest :: "string option"

record invitation_row =
  i_token_digest :: string
  i_workspace :: uuid
  i_inviter :: uuid
  i_inviter_version :: int
  i_issuer :: string
  i_subject :: string
  i_role :: string
  i_expires_at :: time

section \<open>Connections\<close>

record connection_row =
  c_id :: uuid
  c_workspace :: uuid
  c_provider :: string
  c_api_family :: string
  c_account_identity :: string
  c_region_policy :: "string list"
  c_label :: string
  c_status :: string
  c_active_version :: "int option"
  c_permissions_verified_at :: "time option"
  c_verified_capabilities :: "string list"

record credential_row =
  v_workspace :: uuid
  v_connection :: uuid
  v_version :: int
  v_ciphertext :: string
  v_nonce :: string
  v_wrapped_data_key :: string
  v_wrapping_nonce :: string
  v_encryption_format :: int
  v_master_key_id :: string
  v_revoked_at :: "time option"

record grant_row =
  g_workspace :: uuid
  g_connection :: uuid
  g_user :: uuid
  g_actions :: "string list"

section \<open>Jobs\<close>

datatype job_state = JQueued | JRunning | JSucceeded | JFailed | JCancelled

record job_row =
  j_id :: uuid
  j_workspace :: uuid
  j_connection :: uuid
  j_type :: string
  j_payload_version :: int
  j_operation :: "uuid option"
  j_sync :: "uuid option"
  j_state :: job_state
  j_next_run_at :: time
  j_lease_owner :: "uuid option"
  j_lease_token :: "uuid option"
  j_lease_expires_at :: "time option"
  j_attempts :: int
  j_deadline :: time
  j_created_at :: time
  j_completed_at :: "time option"

section \<open>Inventory\<close>

record sync_row =
  sy_id :: uuid
  sy_workspace :: uuid
  sy_connection :: uuid
  sy_resource_type :: string
  sy_scope :: string
  sy_generation :: uuid
  sy_generation_number :: int
  sy_status :: string
  sy_page_count :: int
  sy_started_at :: "time option"
  sy_completed_at :: "time option"
  sy_actor :: "uuid option"
  sy_scan_complete :: bool
  sy_credential_version :: "int option"
  sy_failure_code :: "string option"

text \<open>
  The allowlisted details of a resource. A \<^verbatim>\<open>float64\<close> is not a number, infinite, or a mantissa and
  an exponent of two; sizes are copied and only compared with zero.
\<close>

datatype float64 = FNaN | FInf bool | FFin int int

fun float_ok :: "float64 \<Rightarrow> bool" where
  "float_ok (FFin m _) = (0 \<le> m)"
| "float_ok _ = False"

record snapshot_details =
  sd_SourceNativeID :: string
  sd_SourceType :: string
  sd_StatusReason :: string
  sd_CreatedAt :: "time option"
  sd_NativeCreatedAt :: string
  sd_CreationTimeReason :: string
  sd_SizeBytes :: "int option"
  sd_SizeGB :: "float64 option"
  sd_MinimumDiskGB :: "float64 option"
  sd_Regions :: "string list"

record details =
  dt_Region :: string
  dt_MachineType :: string
  dt_Snapshot :: "snapshot_details option"

record resource_row =
  r_id :: uuid
  r_workspace :: uuid
  r_connection :: uuid
  r_api_family :: string
  r_type :: string
  r_scope :: string
  r_native_id :: string
  r_native_status :: string
  r_status :: string
  r_name :: string
  r_details :: details
  r_observed_at :: time
  r_generation :: uuid
  r_tombstoned_at :: "time option"
  r_version :: int

section \<open>Operations\<close>

datatype op_state =
    Queued | Dispatching | WaitingProvider | Reconciling | Unknown | Succeeded | Failed | Cancelled

fun state_text :: "op_state \<Rightarrow> string" where
  "state_text Queued = ''queued''"
| "state_text Dispatching = ''dispatching''"
| "state_text WaitingProvider = ''waiting_provider''"
| "state_text Reconciling = ''reconciling''"
| "state_text Unknown = ''unknown''"
| "state_text Succeeded = ''succeeded''"
| "state_text Failed = ''failed''"
| "state_text Cancelled = ''cancelled''"

text \<open>A JSON document, as \<^verbatim>\<open>jsonb\<close> columns and \<^verbatim>\<open>encoding/json\<close> see it.\<close>

datatype json = JNull | JBool bool | JNum int | JStr string | JArr "json list" | JObj "(string \<times> json) list"

record review_row =
  ar_id :: uuid
  ar_workspace :: uuid
  ar_actor :: uuid
  ar_connection :: uuid
  ar_resource :: uuid
  ar_action :: string
  ar_intent :: json
  ar_intent_hash :: string
  ar_precondition_hash :: string
  ar_credential_version :: int
  ar_policy_version :: int
  ar_high_impact :: bool
  ar_target_name :: string
  ar_expires_at :: time
  ar_created_at :: time
  ar_consumed_by :: "uuid option"

record operation_row =
  o_id :: uuid
  o_workspace :: uuid
  o_actor :: uuid
  o_connection :: uuid
  o_resource :: uuid
  o_action :: string
  o_intent :: json
  o_intent_hash :: string
  o_idempotency_key :: string
  o_review :: uuid
  o_credential_version :: int
  o_policy_version :: int
  o_state :: op_state
  o_version :: int
  o_event_sequence :: int
  o_deadline :: time
  o_created_at :: time
  o_updated_at :: time
  o_reference :: "string option"

text \<open>The first event of an operation has the empty string as its \<^verbatim>\<open>from_state\<close>: \<open>None\<close>.\<close>

record event_row =
  e_id :: uuid
  e_workspace :: uuid
  e_operation :: uuid
  e_sequence :: int
  e_from :: "op_state option"
  e_to :: op_state
  e_created_at :: time

record lock_row =
  l_workspace :: uuid
  l_connection :: uuid
  l_target_kind :: string
  l_resource_type :: string
  l_scope :: string
  l_native_id :: string
  l_operation :: uuid
  l_fence :: int

record gate_row =
  gate_open :: bool
  gate_version :: int

record resolution_row =
  x_id :: uuid
  x_workspace :: uuid
  x_operation :: uuid
  x_actor :: uuid
  x_audit :: uuid

section \<open>Audit\<close>

record audit_row =
  a_id :: uuid
  a_workspace :: uuid
  a_actor_kind :: string
  a_actor :: "uuid option"
  a_event_type :: string
  a_request :: string
  a_metadata :: "(string \<times> string) list"
  a_created_at :: time

section \<open>The database\<close>

record db =
  users :: "user_row list"
  workspaces :: "workspace_row list"
  memberships :: "membership_row list"
  sessions :: "session_row list"
  invitations :: "invitation_row list"
  bootstraps :: "(uuid \<times> uuid) list"
  connections :: "connection_row list"
  credential_versions :: "credential_row list"
  grants :: "grant_row list"
  jobs :: "job_row list"
  sync_runs :: "sync_row list"
  sync_counter :: int
  resources :: "resource_row list"
  staging :: "resource_row list"
  reviews :: "review_row list"
  operations :: "operation_row list"
  events :: "event_row list"
  locks :: "lock_row list"
  lock_counter :: int
  gate :: "gate_row option"
  resolutions :: "resolution_row list"
  audit_events :: "audit_row list"
  challenges :: "challenge_row list"
  login_budget :: "(time \<times> int) option"

definition empty_db :: db where
  "empty_db = \<lparr>users = [], workspaces = [], memberships = [], sessions = [], invitations = [],
     bootstraps = [], connections = [], credential_versions = [], grants = [], jobs = [],
     sync_runs = [], sync_counter = 0, resources = [], staging = [], reviews = [], operations = [],
     events = [], locks = [], lock_counter = 0,
     gate = Some \<lparr>gate_open = False, gate_version = 1\<rparr>, resolutions = [], audit_events = [], challenges = [], login_budget = None\<rparr>"

type_synonym 'a dbtx = "(db, 'a) tx"

section \<open>Rows most queries join\<close>

definition open_workspace :: "db \<Rightarrow> uuid \<Rightarrow> workspace_row option" where
  "open_workspace d w = fetch (\<lambda>r. w_id r = w \<and> w_closed_at r = None) (workspaces d)"

definition enabled_user :: "db \<Rightarrow> uuid \<Rightarrow> bool" where
  "enabled_user d u \<longleftrightarrow> (\<exists>r \<in> set (users d). u_id r = u \<and> u_disabled_at r = None)"

text \<open>\<^verbatim>\<open>memberships m JOIN users u ON u.id=m.user_id AND u.disabled_at IS NULL\<close>.\<close>

definition live_member :: "db \<Rightarrow> uuid \<Rightarrow> uuid \<Rightarrow> membership_row option" where
  "live_member d w u = fetch (\<lambda>m. m_workspace m = w \<and> m_user m = u \<and> enabled_user d u) (memberships d)"

definition grant_of :: "db \<Rightarrow> uuid \<Rightarrow> uuid \<Rightarrow> uuid \<Rightarrow> grant_row option" where
  "grant_of d w c u = fetch (\<lambda>g. g_workspace g = w \<and> g_connection g = c \<and> g_user g = u) (grants d)"

definition connection_of :: "db \<Rightarrow> uuid \<Rightarrow> uuid \<Rightarrow> connection_row option" where
  "connection_of d w c = fetch (\<lambda>r. c_workspace r = w \<and> c_id r = c) (connections d)"

text \<open>The active credential version of a connection, where it is not revoked.\<close>

definition live_credential :: "db \<Rightarrow> connection_row \<Rightarrow> int option" where
  "live_credential d c = (case c_active_version c of None \<Rightarrow> None
     | Some v \<Rightarrow> map_option v_version (fetch (\<lambda>r. v_workspace r = c_workspace c
         \<and> v_connection r = c_id c \<and> v_version r = v \<and> v_revoked_at r = None) (credential_versions d)))"

lemma open_workspace_Some:
  "open_workspace d w = Some r \<Longrightarrow> r \<in> set (workspaces d) \<and> w_id r = w \<and> w_closed_at r = None"
  by (auto simp: open_workspace_def dest: fetch_Some)

lemma live_member_Some:
  "live_member d w u = Some m \<Longrightarrow>
     m \<in> set (memberships d) \<and> m_workspace m = w \<and> m_user m = u \<and> enabled_user d u"
  by (auto simp: live_member_def dest: fetch_Some)

lemma grant_of_Some:
  "grant_of d w c u = Some g \<Longrightarrow> g \<in> set (grants d) \<and> g_workspace g = w \<and> g_connection g = c \<and> g_user g = u"
  by (auto simp: grant_of_def dest: fetch_Some)

lemma connection_of_Some:
  "connection_of d w c = Some r \<Longrightarrow> r \<in> set (connections d) \<and> c_workspace r = w \<and> c_id r = c"
  by (auto simp: connection_of_def dest: fetch_Some)

lemma live_credential_Some:
  "live_credential d c = Some v \<Longrightarrow> c_active_version c = Some v \<and>
     (\<exists>r \<in> set (credential_versions d). v_workspace r = c_workspace c \<and> v_connection r = c_id c
        \<and> v_version r = v \<and> v_revoked_at r = None)"
  by (auto simp: live_credential_def dest!: fetch_Some split: option.splits)

end
