(* ===== verification/Sama_Job.thy ===== *)
theory Sama_Job
  imports Sama_Schema "HOL-Library.Product_Lexorder"
begin

text \<open>
  Package \<^verbatim>\<open>job\<close>: durable job records, the lease protocol of \<^verbatim>\<open>lease.go\<close> (claim,
  renew, finish), the renewal loop with its watchdog, the worker loop of \<^verbatim>\<open>runner.go\<close> and the
  retention of \<^verbatim>\<open>prune.go\<close>. The lease is the fence every writer of the operation package relies on:
  \<open>holds\<close> is its meaning, and the locale \<open>lease_store\<close> is the contract a client may use.
\<close>

section \<open>Records\<close>

record job_record =
  jr_Operation :: uuid
  jr_ID :: uuid
  jr_Workspace :: uuid
  jr_Connection :: uuid
  jr_Type :: string
  jr_PayloadVersion :: int
  jr_Deadline :: time

record lease = job_record +
  le_Token :: uuid
  le_Owner :: uuid

text \<open>The \<^verbatim>\<open>CHECK\<close> constraints of the table, on one row.\<close>

definition job_row_check :: "job_row \<Rightarrow> bool" where
  "job_row_check r \<longleftrightarrow>
     0 \<le> j_attempts r \<and> j_attempts r \<le> 100 \<and> j_created_at r < j_deadline r \<and> j_next_run_at r \<le> j_deadline r
     \<and> ((j_lease_owner r = None) = (j_lease_token r = None)) \<and> ((j_lease_owner r = None) = (j_lease_expires_at r = None))
     \<and> (j_state r = JRunning \<longrightarrow> j_lease_token r \<noteq> None)
     \<and> (case j_completed_at r of None \<Rightarrow> True | Some t \<Rightarrow> j_created_at r \<le> t)
     \<and> ((j_type r = ''connection_refresh'' \<and> j_operation r = None \<and> j_payload_version r = 1 \<and> j_sync r = None)
       \<or> (j_type r = ''connection_refresh'' \<and> j_operation r = None \<and> j_payload_version r = 2 \<and> j_sync r \<noteq> None)
       \<or> (j_type r = ''operation_dispatch'' \<and> j_payload_version r = 3 \<and> j_sync r = None \<and> j_operation r \<noteq> None))"

text \<open>Keys and references of an inserted row; \<^verbatim>\<open>jobs_operation\<close> allows one job per operation.\<close>

definition insert_job :: "job_row \<Rightarrow> db \<Rightarrow> db option" where
  "insert_job r d =
     (if job_row_check r \<and> j_id r \<notin> set (map j_id (jobs d))
         \<and> connection_of d (j_workspace r) (j_connection r) \<noteq> None
         \<and> (case j_operation r of None \<Rightarrow> True | Some i \<Rightarrow>
              Some i \<notin> set (map j_operation (jobs d))
              \<and> (\<exists>p \<in> set (operations d). o_workspace p = j_workspace r \<and> o_connection p = j_connection r \<and> o_id p = i))
         \<and> (case j_sync r of None \<Rightarrow> True | Some i \<Rightarrow>
              \<exists>p \<in> set (sync_runs d). sy_workspace p = j_workspace r \<and> sy_connection p = j_connection r \<and> sy_id p = i)
      then Some (d\<lparr>jobs := jobs d @ [r]\<rparr>) else None)"

text \<open>\<^verbatim>\<open>UPDATE jobs SET ... WHERE ...\<close>: the updated rows must pass the checks.\<close>

definition update_jobs :: "(job_row \<Rightarrow> bool) \<Rightarrow> (job_row \<Rightarrow> job_row) \<Rightarrow> db \<Rightarrow> db option" where
  "update_jobs P f d =
     (if list_all (\<lambda>r. P r \<longrightarrow> job_row_check (f r)) (jobs d) then Some (d\<lparr>jobs := upd P f (jobs d)\<rparr>) else None)"

definition new_job :: "time \<Rightarrow> job_record \<Rightarrow> uuid option \<Rightarrow> uuid option \<Rightarrow> job_row" where
  "new_job clk record oper sync = \<lparr>j_id = jr_ID record, j_workspace = jr_Workspace record, j_connection = jr_Connection record,
     j_type = jr_Type record, j_payload_version = jr_PayloadVersion record, j_operation = oper, j_sync = sync,
     j_state = JQueued, j_next_run_at = clk, j_lease_owner = None, j_lease_token = None, j_lease_expires_at = None,
     j_attempts = 0, j_deadline = jr_Deadline record, j_created_at = clk, j_completed_at = None\<rparr>"

definition Insert :: "time \<Rightarrow> job_record \<Rightarrow> unit dbtx" where
  "Insert clk record =
     (if uuid_version (jr_ID record) \<noteq> 7 \<or> uuid_version (jr_Workspace record) \<noteq> 7 \<or> uuid_version (jr_Connection record) \<noteq> 7
         \<or> jr_Type record \<noteq> ''connection_refresh'' \<or> jr_PayloadVersion record \<noteq> 1 \<or> jr_Operation record \<noteq> uuid_Nil
      then tx_raise JobErrJob
      else exec JobErrJob (insert_job (new_job clk record None None)))"

definition InsertOperation :: "time \<Rightarrow> job_record \<Rightarrow> unit dbtx" where
  "InsertOperation clk record =
     (if uuid_version (jr_ID record) \<noteq> 7 \<or> uuid_version (jr_Workspace record) \<noteq> 7 \<or> uuid_version (jr_Connection record) \<noteq> 7
         \<or> uuid_version (jr_Operation record) \<noteq> 7 \<or> jr_Type record \<noteq> ''operation_dispatch'' \<or> jr_PayloadVersion record \<noteq> 3
      then tx_raise JobErrJob
      else exec JobErrJob (insert_job (new_job clk record (Some (jr_Operation record)) None)))"

section \<open>The lease protocol\<close>

record scheduler =
  sc_Operations :: bool
  sc_Maintenance :: "(db \<Rightarrow> (err + unit) \<times> db) option"

definition lease_seconds :: time where
  "lease_seconds = 60 * second"

text \<open>The candidates of \<open>Claim\<close>: due, not exhausted, and not locked by another transaction (\<open>skip\<close>).\<close>

definition due :: "scheduler \<Rightarrow> time \<Rightarrow> job_row \<Rightarrow> bool" where
  "due s now j \<longleftrightarrow>
     (j_type j = ''connection_refresh'' \<or> (sc_Operations s \<and> j_type j = ''operation_dispatch'' \<and> j_payload_version j = 3))
     \<and> j_deadline j > now \<and> j_attempts j < 100
     \<and> ((j_state j = JQueued \<and> j_next_run_at j \<le> now)
        \<or> (j_state j = JRunning \<and> (case j_lease_expires_at j of None \<Rightarrow> False | Some t \<Rightarrow> t \<le> now)))"

definition queue_key :: "job_row \<Rightarrow> time \<times> uuid" where
  "queue_key j = (j_next_run_at j, j_id j)"

definition candidate :: "scheduler \<Rightarrow> (uuid \<Rightarrow> bool) \<Rightarrow> time \<Rightarrow> db \<Rightarrow> job_row option" where
  "candidate s skip now d =
     (case sort_key queue_key (filter (\<lambda>j. due s now j \<and> \<not> skip (j_id j)) (jobs d)) of [] \<Rightarrow> None | j # _ \<Rightarrow> Some j)"

definition leased :: "time \<Rightarrow> uuid \<Rightarrow> uuid \<Rightarrow> job_row \<Rightarrow> job_row" where
  "leased now owner token j = j\<lparr>j_state := JRunning, j_lease_owner := Some owner, j_lease_token := Some token,
     j_lease_expires_at := Some (min (now + lease_seconds) (j_deadline j)), j_attempts := j_attempts j + 1\<rparr>"

definition lease_of :: "uuid \<Rightarrow> uuid \<Rightarrow> job_row \<Rightarrow> lease" where
  "lease_of owner token j = \<lparr>jr_Operation = uuid_Nil, jr_ID = j_id j, jr_Workspace = j_workspace j, jr_Connection = j_connection j,
     jr_Type = j_type j, jr_PayloadVersion = j_payload_version j, jr_Deadline = j_deadline j, le_Token = token, le_Owner = owner\<rparr>"

definition claim_tx :: "scheduler \<Rightarrow> (uuid \<Rightarrow> bool) \<Rightarrow> time \<Rightarrow> uuid \<Rightarrow> uuid \<Rightarrow> lease dbtx" where
  "claim_tx s skip now owner token =
     tx_bind (sql JobErrLease (\<lambda>d. case candidate s skip now d of
         None \<Rightarrow> Some (None, d)
       | Some j \<Rightarrow> map_option (\<lambda>d'. (Some j, d')) (update_jobs (\<lambda>r. j_id r = j_id j) (leased now owner token) d)))
     (\<lambda>r. case r of None \<Rightarrow> tx_raise JobErrNoJob | Some j \<Rightarrow> tx_ret (lease_of owner token j))"

definition Claim :: "scheduler \<Rightarrow> net \<Rightarrow> (uuid \<Rightarrow> bool) \<Rightarrow> time \<Rightarrow> uuid option \<Rightarrow> uuid \<Rightarrow> db \<Rightarrow> (err + lease) \<times> db" where
  "Claim s n skip now token owner d =
     (if owner = uuid_Nil then (Inl JobErrLease, d)
      else (case (case sc_Maintenance s of None \<Rightarrow> (Inr (), d) | Some m \<Rightarrow> m d) of
          (Inl e, d1) \<Rightarrow> (Inl e, d1)
        | (Inr _, d1) \<Rightarrow> (case token of None \<Rightarrow> (Inl JobErrLease, d1)
            | Some t \<Rightarrow> run_tx JobErrLease JobErrLease n (claim_tx s skip now owner t) d1)))"

text \<open>The guard every write under a lease repeats.\<close>

definition holds :: "lease \<Rightarrow> time \<Rightarrow> job_row \<Rightarrow> bool" where
  "holds lease now j \<longleftrightarrow> j_id j = jr_ID lease \<and> j_lease_owner j = Some (le_Owner lease) \<and> j_lease_token j = Some (le_Token lease)
     \<and> j_state j = JRunning \<and> (case j_lease_expires_at j of None \<Rightarrow> False | Some t \<Rightarrow> t > now) \<and> j_deadline j > now"

definition renew_tx :: "lease \<Rightarrow> time \<Rightarrow> time dbtx" where
  "renew_tx lease now =
     tx_bind (sql JobErrLease (\<lambda>d. case fetch (holds lease now) (jobs d) of
         None \<Rightarrow> Some (None, d)
       | Some j \<Rightarrow> map_option (\<lambda>d'. (Some (min (now + lease_seconds) (j_deadline j)), d'))
           (update_jobs (holds lease now) (\<lambda>r. r\<lparr>j_lease_expires_at := Some (min (now + lease_seconds) (j_deadline r))\<rparr>) d)))
     (\<lambda>r. case r of None \<Rightarrow> tx_raise JobErrLease | Some t \<Rightarrow> tx_ret t)"

text \<open>\<open>started\<close> is the process clock before the statement, \<open>now\<close> the scheduler's: latency consumes the lease.\<close>

definition renew :: "net \<Rightarrow> time \<Rightarrow> time \<Rightarrow> lease \<Rightarrow> db \<Rightarrow> (err + time) \<times> db" where
  "renew n started now lease d = (case run_auto JobErrLease n (renew_tx lease now) d of
       (Inl e, d') \<Rightarrow> (Inl e, d')
     | (Inr expires, d') \<Rightarrow> (Inr (started + (expires - now)), d'))"

definition Renew :: "net \<Rightarrow> time \<Rightarrow> time \<Rightarrow> lease \<Rightarrow> db \<Rightarrow> (err + unit) \<times> db" where
  "Renew n started now lease d = (case renew n started now lease d of (r, d') \<Rightarrow> (map_sum (\<lambda>e. e) (\<lambda>_. ()) r, d'))"

definition completed :: "time \<Rightarrow> job_state \<Rightarrow> job_row \<Rightarrow> job_row" where
  "completed clk state j = j\<lparr>j_state := state, j_completed_at := Some clk, j_lease_owner := None, j_lease_token := None,
     j_lease_expires_at := None\<rparr>"

definition finish_tx :: "time \<Rightarrow> lease \<Rightarrow> job_state \<Rightarrow> time \<Rightarrow> unit dbtx" where
  "finish_tx clk lease state now =
     tx_bind (sql JobErrLease (\<lambda>d. map_option (\<lambda>d'. (cnt (holds lease now) (jobs d), d'))
        (update_jobs (holds lease now) (completed clk state) d)))
     (\<lambda>affected. if affected \<noteq> 1 then tx_raise JobErrLease else tx_ret ())"

definition Finish :: "net \<Rightarrow> time \<Rightarrow> time \<Rightarrow> lease \<Rightarrow> job_state \<Rightarrow> db \<Rightarrow> (err + unit) \<times> db" where
  "Finish n clk now lease state d =
     (if state \<noteq> JSucceeded \<and> state \<noteq> JFailed then (Inl JobErrLease, d)
      else run_auto JobErrLease n (finish_tx clk lease state now) d)"

section \<open>The renewal loop\<close>

text \<open>
  \<open>runRenewing\<close> as a machine over what its select loop and its watchdog see: time passing, the parent
  context ending, a renewal answered on a tick, and the work returning. \<open>ru_cause\<close> is
  \<^verbatim>\<open>context.Cause\<close> of the context the work runs under, \<open>None\<close> while it is live.
\<close>

record run_state =
  ru_now :: time
  ru_expires :: time
  ru_cause :: "err option"
  ru_result :: "err option option"

datatype run_event = Pass time | Parent err | Tick "err + time" | Done "err option"

definition cancel :: "err \<Rightarrow> run_state \<Rightarrow> run_state" where
  "cancel e s = (if ru_cause s = None then s\<lparr>ru_cause := Some e\<rparr> else s)"

fun run_step :: "run_state \<Rightarrow> run_event \<Rightarrow> run_state" where
  "run_step s (Pass t) = (let s1 = s\<lparr>ru_now := max (ru_now s) t\<rparr> in
     if ru_now s1 \<ge> ru_expires s1 then cancel JobErrLease s1 else s1)"
| "run_step s (Parent e) = cancel e s"
| "run_step s (Tick r) = (case r of
       Inl _ \<Rightarrow> cancel JobErrLease s
     | Inr expires \<Rightarrow> if ru_cause s \<noteq> None \<or> \<not> ru_now s < ru_expires s \<or> \<not> ru_now s < expires then cancel JobErrLease s
         else s\<lparr>ru_expires := expires\<rparr>)"
| "run_step s (Done r) = (if ru_result s = None then s\<lparr>ru_result := Some (if ru_cause s \<noteq> None then ru_cause s else r)\<rparr> else s)"

text \<open>The first renewal, before any work starts; \<open>parent\<close> is the parent context's state then.\<close>

definition run_start :: "time \<Rightarrow> err option \<Rightarrow> err + time \<Rightarrow> err + run_state" where
  "run_start now parent granted = (case granted of
       Inl _ \<Rightarrow> Inl JobErrLease
     | Inr expires \<Rightarrow> if parent \<noteq> None \<or> \<not> now < expires then Inl JobErrLease
         else Inr \<lparr>ru_now = now, ru_expires = expires, ru_cause = None, ru_result = None\<rparr>)"

definition runRenewing :: "time \<Rightarrow> err option \<Rightarrow> err + time \<Rightarrow> run_event list \<Rightarrow> err + run_state" where
  "runRenewing now parent granted evs = (case run_start now parent granted of
       Inl e \<Rightarrow> Inl e | Inr s \<Rightarrow> Inr (foldl run_step s evs))"

text \<open>\<open>Run\<close>: a lease past its deadline is refused before the first renewal.\<close>

definition Run :: "time \<Rightarrow> time \<Rightarrow> lease \<Rightarrow> err option \<Rightarrow> err + time \<Rightarrow> run_event list \<Rightarrow> err + run_state" where
  "Run now sched_now lease parent granted evs =
     (if \<not> now < now + (jr_Deadline lease - sched_now) then Inl JobErrLease else runRenewing now parent granted evs)"

section \<open>Retention\<close>

text \<open>\<open>terminal\<close>: the operation, if the job has one, reached an outcome that no one will observe again.\<close>

definition op_terminal :: "op_state \<Rightarrow> bool" where
  "op_terminal s \<longleftrightarrow> s \<in> {Succeeded, Failed, Cancelled}"

definition job_prunable :: "time \<Rightarrow> db \<Rightarrow> job_row \<Rightarrow> bool" where
  "job_prunable clk d j \<longleftrightarrow> j_state j \<in> {JSucceeded, JFailed, JCancelled}
     \<and> (case j_completed_at j of None \<Rightarrow> False | Some t \<Rightarrow> t < clk - 7 * day)
     \<and> (case j_operation j of None \<Rightarrow> True | Some i \<Rightarrow>
          \<exists>p \<in> set (operations d). o_workspace p = j_workspace j \<and> o_id p = i \<and> op_terminal (o_state p))"

definition prune_batch :: "time \<Rightarrow> (uuid \<Rightarrow> bool) \<Rightarrow> db \<Rightarrow> uuid list" where
  "prune_batch clk skip d = map j_id (take 100 (sort_key (\<lambda>j. (the (j_completed_at j), j_id j))
     (filter (\<lambda>j. job_prunable clk d j \<and> \<not> skip (j_id j)) (jobs d))))"

definition PruneTerminal :: "net \<Rightarrow> time \<Rightarrow> (uuid \<Rightarrow> bool) \<Rightarrow> db \<Rightarrow> (err + nat) \<times> db" where
  "PruneTerminal n clk skip d = run_auto JobErrJob n (sql JobErrJob (\<lambda>d.
     let expired = prune_batch clk skip d in
     Some (cnt (\<lambda>j. j_id j \<in> set expired) (jobs d), d\<lparr>jobs := del (\<lambda>j. j_id j \<in> set expired) (jobs d)\<rparr>))) d"

section \<open>The runner\<close>

type_synonym job_key = "string \<times> int"
type_synonym handler = "(lease \<Rightarrow> db \<Rightarrow> (err + unit) \<times> db) \<times> (lease \<Rightarrow> err option \<Rightarrow> db \<Rightarrow> (err + unit) \<times> db)"

record runner =
  rn_workers :: int
  rn_drain :: time
  rn_handlers :: "(job_key \<times> handler) list"
  rn_reject :: "lease \<Rightarrow> db \<Rightarrow> (err + unit) \<times> db"

text \<open>Nil pointers and nil functions are \<open>None\<close>; \<open>pool_ok\<close>: the scheduler has a pool and a clock.\<close>

definition NewRunner :: "bool \<Rightarrow> int \<Rightarrow> time \<Rightarrow> (job_key \<times> handler option) list \<Rightarrow> (lease \<Rightarrow> db \<Rightarrow> (err + unit) \<times> db) option \<Rightarrow> err + runner" where
  "NewRunner pool_ok workers drain handlers reject =
     (if \<not> pool_ok \<or> workers < 1 \<or> workers > 32 \<or> drain \<le> 0 \<or> drain > minute \<or> length handlers > 16 then Inl JobErrJob
      else (case reject of None \<Rightarrow> Inl JobErrJob
        | Some rej \<Rightarrow>
            if list_ex (\<lambda>((kind, version), h). kind = [] \<or> version < 1 \<or> h = None) handlers then Inl JobErrJob
            else Inr \<lparr>rn_workers = workers, rn_drain = drain, rn_handlers = map (\<lambda>(k, h). (k, the h)) handlers, rn_reject = rej\<rparr>))"

text \<open>
  One round of \<open>worker\<close>: \<open>claim\<close> is \<open>Scheduler.Claim\<close>, \<open>run\<close> is \<open>Scheduler.Run\<close> on the handler's work
  (with the renewals and whatever else happened meanwhile), and the three flags are the context
  after the claim, after the work and during the idle wait. \<open>None\<close> goes on with the next round.
\<close>

definition worker_round ::
  "runner \<Rightarrow> (db \<Rightarrow> (err + lease) \<times> db) \<Rightarrow> (lease \<Rightarrow> (db \<Rightarrow> (err + unit) \<times> db) \<Rightarrow> db \<Rightarrow> (err + unit) \<times> db)
     \<Rightarrow> bool \<Rightarrow> bool \<Rightarrow> bool \<Rightarrow> db \<Rightarrow> (err + unit) option \<times> db" where
  "worker_round r claim run idle_cancelled claim_cancelled work_cancelled d =
     (case claim d of
       (Inl e, d1) \<Rightarrow>
         if e = JobErrNoJob then ((if idle_cancelled then Some (Inr ()) else None), d1) else (Some (Inl e), d1)
     | (Inr lease, d1) \<Rightarrow>
         if claim_cancelled then (Some (Inr ()), d1)
         else (case map_of (rn_handlers r) (jr_Type lease, jr_PayloadVersion lease) of
             None \<Rightarrow> (case rn_reject r lease d1 of (Inl e, d2) \<Rightarrow> (Some (Inl e), d2) | (Inr _, d2) \<Rightarrow> (None, d2))
           | Some (work, finish) \<Rightarrow>
               (case run lease (work lease) d1 of (res, d2) \<Rightarrow>
                  if work_cancelled then (Some (Inr ()), d2)
                  else if res = Inl JobErrLease then (None, d2)
                  else (case finish lease (case res of Inl e \<Rightarrow> Some e | Inr _ \<Rightarrow> None) d2 of
                      (Inl e, d3) \<Rightarrow> (Some (Inl e), d3)
                    | (Inr _, d3) \<Rightarrow> (None, d3)))))"

section \<open>Leases: exclusivity and fencing\<close>

definition jobs_wf :: "db \<Rightarrow> bool" where
  "jobs_wf d \<longleftrightarrow> distinct (map j_id (jobs d)) \<and> list_all job_row_check (jobs d)"

text \<open>The lease is live in the database at \<open>now\<close>.\<close>

definition live_lease :: "db \<Rightarrow> time \<Rightarrow> lease \<Rightarrow> bool" where
  "live_lease d now lease \<longleftrightarrow> (\<exists>j \<in> set (jobs d). holds lease now j)"

lemma update_jobs_Some: "update_jobs P f d = Some d' \<longleftrightarrow>
    list_all (\<lambda>r. P r \<longrightarrow> job_row_check (f r)) (jobs d) \<and> d' = d\<lparr>jobs := upd P f (jobs d)\<rparr>"
  by (auto simp: update_jobs_def)

lemma candidate_Some:
  assumes "candidate s skip now d = Some j"
  shows "j \<in> set (jobs d)" "due s now j" "\<not> skip (j_id j)"
    "\<And>k. k \<in> set (jobs d) \<Longrightarrow> due s now k \<Longrightarrow> \<not> skip (j_id k) \<Longrightarrow> queue_key j \<le> queue_key k"
proof -
  let ?l = "filter (\<lambda>j. due s now j \<and> \<not> skip (j_id j)) (jobs d)"
  obtain t where t: "sort_key queue_key ?l = j # t"
    using assms by (auto simp: candidate_def split: list.splits)
  then have "j \<in> set (sort_key queue_key ?l)" by simp
  then have j: "j \<in> set ?l" by (simp only: set_sort)
  then show "j \<in> set (jobs d)" "due s now j" "\<not> skip (j_id j)" by auto
  fix k
  assume "k \<in> set (jobs d)" "due s now k" "\<not> skip (j_id k)"
  then have "k \<in> set (sort_key queue_key ?l)" by simp
  moreover have "sorted (map queue_key (sort_key queue_key ?l))" by (rule sorted_sort_key)
  ultimately show "queue_key j \<le> queue_key k" by (auto simp: t)
qed

lemma candidate_None: "candidate s skip now d = None \<longleftrightarrow> (\<forall>j \<in> set (jobs d). due s now j \<longrightarrow> skip (j_id j))"
proof -
  let ?l = "filter (\<lambda>j. due s now j \<and> \<not> skip (j_id j)) (jobs d)"
  have "candidate s skip now d = None \<longleftrightarrow> set (sort_key queue_key ?l) = {}"
    unfolding candidate_def by (cases "sort_key queue_key ?l") simp_all
  then show ?thesis by (auto simp: filter_empty_conv)
qed

text \<open>What a committed claim did: one due job, leased to the claimant under the new token.\<close>

definition claimed :: "scheduler \<Rightarrow> (uuid \<Rightarrow> bool) \<Rightarrow> time \<Rightarrow> uuid \<Rightarrow> uuid \<Rightarrow> db \<Rightarrow> lease \<Rightarrow> db \<Rightarrow> bool" where
  "claimed s skip now owner token d lease d' \<longleftrightarrow> (\<exists>j. candidate s skip now d = Some j \<and> lease = lease_of owner token j
     \<and> job_row_check (leased now owner token j)
     \<and> d' = d\<lparr>jobs := upd (\<lambda>r. j_id r = j_id j) (leased now owner token) (jobs d)\<rparr>)"

lemma vc_claim [vc_rules]:
  "(\<And>lease d'. claimed s skip now owner token d lease d' \<Longrightarrow> Q lease d') \<Longrightarrow> vc (claim_tx s skip now owner token) Q d"
  unfolding claim_tx_def
  by (intro vc_rules) (auto simp: claimed_def update_jobs_Some list_all_iff dest: candidate_Some(1) split: option.splits)

lemma leased_simps [simp]: "j_id (leased now owner token j) = j_id j" "j_deadline (leased now owner token j) = j_deadline j"
  "j_operation (leased now owner token j) = j_operation j" "j_workspace (leased now owner token j) = j_workspace j"
  "j_state (leased now owner token j) = JRunning"
  by (simp_all add: leased_def)

lemma completed_simps [simp]: "j_id (completed clk st j) = j_id j" "j_operation (completed clk st j) = j_operation j"
  "j_workspace (completed clk st j) = j_workspace j" "j_state (completed clk st j) = st"
  "j_lease_token (completed clk st j) = None"
  by (simp_all add: completed_def)

lemma jobs_wf_upd:
  assumes "jobs_wf d" "list_all (\<lambda>r. P r \<longrightarrow> job_row_check (f r)) (jobs d)" "\<And>r. j_id (f r) = j_id r"
  shows "jobs_wf (d\<lparr>jobs := upd P f (jobs d)\<rparr>)"
  using assms by (auto simp: jobs_wf_def map_upd_key list_all_iff dest!: in_updD)

lemma claimed_wf: "jobs_wf d \<Longrightarrow> claimed s skip now owner token d lease d' \<Longrightarrow> jobs_wf d'"
proof -
  assume wf: "jobs_wf d" and c: "claimed s skip now owner token d lease d'"
  then obtain j where j: "candidate s skip now d = Some j" "job_row_check (leased now owner token j)"
    "d' = d\<lparr>jobs := upd (\<lambda>r. j_id r = j_id j) (leased now owner token) (jobs d)\<rparr>"
    by (auto simp: claimed_def)
  have "list_all (\<lambda>r. j_id r = j_id j \<longrightarrow> job_row_check (leased now owner token r)) (jobs d)"
    using wf j candidate_Some(1) [OF j(1)] by (auto simp: jobs_wf_def list_all_iff dest: unique_key)
  with wf j(3) show ?thesis by (auto intro!: jobs_wf_upd)
qed

lemma claimed_live:
  assumes "claimed s skip now owner token d lease d'"
  shows "live_lease d' now lease"
proof -
  obtain j where j: "candidate s skip now d = Some j" "lease = lease_of owner token j"
    "d' = d\<lparr>jobs := upd (\<lambda>r. j_id r = j_id j) (leased now owner token) (jobs d)\<rparr>"
    using assms by (auto simp: claimed_def)
  have "j \<in> set (jobs d)" "due s now j" using candidate_Some [OF j(1)] by auto
  moreover from this have "holds lease now (leased now owner token j)"
    by (simp add: holds_def j(2) lease_of_def leased_def due_def lease_seconds_def)
  moreover from \<open>j \<in> set (jobs d)\<close> have "leased now owner token j \<in> set (jobs d')"
    by (simp add: j(3) in_updI)
  ultimately show ?thesis by (auto simp: live_lease_def)
qed

text \<open>A claim takes a job only when no lease on it is live, and ends every older lease for good.\<close>

lemma claimed_not_live:
  assumes "jobs_wf d" "claimed s skip now owner token d lease d'" "jr_ID old = jr_ID lease"
  shows "\<not> live_lease d now old"
proof -
  obtain j where j: "candidate s skip now d = Some j" "lease = lease_of owner token j"
    using assms(2) by (auto simp: claimed_def)
  have "j \<in> set (jobs d)" "due s now j" using candidate_Some [OF j(1)] by auto
  with assms(1,3) j(2) show ?thesis
    by (fastforce simp: live_lease_def holds_def due_def lease_of_def jobs_wf_def dest: unique_key split: option.splits)
qed

lemma claimed_fences:
  assumes "claimed s skip now owner token d lease d'" "jr_ID old = jr_ID lease" "le_Token old \<noteq> token"
  shows "\<not> live_lease d' t old"
  using assms by (auto simp: claimed_def live_lease_def holds_def leased_def lease_of_def dest!: in_updD)

lemma claimed_others:
  assumes "claimed s skip now owner token d lease d'" "jr_ID other \<noteq> jr_ID lease"
  shows "live_lease d' t other \<longleftrightarrow> live_lease d t other"
  using assms
  by (fastforce simp: claimed_def live_lease_def holds_def lease_of_def intro: in_upd_other dest!: in_updD)

text \<open>Renewals and completions happen under a live lease only.\<close>

definition renewed :: "lease \<Rightarrow> time \<Rightarrow> db \<Rightarrow> time \<Rightarrow> db \<Rightarrow> bool" where
  "renewed lease now d expires d' \<longleftrightarrow> (\<exists>j. fetch (holds lease now) (jobs d) = Some j \<and> expires = min (now + lease_seconds) (j_deadline j))
     \<and> list_all (\<lambda>r. holds lease now r \<longrightarrow> job_row_check (r\<lparr>j_lease_expires_at := Some (min (now + lease_seconds) (j_deadline r))\<rparr>)) (jobs d)
     \<and> d' = d\<lparr>jobs := upd (holds lease now) (\<lambda>r. r\<lparr>j_lease_expires_at := Some (min (now + lease_seconds) (j_deadline r))\<rparr>) (jobs d)\<rparr>"

definition finished :: "time \<Rightarrow> lease \<Rightarrow> job_state \<Rightarrow> time \<Rightarrow> db \<Rightarrow> db \<Rightarrow> bool" where
  "finished clk lease state now d d' \<longleftrightarrow> cnt (holds lease now) (jobs d) = 1
     \<and> list_all (\<lambda>r. holds lease now r \<longrightarrow> job_row_check (completed clk state r)) (jobs d)
     \<and> d' = d\<lparr>jobs := upd (holds lease now) (completed clk state) (jobs d)\<rparr>"

lemma vc_renew [vc_rules]: "(\<And>t d'. renewed lease now d t d' \<Longrightarrow> Q t d') \<Longrightarrow> vc (renew_tx lease now) Q d"
  unfolding renew_tx_def by (intro vc_rules) (auto simp: renewed_def update_jobs_Some split: option.splits)

lemma vc_finish [vc_rules]: "(\<And>d'. finished clk lease st now d d' \<Longrightarrow> Q () d') \<Longrightarrow> vc (finish_tx clk lease st now) Q d"
  unfolding finish_tx_def by (intro vc_rules) (auto simp: finished_def update_jobs_Some)

lemma renewed_live: "renewed lease now d t d' \<Longrightarrow> live_lease d now lease"
  by (auto simp: renewed_def live_lease_def dest: fetch_Some)

lemma finished_live: "finished clk lease st now d d' \<Longrightarrow> live_lease d now lease"
proof -
  assume "finished clk lease st now d d'"
  then have "0 < cnt (holds lease now) (jobs d)" by (simp add: finished_def)
  then show ?thesis by (simp add: cnt_pos live_lease_def)
qed

lemma renewed_wf: "jobs_wf d \<Longrightarrow> renewed lease now d t d' \<Longrightarrow> jobs_wf d'"
  unfolding renewed_def by (auto intro!: jobs_wf_upd)

lemma finished_wf: "jobs_wf d \<Longrightarrow> finished clk lease st now d d' \<Longrightarrow> jobs_wf d'"
  unfolding finished_def by (auto intro!: jobs_wf_upd)

text \<open>
  A step that creates no lease: whatever leased row it leaves was there, unchanged. Completion,
  cancellation, requeueing, insertion and retention are all of this kind.
\<close>

definition lease_cleared :: "db \<Rightarrow> db \<Rightarrow> bool" where
  "lease_cleared d d' \<longleftrightarrow> (\<forall>j \<in> set (jobs d'). j_lease_token j \<noteq> None \<longrightarrow> j \<in> set (jobs d))"

lemma lease_cleared_refl: "jobs d' = jobs d \<Longrightarrow> lease_cleared d d'"
  by (simp add: lease_cleared_def)

lemma lease_cleared_trans: "lease_cleared d d1 \<Longrightarrow> lease_cleared d1 d2 \<Longrightarrow> lease_cleared d d2"
  by (auto simp: lease_cleared_def)

lemma lease_cleared_upd:
  "(\<And>j. P j \<Longrightarrow> j_lease_token (f j) = None) \<Longrightarrow> jobs d' = upd P f (jobs d) \<Longrightarrow> lease_cleared d d'"
  by (auto simp: lease_cleared_def dest!: in_updD)

lemma finished_cleared: "finished clk lease st now d d' \<Longrightarrow> lease_cleared d d'"
  by (auto simp: finished_def intro!: lease_cleared_upd [where P = "holds lease now" and f = "completed clk st"])

definition lease_dead :: "db \<Rightarrow> lease \<Rightarrow> bool" where
  "lease_dead d lease \<longleftrightarrow> (\<forall>t. \<not> live_lease d t lease)"

text \<open>The contract a holder relies on, whatever store implements it.\<close>

locale lease_store =
  fixes dead :: "'s \<Rightarrow> 'l \<Rightarrow> bool" and job_of :: "'l \<Rightarrow> uuid" and token_of :: "'l \<Rightarrow> uuid"
    and claims :: "'l \<Rightarrow> 's \<Rightarrow> 's \<Rightarrow> bool" and writes :: "'l \<Rightarrow> 's \<Rightarrow> 's \<Rightarrow> bool" and clears :: "'s \<Rightarrow> 's \<Rightarrow> bool"
  assumes claim_fences: "claims l s s' \<Longrightarrow> job_of k = job_of l \<Longrightarrow> token_of k \<noteq> token_of l \<Longrightarrow> dead s' k"
    and claim_dead: "claims l s s' \<Longrightarrow> token_of k \<noteq> token_of l \<Longrightarrow> dead s k \<Longrightarrow> dead s' k"
    and write_alive: "writes l s s' \<Longrightarrow> \<not> dead s l"
    and write_dead: "writes l s s' \<Longrightarrow> dead s k \<Longrightarrow> dead s' k"
    and clear_dead: "clears s s' \<Longrightarrow> dead s k \<Longrightarrow> dead s' k"
begin

lemma dead_forever:
  assumes "(\<lambda>s s'. (\<exists>l. claims l s s' \<and> token_of l \<noteq> token_of k) \<or> (\<exists>l. writes l s s') \<or> clears s s')\<^sup>*\<^sup>* s s'" "dead s k"
  shows "dead s' k"
  using assms by (induction rule: rtranclp_induct) (auto intro: claim_dead write_dead clear_dead)

lemma superseded:
  assumes "claims l s s1" "job_of k = job_of l" "token_of k \<noteq> token_of l"
    "(\<lambda>s s'. (\<exists>l. claims l s s' \<and> token_of l \<noteq> token_of k) \<or> (\<exists>l. writes l s s') \<or> clears s s')\<^sup>*\<^sup>* s1 s2"
  shows "\<not> writes k s2 s3"
  using assms claim_fences dead_forever write_alive by blast

end

definition claim_step :: "lease \<Rightarrow> db \<Rightarrow> db \<Rightarrow> bool" where
  "claim_step l d d' \<longleftrightarrow> (\<exists>s skip now. claimed s skip now (le_Owner l) (le_Token l) d l d')"

definition write_step :: "lease \<Rightarrow> db \<Rightarrow> db \<Rightarrow> bool" where
  "write_step l d d' \<longleftrightarrow> (\<exists>now t. renewed l now d t d') \<or> (\<exists>clk st now. finished clk l st now d d')"

lemma live_lease_cleared: "lease_cleared d d' \<Longrightarrow> live_lease d' t l \<Longrightarrow> live_lease d t l"
  by (fastforce simp: lease_cleared_def live_lease_def holds_def)

lemma renewed_live_back:
  assumes "renewed lease now d t d'" "live_lease d' t' l"
  shows "\<exists>u. live_lease d u l"
proof -
  obtain j where "j \<in> set (jobs d')" "holds l t' j" using assms(2) by (auto simp: live_lease_def)
  with assms(1) consider "j \<in> set (jobs d)" "holds l t' j"
    | j0 where "j0 \<in> set (jobs d)" "holds lease now j0" "j = j0\<lparr>j_lease_expires_at := Some (min (now + lease_seconds) (j_deadline j0))\<rparr>"
    by (auto simp: renewed_def dest!: in_updD)
  then show ?thesis
  proof cases
    case 2
    with \<open>holds l t' j\<close> have "holds l now j0" by (auto simp: holds_def)
    with 2 show ?thesis by (auto simp: live_lease_def)
  qed (auto simp: live_lease_def)
qed

lemma claimed_dead:
  assumes "claimed s skip now owner token d lease d'" "le_Token k \<noteq> token" "lease_dead d k"
  shows "lease_dead d' k"
proof (cases "jr_ID k = jr_ID lease")
  case True
  with assms claimed_fences show ?thesis by (simp add: lease_dead_def)
next
  case False
  with assms claimed_others show ?thesis by (simp add: lease_dead_def)
qed

interpretation jl: lease_store lease_dead jr_ID le_Token claim_step write_step lease_cleared
proof
  show "lease_dead d' k" if "claim_step l d d'" "jr_ID k = jr_ID l" "le_Token k \<noteq> le_Token l" for l k :: lease and d d'
    using that claimed_fences unfolding claim_step_def lease_dead_def by blast
  show "lease_dead d' k" if "claim_step l d d'" "le_Token k \<noteq> le_Token l" "lease_dead d k" for l k and d d'
    using that claimed_dead unfolding claim_step_def by blast
  show "\<not> lease_dead d l" if "write_step l d d'" for l d d'
    using that renewed_live finished_live unfolding write_step_def lease_dead_def by blast
  show "lease_dead d' k" if "lease_cleared d d'" "lease_dead d k" for k d d'
    using that live_lease_cleared unfolding lease_dead_def by blast
  show "lease_dead d' k" if "write_step l d d'" "lease_dead d k" for l k d d'
    using that renewed_live_back finished_cleared live_lease_cleared unfolding write_step_def lease_dead_def by blast
qed

lemmas lease_run_def = claim_step_def write_step_def

text \<open>One step of the job table as any other party may take it while a worker holds \<open>k\<close>.\<close>

definition lease_step :: "lease \<Rightarrow> db \<Rightarrow> db \<Rightarrow> bool" where
  "lease_step k d d' \<longleftrightarrow> (\<exists>l. claim_step l d d' \<and> le_Token l \<noteq> le_Token k) \<or> (\<exists>l. write_step l d d') \<or> lease_cleared d d'"

lemma lease_step_superseded:
  "claim_step l d d1 \<Longrightarrow> jr_ID k = jr_ID l \<Longrightarrow> le_Token k \<noteq> le_Token l \<Longrightarrow> (lease_step k)\<^sup>*\<^sup>* d1 d2 \<Longrightarrow> \<not> write_step k d2 d3"
  using jl.superseded [of l d d1 k d2 d3] unfolding lease_step_def by blast

lemma Finish_committed:
  assumes "Finish n clk now lease st d = (r, d')"
  shows "(d' = d \<and> isl r) \<or> finished clk lease st now d d'"
  using assms vc_run_auto [of JobErrLease n "finish_tx clk lease st now" d r d' "\<lambda>_. finished clk lease st now d"]
  by (auto simp: Finish_def intro!: vc_rules split: if_splits)

lemma renew_committed:
  assumes "renew n started now lease d = (r, d')"
  shows "(d' = d \<and> isl r) \<or> (\<exists>t. renewed lease now d t d' \<and> (isl r \<or> r = Inr (started + (t - now))))"
proof -
  obtain r1 where r1: "run_auto JobErrLease n (renew_tx lease now) d = (r1, d')"
    "r = (case r1 of Inl e \<Rightarrow> Inl e | Inr x \<Rightarrow> Inr (started + (x - now)))"
    using assms by (auto simp: renew_def split: prod.splits sum.splits)
  have "(d' = d \<and> isl r1) \<or> (\<exists>x. renewed lease now d x d' \<and> (r1 = Inr x \<or> r1 = Inl JobErrLease))"
    by (rule vc_run_auto [OF r1(1)]) (intro vc_rules)
  then show ?thesis by (auto simp: r1(2) isl_def)
qed

lemma Claim_committed:
  assumes "Claim s n skip now token owner d = (Inr lease, d')"
  shows "\<exists>t d1. token = Some t \<and> owner \<noteq> uuid_Nil
     \<and> (case sc_Maintenance s of None \<Rightarrow> d1 = d | Some m \<Rightarrow> m d = (Inr (), d1))
     \<and> claimed s skip now owner t d1 lease d'"
proof -
  from assms obtain t d1 where t: "token = Some t" "owner \<noteq> uuid_Nil"
    "case sc_Maintenance s of None \<Rightarrow> d1 = d | Some m \<Rightarrow> m d = (Inr (), d1)"
    "run_tx JobErrLease JobErrLease n (claim_tx s skip now owner t) d1 = (Inr lease, d')"
    by (auto simp: Claim_def split: if_splits option.splits prod.splits sum.splits)
  have "claimed s skip now owner t d1 lease d'"
    by (rule vc_run_tx_Inr [OF t(4)]) (intro vc_rules)
  with t show ?thesis by blast
qed

section \<open>The renewal loop: the context dies with the lease\<close>

lemma run_step_live: "(ru_cause s = None \<longrightarrow> ru_now s < ru_expires s) \<Longrightarrow> ru_cause (run_step s e) = None \<longrightarrow> ru_now (run_step s e) < ru_expires (run_step s e)"
  by (cases e) (auto simp: cancel_def Let_def split: sum.splits)

lemma run_steps_live:
  "(ru_cause s = None \<longrightarrow> ru_now s < ru_expires s) \<Longrightarrow> ru_cause (foldl run_step s evs) = None \<longrightarrow> ru_now (foldl run_step s evs) < ru_expires (foldl run_step s evs)"
  by (induction evs arbitrary: s) (simp_all add: run_step_live)

lemma run_step_cause: "ru_cause s = Some e \<Longrightarrow> ru_cause (run_step s ev) = Some e"
  by (cases ev) (auto simp: cancel_def Let_def split: sum.splits)

lemma run_steps_cause: "ru_cause s = Some e \<Longrightarrow> ru_cause (foldl run_step s evs) = Some e"
  by (induction evs arbitrary: s) (simp_all add: run_step_cause)

lemma run_step_expires: "ru_expires (run_step s ev) = ru_expires s \<or> ev = Tick (Inr (ru_expires (run_step s ev)))"
  by (cases ev) (auto simp: cancel_def Let_def split: sum.splits)

lemma run_steps_expires: "ru_expires (foldl run_step s evs) \<in> insert (ru_expires s) {t. Tick (Inr t) \<in> set evs}"
proof (induction evs arbitrary: s)
  case (Cons ev evs)
  show ?case using Cons [of "run_step s ev"] run_step_expires [of s ev] by auto
qed simp

section \<open>Properties\<close>

definition example_job :: "nat \<Rightarrow> time \<Rightarrow> job_row" where
  "example_job i t = \<lparr>j_id = v7 i, j_workspace = v7 1, j_connection = v7 2, j_type = ''connection_refresh'', j_payload_version = 1,
     j_operation = None, j_sync = None, j_state = JQueued, j_next_run_at = t, j_lease_owner = None, j_lease_token = None,
     j_lease_expires_at = None, j_attempts = 0, j_deadline = 30 * minute, j_created_at = 0, j_completed_at = None\<rparr>"

definition example_jobs :: db where
  "example_jobs = empty_db\<lparr>jobs := [example_job 11 (2 * second), example_job 10 second]\<rparr>"

definition example_scheduler :: scheduler where
  "example_scheduler = \<lparr>sc_Operations = True, sc_Maintenance = None\<rparr>"




definition example_lease :: lease where
  "example_lease = lease_of (v7 81) (v7 80) (example_job 10 second)"


text \<open>
  The renewal loop never lets work run past its lease. Whenever the context of the work is still live,
  the process clock is before the expiry last granted by a successful renewal, and that expiry is the
  first grant or the answer of some tick; a cancelled context never becomes live again.
\<close>

theorem work_context_dies_with_lease:
  assumes "runRenewing now parent granted evs = Inr s" "ru_cause s = None"
  shows "ru_now s < ru_expires s \<and> (granted = Inr (ru_expires s) \<or> Tick (Inr (ru_expires s)) \<in> set evs)
     \<and> (\<forall>n \<le> length evs. \<exists>s'. runRenewing now parent granted (take n evs) = Inr s' \<and> ru_cause s' = None)"
proof -
  from assms(1) obtain s0 where s0: "run_start now parent granted = Inr s0" "s = foldl run_step s0 evs"
    by (auto simp: runRenewing_def split: sum.splits)
  then have start: "granted = Inr (ru_expires s0)" "ru_now s0 < ru_expires s0" "ru_cause s0 = None"
    by (auto simp: run_start_def split: sum.splits if_splits)
  have "\<exists>s'. runRenewing now parent granted (take n evs) = Inr s' \<and> ru_cause s' = None" for n
  proof -
    have "foldl run_step (foldl run_step s0 (take n evs)) (drop n evs) = s"
      unfolding s0(2) by (metis append_take_drop_id foldl_append)
    with assms(2) run_steps_cause [of "foldl run_step s0 (take n evs)" _ "drop n evs"]
    have "ru_cause (foldl run_step s0 (take n evs)) = None" by (cases "ru_cause (foldl run_step s0 (take n evs))") auto
    with s0(1) show ?thesis by (simp add: runRenewing_def)
  qed
  with start assms(2) run_steps_live [of s0 evs] run_steps_expires [of s0 evs] s0(2) show ?thesis by auto
qed

theorem work_context_dies_with_lease_witness:
  "\<exists>s. runRenewing 0 None (Inr (60 * second)) [Pass (15 * second), Tick (Inr (75 * second)), Pass (61 * second)] = Inr s
     \<and> ru_now s < ru_expires s"
proof -
  let ?r = "runRenewing 0 None (Inr (60 * second)) [Pass (15 * second), Tick (Inr (75 * second)), Pass (61 * second)]"
  have "(case ?r of Inl _ \<Rightarrow> False | Inr s \<Rightarrow> ru_cause s = None)" by code_simp
  then obtain s where "?r = Inr s" "ru_cause s = None" by (auto split: sum.splits)
  with work_context_dies_with_lease show ?thesis by blast
qed

text \<open>
  Retention removes at most 100 jobs at a time, and only completed ones older than seven days whose
  operation, if any, has a final outcome: a job that is queued, running or belongs to an operation that
  is in flight or of unknown outcome stays, whatever its age.
\<close>

theorem prune_keeps_unsettled_jobs:
  "length (jobs d) \<le> length (jobs (snd (PruneTerminal n clk skip d))) + cnt (\<lambda>j. j_id j \<in> set (prune_batch clk skip d)) (jobs d)
     \<and> length (prune_batch clk skip d) \<le> 100
     \<and> (\<forall>j \<in> set (jobs d). j \<in> set (jobs (snd (PruneTerminal n clk skip d)))
          \<or> (\<exists>k \<in> set (jobs d). j_id k = j_id j \<and> j_state k \<in> {JSucceeded, JFailed, JCancelled}
               \<and> (\<forall>i. j_operation k = Some i \<longrightarrow> (\<exists>p \<in> set (operations d). o_id p = i \<and> o_state p \<in> {Succeeded, Failed, Cancelled}))))"
proof -
  let ?d' = "snd (PruneTerminal n clk skip d)" and ?b = "prune_batch clk skip d"
  have cases: "jobs ?d' = jobs d \<or> jobs ?d' = del (\<lambda>j. j_id j \<in> set ?b) (jobs d)"
    by (auto simp: PruneTerminal_def run_auto_def sql_def Let_def split: prod.splits sum.splits)
  have b: "\<exists>k \<in> set (jobs d). j_id k = i \<and> job_prunable clk d k" if "i \<in> set ?b" for i
    using that set_take_subset [of 100 "sort_key (\<lambda>j. (the (j_completed_at j), j_id j)) (filter (\<lambda>j. job_prunable clk d j \<and> \<not> skip (j_id j)) (jobs d))"]
    by (auto simp: prune_batch_def)
  have "length (jobs d) \<le> length (jobs ?d') + cnt (\<lambda>j. j_id j \<in> set ?b) (jobs d)"
    using cases sum_length_filter_compl [of "\<lambda>j. j_id j \<in> set ?b" "jobs d"] by (auto simp: del_def cnt_def)
  moreover have "length ?b \<le> 100" by (simp add: prune_batch_def)
  moreover have "j \<in> set (jobs ?d') \<or> (\<exists>k \<in> set (jobs d). j_id k = j_id j \<and> job_prunable clk d k)" if "j \<in> set (jobs d)" for j
    using that cases b [of "j_id j"] by auto
  ultimately show ?thesis by (fastforce simp: job_prunable_def op_terminal_def)
qed

theorem prune_keeps_unsettled_jobs_witness:
  "let d = example_jobs\<lparr>jobs := [example_job 11 (2 * second), completed (31 * minute) JSucceeded (example_job 10 second)]\<rparr> in
     map j_id (jobs (snd (PruneTerminal good_net (8 * day) (\<lambda>_. False) d))) = [v7 11]
     \<and> example_job 11 (2 * second) \<in> set (jobs (snd (PruneTerminal good_net (8 * day) (\<lambda>_. False) d)))"
proof -
  let ?d = "example_jobs\<lparr>jobs := [example_job 11 (2 * second), completed (31 * minute) JSucceeded (example_job 10 second)]\<rparr>"
  have "map j_id (jobs (snd (PruneTerminal good_net (8 * day) (\<lambda>_. False) ?d))) = [v7 11]" by code_simp
  moreover have "\<not> (\<exists>k \<in> set (jobs ?d). j_id k = v7 11 \<and> j_state k \<in> {JSucceeded, JFailed, JCancelled})" by code_simp
  moreover have "j_id (example_job 11 (2 * second)) = v7 11" by (simp add: example_job_def)
  ultimately show ?thesis
    using prune_keeps_unsettled_jobs [of ?d good_net "8 * day" "\<lambda>_. False"] by (fastforce simp: Let_def)
qed

end
