(* ===== verification/Sama_Audit.thy ===== *)
theory Sama_Audit
  imports Sama_Schema
begin

text \<open>
  Packages \<^verbatim>\<open>identifier\<close> and \<^verbatim>\<open>audit\<close>: the canonical text form of entity
  identifiers, the allowlist validation of audit events, and the append into the caller's
  transaction with the table's own constraints.
\<close>

section \<open>identifier: the canonical text of a UUID\<close>

text \<open>\<open>uuid.String()\<close>: 32 lower case hexadecimal digits with hyphens after 8, 12, 16 and 20.\<close>

definition hex_digit :: "nat \<Rightarrow> char" where
  "hex_digit n = ''0123456789abcdef'' ! (n mod 16)"

definition hex_value :: "char \<Rightarrow> nat option" where
  "hex_value c = map_option fst (fetch (\<lambda>(_, d). d = c) (zip [0..<16] ''0123456789abcdef''))"

fun nibbles :: "nat \<Rightarrow> nat \<Rightarrow> nat list" where
  "nibbles 0 n = []"
| "nibbles (Suc k) n = nibbles k (n div 16) @ [n mod 16]"

definition hyphenate :: "'a \<Rightarrow> 'a list \<Rightarrow> 'a list" where
  "hyphenate h xs = take 8 xs @ h # take 4 (drop 8 xs) @ h # take 4 (drop 12 xs) @ h
     # take 4 (drop 16 xs) @ h # drop 20 xs"

definition dehyphenate :: "'a list \<Rightarrow> 'a list" where
  "dehyphenate s = take 8 s @ take 4 (drop 9 s) @ take 4 (drop 14 s) @ take 4 (drop 19 s) @ drop 24 s"

definition uuid_String :: "uuid \<Rightarrow> string" where
  "uuid_String u = hyphenate CHR ''-'' (map hex_digit (nibbles 32 (unat u)))"

text \<open>
  \<open>identifier.Parse\<close>: whatever forms \<^verbatim>\<open>uuid.Parse\<close> reads, only a text equal to the
  canonical form of the value it denotes passes, and only version 7 of the RFC 4122 variant.
\<close>

definition hex_parse :: "string \<Rightarrow> nat option" where
  "hex_parse s = foldl (\<lambda>acc c. Option.bind acc (\<lambda>n. map_option (\<lambda>v. 16 * n + v) (hex_value c))) (Some 0) s"

definition Parse :: "string \<Rightarrow> err + uuid" where
  "Parse value = (case hex_parse (dehyphenate value) of
       None \<Rightarrow> Inl IdentErrInvalid
     | Some n \<Rightarrow> (let parsed = word_of_nat n in
         if uuid_String parsed \<noteq> value \<or> uuid_version parsed \<noteq> 7 \<or> \<not> uuid_variant_rfc4122 parsed
         then Inl IdentErrInvalid else Inr parsed))"

definition isEntityID :: "uuid \<Rightarrow> bool" where
  "isEntityID value = (case Parse (uuid_String value) of Inl _ \<Rightarrow> False | Inr _ \<Rightarrow> True)"

lemma length_nibbles [simp]: "length (nibbles k n) = k"
  by (induction k n rule: nibbles.induct) auto

lemma nibbles_bound: "x \<in> set (nibbles k n) \<Longrightarrow> x < 16"
  by (induction k n rule: nibbles.induct) auto

lemma length_hyphenate: "length xs = 32 \<Longrightarrow> length (hyphenate h xs) = 36"
  by (simp add: hyphenate_def)

lemma list_32_cases:
  assumes "length xs = 32"
  shows "xs = take 8 xs @ take 4 (drop 8 xs) @ take 4 (drop 12 xs) @ take 4 (drop 16 xs) @ drop 20 xs"
proof -
  have "xs = take 8 xs @ take 4 (drop 8 xs) @ drop 4 (drop 8 xs)"
    using append_take_drop_id by metis
  moreover have "drop 12 xs = take 4 (drop 12 xs) @ drop 4 (drop 12 xs)"
    using append_take_drop_id by metis
  moreover have "drop 16 xs = take 4 (drop 16 xs) @ drop 4 (drop 16 xs)"
    using append_take_drop_id by metis
  ultimately show ?thesis by simp
qed

lemma dehyphenate_hyphenate: "length xs = 32 \<Longrightarrow> dehyphenate (hyphenate h xs) = xs"
  using list_32_cases [of xs] by (simp add: dehyphenate_def hyphenate_def)

lemma hex_value_digit: "n < 16 \<Longrightarrow> hex_value (hex_digit n) = Some n"
proof -
  assume n: "n < 16"
  have "list_all (\<lambda>k. hex_value (hex_digit k) = Some k) [0..<16]"
    by code_simp
  with n show ?thesis by (simp add: list_all_iff)
qed

lemma hex_parse_snoc:
  "hex_parse (s @ [c]) = Option.bind (hex_parse s) (\<lambda>n. map_option (\<lambda>v. 16 * n + v) (hex_value c))"
  by (simp add: hex_parse_def)

lemma hex_parse_nibbles: "hex_parse (map hex_digit (nibbles k n)) = Some (n mod 16 ^ k)"
proof (induction k arbitrary: n)
  case 0
  show ?case by (simp add: hex_parse_def)
next
  case (Suc k)
  have "16 * (n div 16 mod 16 ^ k) + n mod 16 = n mod 16 ^ Suc k"
    by (simp add: mod_mult2_eq)
  with Suc show ?case by (simp add: hex_parse_snoc hex_value_digit)
qed

lemma uuid_parse_String: "hex_parse (dehyphenate (uuid_String u)) = Some (unat u)"
proof -
  have "unat u < 16 ^ 32"
    using unsigned_less [of u] by simp
  then show ?thesis
    by (simp add: uuid_String_def dehyphenate_hyphenate hex_parse_nibbles)
qed

lemma uuid_String_inject: "uuid_String u = uuid_String v \<longleftrightarrow> u = v"
  by (metis option.inject uuid_parse_String word_unat_eq_iff)

lemma Parse_uuid_String:
  "Parse (uuid_String u) = (if uuid_version u = 7 \<and> uuid_variant_rfc4122 u then Inr u else Inl IdentErrInvalid)"
  by (simp add: Parse_def uuid_parse_String)

lemma Parse_Inr_iff:
  "Parse value = Inr u \<longleftrightarrow> value = uuid_String u \<and> uuid_version u = 7 \<and> uuid_variant_rfc4122 u"
proof
  assume "Parse value = Inr u"
  then show "value = uuid_String u \<and> uuid_version u = 7 \<and> uuid_variant_rfc4122 u"
    by (auto simp: Parse_def Let_def split: option.splits if_splits)
qed (simp add: Parse_uuid_String)

lemma isEntityID_iff: "isEntityID u \<longleftrightarrow> uuid_version u = 7 \<and> uuid_variant_rfc4122 u"
  by (simp add: isEntityID_def Parse_uuid_String)

lemma length_uuid_String: "length (uuid_String u) = 36"
  by (simp add: uuid_String_def length_hyphenate)

text \<open>
  The same check on the characters alone: 36 of them, hyphens in place, lower case digits, \<open>7\<close> as the
  version digit and one of \<open>8\<close>, \<open>9\<close>, \<open>a\<close>, \<open>b\<close> as the variant digit. It is what \<open>Parse\<close> evaluates to.
\<close>

definition canonical_v7 :: "string \<Rightarrow> bool" where
  "canonical_v7 s \<longleftrightarrow> length s = 36 \<and> s = hyphenate CHR ''-'' (dehyphenate s) \<and> list_all (\<lambda>c. c \<in> set ''0123456789abcdef'') (dehyphenate s)
     \<and> dehyphenate s ! 12 = CHR ''7'' \<and> dehyphenate s ! 16 \<in> set ''89ab''"

lemma hex_digit_value: "hex_value c = Some v \<Longrightarrow> hex_digit v = c \<and> v < 16"
  by (auto simp: hex_value_def hex_digit_def find_Some_iff set_zip in_set_zip dest: nth_mem)

lemma fetch_zip_snd: "length xs = length ys \<Longrightarrow> fetch (\<lambda>(_, d). d = c) (zip xs ys) = None \<longleftrightarrow> c \<notin> set ys"
  by (induction xs ys rule: list_induct2) auto

lemma hex_value_iff: "hex_value c \<noteq> None \<longleftrightarrow> c \<in> set ''0123456789abcdef''"
  unfolding hex_value_def map_option_is_None by (subst fetch_zip_snd) simp_all

lemma length_dehyphenate: "length s = 36 \<Longrightarrow> length (dehyphenate s) = 32"
  by (simp add: dehyphenate_def)

lemma hex_parse_digits:
  "list_all (\<lambda>c. hex_value c \<noteq> None) s \<Longrightarrow> \<exists>n. hex_parse s = Some n \<and> n < 16 ^ length s \<and> map hex_digit (nibbles (length s) n) = s"
proof (induction s rule: rev_induct)
  case Nil
  then show ?case by (simp add: hex_parse_def)
next
  case (snoc c s)
  then obtain n v where n: "hex_parse s = Some n" "n < 16 ^ length s" "map hex_digit (nibbles (length s) n) = s" and v: "hex_value c = Some v"
    by auto
  from hex_digit_value [OF v] have "hex_digit v = c" "v < 16" by auto
  with n v show ?case by (simp add: hex_parse_snoc)
qed

lemma nth_nibbles: "i < k \<Longrightarrow> nibbles k n ! i = n div 16 ^ (k - 1 - i) mod 16"
proof (induction k arbitrary: n)
  case (Suc k)
  show ?case
  proof (cases "i = k")
    case False
    with Suc.prems have i: "i < k" "Suc (k - 1 - i) = k - i" by auto
    have "n div 16 div 16 ^ (k - 1 - i) = n div 16 ^ (k - i)"
      unfolding i(2) [symmetric] by (simp add: div_mult2_eq)
    with Suc.IH [of "n div 16"] i show ?thesis by (simp add: nth_append)
  qed (simp add: nth_append)
qed simp

lemma uint_div_unat: "uint u div int a mod int b = int (unat u div a mod b)"
  by (simp only: zdiv_int [symmetric] zmod_int [symmetric] uint_nat)

lemma uuid_version_nibble: "uuid_version u = int (nibbles 32 (unat u) ! 12)"
proof -
  have p: "(2::int) ^ 76 = int (16 ^ 19)" by simp
  have n: "nibbles 32 (unat u) ! 12 = unat u div 16 ^ 19 mod 16" using nth_nibbles [of 12 32 "unat u"] by (simp only: numeral_less_iff semiring_norm) simp
  show ?thesis unfolding uuid_version_def n p using uint_div_unat [of u "16 ^ 19" 16] by (simp only: of_nat_numeral)
qed

lemma mod_16_div_4: "(a::nat) mod 16 div 4 = a div 4 mod 4"
  using mod_mult2_eq [of a 4 4] by simp

lemma uuid_variant_nibble: "uuid_variant_rfc4122 u \<longleftrightarrow> nibbles 32 (unat u) ! 16 div 4 = 2"
proof -
  have p: "(2::int) ^ 62 = int (16 ^ 15 * 4)" by simp
  have n: "nibbles 32 (unat u) ! 16 = unat u div 16 ^ 15 mod 16" using nth_nibbles [of 16 32 "unat u"] by (simp only: numeral_less_iff semiring_norm) simp
  have d: "unat u div 16 ^ 15 mod 16 div 4 = unat u div (16 ^ 15 * 4) mod 4"
    unfolding mod_16_div_4 div_mult2_eq ..
  have "uint u div 2 ^ 62 mod 4 = int (unat u div 16 ^ 15 mod 16 div 4)"
    unfolding d p using uint_div_unat [of u "16 ^ 15 * 4" 4] by (simp only: of_nat_numeral)
  then show ?thesis unfolding uuid_variant_rfc4122_def n by linarith
qed

lemma hex_digit_7: "n < 16 \<Longrightarrow> hex_digit n = CHR ''7'' \<longleftrightarrow> n = 7"
  and hex_digit_variant: "n < 16 \<Longrightarrow> hex_digit n \<in> set ''89ab'' \<longleftrightarrow> n div 4 = 2"
proof -
  have "list_all (\<lambda>k. (hex_digit k = CHR ''7'' \<longleftrightarrow> k = 7) \<and> (hex_digit k \<in> set ''89ab'' \<longleftrightarrow> k div 4 = 2)) [0..<16]" by code_simp
  then show "n < 16 \<Longrightarrow> hex_digit n = CHR ''7'' \<longleftrightarrow> n = 7" "n < 16 \<Longrightarrow> hex_digit n \<in> set ''89ab'' \<longleftrightarrow> n div 4 = 2"
    by (simp_all add: list_all_iff)
qed

lemma nibble_less: "i < 32 \<Longrightarrow> nibbles 32 n ! i < 16"
  using nibbles_bound [of "nibbles 32 n ! i" 32 n] by simp

text \<open>\<open>Parse\<close> accepts a text exactly when it is the canonical form of a version 7 identifier.\<close>

lemma Parse_canonical: "(\<exists>u. Parse s = Inr u) \<longleftrightarrow> canonical_v7 s"
proof
  assume "\<exists>u. Parse s = Inr u"
  then obtain u where u: "s = uuid_String u" "uuid_version u = 7" "uuid_variant_rfc4122 u" by (auto simp: Parse_Inr_iff)
  let ?ds = "map hex_digit (nibbles 32 (unat u))"
  have d: "dehyphenate s = ?ds" by (simp add: u(1) uuid_String_def dehyphenate_hyphenate)
  have "nibbles 32 (unat u) ! 12 = 7" "nibbles 32 (unat u) ! 16 div 4 = 2"
    using u(2,3) by (simp_all add: uuid_version_nibble uuid_variant_nibble)
  then have "?ds ! 12 = CHR ''7''" "?ds ! 16 \<in> set ''89ab''"
    using hex_digit_7 hex_digit_variant nibble_less [of 12 "unat u"] nibble_less [of 16 "unat u"] by simp_all
  moreover have "list_all (\<lambda>c. c \<in> set ''0123456789abcdef'') ?ds"
    unfolding hex_value_iff [symmetric] using nibbles_bound hex_value_digit by (fastforce simp: list_all_iff)
  moreover have "length s = 36" "s = hyphenate CHR ''-'' ?ds" by (simp_all add: u(1) length_uuid_String) (simp add: uuid_String_def)
  ultimately show "canonical_v7 s" unfolding canonical_v7_def d by blast
next
  assume c: "canonical_v7 s"
  then have len: "length (dehyphenate s) = 32" by (simp add: canonical_v7_def length_dehyphenate)
  have "list_all (\<lambda>c. hex_value c \<noteq> None) (dehyphenate s)" unfolding hex_value_iff using c by (simp only: canonical_v7_def)
  from hex_parse_digits [OF this] len obtain n where n: "hex_parse (dehyphenate s) = Some n" "n < 16 ^ 32"
    "map hex_digit (nibbles 32 n) = dehyphenate s" by (auto)
  let ?u = "word_of_nat n :: uuid"
  have un: "unat ?u = n" using n(2) by (simp add: unsigned_of_nat take_bit_nat_eq_self)
  have str: "uuid_String ?u = s" using c n(3) by (simp add: uuid_String_def un canonical_v7_def)
  have dig: "dehyphenate s ! i = hex_digit (nibbles 32 n ! i)" if "i < 32" for i
    using that n(3) by (metis length_nibbles nth_map)
  have "hex_digit (nibbles 32 n ! 12) = CHR ''7''" "hex_digit (nibbles 32 n ! 16) \<in> set ''89ab''"
    using c dig [of 12] dig [of 16] by (auto simp: canonical_v7_def)
  then have "uuid_version ?u = 7" "uuid_variant_rfc4122 ?u"
    using hex_digit_7 hex_digit_variant nibble_less [of 12 n] nibble_less [of 16 n]
    by (simp_all add: uuid_version_nibble uuid_variant_nibble un)
  with str have "Parse s = Inr ?u" by (simp add: Parse_Inr_iff)
  then show "\<exists>u. Parse s = Inr u" by blast
qed

lemma isl_Parse: "isl (Parse s) \<longleftrightarrow> \<not> canonical_v7 s"
  using Parse_canonical [of s] by (cases "Parse s") (auto simp: isl_def)

text \<open>
  Evaluation reads the digits off the binary numeral, four bits at a time, lowest first.
\<close>

fun hex_text :: "unit list \<Rightarrow> int \<Rightarrow> string" where
  "hex_text [] n = []"
| "hex_text (x # t) n = hex_digit (nat (n mod 16)) # hex_text t (n div 16)"

lemma hex_text_nibbles: "hex_text t (int n) = rev (map hex_digit (nibbles (length t) n))"
proof (induction t arbitrary: n)
  case (Cons x t)
  have "int n mod 16 = int (n mod 16)" "int n div 16 = int (n div 16)" by (simp_all add: zmod_int zdiv_int)
  with Cons show ?case by simp
qed simp

lemma hex_text_step: "0 \<le> c \<Longrightarrow> c < 16 \<Longrightarrow> hex_text (x # t) (16 * n + c) = ''0123456789abcdef'' ! nat c # hex_text t n"
  by (simp add: hex_digit_def)

lemma Pos_Bit: "Int.Pos (num.Bit0 m) = 2 * Int.Pos m" "Int.Pos (num.Bit1 m) = 2 * Int.Pos m + 1" "Int.Pos num.One = 1"
  unfolding Int.Pos_def numeral_Bit0 [of m] numeral_Bit1 [of m] by (simp_all only: mult_2 numeral_One)

lemma Pos_digits:
  "Int.Pos (num.Bit0 (num.Bit0 (num.Bit0 (num.Bit0 m)))) = 16 * Int.Pos m + 0"
  "Int.Pos (num.Bit1 (num.Bit0 (num.Bit0 (num.Bit0 m)))) = 16 * Int.Pos m + 1"
  "Int.Pos (num.Bit0 (num.Bit1 (num.Bit0 (num.Bit0 m)))) = 16 * Int.Pos m + 2"
  "Int.Pos (num.Bit1 (num.Bit1 (num.Bit0 (num.Bit0 m)))) = 16 * Int.Pos m + 3"
  "Int.Pos (num.Bit0 (num.Bit0 (num.Bit1 (num.Bit0 m)))) = 16 * Int.Pos m + 4"
  "Int.Pos (num.Bit1 (num.Bit0 (num.Bit1 (num.Bit0 m)))) = 16 * Int.Pos m + 5"
  "Int.Pos (num.Bit0 (num.Bit1 (num.Bit1 (num.Bit0 m)))) = 16 * Int.Pos m + 6"
  "Int.Pos (num.Bit1 (num.Bit1 (num.Bit1 (num.Bit0 m)))) = 16 * Int.Pos m + 7"
  "Int.Pos (num.Bit0 (num.Bit0 (num.Bit0 (num.Bit1 m)))) = 16 * Int.Pos m + 8"
  "Int.Pos (num.Bit1 (num.Bit0 (num.Bit0 (num.Bit1 m)))) = 16 * Int.Pos m + 9"
  "Int.Pos (num.Bit0 (num.Bit1 (num.Bit0 (num.Bit1 m)))) = 16 * Int.Pos m + 10"
  "Int.Pos (num.Bit1 (num.Bit1 (num.Bit0 (num.Bit1 m)))) = 16 * Int.Pos m + 11"
  "Int.Pos (num.Bit0 (num.Bit0 (num.Bit1 (num.Bit1 m)))) = 16 * Int.Pos m + 12"
  "Int.Pos (num.Bit1 (num.Bit0 (num.Bit1 (num.Bit1 m)))) = 16 * Int.Pos m + 13"
  "Int.Pos (num.Bit0 (num.Bit1 (num.Bit1 (num.Bit1 m)))) = 16 * Int.Pos m + 14"
  "Int.Pos (num.Bit1 (num.Bit1 (num.Bit1 (num.Bit1 m)))) = 16 * Int.Pos m + 15"
  "Int.Pos (num.One) = 16 * 0 + 1"
  "Int.Pos (num.Bit0 num.One) = 16 * 0 + 2"
  "Int.Pos (num.Bit1 num.One) = 16 * 0 + 3"
  "Int.Pos (num.Bit0 (num.Bit0 num.One)) = 16 * 0 + 4"
  "Int.Pos (num.Bit1 (num.Bit0 num.One)) = 16 * 0 + 5"
  "Int.Pos (num.Bit0 (num.Bit1 num.One)) = 16 * 0 + 6"
  "Int.Pos (num.Bit1 (num.Bit1 num.One)) = 16 * 0 + 7"
  "Int.Pos (num.Bit0 (num.Bit0 (num.Bit0 num.One))) = 16 * 0 + 8"
  "Int.Pos (num.Bit1 (num.Bit0 (num.Bit0 num.One))) = 16 * 0 + 9"
  "Int.Pos (num.Bit0 (num.Bit1 (num.Bit0 num.One))) = 16 * 0 + 10"
  "Int.Pos (num.Bit1 (num.Bit1 (num.Bit0 num.One))) = 16 * 0 + 11"
  "Int.Pos (num.Bit0 (num.Bit0 (num.Bit1 num.One))) = 16 * 0 + 12"
  "Int.Pos (num.Bit1 (num.Bit0 (num.Bit1 num.One))) = 16 * 0 + 13"
  "Int.Pos (num.Bit0 (num.Bit1 (num.Bit1 num.One))) = 16 * 0 + 14"
  "Int.Pos (num.Bit1 (num.Bit1 (num.Bit1 num.One))) = 16 * 0 + 15"
  unfolding Pos_Bit by (simp_all del: Int.Pos_def)

lemma hex_text_code [code]:
  "hex_text [] n = []" "hex_text (x # t) 0 = CHR ''0'' # hex_text t 0"
  "hex_text (x # t) (Int.Pos (num.Bit0 (num.Bit0 (num.Bit0 (num.Bit0 m))))) = CHR ''0'' # hex_text t (Int.Pos m)"
  "hex_text (x # t) (Int.Pos (num.Bit1 (num.Bit0 (num.Bit0 (num.Bit0 m))))) = CHR ''1'' # hex_text t (Int.Pos m)"
  "hex_text (x # t) (Int.Pos (num.Bit0 (num.Bit1 (num.Bit0 (num.Bit0 m))))) = CHR ''2'' # hex_text t (Int.Pos m)"
  "hex_text (x # t) (Int.Pos (num.Bit1 (num.Bit1 (num.Bit0 (num.Bit0 m))))) = CHR ''3'' # hex_text t (Int.Pos m)"
  "hex_text (x # t) (Int.Pos (num.Bit0 (num.Bit0 (num.Bit1 (num.Bit0 m))))) = CHR ''4'' # hex_text t (Int.Pos m)"
  "hex_text (x # t) (Int.Pos (num.Bit1 (num.Bit0 (num.Bit1 (num.Bit0 m))))) = CHR ''5'' # hex_text t (Int.Pos m)"
  "hex_text (x # t) (Int.Pos (num.Bit0 (num.Bit1 (num.Bit1 (num.Bit0 m))))) = CHR ''6'' # hex_text t (Int.Pos m)"
  "hex_text (x # t) (Int.Pos (num.Bit1 (num.Bit1 (num.Bit1 (num.Bit0 m))))) = CHR ''7'' # hex_text t (Int.Pos m)"
  "hex_text (x # t) (Int.Pos (num.Bit0 (num.Bit0 (num.Bit0 (num.Bit1 m))))) = CHR ''8'' # hex_text t (Int.Pos m)"
  "hex_text (x # t) (Int.Pos (num.Bit1 (num.Bit0 (num.Bit0 (num.Bit1 m))))) = CHR ''9'' # hex_text t (Int.Pos m)"
  "hex_text (x # t) (Int.Pos (num.Bit0 (num.Bit1 (num.Bit0 (num.Bit1 m))))) = CHR ''a'' # hex_text t (Int.Pos m)"
  "hex_text (x # t) (Int.Pos (num.Bit1 (num.Bit1 (num.Bit0 (num.Bit1 m))))) = CHR ''b'' # hex_text t (Int.Pos m)"
  "hex_text (x # t) (Int.Pos (num.Bit0 (num.Bit0 (num.Bit1 (num.Bit1 m))))) = CHR ''c'' # hex_text t (Int.Pos m)"
  "hex_text (x # t) (Int.Pos (num.Bit1 (num.Bit0 (num.Bit1 (num.Bit1 m))))) = CHR ''d'' # hex_text t (Int.Pos m)"
  "hex_text (x # t) (Int.Pos (num.Bit0 (num.Bit1 (num.Bit1 (num.Bit1 m))))) = CHR ''e'' # hex_text t (Int.Pos m)"
  "hex_text (x # t) (Int.Pos (num.Bit1 (num.Bit1 (num.Bit1 (num.Bit1 m))))) = CHR ''f'' # hex_text t (Int.Pos m)"
  "hex_text (x # t) (Int.Pos (num.One)) = CHR ''1'' # hex_text t (0)"
  "hex_text (x # t) (Int.Pos (num.Bit0 num.One)) = CHR ''2'' # hex_text t (0)"
  "hex_text (x # t) (Int.Pos (num.Bit1 num.One)) = CHR ''3'' # hex_text t (0)"
  "hex_text (x # t) (Int.Pos (num.Bit0 (num.Bit0 num.One))) = CHR ''4'' # hex_text t (0)"
  "hex_text (x # t) (Int.Pos (num.Bit1 (num.Bit0 num.One))) = CHR ''5'' # hex_text t (0)"
  "hex_text (x # t) (Int.Pos (num.Bit0 (num.Bit1 num.One))) = CHR ''6'' # hex_text t (0)"
  "hex_text (x # t) (Int.Pos (num.Bit1 (num.Bit1 num.One))) = CHR ''7'' # hex_text t (0)"
  "hex_text (x # t) (Int.Pos (num.Bit0 (num.Bit0 (num.Bit0 num.One)))) = CHR ''8'' # hex_text t (0)"
  "hex_text (x # t) (Int.Pos (num.Bit1 (num.Bit0 (num.Bit0 num.One)))) = CHR ''9'' # hex_text t (0)"
  "hex_text (x # t) (Int.Pos (num.Bit0 (num.Bit1 (num.Bit0 num.One)))) = CHR ''a'' # hex_text t (0)"
  "hex_text (x # t) (Int.Pos (num.Bit1 (num.Bit1 (num.Bit0 num.One)))) = CHR ''b'' # hex_text t (0)"
  "hex_text (x # t) (Int.Pos (num.Bit0 (num.Bit0 (num.Bit1 num.One)))) = CHR ''c'' # hex_text t (0)"
  "hex_text (x # t) (Int.Pos (num.Bit1 (num.Bit0 (num.Bit1 num.One)))) = CHR ''d'' # hex_text t (0)"
  "hex_text (x # t) (Int.Pos (num.Bit0 (num.Bit1 (num.Bit1 num.One)))) = CHR ''e'' # hex_text t (0)"
  "hex_text (x # t) (Int.Pos (num.Bit1 (num.Bit1 (num.Bit1 num.One)))) = CHR ''f'' # hex_text t (0)"
  unfolding Pos_digits by (simp_all only: hex_text_step) (simp_all add: hex_digit_def del: Int.Pos_def)

lemma uuid_String_code [code]: "uuid_String u = hyphenate CHR ''-'' (rev (hex_text
   [(), (), (), (), (), (), (), (), (), (), (), (), (), (), (), (), (), (), (), (), (), (), (), (), (), (), (), (), (), (), (), ()] (uint u)))"
proof -
  let ?t = "[(), (), (), (), (), (), (), (), (), (), (), (), (), (), (), (), (), (), (), (), (), (), (), (), (), (), (), (), (), (), (), ()]"
  have "length ?t = 32" by simp
  then have "hex_text ?t (uint u) = rev (map hex_digit (nibbles 32 (unat u)))"
    unfolding uint_nat hex_text_nibbles by (simp only:)
  then show ?thesis unfolding uuid_String_def by (simp only: rev_rev_ident)
qed

declare isEntityID_iff [code]
declare isl_Parse [code_unfold]

section \<open>audit: validation\<close>

record audit_event =
  ev_ID :: uuid
  ev_Workspace :: uuid
  ev_ActorKind :: string
  ev_ActorID :: "uuid option"
  ev_Type :: string
  ev_RequestID :: string
  ev_Metadata :: "(string \<times> string) list"

definition safeCode :: "string \<Rightarrow> bool" where
  "safeCode s = code_like ''._-'' 63 s"

definition metadataFields :: "string \<Rightarrow> string list option" where
  "metadataFields kind = map_of [
     (''connection.grants_changed'', [''connection_id'', ''member_id'']),
     (''connection.grants_denied'', [''connection_id'', ''member_id'']),
     (''invitation.created'', [''role'']),
     (''auth.logout'', []),
     (''auth.login'', []),
     (''workspace.settings_changed'', [''policy_version'']),
     (''workspace.created'', []),
     (''membership.changed'', [''member_id'', ''role'']),
     (''connection.created'', [''connection_id'']),
     (''connection.credential_rotated'', [''connection_id'']),
     (''connection.disabled'', [''connection_id'']),
     (''operation.accepted'', [''operation_id'', ''resource_id'']),
     (''operation.completed'', [''operation_id'', ''resource_id'']),
     (''operation.failed'', [''operation_id'', ''resource_id'', ''reason_code'']),
     (''operation.reconciled'', [''operation_id'', ''resource_id'', ''reason_code'']),
     (''operation.cancelled'', [''operation_id'', ''resource_id'', ''reason_code'']),
     (''operation.reservation_released'', [''operation_id'', ''resource_id'', ''reason_code''])] kind"

definition known_role :: "string \<Rightarrow> bool" where
  "known_role r \<longleftrightarrow> r \<in> {''viewer'', ''operator'', ''admin'', ''owner''}"

text \<open>The body of the loop over the metadata: one field against the allowlist of its event.\<close>

definition field_ok :: "string list \<Rightarrow> string \<times> string \<Rightarrow> bool" where
  "field_ok allowed kv = (case kv of (key, value) \<Rightarrow>
     key \<in> set allowed \<and> length value \<noteq> 0 \<and> length value \<le> 64 \<and>
     (if key \<in> {''member_id'', ''connection_id'', ''operation_id'', ''resource_id''} then isl (Parse value) = False
      else if key = ''role'' then known_role value
      else if key = ''reason_code'' then safeCode value
      else True))"

definition validate :: "audit_event \<Rightarrow> err + (string \<times> string) list" where
  "validate event =
     (if \<not> isEntityID (ev_ID event) \<or> \<not> isEntityID (ev_Workspace event)
         \<or> length (ev_RequestID event) > 64 \<or> \<not> safeCode (ev_RequestID event) then Inl AuditErrInvalid
      else if ev_ActorKind event = ''user'' \<and>
         (case ev_ActorID event of None \<Rightarrow> True | Some a \<Rightarrow> \<not> isEntityID a) then Inl AuditErrInvalid
      else if ev_ActorKind event \<in> {''system'', ''installation''} \<and> ev_ActorID event \<noteq> None then Inl AuditErrInvalid
      else if ev_ActorKind event \<notin> {''user'', ''system'', ''installation''} then Inl AuditErrInvalid
      else (case metadataFields (ev_Type event) of
          None \<Rightarrow> Inl AuditErrInvalid
        | Some allowed \<Rightarrow>
            if length (ev_Metadata event) > 8 then Inl AuditErrInvalid
            else if \<not> list_all (field_ok allowed) (ev_Metadata event) then Inl AuditErrMetadata
            else Inr (ev_Metadata event)))"

section \<open>audit: the table\<close>

text \<open>
  \<open>valid_audit_metadata\<close> as the last migration leaves it: which fields each kind may hold, which it
  must hold, and the form of their values. The version text is \<open>^[1-9][0-9]{0,18}$\<close>.
\<close>

definition version_text :: "string \<Rightarrow> bool" where
  "version_text s = (case s of [] \<Rightarrow> False | c # cs \<Rightarrow> char_between CHR ''1'' CHR ''9'' c
     \<and> length cs \<le> 18 \<and> list_all (char_between CHR ''0'' CHR ''9'') cs)"

definition required_fields :: "string \<Rightarrow> string list" where
  "required_fields kind =
     (if kind \<in> {''connection.grants_changed'', ''connection.grants_denied''} then [''member_id'', ''connection_id'']
      else if kind = ''invitation.created'' then [''role'']
      else if kind = ''workspace.settings_changed'' then [''policy_version'']
      else [])"

definition column_ok :: "string \<times> string \<Rightarrow> bool" where
  "column_ok kv = (case kv of (key, value) \<Rightarrow>
     if key \<in> {''member_id'', ''connection_id'', ''operation_id'', ''resource_id''} then isl (Parse value) = False
     else if key = ''role'' then known_role value
     else if key = ''reason_code'' then safeCode value
     else if key = ''policy_version'' then version_text value
     else False)"

definition valid_audit_metadata :: "string \<Rightarrow> (string \<times> string) list \<Rightarrow> bool" where
  "valid_audit_metadata kind metadata = (case metadataFields kind of None \<Rightarrow> False
     | Some allowed \<Rightarrow> list_all (\<lambda>kv. fst kv \<in> set allowed \<and> column_ok kv) metadata
         \<and> list_all (\<lambda>k. k \<in> set (map fst metadata)) (required_fields kind))"

definition audit_insert_ok :: "db \<Rightarrow> audit_row \<Rightarrow> bool" where
  "audit_insert_ok d r \<longleftrightarrow>
     a_id r \<notin> set (map a_id (audit_events d)) \<and> a_workspace r \<in> set (map w_id (workspaces d))
     \<and> (case a_actor r of None \<Rightarrow> a_actor_kind r \<in> {''system'', ''installation''}
         | Some u \<Rightarrow> a_actor_kind r = ''user'' \<and> u \<in> set (map u_id (users d)))
     \<and> safeCode (a_request r) \<and> valid_audit_metadata (a_event_type r) (a_metadata r)"

definition audit_row_of :: "time \<Rightarrow> audit_event \<Rightarrow> (string \<times> string) list \<Rightarrow> audit_row" where
  "audit_row_of clk event metadata = \<lparr>a_id = ev_ID event, a_workspace = ev_Workspace event,
     a_actor_kind = ev_ActorKind event, a_actor = ev_ActorID event, a_event_type = ev_Type event,
     a_request = ev_RequestID event, a_metadata = metadata, a_created_at = clk\<rparr>"

definition Append :: "time \<Rightarrow> audit_event \<Rightarrow> unit dbtx" where
  "Append clk event = (case validate event of
       Inl e \<Rightarrow> tx_raise e
     | Inr metadata \<Rightarrow> exec AuditErrAppend (\<lambda>d.
         let r = audit_row_of clk event metadata in
         if audit_insert_ok d r then Some (d\<lparr>audit_events := audit_events d @ [r]\<rparr>) else None))"

lemma validate_Inr:
  assumes "validate event = Inr m"
  shows "m = ev_Metadata event" "isEntityID (ev_ID event)" "isEntityID (ev_Workspace event)"
    "safeCode (ev_RequestID event)"
    "\<exists>allowed. metadataFields (ev_Type event) = Some allowed \<and> list_all (field_ok allowed) m"
    "case ev_ActorID event of None \<Rightarrow> ev_ActorKind event \<in> {''system'', ''installation''}
       | Some a \<Rightarrow> ev_ActorKind event = ''user'' \<and> isEntityID a"
  using assms by (auto simp: validate_def split: if_splits option.splits)

lemma Append_Inr [tx_simps]:
  "Append clk event s = (Inr x, s') \<longleftrightarrow> t_left s \<noteq> Some 0 \<and>
     validate event = Inr (ev_Metadata event) \<and>
     audit_insert_ok (t_db s) (audit_row_of clk event (ev_Metadata event)) \<and>
     s' = s\<lparr>t_db := (t_db s)\<lparr>audit_events := audit_events (t_db s) @ [audit_row_of clk event (ev_Metadata event)]\<rparr>,
            t_left := map_option (\<lambda>n. n - 1) (t_left s)\<rparr>"
proof (cases "validate event")
  case (Inl e)
  then show ?thesis by (simp add: Append_def tx_simps)
next
  case (Inr m)
  moreover from this have "m = ev_Metadata event" by (rule validate_Inr)
  ultimately show ?thesis by (auto simp: Append_def tx_simps Let_def)
qed

text \<open>An append touches the audit table only, so it keeps every invariant that does not read it.\<close>

lemma Append_keeps [inv_intros]:
  assumes "\<And>d t. I d \<Longrightarrow> I (d\<lparr>audit_events := t\<rparr>)"
  shows "keeps I (Append clk event)"
  by (rule keepsI) (auto simp: tx_simps assms)

lemma vc_Append [vc_rules]:
  assumes "\<And>r. r = audit_row_of clk event (ev_Metadata event) \<Longrightarrow> audit_insert_ok d r
     \<Longrightarrow> validate event = Inr (ev_Metadata event) \<Longrightarrow> Q () (d\<lparr>audit_events := audit_events d @ [r]\<rparr>)"
  shows "vc (Append clk event) Q d"
  by (rule vcI) (auto simp: Append_Inr assms)

end
