(* ===== verification/Sama_OpState.thy ===== *)
theory Sama_OpState
  imports Sama_Job Sama_Audit
begin

text \<open>
  Package \<^verbatim>\<open>operation\<close>, the durable state of an operation: the transition table and the event log of
  \<^verbatim>\<open>state.go\<close> and \<^verbatim>\<open>store.go\<close>, the target reservation of \<^verbatim>\<open>reservation.go\<close>, and the two writes
  every handler ends with, \<open>advance\<close> and \<open>finishJob\<close> of \<^verbatim>\<open>dispatch.go\<close>. The invariant \<open>op_inv\<close> ties the
  tables together; each primitive keeps it.
\<close>

section \<open>Transitions\<close>

fun Allowed :: "op_state \<Rightarrow> op_state \<Rightarrow> bool" where
  "Allowed Queued to = (to = Dispatching \<or> to = Cancelled \<or> to = Failed)"
| "Allowed Dispatching to = (to = WaitingProvider \<or> to = Reconciling \<or> to = Succeeded \<or> to = Failed)"
| "Allowed WaitingProvider to = (to = WaitingProvider \<or> to = Reconciling \<or> to = Succeeded \<or> to = Failed)"
| "Allowed Reconciling to = (to = WaitingProvider \<or> to = Reconciling \<or> to = Succeeded \<or> to = Failed \<or> to = Unknown)"
| "Allowed Unknown to = (to = Reconciling)"
| "Allowed Succeeded to = False"
| "Allowed Failed to = False"
| "Allowed Cancelled to = False"

definition op_at :: "uuid \<Rightarrow> uuid \<Rightarrow> operation_row \<Rightarrow> bool" where
  "op_at w i p \<longleftrightarrow> o_workspace p = w \<and> o_id p = i"

definition operation_of :: "db \<Rightarrow> uuid \<Rightarrow> uuid \<Rightarrow> operation_row option" where
  "operation_of d w i = fetch (op_at w i) (operations d)"

definition insert_event :: "event_row \<Rightarrow> db \<Rightarrow> db option" where
  "insert_event e d =
     (if e_id e \<in> set (map e_id (events d)) \<or> e_sequence e \<le> 0
         \<or> operation_of d (e_workspace e) (e_operation e) = None
         \<or> (\<exists>r \<in> set (events d). e_workspace r = e_workspace e \<and> e_operation r = e_operation e \<and> e_sequence r = e_sequence e)
      then None else Some (d\<lparr>events := events d @ [e]\<rparr>))"

definition AppendEvent :: "time \<Rightarrow> uuid option \<Rightarrow> uuid \<Rightarrow> uuid \<Rightarrow> int \<Rightarrow> op_state option \<Rightarrow> op_state \<Rightarrow> unit dbtx" where
  "AppendEvent clk eid workspace i sequence from to = (case eid of
       None \<Rightarrow> tx_raise OpErrStore
     | Some event \<Rightarrow> if sequence < 1 then tx_raise OpErrStore
         else exec OpErrStore (insert_event \<lparr>e_id = event, e_workspace = workspace, e_operation = i, e_sequence = sequence,
           e_from = from, e_to = to, e_created_at = clk\<rparr>))"

section \<open>Reservations\<close>

record reserve_target =
  rt_Kind :: string
  rt_Scope :: string
  rt_NativeID :: string

definition lock_target :: "lock_row \<Rightarrow> uuid \<times> uuid \<times> string \<times> string \<times> string \<times> string" where
  "lock_target l = (l_workspace l, l_connection l, l_target_kind l, l_resource_type l, l_scope l, l_native_id l)"

definition lock_holder :: "lock_row \<Rightarrow> uuid \<times> uuid" where
  "lock_holder l = (l_workspace l, l_operation l)"

definition resource_of :: "db \<Rightarrow> uuid \<Rightarrow> uuid \<Rightarrow> uuid \<Rightarrow> resource_row option" where
  "resource_of d w c i = fetch (\<lambda>r. r_workspace r = w \<and> r_connection r = c \<and> r_id r = i) (resources d)"

text \<open>
  \<^verbatim>\<open>INSERT INTO resource_locks ... ON CONFLICT DO NOTHING RETURNING fencing_version\<close>. The fence is
  drawn from the table's identity sequence; \<open>None\<close> as the answer is no row.
\<close>

definition insert_lock :: "lock_row \<Rightarrow> db \<Rightarrow> (int option \<times> db) option" where
  "insert_lock l d =
     (if l_target_kind l \<notin> {''resource'', ''creation''} \<or> l_resource_type l \<notin> {''compute.server'', ''storage.snapshot''}
         \<or> \<not> (1 \<le> length (l_scope l) \<and> length (l_scope l) \<le> 128) \<or> \<not> (1 \<le> length (l_native_id l) \<and> length (l_native_id l) \<le> 512)
      then None
      else if lock_target l \<in> set (map lock_target (locks d)) \<or> lock_holder l \<in> set (map lock_holder (locks d))
      then Some (None, d\<lparr>lock_counter := lock_counter d + 1\<rparr>)
      else if \<not> (\<exists>p \<in> set (operations d). op_at (l_workspace l) (l_operation l) p \<and> o_connection p = l_connection l) then None
      else Some (Some (lock_counter d + 1), d\<lparr>locks := locks d @ [l\<lparr>l_fence := lock_counter d + 1\<rparr>],
        lock_counter := lock_counter d + 1\<rparr>))"

definition reserve_lock :: "uuid \<Rightarrow> uuid \<Rightarrow> uuid \<Rightarrow> reserve_target \<Rightarrow> string \<Rightarrow> lock_row" where
  "reserve_lock workspace connection i target kind = \<lparr>l_workspace = workspace, l_connection = connection,
     l_target_kind = rt_Kind target, l_resource_type = kind, l_scope = rt_Scope target, l_native_id = rt_NativeID target,
     l_operation = i, l_fence = 0\<rparr>"

definition reserve_one :: "uuid \<Rightarrow> uuid \<Rightarrow> uuid \<Rightarrow> reserve_target \<Rightarrow> int dbtx" where
  "reserve_one workspace connection i target =
     tx_bind (query_row OpErrStore OpErrStore (\<lambda>d. case fetch (\<lambda>p. op_at workspace i p \<and> o_connection p = connection) (operations d) of
         None \<Rightarrow> None
       | Some p \<Rightarrow> map_option (\<lambda>r. (o_state p, r_scope r, r_native_id r, r_type r)) (resource_of d workspace connection (o_resource p))))
     (\<lambda>(state, scope, native, kind).
     if state \<noteq> Queued \<or> rt_Kind target = ''resource'' \<and> (scope \<noteq> rt_Scope target \<or> native \<noteq> rt_NativeID target)
     then tx_raise OpErrInvalid
     else tx_bind (sql OpErrStore (insert_lock (reserve_lock workspace connection i target kind))) (\<lambda>fence.
     case fence of Some f \<Rightarrow> tx_ret f
     | None \<Rightarrow> query_row OpErrBusy OpErrStore (\<lambda>d. map_option l_fence
         (fetch (\<lambda>l. lock_target l = lock_target (reserve_lock workspace connection i target kind) \<and> l_operation l = i) (locks d)))))"

definition Reserve :: "uuid \<Rightarrow> uuid \<Rightarrow> uuid \<Rightarrow> reserve_target list \<Rightarrow> int dbtx" where
  "Reserve workspace connection i targets = (case targets of
       [target] \<Rightarrow>
         if rt_Kind target \<noteq> ''resource'' \<and> rt_Kind target \<noteq> ''creation'' \<or> length (rt_Scope target) = 0 \<or> length (rt_Scope target) > 128
            \<or> length (rt_NativeID target) = 0 \<or> length (rt_NativeID target) > 512
         then tx_raise OpErrInvalid else reserve_one workspace connection i target
     | _ \<Rightarrow> tx_raise OpErrInvalid)"

definition ReleaseTerminal :: "uuid \<Rightarrow> uuid \<Rightarrow> unit dbtx" where
  "ReleaseTerminal workspace i =
     tx_bind (query_row OpErrStore OpErrStore (\<lambda>d. map_option o_state (operation_of d workspace i))) (\<lambda>state.
     if state \<noteq> Succeeded \<and> state \<noteq> Failed \<and> state \<noteq> Cancelled then tx_raise OpErrState
     else exec OpErrStore (\<lambda>d. Some (d\<lparr>locks := del (\<lambda>l. lock_holder l = (workspace, i)) (locks d)\<rparr>)))"

section \<open>advance, finishJob and Transition\<close>

text \<open>
  \<^verbatim>\<open>UPDATE operations SET state, version+1, event_sequence+1 WHERE ... RETURNING event_sequence\<close>. The two
  counters are \<^verbatim>\<open>bigint\<close>: leaving the range is a statement error.
\<close>

definition moved :: "time \<Rightarrow> op_state \<Rightarrow> operation_row \<Rightarrow> operation_row" where
  "moved clk to p = p\<lparr>o_state := to, o_version := o_version p + 1, o_event_sequence := o_event_sequence p + 1, o_updated_at := clk\<rparr>"

definition move_operation :: "time \<Rightarrow> (db \<Rightarrow> operation_row \<Rightarrow> bool) \<Rightarrow> op_state \<Rightarrow> db \<Rightarrow> (int option \<times> db) option" where
  "move_operation clk P to d = (case fetch (P d) (operations d) of
       None \<Rightarrow> Some (None, d)
     | Some p \<Rightarrow>
         if bigint_ok (o_version p + 1) \<and> bigint_ok (o_event_sequence p + 1)
         then Some (Some (o_event_sequence p + 1), d\<lparr>operations := upd (P d) (moved clk to) (operations d)\<rparr>) else None)"

text \<open>\<open>advance\<close>: any failure of the update is \<^verbatim>\<open>ErrState\<close>.\<close>

definition advance :: "time \<Rightarrow> uuid option \<Rightarrow> uuid \<Rightarrow> uuid \<Rightarrow> op_state \<Rightarrow> op_state \<Rightarrow> unit dbtx" where
  "advance clk eid workspace i from to =
     (if \<not> Allowed from to then tx_raise OpErrState
      else tx_bind (sql OpErrState (move_operation clk (\<lambda>_ p. op_at workspace i p \<and> o_state p = from) to)) (\<lambda>r.
      case r of None \<Rightarrow> tx_raise OpErrState
      | Some sequence \<Rightarrow>
          tx_bind (tx_as OpErrStore (AppendEvent clk eid workspace i sequence (Some from) to)) (\<lambda>_.
          if to = Succeeded \<or> to = Failed \<or> to = Cancelled then ReleaseTerminal workspace i else tx_ret ())))"

definition requeued :: "time \<Rightarrow> job_row \<Rightarrow> job_row" where
  "requeued next j = j\<lparr>j_state := JQueued, j_next_run_at := next, j_completed_at := None, j_lease_owner := None,
     j_lease_token := None, j_lease_expires_at := None\<rparr>"

definition job_after :: "time \<Rightarrow> job_state \<Rightarrow> time \<Rightarrow> job_row \<Rightarrow> job_row" where
  "job_after clk state next j = (if state = JQueued then requeued next j else completed clk state j)"

definition finishJob :: "time \<Rightarrow> lease \<Rightarrow> job_state \<Rightarrow> time \<Rightarrow> unit dbtx" where
  "finishJob clk lease state next =
     tx_bind (sql JobErrLease (\<lambda>d. map_option (\<lambda>d'. (cnt (holds lease clk) (jobs d), d'))
        (update_jobs (holds lease clk) (job_after clk state next) d)))
     (\<lambda>affected. if affected \<noteq> 1 then tx_raise JobErrLease else tx_ret ())"

text \<open>The guard of \<open>Transition\<close>: the state, a live lease on the operation's own job, and a fresh audit event
  for a recovery from unknown.\<close>

definition leased_job :: "lease \<Rightarrow> time \<Rightarrow> operation_row \<Rightarrow> job_row \<Rightarrow> bool" where
  "leased_job lease clk p j \<longleftrightarrow> holds lease clk j \<and> j_workspace j = o_workspace p \<and> j_connection j = o_connection p
     \<and> j_operation j = Some (o_id p) \<and> j_type j = ''operation_dispatch'' \<and> j_payload_version j = 3"

definition transition_guard :: "time \<Rightarrow> lease \<Rightarrow> uuid \<Rightarrow> op_state \<Rightarrow> uuid \<Rightarrow> db \<Rightarrow> operation_row \<Rightarrow> bool" where
  "transition_guard clk lease i from recovery d p \<longleftrightarrow>
     op_at (jr_Workspace lease) i p \<and> o_connection p = jr_Connection lease \<and> o_state p = from
     \<and> (from = Unknown \<longrightarrow> (\<exists>a \<in> set (audit_events d). a_id a = recovery \<and> a_workspace a = o_workspace p
          \<and> a_event_type a = ''operation.reconciled'' \<and> map_of (a_metadata a) ''operation_id'' = Some (uuid_String (o_id p))
          \<and> a_created_at a \<ge> o_updated_at p))
     \<and> (\<exists>j \<in> set (jobs d). leased_job lease clk p j)"

definition transition_tx :: "time \<Rightarrow> uuid option \<Rightarrow> lease \<Rightarrow> uuid \<Rightarrow> op_state \<Rightarrow> op_state \<Rightarrow> uuid \<Rightarrow> unit dbtx" where
  "transition_tx clk eid lease i from to recovery =
     tx_bind (sql OpErrStore (move_operation clk (transition_guard clk lease i from recovery) to)) (\<lambda>r.
     case r of None \<Rightarrow> tx_raise OpErrState
     | Some sequence \<Rightarrow>
         tx_bind (tx_as OpErrStore (AppendEvent clk eid (jr_Workspace lease) i sequence (Some from) to)) (\<lambda>_.
         if to = Succeeded \<or> to = Failed \<or> to = Cancelled then tx_as OpErrStore (ReleaseTerminal (jr_Workspace lease) i) else tx_ret ()))"

definition Transition :: "net \<Rightarrow> time \<Rightarrow> uuid option \<Rightarrow> lease \<Rightarrow> uuid \<Rightarrow> op_state \<Rightarrow> op_state \<Rightarrow> uuid \<Rightarrow> db \<Rightarrow> (err + unit) \<times> db" where
  "Transition n clk eid lease i from to recovery d =
     (if \<not> Allowed from to then (Inl OpErrState, d)
      else run_tx OpErrStore OpErrStore n (transition_tx clk eid lease i from to recovery) d)"

section \<open>The invariant\<close>

text \<open>
  \<open>legal s es t\<close>: the events lead from \<open>s\<close> (\<open>None\<close> before the first) to \<open>t\<close>, each from the state the
  previous one reached and along an allowed transition; the first enters \<open>Queued\<close>.
\<close>

fun legal :: "op_state option \<Rightarrow> event_row list \<Rightarrow> op_state option \<Rightarrow> bool" where
  "legal s [] t \<longleftrightarrow> s = t"
| "legal s (e # es) t \<longleftrightarrow> e_from e = s \<and> (case s of None \<Rightarrow> e_to e = Queued | Some q \<Rightarrow> Allowed q (e_to e)) \<and> legal (Some (e_to e)) es t"

definition events_of :: "db \<Rightarrow> operation_row \<Rightarrow> event_row list" where
  "events_of d p = filter (\<lambda>e. e_workspace e = o_workspace p \<and> e_operation e = o_id p) (events d)"

definition log_ok :: "db \<Rightarrow> operation_row \<Rightarrow> bool" where
  "log_ok d p \<longleftrightarrow> legal None (events_of d p) (Some (o_state p))
     \<and> map e_sequence (events_of d p) = map int [1..<length (events_of d p) + 1]
     \<and> o_event_sequence p = int (length (events_of d p))"

definition in_flight :: "op_state \<Rightarrow> bool" where
  "in_flight s \<longleftrightarrow> s \<in> {Queued, Dispatching, WaitingProvider, Reconciling}"

text \<open>A reservation belongs to an operation without a final outcome and names that operation's resource.\<close>

definition lock_for :: "db \<Rightarrow> operation_row \<Rightarrow> lock_row \<Rightarrow> bool" where
  "lock_for d p l \<longleftrightarrow> op_at (l_workspace l) (l_operation l) p \<and> o_connection p = l_connection l \<and> \<not> op_terminal (o_state p)
     \<and> (\<exists>r \<in> set (resources d). r_workspace r = o_workspace p \<and> r_connection r = o_connection p \<and> r_id r = o_resource p
          \<and> l_target_kind l = ''resource'' \<and> l_resource_type l = r_type r \<and> l_scope l = r_scope r \<and> l_native_id l = r_native_id r)"

definition op_inv :: "db \<Rightarrow> bool" where
  "op_inv d \<longleftrightarrow> distinct (map o_id (operations d)) \<and> distinct (map r_id (resources d))
     \<and> distinct (map lock_target (locks d)) \<and> distinct (map lock_holder (locks d))
     \<and> (\<forall>p \<in> set (operations d). log_ok d p)
     \<and> (\<forall>e \<in> set (events d). \<exists>p \<in> set (operations d). op_at (e_workspace e) (e_operation e) p)
     \<and> (\<forall>l \<in> set (locks d). \<exists>p \<in> set (operations d). lock_for d p l)
     \<and> (\<forall>p \<in> set (operations d). in_flight (o_state p) \<longrightarrow> (\<exists>l \<in> set (locks d). lock_holder l = (o_workspace p, o_id p)))"

lemma op_inv_tables:
  assumes "operations d' = operations d" "events d' = events d" "locks d' = locks d" "resources d' = resources d"
  shows "op_inv d' = op_inv d"
  using assms by (simp add: op_inv_def log_ok_def events_of_def lock_for_def)

lemma in_flight_iff: "in_flight s \<longleftrightarrow> \<not> op_terminal s \<and> s \<noteq> Unknown"
  by (cases s) (auto simp: in_flight_def op_terminal_def)

lemma legal_append: "legal s (es @ fs) t \<longleftrightarrow> (\<exists>q. legal s es q \<and> legal q fs t)"
  by (induction es arbitrary: s) auto

lemma legal_snoc:
  "legal s es (Some q) \<Longrightarrow> e_from e = Some q \<Longrightarrow> Allowed q (e_to e) \<Longrightarrow> legal s (es @ [e]) (Some (e_to e))"
  by (auto simp: legal_append)

text \<open>No transition enters \<open>Queued\<close>, and \<open>Dispatching\<close> is entered from \<open>Queued\<close> only.\<close>

lemma Allowed_not_Queued: "Allowed q to \<Longrightarrow> to \<noteq> Queued"
  by (cases q) auto

lemma Allowed_Dispatching: "Allowed q Dispatching \<longleftrightarrow> q = Queued"
  by (cases q) auto

lemma Allowed_terminal: "op_terminal q \<Longrightarrow> \<not> Allowed q to"
  by (cases q) (auto simp: op_terminal_def)

abbreviation dispatches :: "event_row list \<Rightarrow> nat" where
  "dispatches es \<equiv> length (filter (\<lambda>e. e_to e = Dispatching) es)"

lemma legal_no_dispatch: "legal (Some q) es t \<Longrightarrow> q \<noteq> Queued \<Longrightarrow> dispatches es = 0"
proof (induction es arbitrary: q)
  case (Cons e es)
  then have "Allowed q (e_to e)" "legal (Some (e_to e)) es t" by auto
  with Cons Allowed_not_Queued Allowed_Dispatching show ?case by auto
qed simp

lemma legal_one_dispatch: "legal (Some Queued) es t \<Longrightarrow> dispatches es \<le> 1"
proof (cases es)
  case (Cons e es')
  assume "legal (Some Queued) es t"
  with Cons have "Allowed Queued (e_to e)" "legal (Some (e_to e)) es' t" by auto
  with Cons legal_no_dispatch Allowed_not_Queued show ?thesis by fastforce
qed simp

lemma legal_dispatches: "legal None es t \<Longrightarrow> dispatches es \<le> 1"
  by (cases es) (auto dest!: legal_one_dispatch)

lemma log_ok_dispatches: "log_ok d p \<Longrightarrow> dispatches (events_of d p) \<le> 1"
  by (auto simp: log_ok_def dest: legal_dispatches)

lemma legal_queued: "legal None es (Some Queued) \<Longrightarrow> dispatches es = 0"
proof (cases es rule: rev_cases)
  case (snoc es' e)
  assume l: "legal None es (Some Queued)"
  then obtain q where "legal None es' q" "legal q [e] (Some Queued)" unfolding snoc by (auto simp: legal_append)
  then have "q = None" "e_to e = Queued" using Allowed_not_Queued by (auto split: option.splits)
  moreover have "es' = []"
    using \<open>legal None es' q\<close> \<open>q = None\<close> by (cases es' rule: rev_cases) (auto simp: legal_append)
  ultimately show ?thesis using snoc by simp
qed simp

text \<open>The table of operations by identifier.\<close>

lemma operation_unique:
  "distinct (map o_id (operations d)) \<Longrightarrow> p \<in> set (operations d) \<Longrightarrow> q \<in> set (operations d) \<Longrightarrow> op_at w i p \<Longrightarrow> op_at w i q \<Longrightarrow> p = q"
  by (auto simp: op_at_def dest: unique_key)

lemma operation_of_Some: "operation_of d w i = Some p \<Longrightarrow> p \<in> set (operations d) \<and> op_at w i p"
  by (auto simp: operation_of_def dest: fetch_Some)

lemma operation_of_unique:
  "distinct (map o_id (operations d)) \<Longrightarrow> p \<in> set (operations d) \<Longrightarrow> op_at w i p \<Longrightarrow> operation_of d w i = Some p"
  unfolding operation_of_def by (rule fetch_unique [where k = o_id]) (auto simp: op_at_def)

lemma op_inv_distinct: "op_inv d \<Longrightarrow> distinct (map o_id (operations d))"
  by (simp add: op_inv_def)

section \<open>What advance leaves behind\<close>

definition new_event :: "time \<Rightarrow> uuid \<Rightarrow> op_state option \<Rightarrow> op_state \<Rightarrow> operation_row \<Rightarrow> event_row" where
  "new_event clk eid from to p = \<lparr>e_id = eid, e_workspace = o_workspace p, e_operation = o_id p,
     e_sequence = o_event_sequence p + 1, e_from = from, e_to = to, e_created_at = clk\<rparr>"

definition advanced :: "time \<Rightarrow> (operation_row \<Rightarrow> bool) \<Rightarrow> op_state \<Rightarrow> operation_row \<Rightarrow> db \<Rightarrow> db \<Rightarrow> bool" where
  "advanced clk P to p d d' \<longleftrightarrow> fetch P (operations d) = Some p
     \<and> (\<exists>eid. d' = d\<lparr>operations := upd P (moved clk to) (operations d),
          events := events d @ [new_event clk eid (Some (o_state p)) to p],
          locks := if op_terminal to then del (\<lambda>l. lock_holder l = (o_workspace p, o_id p)) (locks d) else locks d\<rparr>)"

lemma vc_AppendEvent [vc_rules]:
  assumes "\<And>event d'. eid = Some event \<Longrightarrow> d' = d\<lparr>events := events d @ [\<lparr>e_id = event, e_workspace = w, e_operation = i,
     e_sequence = sequence, e_from = from, e_to = to, e_created_at = clk\<rparr>]\<rparr> \<Longrightarrow> Q () d'"
  shows "vc (AppendEvent clk eid w i sequence from to) Q d"
  unfolding AppendEvent_def by (intro vc_rules) (auto simp: insert_event_def intro!: assms split: if_splits)

lemma vc_ReleaseTerminal [vc_rules]:
  assumes "Q () (d\<lparr>locks := del (\<lambda>l. lock_holder l = (w, i)) (locks d)\<rparr>)"
  shows "vc (ReleaseTerminal w i) Q d"
  unfolding ReleaseTerminal_def by (intro vc_rules) (auto simp: assms)

lemma vc_move_operation:
  assumes "\<And>p. fetch (P d) (operations d) = Some p \<Longrightarrow>
     Q (Some (o_event_sequence p + 1)) (d\<lparr>operations := upd (P d) (moved clk to) (operations d)\<rparr>)" "Q None d"
  shows "vc (sql e (move_operation clk P to)) Q d"
  by (intro vc_rules) (auto simp: move_operation_def assms split: option.splits if_splits)

lemma advance_effect:
  assumes "\<And>p d'. Allowed from to \<Longrightarrow> p \<in> set (operations d) \<Longrightarrow> op_at w i p \<Longrightarrow> o_state p = from \<Longrightarrow>
     advanced clk (\<lambda>p. op_at w i p \<and> o_state p = from) to p d d' \<Longrightarrow> Q () d'"
  shows "vc (advance clk eid w i from to) Q d"
  unfolding advance_def
proof (intro vc_if vc_raise vc_bind vc_move_operation)
  fix p
  let ?P = "\<lambda>p. op_at w i p \<and> o_state p = from"
  let ?d = "d\<lparr>operations := upd ?P (moved clk to) (operations d)\<rparr>"
  assume al: "\<not> \<not> Allowed from to" and f: "fetch ?P (operations d) = Some p"
  then have p: "p \<in> set (operations d)" "op_at w i p" "o_state p = from" by (auto dest: fetch_Some)
  show "vc (case Some (o_event_sequence p + 1) of None \<Rightarrow> tx_raise OpErrState
     | Some sequence \<Rightarrow> tx_bind (tx_as OpErrStore (AppendEvent clk eid w i sequence (Some from) to))
         (\<lambda>_. if to = Succeeded \<or> to = Failed \<or> to = Cancelled then ReleaseTerminal w i else tx_ret ())) Q ?d"
  proof (simp only: option.case, intro vc_rules)
    fix event d1
    assume "d1 = ?d\<lparr>events := events ?d @ [\<lparr>e_id = event, e_workspace = w, e_operation = i,
       e_sequence = o_event_sequence p + 1, e_from = Some from, e_to = to, e_created_at = clk\<rparr>]\<rparr>"
    moreover have "w = o_workspace p" "i = o_id p" using p(2) by (auto simp: op_at_def)
    ultimately have d1: "d1 = ?d\<lparr>events := events d @ [new_event clk event (Some (o_state p)) to p]\<rparr>"
      using p(3) by (simp add: new_event_def)
    show "Q () (d1\<lparr>locks := del (\<lambda>l. lock_holder l = (w, i)) (locks d1)\<rparr>)" if "to = Succeeded \<or> to = Failed \<or> to = Cancelled"
      using that al p f by (intro assms [of p]) (auto simp: advanced_def d1 op_terminal_def op_at_def)
    show "Q () d1" if "\<not> (to = Succeeded \<or> to = Failed \<or> to = Cancelled)"
      using that al p f by (intro assms [of p]) (auto simp: advanced_def d1 op_terminal_def op_at_def)
  qed
qed (auto intro: vc_rules)

lemma moved_simps [simp]:
  "o_id (moved clk to p) = o_id p" "o_workspace (moved clk to p) = o_workspace p" "o_connection (moved clk to p) = o_connection p"
  "o_resource (moved clk to p) = o_resource p" "o_state (moved clk to p) = to" "o_event_sequence (moved clk to p) = o_event_sequence p + 1"
  "o_review (moved clk to p) = o_review p" "o_actor (moved clk to p) = o_actor p" "o_idempotency_key (moved clk to p) = o_idempotency_key p"
  "o_intent_hash (moved clk to p) = o_intent_hash p" "op_at w i (moved clk to p) = op_at w i p"
  by (simp_all add: moved_def op_at_def)

lemma new_event_simps [simp]:
  "e_workspace (new_event clk eid from to p) = o_workspace p" "e_operation (new_event clk eid from to p) = o_id p"
  "e_from (new_event clk eid from to p) = from" "e_to (new_event clk eid from to p) = to"
  "e_sequence (new_event clk eid from to p) = o_event_sequence p + 1"
  by (simp_all add: new_event_def)

lemma events_of_moved [simp]: "events_of d (moved clk to p) = events_of d p"
  by (simp add: events_of_def)

lemma in_advanced:
  assumes "advanced clk P to p d d'" "\<forall>q \<in> set (operations d). P q \<longrightarrow> q = p" "q' \<in> set (operations d')"
  shows "q' = moved clk to p \<or> (q' \<in> set (operations d) \<and> q' \<noteq> p)"
proof -
  from assms(1,3) have "q' \<in> set (upd P (moved clk to) (operations d))" by (auto simp: advanced_def)
  moreover from assms(1) have "P p" by (auto simp: advanced_def dest: fetch_Some)
  ultimately show ?thesis using assms(2) by (auto dest!: in_updD)
qed

lemma advanced_in:
  assumes "advanced clk P to p d d'" "\<forall>q \<in> set (operations d). P q \<longrightarrow> q = p"
  shows "moved clk to p \<in> set (operations d')" "q \<in> set (operations d) \<Longrightarrow> q \<noteq> p \<Longrightarrow> q \<in> set (operations d')" "p \<in> set (operations d)"
proof -
  from assms(1) have p: "p \<in> set (operations d)" "P p" and o: "operations d' = upd P (moved clk to) (operations d)"
    by (auto simp: advanced_def dest: fetch_Some)
  from p o show "moved clk to p \<in> set (operations d')" "p \<in> set (operations d)" by (auto intro: in_updI)
  show "q \<in> set (operations d')" if "q \<in> set (operations d)" "q \<noteq> p"
    using that assms(2) o by (auto intro: in_upd_other)
qed

lemma log_ok_advanced:
  assumes "log_ok d p" "Allowed (o_state p) to" "events d' = events d @ [new_event clk eid (Some (o_state p)) to p]"
  shows "log_ok d' (moved clk to p)"
proof -
  let ?e = "new_event clk eid (Some (o_state p)) to p"
  have ev: "events_of d' (moved clk to p) = events_of d p @ [?e]"
    using assms(3) by (simp add: events_of_def)
  have "legal None (events_of d p @ [?e]) (Some to)"
    using legal_snoc [of None "events_of d p" "o_state p" ?e] assms by (simp add: log_ok_def)
  with assms(1) ev show ?thesis by (simp add: log_ok_def)
qed

lemma log_ok_other:
  assumes "log_ok d q" "o_id q \<noteq> o_id p" "events d' = events d @ [new_event clk eid from to p]"
  shows "log_ok d' q"
proof -
  have "events_of d' q = events_of d q" using assms(2,3) by (simp add: events_of_def)
  with assms(1) show ?thesis by (simp add: log_ok_def)
qed

lemma advanced_inv:
  assumes inv: "op_inv d" and adv: "advanced clk P to p d d'" and al: "Allowed (o_state p) to"
    and only: "\<forall>q \<in> set (operations d). P q \<longrightarrow> q = p"
    and held: "o_state p = Unknown \<Longrightarrow> \<exists>l \<in> set (locks d). lock_holder l = (o_workspace p, o_id p)"
  shows "op_inv d'"
proof -
  note inD = in_advanced [OF adv only] and inI = advanced_in [OF adv only]
  obtain eid where ev: "events d' = events d @ [new_event clk eid (Some (o_state p)) to p]"
    and ops: "operations d' = upd P (moved clk to) (operations d)" and res: "resources d' = resources d"
    and lk: "locks d' = (if op_terminal to then del (\<lambda>l. lock_holder l = (o_workspace p, o_id p)) (locks d) else locks d)"
    using adv by (auto simp: advanced_def)
  have dist: "distinct (map o_id (operations d))" using inv by (simp add: op_inv_def)
  have other: "o_id q \<noteq> o_id p" if "q \<in> set (operations d)" "q \<noteq> p" for q
    using that inI(3) dist by (auto dest: unique_key)
  have lsub: "l \<in> set (locks d)" if "l \<in> set (locks d')" for l using that lk by (auto split: if_splits)
  have nt: "\<not> op_terminal (o_state p)" using al Allowed_terminal by blast
  have log: "log_ok d' q" if "q \<in> set (operations d')" for q
    using inD [OF that] inv log_ok_advanced [OF _ al ev] log_ok_other [OF _ _ ev] inI(3) other by (auto simp: op_inv_def)
  have ref: "\<exists>q \<in> set (operations d'). op_at (e_workspace e) (e_operation e) q" if "e \<in> set (events d')" for e
  proof -
    from that inv inI(3) obtain q where "q \<in> set (operations d)" "op_at (e_workspace e) (e_operation e) q"
      unfolding ev by (auto simp: op_inv_def op_at_def)
    with inI show ?thesis by (metis moved_simps(11))
  qed
  have lock: "\<exists>q \<in> set (operations d'). lock_for d' q l" if l: "l \<in> set (locks d')" for l
  proof -
    from inv lsub [OF l] obtain q where q: "q \<in> set (operations d)" "lock_for d q l" by (auto simp: op_inv_def)
    show ?thesis
    proof (cases "q = p")
      case False
      with q inI res show ?thesis by (auto simp: lock_for_def)
    next
      case True
      with q l lk have "\<not> op_terminal to" by (auto simp: lock_for_def op_at_def lock_holder_def split: if_splits)
      with True q inI(1) res show ?thesis by (auto simp: lock_for_def intro!: bexI [of _ "moved clk to p"])
    qed
  qed
  have hold: "\<exists>l \<in> set (locks d'). lock_holder l = (o_workspace q, o_id q)" if q: "q \<in> set (operations d')" "in_flight (o_state q)" for q
  proof -
    from inD [OF q(1)] show ?thesis
    proof
      assume m: "q = moved clk to p"
      with q(2) have "\<not> op_terminal to" by (simp add: in_flight_iff)
      moreover have "\<exists>l \<in> set (locks d). lock_holder l = (o_workspace p, o_id p)"
        using held inv inI(3) nt by (auto simp: op_inv_def in_flight_iff)
      ultimately show ?thesis using m lk by auto
    next
      assume "q \<in> set (operations d) \<and> q \<noteq> p"
      with other q(2) inv lk show ?thesis by (fastforce simp: op_inv_def)
    qed
  qed
  have "distinct (map o_id (operations d'))" using dist ops by (simp add: map_upd_key)
  moreover have "distinct (map lock_target (locks d'))" "distinct (map lock_holder (locks d'))" "distinct (map r_id (resources d'))"
    using inv lk res by (auto simp: op_inv_def distinct_map_del)
  ultimately show ?thesis using log ref lock hold unfolding op_inv_def by blast
qed

text \<open>Rules for bodies: what the shared writes need and keep.\<close>

lemma vc_finishJob [vc_rules]:
  assumes "\<And>d'. cnt (holds lease clk) (jobs d) = 1 \<Longrightarrow> d' = d\<lparr>jobs := upd (holds lease clk) (job_after clk st next) (jobs d)\<rparr> \<Longrightarrow>
     list_all (\<lambda>r. holds lease clk r \<longrightarrow> job_row_check (job_after clk st next r)) (jobs d) \<Longrightarrow> Q () d'"
  shows "vc (finishJob clk lease st next) Q d"
  unfolding finishJob_def by (intro vc_rules) (auto simp: update_jobs_Some intro!: assms)

definition reserved :: "db \<Rightarrow> uuid \<Rightarrow> uuid \<Rightarrow> bool" where
  "reserved d w i \<longleftrightarrow> (\<exists>l \<in> set (locks d). lock_holder l = (w, i))"

lemma only_at:
  "op_inv d \<Longrightarrow> p \<in> set (operations d) \<Longrightarrow> op_at w i p \<Longrightarrow> (\<And>q. P q \<Longrightarrow> op_at w i q) \<Longrightarrow> \<forall>q \<in> set (operations d). P q \<longrightarrow> q = p"
  using op_inv_distinct operation_unique by blast

lemma vc_advance [vc_rules]:
  assumes "op_inv d" "from = Unknown \<Longrightarrow> reserved d w i"
    "\<And>p d'. Allowed from to \<Longrightarrow> p \<in> set (operations d) \<Longrightarrow> op_at w i p \<Longrightarrow> o_state p = from \<Longrightarrow>
       advanced clk (\<lambda>p. op_at w i p \<and> o_state p = from) to p d d' \<Longrightarrow> op_inv d' \<Longrightarrow> Q () d'"
  shows "vc (advance clk eid w i from to) Q d"
proof (rule advance_effect)
  fix p d'
  assume p: "Allowed from to" "p \<in> set (operations d)" "op_at w i p" "o_state p = from"
    and adv: "advanced clk (\<lambda>p. op_at w i p \<and> o_state p = from) to p d d'"
  have "op_inv d'"
  proof (rule advanced_inv [OF assms(1) adv])
    show "\<forall>q \<in> set (operations d). op_at w i q \<and> o_state q = from \<longrightarrow> q = p"
      using only_at [OF assms(1) p(2,3)] by simp
    show "\<exists>l \<in> set (locks d). lock_holder l = (o_workspace p, o_id p)" if "o_state p = Unknown"
      using that assms(2) p by (simp add: reserved_def op_at_def)
  qed (use p in simp)
  with p adv assms(3) show "Q () d'" by blast
qed

text \<open>Tables the invariant does not read.\<close>

lemma op_inv_frame [simp]:
  "op_inv (d\<lparr>jobs := a1\<rparr>) = op_inv d" "op_inv (d\<lparr>audit_events := a2\<rparr>) = op_inv d" "op_inv (d\<lparr>memberships := a3\<rparr>) = op_inv d"
  "op_inv (d\<lparr>sessions := a4\<rparr>) = op_inv d" "op_inv (d\<lparr>workspaces := a5\<rparr>) = op_inv d" "op_inv (d\<lparr>grants := a6\<rparr>) = op_inv d"
  "op_inv (d\<lparr>reviews := a7\<rparr>) = op_inv d" "op_inv (d\<lparr>resolutions := a8\<rparr>) = op_inv d" "op_inv (d\<lparr>gate := a9\<rparr>) = op_inv d"
  "op_inv (d\<lparr>lock_counter := b1\<rparr>) = op_inv d" "op_inv (d\<lparr>sync_runs := b2\<rparr>) = op_inv d" "op_inv (d\<lparr>sync_counter := b3\<rparr>) = op_inv d"
  "op_inv (d\<lparr>invitations := b4\<rparr>) = op_inv d" "op_inv (d\<lparr>users := b5\<rparr>) = op_inv d" "op_inv (d\<lparr>staging := b6\<rparr>) = op_inv d"
  "op_inv (d\<lparr>challenges := b7\<rparr>) = op_inv d" "op_inv (d\<lparr>login_budget := b8\<rparr>) = op_inv d" "op_inv (d\<lparr>bootstraps := b9\<rparr>) = op_inv d"
  "op_inv (d\<lparr>connections := c1\<rparr>) = op_inv d" "op_inv (d\<lparr>credential_versions := c2\<rparr>) = op_inv d"
  by (simp_all cong: op_inv_tables)

text \<open>The contract of a reservation: the caller's operation holds the target, alone.\<close>

definition holds_target :: "db \<Rightarrow> uuid \<Rightarrow> uuid \<Rightarrow> uuid \<Rightarrow> reserve_target \<Rightarrow> string \<Rightarrow> int \<Rightarrow> bool" where
  "holds_target d w c i target kind fence \<longleftrightarrow> (\<exists>l \<in> set (locks d). lock_target l = lock_target (reserve_lock w c i target kind)
     \<and> l_operation l = i \<and> l_fence l = fence)"

text \<open>Either the target was free, or this very operation held it already.\<close>

definition reserve_result :: "db \<Rightarrow> uuid \<Rightarrow> uuid \<Rightarrow> uuid \<Rightarrow> reserve_target \<Rightarrow> string \<Rightarrow> int \<Rightarrow> db \<Rightarrow> bool" where
  "reserve_result d w c i target kind fence d' \<longleftrightarrow>
     (d' = d\<lparr>lock_counter := lock_counter d + 1\<rparr> \<and> holds_target d w c i target kind fence)
     \<or> (d' = d\<lparr>locks := locks d @ [(reserve_lock w c i target kind)\<lparr>l_fence := fence\<rparr>], lock_counter := lock_counter d + 1\<rparr>
        \<and> lock_target (reserve_lock w c i target kind) \<notin> set (map lock_target (locks d))
        \<and> (w, i) \<notin> set (map lock_holder (locks d)))"

lemma vc_reserve_one [vc_rules]:
  assumes "\<And>p r fence d'. p \<in> set (operations d) \<Longrightarrow> op_at w i p \<Longrightarrow> o_connection p = c \<Longrightarrow> o_state p = Queued \<Longrightarrow>
     r \<in> set (resources d) \<Longrightarrow> r_workspace r = w \<Longrightarrow> r_connection r = c \<Longrightarrow> r_id r = o_resource p \<Longrightarrow>
     (rt_Kind target = ''resource'' \<Longrightarrow> r_scope r = rt_Scope target \<and> r_native_id r = rt_NativeID target) \<Longrightarrow>
     holds_target d' w c i target (r_type r) fence \<Longrightarrow>
     reserve_result d w c i target (r_type r) fence d' \<Longrightarrow> Q fence d'"
  shows "vc (reserve_one w c i target) Q d"
  unfolding reserve_one_def
proof (intro vc_rules)
  fix x y z state scope native kind x' d'
  let ?l = "reserve_lock w c i target kind"
  assume f: "(case fetch (\<lambda>p. op_at w i p \<and> o_connection p = c) (operations d) of None \<Rightarrow> None
      | Some p \<Rightarrow> map_option (\<lambda>r. (o_state p, r_scope r, r_native_id r, r_type r)) (resource_of d w c (o_resource p))) = Some x"
    and x: "x = (state, y)" "y = (scope, z)" "z = (native, kind)"
    and ok: "\<not> (state \<noteq> Queued \<or> rt_Kind target = ''resource'' \<and> (scope \<noteq> rt_Scope target \<or> native \<noteq> rt_NativeID target))"
    and ins: "insert_lock ?l d = Some (x', d')"
  from f x obtain p r where pr: "p \<in> set (operations d)" "op_at w i p" "o_connection p = c" "o_state p = state"
    "r \<in> set (resources d)" "r_workspace r = w" "r_connection r = c" "r_id r = o_resource p"
    "scope = r_scope r" "native = r_native_id r" "kind = r_type r"
    by (auto simp: resource_of_def dest!: fetch_Some split: option.splits)
  have q: "o_state p = Queued" "rt_Kind target = ''resource'' \<Longrightarrow> r_scope r = rt_Scope target \<and> r_native_id r = rt_NativeID target"
    using ok pr by auto
  note use = assms [OF pr(1-3) q(1) pr(5-8) q(2)]
  have hold: "lock_holder ?l = (w, i)" by (simp add: lock_holder_def reserve_lock_def)
  show "Q fence d'" if "x' = Some fence" for fence
  proof (rule use)
    from ins that have d': "d' = d\<lparr>locks := locks d @ [?l\<lparr>l_fence := fence\<rparr>], lock_counter := lock_counter d + 1\<rparr>"
      "lock_target ?l \<notin> set (map lock_target (locks d))" "lock_holder ?l \<notin> set (map lock_holder (locks d))"
      by (auto simp: insert_lock_def split: if_splits)
    then show "holds_target d' w c i target (r_type r) fence"
      by (simp add: holds_target_def pr(11) [symmetric]) (simp add: lock_target_def reserve_lock_def)
    show "reserve_result d w c i target (r_type r) fence d'"
      using d' hold pr(11) by (simp add: reserve_result_def)
  qed assumption
  show "Q fence d'" if "x' = None" "map_option l_fence (fetch (\<lambda>l. lock_target l = lock_target ?l \<and> l_operation l = i) (locks d')) = Some fence" for fence
  proof (rule use)
    from ins that(1) have d': "d' = d\<lparr>lock_counter := lock_counter d + 1\<rparr>" by (auto simp: insert_lock_def split: if_splits)
    with that(2) show h: "holds_target d' w c i target (r_type r) fence"
      by (auto simp: holds_target_def pr(11) dest!: fetch_Some)
    then show "reserve_result d w c i target (r_type r) fence d'"
      using d' by (simp add: reserve_result_def holds_target_def)
  qed assumption
qed

lemma vc_Reserve [vc_rules]:
  assumes "\<And>p r fence d'. p \<in> set (operations d) \<Longrightarrow> op_at w i p \<Longrightarrow> o_connection p = c \<Longrightarrow> o_state p = Queued \<Longrightarrow>
     r \<in> set (resources d) \<Longrightarrow> r_workspace r = w \<Longrightarrow> r_connection r = c \<Longrightarrow> r_id r = o_resource p \<Longrightarrow>
     (rt_Kind target = ''resource'' \<Longrightarrow> r_scope r = rt_Scope target \<and> r_native_id r = rt_NativeID target) \<Longrightarrow>
     holds_target d' w c i target (r_type r) fence \<Longrightarrow> reserve_result d w c i target (r_type r) fence d' \<Longrightarrow> Q fence d'"
  shows "vc (Reserve w c i [target]) Q d"
  unfolding Reserve_def list.case by (intro vc_rules) (rule assms)

lemma vc_transition:
  assumes "op_inv d" "from = Unknown \<Longrightarrow> reserved d (jr_Workspace lease) i" "Allowed from to"
  shows "vc (transition_tx clk eid lease i from to recovery)
     (\<lambda>_ d'. op_inv d' \<and> (\<exists>p. transition_guard clk lease i from recovery d p \<and> advanced clk (transition_guard clk lease i from recovery d) to p d d')) d"
proof -
  let ?G = "transition_guard clk lease i from recovery d" and ?w = "jr_Workspace lease"
  have adv: "op_inv d' \<and> (\<exists>p. ?G p \<and> advanced clk ?G to p d d')" if a: "advanced clk ?G to p d d'" for p d'
  proof -
    from a have p: "p \<in> set (operations d)" "?G p" by (auto simp: advanced_def dest: fetch_Some)
    then have at: "op_at ?w i p" "o_state p = from" by (auto simp: transition_guard_def)
    have "op_inv d'"
    proof (rule advanced_inv [OF assms(1) a])
      show "Allowed (o_state p) to" using assms(3) at(2) by simp
      show "\<forall>q \<in> set (operations d). ?G q \<longrightarrow> q = p"
        by (rule only_at [OF assms(1) p(1) at(1)]) (simp add: transition_guard_def)
      show "\<exists>l \<in> set (locks d). lock_holder l = (o_workspace p, o_id p)" if "o_state p = Unknown"
        using that assms(2) at by (simp add: reserved_def op_at_def)
    qed
    with p a show ?thesis by blast
  qed
  show ?thesis
    unfolding transition_tx_def
  proof (intro vc_bind vc_move_operation)
    fix p
    assume f: "fetch ?G (operations d) = Some p"
    then have "?G p" by (auto dest: fetch_Some)
    then have p: "o_workspace p = ?w" "o_id p = i" "o_state p = from" by (auto simp: transition_guard_def op_at_def)
    show "vc (case Some (o_event_sequence p + 1) of None \<Rightarrow> tx_raise OpErrState
       | Some sequence \<Rightarrow> tx_bind (tx_as OpErrStore (AppendEvent clk eid ?w i sequence (Some from) to))
          (\<lambda>_. if to = Succeeded \<or> to = Failed \<or> to = Cancelled then tx_as OpErrStore (ReleaseTerminal ?w i) else tx_ret ()))
       (\<lambda>_ d'. op_inv d' \<and> (\<exists>p. ?G p \<and> advanced clk ?G to p d d')) (d\<lparr>operations := upd ?G (moved clk to) (operations d)\<rparr>)"
      unfolding option.case
      by (intro vc_rules; rule adv [of p]) (auto simp: advanced_def f p op_terminal_def new_event_def)
  qed (auto intro: vc_rules)
qed

lemma Transition_committed:
  assumes "op_inv d" "from = Unknown \<Longrightarrow> reserved d (jr_Workspace lease) i" "Transition n clk eid lease i from to recovery d = (r, d')"
  shows "(d' = d \<and> isl r) \<or> (Allowed from to \<and> op_inv d'
     \<and> (\<exists>p. transition_guard clk lease i from recovery d p \<and> advanced clk (transition_guard clk lease i from recovery d) to p d d'))"
proof (cases "Allowed from to")
  case False
  with assms(3) show ?thesis by (auto simp: Transition_def)
next
  case True
  with assms(3) have "run_tx OpErrStore OpErrStore n (transition_tx clk eid lease i from to recovery) d = (r, d')"
    by (simp add: Transition_def)
  from vc_run_tx [OF this vc_transition [OF assms(1,2) True]] True show ?thesis by blast
qed

section \<open>Properties\<close>

text \<open>A workspace with one connection, one server and one accepted operation whose job is leased.\<close>

definition example_operation :: operation_row where
  "example_operation = \<lparr>o_id = v7 5, o_workspace = v7 1, o_actor = v7 4, o_connection = v7 2, o_resource = v7 3,
     o_action = ''compute.server.reboot'', o_intent = JNull, o_intent_hash = [], o_idempotency_key = ''k'', o_review = v7 6,
     o_credential_version = 1, o_policy_version = 1, o_state = Queued, o_version = 1, o_event_sequence = 1,
     o_deadline = 30 * minute, o_created_at = 0, o_updated_at = 0, o_reference = None\<rparr>"

definition example_resource :: resource_row where
  "example_resource = \<lparr>r_id = v7 3, r_workspace = v7 1, r_connection = v7 2, r_api_family = ''hcloud'', r_type = ''compute.server'',
     r_scope = ''account'', r_native_id = ''42'', r_native_status = ''running'', r_status = ''running'', r_name = ''web'',
     r_details = \<lparr>dt_Region = ''fsn1'', dt_MachineType = ''cx11'', dt_Snapshot = None\<rparr>, r_observed_at = 0, r_generation = v7 70, r_tombstoned_at = None, r_version = 1\<rparr>"

definition example_dispatch_job :: job_row where
  "example_dispatch_job = (example_job 7 0)\<lparr>j_type := ''operation_dispatch'', j_payload_version := 3, j_operation := Some (v7 5),
     j_state := JRunning, j_lease_owner := Some (v7 91), j_lease_token := Some (v7 90), j_lease_expires_at := Some minute\<rparr>"

definition dispatch_lease :: lease where
  "dispatch_lease = lease_of (v7 91) (v7 90) example_dispatch_job"

definition example_ops :: db where
  "example_ops = empty_db\<lparr>operations := [example_operation], resources := [example_resource],
     events := [new_event 0 (v7 50) None Queued (example_operation\<lparr>o_event_sequence := 0\<rparr>)],
     locks := [(reserve_lock (v7 1) (v7 2) (v7 5) \<lparr>rt_Kind = ''resource'', rt_Scope = ''account'', rt_NativeID = ''42''\<rparr> ''compute.server'')\<lparr>l_fence := 1\<rparr>],
     lock_counter := 1, jobs := [example_dispatch_job]\<rparr>"

lemma op_inv_example: "op_inv example_ops"
  by code_simp





text \<open>
  \<open>Transition\<close> moves an operation only along an allowed edge and only while the caller holds the live
  lease of that operation's own job; on every other outcome, and on every network, the database is as it was.
  The invariant that ties states, events and reservations together is kept.
\<close>

theorem transition_needs_live_lease:
  assumes "op_inv d" "from = Unknown \<Longrightarrow> reserved d (jr_Workspace lease) i" "Transition n clk eid lease i from to recovery d = (r, d')"
  shows "op_inv d' \<and> (r = Inr () \<longrightarrow> d' \<noteq> d) \<and> (d' \<noteq> d \<longrightarrow> Allowed from to
     \<and> (\<exists>j \<in> set (jobs d). holds lease clk j \<and> j_operation j = Some i)
     \<and> (\<exists>p \<in> set (operations d). o_id p = i \<and> o_state p = from \<and> moved clk to p \<in> set (operations d')))"
proof -
  from Transition_committed [OF assms] show ?thesis
  proof
    assume "d' = d \<and> isl r"
    with assms(1) show ?thesis by auto
  next
    assume c: "Allowed from to \<and> op_inv d'
      \<and> (\<exists>p. transition_guard clk lease i from recovery d p \<and> advanced clk (transition_guard clk lease i from recovery d) to p d d')"
    then obtain p where g: "transition_guard clk lease i from recovery d p"
      and a: "advanced clk (transition_guard clk lease i from recovery d) to p d d'" by blast
    from a have p: "p \<in> set (operations d)" "length (events d') = Suc (length (events d))" and ops: "operations d' = upd (transition_guard clk lease i from recovery d) (moved clk to) (operations d)"
      by (auto simp: advanced_def dest: fetch_Some)
    from p(2) have "d' \<noteq> d" by auto
    moreover have "moved clk to p \<in> set (operations d')" unfolding ops using p(1) g by (rule in_updI)
    ultimately show ?thesis using c g p(1) by (auto simp: transition_guard_def leased_job_def op_at_def)
  qed
qed

theorem transition_needs_live_lease_witness:
  "op_inv (snd (Transition good_net second (Some (v7 51)) dispatch_lease (v7 5) Queued Dispatching uuid_Nil example_ops))
     \<and> snd (Transition good_net second (Some (v7 51)) dispatch_lease (v7 5) Queued Dispatching uuid_Nil example_ops) \<noteq> example_ops"
proof -
  let ?t = "Transition good_net second (Some (v7 51)) dispatch_lease (v7 5) Queued Dispatching uuid_Nil example_ops"
  have "fst ?t = Inr ()" by code_simp
  then have "?t = (Inr (), snd ?t)" by (cases ?t) simp
  from transition_needs_live_lease [OF op_inv_example _ this] show ?thesis by simp
qed

text \<open>
  A reservation is exclusive. \<open>Reserve\<close> succeeds only when afterwards the requesting operation, and no
  other, holds the target; while another operation holds it the call fails, and asking again for a
  target already held returns the same fence.
\<close>

theorem reserve_is_exclusive:
  assumes "op_inv (t_db s)" "rt_Kind target = ''resource''" "Reserve w c i [target] s = (r, s')"
    and "p \<in> set (operations (t_db s))" "op_at w i p" "o_connection p = c" "resource_of (t_db s) w c (o_resource p) = Some res"
  shows "(\<forall>fence. r = Inr fence \<longrightarrow> holds_target (t_db s') w c i target (r_type res) fence
       \<and> (\<forall>l \<in> set (locks (t_db s')). lock_target l = lock_target (reserve_lock w c i target (r_type res)) \<longrightarrow> l_operation l = i)
       \<and> (\<forall>f. holds_target (t_db s) w c i target (r_type res) f \<longrightarrow> f = fence))
     \<and> ((\<exists>l \<in> set (locks (t_db s)). lock_target l = lock_target (reserve_lock w c i target (r_type res)) \<and> l_operation l \<noteq> i) \<longrightarrow> isl r)"
proof -
  let ?t = "lock_target (reserve_lock w c i target (r_type res))"
  have dist: "distinct (map lock_target (locks (t_db s)))" "distinct (map r_id (resources (t_db s)))" using assms(1) by (auto simp: op_inv_def)
  have res: "res \<in> set (resources (t_db s))" "r_id res = o_resource p"
    using assms(7) by (auto simp: resource_of_def dest!: fetch_Some)
  have ok: "holds_target (t_db s') w c i target (r_type res) fence \<and> reserve_result (t_db s) w c i target (r_type res) fence (t_db s')"
    if "r = Inr fence" for fence
  proof -
    have "vc (Reserve w c i [target]) (\<lambda>fence d'. holds_target d' w c i target (r_type res) fence
        \<and> reserve_result (t_db s) w c i target (r_type res) fence d') (t_db s)"
    proof (rule vc_Reserve)
      fix p' r' fence d'
      assume "p' \<in> set (operations (t_db s))" "op_at w i p'" "r' \<in> set (resources (t_db s))" "r_id r' = o_resource p'"
        "holds_target d' w c i target (r_type r') fence" "reserve_result (t_db s) w c i target (r_type r') fence d'"
      moreover from this have "p' = p" using operation_unique [OF op_inv_distinct [OF assms(1)] _ assms(4) _ assms(5)] by blast
      moreover from calculation have "r' = res" using unique_key [OF dist(2) _ res(1)] res(2) by auto
      ultimately show "holds_target d' w c i target (r_type res) fence \<and> reserve_result (t_db s) w c i target (r_type res) fence d'" by simp
    qed
    from vcD [OF this, of s fence s'] assms(3) that show ?thesis by simp
  qed
  have sole: "l_operation l = i" if rr: "reserve_result (t_db s) w c i target (r_type res) fence d'" and l: "l \<in> set (locks d')" "lock_target l = ?t" for l fence d'
  proof -
    from rr consider "locks d' = locks (t_db s)" "\<exists>k \<in> set (locks (t_db s)). lock_target k = ?t \<and> l_operation k = i"
      | "locks d' = locks (t_db s) @ [(reserve_lock w c i target (r_type res))\<lparr>l_fence := fence\<rparr>]" "?t \<notin> set (map lock_target (locks (t_db s)))"
      unfolding reserve_result_def holds_target_def by (elim disjE conjE bexE) (simp_all, blast)
    then show ?thesis
    proof cases
      case 1
      then obtain k where k: "k \<in> set (locks (t_db s))" "lock_target k = ?t" "l_operation k = i" by blast
      with l 1(1) unique_key [OF dist(1), of l k] show ?thesis by auto
    next
      case 2
      with l have "l = (reserve_lock w c i target (r_type res))\<lparr>l_fence := fence\<rparr>" by (auto simp: image_iff)
      then show ?thesis by (simp only: lock_row.simps reserve_lock_def)
    qed
  qed
  have same: "f = fence" if "reserve_result (t_db s) w c i target (r_type res) fence d'" "holds_target (t_db s) w c i target (r_type res) f" for f fence d'
  proof -
    from that(2) obtain k where k: "k \<in> set (locks (t_db s))" "lock_target k = ?t" "l_fence k = f" by (auto simp: holds_target_def)
    then have "?t \<in> set (map lock_target (locks (t_db s)))" by (metis image_eqI set_map)
    with that(1) obtain l where "l \<in> set (locks (t_db s))" "lock_target l = ?t" "l_fence l = fence"
      by (auto simp: reserve_result_def holds_target_def)
    with k unique_key [OF dist(1), of k l] show ?thesis by auto
  qed
  have busy: "l_operation l = i" if "r = Inr fence" "l \<in> set (locks (t_db s))" "lock_target l = ?t" for l fence
    using ok [OF that(1)] that sole [of fence "t_db s'" l] by (auto simp: reserve_result_def)
  show ?thesis using ok sole same busy by (cases r) (auto simp: isl_def)
qed

theorem reserve_is_exclusive_witness:
  "let s = \<lparr>t_db = example_ops, t_left = None\<rparr>; t = \<lparr>rt_Kind = ''resource'', rt_Scope = ''account'', rt_NativeID = ''42''\<rparr> in
     fst (Reserve (v7 1) (v7 2) (v7 5) [t] s) = Inr 1 \<and> holds_target (t_db (snd (Reserve (v7 1) (v7 2) (v7 5) [t] s))) (v7 1) (v7 2) (v7 5) t ''compute.server'' 1"
proof -
  let ?s = "\<lparr>t_db = example_ops, t_left = None\<rparr>" and ?t = "\<lparr>rt_Kind = ''resource'', rt_Scope = ''account'', rt_NativeID = ''42''\<rparr>"
  let ?r = "Reserve (v7 1) (v7 2) (v7 5) [?t] ?s"
  have f: "fst ?r = Inr 1" by code_simp
  then have r: "?r = (Inr 1, snd ?r)" by (cases ?r) simp
  have "holds_target (t_db (snd ?r)) (v7 1) (v7 2) (v7 5) ?t (r_type example_resource) 1"
    using reserve_is_exclusive [OF _ _ r, of example_operation example_resource] op_inv_example
    by (simp add: example_ops_def example_operation_def op_at_def resource_of_def example_resource_def)
  then show ?thesis using f by (simp add: Let_def example_resource_def)
qed

end
