(* ===== verification/Sama_Text.thy ===== *)
theory Sama_Text
  imports Sama_Prelude
begin

text \<open>
  Go strings are byte strings that usually hold UTF-8. \<open>runes\<close> is the decoding of
  \<^verbatim>\<open>unicode/utf8\<close> (\<open>None\<close>: not \<^verbatim>\<open>utf8.ValidString\<close>), with the predicates of
  \<^verbatim>\<open>unicode\<close> and \<^verbatim>\<open>strings\<close> the validators use.
\<close>

definition cont_byte :: "nat \<Rightarrow> bool" where
  "cont_byte b \<longleftrightarrow> 128 \<le> b \<and> b \<le> 191"

fun utf8 :: "nat list \<Rightarrow> nat list option" where
  "utf8 [] = Some []"
| "utf8 (b # bs) =
     (if b < 128 then map_option ((#) b) (utf8 bs)
      else if 194 \<le> b \<and> b \<le> 223 then
        (case bs of c1 # r \<Rightarrow> if cont_byte c1
             then map_option ((#) ((b - 192) * 64 + (c1 - 128))) (utf8 r) else None
         | _ \<Rightarrow> None)
      else if 224 \<le> b \<and> b \<le> 239 then
        (case bs of c1 # c2 # r \<Rightarrow>
             if cont_byte c1 \<and> cont_byte c2 \<and> (b = 224 \<longrightarrow> 160 \<le> c1) \<and> (b = 237 \<longrightarrow> c1 \<le> 159)
             then map_option ((#) ((b - 224) * 4096 + (c1 - 128) * 64 + (c2 - 128))) (utf8 r) else None
         | _ \<Rightarrow> None)
      else if 240 \<le> b \<and> b \<le> 244 then
        (case bs of c1 # c2 # c3 # r \<Rightarrow>
             if cont_byte c1 \<and> cont_byte c2 \<and> cont_byte c3 \<and> (b = 240 \<longrightarrow> 144 \<le> c1) \<and> (b = 244 \<longrightarrow> c1 \<le> 143)
             then map_option ((#) ((b - 240) * 262144 + (c1 - 128) * 4096 + (c2 - 128) * 64 + (c3 - 128))) (utf8 r)
             else None
         | _ \<Rightarrow> None)
      else None)"

definition runes :: "string \<Rightarrow> nat list option" where
  "runes s = utf8 (map of_char s)"

text \<open>\<^verbatim>\<open>unicode.IsControl\<close> and \<^verbatim>\<open>unicode.IsSpace\<close>.\<close>

definition is_control :: "nat \<Rightarrow> bool" where
  "is_control r \<longleftrightarrow> r \<le> 31 \<or> 127 \<le> r \<and> r \<le> 159"

definition is_space :: "nat \<Rightarrow> bool" where
  "is_space r \<longleftrightarrow> 9 \<le> r \<and> r \<le> 13 \<or> r \<in> {32, 133, 160, 5760, 8232, 8233, 8239, 8287, 12288}
     \<or> 8192 \<le> r \<and> r \<le> 8202"

text \<open>\<^verbatim>\<open>strings.TrimSpace(s) == s\<close> and \<^verbatim>\<open>strings.TrimSpace(s) == ""\<close>.\<close>

definition trimmed :: "nat list \<Rightarrow> bool" where
  "trimmed rs \<longleftrightarrow> rs = [] \<or> \<not> is_space (hd rs) \<and> \<not> is_space (last rs)"

definition blank :: "string \<Rightarrow> bool" where
  "blank s = (case runes s of None \<Rightarrow> False | Some rs \<Rightarrow> list_all is_space rs)"

text \<open>A decoded text has at most as many runes as the string has bytes.\<close>

lemma utf8_length: "utf8 bs = Some rs \<Longrightarrow> length rs \<le> length bs"
proof (induction "length bs" arbitrary: bs rs rule: less_induct)
  case less
  have IH: "length rs' \<le> length bs'" if "utf8 bs' = Some rs'" "length bs' < length bs" for rs' bs'
    using less.hyps that by blast
  show ?case
    using less.prems by (cases bs) (auto split: if_splits list.splits dest!: IH)
qed

lemma runes_length: "runes s = Some rs \<Longrightarrow> length rs \<le> length s"
  unfolding runes_def by (drule utf8_length) simp

section \<open>Decimal text\<close>

text \<open>\<^verbatim>\<open>strconv.FormatInt(n, 10)\<close>.\<close>

fun dec_nat :: "nat \<Rightarrow> string" where
  "dec_nat n = (if n < 10 then [''0123456789'' ! n] else dec_nat (n div 10) @ [''0123456789'' ! (n mod 10)])"

declare dec_nat.simps [simp del]

definition FormatInt :: "int \<Rightarrow> string" where
  "FormatInt n = (if n < 0 then CHR ''-'' # dec_nat (nat (- n)) else dec_nat (nat n))"

section \<open>Cryptographic and encoding primitives\<close>

text \<open>
  SHA-256 and unpadded base64url as functions the packages are given: \<open>b64_dec\<close> is \<open>None\<close> where
  \<^verbatim>\<open>RawURLEncoding.DecodeString\<close> returns an error.
\<close>

record crypto =
  sha256 :: "string \<Rightarrow> string"
  b64_enc :: "string \<Rightarrow> string"
  b64_dec :: "string \<Rightarrow> string option"

text \<open>What the code relies on: decoding inverts encoding, digests have 32 bytes.\<close>

definition crypto_ok :: "crypto \<Rightarrow> bool" where
  "crypto_ok K \<longleftrightarrow> (\<forall>x. b64_dec K (b64_enc K x) = Some x) \<and> (\<forall>x. length (sha256 K x) = 32)"

text \<open>
  The digest of a bearer token (\<open>InvitationDigest\<close>, \<open>tokenDigest\<close>): only the canonical encoding
  of 32 bytes has one.
\<close>

definition token_digest :: "crypto \<Rightarrow> string \<Rightarrow> string option" where
  "token_digest K proof = (case b64_dec K proof of None \<Rightarrow> None
     | Some raw \<Rightarrow> if length raw \<noteq> 32 \<or> b64_enc K raw \<noteq> proof then None else Some (sha256 K proof))"

lemma token_digest_enc: "crypto_ok K \<Longrightarrow> length raw = 32 \<Longrightarrow> token_digest K (b64_enc K raw) = Some (sha256 K (b64_enc K raw))"
  by (simp add: token_digest_def crypto_ok_def)

lemma token_digest_Some: "token_digest K t = Some h \<Longrightarrow> h = sha256 K t \<and> (\<exists>raw. length raw = 32 \<and> t = b64_enc K raw)"
  by (auto simp: token_digest_def split: option.splits if_splits)

section \<open>Pages\<close>

text \<open>
  Every list endpoint asks for \<open>limit + 1\<close> rows in key order after a cursor and returns \<open>limit\<close> of
  them with the last key as the next cursor when there were more.
\<close>

definition paginate :: "nat \<Rightarrow> ('r \<Rightarrow> 'k) \<Rightarrow> 'r list \<Rightarrow> 'r list \<times> 'k option" where
  "paginate limit key rows = (let got = take (limit + 1) rows in
     if length got > limit then (take limit got, Some (key (got ! (limit - 1)))) else (got, None))"

lemma paginate_length: "length (fst (paginate limit key rows)) \<le> limit"
  by (auto simp: paginate_def Let_def)

lemma paginate_data: "fst (paginate limit key rows) = take limit rows"
  by (auto simp: paginate_def Let_def)

lemma paginate_next:
  "snd (paginate limit key rows) = (if length rows > limit then Some (key (take (limit + 1) rows ! (limit - 1))) else None)"
  by (auto simp: paginate_def Let_def)

text \<open>
  A caller follows the cursors from page to page, \<open>None\<close> asking for the first one.
\<close>

fun walk :: "nat \<Rightarrow> ('k option \<Rightarrow> 'r list \<times> 'k option) \<Rightarrow> 'k option \<Rightarrow> 'r list list" where
  "walk 0 page c = []"
| "walk (Suc n) page c = (case page c of (data, None) \<Rightarrow> [data] | (data, Some k) \<Rightarrow> data # walk n page (Some k))"

text \<open>
  What a list endpoint promises its callers: the rows after a cursor come in strict key order, and the rows after the
  key of a listed row are the rows that follow it. \<open>ok\<close> is what the listed tables satisfy, \<open>less\<close> the direction of the listing.
\<close>

locale keyset =
  fixes ok :: "'s \<Rightarrow> bool" and rows :: "'s \<Rightarrow> 'k option \<Rightarrow> 'r list" and key :: "'r \<Rightarrow> 'k" and less :: "'k \<Rightarrow> 'k \<Rightarrow> bool"
  assumes strict: "ok s \<Longrightarrow> sorted_wrt (\<lambda>a b. less (key a) (key b)) (rows s c)"
    and asym: "less a b \<Longrightarrow> \<not> less b a"
    and after: "ok s \<Longrightarrow> r \<in> set (rows s c) \<Longrightarrow> rows s (Some (key r)) = filter (\<lambda>x. less (key r) (key x)) (rows s c)"
begin

lemma rest_of_page:
  assumes "ok s" "0 < limit" "limit < length (rows s c)"
  shows "rows s (Some (key (rows s c ! (limit - 1)))) = drop limit (rows s c)"
proof -
  let ?k = "key (rows s c ! (limit - 1))"
  have mono: "less (key (rows s c ! i)) (key (rows s c ! j))" if "i < j" "j < length (rows s c)" for i j
    using strict [OF assms(1), of c] that by (simp add: sorted_wrt_iff_nth_less)
  have irrefl: "\<not> less a a" for a using asym by blast
  have "\<not> less ?k (key (rows s c ! i))" if "i < limit" for i
    using mono [of i "limit - 1"] that assms irrefl asym by (cases "i = limit - 1") auto
  then have low: "filter (\<lambda>x. less ?k (key x)) (take limit (rows s c)) = []"
    by (auto simp: filter_empty_conv in_set_conv_nth)
  have high: "filter (\<lambda>x. less ?k (key x)) (drop limit (rows s c)) = drop limit (rows s c)"
    using mono [of "limit - 1"] assms by (auto simp: filter_id_conv in_set_conv_nth)
  have "filter (\<lambda>x. less ?k (key x)) (take limit (rows s c) @ drop limit (rows s c)) = drop limit (rows s c)"
    by (simp only: filter_append low high append_Nil)
  then have "filter (\<lambda>x. less ?k (key x)) (rows s c) = drop limit (rows s c)" by simp
  moreover have "rows s c ! (limit - 1) \<in> set (rows s c)" using assms by simp
  ultimately show ?thesis using after assms(1) by metis
qed

lemma walk_enumerates:
  assumes "ok s" "0 < limit" "length (rows s c) < n"
  shows "concat (walk n (\<lambda>c. paginate limit key (rows s c)) c) = rows s c"
  using assms(3)
proof (induction n arbitrary: c)
  case (Suc n)
  show ?case
  proof (cases "limit < length (rows s c)")
    case True
    let ?k = "key (rows s c ! (limit - 1))"
    have page: "paginate limit key (rows s c) = (take limit (rows s c), Some ?k)"
      using True assms(2) by (simp add: paginate_def Let_def)
    have "length (rows s (Some ?k)) < n" using rest_of_page [OF assms(1,2) True] True assms(2) Suc.prems by simp
    from Suc.IH [OF this] show ?thesis by (simp add: page rest_of_page [OF assms(1,2) True] del: One_nat_def)
  next
    case False
    then show ?thesis by (simp add: paginate_def Let_def)
  qed
qed simp

lemma walk_pages: "\<forall>p \<in> set (walk n (\<lambda>c. paginate limit key (rows s c)) c). length p \<le> limit"
  by (induction n arbitrary: c) (auto simp: paginate_def Let_def split: option.splits)

lemma rows_distinct: "ok s \<Longrightarrow> distinct (rows s c)"
proof -
  have "distinct xs" if "sorted_wrt (\<lambda>a b. less (key a) (key b)) xs" for xs
    using that by (induction xs) (use asym in auto)
  then show "ok s \<Longrightarrow> distinct (rows s c)" using strict by blast
qed

end

text \<open>Facts on lists that the listings share.\<close>

lemma sort_key_strict:
  fixes key :: "'r \<Rightarrow> 'k::linorder"
  assumes "distinct (map key xs)"
  shows "sorted_wrt (\<lambda>a b. key a < key b) (sort_key key xs)"
proof -
  have "distinct (map key (sort_key key xs))" using assms by (simp add: distinct_map)
  then have "sorted_wrt (<) (map key (sort_key key xs))" by (simp add: strict_sorted_iff)
  then show ?thesis by (simp add: sorted_wrt_map)
qed

lemma filter_unique:
  assumes "distinct (map k xs)" "x \<in> set xs" "P x" "\<And>y. y \<in> set xs \<Longrightarrow> P y \<Longrightarrow> k y = k x"
  shows "filter P xs = [x]"
proof -
  have inj: "y = z" if "y \<in> set xs" "z \<in> set xs" "k y = k z" for y z using assms(1) that by (auto simp: distinct_map inj_on_def)
  have "set (filter P xs) = {x}" using assms(2-) inj by auto
  moreover have "distinct (filter P xs)" using assms(1) by (simp add: distinct_map)
  ultimately have "filter P xs = remdups [x]" by (cases "filter P xs") (auto simp: subset_singleton_iff)
  then show ?thesis by simp
qed

lemma comprehension_map: "concat (map (\<lambda>w. if C w then [f w] else []) ws) = map f (filter C ws)"
  by (induction ws) auto

lemma comprehension_filter: "concat (map (\<lambda>m. if P m then g m else []) ms) = concat (map g (filter P ms))"
  by (induction ms) auto

text \<open>A crypto record for concrete runs: the encoding is the identity and the digest pads to 32 bytes.\<close>

definition example_crypto :: crypto where
  "example_crypto = \<lparr>sha256 = (\<lambda>x. take 32 (x @ replicate 32 CHR ''0'')), b64_enc = (\<lambda>x. x), b64_dec = Some\<rparr>"

lemma crypto_ok_example: "crypto_ok example_crypto"
  by (auto simp: crypto_ok_def example_crypto_def)

end
