(* ===== verification/Sama_Intent.thy ===== *)
theory Sama_Intent
  imports Sama_Audit Sama_Text "HOL-Library.List_Lexorder" "HOL-Library.Char_ord"
begin

text \<open>
  Package \<^verbatim>\<open>operation\<close>, the pure parts: the typed intent and its digest (\<^verbatim>\<open>intent.go\<close>), the
  action classes (\<^verbatim>\<open>snapshot.go\<close>), the installation policy (\<^verbatim>\<open>policy.go\<close>), idempotency keys
  (\<^verbatim>\<open>idempotency.go\<close>), quota keys (\<^verbatim>\<open>budget.go\<close>) and the classification of a provider's receipt
  (\<^verbatim>\<open>receipt.go\<close>). \<open>provider.Binding\<close> and its constructor are from \<^verbatim>\<open>provider/capability.go\<close>.
\<close>

section \<open>Intents\<close>

text \<open>\<open>in_Parameters\<close>: whether the pointer is non-nil; the parameter struct has no field.\<close>

record op_intent =
  in_Action :: string
  in_Parameters :: bool

definition SnapshotCreate :: string where
  "SnapshotCreate = ''compute.server.snapshot_create''"

definition SnapshotDelete :: string where
  "SnapshotDelete = ''storage.snapshot.delete''"

definition known_actions :: "string list" where
  "known_actions = [''compute.server.power_on'', ''compute.server.shutdown'', ''compute.server.power_off'',
     ''compute.server.reboot'', ''compute.server.snapshot_create'', ''storage.snapshot.delete'']"

definition Validate :: "op_intent \<Rightarrow> err + unit" where
  "Validate i = (if \<not> in_Parameters i then Inl OpErrInvalid else if in_Action i \<in> set known_actions then Inr () else Inl OpErrInvalid)"

text \<open>
  Field names as \<^verbatim>\<open>encoding/json\<close> matches them: ASCII letters without case, and the long s
  (\<^verbatim>\<open>C5 BF\<close> in UTF-8), which folds to \<open>s\<close>.
\<close>

definition fold_char :: "char \<Rightarrow> char" where
  "fold_char c = (if char_between CHR ''A'' CHR ''Z'' c then char_of (of_char c + 32 :: nat) else c)"

fun fold_name :: "string \<Rightarrow> string" where
  "fold_name [] = []"
| "fold_name [c] = [fold_char c]"
| "fold_name (c # e # cs) = (if of_char c = (197 :: nat) \<and> of_char e = (191 :: nat) then CHR ''s'' # fold_name cs else fold_char c # fold_name (e # cs))"

text \<open>Decoding one member of the object, with unknown fields disallowed; \<open>None\<close> is a decoding error.\<close>

definition decode_field :: "op_intent \<Rightarrow> string \<times> json \<Rightarrow> op_intent option" where
  "decode_field i kv = (case kv of (k, v) \<Rightarrow>
     if fold_name k = ''action'' then
       (case v of JStr s \<Rightarrow> Some (i\<lparr>in_Action := s\<rparr>) | JNull \<Rightarrow> Some i | _ \<Rightarrow> None)
     else if fold_name k = ''parameters'' then
       (case v of JNull \<Rightarrow> Some (i\<lparr>in_Parameters := False\<rparr>) | JObj [] \<Rightarrow> Some (i\<lparr>in_Parameters := True\<rparr>) | _ \<Rightarrow> None)
     else None)"

definition decode_fields :: "(string \<times> json) list \<Rightarrow> op_intent option" where
  "decode_fields fs = foldl (\<lambda>acc kv. Option.bind acc (\<lambda>i. decode_field i kv)) (Some \<lparr>in_Action = [], in_Parameters = False\<rparr>) fs"

text \<open>
  \<open>DecodeIntent\<close>: \<open>len\<close> is the number of bytes and \<open>doc\<close> the one JSON value they hold (\<open>None\<close>: malformed, or
  something follows it).
\<close>

definition DecodeIntent :: "nat \<Rightarrow> json option \<Rightarrow> err + op_intent" where
  "DecodeIntent len doc =
     (if len > 1024 then Inl OpErrInvalid
      else (case (case doc of Some (JObj fs) \<Rightarrow> decode_fields fs
               | Some JNull \<Rightarrow> Some \<lparr>in_Action = [], in_Parameters = False\<rparr> | _ \<Rightarrow> None) of
          None \<Rightarrow> Inl OpErrInvalid
        | Some i \<Rightarrow> (case Validate i of Inl _ \<Rightarrow> Inl OpErrInvalid | Inr _ \<Rightarrow> Inr i)))"

text \<open>\<open>json.Marshal\<close> of an intent, and the length of its text.\<close>

definition encode_intent :: "op_intent \<Rightarrow> json" where
  "encode_intent i = JObj [(''action'', JStr (in_Action i)), (''parameters'', if in_Parameters i then JObj [] else JNull)]"

text \<open>
  \<open>Digest\<close> binds the intent to every identity of its scope; \<open>digest_text\<close> is the JSON text it hashes. No
  escaping arises: identifiers are hexadecimal and the action is one of the known ones.
\<close>

definition dq :: "string \<Rightarrow> string" where
  "dq s = CHR 0x22 # s @ [CHR 0x22]"

definition digest_text :: "op_intent \<Rightarrow> uuid \<Rightarrow> uuid \<Rightarrow> uuid \<Rightarrow> uuid \<Rightarrow> uuid \<Rightarrow> string" where
  "digest_text i workspace actor connection target review =
     ''{'' @ dq ''Workspace'' @ '':'' @ dq (uuid_String workspace) @ '','' @ dq ''Actor'' @ '':'' @ dq (uuid_String actor)
     @ '','' @ dq ''Connection'' @ '':'' @ dq (uuid_String connection) @ '','' @ dq ''Target'' @ '':'' @ dq (uuid_String target)
     @ '','' @ dq ''Review'' @ '':'' @ dq (uuid_String review) @ '','' @ dq ''Intent'' @ '':{'' @ dq ''action'' @ '':'' @ dq (in_Action i)
     @ '','' @ dq ''parameters'' @ '':{}}}''"

definition Digest :: "crypto \<Rightarrow> op_intent \<Rightarrow> uuid \<Rightarrow> uuid \<Rightarrow> uuid \<Rightarrow> uuid \<Rightarrow> uuid \<Rightarrow> err + string" where
  "Digest K i workspace actor connection target review =
     (if isl (Validate i) then Inl OpErrInvalid
      else if \<not> list_all (\<lambda>u. uuid_version u = 7) [workspace, actor, connection, target, review] then Inl OpErrInvalid
      else Inr (sha256 K (digest_text i workspace actor connection target review)))"

definition ValidKey :: "string \<Rightarrow> bool" where
  "ValidKey key \<longleftrightarrow> length key \<noteq> 0 \<and> length key \<le> 128 \<and> list_all (\<lambda>c. alnum c \<or> c \<in> set ''._:-'') key"

section \<open>Action classes\<close>

definition snapshotAction :: "string \<Rightarrow> bool" where
  "snapshotAction action \<longleftrightarrow> action = SnapshotCreate \<or> action = SnapshotDelete"

definition targetType :: "string \<Rightarrow> string" where
  "targetType action = (if action = SnapshotDelete then ''storage.snapshot'' else ''compute.server'')"

definition factoryKey :: "string \<Rightarrow> string \<Rightarrow> string" where
  "factoryKey family action = (if snapshotAction action then family @ '':'' @ action else family)"

definition quotaKey :: "crypto \<Rightarrow> string \<Rightarrow> string \<Rightarrow> string \<Rightarrow> string" where
  "quotaKey K brand family account = concat (map (\<lambda>c. [hex_digit (of_char c div 16), hex_digit (of_char c mod 16)])
     (sha256 K (brand @ [CHR 0x00] @ family @ [CHR 0x00] @ account)))"

section \<open>Policy\<close>

record policy =
  po_allowed :: "string list"
  po_version :: int

text \<open>\<open>binary.BigEndian.Uint64\<close> of the first eight bytes, masked to \<open>k\<close> bits.\<close>

definition be64 :: "string \<Rightarrow> nat \<Rightarrow> int" where
  "be64 h k = foldl (\<lambda>acc c. 256 * acc + int (of_char c)) 0 (take 8 h) mod 2 ^ k"

definition join_lines :: "string list \<Rightarrow> string" where
  "join_lines ks = (case ks of [] \<Rightarrow> [] | k # r \<Rightarrow> k @ concat (map (\<lambda>x. [CHR 0x0A] @ x) r))"

definition NewPolicy :: "crypto \<Rightarrow> string list \<Rightarrow> (string \<Rightarrow> bool) \<Rightarrow> policy" where
  "NewPolicy K switches qualified = (let keys = sort switches in
     \<lparr>po_allowed = filter qualified keys, po_version = be64 (sha256 K (join_lines keys)) 63\<rparr>)"

definition permits :: "policy option \<Rightarrow> string \<Rightarrow> string \<Rightarrow> bool" where
  "permits p family action = (case p of None \<Rightarrow> False | Some q \<Rightarrow> family @ '':'' @ action \<in> set (po_allowed q))"

definition policyVersion :: "crypto \<Rightarrow> policy option \<Rightarrow> int \<Rightarrow> int" where
  "policyVersion K p workspace = (case p of None \<Rightarrow> workspace
     | Some q \<Rightarrow> be64 (sha256 K (FormatInt workspace @ '':'' @ FormatInt (po_version q))) 62 + 1)"

section \<open>Bindings and receipts\<close>

record binding =
  bi_workspace :: uuid
  bi_connection :: uuid
  bi_family :: string
  bi_version :: int

definition NewBinding :: "uuid \<Rightarrow> uuid \<Rightarrow> string \<Rightarrow> int \<Rightarrow> binding option" where
  "NewBinding workspace connection family version =
     (if uuid_version workspace \<noteq> 7 \<or> uuid_version connection \<noteq> 7 \<or> family = [] \<or> length family > 128 \<or> version < 1 then None
      else Some \<lparr>bi_workspace = workspace, bi_connection = connection, bi_family = family, bi_version = version\<rparr>)"

record receipt =
  re_Outcome :: string
  re_Reference :: string

definition nativeReference :: "string \<Rightarrow> bool" where
  "nativeReference s = code_like ''._:-'' 127 s"

fun split_slash :: "string \<Rightarrow> string list" where
  "split_slash [] = [[]]"
| "split_slash (c # cs) = (if c = CHR ''/'' then [] # split_slash cs
     else (case split_slash cs of [] \<Rightarrow> [[c]] | s # r \<Rightarrow> (c # s) # r))"

definition snapshotReference :: "string \<Rightarrow> bool" where
  "snapshotReference s \<longleftrightarrow> length (split_slash s) \<le> 3 \<and> list_all nativeReference (split_slash s)"

definition classifyReceipt :: "err + receipt \<Rightarrow> op_state \<times> string option" where
  "classifyReceipt r = (case r of Inl _ \<Rightarrow> (Reconciling, None)
     | Inr r \<Rightarrow> if re_Outcome r = ''rejected'' \<and> re_Reference r = [] then (Failed, None)
         else if re_Outcome r = ''accepted'' \<and> nativeReference (re_Reference r) then (WaitingProvider, Some (re_Reference r))
         else (Reconciling, None))"

definition classifyActionReceipt :: "string \<Rightarrow> err + receipt \<Rightarrow> op_state \<times> string option" where
  "classifyActionReceipt action r = (case r of
       Inr q \<Rightarrow> if snapshotAction action \<and> re_Outcome q = ''accepted'' \<and> snapshotReference (re_Reference q)
         then (WaitingProvider, Some (re_Reference q)) else classifyReceipt r
     | Inl _ \<Rightarrow> classifyReceipt r)"

section \<open>Properties\<close>

lemma dq_append: "dq s @ t = CHR 0x22 # s @ CHR 0x22 # t"
  by (simp add: dq_def)

lemma dq_length_eq: "length s = length t \<Longrightarrow> dq s @ u = dq t @ v \<longleftrightarrow> s = t \<and> u = v"
  by (simp add: dq_def)

lemma action_quote: "a \<in> set known_actions \<Longrightarrow> CHR 0x22 \<notin> set a"
  by (auto simp: known_actions_def)

lemma quoted_split: "CHR 0x22 \<notin> set s \<Longrightarrow> CHR 0x22 \<notin> set t \<Longrightarrow> dq s @ u = dq t @ v \<Longrightarrow> s = t"
proof (induction s arbitrary: t)
  case Nil
  then show ?case by (cases t) (auto simp: dq_def)
next
  case (Cons c s)
  then show ?case by (cases t) (auto simp: dq_def)
qed

lemma Validate_Inr: "\<not> isl (Validate i) \<longleftrightarrow> in_Parameters i \<and> in_Action i \<in> set known_actions"
  by (auto simp: Validate_def)

lemma digest_text_inject:
  assumes "digest_text i w a c t r = digest_text i' w' a' c' t' r'" "\<not> isl (Validate i)" "\<not> isl (Validate i')"
  shows "i = i' \<and> w = w' \<and> a = a' \<and> c = c' \<and> t = t' \<and> r = r'"
proof -
  note len = length_uuid_String
  from assms(1) have ids: "w = w' \<and> a = a' \<and> c = c' \<and> t = t' \<and> r = r'"
    and rest: "dq (in_Action i) @ '','' @ dq ''parameters'' @ '':{}}}'' = dq (in_Action i') @ '','' @ dq ''parameters'' @ '':{}}}''"
    by (simp_all only: digest_text_def same_append_eq append_assoc dq_length_eq len uuid_String_inject)
  from quoted_split [OF _ _ rest] action_quote assms(2,3) have "in_Action i = in_Action i'" by (auto simp: Validate_Inr)
  with assms(2,3) have "i = i'" by (auto simp: Validate_Inr intro!: op_intent.equality)
  with ids show ?thesis by blast
qed


definition example_intent :: op_intent where
  "example_intent = \<lparr>in_Action = ''compute.server.reboot'', in_Parameters = True\<rparr>"


text \<open>
  Reading back what was stored: an intent that passes validation is decoded from its own encoding
  unchanged, nothing else is decoded from an encoding, and whatever \<open>DecodeIntent\<close> accepts is one of
  the known actions with its parameter object present.
\<close>

theorem intent_roundtrip:
  "(len \<le> 1024 \<longrightarrow> DecodeIntent len (Some (encode_intent i)) = (if isl (Validate i) then Inl OpErrInvalid else Inr i))
     \<and> (DecodeIntent len doc = Inr j \<longrightarrow> in_Parameters j \<and> in_Action j \<in> set known_actions \<and> len \<le> 1024)"
proof
  have f: "fold_name ''action'' = ''action''" "fold_name ''parameters'' = ''parameters''" by code_simp+
  have "decode_fields [(''action'', JStr (in_Action i)), (''parameters'', if in_Parameters i then JObj [] else JNull)] = Some i"
    by (simp add: decode_fields_def decode_field_def f del: fold_name.simps)
  then show "len \<le> 1024 \<longrightarrow> DecodeIntent len (Some (encode_intent i)) = (if isl (Validate i) then Inl OpErrInvalid else Inr i)"
    by (auto simp: DecodeIntent_def encode_intent_def split: sum.splits)
  show "DecodeIntent len doc = Inr j \<longrightarrow> in_Parameters j \<and> in_Action j \<in> set known_actions \<and> len \<le> 1024"
    by (auto simp: DecodeIntent_def Validate_def split: if_splits option.splits sum.splits json.splits)
qed

theorem intent_roundtrip_witness:
  "DecodeIntent 60 (Some (encode_intent example_intent)) = Inr example_intent"
proof -
  have "\<not> isl (Validate example_intent)" by code_simp
  with intent_roundtrip [of 60 example_intent] show ?thesis by simp
qed

text \<open>
  Configuration can only narrow: an action is permitted only if it is both switched on and separately
  qualified; and the policy version a review stores is positive and fits a \<^verbatim>\<open>bigint\<close>, as the schema requires.
\<close>

theorem policy_only_narrows:
  assumes "1 \<le> workspace" "bigint_ok workspace"
  shows "(permits (Some (NewPolicy K switches qualified)) family action \<longleftrightarrow>
       family @ '':'' @ action \<in> set switches \<and> qualified (family @ '':'' @ action))
     \<and> \<not> permits None family action \<and> 1 \<le> policyVersion K p workspace \<and> bigint_ok (policyVersion K p workspace)"
proof -
  have b: "0 \<le> be64 h 62 \<and> be64 h 62 < 2 ^ 62" for h by (simp add: be64_def)
  have "1 \<le> policyVersion K p workspace \<and> bigint_ok (policyVersion K p workspace)"
  proof (cases p)
    case None
    with assms show ?thesis by (simp add: policyVersion_def)
  next
    case (Some q)
    with b [of "sha256 K (FormatInt workspace @ '':'' @ FormatInt (po_version q))"] show ?thesis
      by (simp add: policyVersion_def bigint_ok_def)
  qed
  then show ?thesis by (auto simp: permits_def NewPolicy_def Let_def)
qed

theorem policy_only_narrows_witness:
  "1 \<le> policyVersion example_crypto (Some (NewPolicy example_crypto [''b:y'', ''a:x''] (\<lambda>k. k = ''a:x''))) 7
     \<and> permits (Some (NewPolicy example_crypto [''b:y'', ''a:x''] (\<lambda>k. k = ''a:x''))) ''a'' ''x''"
proof -
  have "bigint_ok 7" by (simp add: bigint_ok_def)
  with policy_only_narrows [of 7] show ?thesis by simp
qed

text \<open>
  No receipt proves success, and only an explicit rejection without a reference proves that nothing
  happened: every error, and every other answer, leaves the outcome to be observed. A stored reference is
  always one the schema accepts for the action.
\<close>

theorem receipt_is_conservative:
  "fst (classifyActionReceipt action r) \<in> {Reconciling, WaitingProvider, Failed}
     \<and> (fst (classifyActionReceipt action r) = Failed \<longleftrightarrow> (\<exists>q. r = Inr q \<and> re_Outcome q = ''rejected'' \<and> re_Reference q = []))
     \<and> (fst (classifyActionReceipt action r) = WaitingProvider \<longleftrightarrow> snd (classifyActionReceipt action r) \<noteq> None)
     \<and> (\<forall>ref. snd (classifyActionReceipt action r) = Some ref \<longrightarrow>
          (\<exists>q. r = Inr q \<and> re_Outcome q = ''accepted'' \<and> ref = re_Reference q) \<and> (if snapshotAction action then snapshotReference ref \<or> nativeReference ref else nativeReference ref))"
  by (cases r) (auto simp: classifyActionReceipt_def classifyReceipt_def)

theorem receipt_is_conservative_witness:
  "fst (classifyActionReceipt ''compute.server.reboot'' (Inr \<lparr>re_Outcome = ''accepted'', re_Reference = ''a-1''\<rparr>)) = WaitingProvider"
proof -
  let ?c = "classifyActionReceipt ''compute.server.reboot'' (Inr \<lparr>re_Outcome = ''accepted'', re_Reference = ''a-1''\<rparr>)"
  have "snd ?c \<noteq> None" by code_simp
  with receipt_is_conservative [of "''compute.server.reboot''" "Inr \<lparr>re_Outcome = ''accepted'', re_Reference = ''a-1''\<rparr>"]
  show ?thesis by blast
qed

end
