(* ===== verification/Sama_Identity.thy ===== *)
theory Sama_Identity
  imports Sama_Audit Sama_Text "HOL-Library.Product_Lexorder"
begin

text \<open>
  Package \<^verbatim>\<open>identity\<close>: opaque server-side sessions (\<^verbatim>\<open>sessions.go\<close>, \<^verbatim>\<open>logout.go\<close>), the
  recent-authentication gate and rotation (\<^verbatim>\<open>recent.go\<close>), the login challenges with their
  installation-wide budget (\<^verbatim>\<open>challenges.go\<close>) and the user view. Randomness is an argument (\<open>None\<close>
  where reading it failed); the OIDC exchange itself is outside.
\<close>

section \<open>Sessions\<close>

record session_policy =
  sp_Idle :: time
  sp_Absolute :: time

definition DefaultSessionPolicy :: session_policy where
  "DefaultSessionPolicy = \<lparr>sp_Idle = 30 * minute, sp_Absolute = 12 * hour\<rparr>"

record principal =
  pr_UserID :: uuid
  pr_AuthenticatedAt :: time
  pr_CSRFHash :: string
  pr_Reauthenticated :: bool

record session_credential =
  cr_Token :: string
  cr_CSRF :: string

definition NewSessions :: "bool \<Rightarrow> session_policy \<Rightarrow> err + session_policy" where
  "NewSessions pool_and_clock policy =
     (if \<not> pool_and_clock \<or> sp_Idle policy < second \<or> sp_Absolute policy < sp_Idle policy \<or> sp_Idle policy > 24 * hour
         \<or> sp_Absolute policy > 30 * 24 * hour then Inl IdErrPolicy else Inr policy)"

definition CookieMaxAge :: "session_policy \<Rightarrow> int" where
  "CookieMaxAge policy = sp_Absolute policy div second"

text \<open>\<open>randomToken\<close>: 32 random bytes, encoded.\<close>

definition randomToken :: "crypto \<Rightarrow> string option \<Rightarrow> err + string" where
  "randomToken K raw = (case raw of None \<Rightarrow> Inl IdErrRandomness | Some bytes \<Rightarrow> Inr (b64_enc K bytes))"

definition session_insert_ok :: "db \<Rightarrow> session_row \<Rightarrow> bool" where
  "session_insert_ok d s \<longleftrightarrow> length (s_token_digest s) = 32 \<and> length (s_csrf_digest s) = 32
     \<and> s_token_digest s \<notin> set (map s_token_digest (sessions d)) \<and> s_audit_workspace s \<noteq> None
     \<and> s_created_at s \<le> s_last_seen_at s \<and> s_last_seen_at s < s_absolute_expires_at s \<and> s_idle_expires_at s \<le> s_absolute_expires_at s"

text \<open>\<^verbatim>\<open>SELECT workspace_id FROM memberships WHERE user_id=$2 ORDER BY workspace_id LIMIT 1\<close>.\<close>

definition audit_scope :: "db \<Rightarrow> uuid \<Rightarrow> uuid option" where
  "audit_scope d user = (case sort (map m_workspace (filter (\<lambda>m. m_user m = user) (memberships d))) of [] \<Rightarrow> None | w # _ \<Rightarrow> Some w)"

definition new_session :: "session_policy \<Rightarrow> time \<Rightarrow> string \<Rightarrow> string \<Rightarrow> uuid \<Rightarrow> time \<Rightarrow> db \<Rightarrow> session_row" where
  "new_session policy now digest csrfHash user at d = \<lparr>s_token_digest = digest, s_user = user, s_csrf_digest = csrfHash,
     s_authenticated_at = at, s_created_at = now, s_last_seen_at = now, s_idle_expires_at = now + sp_Idle policy,
     s_absolute_expires_at = now + sp_Absolute policy, s_reauthenticated = False, s_audit_workspace = audit_scope d user\<rparr>"

definition insert_session :: "session_policy \<Rightarrow> time \<Rightarrow> string \<Rightarrow> string \<Rightarrow> uuid \<Rightarrow> time \<Rightarrow> db \<Rightarrow> db option" where
  "insert_session policy now digest csrfHash user at d =
     (if \<not> enabled_user d user then Some d
      else let s = new_session policy now digest csrfHash user at d in
        if session_insert_ok d s then Some (d\<lparr>sessions := sessions d @ [s]\<rparr>) else None)"

definition digest_or_nil :: "crypto \<Rightarrow> string \<Rightarrow> string" where
  "digest_or_nil K t = (case token_digest K t of None \<Rightarrow> [] | Some h \<Rightarrow> h)"

definition create_session_tx :: "crypto \<Rightarrow> session_policy \<Rightarrow> time \<Rightarrow> string \<Rightarrow> string \<Rightarrow> uuid \<Rightarrow> time \<Rightarrow> string \<Rightarrow> session_credential dbtx" where
  "create_session_tx K policy now token csrf user at previous =
     (let digest = digest_or_nil K token; csrfHash = digest_or_nil K csrf in
      tx_bind (case token_digest K previous of None \<Rightarrow> tx_ret ()
        | Some h \<Rightarrow> exec IdErrStore (\<lambda>d. Some (d\<lparr>sessions := del (\<lambda>s. s_token_digest s = h \<and> s_user s = user) (sessions d)\<rparr>))) (\<lambda>_.
      tx_bind (exec IdErrStore (insert_session policy now digest csrfHash user at)) (\<lambda>_.
      tx_bind (query IdErrStore (\<lambda>d. digest \<in> set (map s_token_digest (sessions d)))) (\<lambda>present.
      if \<not> present then tx_raise IdErrUnauthenticated else tx_ret \<lparr>cr_Token = token, cr_CSRF = csrf\<rparr>))))"

definition Sessions_Create :: "crypto \<Rightarrow> session_policy \<Rightarrow> time \<Rightarrow> string option \<Rightarrow> string option \<Rightarrow> uuid \<Rightarrow> time \<Rightarrow> string \<Rightarrow> session_credential dbtx" where
  "Sessions_Create K policy now raw_token raw_csrf user at previous =
     (if \<not> isEntityID user \<or> at > now \<or> at = 0 then tx_raise IdErrUnauthenticated
      else (case (randomToken K raw_token, randomToken K raw_csrf) of
          (Inl e, _) \<Rightarrow> tx_raise e
        | (_, Inl e) \<Rightarrow> tx_raise e
        | (Inr token, Inr csrf) \<Rightarrow> create_session_tx K policy now token csrf user at previous))"

text \<open>\<open>Resolve\<close>: both deadlines are checked and the idle one slides, in one statement.\<close>

definition session_live :: "db \<Rightarrow> string \<Rightarrow> time \<Rightarrow> session_row \<Rightarrow> bool" where
  "session_live d digest now s \<longleftrightarrow> s_token_digest s = digest \<and> enabled_user d (s_user s)
     \<and> s_idle_expires_at s > now \<and> s_absolute_expires_at s > now"

definition touched :: "session_policy \<Rightarrow> time \<Rightarrow> session_row \<Rightarrow> session_row" where
  "touched policy now s = s\<lparr>s_last_seen_at := max (s_last_seen_at s) now,
     s_idle_expires_at := min (s_absolute_expires_at s) (max (s_idle_expires_at s) (now + sp_Idle policy))\<rparr>"

definition resolve_session_tx :: "session_policy \<Rightarrow> time \<Rightarrow> string \<Rightarrow> principal dbtx" where
  "resolve_session_tx policy now digest =
     tx_bind (sql IdErrStore (\<lambda>d. case fetch (session_live d digest now) (sessions d) of
         None \<Rightarrow> Some (None, d)
       | Some s \<Rightarrow> Some (Some s, d\<lparr>sessions := upd (session_live d digest now) (touched policy now) (sessions d)\<rparr>)))
     (\<lambda>r. case r of None \<Rightarrow> tx_raise IdErrUnauthenticated
        | Some s \<Rightarrow> tx_ret \<lparr>pr_UserID = s_user s, pr_AuthenticatedAt = s_authenticated_at s, pr_CSRFHash = s_csrf_digest s,
            pr_Reauthenticated = s_reauthenticated s\<rparr>)"

definition Sessions_Resolve :: "crypto \<Rightarrow> session_policy \<Rightarrow> net \<Rightarrow> time \<Rightarrow> string \<Rightarrow> db \<Rightarrow> (err + principal) \<times> db" where
  "Sessions_Resolve K policy n now token d = (case token_digest K token of
       None \<Rightarrow> (Inl IdErrUnauthenticated, d)
     | Some digest \<Rightarrow> run_auto IdErrStore n (resolve_session_tx policy now digest) d)"

definition Revoke :: "crypto \<Rightarrow> net \<Rightarrow> string \<Rightarrow> db \<Rightarrow> (err + unit) \<times> db" where
  "Revoke K n token d = (case token_digest K token of
       None \<Rightarrow> (Inr (), d)
     | Some digest \<Rightarrow> run_auto IdErrStore n (exec IdErrStore (\<lambda>d. Some (d\<lparr>sessions := del (\<lambda>s. s_token_digest s = digest) (sessions d)\<rparr>))) d)"

section \<open>Recent authentication\<close>

definition recentAt :: "time \<Rightarrow> time \<Rightarrow> bool" where
  "recentAt at now \<longleftrightarrow> at \<noteq> 0 \<and> \<not> at > now \<and> now - at < 5 * minute"

definition RequireRecent :: "time \<Rightarrow> principal \<Rightarrow> err + unit" where
  "RequireRecent now p = (if \<not> pr_Reauthenticated p \<or> \<not> recentAt (pr_AuthenticatedAt p) now then Inl IdErrRecentRequired else Inr ())"

text \<open>
  \<open>AuthenticationTime\<close> on the claims of a verified token (\<open>None\<close> where they do not decode). \<open>unix\<close> turns
  Unix seconds into an instant; \<^verbatim>\<open>started.Truncate(time.Second)\<close> rounds down to a whole second.
\<close>

definition unix_epoch :: time where
  "unix_epoch = 62135596800 * second"

definition AuthenticationTime :: "bool \<Rightarrow> string \<Rightarrow> (int \<times> string) option \<Rightarrow> time \<Rightarrow> time \<Rightarrow> err + time" where
  "AuthenticationTime supported reauthACR claims now started =
     (if \<not> supported then Inl IdErrReauthUnsupported
      else (case claims of None \<Rightarrow> Inl IdErrRecentRequired
        | Some (authTime, acr) \<Rightarrow>
            if authTime \<le> 0 \<or> acr \<noteq> reauthACR then Inl IdErrRecentRequired
            else let at = unix_epoch + authTime * second in
              if \<not> recentAt at now \<or> at < started - started mod second then Inl IdErrRecentRequired else Inr at))"

definition rotate_tx :: "crypto \<Rightarrow> session_policy \<Rightarrow> time \<Rightarrow> string option \<Rightarrow> string option \<Rightarrow> uuid \<Rightarrow> time \<Rightarrow> string \<Rightarrow> session_credential dbtx" where
  "rotate_tx K policy now raw_token raw_csrf user at digest =
     tx_bind (sql IdErrStore (\<lambda>d. let P = (\<lambda>s. s_token_digest s = digest \<and> s_user s = user \<and> s_idle_expires_at s > now \<and> s_absolute_expires_at s > now)
        in Some (cnt P (sessions d), d\<lparr>sessions := del P (sessions d)\<rparr>))) (\<lambda>deleted.
     if deleted \<noteq> 1 then tx_raise IdErrUnauthenticated
     else tx_bind (Sessions_Create K policy now raw_token raw_csrf user at []) (\<lambda>credential.
     tx_bind (exec IdErrStore (\<lambda>d. Some (d\<lparr>sessions := upd (\<lambda>s. s_token_digest s = digest_or_nil K (cr_Token credential))
        (\<lambda>s. s\<lparr>s_reauthenticated := True\<rparr>) (sessions d)\<rparr>))) (\<lambda>_. tx_ret credential)))"

definition RotateRecent :: "crypto \<Rightarrow> session_policy \<Rightarrow> time \<Rightarrow> string option \<Rightarrow> string option \<Rightarrow> uuid \<Rightarrow> time \<Rightarrow> string \<Rightarrow> string \<Rightarrow> session_credential dbtx" where
  "RotateRecent K policy now raw_token raw_csrf user at previous boundDigest = (case token_digest K previous of
       None \<Rightarrow> tx_raise IdErrUnauthenticated
     | Some digest \<Rightarrow> if digest \<noteq> boundDigest \<or> \<not> recentAt at now then tx_raise IdErrUnauthenticated
         else rotate_tx K policy now raw_token raw_csrf user at digest)"

definition ValidCSRF :: "crypto \<Rightarrow> principal \<Rightarrow> string \<Rightarrow> bool" where
  "ValidCSRF K p raw = (case token_digest K raw of None \<Rightarrow> False | Some digest \<Rightarrow> digest = pr_CSRFHash p)"

section \<open>Logout and cleanup\<close>

definition logout_tx :: "time \<Rightarrow> uuid option \<Rightarrow> string \<Rightarrow> string \<Rightarrow> (bool \<times> unit) dbtx" where
  "logout_tx clk aid digest requestID =
     tx_bind (sql IdErrStore (\<lambda>d. Some (fetch (\<lambda>s. s_token_digest s = digest) (sessions d),
        d\<lparr>sessions := del (\<lambda>s. s_token_digest s = digest) (sessions d)\<rparr>))) (\<lambda>r.
     case r of None \<Rightarrow> tx_ret (False, ())
     | Some s \<Rightarrow> (case aid of None \<Rightarrow> tx_raise IdErrStore
         | Some i \<Rightarrow> tx_bind (tx_as IdErrStore (Append clk \<lparr>ev_ID = i,
               ev_Workspace = (case s_audit_workspace s of None \<Rightarrow> uuid_Nil | Some w \<Rightarrow> w), ev_ActorKind = ''user'',
               ev_ActorID = Some (s_user s), ev_Type = ''auth.logout'', ev_RequestID = requestID, ev_Metadata = []\<rparr>))
             (\<lambda>_. tx_ret (True, ()))))"

definition Logout :: "crypto \<Rightarrow> net \<Rightarrow> time \<Rightarrow> uuid option \<Rightarrow> string \<Rightarrow> string \<Rightarrow> db \<Rightarrow> (err + unit) \<times> db" where
  "Logout K n clk aid token requestID d = (case token_digest K token of
       None \<Rightarrow> (Inr (), d)
     | Some digest \<Rightarrow> run_tx_if IdErrStore IdErrStore n (logout_tx clk aid digest requestID) d)"

definition session_expired :: "time \<Rightarrow> session_row \<Rightarrow> bool" where
  "session_expired now s \<longleftrightarrow> s_idle_expires_at s \<le> now \<or> s_absolute_expires_at s \<le> now"

definition Cleanup :: "net \<Rightarrow> time \<Rightarrow> int \<Rightarrow> db \<Rightarrow> (err + nat) \<times> db" where
  "Cleanup n now limit d =
     (if limit < 1 \<or> limit > 1000 then (Inl IdErrPolicy, d)
      else run_auto IdErrStore n (sql IdErrStore (\<lambda>d.
        let batch = map s_token_digest (take (nat limit) (sort_key s_idle_expires_at (filter (session_expired now) (sessions d)))) in
        Some (cnt (\<lambda>s. s_token_digest s \<in> set batch) (sessions d), d\<lparr>sessions := del (\<lambda>s. s_token_digest s \<in> set batch) (sessions d)\<rparr>))) d)"

definition CurrentUser :: "uuid \<Rightarrow> (uuid \<times> string) dbtx" where
  "CurrentUser i = query_row IdErrUnauthenticated IdErrStore (\<lambda>d.
     map_option (\<lambda>u. (u_id u, u_display_name u)) (fetch (\<lambda>u. u_id u = i \<and> u_disabled_at u = None) (users d)))"

section \<open>Login challenges\<close>

record challenge =
  ch_State :: string
  ch_Browser :: string
  ch_Nonce :: string
  ch_Verifier :: string
  ch_InvitationDigest :: "string option"
  ch_SessionDigest :: "string option"
  ch_StartedAt :: time

text \<open>
  The budget statement: a window of one minute with at most 30 issues. \<open>None\<close> is the conflict whose
  \<^verbatim>\<open>WHERE\<close> failed, which returns no row.
\<close>

definition issue_budget :: "time \<Rightarrow> (time \<times> int) option \<Rightarrow> (time \<times> int) option" where
  "issue_budget now b = (case b of None \<Rightarrow> Some (now, 1)
     | Some (started, issued) \<Rightarrow>
         if started \<le> now - minute then Some (now, 1)
         else if issued < 30 then Some (started, issued + 1) else None)"

definition challenge_insert_ok :: "db \<Rightarrow> challenge_row \<Rightarrow> bool" where
  "challenge_insert_ok d c \<longleftrightarrow> h_state_digest c \<notin> set (map h_state_digest (challenges d))
     \<and> length (h_state_digest c) = 32 \<and> length (h_browser_digest c) = 32 \<and> length (h_nonce c) = 43 \<and> length (h_verifier c) = 43
     \<and> h_created_at c < h_expires_at c
     \<and> (\<forall>x. h_invitation_digest c = Some x \<longrightarrow> length x = 32) \<and> (\<forall>x. h_session_digest c = Some x \<longrightarrow> length x = 32)
     \<and> (h_session_digest c = None \<or> h_invitation_digest c = None)"

lemma challenge_insert_ok_code [code]: "challenge_insert_ok d c \<longleftrightarrow> h_state_digest c \<notin> set (map h_state_digest (challenges d))
     \<and> length (h_state_digest c) = 32 \<and> length (h_browser_digest c) = 32 \<and> length (h_nonce c) = 43 \<and> length (h_verifier c) = 43
     \<and> h_created_at c < h_expires_at c
     \<and> (case h_invitation_digest c of None \<Rightarrow> True | Some x \<Rightarrow> length x = 32) \<and> (case h_session_digest c of None \<Rightarrow> True | Some x \<Rightarrow> length x = 32)
     \<and> (h_session_digest c = None \<or> h_invitation_digest c = None)"
  by (auto simp: challenge_insert_ok_def split: option.splits)

definition purge_challenges :: "time \<Rightarrow> db \<Rightarrow> db option" where
  "purge_challenges now d =
     (let old = map h_state_digest (take 100 (sort_key h_expires_at (filter (\<lambda>h. h_expires_at h \<le> now) (challenges d)))) in
      Some (d\<lparr>challenges := del (\<lambda>h. h_state_digest h \<in> set old) (challenges d)\<rparr>))"

definition spend_budget :: "time \<Rightarrow> db \<Rightarrow> (int option \<times> db) option" where
  "spend_budget now d = (case issue_budget now (login_budget d) of
       None \<Rightarrow> Some (None, d) | Some (w, i) \<Rightarrow> Some (Some i, d\<lparr>login_budget := Some (w, i)\<rparr>))"

definition insert_challenge :: "challenge_row \<Rightarrow> db \<Rightarrow> db option" where
  "insert_challenge r d = (if challenge_insert_ok d r then Some (d\<lparr>challenges := challenges d @ [r]\<rparr>) else None)"

definition start_tx :: "crypto \<Rightarrow> bool \<Rightarrow> time \<Rightarrow> string option \<Rightarrow> string option \<Rightarrow> challenge \<Rightarrow> challenge dbtx" where
  "start_tx K locked now invitation session c =
     tx_bind (query IdErrStore (\<lambda>_. locked)) (\<lambda>locked.
     if \<not> locked then tx_raise IdErrRateLimited
     else tx_bind (exec IdErrStore (purge_challenges now)) (\<lambda>_.
     tx_bind (sql IdErrStore (spend_budget now)) (\<lambda>issued.
     case issued of None \<Rightarrow> tx_raise IdErrRateLimited
     | Some _ \<Rightarrow>
     tx_bind (query IdErrStore (\<lambda>d. length (challenges d))) (\<lambda>total.
     if total \<ge> 1000 then tx_raise IdErrRateLimited
     else tx_bind (exec IdErrStore (insert_challenge
        \<lparr>h_state_digest = digest_or_nil K (ch_State c), h_browser_digest = digest_or_nil K (ch_Browser c),
            h_nonce = ch_Nonce c, h_verifier = ch_Verifier c, h_created_at = now, h_expires_at = now + 5 * minute,
            h_invitation_digest = invitation, h_session_digest = session\<rparr>)) (\<lambda>_. tx_ret c)))))"

definition start :: "crypto \<Rightarrow> net \<Rightarrow> bool \<Rightarrow> time \<Rightarrow> string option list \<Rightarrow> string option \<Rightarrow> string option \<Rightarrow> db \<Rightarrow> (err + challenge) \<times> db" where
  "start K n locked now raws invitation session d = (case map (randomToken K) raws of
       [Inr state, Inr browser, Inr nonce, Inr verifier] \<Rightarrow>
         run_tx IdErrStore IdErrStore n (start_tx K locked now invitation session
           \<lparr>ch_State = state, ch_Browser = browser, ch_Nonce = nonce, ch_Verifier = verifier, ch_InvitationDigest = None,
            ch_SessionDigest = None, ch_StartedAt = 0\<rparr>) d
     | _ \<Rightarrow> (Inl IdErrRandomness, d))"

definition Start :: "crypto \<Rightarrow> net \<Rightarrow> bool \<Rightarrow> time \<Rightarrow> string option list \<Rightarrow> db \<Rightarrow> (err + challenge) \<times> db" where
  "Start K n locked now raws d = start K n locked now raws None None d"

definition StartInvitation :: "crypto \<Rightarrow> net \<Rightarrow> bool \<Rightarrow> time \<Rightarrow> string option list \<Rightarrow> string \<Rightarrow> db \<Rightarrow> (err + challenge) \<times> db" where
  "StartInvitation K n locked now raws proof d = (case token_digest K proof of None \<Rightarrow> (Inl IdErrUnauthenticated, d)
     | Some digest \<Rightarrow> start K n locked now raws (Some digest) None d)"

definition StartReauthentication :: "crypto \<Rightarrow> net \<Rightarrow> bool \<Rightarrow> time \<Rightarrow> string option list \<Rightarrow> string \<Rightarrow> db \<Rightarrow> (err + challenge) \<times> db" where
  "StartReauthentication K n locked now raws token d = (case token_digest K token of None \<Rightarrow> (Inl IdErrUnauthenticated, d)
     | Some digest \<Rightarrow> start K n locked now raws None (Some digest) d)"

definition challenge_open :: "string \<Rightarrow> string \<Rightarrow> time \<Rightarrow> challenge_row \<Rightarrow> bool" where
  "challenge_open stateHash browserHash now h \<longleftrightarrow> h_state_digest h = stateHash \<and> h_browser_digest h = browserHash \<and> h_expires_at h > now"

definition consume_tx :: "string \<Rightarrow> string \<Rightarrow> time \<Rightarrow> challenge dbtx" where
  "consume_tx stateHash browserHash now =
     tx_bind (sql IdErrStore (\<lambda>d. Some (fetch (challenge_open stateHash browserHash now) (challenges d),
        d\<lparr>challenges := del (challenge_open stateHash browserHash now) (challenges d)\<rparr>)))
     (\<lambda>r. case r of None \<Rightarrow> tx_raise IdErrUnauthenticated
       | Some h \<Rightarrow> tx_ret \<lparr>ch_State = [], ch_Browser = [], ch_Nonce = h_nonce h, ch_Verifier = h_verifier h,
           ch_InvitationDigest = h_invitation_digest h, ch_SessionDigest = h_session_digest h, ch_StartedAt = h_created_at h\<rparr>)"

definition Consume :: "crypto \<Rightarrow> net \<Rightarrow> time \<Rightarrow> string \<Rightarrow> string \<Rightarrow> db \<Rightarrow> (err + challenge) \<times> db" where
  "Consume K n now state browser d = (case (token_digest K state, token_digest K browser) of
       (Some stateHash, Some browserHash) \<Rightarrow> run_auto IdErrStore n (consume_tx stateHash browserHash now) d
     | _ \<Rightarrow> (Inl IdErrUnauthenticated, d))"

section \<open>Session lifetime\<close>

definition sessions_wf :: "db \<Rightarrow> bool" where
  "sessions_wf d \<longleftrightarrow> distinct (map s_token_digest (sessions d))
     \<and> (\<forall>s \<in> set (sessions d). s_idle_expires_at s \<le> s_absolute_expires_at s)"

text \<open>A bearer proves a user at an instant.\<close>

definition session_of :: "db \<Rightarrow> string \<Rightarrow> session_row option" where
  "session_of d digest = fetch (\<lambda>s. s_token_digest s = digest) (sessions d)"

lemma touched_simps [simp]: "s_token_digest (touched policy now s) = s_token_digest s" "s_user (touched policy now s) = s_user s"
  "s_absolute_expires_at (touched policy now s) = s_absolute_expires_at s" "s_reauthenticated (touched policy now s) = s_reauthenticated s"
  "s_authenticated_at (touched policy now s) = s_authenticated_at s"
  by (simp_all add: touched_def)

definition resolved :: "session_policy \<Rightarrow> time \<Rightarrow> string \<Rightarrow> db \<Rightarrow> principal \<Rightarrow> db \<Rightarrow> bool" where
  "resolved policy now digest d p d' \<longleftrightarrow> (\<exists>s. fetch (session_live d digest now) (sessions d) = Some s
     \<and> p = \<lparr>pr_UserID = s_user s, pr_AuthenticatedAt = s_authenticated_at s, pr_CSRFHash = s_csrf_digest s, pr_Reauthenticated = s_reauthenticated s\<rparr>
     \<and> d' = d\<lparr>sessions := upd (session_live d digest now) (touched policy now) (sessions d)\<rparr>)"

lemma vc_resolve [vc_rules]: "(\<And>p d'. resolved policy now digest d p d' \<Longrightarrow> Q p d') \<Longrightarrow> vc (resolve_session_tx policy now digest) Q d"
  unfolding resolve_session_tx_def by (intro vc_rules) (auto simp: resolved_def split: option.splits)

lemma Sessions_Resolve_committed:
  assumes "Sessions_Resolve K policy n now token d = (r, d')"
  shows "(d' = d \<and> isl r) \<or> (\<exists>digest p. token_digest K token = Some digest \<and> resolved policy now digest d p d' \<and> (r = Inr p \<or> isl r))"
proof (cases "token_digest K token")
  case None
  with assms show ?thesis by (auto simp: Sessions_Resolve_def)
next
  case (Some digest)
  then have "run_auto IdErrStore n (resolve_session_tx policy now digest) d = (r, d')" using assms by (simp add: Sessions_Resolve_def)
  moreover have "vc (resolve_session_tx policy now digest) (resolved policy now digest d) d" by (intro vc_rules)
  ultimately show ?thesis using Some by (auto dest!: vc_run_auto simp: isl_def)
qed

definition sessions_deleted :: "string \<Rightarrow> db \<Rightarrow> db \<Rightarrow> bool" where
  "sessions_deleted digest d d' \<longleftrightarrow> sessions d' = del (\<lambda>s. s_token_digest s = digest) (sessions d)"

lemma Revoke_effect: "Revoke K n token d = (Inr (), d') \<Longrightarrow> token_digest K token = Some digest \<Longrightarrow> sessions_deleted digest d d'"
  by (auto simp: Revoke_def run_auto_def exec_def sql_def sessions_deleted_def split: prod.splits sum.splits if_splits)

lemma vc_logout: "vc (logout_tx clk aid digest req) (\<lambda>(commit, _) d'. if commit then sessions_deleted digest d d' else session_of d digest = None) d"
  unfolding logout_tx_def
  by (intro vc_rules) (auto simp: sessions_deleted_def session_of_def)

lemma Logout_effect:
  assumes "Logout K n clk aid token req d = (Inr (), d')" "token_digest K token = Some digest"
  shows "session_of d' digest = None"
proof -
  from assms have "run_tx_if IdErrStore IdErrStore n (logout_tx clk aid digest req) d = (Inr (), d')" by (simp add: Logout_def)
  from vc_run_tx_if [OF this vc_logout] show ?thesis by (auto simp: sessions_deleted_def session_of_def fetch_None)
qed

definition rotated :: "crypto \<Rightarrow> time \<Rightarrow> uuid \<Rightarrow> time \<Rightarrow> string \<Rightarrow> db \<Rightarrow> session_credential \<Rightarrow> db \<Rightarrow> bool" where
  "rotated K now user at digest d c d' \<longleftrightarrow>
     (\<exists>s \<in> set (sessions d). s_token_digest s = digest \<and> s_user s = user \<and> s_idle_expires_at s > now \<and> s_absolute_expires_at s > now)
     \<and> (\<forall>s \<in> set (sessions d'). s_token_digest s = digest_or_nil K (cr_Token c) \<longrightarrow>
          s_user s = user \<and> s_authenticated_at s = at \<and> s_reauthenticated s)
     \<and> (\<exists>s \<in> set (sessions d'). s_token_digest s = digest_or_nil K (cr_Token c))
     \<and> (\<forall>s \<in> set (sessions d'). s_token_digest s = digest \<and> s_user s = user \<longrightarrow>
          digest = digest_or_nil K (cr_Token c) \<or> s_idle_expires_at s \<le> now \<or> s_absolute_expires_at s \<le> now)"

lemma vc_create_session:
  assumes "\<And>d'. sessions d' = sessions d @ [new_session policy now (digest_or_nil K token) (digest_or_nil K csrf) user at d] \<Longrightarrow>
     digest_or_nil K token \<notin> set (map s_token_digest (sessions d)) \<Longrightarrow> Q \<lparr>cr_Token = token, cr_CSRF = csrf\<rparr> d'"
    and "token_digest K previous = None" "digest_or_nil K token \<notin> set (map s_token_digest (sessions d))"
  shows "vc (create_session_tx K policy now token csrf user at previous) Q d"
  unfolding create_session_tx_def Let_def assms(2) option.case
proof (intro vc_rules)
  fix d'
  assume i: "insert_session policy now (digest_or_nil K token) (digest_or_nil K csrf) user at d = Some d'"
    and p: "\<not> digest_or_nil K token \<notin> set (map s_token_digest (sessions d'))"
  show "Q \<lparr>cr_Token = token, cr_CSRF = csrf\<rparr> d'"
    using i p assms(3) by (intro assms(1)) (auto simp: insert_session_def Let_def split: if_splits)
qed

lemma vc_Sessions_Create:
  assumes nil: "token_digest K previous = None"
    and fresh: "\<And>raw. raw_token = Some raw \<Longrightarrow> digest_or_nil K (b64_enc K raw) \<notin> set (map s_token_digest (sessions d))"
    and Q: "\<And>raw csrf d'. raw_token = Some raw \<Longrightarrow> isEntityID user \<Longrightarrow>
       sessions d' = sessions d @ [new_session policy now (digest_or_nil K (b64_enc K raw)) (digest_or_nil K (b64_enc K csrf)) user at d]
       \<Longrightarrow> Q \<lparr>cr_Token = b64_enc K raw, cr_CSRF = b64_enc K csrf\<rparr> d'"
  shows "vc (Sessions_Create K policy now raw_token raw_csrf user at previous) Q d"
proof (cases "raw_token = None \<or> raw_csrf = None \<or> \<not> isEntityID user")
  case True
  then show ?thesis by (auto simp: Sessions_Create_def randomToken_def vc_raise split: option.splits)
next
  case False
  then obtain raw csrf where r: "raw_token = Some raw" "raw_csrf = Some csrf" "isEntityID user" by auto
  have "vc (create_session_tx K policy now (b64_enc K raw) (b64_enc K csrf) user at previous) Q d"
    by (rule vc_create_session [OF _ nil fresh [OF r(1)]]) (rule Q [OF r(1,3)])
  with r show ?thesis by (auto simp: Sessions_Create_def randomToken_def vc_raise)
qed

lemma vc_rotate:
  assumes fresh: "\<And>raw. raw_token = Some raw \<Longrightarrow> digest_or_nil K (b64_enc K raw) \<notin> set (map s_token_digest (sessions d))"
    and nil: "token_digest K [] = None"
  shows "vc (rotate_tx K policy now raw_token raw_csrf user at digest) (rotated K now user at digest d) d"
  unfolding rotate_tx_def Let_def
proof (intro vc_bind vc_sql, clarify, intro vc_if vc_raise vc_bind vc_Sessions_Create [OF nil])
  let ?P = "\<lambda>s. s_token_digest s = digest \<and> s_user s = user \<and> now < s_idle_expires_at s \<and> now < s_absolute_expires_at s"
  let ?d = "d\<lparr>sessions := del ?P (sessions d)\<rparr>"
  assume one: "\<not> cnt ?P (sessions d) \<noteq> 1"
  then have "0 < cnt ?P (sessions d)" by simp
  then have old: "\<exists>s \<in> set (sessions d). ?P s" by (simp add: cnt_pos)
  fix raw
  assume rt: "raw_token = Some raw"
  let ?t = "digest_or_nil K (b64_enc K raw)"
  show "?t \<notin> set (map s_token_digest (sessions ?d))" using fresh [OF rt] by auto
  fix csrf and d' :: db
  assume s: "sessions d' = sessions ?d @ [new_session policy now ?t (digest_or_nil K (b64_enc K csrf)) user at ?d]"
  let ?c = "\<lparr>cr_Token = b64_enc K raw, cr_CSRF = b64_enc K csrf\<rparr>"
  let ?d2 = "d'\<lparr>sessions := upd (\<lambda>s. s_token_digest s = ?t) (\<lambda>s. s\<lparr>s_reauthenticated := True\<rparr>) (sessions d')\<rparr>"
  let ?n = "new_session policy now ?t (digest_or_nil K (b64_enc K csrf)) user at ?d"
  have no: "s_token_digest s \<noteq> ?t" if "s \<in> set (sessions d)" for s using fresh [OF rt] that by (metis image_eqI set_map)
  have "upd (\<lambda>s. s_token_digest s = ?t) (\<lambda>s. s\<lparr>s_reauthenticated := True\<rparr>) (del ?P (sessions d)) = del ?P (sessions d)"
    by (rule upd_no_match) (use no in auto)
  then have "sessions ?d2 = del ?P (sessions d) @ [?n\<lparr>s_reauthenticated := True\<rparr>]"
    by (simp add: s upd_append) (simp add: upd_def new_session_def)
  with old no have "rotated K now user at digest d ?c ?d2"
    by (auto simp: rotated_def new_session_def)
  then show "vc (exec IdErrStore (\<lambda>d. Some (d\<lparr>sessions := upd (\<lambda>s. s_token_digest s = digest_or_nil K (cr_Token ?c))
     (\<lambda>s. s\<lparr>s_reauthenticated := True\<rparr>) (sessions d)\<rparr>))) (\<lambda>_. vc (tx_ret ?c) (rotated K now user at digest d)) d'"
    by (intro vc_rules) simp
qed

section \<open>Properties\<close>

text \<open>
  C26: A session token resolves only while its session is stored, its user enabled and both deadlines are in
  the future; resolving may extend the idle deadline but never beyond the absolute one, which never moves,
  and grants no recent authentication.
\<close>

theorem resolve_respects_deadlines:
  assumes "sessions_wf d" "Sessions_Resolve K policy n now token d = (r, d')"
  shows "sessions_wf d' \<and> length (sessions d') = length (sessions d)
     \<and> (\<forall>s' \<in> set (sessions d'). \<exists>s \<in> set (sessions d). s_token_digest s' = s_token_digest s \<and> s_user s' = s_user s
          \<and> s_absolute_expires_at s' = s_absolute_expires_at s \<and> s_reauthenticated s' = s_reauthenticated s
          \<and> s_idle_expires_at s \<le> s_idle_expires_at s' \<and> s_idle_expires_at s' \<le> s_absolute_expires_at s)
     \<and> (\<forall>p. r = Inr p \<longrightarrow> (\<exists>s \<in> set (sessions d). token_digest K token = Some (s_token_digest s) \<and> s_user s = pr_UserID p
          \<and> enabled_user d (s_user s) \<and> now < s_idle_expires_at s \<and> now < s_absolute_expires_at s
          \<and> pr_Reauthenticated p = s_reauthenticated s \<and> pr_AuthenticatedAt p = s_authenticated_at s))"
proof -
  have idle: "s_idle_expires_at s \<le> s_absolute_expires_at s" if "s \<in> set (sessions d)" for s
    using assms(1) that by (simp add: sessions_wf_def)
  from Sessions_Resolve_committed [OF assms(2)] show ?thesis
  proof
    assume "d' = d \<and> isl r"
    with assms(1) idle show ?thesis by auto
  next
    assume "\<exists>digest p. token_digest K token = Some digest \<and> resolved policy now digest d p d' \<and> (r = Inr p \<or> isl r)"
    then obtain digest p s where dg: "token_digest K token = Some digest" "fetch (session_live d digest now) (sessions d) = Some s"
      and p: "p = \<lparr>pr_UserID = s_user s, pr_AuthenticatedAt = s_authenticated_at s, pr_CSRFHash = s_csrf_digest s, pr_Reauthenticated = s_reauthenticated s\<rparr>"
      and d': "d' = d\<lparr>sessions := upd (session_live d digest now) (touched policy now) (sessions d)\<rparr>" "r = Inr p \<or> isl r"
      by (auto simp: resolved_def)
    have s: "s \<in> set (sessions d)" "session_live d digest now s" using fetch_Some [OF dg(2)] by auto
    have src: "\<exists>t \<in> set (sessions d). s' = t \<or> s' = touched policy now t" if "s' \<in> set (sessions d')" for s'
      using that d'(1) by (auto dest!: in_updD)
    have wf: "sessions_wf d'"
      using assms(1) d'(1) by (auto simp: sessions_wf_def map_upd_key touched_def dest!: in_updD)
    have rows: "\<exists>s \<in> set (sessions d). s_token_digest s' = s_token_digest s \<and> s_user s' = s_user s
          \<and> s_absolute_expires_at s' = s_absolute_expires_at s \<and> s_reauthenticated s' = s_reauthenticated s
          \<and> s_idle_expires_at s \<le> s_idle_expires_at s' \<and> s_idle_expires_at s' \<le> s_absolute_expires_at s" if "s' \<in> set (sessions d')" for s'
    proof -
      from src [OF that] obtain t where t: "t \<in> set (sessions d)" "s' = t \<or> s' = touched policy now t" by blast
      with idle [OF t(1)] show ?thesis by (intro bexI [of _ t]) (auto simp: touched_def)
    qed
    have "\<exists>s \<in> set (sessions d). token_digest K token = Some (s_token_digest s) \<and> s_user s = pr_UserID q
          \<and> enabled_user d (s_user s) \<and> now < s_idle_expires_at s \<and> now < s_absolute_expires_at s
          \<and> pr_Reauthenticated q = s_reauthenticated s \<and> pr_AuthenticatedAt q = s_authenticated_at s" if "r = Inr q" for q
      using that s dg(1) d'(2) p by (intro bexI [of _ s]) (auto simp: session_live_def)
    with wf rows d'(1) show ?thesis by auto
  qed
qed

definition example_session :: session_row where
  "example_session = \<lparr>s_token_digest = replicate 32 CHR ''t'', s_user = v7 4, s_csrf_digest = replicate 32 CHR ''c'',
     s_authenticated_at = second, s_created_at = second, s_last_seen_at = second, s_idle_expires_at = 31 * minute,
     s_absolute_expires_at = 12 * hour, s_reauthenticated = False, s_audit_workspace = Some (v7 1)\<rparr>"

definition example_login :: db where
  "example_login = empty_db\<lparr>users := [\<lparr>u_id = v7 4, u_issuer = ''iss'', u_subject = ''sub'', u_display_name = ''n'', u_disabled_at = None\<rparr>],
     workspaces := [\<lparr>w_id = v7 1, w_name = ''w'', w_policy_version = 1, w_closed_at = None, w_queue_limit = 10, w_audit_retention_days = 180\<rparr>],
     memberships := [\<lparr>m_workspace = v7 1, m_user = v7 4, m_role = ''owner'', m_version = 1\<rparr>],
     sessions := [example_session]\<rparr>"

definition example_token :: string where
  "example_token = replicate 32 CHR ''t''"

theorem resolve_respects_deadlines_witness:
  "let (r, d') = Sessions_Resolve example_crypto DefaultSessionPolicy good_net minute example_token example_login in
     sessions_wf d' \<and> \<not> isl r"
proof -
  let ?r = "Sessions_Resolve example_crypto DefaultSessionPolicy good_net minute example_token example_login"
  have wf: "sessions_wf example_login" by code_simp
  have "?r = (fst ?r, snd ?r)" by simp
  from resolve_respects_deadlines [OF wf this] have "sessions_wf (snd ?r)" by blast
  moreover have "\<not> isl (fst ?r)" by code_simp
  ultimately show ?thesis by (simp add: case_prod_beta)
qed

text \<open>
  Once \<open>Logout\<close> has returned without an error, the token resolves to no principal at any later
  time, on any network, and a second logout changes nothing.
\<close>

theorem logout_revokes:
  assumes "Logout K n clk aid token req d = (Inr (), d')" "token_digest K token = Some digest"
  shows "\<not> (\<exists>p d2. Sessions_Resolve K policy n' now token d' = (Inr p, d2))
     \<and> fst (Logout K good_net clk' aid' token req' d') = Inr () \<and> snd (Logout K good_net clk' aid' token req' d') = d'"
proof -
  have no: "session_of d' digest = None" by (rule Logout_effect [OF assms])
  have "fetch (session_live d' digest t) (sessions d') = None" for t
    using no by (auto simp: session_of_def fetch_None session_live_def)
  then have "\<not> resolved policy now digest d' p d2" for p d2 by (simp add: resolved_def)
  moreover have "fst (Logout K good_net clk' aid' token req' d') = Inr () \<and> snd (Logout K good_net clk' aid' token req' d') = d'"
    using no by (simp add: Logout_def assms(2) run_tx_if_def good_net_def logout_tx_def tx_bind_def sql_def tx_ret_def session_of_def)
  ultimately show ?thesis using assms(2) Sessions_Resolve_committed by fastforce
qed

theorem logout_revokes_witness:
  "let d' = snd (Logout example_crypto good_net (2 * minute) (Some (v7 60)) example_token ''r1'' example_login) in
     \<not> (\<exists>p d2. Sessions_Resolve example_crypto DefaultSessionPolicy good_net (3 * minute) example_token d' = (Inr p, d2))"
proof -
  let ?l = "Logout example_crypto good_net (2 * minute) (Some (v7 60)) example_token ''r1'' example_login"
  have "fst ?l = Inr ()" by code_simp
  then have l: "?l = (Inr (), snd ?l)" by (cases ?l) simp
  have "token_digest example_crypto example_token = Some example_token" by code_simp
  with logout_revokes [OF l] show ?thesis by (simp add: Let_def)
qed

text \<open>
  Rotation after a verified re-authentication: it needs a live session of the same user and a recent
  authentication time, replaces that session by one marked re-authenticated at exactly that time, and
  leaves the previous token without a live session.
\<close>

theorem rotation_replaces_session:
  assumes "b64_dec K [] = Some []" "\<And>raw. raw_token = Some raw \<Longrightarrow> digest_or_nil K (b64_enc K raw) \<notin> set (map s_token_digest (sessions (t_db s)))"
    and "RotateRecent K policy now raw_token raw_csrf user at previous bound s = (Inr c, s')"
  shows "recentAt at now \<and> token_digest K previous = Some bound \<and> rotated K now user at bound (t_db s) c (t_db s')"
proof -
  have nil: "token_digest K [] = None" using assms(1) by (simp add: token_digest_def)
  from assms(3) have g: "token_digest K previous = Some bound" "recentAt at now"
    and run: "rotate_tx K policy now raw_token raw_csrf user at bound s = (Inr c, s')"
    by (auto simp: RotateRecent_def tx_simps split: option.splits if_splits)
  have "rotated K now user at bound (t_db s) c (t_db s')"
    by (rule vcD [OF vc_rotate [OF assms(2) nil] run]) auto
  with g show ?thesis by blast
qed

theorem rotation_replaces_session_witness:
  "let s = \<lparr>t_db = example_login, t_left = None\<rparr>;
       r = RotateRecent example_crypto DefaultSessionPolicy (5 * minute) (Some (replicate 32 CHR ''u'')) (Some (replicate 32 CHR ''v''))
         (v7 4) (4 * minute) example_token example_token s
   in \<exists>c. fst r = Inr c \<and> rotated example_crypto (5 * minute) (v7 4) (4 * minute) example_token example_login c (t_db (snd r))"
proof -
  let ?s = "\<lparr>t_db = example_login, t_left = None\<rparr>"
  let ?r = "RotateRecent example_crypto DefaultSessionPolicy (5 * minute) (Some (replicate 32 CHR ''u'')) (Some (replicate 32 CHR ''v''))
         (v7 4) (4 * minute) example_token example_token ?s"
  have "\<not> isl (fst ?r)" by code_simp
  then obtain c where c: "?r = (Inr c, snd ?r)" by (cases ?r; cases "fst ?r") auto
  have fresh: "digest_or_nil example_crypto (b64_enc example_crypto raw) \<notin> set (map s_token_digest (sessions (t_db ?s)))"
    if "Some (replicate 32 CHR ''u'') = Some raw" for raw
  proof -
    have "digest_or_nil example_crypto (b64_enc example_crypto (replicate 32 CHR ''u'')) \<notin> set (map s_token_digest (sessions example_login))" by code_simp
    with that show ?thesis by simp
  qed
  have nil: "b64_dec example_crypto [] = Some []" by code_simp
  have "rotated example_crypto (5 * minute) (v7 4) (4 * minute) example_token (t_db ?s) c (t_db (snd ?r))"
    using rotation_replaces_session [OF nil fresh c] by blast
  then have "rotated example_crypto (5 * minute) (v7 4) (4 * minute) example_token example_login c (t_db (snd ?r))" by simp
  moreover have "fst ?r = Inr c" by (subst c) simp
  ultimately show ?thesis unfolding Let_def by blast
qed

text \<open>
  The budget is within its bounds: at most 30 issues per window and at most 1000 stored challenges.
\<close>

definition login_ok :: "db \<Rightarrow> bool" where
  "login_ok d \<longleftrightarrow> length (challenges d) \<le> 1000 \<and> distinct (map h_state_digest (challenges d))
     \<and> (case login_budget d of None \<Rightarrow> True | Some (_, issued) \<Rightarrow> 1 \<le> issued \<and> issued \<le> 30)"

lemma issue_budget_ok:
  assumes "issue_budget now b = Some (w, i)" "case b of None \<Rightarrow> True | Some (_, issued) \<Rightarrow> 1 \<le> issued \<and> issued \<le> 30"
  shows "1 \<le> i \<and> i \<le> 30"
  using assms by (auto simp: issue_budget_def split: option.splits prod.splits if_splits)

lemma login_ok_del: "login_ok d \<Longrightarrow> login_ok (d\<lparr>challenges := del P (challenges d)\<rparr>)"
  unfolding login_ok_def
  by (simp add: del_def distinct_map_filter order_trans [OF length_filter_le])

lemma login_ok_steps:
  "login_ok d \<Longrightarrow> purge_challenges now d = Some d' \<Longrightarrow> login_ok d'"
  "login_ok d \<Longrightarrow> spend_budget now d = Some (r, d') \<Longrightarrow> login_ok d'"
  "login_ok d \<Longrightarrow> \<not> 1000 \<le> length (challenges d) \<Longrightarrow> insert_challenge h d = Some d' \<Longrightarrow> login_ok d'"
proof -
  show "login_ok d \<Longrightarrow> purge_challenges now d = Some d' \<Longrightarrow> login_ok d'"
    by (auto simp: purge_challenges_def intro: login_ok_del)
  show "login_ok d \<Longrightarrow> spend_budget now d = Some (r, d') \<Longrightarrow> login_ok d'"
    using issue_budget_ok [of now "login_budget d"] by (auto simp: spend_budget_def login_ok_def split: option.splits)
  show "login_ok d \<Longrightarrow> \<not> 1000 \<le> length (challenges d) \<Longrightarrow> insert_challenge h d = Some d' \<Longrightarrow> login_ok d'"
    by (auto simp: insert_challenge_def login_ok_def challenge_insert_ok_def split: if_splits)
qed

lemma login_ok_start: "login_ok d \<Longrightarrow> vc (start_tx K locked now invitation session c) (\<lambda>_. login_ok) d"
  unfolding start_tx_def
proof (intro vc_rules)
  fix d1 r d2 x d3
  assume "login_ok d" "purge_challenges now d = Some d1" "spend_budget now d1 = Some (r, d2)" "\<not> 1000 \<le> length (challenges d2)"
    "insert_challenge \<lparr>h_state_digest = digest_or_nil K (ch_State c), h_browser_digest = digest_or_nil K (ch_Browser c),
            h_nonce = ch_Nonce c, h_verifier = ch_Verifier c, h_created_at = now, h_expires_at = now + 5 * minute,
            h_invitation_digest = invitation, h_session_digest = session\<rparr> d2 = Some d3"
  then show "login_ok d3" using login_ok_steps by blast
qed

lemma start_keeps: "keeps login_ok (start_tx K locked now invitation session c)"
  by (simp add: keeps_vc login_ok_start)

lemma login_ok_consume: "login_ok d \<Longrightarrow> vc (consume_tx a b now) (\<lambda>_ d'. login_ok d' \<and> (\<forall>h \<in> set (challenges d'). \<not> challenge_open a b now h)
     \<and> (\<exists>h \<in> set (challenges d). challenge_open a b now h \<and> (\<forall>k \<in> set (challenges d'). k \<in> set (challenges d) \<and> h_state_digest k \<noteq> a))) d"
  unfolding consume_tx_def
proof (intro vc_rules)
  fix x d' h
  assume ok: "login_ok d" and x: "Some (fetch (challenge_open a b now) (challenges d), d\<lparr>challenges := del (challenge_open a b now) (challenges d)\<rparr>) = Some (x, d')"
    and h: "x = Some h"
  then have hd: "h \<in> set (challenges d)" "challenge_open a b now h" and d': "d' = d\<lparr>challenges := del (challenge_open a b now) (challenges d)\<rparr>"
    by (auto dest!: fetch_Some)
  have "h_state_digest k \<noteq> a" if k: "k \<in> set (challenges d')" for k
  proof
    assume "h_state_digest k = a"
    with k hd ok have "k = h" unfolding d' login_ok_def challenge_open_def by (auto dest: unique_key [of h_state_digest])
    with k hd show False by (simp add: d')
  qed
  with hd ok show "login_ok d' \<and> (\<forall>h \<in> set (challenges d'). \<not> challenge_open a b now h)
     \<and> (\<exists>h \<in> set (challenges d). challenge_open a b now h \<and> (\<forall>k \<in> set (challenges d'). k \<in> set (challenges d) \<and> h_state_digest k \<noteq> a))"
    by (auto simp: d' login_ok_del)
qed


definition example_challenge :: "nat \<Rightarrow> string option list" where
  "example_challenge k = map (\<lambda>c. Some (replicate k c)) ''abcd''"


end
