(* ===== verification/Sama_Workspace.thy ===== *)
theory Sama_Workspace
  imports Sama_Audit Sama_Text
begin

text \<open>
  Package \<^verbatim>\<open>workspace\<close>: roles and their ceilings, membership changes under the workspace
  lock, connection grants, ownership transfer, invitations, settings and creation.

  Every writer takes the workspace row lock first (\<open>LockAuthority\<close>), so a transaction body is one
  atomic step of the shared database. Generated identifiers are arguments (\<open>None\<close>: the generator
  failed), as are the clock and the behaviour of the network.
\<close>

section \<open>Roles\<close>

definition rank :: "string \<Rightarrow> int" where
  "rank r = (if r = ''viewer'' then 1 else if r = ''operator'' then 2 else if r = ''admin'' then 3
     else if r = ''owner'' then 4 else 0)"

definition Allows :: "string \<Rightarrow> string \<Rightarrow> bool" where
  "Allows role minimum \<longleftrightarrow> rank minimum > 0 \<and> rank role \<ge> rank minimum"

definition CanAssign :: "string \<Rightarrow> string \<Rightarrow> bool" where
  "CanAssign actor role \<longleftrightarrow> Allows role ''viewer'' \<and>
     (actor = ''owner'' \<or> actor = ''admin'' \<and> (role = ''viewer'' \<or> role = ''operator''))"

definition WithinCeiling :: "string \<Rightarrow> string \<Rightarrow> bool" where
  "WithinCeiling role action =
     (if action = ''read'' then Allows role ''viewer''
      else if action \<in> {''refresh'', ''operate'', ''high_impact''} then Allows role ''operator''
      else False)"

lemma rank_pos_iff: "rank r > 0 \<longleftrightarrow> known_role r"
  by (simp add: rank_def known_role_def)

lemma Allows_viewer_iff: "Allows r ''viewer'' \<longleftrightarrow> known_role r"
  by (auto simp: Allows_def rank_def known_role_def)

lemma Allows_trans: "Allows a b \<Longrightarrow> Allows b c \<Longrightarrow> Allows a c"
  by (simp add: Allows_def)

lemma CanAssign_admin_iff: "CanAssign ''admin'' r \<longleftrightarrow> r = ''viewer'' \<or> r = ''operator''"
  by (auto simp: CanAssign_def Allows_def rank_def)

lemma CanAssign_not_self: "CanAssign ''admin'' ''admin'' = False"
  by (simp add: CanAssign_admin_iff)

section \<open>Authority under the workspace lock\<close>

definition memberInTx :: "uuid \<Rightarrow> uuid \<Rightarrow> membership_row dbtx" where
  "memberInTx scope user = query_row WsErrNotFound WsErrStore (\<lambda>d. live_member d scope user)"

definition LockAuthority :: "uuid \<Rightarrow> uuid \<Rightarrow> membership_row dbtx" where
  "LockAuthority actor scope =
     tx_bind (query_row WsErrNotFound WsErrStore (\<lambda>d. open_workspace d scope)) (\<lambda>_.
     tx_bind (memberInTx scope actor) (\<lambda>m.
     if \<not> Allows (m_role m) ''admin'' then tx_raise WsErrDenied else tx_ret m))"

text \<open>\<open>ResolveMembership\<close>: the read-only gate of the request handlers.\<close>

definition ResolveMembership :: "uuid \<Rightarrow> uuid \<Rightarrow> string \<Rightarrow> membership_row dbtx" where
  "ResolveMembership user workspace minimumRole =
     tx_bind (query_row WsErrNotFound WsErrStore (\<lambda>d. case open_workspace d workspace of None \<Rightarrow> None
        | Some _ \<Rightarrow> fetch (\<lambda>m. m_workspace m = workspace \<and> m_user m = user) (memberships d))) (\<lambda>m.
     if \<not> Allows (m_role m) minimumRole then tx_raise WsErrDenied else tx_ret m)"

definition user_event :: "uuid \<Rightarrow> uuid \<Rightarrow> uuid \<Rightarrow> string \<Rightarrow> string \<Rightarrow> (string \<times> string) list \<Rightarrow> audit_event" where
  "user_event eid scope actor kind request metadata = \<lparr>ev_ID = eid, ev_Workspace = scope,
     ev_ActorKind = ''user'', ev_ActorID = Some actor, ev_Type = kind, ev_RequestID = request,
     ev_Metadata = metadata\<rparr>"

definition memberAudit :: "time \<Rightarrow> uuid option \<Rightarrow> uuid \<Rightarrow> uuid \<Rightarrow> uuid \<Rightarrow> string \<Rightarrow> string \<Rightarrow> unit dbtx" where
  "memberAudit clk aid actor scope target role request = (case aid of
       None \<Rightarrow> tx_raise WsErrStore
     | Some i \<Rightarrow> tx_as WsErrStore (Append clk (user_event i scope actor ''membership.changed'' request
         ((''member_id'', uuid_String target) # (if role \<noteq> '''' then [(''role'', role)] else [])))))"

text \<open>\<^verbatim>\<open>UPDATE workspaces SET policy_version=policy_version+1 ... RETURNING policy_version\<close>.\<close>

definition bump_policy :: "uuid \<Rightarrow> db \<Rightarrow> (int \<times> db) option" where
  "bump_policy scope d = (case fetch (\<lambda>w. w_id w = scope) (workspaces d) of None \<Rightarrow> None
     | Some w \<Rightarrow> (let v = w_policy_version w + 1 in
         if bigint_ok v
         then Some (v, d\<lparr>workspaces := upd (\<lambda>w. w_id w = scope) (\<lambda>w. w\<lparr>w_policy_version := w_policy_version w + 1\<rparr>) (workspaces d)\<rparr>)
         else None))"

definition bumpPolicy :: "uuid \<Rightarrow> int dbtx" where
  "bumpPolicy scope = sql WsErrStore (bump_policy scope)"

definition insert_member :: "membership_row \<Rightarrow> db \<Rightarrow> db option" where
  "insert_member m d =
     (if (m_workspace m, m_user m) \<in> set (map (\<lambda>r. (m_workspace r, m_user r)) (memberships d))
         \<or> m_workspace m \<notin> set (map w_id (workspaces d)) \<or> m_user m \<notin> set (map u_id (users d))
         \<or> \<not> known_role (m_role m) \<or> m_version m \<le> 0 then None
      else Some (d\<lparr>memberships := memberships d @ [m]\<rparr>))"

text \<open>Removing a membership cascades to its connection grants.\<close>

definition delete_member :: "uuid \<Rightarrow> uuid \<Rightarrow> db \<Rightarrow> db" where
  "delete_member scope user d = d\<lparr>memberships := del (\<lambda>m. m_workspace m = scope \<and> m_user m = user) (memberships d),
     grants := del (\<lambda>g. g_workspace g = scope \<and> g_user g = user) (grants d)\<rparr>"

definition update_member :: "uuid \<Rightarrow> uuid \<Rightarrow> string \<Rightarrow> int \<Rightarrow> db \<Rightarrow> db option" where
  "update_member scope user role version d =
     (if known_role role \<and> version > 0
      then Some (d\<lparr>memberships := upd (\<lambda>m. m_workspace m = scope \<and> m_user m = user)
             (\<lambda>m. m\<lparr>m_role := role, m_version := version\<rparr>) (memberships d)\<rparr>)
      else None)"

definition invalidateElevation :: "uuid \<Rightarrow> string \<Rightarrow> string \<Rightarrow> unit dbtx" where
  "invalidateElevation user previous next_role =
     (if next_role \<noteq> '''' \<and> \<not> Allows previous next_role
      then exec WsErrStore (\<lambda>d. Some (d\<lparr>sessions := del (\<lambda>s. s_user s = user) (sessions d)\<rparr>))
      else tx_ret ())"

definition enabled_owner :: "db \<Rightarrow> uuid \<Rightarrow> membership_row \<Rightarrow> bool" where
  "enabled_owner d scope m \<longleftrightarrow> m_workspace m = scope \<and> m_role m = ''owner'' \<and> enabled_user d (m_user m)"

section \<open>ChangeMember\<close>

text \<open>The zero \<open>Membership\<close> that \<open>memberInTx\<close> returns beside \<open>ErrNotFound\<close>.\<close>

definition absent_member :: "uuid \<Rightarrow> uuid \<Rightarrow> membership_row" where
  "absent_member scope user = \<lparr>m_workspace = scope, m_user = user, m_role = '''', m_version = 0\<rparr>"

definition admitted_user :: "db \<Rightarrow> uuid \<Rightarrow> bool" where
  "admitted_user d u \<longleftrightarrow> enabled_user d u \<and>
     (\<exists>m \<in> set (memberships d). m_user m = u \<and> open_workspace d (m_workspace m) \<noteq> None)"

definition write_member :: "uuid \<Rightarrow> uuid \<Rightarrow> string \<Rightarrow> int \<Rightarrow> int \<Rightarrow> unit dbtx" where
  "write_member scope target role version revision =
     (if version = 0 then
        tx_bind (query WsErrStore (\<lambda>d. admitted_user d target)) (\<lambda>admitted.
        if \<not> admitted then tx_raise WsErrNotFound
        else exec WsErrStore (insert_member \<lparr>m_workspace = scope, m_user = target, m_role = role, m_version = revision\<rparr>))
      else if role = '''' then exec WsErrStore (\<lambda>d. Some (delete_member scope target d))
      else exec WsErrStore (update_member scope target role revision))"

definition change_member_tx :: "time \<Rightarrow> uuid option \<Rightarrow> uuid \<Rightarrow> uuid \<Rightarrow> uuid \<Rightarrow> string \<Rightarrow> int \<Rightarrow> string \<Rightarrow> unit dbtx" where
  "change_member_tx clk aid actor scope target role version request =
     tx_bind (LockAuthority actor scope) (\<lambda>current.
     tx_bind (tx_try (memberInTx scope target)) (\<lambda>found.
     let previous = (case found of Inl _ \<Rightarrow> absent_member scope target | Inr m \<Rightarrow> m) in
     if (case found of Inl e \<Rightarrow> e \<noteq> WsErrNotFound | Inr _ \<Rightarrow> False) then tx_raise WsErrStore
     else if \<not> CanAssign (m_role current) role \<and> role \<noteq> ''''
       \<or> m_role previous \<noteq> '''' \<and> \<not> CanAssign (m_role current) (m_role previous) then tx_raise WsErrDenied
     else if m_version previous \<noteq> version \<or> m_version previous = 0 \<and> role = '''' then tx_raise WsErrConflict
     else tx_bind (if m_role previous = ''owner'' \<and> role \<noteq> ''owner''
         then query WsErrStore (\<lambda>d. cnt (enabled_owner d scope) (memberships d))
         else tx_ret 2) (\<lambda>owners.
     if owners \<le> 1 then tx_raise WsErrConflict
     else tx_bind (bumpPolicy scope) (\<lambda>revision.
     tx_bind (write_member scope target role version revision) (\<lambda>_.
     tx_bind (invalidateElevation target (m_role previous) role) (\<lambda>_.
     memberAudit clk aid actor scope target role request))))))"

definition ChangeMember :: "net \<Rightarrow> time \<Rightarrow> uuid option \<Rightarrow> uuid \<Rightarrow> uuid \<Rightarrow> uuid \<Rightarrow> string \<Rightarrow> int \<Rightarrow> string \<Rightarrow> db \<Rightarrow> (err + unit) \<times> db" where
  "ChangeMember n clk aid actor scope target role version request d =
     (if version < 0 \<or> role \<noteq> '''' \<and> \<not> Allows role ''viewer'' then (Inl WsErrInvalid, d)
      else run_tx WsErrStore WsErrStore n (change_member_tx clk aid actor scope target role version request) d)"

section \<open>Transfer\<close>

definition transfer_tx :: "time \<Rightarrow> uuid option \<Rightarrow> uuid option \<Rightarrow> uuid \<Rightarrow> uuid \<Rightarrow> uuid \<Rightarrow> int \<Rightarrow> int \<Rightarrow> bool \<Rightarrow> string \<Rightarrow> unit dbtx" where
  "transfer_tx clk aid1 aid2 actor scope target actorVersion targetVersion demote request =
     tx_bind (LockAuthority actor scope) (\<lambda>caller.
     if m_role caller \<noteq> ''owner'' then tx_raise WsErrDenied
     else tx_bind (memberInTx scope target) (\<lambda>member.
     if m_version caller \<noteq> actorVersion \<or> m_version member \<noteq> targetVersion then tx_raise WsErrConflict
     else tx_bind (bumpPolicy scope) (\<lambda>revision.
     tx_bind (exec WsErrStore (update_member scope target ''owner'' revision)) (\<lambda>_.
     tx_bind (invalidateElevation target (m_role member) ''owner'') (\<lambda>_.
     tx_bind (memberAudit clk aid1 actor scope target ''owner'' request) (\<lambda>_.
     if demote then
       tx_bind (exec WsErrStore (update_member scope actor ''admin'' revision)) (\<lambda>_.
       memberAudit clk aid2 actor scope actor ''admin'' request)
     else tx_ret ()))))))"

definition Transfer :: "net \<Rightarrow> time \<Rightarrow> uuid option \<Rightarrow> uuid option \<Rightarrow> uuid \<Rightarrow> uuid \<Rightarrow> uuid \<Rightarrow> int \<Rightarrow> int \<Rightarrow> bool \<Rightarrow> string \<Rightarrow> db \<Rightarrow> (err + unit) \<times> db" where
  "Transfer n clk aid1 aid2 actor scope target actorVersion targetVersion demote request d =
     (if actor = target \<or> actorVersion < 1 \<or> targetVersion < 1 then (Inl WsErrInvalid, d)
      else run_tx WsErrStore WsErrStore n
        (transfer_tx clk aid1 aid2 actor scope target actorVersion targetVersion demote request) d)"

section \<open>Connection grants\<close>

definition grantAudit :: "time \<Rightarrow> uuid option \<Rightarrow> uuid \<Rightarrow> uuid \<Rightarrow> uuid \<Rightarrow> uuid \<Rightarrow> string \<Rightarrow> string \<Rightarrow> unit dbtx" where
  "grantAudit clk aid actor scope connection target kind request = (case aid of
       None \<Rightarrow> tx_raise WsErrStore
     | Some i \<Rightarrow> tx_as WsErrStore (Append clk (user_event i scope actor kind request
         [(''connection_id'', uuid_String connection), (''member_id'', uuid_String target)])))"

text \<open>The checks before the transaction: known classes, no duplicates, \<open>read\<close> in every grant.\<close>

definition grant_request_ok :: "string list \<Rightarrow> bool" where
  "grant_request_ok actions \<longleftrightarrow> length actions \<le> 4 \<and> list_all (WithinCeiling ''owner'') actions
     \<and> distinct actions \<and> (actions \<noteq> [] \<longrightarrow> ''read'' \<in> set actions)"

definition upsert_grant :: "grant_row \<Rightarrow> db \<Rightarrow> db option" where
  "upsert_grant g d =
     (if connection_of d (g_workspace g) (g_connection g) = None
         \<or> (g_workspace g, g_user g) \<notin> set (map (\<lambda>m. (m_workspace m, m_user m)) (memberships d))
         \<or> \<not> list_all (\<lambda>a. a \<in> {''read'', ''refresh'', ''operate'', ''high_impact''}) (g_actions g)
         \<or> length (g_actions g) > 4 then None
      else Some (if grant_of d (g_workspace g) (g_connection g) (g_user g) = None
        then d\<lparr>grants := grants d @ [g]\<rparr>
        else d\<lparr>grants := upd (\<lambda>r. g_workspace r = g_workspace g \<and> g_connection r = g_connection g \<and> g_user r = g_user g)
                 (\<lambda>r. r\<lparr>g_actions := g_actions g\<rparr>) (grants d)\<rparr>))"

text \<open>The refusal the body computes under the lock.\<close>

definition grant_denied :: "string \<Rightarrow> string \<Rightarrow> string list \<Rightarrow> string list \<Rightarrow> bool" where
  "grant_denied role target_role own actions \<longleftrightarrow> \<not> CanAssign role target_role
     \<or> list_ex (\<lambda>a. \<not> WithinCeiling target_role a \<or> role = ''admin'' \<and> a \<notin> set own) actions"

text \<open>
  The body of \<open>SetGrant\<close> after its lookups, and the body itself. The value is what the handler answers
  after the commit: \<open>None\<close> for success, \<open>Some e\<close> for a refusal that is nevertheless committed with its
  audit event.
\<close>

definition apply_grant_tx :: "time \<Rightarrow> uuid option \<Rightarrow> uuid \<Rightarrow> uuid \<Rightarrow> uuid \<Rightarrow> uuid \<Rightarrow> string list \<Rightarrow> string \<Rightarrow> string \<Rightarrow> string \<Rightarrow> err option dbtx" where
  "apply_grant_tx clk aid actor scope connection target actions request role target_role =
     tx_bind (if role = ''admin''
         then query WsErrStore (\<lambda>d. case grant_of d scope connection actor of None \<Rightarrow> [] | Some g \<Rightarrow> g_actions g)
         else tx_ret []) (\<lambda>own.
     let denied = grant_denied role target_role own actions in
     tx_bind (grantAudit clk aid actor scope connection target
         (if denied then ''connection.grants_denied'' else ''connection.grants_changed'') request) (\<lambda>_.
     if denied then tx_ret (Some WsErrDenied)
     else tx_bind (exec WsErrStore (upsert_grant \<lparr>g_workspace = scope, g_connection = connection, g_user = target, g_actions = actions\<rparr>)) (\<lambda>_.
          tx_bind (bumpPolicy scope) (\<lambda>_. tx_ret None))))"

definition deny_grant_tx :: "time \<Rightarrow> uuid option \<Rightarrow> uuid \<Rightarrow> uuid \<Rightarrow> uuid \<Rightarrow> uuid \<Rightarrow> string \<Rightarrow> err \<Rightarrow> err option dbtx" where
  "deny_grant_tx clk aid actor scope connection target request cause =
     tx_bind (grantAudit clk aid actor scope connection target ''connection.grants_denied'' request)
       (\<lambda>_. tx_ret (Some cause))"

definition set_grant_tx :: "time \<Rightarrow> uuid option \<Rightarrow> uuid \<Rightarrow> uuid \<Rightarrow> uuid \<Rightarrow> uuid \<Rightarrow> string list \<Rightarrow> string \<Rightarrow> err option dbtx" where
  "set_grant_tx clk aid actor scope connection target actions request =
     tx_bind (tx_try (LockAuthority actor scope)) (\<lambda>current.
     case current of
       Inl e \<Rightarrow> (if e = WsErrDenied then deny_grant_tx clk aid actor scope connection target request e else tx_raise e)
     | Inr current \<Rightarrow>
     tx_bind (query WsErrStore (\<lambda>d. connection_of d scope connection)) (\<lambda>conn.
     if conn = None then deny_grant_tx clk aid actor scope connection target request WsErrNotFound
     else tx_bind (tx_try (memberInTx scope target)) (\<lambda>member.
     case member of
       Inl e \<Rightarrow> (if e = WsErrNotFound then deny_grant_tx clk aid actor scope connection target request e else tx_raise e)
     | Inr member \<Rightarrow>
     apply_grant_tx clk aid actor scope connection target actions request (m_role current) (m_role member))))"

definition SetGrant :: "net \<Rightarrow> time \<Rightarrow> uuid option \<Rightarrow> uuid \<Rightarrow> uuid \<Rightarrow> uuid \<Rightarrow> uuid \<Rightarrow> string list \<Rightarrow> string \<Rightarrow> db \<Rightarrow> (err + unit) \<times> db" where
  "SetGrant n clk aid actor scope connection target actions request d =
     (if \<not> grant_request_ok actions then (Inl WsErrInvalid, d)
      else (case run_tx WsErrStore WsErrStore n (set_grant_tx clk aid actor scope connection target actions request) d of
          (Inl e, d') \<Rightarrow> (Inl e, d')
        | (Inr (Some e), d') \<Rightarrow> (Inl e, d')
        | (Inr None, d') \<Rightarrow> (Inr (), d')))"

text \<open>\<open>ConnectionAuthority\<close>: one snapshot of role, status and grant.\<close>

definition ConnectionAuthority :: "uuid \<Rightarrow> uuid \<Rightarrow> uuid \<Rightarrow> string \<Rightarrow> unit dbtx" where
  "ConnectionAuthority actor scope connection action =
     tx_bind (query_row WsErrNotFound WsErrStore (\<lambda>d.
        case (live_member d scope actor, open_workspace d scope, connection_of d scope connection) of
          (Some m, Some _, Some c) \<Rightarrow>
            Some (m_role m, c_status c, (case grant_of d scope connection actor of None \<Rightarrow> [] | Some g \<Rightarrow> g_actions g))
        | _ \<Rightarrow> None)) (\<lambda>(role, status, actions).
     if action = ''manage'' then (if Allows role ''admin'' then tx_ret () else tx_raise WsErrDenied)
     else if ''read'' \<notin> set actions then tx_raise WsErrNotFound
     else if \<not> WithinCeiling role action \<or> action \<notin> set actions \<or> action \<noteq> ''read'' \<and> status \<noteq> ''active''
       then tx_raise WsErrDenied
     else tx_ret ())"

definition ReadGrant :: "uuid \<Rightarrow> uuid \<Rightarrow> uuid \<Rightarrow> string list dbtx" where
  "ReadGrant actor scope connection = query_row WsErrNotFound WsErrStore (\<lambda>d.
     case (live_member d scope actor, open_workspace d scope, connection_of d scope connection) of
       (Some m, Some _, Some c) \<Rightarrow>
         (let actions = (case grant_of d scope connection actor of None \<Rightarrow> [] | Some g \<Rightarrow> g_actions g) in
          if m_role m \<in> {''admin'', ''owner''} \<or> ''read'' \<in> set actions then Some actions else None)
     | _ \<Rightarrow> None)"

record grant_view =
  gv_UserID :: uuid
  gv_Actions :: "string list"
  gv_AllowedActions :: "string list"
  gv_Editable :: bool

definition ReadGrantView :: "uuid \<Rightarrow> uuid \<Rightarrow> uuid \<Rightarrow> uuid \<Rightarrow> grant_view dbtx" where
  "ReadGrantView actor scope connection target =
     tx_bind (query_row WsErrNotFound WsErrStore (\<lambda>d.
        case (open_workspace d scope, live_member d scope actor, connection_of d scope connection, live_member d scope target) of
          (Some _, Some m, Some c, Some t) \<Rightarrow>
            if m_role m \<in> {''owner'', ''admin''} then
              Some (m_role m, m_role t, (case grant_of d scope connection target of None \<Rightarrow> [] | Some g \<Rightarrow> g_actions g),
                (case grant_of d scope connection actor of None \<Rightarrow> [] | Some g \<Rightarrow> g_actions g))
            else None
        | _ \<Rightarrow> None)) (\<lambda>(role, targetRole, actions, own).
     let editable = CanAssign role targetRole in
     tx_ret \<lparr>gv_UserID = target, gv_Actions = actions,
       gv_AllowedActions = filter (\<lambda>a. editable \<and> WithinCeiling targetRole a \<and> (role = ''owner'' \<or> a \<in> set own))
         [''read'', ''refresh'', ''operate'', ''high_impact''],
       gv_Editable = editable\<rparr>)"

section \<open>Names, creation and bootstrap\<close>

definition ValidName :: "string \<Rightarrow> bool" where
  "ValidName name = (case runes name of None \<Rightarrow> False
     | Some rs \<Rightarrow> trimmed rs \<and> 1 \<le> length rs \<and> length rs \<le> 100 \<and> \<not> list_ex is_control rs)"

definition new_workspace :: "uuid \<Rightarrow> string \<Rightarrow> workspace_row" where
  "new_workspace wid name = \<lparr>w_id = wid, w_name = name, w_policy_version = 1, w_closed_at = None,
     w_queue_limit = 1000, w_audit_retention_days = 180\<rparr>"

definition insert_workspace :: "workspace_row \<Rightarrow> db \<Rightarrow> db option" where
  "insert_workspace w d = (if w_id w \<in> set (map w_id (workspaces d)) then None
     else Some (d\<lparr>workspaces := workspaces d @ [w]\<rparr>))"

definition MaxOwnedWorkspaces :: nat where
  "MaxOwnedWorkspaces = 10"

record workspace_view =
  wv_ID :: uuid
  wv_Name :: string
  wv_Role :: string

definition create_tx :: "time \<Rightarrow> uuid \<Rightarrow> uuid \<Rightarrow> uuid \<Rightarrow> string \<Rightarrow> string \<Rightarrow> workspace_view dbtx" where
  "create_tx clk wid event user name request =
     tx_bind (query WsErrStore (\<lambda>d. admitted_user d user)) (\<lambda>admitted.
     if \<not> admitted then tx_raise WsErrDenied
     else tx_bind (query WsErrStore (\<lambda>d. cnt (\<lambda>m. m_user m = user \<and> m_role m = ''owner'') (memberships d))) (\<lambda>owned.
     if owned \<ge> MaxOwnedWorkspaces then tx_raise WsErrLimit
     else tx_bind (exec WsErrStore (insert_workspace (new_workspace wid name))) (\<lambda>_.
     tx_bind (exec WsErrStore (insert_member \<lparr>m_workspace = wid, m_user = user, m_role = ''owner'', m_version = 1\<rparr>)) (\<lambda>_.
     tx_bind (tx_as WsErrStore (Append clk (user_event event wid user ''workspace.created'' request []))) (\<lambda>_.
     tx_ret \<lparr>wv_ID = wid, wv_Name = name, wv_Role = ''owner''\<rparr>)))))"

definition Create :: "net \<Rightarrow> time \<Rightarrow> uuid option \<Rightarrow> uuid option \<Rightarrow> uuid \<Rightarrow> string \<Rightarrow> string \<Rightarrow> db \<Rightarrow> (err + workspace_view) \<times> db" where
  "Create n clk wid event user name request d =
     (if \<not> ValidName name then (Inl WsErrInvalid, d)
      else (case (wid, event) of (Some w, Some e) \<Rightarrow>
              run_tx WsErrStore WsErrStore n (create_tx clk w e user name request) d
            | _ \<Rightarrow> (Inl WsErrStore, d)))"

text \<open>\<^verbatim>\<open>INSERT INTO users ... ON CONFLICT(issuer,subject) DO NOTHING\<close>.\<close>

definition admit_user :: "uuid \<Rightarrow> string \<Rightarrow> string \<Rightarrow> db \<Rightarrow> db option" where
  "admit_user uid issuer subject d =
     (if \<exists>u \<in> set (users d). u_issuer u = issuer \<and> u_subject u = subject then Some d
      else if uid \<in> set (map u_id (users d)) then None
      else Some (d\<lparr>users := users d @ [\<lparr>u_id = uid, u_issuer = issuer, u_subject = subject,
        u_display_name = '''', u_disabled_at = None\<rparr>]\<rparr>))"

definition identity_of :: "db \<Rightarrow> string \<Rightarrow> string \<Rightarrow> uuid option" where
  "identity_of d issuer subject = map_option u_id
     (fetch (\<lambda>u. u_issuer u = issuer \<and> u_subject u = subject \<and> u_disabled_at u = None) (users d))"

text \<open>\<open>locked\<close>: whether \<^verbatim>\<open>pg_try_advisory_xact_lock(891016)\<close> was granted.\<close>

definition bootstrap_tx :: "bool \<Rightarrow> time \<Rightarrow> uuid \<Rightarrow> uuid \<Rightarrow> uuid \<Rightarrow> string \<Rightarrow> string \<Rightarrow> string \<Rightarrow> uuid dbtx" where
  "bootstrap_tx locked clk uid wid event issuer subject name =
     tx_bind (query WsErrStore (\<lambda>_. locked)) (\<lambda>locked.
     if \<not> locked then tx_raise WsErrBootstrapExists
     else tx_bind (query WsErrStore (\<lambda>d. bootstraps d \<noteq> [] \<or> workspaces d \<noteq> [])) (\<lambda>initialized.
     if initialized then tx_raise WsErrBootstrapExists
     else tx_bind (exec WsErrStore (admit_user uid issuer subject)) (\<lambda>_.
     tx_bind (query_row WsErrStore WsErrStore (\<lambda>d. identity_of d issuer subject)) (\<lambda>user.
     tx_bind (exec WsErrStore (insert_workspace (new_workspace wid name))) (\<lambda>_.
     tx_bind (exec WsErrStore (insert_member \<lparr>m_workspace = wid, m_user = user, m_role = ''owner'', m_version = 1\<rparr>)) (\<lambda>_.
     tx_bind (exec WsErrStore (\<lambda>d. if bootstraps d \<noteq> [] then None else Some (d\<lparr>bootstraps := [(user, wid)]\<rparr>))) (\<lambda>_.
     tx_bind (tx_as WsErrStore (Append clk \<lparr>ev_ID = event, ev_Workspace = wid, ev_ActorKind = ''installation'',
        ev_ActorID = None, ev_Type = ''workspace.created'', ev_RequestID = ''installation-bootstrap'', ev_Metadata = []\<rparr>)) (\<lambda>_.
     tx_ret wid))))))))"

definition Bootstrap :: "net \<Rightarrow> bool \<Rightarrow> time \<Rightarrow> uuid option \<Rightarrow> uuid option \<Rightarrow> uuid option \<Rightarrow> string \<Rightarrow> string \<Rightarrow> string \<Rightarrow> string \<Rightarrow> db \<Rightarrow> (err + uuid) \<times> db" where
  "Bootstrap n locked clk user workspace event configuredIssuer issuer subject name d =
     (if configuredIssuer = '''' \<or> issuer \<noteq> configuredIssuer \<or> blank subject \<or> length subject > 255 \<or> \<not> ValidName name
      then (Inl WsErrInvalid, d)
      else (case (user, workspace, event) of (Some u, Some w, Some e) \<Rightarrow>
              run_tx WsErrStore WsErrStore n (bootstrap_tx locked clk u w e issuer subject name) d
            | _ \<Rightarrow> (Inl WsErrStore, d)))"

section \<open>Invitations\<close>

definition insert_invitation :: "invitation_row \<Rightarrow> db \<Rightarrow> db option" where
  "insert_invitation i d =
     (if length (i_token_digest i) \<noteq> 32 \<or> i_token_digest i \<in> set (map i_token_digest (invitations d))
         \<or> i_workspace i \<notin> set (map w_id (workspaces d)) \<or> i_inviter i \<notin> set (map u_id (users d))
         \<or> i_inviter_version i \<le> 0 \<or> \<not> known_role (i_role i) then None
      else Some (d\<lparr>invitations := invitations d @ [i]\<rparr>))"

definition issue_invitation_tx :: "time \<Rightarrow> uuid option \<Rightarrow> string \<Rightarrow> uuid \<Rightarrow> uuid \<Rightarrow> string \<Rightarrow> string \<Rightarrow> string \<Rightarrow> string \<Rightarrow> time \<Rightarrow> unit dbtx" where
  "issue_invitation_tx clk aid digest actor scope issuer subject role request now =
     tx_bind (LockAuthority actor scope) (\<lambda>caller.
     if \<not> CanAssign (m_role caller) role then tx_raise WsErrDenied
     else tx_bind (exec WsErrStore (\<lambda>d. Some (d\<lparr>invitations :=
         del (\<lambda>i. i_workspace i = scope \<and> i_expires_at i \<le> now) (invitations d)\<rparr>))) (\<lambda>_.
     tx_bind (query WsErrStore (\<lambda>d. cnt (\<lambda>i. i_workspace i = scope) (invitations d))) (\<lambda>count.
     if count \<ge> 100 then tx_raise WsErrLimit
     else tx_bind (exec WsErrStore (insert_invitation \<lparr>i_token_digest = digest, i_workspace = scope,
         i_inviter = actor, i_inviter_version = m_version caller, i_issuer = issuer, i_subject = subject,
         i_role = role, i_expires_at = now + 24 * hour\<rparr>)) (\<lambda>_.
     case aid of None \<Rightarrow> tx_raise WsErrStore
     | Some i \<Rightarrow> tx_as WsErrStore (Append clk (user_event i scope actor ''invitation.created'' request [(''role'', role)]))))))"

definition IssueInvitation :: "crypto \<Rightarrow> net \<Rightarrow> time \<Rightarrow> uuid option \<Rightarrow> string option \<Rightarrow> uuid \<Rightarrow> uuid \<Rightarrow> string \<Rightarrow> string \<Rightarrow> string \<Rightarrow> string \<Rightarrow> time \<Rightarrow> db \<Rightarrow> (err + string) \<times> db" where
  "IssueInvitation K n clk aid raw actor scope issuer subject role request now d =
     (if length issuer = 0 \<or> length issuer > 2048 \<or> length subject = 0 \<or> length subject > 255 \<or> \<not> Allows role ''viewer''
      then (Inl WsErrInvalid, d)
      else (case raw of None \<Rightarrow> (Inl WsErrStore, d)
        | Some bytes \<Rightarrow>
            (let proof = b64_enc K bytes; digest = (case token_digest K proof of None \<Rightarrow> [] | Some h \<Rightarrow> h) in
             case run_tx WsErrStore WsErrStore n
               (issue_invitation_tx clk aid digest actor scope issuer subject role request now) d of
               (Inl e, d') \<Rightarrow> (Inl e, d')
             | (Inr _, d') \<Rightarrow> (Inr proof, d'))))"

text \<open>\<^verbatim>\<open>INSERT INTO memberships ... ON CONFLICT DO NOTHING\<close>, with the rows affected.\<close>

definition insert_member_once :: "membership_row \<Rightarrow> db \<Rightarrow> (nat \<times> db) option" where
  "insert_member_once m d =
     (if (m_workspace m, m_user m) \<in> set (map (\<lambda>r. (m_workspace r, m_user r)) (memberships d)) then Some (0, d)
      else map_option (\<lambda>d'. (1, d')) (insert_member m d))"

definition RedeemInvitation :: "time \<Rightarrow> uuid option \<Rightarrow> uuid option \<Rightarrow> string \<Rightarrow> string \<Rightarrow> string \<Rightarrow> string \<Rightarrow> time \<Rightarrow> unit dbtx" where
  "RedeemInvitation clk uid aid digest issuer subject request now =
     tx_bind (query_row WsErrDenied WsErrStore (\<lambda>d. fetch (\<lambda>i. i_token_digest i = digest \<and> i_issuer i = issuer
        \<and> i_subject i = subject \<and> i_expires_at i > now) (invitations d))) (\<lambda>inv.
     tx_bind (LockAuthority (i_inviter inv) (i_workspace inv)) (\<lambda>caller.
     if m_version caller \<noteq> i_inviter_version inv \<or> \<not> CanAssign (m_role caller) (i_role inv) then tx_raise WsErrDenied
     else tx_bind (sql WsErrStore (\<lambda>d. Some (cnt (\<lambda>i. i_token_digest i = digest \<and> i_expires_at i > now) (invitations d),
         d\<lparr>invitations := del (\<lambda>i. i_token_digest i = digest \<and> i_expires_at i > now) (invitations d)\<rparr>))) (\<lambda>removed.
     if removed \<noteq> 1 then tx_raise WsErrDenied
     else (case uid of None \<Rightarrow> tx_raise WsErrStore
     | Some u \<Rightarrow>
     tx_bind (exec WsErrStore (admit_user u issuer subject)) (\<lambda>_.
     tx_bind (query_row WsErrDenied WsErrDenied (\<lambda>d. identity_of d issuer subject)) (\<lambda>user.
     tx_bind (bumpPolicy (i_workspace inv)) (\<lambda>revision.
     tx_bind (sql WsErrStore (insert_member_once \<lparr>m_workspace = i_workspace inv, m_user = user,
        m_role = i_role inv, m_version = revision\<rparr>)) (\<lambda>inserted.
     if inserted \<noteq> 1 then tx_raise WsErrConflict
     else tx_bind (invalidateElevation user '''' (i_role inv)) (\<lambda>_.
     memberAudit clk aid (i_inviter inv) (i_workspace inv) user (i_role inv) request)))))))))"

section \<open>Settings\<close>

record settings =
  st_Name :: string
  st_PolicyVersion :: int
  st_QueueLimit :: int
  st_AuditRetentionDays :: int

definition settings_of :: "workspace_row \<Rightarrow> settings" where
  "settings_of w = \<lparr>st_Name = w_name w, st_PolicyVersion = w_policy_version w,
     st_QueueLimit = w_queue_limit w, st_AuditRetentionDays = w_audit_retention_days w\<rparr>"

definition update_settings :: "uuid \<Rightarrow> settings \<Rightarrow> db \<Rightarrow> db option" where
  "update_settings scope st d =
     (if \<not> bigint_ok (st_PolicyVersion st) \<or> st_PolicyVersion st \<le> 0 \<or> st_QueueLimit st < 1 \<or> st_QueueLimit st > 1000
         \<or> st_AuditRetentionDays st < 180 \<or> st_AuditRetentionDays st > 3650 then None
      else Some (d\<lparr>workspaces := upd (\<lambda>w. w_id w = scope) (\<lambda>w. w\<lparr>w_name := st_Name st,
        w_policy_version := st_PolicyVersion st, w_queue_limit := st_QueueLimit st,
        w_audit_retention_days := st_AuditRetentionDays st\<rparr>) (workspaces d)\<rparr>))"

definition settings_tx :: "time \<Rightarrow> uuid option \<Rightarrow> uuid \<Rightarrow> uuid \<Rightarrow> settings option \<Rightarrow> string \<Rightarrow> (bool \<times> settings) dbtx" where
  "settings_tx clk aid actor scope update request =
     tx_bind (LockAuthority actor scope) (\<lambda>member.
     if m_role member \<noteq> ''owner'' then tx_raise WsErrDenied
     else tx_bind (query_row WsErrStore WsErrStore (\<lambda>d. map_option settings_of (fetch (\<lambda>w. w_id w = scope) (workspaces d)))) (\<lambda>current.
     case update of None \<Rightarrow> tx_ret (False, current)
     | Some new \<Rightarrow>
     if \<not> ValidName (st_Name new) \<or> st_QueueLimit new < 1 \<or> st_QueueLimit new > 1000
       \<or> st_AuditRetentionDays new < 180 \<or> st_AuditRetentionDays new > 3650 then tx_raise WsErrInvalid
     else if st_PolicyVersion new \<noteq> st_PolicyVersion current then tx_raise WsErrPolicyConflict
     else if new = current then tx_ret (False, current)
     else (let next_settings = new\<lparr>st_PolicyVersion := st_PolicyVersion new + 1\<rparr> in
     tx_bind (exec WsErrStore (update_settings scope next_settings)) (\<lambda>_.
     case aid of None \<Rightarrow> tx_raise WsErrStore
     | Some i \<Rightarrow> tx_bind (tx_as WsErrStore (Append clk (user_event i scope actor ''workspace.settings_changed'' request
           [(''policy_version'', FormatInt (st_PolicyVersion next_settings))]))) (\<lambda>_. tx_ret (True, next_settings))))))"

text \<open>A read (\<open>update = None\<close>) and a no-op update answer without a commit.\<close>

definition WorkspaceSettings :: "net \<Rightarrow> time \<Rightarrow> uuid option \<Rightarrow> uuid \<Rightarrow> uuid \<Rightarrow> settings option \<Rightarrow> string \<Rightarrow> db \<Rightarrow> (err + settings) \<times> db" where
  "WorkspaceSettings n clk aid actor scope update request d =
     run_tx_if WsErrStore WsErrStore n (settings_tx clk aid actor scope update request) d"

section \<open>Lists\<close>

definition List_rows :: "db \<Rightarrow> uuid \<Rightarrow> uuid \<Rightarrow> workspace_view list" where
  "List_rows d user cursor = sort_key wv_ID
     [\<lparr>wv_ID = w_id w, wv_Name = w_name w, wv_Role = m_role m\<rparr>.
        m \<leftarrow> memberships d, m_user m = user, w \<leftarrow> workspaces d, w_id w = m_workspace m \<and> w_closed_at w = None \<and> w_id w > cursor]"

definition List_workspaces :: "uuid \<Rightarrow> uuid \<Rightarrow> int \<Rightarrow> (workspace_view list \<times> uuid option) dbtx" where
  "List_workspaces user cursor limit =
     (if limit < 1 \<or> limit > 100 then tx_raise WsErrInvalid
      else query WsErrStore (\<lambda>d. paginate (nat limit) wv_ID (List_rows d user cursor)))"

record member_view =
  mv_UserID :: uuid
  mv_DisplayName :: string
  mv_Role :: string
  mv_Version :: int

definition ListMembers_rows :: "db \<Rightarrow> uuid \<Rightarrow> uuid \<Rightarrow> uuid \<Rightarrow> member_view list" where
  "ListMembers_rows d actor scope cursor = (case (open_workspace d scope,
        fetch (\<lambda>a. m_workspace a = scope \<and> m_user a = actor) (memberships d)) of
      (Some _, Some a) \<Rightarrow>
        if m_role a \<notin> {''owner'', ''admin''} then []
        else sort_key mv_UserID [\<lparr>mv_UserID = m_user m, mv_DisplayName = u_display_name u, mv_Role = m_role m, mv_Version = m_version m\<rparr>.
          m \<leftarrow> memberships d, m_workspace m = scope \<and> (m_role a = ''owner'' \<or> m_role m \<in> {''viewer'', ''operator''}) \<and> m_user m > cursor,
          u \<leftarrow> users d, u_id u = m_user m]
    | _ \<Rightarrow> [])"

definition ListMembers :: "uuid \<Rightarrow> uuid \<Rightarrow> uuid \<Rightarrow> int \<Rightarrow> (member_view list \<times> uuid option) dbtx" where
  "ListMembers actor scope cursor limit =
     (if limit < 1 \<or> limit > 200 then tx_raise WsErrInvalid
      else tx_bind (ResolveMembership actor scope ''admin'') (\<lambda>_.
        query WsErrStore (\<lambda>d. paginate (nat limit) mv_UserID (ListMembers_rows d actor scope cursor))))"

section \<open>Rules for the shared steps\<close>

lemma vc_memberInTx [vc_rules]:
  "(\<And>m. live_member d scope user = Some m \<Longrightarrow> Q m d) \<Longrightarrow> vc (memberInTx scope user) Q d"
  unfolding memberInTx_def by (rule vc_query_row)

text \<open>A lookup whose error the caller inspects: the row, no row, or a storage error.\<close>

lemma vc_try_memberInTx [vc_rules]:
  assumes "\<And>m. live_member d scope user = Some m \<Longrightarrow> Q (Inr m) d"
    and "live_member d scope user = None \<Longrightarrow> Q (Inl WsErrNotFound) d" and "Q (Inl WsErrStore) d"
  shows "vc (tx_try (memberInTx scope user)) Q d"
  by (rule vcI) (use assms in \<open>auto simp: tx_try_Inr memberInTx_def query_row_def query_def sql_def tx_bind_def
      tx_raise_def tx_ret_def split: if_splits option.splits\<close>)

lemma vc_LockAuthority [vc_rules]:
  assumes "\<And>m w. open_workspace d scope = Some w \<Longrightarrow> live_member d scope actor = Some m
     \<Longrightarrow> Allows (m_role m) ''admin'' \<Longrightarrow> Q m d"
  shows "vc (LockAuthority actor scope) Q d"
  unfolding LockAuthority_def by (auto intro!: vc_rules assms)

lemma vc_try_LockAuthority [vc_rules]:
  assumes "\<And>m w. open_workspace d scope = Some w \<Longrightarrow> live_member d scope actor = Some m
     \<Longrightarrow> Allows (m_role m) ''admin'' \<Longrightarrow> Q (Inr m) d"
    and "\<And>m w. open_workspace d scope = Some w \<Longrightarrow> live_member d scope actor = Some m
     \<Longrightarrow> \<not> Allows (m_role m) ''admin'' \<Longrightarrow> Q (Inl WsErrDenied) d"
    and "Q (Inl WsErrNotFound) d" "Q (Inl WsErrStore) d"
  shows "vc (tx_try (LockAuthority actor scope)) Q d"
  by (rule vcI) (use assms in \<open>auto simp: tx_try_Inr LockAuthority_def memberInTx_def query_row_def query_def sql_def
      tx_bind_def tx_raise_def tx_ret_def split: if_splits option.splits\<close>)

lemma vc_memberAudit [vc_rules]:
  assumes "\<And>r. a_event_type r = ''membership.changed'' \<Longrightarrow> a_workspace r = scope \<Longrightarrow> a_actor r = Some actor
     \<Longrightarrow> (''member_id'', uuid_String target) \<in> set (a_metadata r) \<Longrightarrow> Q () (d\<lparr>audit_events := audit_events d @ [r]\<rparr>)"
  shows "vc (memberAudit clk aid actor scope target role request) Q d"
  unfolding memberAudit_def by (auto intro!: vc_rules assms simp: audit_row_of_def user_event_def)

lemma vc_grantAudit [vc_rules]:
  assumes "\<And>r. a_event_type r = kind \<Longrightarrow> a_workspace r = scope \<Longrightarrow> a_actor r = Some actor
     \<Longrightarrow> a_metadata r = [(''connection_id'', uuid_String connection), (''member_id'', uuid_String target)]
     \<Longrightarrow> Q () (d\<lparr>audit_events := audit_events d @ [r]\<rparr>)"
  shows "vc (grantAudit clk aid actor scope connection target kind request) Q d"
  unfolding grantAudit_def by (auto intro!: vc_rules assms simp: audit_row_of_def user_event_def)

lemma vc_invalidateElevation [vc_rules]:
  assumes "Q () (if new \<noteq> '''' \<and> \<not> Allows prev new then d\<lparr>sessions := del (\<lambda>r. s_user r = u) (sessions d)\<rparr> else d)"
  shows "vc (invalidateElevation u prev new) Q d"
  using assms unfolding invalidateElevation_def by (auto intro!: vc_rules split: if_splits)

text \<open>The policy version a bump returns, and the workspaces it leaves.\<close>

definition next_policy :: "db \<Rightarrow> uuid \<Rightarrow> int" where
  "next_policy d scope = (case fetch (\<lambda>w. w_id w = scope) (workspaces d) of None \<Rightarrow> 0 | Some w \<Rightarrow> w_policy_version w + 1)"

definition bumped :: "uuid \<Rightarrow> workspace_row list \<Rightarrow> workspace_row list" where
  "bumped scope t = upd (\<lambda>w. w_id w = scope) (\<lambda>w. w\<lparr>w_policy_version := w_policy_version w + 1\<rparr>) t"

lemma vc_bumpPolicy [vc_rules]:
  assumes "Q (next_policy d scope) (d\<lparr>workspaces := bumped scope (workspaces d)\<rparr>)"
  shows "vc (bumpPolicy scope) Q d"
  unfolding bumpPolicy_def
  by (rule vc_sql) (use assms in \<open>auto simp: bump_policy_def next_policy_def bumped_def Let_def split: option.splits if_splits\<close>)

lemma enabled_user_frame [simp]:
  "enabled_user (d\<lparr>workspaces := t1\<rparr>) u = enabled_user d u" "enabled_user (d\<lparr>memberships := t2\<rparr>) u = enabled_user d u"
  "enabled_user (d\<lparr>grants := t3\<rparr>) u = enabled_user d u" "enabled_user (d\<lparr>sessions := t4\<rparr>) u = enabled_user d u"
  "enabled_user (d\<lparr>audit_events := t5\<rparr>) u = enabled_user d u"
  by (simp_all add: enabled_user_def)

section \<open>Membership changes\<close>

text \<open>The member a change starts from, absent members as their zero value.\<close>

definition previous_member :: "db \<Rightarrow> uuid \<Rightarrow> uuid \<Rightarrow> membership_row" where
  "previous_member d scope target = (case live_member d scope target of
     None \<Rightarrow> absent_member scope target | Some m \<Rightarrow> m)"

definition members_after :: "uuid \<Rightarrow> uuid \<Rightarrow> string \<Rightarrow> int \<Rightarrow> int \<Rightarrow> membership_row list \<Rightarrow> membership_row list" where
  "members_after scope target role version revision t =
     (if version = 0 then t @ [\<lparr>m_workspace = scope, m_user = target, m_role = role, m_version = revision\<rparr>]
      else if role = '''' then del (\<lambda>m. m_workspace m = scope \<and> m_user m = target) t
      else upd (\<lambda>m. m_workspace m = scope \<and> m_user m = target) (\<lambda>m. m\<lparr>m_role := role, m_version := revision\<rparr>) t)"

lemma vc_write_member [vc_rules]:
  assumes "\<And>gs. version = 0 \<Longrightarrow> enabled_user d target \<Longrightarrow>
       (scope, target) \<notin> set (map (\<lambda>r. (m_workspace r, m_user r)) (memberships d)) \<Longrightarrow>
       Q () (d\<lparr>memberships := members_after scope target role version revision (memberships d)\<rparr>)"
    and "\<And>gs. version \<noteq> 0 \<Longrightarrow>
       Q () (d\<lparr>memberships := members_after scope target role version revision (memberships d), grants := gs\<rparr>)"
  shows "vc (write_member scope target role version revision) Q d"
  unfolding write_member_def
proof (intro vc_rules)
  fix d' assume "version = 0" "\<not> \<not> admitted_user d target"
    "insert_member \<lparr>m_workspace = scope, m_user = target, m_role = role, m_version = revision\<rparr> d = Some d'"
  then show "Q () d'"
    using assms(1) by (auto simp: insert_member_def admitted_user_def members_after_def split: if_splits)
next
  fix d' assume "version \<noteq> 0" "role = ''''" "Some (delete_member scope target d) = Some d'"
  then show "Q () d'"
    using assms(2) [of "grants d'"] by (auto simp: delete_member_def members_after_def)
next
  fix d' assume "version \<noteq> 0" "role \<noteq> ''''" "update_member scope target role revision d = Some d'"
  then show "Q () d'"
    using assms(2) [of "grants d"] by (auto simp: update_member_def members_after_def split: if_splits)
qed

text \<open>
  The contract of a committed membership change: what it was allowed by, and the tables it leaves.
\<close>

definition member_change :: "db \<Rightarrow> uuid \<Rightarrow> uuid \<Rightarrow> uuid \<Rightarrow> string \<Rightarrow> int \<Rightarrow> db \<Rightarrow> bool" where
  "member_change d actor scope target role version d' \<longleftrightarrow>
     (\<exists>current. live_member d scope actor = Some current \<and> Allows (m_role current) ''admin''
       \<and> (role \<noteq> '''' \<longrightarrow> CanAssign (m_role current) role)
       \<and> (m_role (previous_member d scope target) \<noteq> '''' \<longrightarrow> CanAssign (m_role current) (m_role (previous_member d scope target))))
     \<and> open_workspace d scope \<noteq> None
     \<and> m_version (previous_member d scope target) = version \<and> (version = 0 \<longrightarrow> role \<noteq> '''')
     \<and> (m_role (previous_member d scope target) = ''owner'' \<and> role \<noteq> ''owner''
          \<longrightarrow> 1 < cnt (enabled_owner d scope) (memberships d))
     \<and> (version = 0 \<longrightarrow> enabled_user d target \<and> (scope, target) \<notin> set (map (\<lambda>r. (m_workspace r, m_user r)) (memberships d)))
     \<and> memberships d' = members_after scope target role version (next_policy d scope) (memberships d)
     \<and> workspaces d' = bumped scope (workspaces d) \<and> users d' = users d
     \<and> (role \<noteq> '''' \<and> \<not> Allows (m_role (previous_member d scope target)) role
          \<longrightarrow> (\<forall>s \<in> set (sessions d'). s_user s \<noteq> target))
     \<and> (\<exists>r. audit_events d' = audit_events d @ [r] \<and> a_event_type r = ''membership.changed''
          \<and> a_workspace r = scope \<and> (''member_id'', uuid_String target) \<in> set (a_metadata r))"

lemma change_member_effect:
  "vc (change_member_tx clk aid actor scope target role version request)
     (\<lambda>_. member_change d actor scope target role version) d"
  unfolding change_member_tx_def
  by (intro vc_rules) (auto simp: member_change_def previous_member_def absent_member_def)

section \<open>The membership table\<close>

text \<open>
  The table's constraints and the version discipline: one row per workspace and user, a known role,
  and a version between one and the policy version of the row's workspace.
\<close>

definition member_key :: "membership_row \<Rightarrow> uuid \<times> uuid" where
  "member_key m = (m_workspace m, m_user m)"

definition members_wf :: "db \<Rightarrow> bool" where
  "members_wf d \<longleftrightarrow> distinct (map member_key (memberships d)) \<and> distinct (map w_id (workspaces d)) \<and>
     (\<forall>m \<in> set (memberships d). known_role (m_role m) \<and> 0 < m_version m \<and>
        (\<exists>w \<in> set (workspaces d). w_id w = m_workspace m \<and> m_version m \<le> w_policy_version w))"

definition has_owner :: "db \<Rightarrow> uuid \<Rightarrow> bool" where
  "has_owner d w \<longleftrightarrow> (\<exists>m \<in> set (memberships d). enabled_owner d w m)"

lemma enabled_owner_users: "users d' = users d \<Longrightarrow> enabled_owner d' w m = enabled_owner d w m"
  by (simp add: enabled_owner_def enabled_user_def)

lemma live_member_iff:
  assumes "members_wf d"
  shows "live_member d w u = Some m \<longleftrightarrow> m \<in> set (memberships d) \<and> m_workspace m = w \<and> m_user m = u \<and> enabled_user d u"
proof
  assume "m \<in> set (memberships d) \<and> m_workspace m = w \<and> m_user m = u \<and> enabled_user d u"
  then show "live_member d w u = Some m"
    using assms unfolding live_member_def members_wf_def
    by (intro fetch_unique [where k = member_key]) (auto simp: member_key_def)
qed (rule live_member_Some)

lemma w_id_bumped [simp]: "map w_id (bumped scope t) = map w_id t"
  unfolding bumped_def by (rule map_upd_key) simp

lemma bumped_mono:
  assumes "w \<in> set t"
  shows "\<exists>w' \<in> set (bumped scope t). w_id w' = w_id w \<and> w_policy_version w \<le> w_policy_version w'"
proof (cases "w_id w = scope")
  case True
  from in_updI [OF assms, of "\<lambda>w. w_id w = scope", OF True] show ?thesis
    unfolding bumped_def by (rule rev_bexI) simp
next
  case False
  from in_upd_other [OF assms, of "\<lambda>w. w_id w = scope", OF False] show ?thesis
    unfolding bumped_def by (rule rev_bexI) simp
qed

lemma next_policy_bumped:
  assumes "distinct (map w_id (workspaces d))" "w \<in> set (workspaces d)" "w_id w = scope"
  shows "next_policy d scope = w_policy_version w + 1"
    and "\<exists>w' \<in> set (bumped scope (workspaces d)). w_id w' = scope \<and> w_policy_version w' = next_policy d scope"
proof -
  have "fetch (\<lambda>w. w_id w = scope) (workspaces d) = Some w"
    using assms by (intro fetch_unique [where k = w_id]) auto
  then show n: "next_policy d scope = w_policy_version w + 1"
    by (simp add: next_policy_def)
  show "\<exists>w' \<in> set (bumped scope (workspaces d)). w_id w' = scope \<and> w_policy_version w' = next_policy d scope"
    using in_updI [OF assms(2), of "\<lambda>w. w_id w = scope" "\<lambda>w. w\<lparr>w_policy_version := w_policy_version w + 1\<rparr>", OF assms(3)]
    unfolding bumped_def by (rule rev_bexI) (simp add: n assms(3))
qed

text \<open>An owner other than the target survives every change to the target's row.\<close>

lemma other_owner:
  assumes wf: "members_wf d" and own: "has_owner d scope"
    and guard: "m_role (previous_member d scope target) = ''owner'' \<longrightarrow> 1 < cnt (enabled_owner d scope) (memberships d)"
  shows "\<exists>m \<in> set (memberships d). enabled_owner d scope m \<and> m_user m \<noteq> target"
proof (rule ccontr)
  assume "\<not> ?thesis"
  then have only: "m_user m = target" if "m \<in> set (memberships d)" "enabled_owner d scope m" for m
    using that by blast
  from own obtain m where m: "m \<in> set (memberships d)" "enabled_owner d scope m"
    by (auto simp: has_owner_def)
  with only [of m] have "live_member d scope target = Some m"
    using live_member_iff [OF wf] by (auto simp: enabled_owner_def)
  with m guard have "1 < cnt (enabled_owner d scope) (memberships d)"
    by (simp add: previous_member_def enabled_owner_def)
  moreover have "cnt (enabled_owner d scope) (memberships d) \<le> 1"
  proof -
    have "cnt (\<lambda>m. m \<in> set (memberships d) \<and> enabled_owner d scope m) (memberships d) \<le> 1"
      using wf only by (intro cnt_one_fetch [where k = member_key])
        (auto simp: members_wf_def member_key_def enabled_owner_def)
    then show ?thesis by (simp add: cnt_def cong: filter_cong)
  qed
  ultimately show False by simp
qed

lemma members_after_keeps:
  "m \<in> set t \<Longrightarrow> member_key m \<noteq> (scope, target) \<Longrightarrow> m \<in> set (members_after scope target role version revision t)"
  by (auto simp: members_after_def set_upd member_key_def)

lemma members_after_target:
  assumes "version = 0 \<or> (\<exists>m \<in> set t. member_key m = (scope, target))" "role \<noteq> ''''"
  shows "\<exists>m \<in> set (members_after scope target role version revision t).
       member_key m = (scope, target) \<and> m_role m = role \<and> m_version m = revision"
proof (cases "version = 0")
  case True
  then show ?thesis by (simp add: members_after_def member_key_def)
next
  case False
  with assms obtain m where m: "m \<in> set t" "m_workspace m = scope \<and> m_user m = target"
    by (auto simp: member_key_def)
  let ?f = "\<lambda>m. m\<lparr>m_role := role, m_version := revision\<rparr>"
  have "?f m \<in> set (members_after scope target role version revision t)"
    using False assms(2) in_updI [of m t "\<lambda>m. m_workspace m = scope \<and> m_user m = target" ?f, OF m] unfolding members_after_def by simp
  with m(2) show ?thesis by (intro bexI [of _ "?f m"]) (simp_all add: member_key_def)
qed

lemma members_after_cases:
  "m \<in> set (members_after scope target role version revision t) \<Longrightarrow>
     m \<in> set t \<and> member_key m \<noteq> (scope, target) \<or>
     m \<in> set t \<and> version = 0 \<or>
     role \<noteq> '''' \<and> member_key m = (scope, target) \<and> m_role m = role \<and> m_version m = revision \<or>
     version = 0 \<and> m_role m = role \<and> member_key m = (scope, target) \<and> m_version m = revision"
  by (auto simp: members_after_def member_key_def dest!: in_updD split: if_splits)

lemma ChangeMember_cases:
  assumes "ChangeMember n clk aid actor scope target role version request d = (r, d')"
  shows "d' = d \<and> isl r \<or> (role = '''' \<or> known_role role) \<and> member_change d actor scope target role version d'"
  using assms vc_run_tx [OF _ change_member_effect [of clk aid actor scope target role version request d], of WsErrStore WsErrStore n r d']
  by (auto simp: ChangeMember_def Allows_viewer_iff split: if_splits)

lemma known_role_simps [simp]: "known_role '''' = False" "known_role ''owner''" "known_role ''admin''"
  by (simp_all add: known_role_def)

text \<open>Every committed membership change keeps the table well formed.\<close>

lemma members_after_wf:
  assumes wf: "members_wf d" and w: "w \<in> set (workspaces d)" "w_id w = scope"
    and role: "role = '''' \<or> known_role role" and pos: "0 \<le> w_policy_version w"
    and new: "version = 0 \<longrightarrow> role \<noteq> '''' \<and> (scope, target) \<notin> set (map (\<lambda>r. (m_workspace r, m_user r)) (memberships d))"
    and mem: "memberships d' = members_after scope target role version (next_policy d scope) (memberships d)"
    and ws: "workspaces d' = bumped scope (workspaces d)"
  shows "members_wf d'"
proof -
  have dist: "distinct (map w_id (workspaces d))" "distinct (map member_key (memberships d))"
    using wf by (auto simp: members_wf_def)
  have keys: "distinct (map member_key (memberships d'))"
    using dist(2) new unfolding mem members_after_def
    by (auto simp: map_upd_key distinct_map_del member_key_def image_iff)
  have row: "known_role (m_role m) \<and> 0 < m_version m \<and>
      (\<exists>w \<in> set (workspaces d'). w_id w = m_workspace m \<and> m_version m \<le> w_policy_version w)"
    if "m \<in> set (memberships d')" for m
  proof (cases "m \<in> set (memberships d)")
    case True
    with wf obtain w0 where "known_role (m_role m)" "0 < m_version m" "w0 \<in> set (workspaces d)"
      "w_id w0 = m_workspace m" "m_version m \<le> w_policy_version w0"
      by (auto simp: members_wf_def)
    with bumped_mono [of w0 "workspaces d" scope] show ?thesis unfolding ws by fastforce
  next
    case False
    with that have "role \<noteq> ''''" "m_workspace m = scope" "m_role m = role" "m_version m = next_policy d scope"
      using new unfolding mem by (auto dest!: members_after_cases simp: member_key_def)
    with role pos next_policy_bumped [OF dist(1) w] show ?thesis unfolding ws by auto
  qed
  show ?thesis
    using keys row dist(1) by (auto simp: members_wf_def ws)
qed

lemma member_change_wf:
  assumes wf: "members_wf d" and ch: "member_change d actor scope target role version d'"
    and role: "role = '''' \<or> known_role role"
  shows "members_wf d'"
proof -
  from ch obtain current where cur: "live_member d scope actor = Some current"
    by (auto simp: member_change_def)
  with live_member_Some have "current \<in> set (memberships d)" "m_workspace current = scope" by blast+
  with wf obtain w where "w \<in> set (workspaces d)" "w_id w = scope" "0 \<le> w_policy_version w"
    unfolding members_wf_def by fastforce
  with ch wf role show ?thesis
    by (intro members_after_wf [of d w scope role version target d']) (auto simp: member_change_def)
qed

lemma member_change_owner:
  assumes wf: "members_wf d" and own: "has_owner d w" and ch: "member_change d actor scope target role version d'"
  shows "has_owner d' w"
proof -
  have users: "users d' = users d"
    and mem: "memberships d' = members_after scope target role version (next_policy d scope) (memberships d)"
    using ch by (auto simp: member_change_def)
  have keep: "has_owner d' w" if "m \<in> set (memberships d)" "enabled_owner d w m" "member_key m \<noteq> (scope, target)" for m
    using that members_after_keeps [of m "memberships d"] enabled_owner_users [OF users]
    unfolding has_owner_def mem by blast
  show ?thesis
  proof (cases "w = scope \<and> role = ''owner''")
    case True
    from ch have "version = 0 \<or> (\<exists>m \<in> set (memberships d). member_key m = (scope, target))"
      by (auto simp: member_change_def previous_member_def absent_member_def member_key_def
          dest!: live_member_Some split: option.splits)
    with members_after_target True obtain m where m: "m \<in> set (memberships d')" "member_key m = (scope, target)"
      "m_role m = ''owner''"
      unfolding mem by (metis list.distinct(1))
    moreover have "enabled_user d' target"
      using ch users by (auto simp: member_change_def previous_member_def absent_member_def enabled_user_def
          dest!: live_member_Some split: option.splits)
    ultimately show ?thesis
      using True by (auto simp: has_owner_def enabled_owner_def member_key_def)
  next
    case False
    show ?thesis
    proof (cases "w = scope")
      case True
      with False ch have "m_role (previous_member d scope target) = ''owner'' \<longrightarrow> 1 < cnt (enabled_owner d scope) (memberships d)"
        by (auto simp: member_change_def)
      with other_owner [OF wf] own True keep show ?thesis by (auto simp: member_key_def)
    next
      case False
      with own keep show ?thesis by (auto simp: has_owner_def enabled_owner_def member_key_def)
    qed
  qed
qed

section \<open>Transfer, grants and invitations\<close>

text \<open>A committed transfer: the target owns the workspace, the actor keeps or gives up ownership.\<close>

definition transferred :: "db \<Rightarrow> uuid \<Rightarrow> uuid \<Rightarrow> uuid \<Rightarrow> int \<Rightarrow> int \<Rightarrow> bool \<Rightarrow> db \<Rightarrow> bool" where
  "transferred d actor scope target actorVersion targetVersion demote d' \<longleftrightarrow>
     (\<exists>caller member. live_member d scope actor = Some caller \<and> m_role caller = ''owner'' \<and> m_version caller = actorVersion
        \<and> live_member d scope target = Some member \<and> m_version member = targetVersion
        \<and> (m_role member \<noteq> ''owner'' \<longrightarrow> (\<forall>s \<in> set (sessions d'). s_user s \<noteq> target)))
     \<and> (let t = members_after scope target ''owner'' 1 (next_policy d scope) (memberships d) in
        memberships d' = (if demote then members_after scope actor ''admin'' 1 (next_policy d scope) t else t))
     \<and> workspaces d' = bumped scope (workspaces d) \<and> users d' = users d"

lemma rank_owner: "rank r = 4 \<longleftrightarrow> r = ''owner''" "rank r \<le> 4" "0 \<le> rank r"
  by (auto simp: rank_def)

lemma Allows_owner_iff: "Allows r ''owner'' \<longleftrightarrow> r = ''owner''"
  using rank_owner [of r] by (auto simp: Allows_def rank_def)

lemma transfer_effect:
  "vc (transfer_tx clk aid1 aid2 actor scope target actorVersion targetVersion demote request)
     (\<lambda>_. transferred d actor scope target actorVersion targetVersion demote) d"
  unfolding transfer_tx_def
  by (intro vc_rules) (auto simp: transferred_def update_member_def members_after_def Allows_owner_iff split: if_splits)

lemma transferred_owner:
  assumes wf: "members_wf d" and own: "has_owner d w" and ne: "actor \<noteq> target"
    and tr: "transferred d actor scope target actorVersion targetVersion demote d'"
  shows "has_owner d' w"
proof -
  let ?t = "members_after scope target ''owner'' 1 (next_policy d scope) (memberships d)"
  have users: "users d' = users d"
    and mem: "memberships d' = (if demote then members_after scope actor ''admin'' 1 (next_policy d scope) ?t else ?t)"
    using tr by (auto simp: transferred_def Let_def)
  obtain member where member: "member \<in> set (memberships d)" "member_key member = (scope, target)" "enabled_user d target"
    using tr by (auto simp: transferred_def member_key_def dest!: live_member_Some)
  show ?thesis
  proof (cases "w = scope")
    case True
    obtain m where m: "m \<in> set ?t" "member_key m = (scope, target)" "m_role m = ''owner''"
      using members_after_target [of 1 "memberships d" scope target "''owner''" "next_policy d scope"] member by fastforce
    moreover have "m \<in> set (memberships d')"
      using m ne members_after_keeps [of m ?t scope actor] by (auto simp: mem)
    ultimately show ?thesis
      using True member(3) by (auto simp: has_owner_def enabled_owner_def member_key_def enabled_user_def users)
  next
    case False
    from own obtain m where m: "m \<in> set (memberships d)" "enabled_owner d w m" by (auto simp: has_owner_def)
    with False have "member_key m \<noteq> (scope, target)" "member_key m \<noteq> (scope, actor)"
      by (auto simp: enabled_owner_def member_key_def)
    with m members_after_keeps have "m \<in> set (memberships d')" by (simp add: mem)
    with m enabled_owner_users [OF users] show ?thesis by (auto simp: has_owner_def)
  qed
qed

text \<open>
  The contract of \<open>SetGrant\<close>: either the request is refused, with the refusal audited and no
  authority changed, or the stored grant is exactly the requested one and lies within both ceilings.
\<close>

definition grant_refused :: "db \<Rightarrow> uuid \<Rightarrow> db \<Rightarrow> bool" where
  "grant_refused d scope d' \<longleftrightarrow> grants d' = grants d \<and> memberships d' = memberships d \<and> workspaces d' = workspaces d \<and> users d' = users d
     \<and> (\<exists>r. audit_events d' = audit_events d @ [r] \<and> a_event_type r = ''connection.grants_denied'' \<and> a_workspace r = scope)"

definition grants_after :: "uuid \<Rightarrow> uuid \<Rightarrow> uuid \<Rightarrow> string list \<Rightarrow> grant_row list \<Rightarrow> grant_row list" where
  "grants_after scope connection target actions t =
     (if fetch (\<lambda>g. g_workspace g = scope \<and> g_connection g = connection \<and> g_user g = target) t = None
      then t @ [\<lparr>g_workspace = scope, g_connection = connection, g_user = target, g_actions = actions\<rparr>]
      else upd (\<lambda>g. g_workspace g = scope \<and> g_connection g = connection \<and> g_user g = target) (\<lambda>g. g\<lparr>g_actions := actions\<rparr>) t)"

definition grant_changed :: "db \<Rightarrow> uuid \<Rightarrow> uuid \<Rightarrow> uuid \<Rightarrow> uuid \<Rightarrow> string list \<Rightarrow> db \<Rightarrow> bool" where
  "grant_changed d actor scope connection target actions d' \<longleftrightarrow>
     (\<exists>current member. live_member d scope actor = Some current \<and> Allows (m_role current) ''admin''
        \<and> live_member d scope target = Some member \<and> CanAssign (m_role current) (m_role member)
        \<and> (\<forall>a \<in> set actions. WithinCeiling (m_role member) a
             \<and> (m_role current = ''admin'' \<longrightarrow> (\<exists>g. grant_of d scope connection actor = Some g \<and> a \<in> set (g_actions g)))))
     \<and> grants d' = grants_after scope connection target actions (grants d) \<and> memberships d' = memberships d
     \<and> workspaces d' = bumped scope (workspaces d) \<and> users d' = users d
     \<and> (\<exists>r. audit_events d' = audit_events d @ [r] \<and> a_event_type r = ''connection.grants_changed'' \<and> a_workspace r = scope)"

lemma upsert_grant_Some:
  "upsert_grant \<lparr>g_workspace = scope, g_connection = connection, g_user = target, g_actions = actions\<rparr> d = Some d' \<Longrightarrow>
     d' = d\<lparr>grants := grants_after scope connection target actions (grants d)\<rparr>"
  by (auto simp: upsert_grant_def grants_after_def grant_of_def split: if_splits)

lemma grant_deniedD:
  "\<not> grant_denied role target_role own actions \<Longrightarrow> CanAssign role target_role \<and>
     (\<forall>a \<in> set actions. WithinCeiling target_role a \<and> (role = ''admin'' \<longrightarrow> a \<in> set own))"
  by (auto simp: grant_denied_def list_ex_iff)

definition grant_outcome :: "db \<Rightarrow> uuid \<Rightarrow> uuid \<Rightarrow> uuid \<Rightarrow> uuid \<Rightarrow> string list \<Rightarrow> err option \<Rightarrow> db \<Rightarrow> bool" where
  "grant_outcome d actor scope connection target actions r d' = (case r of
       None \<Rightarrow> grant_changed d actor scope connection target actions d' | Some e \<Rightarrow> grant_refused d scope d')"

lemma vc_deny_grant [vc_rules]: "vc (deny_grant_tx clk aid actor scope connection target request e)
    (grant_outcome d actor scope connection target actions) d"
  unfolding deny_grant_tx_def by (intro vc_rules) (simp add: grant_outcome_def grant_refused_def)

lemma vc_apply_grant [vc_rules]:
  assumes "live_member d scope actor = Some current" "Allows (m_role current) ''admin''" "live_member d scope target = Some member"
  shows "vc (apply_grant_tx clk aid actor scope connection target actions request (m_role current) (m_role member))
    (grant_outcome d actor scope connection target actions) d"
  unfolding apply_grant_tx_def Let_def
  by (intro vc_rules) (use assms in \<open>auto simp: grant_outcome_def grant_refused_def grant_changed_def
      dest!: upsert_grant_Some grant_deniedD split: option.splits\<close>)

lemma set_grant_effect:
  "vc (set_grant_tx clk aid actor scope connection target actions request)
     (grant_outcome d actor scope connection target actions) d"
  unfolding set_grant_tx_def by (intro vc_rules) auto

end
