(* ===== verification/Sama_Review.thy ===== *)
theory Sama_Review
  imports Sama_OpState Sama_Intent Sama_Identity Sama_Workspace
begin

text \<open>
  Package \<^verbatim>\<open>operation\<close>, from a request to an accepted operation: the authority a decision rests on and the
  review of fresh preconditions (\<^verbatim>\<open>review.go\<close>), the idempotent lookup (\<^verbatim>\<open>idempotency.go\<close>) and the acceptance
  (\<^verbatim>\<open>accept.go\<close>).

  A handler that calls the provider does so between two transactions. It is modelled as its parts and
  as their composition, where \<open>between\<close> is what other transactions did to the database meanwhile. The
  provider is a function \<open>reader\<close> of the binding, the action and the native identifier, as it answers at
  the time of the call; \<open>admit\<close> says whether the shared outbound budget lets the call through.
\<close>

section \<open>The service\<close>

record preconditions =
  pc_Fingerprint :: string
  pc_TargetName :: string
  pc_Allowed :: bool
  pc_HighImpact :: bool

type_synonym reader = "binding \<Rightarrow> string \<Rightarrow> string \<Rightarrow> err + preconditions"

text \<open>
  \<open>sv_factories\<close>: the review factories by key; a factory answers with a reader, with none, or with an error.
\<close>

record service =
  sv_crypto :: crypto
  sv_policy :: "policy option"
  sv_sessions :: bool
  sv_enabled :: bool
  sv_factories :: "(string \<times> (binding \<Rightarrow> err + reader option)) list"

section \<open>Authority\<close>

record authority =
  au_binding :: binding
  au_provider :: string
  au_scope :: string
  au_native :: string
  au_name :: string
  au_role :: string
  au_kind :: string
  au_grants :: "string list"
  au_verified :: "string list"
  au_policy :: int
  au_account :: string

text \<open>The sync run that published the resource's generation.\<close>

definition published :: "db \<Rightarrow> resource_row \<Rightarrow> bool" where
  "published d r \<longleftrightarrow> (\<exists>y \<in> set (sync_runs d). sy_workspace y = r_workspace r \<and> sy_connection y = r_connection r \<and> sy_scope y = r_scope r
     \<and> sy_generation y = r_generation r \<and> sy_status y = ''succeeded'' \<and> sy_resource_type y = r_type r)"

text \<open>The join of the authority query: resource, connection, member, grant and live credential.\<close>

definition authority_join :: "db \<Rightarrow> uuid \<Rightarrow> uuid \<Rightarrow> uuid
    \<Rightarrow> (workspace_row \<times> resource_row \<times> connection_row \<times> membership_row \<times> grant_row \<times> int) option" where
  "authority_join d actor scope target =
     Option.bind (fetch (\<lambda>w. w_id w = scope) (workspaces d)) (\<lambda>w.
     Option.bind (fetch (\<lambda>r. r_workspace r = scope \<and> r_id r = target \<and> r_tombstoned_at r = None \<and> published d r) (resources d)) (\<lambda>r.
     Option.bind (fetch (\<lambda>c. c_workspace c = scope \<and> c_id c = r_connection r \<and> c_status c = ''active'') (connections d)) (\<lambda>c.
     Option.bind (live_member d scope actor) (\<lambda>m.
     Option.bind (fetch (\<lambda>g. g_workspace g = scope \<and> g_connection g = c_id c \<and> g_user g = actor \<and> ''read'' \<in> set (g_actions g)) (grants d)) (\<lambda>g.
     map_option (\<lambda>v. (w, r, c, m, g, v)) (live_credential d c))))))"

definition authority :: "service \<Rightarrow> uuid \<Rightarrow> uuid \<Rightarrow> uuid \<Rightarrow> authority dbtx" where
  "authority s actor scope target =
     tx_bind (query_row WsErrNotFound WsErrNotFound (\<lambda>d. open_workspace d scope)) (\<lambda>_.
     tx_bind (query_row WsErrNotFound OpErrStore (\<lambda>d. authority_join d actor scope target)) (\<lambda>(w, r, c, m, g, v).
     case NewBinding scope (c_id c) (c_api_family c) v of
       None \<Rightarrow> tx_raise OpErrStore
     | Some b \<Rightarrow> tx_ret \<lparr>au_binding = b, au_provider = c_provider c, au_scope = r_scope r, au_native = r_native_id r,
         au_name = r_name r, au_role = m_role m, au_kind = r_type r, au_grants = g_actions g,
         au_verified = (if c_permissions_verified_at c = None then [] else c_verified_capabilities c),
         au_policy = policyVersion (sv_crypto s) (sv_policy s) (w_policy_version w), au_account = c_account_identity c\<rparr>))"

definition action_class :: "string \<Rightarrow> bool \<Rightarrow> string" where
  "action_class action high = (if high \<or> snapshotAction action then ''high_impact'' else ''operate'')"

definition authorized :: "authority \<Rightarrow> string \<Rightarrow> bool \<Rightarrow> bool" where
  "authorized a action high \<longleftrightarrow> au_kind a = targetType action \<and> WithinCeiling (au_role a) (action_class action high)
     \<and> action_class action high \<in> set (au_grants a) \<and> action \<in> set (au_verified a)"

section \<open>Inspection\<close>

text \<open>
  \<^verbatim>\<open>unicode.IsControl\<close> over the runes, on the bytes: C0 and DEL are single bytes, C1 is the byte \<^verbatim>\<open>C2\<close>
  followed by \<^verbatim>\<open>80\<close> to \<^verbatim>\<open>9F\<close>, and \<^verbatim>\<open>C2\<close> never continues a rune.
\<close>

fun control_bytes :: "nat list \<Rightarrow> bool" where
  "control_bytes [] = False"
| "control_bytes [b] = (b < 32 \<or> b = 127)"
| "control_bytes (b # c # r) = (b < 32 \<or> b = 127 \<or> b = 194 \<and> 128 \<le> c \<and> c \<le> 159 \<or> control_bytes (c # r))"

definition stringsHaveControl :: "string \<Rightarrow> bool" where
  "stringsHaveControl s = control_bytes (map of_char s)"

definition family_key :: "authority \<Rightarrow> string" where
  "family_key a = au_provider a @ ''/'' @ bi_family (au_binding a)"

definition inspect :: "service \<Rightarrow> (uuid \<Rightarrow> string \<Rightarrow> bool) \<Rightarrow> authority \<Rightarrow> op_intent \<Rightarrow> err + preconditions" where
  "inspect s admit a i =
     (if \<not> sv_enabled s then Inl OpErrUnsupported
      else (case map_of (sv_factories s) (factoryKey (family_key a) (in_Action i)) of
        None \<Rightarrow> Inl OpErrUnsupported
      | Some factory \<Rightarrow>
          if sv_policy s \<noteq> None \<and> \<not> permits (sv_policy s) (family_key a) (in_Action i) then Inl OpErrUnsupported
          else (case factory (au_binding a) of
            Inr (Some reader) \<Rightarrow>
              (if \<not> admit (bi_connection (au_binding a)) (quotaKey (sv_crypto s) (au_provider a) (bi_family (au_binding a)) (au_account a))
               then Inl OpErrProvider
               else (case reader (au_binding a) (in_Action i) (au_native a) of
                 Inl _ \<Rightarrow> Inl OpErrProvider
               | Inr p \<Rightarrow>
                   if snapshotAction (in_Action i) \<and> \<not> pc_HighImpact p then Inl OpErrProvider
                   else if \<not> pc_Allowed p \<or> pc_Fingerprint p = replicate 32 (CHR 0x00) then Inl OpErrStale
                   else if pc_TargetName p = [] \<or> runes (pc_TargetName p) = None \<or> length (the (runes (pc_TargetName p))) > 200
                     \<or> stringsHaveControl (pc_TargetName p) then Inl OpErrProvider
                   else Inr p))
          | _ \<Rightarrow> Inl OpErrProvider)))"

section \<open>Prepare\<close>

record review =
  rv_ID :: uuid
  rv_ResourceID :: uuid
  rv_Action :: string
  rv_TargetName :: string
  rv_HighImpact :: bool
  rv_ExpiresAt :: time

definition review_insert_ok :: "db \<Rightarrow> review_row \<Rightarrow> bool" where
  "review_insert_ok d r \<longleftrightarrow> ar_id r \<notin> set (map ar_id (reviews d)) \<and> ar_actor r \<in> set (map u_id (users d))
     \<and> resource_of d (ar_workspace r) (ar_connection r) (ar_resource r) \<noteq> None
     \<and> (\<exists>v \<in> set (credential_versions d). v_workspace v = ar_workspace r \<and> v_connection v = ar_connection r \<and> v_version v = ar_credential_version r)
     \<and> ar_action r \<in> set known_actions \<and> ar_intent r = encode_intent \<lparr>in_Action = ar_action r, in_Parameters = True\<rparr>
     \<and> length (ar_intent_hash r) = 32 \<and> length (ar_precondition_hash r) = 32 \<and> 0 < ar_credential_version r \<and> 0 < ar_policy_version r
     \<and> bigint_ok (ar_policy_version r) \<and> ar_created_at r < ar_expires_at r \<and> ar_expires_at r \<le> ar_created_at r + 5 * minute + 5 * second"

definition insert_review :: "review_row \<Rightarrow> db \<Rightarrow> db option" where
  "insert_review r d = (if review_insert_ok d r then Some (d\<lparr>reviews := reviews d @ [r]\<rparr>) else None)"

text \<open>The first transaction: read the authority and roll back.\<close>

definition prepare_begin :: "service \<Rightarrow> net \<Rightarrow> principal \<Rightarrow> uuid \<Rightarrow> uuid \<Rightarrow> op_intent \<Rightarrow> db \<Rightarrow> err + authority" where
  "prepare_begin s n p scope target i d =
     (case run_read OpErrStore n (authority s (pr_UserID p) scope target) d of
       Inl e \<Rightarrow> Inl e
     | Inr a \<Rightarrow> if \<not> authorized a (in_Action i) False \<and> \<not> authorized a (in_Action i) True then Inl OpErrDenied else Inr a)"

definition prepare_tx :: "service \<Rightarrow> time \<Rightarrow> principal \<Rightarrow> uuid \<Rightarrow> uuid \<Rightarrow> op_intent \<Rightarrow> authority \<Rightarrow> preconditions \<Rightarrow> uuid \<Rightarrow> string \<Rightarrow> time \<Rightarrow> review dbtx" where
  "prepare_tx s clk p scope target i a pre rid hash expires =
     tx_bind (authority s (pr_UserID p) scope target) (\<lambda>current.
     if bi_version (au_binding current) \<noteq> bi_version (au_binding a) \<or> au_policy current \<noteq> au_policy a
        \<or> \<not> authorized current (in_Action i) (pc_HighImpact pre) then tx_raise OpErrStale
     else tx_bind (query OpErrStore (\<lambda>d. cnt (\<lambda>r. ar_workspace r = scope \<and> ar_consumed_by r = None \<and> ar_expires_at r > clk) (reviews d))) (\<lambda>count.
     if count \<ge> 100 then tx_raise OpErrConflict
     else tx_bind (exec OpErrStore (insert_review \<lparr>ar_id = rid, ar_workspace = scope, ar_actor = pr_UserID p,
         ar_connection = bi_connection (au_binding a), ar_resource = target, ar_action = in_Action i, ar_intent = encode_intent i,
         ar_intent_hash = hash, ar_precondition_hash = pc_Fingerprint pre, ar_credential_version = bi_version (au_binding a),
         ar_policy_version = au_policy a, ar_high_impact = pc_HighImpact pre, ar_target_name = pc_TargetName pre,
         ar_expires_at = expires, ar_created_at = clk, ar_consumed_by = None\<rparr>)) (\<lambda>_.
     tx_ret \<lparr>rv_ID = rid, rv_ResourceID = target, rv_Action = in_Action i, rv_TargetName = pc_TargetName pre,
       rv_HighImpact = pc_HighImpact pre, rv_ExpiresAt = expires\<rparr>)))"

definition Prepare :: "service \<Rightarrow> net \<Rightarrow> net \<Rightarrow> (uuid \<Rightarrow> string \<Rightarrow> bool) \<Rightarrow> (db \<Rightarrow> db) \<Rightarrow> time \<Rightarrow> time \<Rightarrow> uuid option
    \<Rightarrow> principal \<Rightarrow> uuid \<Rightarrow> uuid \<Rightarrow> op_intent \<Rightarrow> db \<Rightarrow> (err + review) \<times> db" where
  "Prepare s n1 n2 admit between clk now rid p scope target i d =
     (if isl (Validate i) then (Inl OpErrInvalid, d)
      else (case prepare_begin s n1 p scope target i d of
        Inl e \<Rightarrow> (Inl e, d)
      | Inr a \<Rightarrow> (case inspect s admit a i of
          Inl e \<Rightarrow> (Inl e, between d)
        | Inr pre \<Rightarrow>
            if pc_HighImpact pre \<and> (\<not> sv_sessions s \<or> isl (RequireRecent now p)) then (Inl IdErrRecentRequired, between d)
            else (case rid of None \<Rightarrow> (Inl OpErrStore, between d)
              | Some r \<Rightarrow> (case Digest (sv_crypto s) i scope (pr_UserID p) (bi_connection (au_binding a)) target r of
                  Inl e \<Rightarrow> (Inl e, between d)
                | Inr hash \<Rightarrow> run_tx OpErrStore OpErrStore n2
                    (prepare_tx s clk p scope target i a pre r hash (now + 5 * minute)) (between d))))))"

section \<open>The stored review\<close>

record stored =
  st_target :: uuid
  st_connection :: uuid
  st_intent :: op_intent
  st_encoded :: json
  st_hash :: string
  st_preconditions :: string
  st_credential :: int
  st_policy :: int
  st_high :: bool
  st_name :: string
  st_expiry :: time
  st_consumed :: "uuid option"

text \<open>The bytes PostgreSQL prints for the stored document, counted.\<close>

definition intent_length :: "json \<Rightarrow> nat" where
  "intent_length j = (case j of JObj [(_, JStr a), _] \<Rightarrow> 32 + length a | _ \<Rightarrow> 0)"

definition load :: "uuid \<Rightarrow> uuid \<Rightarrow> uuid \<Rightarrow> stored dbtx" where
  "load actor scope rid =
     tx_bind (query_row WsErrNotFound OpErrStore (\<lambda>d. fetch (\<lambda>r. ar_workspace r = scope \<and> ar_actor r = actor \<and> ar_id r = rid) (reviews d))) (\<lambda>r.
     case DecodeIntent (intent_length (ar_intent r)) (Some (ar_intent r)) of
       Inl _ \<Rightarrow> tx_raise OpErrStore
     | Inr i \<Rightarrow> tx_ret \<lparr>st_target = ar_resource r, st_connection = ar_connection r, st_intent = i, st_encoded = ar_intent r,
         st_hash = ar_intent_hash r, st_preconditions = ar_precondition_hash r, st_credential = ar_credential_version r,
         st_policy = ar_policy_version r, st_high = ar_high_impact r, st_name = ar_target_name r, st_expiry = ar_expires_at r,
         st_consumed = ar_consumed_by r\<rparr>)"

record confirmation =
  cf_ReviewID :: uuid
  cf_Confirmed :: bool
  cf_TypedTarget :: string

definition check :: "service \<Rightarrow> time \<Rightarrow> principal \<Rightarrow> authority \<Rightarrow> stored \<Rightarrow> confirmation \<Rightarrow> err + unit" where
  "check s now p a r c =
     (if st_consumed r \<noteq> None \<or> \<not> st_expiry r > now \<or> st_connection r \<noteq> bi_connection (au_binding a)
         \<or> st_credential r \<noteq> bi_version (au_binding a) \<or> st_policy r \<noteq> au_policy a then Inl OpErrStale
      else if \<not> authorized a (in_Action (st_intent r)) (st_high r) then Inl OpErrDenied
      else if st_high r \<and> cf_TypedTarget c \<noteq> st_name r then Inl OpErrInvalid
      else if st_high r \<and> (\<not> sv_sessions s \<or> isl (RequireRecent now p)) then Inl IdErrRecentRequired
      else Inr ())"

section \<open>Idempotent resolution\<close>

record accepted =
  ac_ID :: uuid
  ac_State :: op_state

definition resolve_row :: "db \<Rightarrow> uuid \<Rightarrow> uuid \<Rightarrow> string \<Rightarrow> operation_row option" where
  "resolve_row d scope actor key = (if open_workspace d scope = None \<or> live_member d scope actor = None then None
     else fetch (\<lambda>p. o_workspace p = scope \<and> o_actor p = actor \<and> o_idempotency_key p = key
       \<and> (\<exists>g \<in> set (grants d). g_workspace g = scope \<and> g_connection g = o_connection p \<and> g_user g = actor \<and> ''read'' \<in> set (g_actions g)))
       (operations d))"

definition Resolve :: "uuid \<Rightarrow> uuid \<Rightarrow> string \<Rightarrow> string \<Rightarrow> accepted option dbtx" where
  "Resolve scope actor key hash =
     (if \<not> ValidKey key then tx_raise OpErrInvalid
      else tx_bind (query OpErrStore (\<lambda>d. resolve_row d scope actor key)) (\<lambda>r.
      case r of None \<Rightarrow> tx_ret None
      | Some p \<Rightarrow> if o_intent_hash p \<noteq> hash then tx_raise OpErrConflict else tx_ret (Some \<lparr>ac_ID = o_id p, ac_State = o_state p\<rparr>)))"

section \<open>Confirm\<close>

definition operation_insert_ok :: "db \<Rightarrow> operation_row \<Rightarrow> bool" where
  "operation_insert_ok d p \<longleftrightarrow> o_id p \<notin> set (map o_id (operations d)) \<and> o_actor p \<in> set (map u_id (users d))
     \<and> resource_of d (o_workspace p) (o_connection p) (o_resource p) \<noteq> None
     \<and> (\<exists>r \<in> set (reviews d). ar_workspace r = o_workspace p \<and> ar_connection r = o_connection p \<and> ar_id r = o_review p)
     \<and> (\<exists>v \<in> set (credential_versions d). v_workspace v = o_workspace p \<and> v_connection v = o_connection p \<and> v_version v = o_credential_version p)
     \<and> \<not> (\<exists>q \<in> set (operations d). o_workspace q = o_workspace p \<and> o_actor q = o_actor p \<and> o_idempotency_key q = o_idempotency_key p)
     \<and> \<not> (\<exists>q \<in> set (operations d). o_workspace q = o_workspace p \<and> o_review q = o_review p)
     \<and> o_intent p = encode_intent \<lparr>in_Action = o_action p, in_Parameters = True\<rparr> \<and> length (o_intent_hash p) = 32
     \<and> 1 \<le> length (o_idempotency_key p) \<and> length (o_idempotency_key p) \<le> 128 \<and> o_created_at p < o_deadline p"

definition insert_operation :: "operation_row \<Rightarrow> db \<Rightarrow> db option" where
  "insert_operation p d = (if operation_insert_ok d p then Some (d\<lparr>operations := operations d @ [p]\<rparr>) else None)"

text \<open>\<^verbatim>\<open>UPDATE action_reviews SET consumed_by\<close> under the trigger that lets it be set once.\<close>

definition consume_review :: "uuid \<Rightarrow> uuid \<Rightarrow> db \<Rightarrow> db option" where
  "consume_review rid oid d =
     (if \<exists>r \<in> set (reviews d). ar_id r = rid \<and> ar_consumed_by r \<noteq> None \<and> ar_consumed_by r \<noteq> Some oid then None
      else Some (d\<lparr>reviews := upd (\<lambda>r. ar_id r = rid) (\<lambda>r. r\<lparr>ar_consumed_by := Some oid\<rparr>) (reviews d)\<rparr>))"

text \<open>Generated identifiers of an acceptance: operation, job, event and audit event.\<close>

record accept_ids =
  ai_operation :: "uuid option"
  ai_job :: "uuid option"
  ai_event :: "uuid option"
  ai_audit :: "uuid option"

definition new_operation :: "time \<Rightarrow> uuid \<Rightarrow> uuid \<Rightarrow> uuid \<Rightarrow> string \<Rightarrow> string \<Rightarrow> uuid \<Rightarrow> stored \<Rightarrow> time \<Rightarrow> operation_row" where
  "new_operation clk i scope actor key hash rid r deadline = \<lparr>o_id = i, o_workspace = scope, o_actor = actor,
     o_connection = st_connection r, o_resource = st_target r, o_action = in_Action (st_intent r), o_intent = st_encoded r,
     o_intent_hash = hash, o_idempotency_key = key, o_review = rid, o_credential_version = st_credential r,
     o_policy_version = st_policy r, o_state = Queued, o_version = 1, o_event_sequence = 1, o_deadline = deadline,
     o_created_at = clk, o_updated_at = clk, o_reference = None\<rparr>"

text \<open>The writes of an acceptance, in their order.\<close>

definition accept_tx :: "time \<Rightarrow> time \<Rightarrow> accept_ids \<Rightarrow> principal \<Rightarrow> uuid \<Rightarrow> string \<Rightarrow> string \<Rightarrow> confirmation \<Rightarrow> stored \<Rightarrow> authority \<Rightarrow> string \<Rightarrow> accepted dbtx" where
  "accept_tx clk now ids p scope key hash c r current request = (case (ai_operation ids, ai_job ids) of
       (Some i, Some jobID) \<Rightarrow>
         (let deadline = now + 30 * minute in
          tx_bind (exec OpErrStore (insert_operation (new_operation clk i scope (pr_UserID p) key hash (cf_ReviewID c) r deadline))) (\<lambda>_.
          tx_bind (Reserve scope (st_connection r) i [\<lparr>rt_Kind = ''resource'', rt_Scope = au_scope current, rt_NativeID = au_native current\<rparr>]) (\<lambda>_.
          tx_bind (tx_as OpErrStore (InsertOperation clk \<lparr>jr_Operation = i, jr_ID = jobID, jr_Workspace = scope, jr_Connection = st_connection r,
              jr_Type = ''operation_dispatch'', jr_PayloadVersion = 3, jr_Deadline = deadline\<rparr>)) (\<lambda>_.
          tx_bind (exec OpErrStore (consume_review (cf_ReviewID c) i)) (\<lambda>_.
          tx_bind (tx_as OpErrStore (AppendEvent clk (ai_event ids) scope i 1 None Queued)) (\<lambda>_.
          case ai_audit ids of None \<Rightarrow> tx_raise OpErrStore
          | Some aid \<Rightarrow>
              tx_bind (tx_as OpErrStore (Append clk (user_event aid scope (pr_UserID p) ''operation.accepted'' request
                [(''operation_id'', uuid_String i), (''resource_id'', uuid_String (st_target r))]))) (\<lambda>_.
              tx_ret \<lparr>ac_ID = i, ac_State = Queued\<rparr>)))))))
     | _ \<Rightarrow> tx_raise OpErrStore)"

definition queue_full :: "db \<Rightarrow> uuid \<Rightarrow> bool option" where
  "queue_full d scope = map_option (\<lambda>w. int (cnt (\<lambda>j. j_workspace j = scope \<and> (j_state j = JQueued \<or> j_state j = JRunning)) (jobs d)) \<ge> w_queue_limit w)
     (fetch (\<lambda>w. w_id w = scope) (workspaces d))"

text \<open>The first transaction of \<open>Confirm\<close>: an earlier acceptance, or the authority to go on with.\<close>

definition confirm_begin :: "service \<Rightarrow> time \<Rightarrow> principal \<Rightarrow> uuid \<Rightarrow> string \<Rightarrow> confirmation \<Rightarrow> (accepted + (stored \<times> string \<times> authority)) dbtx" where
  "confirm_begin s now p scope key c =
     tx_bind (query_row WsErrNotFound WsErrNotFound (\<lambda>d. open_workspace d scope)) (\<lambda>_.
     tx_bind (load (pr_UserID p) scope (cf_ReviewID c)) (\<lambda>r.
     case Digest (sv_crypto s) (st_intent r) scope (pr_UserID p) (st_connection r) (st_target r) (cf_ReviewID c) of
       Inl _ \<Rightarrow> tx_raise OpErrStale
     | Inr hash \<Rightarrow>
         if hash \<noteq> st_hash r then tx_raise OpErrStale
         else tx_bind (Resolve scope (pr_UserID p) key hash) (\<lambda>found.
         case found of Some result \<Rightarrow> tx_ret (Inl result)
         | None \<Rightarrow>
             tx_bind (authority s (pr_UserID p) scope (st_target r)) (\<lambda>a.
             case check s now p a r c of Inl e \<Rightarrow> tx_raise e | Inr _ \<Rightarrow> tx_ret (Inr (r, hash, a))))))"

definition confirm_tx :: "service \<Rightarrow> time \<Rightarrow> time \<Rightarrow> accept_ids \<Rightarrow> principal \<Rightarrow> uuid \<Rightarrow> string \<Rightarrow> confirmation \<Rightarrow> string \<Rightarrow> string \<Rightarrow> preconditions \<Rightarrow> (bool \<times> accepted) dbtx" where
  "confirm_tx s clk now ids p scope key c request hash pre =
     tx_bind (query_row WsErrNotFound WsErrNotFound (\<lambda>d. open_workspace d scope)) (\<lambda>_.
     tx_bind (Resolve scope (pr_UserID p) key hash) (\<lambda>found.
     case found of Some result \<Rightarrow> tx_ret (False, result)
     | None \<Rightarrow>
     tx_bind (load (pr_UserID p) scope (cf_ReviewID c)) (\<lambda>r.
     tx_bind (authority s (pr_UserID p) scope (st_target r)) (\<lambda>current.
     case check s now p current r c of Inl e \<Rightarrow> tx_raise e
     | Inr _ \<Rightarrow>
     if hash \<noteq> st_hash r \<or> pc_Fingerprint pre \<noteq> st_preconditions r then tx_raise OpErrStale
     else tx_bind (query_row OpErrStore OpErrStore (\<lambda>d. queue_full d scope)) (\<lambda>full.
     if full then tx_raise OpErrQuota
     else tx_bind (accept_tx clk now ids p scope key hash c r current request) (\<lambda>result. tx_ret (True, result)))))))"

definition Confirm :: "service \<Rightarrow> net \<Rightarrow> net \<Rightarrow> (uuid \<Rightarrow> string \<Rightarrow> bool) \<Rightarrow> (db \<Rightarrow> db) \<Rightarrow> time \<Rightarrow> time \<Rightarrow> accept_ids
    \<Rightarrow> principal \<Rightarrow> uuid \<Rightarrow> string \<Rightarrow> confirmation \<Rightarrow> string \<Rightarrow> db \<Rightarrow> (err + accepted) \<times> db" where
  "Confirm s n1 n2 admit between clk now ids p scope key c request d =
     (if \<not> ValidKey key \<or> uuid_version (cf_ReviewID c) \<noteq> 7 \<or> \<not> cf_Confirmed c then (Inl OpErrInvalid, d)
      else (case run_read OpErrStore n1 (confirm_begin s now p scope key c) d of
        Inl e \<Rightarrow> (Inl e, d)
      | Inr (Inl result) \<Rightarrow> (Inr result, d)
      | Inr (Inr (r, hash, a)) \<Rightarrow> (case inspect s admit a (st_intent r) of
          Inl e \<Rightarrow> (Inl e, between d)
        | Inr pre \<Rightarrow>
            if pc_Fingerprint pre \<noteq> st_preconditions r \<or> pc_HighImpact pre \<noteq> st_high r \<or> pc_TargetName pre \<noteq> st_name r
            then (Inl OpErrStale, between d)
            else run_tx_if OpErrStore OpErrStore n2 (confirm_tx s clk now ids p scope key c request hash pre) (between d))))"

section \<open>What the reads establish\<close>

text \<open>The authority the database grants at this moment.\<close>

definition has_authority :: "service \<Rightarrow> db \<Rightarrow> uuid \<Rightarrow> uuid \<Rightarrow> uuid \<Rightarrow> authority \<Rightarrow> bool" where
  "has_authority s d actor scope target a \<longleftrightarrow> open_workspace d scope \<noteq> None \<and>
     (\<exists>w r c m g v b. authority_join d actor scope target = Some (w, r, c, m, g, v) \<and> NewBinding scope (c_id c) (c_api_family c) v = Some b
        \<and> a = \<lparr>au_binding = b, au_provider = c_provider c, au_scope = r_scope r, au_native = r_native_id r,
         au_name = r_name r, au_role = m_role m, au_kind = r_type r, au_grants = g_actions g,
         au_verified = (if c_permissions_verified_at c = None then [] else c_verified_capabilities c),
         au_policy = policyVersion (sv_crypto s) (sv_policy s) (w_policy_version w), au_account = c_account_identity c\<rparr>)"

definition stored_of :: "review_row \<Rightarrow> op_intent \<Rightarrow> stored" where
  "stored_of r i = \<lparr>st_target = ar_resource r, st_connection = ar_connection r, st_intent = i, st_encoded = ar_intent r,
     st_hash = ar_intent_hash r, st_preconditions = ar_precondition_hash r, st_credential = ar_credential_version r,
     st_policy = ar_policy_version r, st_high = ar_high_impact r, st_name = ar_target_name r, st_expiry = ar_expires_at r,
     st_consumed = ar_consumed_by r\<rparr>"

definition has_review :: "db \<Rightarrow> uuid \<Rightarrow> uuid \<Rightarrow> uuid \<Rightarrow> stored \<Rightarrow> bool" where
  "has_review d actor scope rid st \<longleftrightarrow> (\<exists>r i. fetch (\<lambda>r. ar_workspace r = scope \<and> ar_actor r = actor \<and> ar_id r = rid) (reviews d) = Some r
     \<and> DecodeIntent (intent_length (ar_intent r)) (Some (ar_intent r)) = Inr i \<and> st = stored_of r i)"

lemma vc_authority [vc_rules]:
  "(\<And>a. has_authority s d actor scope target a \<Longrightarrow> Q a d) \<Longrightarrow> vc (authority s actor scope target) Q d"
  unfolding authority_def by (intro vc_rules) (auto simp: has_authority_def)

lemma vc_load [vc_rules]: "(\<And>st. has_review d actor scope rid st \<Longrightarrow> Q st d) \<Longrightarrow> vc (load actor scope rid) Q d"
  unfolding load_def by (intro vc_rules) (auto simp: has_review_def stored_of_def)

lemma vc_Resolve [vc_rules]:
  "(resolve_row d scope actor key = None \<Longrightarrow> Q None d) \<Longrightarrow>
   (\<And>p. resolve_row d scope actor key = Some p \<Longrightarrow> o_intent_hash p = hash \<Longrightarrow> Q (Some \<lparr>ac_ID = o_id p, ac_State = o_state p\<rparr>) d) \<Longrightarrow>
   vc (Resolve scope actor key hash) Q d"
  unfolding Resolve_def by (intro vc_rules) auto

lemma vc_InsertOperation [vc_rules]:
  "(\<And>d'. insert_job (new_job clk record (Some (jr_Operation record)) None) d = Some d' \<Longrightarrow> Q () d') \<Longrightarrow> vc (InsertOperation clk record) Q d"
  unfolding InsertOperation_def by (intro vc_rules) auto

lemma insert_job_Some: "insert_job r d = Some d' \<Longrightarrow> d' = d\<lparr>jobs := jobs d @ [r]\<rparr> \<and> job_row_check r \<and> j_id r \<notin> set (map j_id (jobs d))"
  by (auto simp: insert_job_def split: if_splits)

lemma has_authority_resource:
  "has_authority s d actor scope target a \<Longrightarrow> \<exists>r \<in> set (resources d). r_workspace r = scope \<and> r_id r = target
     \<and> r_connection r = bi_connection (au_binding a) \<and> au_scope a = r_scope r \<and> au_native a = r_native_id r"
  by (auto simp: has_authority_def authority_join_def NewBinding_def bind_eq_Some_conv dest!: fetch_Some split: if_splits)

section \<open>Acceptance\<close>

text \<open>
  What a committed acceptance adds: one queued operation with its first event, the reservation of its
  target and its job, one audit event; and the review is consumed by it.
\<close>

definition acceptance :: "time \<Rightarrow> time \<Rightarrow> uuid \<Rightarrow> principal \<Rightarrow> uuid \<Rightarrow> string \<Rightarrow> string \<Rightarrow> confirmation \<Rightarrow> stored \<Rightarrow> db \<Rightarrow> db \<Rightarrow> bool" where
  "acceptance clk now i p scope key hash c r d d' \<longleftrightarrow>
     (let op = new_operation clk i scope (pr_UserID p) key hash (cf_ReviewID c) r (now + 30 * minute) in
      operation_insert_ok d op \<and> operations d' = operations d @ [op] \<and> resources d' = resources d
      \<and> users d' = users d \<and> workspaces d' = workspaces d \<and> memberships d' = memberships d \<and> grants d' = grants d
      \<and> (\<exists>eid. events d' = events d @ [new_event clk eid None Queued (op\<lparr>o_event_sequence := 0\<rparr>)])
      \<and> (\<exists>j. jobs d' = jobs d @ [j] \<and> j_operation j = Some i \<and> j_state j = JQueued \<and> j_workspace j = scope \<and> j_deadline j = now + 30 * minute)
      \<and> reviews d' = upd (\<lambda>r. ar_id r = cf_ReviewID c) (\<lambda>r. r\<lparr>ar_consumed_by := Some i\<rparr>) (reviews d)
      \<and> (\<exists>a. audit_events d' = audit_events d @ [a] \<and> a_event_type a = ''operation.accepted'' \<and> a_workspace a = scope)
      \<and> (\<exists>l. locks d' = locks d @ [l] \<and> lock_for d' op l \<and> lock_holder l = (scope, i) \<and> lock_target l \<notin> set (map lock_target (locks d))
          \<and> (scope, i) \<notin> set (map lock_holder (locks d))))"

lemma op_inv_acceptance:
  assumes inv: "op_inv d" and acc: "acceptance clk now i p scope key hash c r d d'"
  shows "op_inv d'"
proof -
  let ?op = "new_operation clk i scope (pr_UserID p) key hash (cf_ReviewID c) r (now + 30 * minute)"
  from acc obtain eid l where ok: "operation_insert_ok d ?op" and ops: "operations d' = operations d @ [?op]" and res: "resources d' = resources d"
    and ev: "events d' = events d @ [new_event clk eid None Queued (?op\<lparr>o_event_sequence := 0\<rparr>)]"
    and lk: "locks d' = locks d @ [l]" "lock_for d' ?op l" "lock_holder l = (scope, i)" "lock_target l \<notin> set (map lock_target (locks d))"
      "(scope, i) \<notin> set (map lock_holder (locks d))"
    by (auto simp: acceptance_def Let_def)
  have opid: "o_id ?op = i" "o_workspace ?op = scope" "o_state ?op = Queued" "o_event_sequence ?op = 1" by (simp_all add: new_operation_def)
  have fresh: "i \<notin> set (map o_id (operations d))" using ok by (simp add: operation_insert_ok_def opid)
  have noev: "e_operation e \<noteq> i" if "e \<in> set (events d)" for e
    using inv that fresh by (force simp: op_inv_def op_at_def)
  have new: "events_of d' ?op = [new_event clk eid None Queued (?op\<lparr>o_event_sequence := 0\<rparr>)]"
    using noev by (auto simp: events_of_def ev opid filter_empty_conv new_event_def)
  have "log_ok d' ?op" by (simp add: log_ok_def new opid)
  moreover have "log_ok d' q" if "q \<in> set (operations d)" for q
  proof -
    have "o_id q \<noteq> i" using that fresh by auto
    then have "events_of d' q = events_of d q" by (simp add: events_of_def ev) (simp add: new_operation_def)
    with inv that show ?thesis by (simp add: op_inv_def log_ok_def)
  qed
  moreover have "\<exists>q \<in> set (operations d'). op_at (e_workspace e) (e_operation e) q" if "e \<in> set (events d')" for e
    using that inv by (auto simp: ev ops op_inv_def op_at_def new_operation_def)
  moreover have "\<exists>q \<in> set (operations d'). lock_for d' q k" if "k \<in> set (locks d')" for k
    using that inv lk(1,2) by (auto simp: ops res op_inv_def lock_for_def)
  moreover have "\<exists>k \<in> set (locks d'). lock_holder k = (o_workspace q, o_id q)" if "q \<in> set (operations d')" "in_flight (o_state q)" for q
    using that inv lk by (auto simp: ops opid op_inv_def)
  ultimately show ?thesis
    using inv fresh lk by (simp add: op_inv_def ops res opid)
qed

lemma vc_accept:
  assumes inv: "op_inv d" and auth: "has_authority s d (pr_UserID p) scope (st_target r) current" and conn: "st_connection r = bi_connection (au_binding current)"
    and Q: "\<And>i d'. acceptance clk now i p scope key hash c r d d' \<Longrightarrow> ai_operation ids = Some i \<Longrightarrow> Q \<lparr>ac_ID = i, ac_State = Queued\<rparr> d'"
  shows "vc (accept_tx clk now ids p scope key hash c r current request) Q d"
  unfolding accept_tx_def Let_def
proof (intro vc_rules)
  fix o1 o2 i jid d1 op res fence d2 d3 d4 event d5 aid arow
  let ?op = "new_operation clk i scope (pr_UserID p) key hash (cf_ReviewID c) r (now + 30 * minute)"
  let ?t = "\<lparr>rt_Kind = ''resource'', rt_Scope = au_scope current, rt_NativeID = au_native current\<rparr>"
  assume ids: "(ai_operation ids, ai_job ids) = (o1, o2)" "o1 = Some i" "o2 = Some jid"
    and ins: "insert_operation ?op d = Some d1"
    and op: "op \<in> set (operations d1)" "op_at scope i op"
    and rs: "res \<in> set (resources d1)" "r_workspace res = scope" "r_connection res = st_connection r" "r_id res = o_resource op"
    and tgt: "rt_Kind ?t = ''resource'' \<Longrightarrow> r_scope res = rt_Scope ?t \<and> r_native_id res = rt_NativeID ?t"
    and rr: "reserve_result d1 scope (st_connection r) i ?t (r_type res) fence d2"
    and job: "insert_job (new_job clk \<lparr>jr_Operation = i, jr_ID = jid, jr_Workspace = scope, jr_Connection = st_connection r,
              jr_Type = ''operation_dispatch'', jr_PayloadVersion = 3, jr_Deadline = now + 30 * minute\<rparr>
              (Some (jr_Operation \<lparr>jr_Operation = i, jr_ID = jid, jr_Workspace = scope, jr_Connection = st_connection r,
              jr_Type = ''operation_dispatch'', jr_PayloadVersion = 3, jr_Deadline = now + 30 * minute\<rparr>)) None) d2 = Some d3"
    and cons: "consume_review (cf_ReviewID c) i d3 = Some d4"
    and ev: "d5 = d4\<lparr>events := events d4 @ [\<lparr>e_id = event, e_workspace = scope, e_operation = i, e_sequence = 1, e_from = None, e_to = Queued, e_created_at = clk\<rparr>]\<rparr>"
    and au: "arow = audit_row_of clk (user_event aid scope (pr_UserID p) ''operation.accepted'' request
                [(''operation_id'', uuid_String i), (''resource_id'', uuid_String (st_target r))])
          (ev_Metadata (user_event aid scope (pr_UserID p) ''operation.accepted'' request
                [(''operation_id'', uuid_String i), (''resource_id'', uuid_String (st_target r))]))"
  have d1: "d1 = d\<lparr>operations := operations d @ [?op]\<rparr>" and ok: "operation_insert_ok d ?op"
    using ins by (auto simp: insert_operation_def split: if_splits)
  have opid: "o_id ?op = i" "o_workspace ?op = scope" "o_resource ?op = st_target r" "o_connection ?op = st_connection r" "o_state ?op = Queued"
    by (simp_all add: new_operation_def)
  have fresh: "i \<notin> set (map o_id (operations d))" using ok by (simp add: operation_insert_ok_def opid)
  have op': "op = ?op" using op fresh by (auto simp: d1 op_at_def)
  have nolock: "lock_holder k \<noteq> (scope, i)" if "k \<in> set (locks d)" for k
    using inv that fresh by (force simp: op_inv_def lock_for_def op_at_def lock_holder_def)
  then have nl: "(scope, i) \<notin> set (map lock_holder (locks d))" by force
  let ?l = "(reserve_lock scope (st_connection r) i ?t (r_type res))\<lparr>l_fence := fence\<rparr>"
  have l: "lock_holder ?l = (scope, i)" "l_target_kind ?l = ''resource''" "l_resource_type ?l = r_type res" "l_scope ?l = r_scope res"
    "l_native_id ?l = r_native_id res" "l_workspace ?l = scope" "l_operation ?l = i" "l_connection ?l = st_connection r" "lock_target ?l = lock_target (reserve_lock scope (st_connection r) i ?t (r_type res))"
    using tgt by (simp_all add: lock_holder_def reserve_lock_def lock_target_def)
  have d2: "d2 = d1\<lparr>locks := locks d @ [?l], lock_counter := lock_counter d + 1\<rparr>" "lock_target ?l \<notin> set (map lock_target (locks d))"
    using rr nolock unfolding reserve_result_def holds_target_def
    by (auto simp: d1 lock_holder_def lock_target_def reserve_lock_def)
  have d3: "jobs d3 = jobs d @ [new_job clk \<lparr>jr_Operation = i, jr_ID = jid, jr_Workspace = scope, jr_Connection = st_connection r,
      jr_Type = ''operation_dispatch'', jr_PayloadVersion = 3, jr_Deadline = now + 30 * minute\<rparr> (Some i) None]"
    "locks d3 = locks d @ [?l]" "operations d3 = operations d @ [?op]" "events d3 = events d" "reviews d3 = reviews d" "resources d3 = resources d" "audit_events d3 = audit_events d"
    "users d3 = users d" "workspaces d3 = workspaces d" "memberships d3 = memberships d" "grants d3 = grants d"
    using insert_job_Some [OF job] by (simp_all add: d2(1) d1)
  have d4: "d4 = d3\<lparr>reviews := upd (\<lambda>r. ar_id r = cf_ReviewID c) (\<lambda>r. r\<lparr>ar_consumed_by := Some i\<rparr>) (reviews d3)\<rparr>"
    using cons by (auto simp: consume_review_def split: if_splits)
  have lf: "lock_for d' ?op ?l" if "resources d' = resources d" for d'
    using rs l op' that by (auto simp: lock_for_def opid op_at_def op_terminal_def d1 intro!: bexI [of _ res])
  have "acceptance clk now i p scope key hash c r d (d5\<lparr>audit_events := audit_events d5 @ [arow]\<rparr>)"
    unfolding acceptance_def Let_def
    using ok d2(2) nl l(1) lf
    by (auto simp: ev d4 d3 au new_event_def opid new_job_def audit_row_of_def user_event_def intro!: exI [of _ ?l])
  then show "Q \<lparr>ac_ID = i, ac_State = Queued\<rparr> (d5\<lparr>audit_events := audit_events d5 @ [arow]\<rparr>)"
    using ids Q by blast
qed

section \<open>Confirmation\<close>

text \<open>
  What the second transaction of \<open>Confirm\<close> establishes when it commits: the review is read and the
  authority checked again in that transaction, and only then is the operation accepted.
\<close>

definition confirmed :: "service \<Rightarrow> time \<Rightarrow> time \<Rightarrow> principal \<Rightarrow> uuid \<Rightarrow> string \<Rightarrow> confirmation \<Rightarrow> string \<Rightarrow> preconditions \<Rightarrow> db \<Rightarrow> uuid \<Rightarrow> db \<Rightarrow> bool" where
  "confirmed s clk now p scope key c hash pre d i d' \<longleftrightarrow>
     (\<exists>r a. has_review d (pr_UserID p) scope (cf_ReviewID c) r \<and> has_authority s d (pr_UserID p) scope (st_target r) a
        \<and> check s now p a r c = Inr () \<and> hash = st_hash r \<and> pc_Fingerprint pre = st_preconditions r \<and> queue_full d scope = Some False
        \<and> resolve_row d scope (pr_UserID p) key = None \<and> acceptance clk now i p scope key hash c r d d')"

lemma check_Inr:
  "check s now p a r c = Inr u \<longleftrightarrow> st_consumed r = None \<and> now < st_expiry r \<and> st_connection r = bi_connection (au_binding a)
     \<and> st_credential r = bi_version (au_binding a) \<and> st_policy r = au_policy a \<and> authorized a (in_Action (st_intent r)) (st_high r)
     \<and> (st_high r \<longrightarrow> cf_TypedTarget c = st_name r \<and> sv_sessions s \<and> RequireRecent now p = Inr ())"
  by (cases "RequireRecent now p") (auto simp: check_def)

definition confirm_post :: "service \<Rightarrow> time \<Rightarrow> time \<Rightarrow> principal \<Rightarrow> uuid \<Rightarrow> string \<Rightarrow> confirmation \<Rightarrow> string \<Rightarrow> preconditions \<Rightarrow> db \<Rightarrow> bool \<times> accepted \<Rightarrow> db \<Rightarrow> bool" where
  "confirm_post s clk now p scope key c hash pre d res d' \<longleftrightarrow> (case res of
       (False, acc) \<Rightarrow> d' = d \<and> (\<exists>q. resolve_row d scope (pr_UserID p) key = Some q \<and> acc = \<lparr>ac_ID = o_id q, ac_State = o_state q\<rparr>)
     | (True, acc) \<Rightarrow> ac_State acc = Queued \<and> confirmed s clk now p scope key c hash pre d (ac_ID acc) d')"

lemma vc_confirm_tx:
  assumes inv: "op_inv d"
  shows "vc (confirm_tx s clk now ids p scope key c request hash pre) (confirm_post s clk now p scope key c hash pre d) d"
  unfolding confirm_tx_def
  by (intro vc_rules vc_accept [OF inv]; (assumption | simp add: check_Inr; fail | (simp add: confirm_post_def confirmed_def; blast)))

lemma Confirm_cases:
  assumes inv: "op_inv (between d)" and run: "Confirm s n1 n2 admit between clk now ids p scope key c request d = (res, d')"
    and new: "operations d' \<noteq> operations d" "operations d' \<noteq> operations (between d)"
  obtains r a pre i where "has_review d (pr_UserID p) scope (cf_ReviewID c) r"
    "Digest (sv_crypto s) (st_intent r) scope (pr_UserID p) (st_connection r) (st_target r) (cf_ReviewID c) = Inr (st_hash r)"
    "inspect s admit a (st_intent r) = Inr pre" "pc_HighImpact pre = st_high r" "pc_TargetName pre = st_name r"
    "pc_Fingerprint pre = st_preconditions r"
    "ValidKey key" "uuid_version (cf_ReviewID c) = 7" "cf_Confirmed c"
    "confirmed s clk now p scope key c (st_hash r) pre (between d) i d'"
    "res = Inr \<lparr>ac_ID = i, ac_State = Queued\<rparr> \<or> res = Inl OpErrStore"
proof -
  have post: "vc (confirm_begin s now p scope key c) (\<lambda>x _. case x of Inl _ \<Rightarrow> True | Inr (r, hash, a) \<Rightarrow>
      has_review d (pr_UserID p) scope (cf_ReviewID c) r \<and> hash = st_hash r
      \<and> Digest (sv_crypto s) (st_intent r) scope (pr_UserID p) (st_connection r) (st_target r) (cf_ReviewID c) = Inr hash) d"
    unfolding confirm_begin_def by (intro vc_rules) auto
  from run new obtain r hash a pre where b: "run_read OpErrStore n1 (confirm_begin s now p scope key c) d = Inr (Inr (r, hash, a))"
    and g: "ValidKey key" "uuid_version (cf_ReviewID c) = 7" "cf_Confirmed c"
    and i: "inspect s admit a (st_intent r) = Inr pre" "pc_HighImpact pre = st_high r" "pc_TargetName pre = st_name r"
      "pc_Fingerprint pre = st_preconditions r"
    and t: "run_tx_if OpErrStore OpErrStore n2 (confirm_tx s clk now ids p scope key c request hash pre) (between d) = (res, d')"
    unfolding Confirm_def by (auto split: if_splits sum.splits)
  have h: "has_review d (pr_UserID p) scope (cf_ReviewID c) r" "hash = st_hash r"
      "Digest (sv_crypto s) (st_intent r) scope (pr_UserID p) (st_connection r) (st_target r) (cf_ReviewID c) = Inr hash"
    using b by (auto elim!: run_read_Inr dest!: vcD [OF post])
  from vc_run_tx_if [OF t vc_confirm_tx [OF inv]] new
  obtain x where "confirm_post s clk now p scope key c hash pre (between d) (True, x) d'" "res = Inr x \<or> res = Inl OpErrStore"
    by auto
  then have "confirmed s clk now p scope key c hash pre (between d) (ac_ID x) d'" "res = Inr \<lparr>ac_ID = ac_ID x, ac_State = Queued\<rparr> \<or> res = Inl OpErrStore"
    by (auto simp: confirm_post_def)
  with that h g i show thesis by simp
qed

lemma Confirm_unchanged:
  assumes inv: "op_inv (between d)" and run: "Confirm s n1 n2 admit between clk now ids p scope key c request d = (res, d')"
  shows "d' = d \<or> d' = between d \<or> (\<exists>i r hash. acceptance clk now i p scope key hash c r (between d) d')"
  using run unfolding Confirm_def
  by (auto split: if_splits sum.splits dest!: vc_run_tx_if [OF _ vc_confirm_tx [OF inv]] simp: confirm_post_def confirmed_def)

section \<open>Properties\<close>

text \<open>A stored review is never rewritten; it can only be consumed.\<close>

definition review_frozen :: "uuid \<Rightarrow> uuid \<Rightarrow> uuid \<Rightarrow> db \<Rightarrow> db \<Rightarrow> bool" where
  "review_frozen actor scope rid d d' \<longleftrightarrow>
     (let stored = (\<lambda>d. map_option (\<lambda>r. r\<lparr>ar_consumed_by := None\<rparr>) (fetch (\<lambda>r. ar_workspace r = scope \<and> ar_actor r = actor \<and> ar_id r = rid) (reviews d)))
      in stored d' = stored d)"

lemma has_review_frozen:
  assumes "has_review d actor scope rid st" "has_review d' actor scope rid st'" "review_frozen actor scope rid d d'"
  shows "st' = st\<lparr>st_consumed := st_consumed st'\<rparr>"
proof -
  from assms(1,2) obtain r i r' i' where r: "fetch (\<lambda>r. ar_workspace r = scope \<and> ar_actor r = actor \<and> ar_id r = rid) (reviews d) = Some r"
      "DecodeIntent (intent_length (ar_intent r)) (Some (ar_intent r)) = Inr i" "st = stored_of r i"
    and r': "fetch (\<lambda>r. ar_workspace r = scope \<and> ar_actor r = actor \<and> ar_id r = rid) (reviews d') = Some r'"
      "DecodeIntent (intent_length (ar_intent r')) (Some (ar_intent r')) = Inr i'" "st' = stored_of r' i'"
    unfolding has_review_def by blast
  have "r'\<lparr>ar_consumed_by := None\<rparr> = r\<lparr>ar_consumed_by := None\<rparr>"
    using assms(3) by (simp add: review_frozen_def r(1) r'(1))
  then have "ar_resource r' = ar_resource r \<and> ar_connection r' = ar_connection r \<and> ar_intent r' = ar_intent r
      \<and> ar_intent_hash r' = ar_intent_hash r \<and> ar_precondition_hash r' = ar_precondition_hash r
      \<and> ar_credential_version r' = ar_credential_version r \<and> ar_policy_version r' = ar_policy_version r
      \<and> ar_high_impact r' = ar_high_impact r \<and> ar_target_name r' = ar_target_name r \<and> ar_expires_at r' = ar_expires_at r"
    by (cases r; cases r') simp
  with r r' show ?thesis by (simp add: stored_of_def)
qed

lemma load_live:
  "has_review d actor scope rid st \<Longrightarrow> load actor scope rid \<lparr>t_db = d, t_left = None\<rparr> = (Inr st, \<lparr>t_db = d, t_left = None\<rparr>)"
  unfolding load_def has_review_def stored_of_def by (auto simp: tx_live tx_ret_def)

lemma has_review_acceptance:
  assumes "has_review d actor scope rid st" "acceptance clk now i p scope key hash c r d d'" "cf_ReviewID c = rid"
  shows "has_review d' actor scope rid (st\<lparr>st_consumed := Some i\<rparr>)"
proof -
  have f: "fetch (\<lambda>r. ar_workspace r = scope \<and> ar_actor r = actor \<and> ar_id r = rid) (reviews d')
      = map_option (\<lambda>r. if ar_id r = rid then r\<lparr>ar_consumed_by := Some i\<rparr> else r) (fetch (\<lambda>r. ar_workspace r = scope \<and> ar_actor r = actor \<and> ar_id r = rid) (reviews d))"
    using assms(2,3) unfolding acceptance_def Let_def by (simp add: fetch_upd)
  from assms(1) obtain q ia where q: "fetch (\<lambda>r. ar_workspace r = scope \<and> ar_actor r = actor \<and> ar_id r = rid) (reviews d) = Some q"
      "DecodeIntent (intent_length (ar_intent q)) (Some (ar_intent q)) = Inr ia" "st = stored_of q ia"
    unfolding has_review_def by blast
  then show ?thesis unfolding has_review_def f
    by (intro exI [of _ "q\<lparr>ar_consumed_by := Some i\<rparr>"] exI [of _ ia]) (auto simp: stored_of_def dest!: fetch_Some)
qed

lemma resolve_accepted:
  assumes auth: "has_authority s d (pr_UserID p) scope (st_target r) a" and conn: "st_connection r = bi_connection (au_binding a)"
    and acc: "acceptance clk now i p scope key hash c r d d'"
  shows "resolve_row d' scope (pr_UserID p) key = Some (new_operation clk i scope (pr_UserID p) key hash (cf_ReviewID c) r (now + 30 * minute))"
proof -
  let ?op = "new_operation clk i scope (pr_UserID p) key hash (cf_ReviewID c) r (now + 30 * minute)"
  have same: "open_workspace d' = open_workspace d" "live_member d' = live_member d" "grants d' = grants d"
    and ops: "operations d' = operations d @ [?op]"
    and no: "\<not> (\<exists>q \<in> set (operations d). o_workspace q = scope \<and> o_actor q = pr_UserID p \<and> o_idempotency_key q = key)"
    using acc unfolding acceptance_def Let_def
    by (auto simp: open_workspace_def live_member_def enabled_user_def operation_insert_ok_def fun_eq_iff) (auto simp: new_operation_def)
  from auth obtain m g where m: "live_member d scope (pr_UserID p) = Some m" "open_workspace d scope \<noteq> None"
    and g: "g \<in> set (grants d)" "g_workspace g = scope" "g_connection g = st_connection r" "g_user g = pr_UserID p" "''read'' \<in> set (g_actions g)"
    unfolding has_authority_def authority_join_def conn NewBinding_def by (auto simp: bind_eq_Some_conv dest!: fetch_Some split: if_splits)
  have "fetch (\<lambda>q. o_workspace q = scope \<and> o_actor q = pr_UserID p \<and> o_idempotency_key q = key
       \<and> (\<exists>g \<in> set (grants d). g_workspace g = scope \<and> g_connection g = o_connection q \<and> g_user g = pr_UserID p \<and> ''read'' \<in> set (g_actions g)))
       (operations d) = None"
    using no by (auto simp: fetch_None)
  then show ?thesis using m g unfolding resolve_row_def same ops
    by (auto simp: fetch_append) (auto simp: new_operation_def)
qed


text \<open>
  C5: Confirming is idempotent: once an operation was accepted for a key, repeating the same confirmation answers with that
  operation and changes nothing, at any later time and with any generated identifiers, also when the first caller never
  learnt of the commit (\<open>OpErrStore\<close>) and when the provider would now refuse.
\<close>

theorem confirm_retry_is_idempotent:
  assumes inv: "op_inv (between d)" and run: "Confirm s n1 n2 admit between clk now ids p scope key c request d = (res, d')"
    and new: "operations d' \<noteq> operations d" "operations d' \<noteq> operations (between d)"
    and frozen: "review_frozen (pr_UserID p) scope (cf_ReviewID c) d (between d)"
  shows "\<exists>acc. (res = Inr acc \<or> res = Inl OpErrStore)
     \<and> Confirm s good_net n2' admit' between' clk' now' ids' p scope key c request' d' = (Inr acc, d')"
proof (rule Confirm_cases [OF inv run new])
  fix r0 a0 pre i
  assume r0: "has_review d (pr_UserID p) scope (cf_ReviewID c) r0"
      "Digest (sv_crypto s) (st_intent r0) scope (pr_UserID p) (st_connection r0) (st_target r0) (cf_ReviewID c) = Inr (st_hash r0)"
    and conf: "confirmed s clk now p scope key c (st_hash r0) pre (between d) i d'"
    and res: "res = Inr \<lparr>ac_ID = i, ac_State = Queued\<rparr> \<or> res = Inl OpErrStore"
    and ok: "ValidKey key" "uuid_version (cf_ReviewID c) = 7" "cf_Confirmed c"
  from conf obtain r a where r: "has_review (between d) (pr_UserID p) scope (cf_ReviewID c) r" "has_authority s (between d) (pr_UserID p) scope (st_target r) a"
      "check s now p a r c = Inr ()" and acc: "acceptance clk now i p scope key (st_hash r0) c r (between d) d'"
    unfolding confirmed_def by blast
  let ?r = "r\<lparr>st_consumed := Some i\<rparr>" and ?s = "\<lparr>t_db = d', t_left = None\<rparr>"
  have same: "st_intent ?r = st_intent r0 \<and> st_connection ?r = st_connection r0 \<and> st_target ?r = st_target r0 \<and> st_hash ?r = st_hash r0"
    using has_review_frozen [OF r0(1) r(1) frozen] by (cases r; cases r0) simp
  have ld: "load (pr_UserID p) scope (cf_ReviewID c) ?s = (Inr ?r, ?s)"
    by (rule load_live [OF has_review_acceptance [OF r(1) acc refl]])
  have conn: "st_connection r = bi_connection (au_binding a)" using r(3) by (simp add: check_Inr)
  note rs = resolve_accepted [OF r(2) conn acc]
  have op: "open_workspace d' scope \<noteq> None" using rs by (auto simp: resolve_row_def split: if_splits)
  have "Resolve scope (pr_UserID p) key (st_hash r0) ?s = (Inr (Some \<lparr>ac_ID = i, ac_State = Queued\<rparr>), ?s)"
    using ok(1) rs by (simp add: Resolve_def tx_live tx_ret_def new_operation_def)
  then have "run_read OpErrStore good_net (confirm_begin s now' p scope key c) d' = Inr (Inl \<lparr>ac_ID = i, ac_State = Queued\<rparr>)"
    using op ld same r0(2) by (auto simp: confirm_begin_def run_read_live tx_live tx_ret_def)
  then show ?thesis using ok res by (auto simp: Confirm_def)
qed

text \<open>A workspace whose operator reviewed the reboot of a published server.\<close>

definition example_reader :: reader where
  "example_reader = (\<lambda>b action native. Inr \<lparr>pc_Fingerprint = replicate 32 CHR ''f'', pc_TargetName = ''web'', pc_Allowed = True, pc_HighImpact = False\<rparr>)"

definition example_service :: service where
  "example_service = \<lparr>sv_crypto = example_crypto, sv_policy = None, sv_sessions = True, sv_enabled = True,
     sv_factories = [(''hetzner/hcloud'', \<lambda>b. Inr (Some example_reader))]\<rparr>"

definition example_principal :: principal where
  "example_principal = \<lparr>pr_UserID = v7 4, pr_AuthenticatedAt = 0, pr_CSRFHash = [], pr_Reauthenticated = True\<rparr>"

definition example_scope :: db where
  "example_scope = empty_db\<lparr>users := [\<lparr>u_id = v7 4, u_issuer = ''iss'', u_subject = ''sub'', u_display_name = ''n'', u_disabled_at = None\<rparr>],
     workspaces := [\<lparr>w_id = v7 1, w_name = ''w'', w_policy_version = 1, w_closed_at = None, w_queue_limit = 10, w_audit_retention_days = 30\<rparr>],
     memberships := [\<lparr>m_workspace = v7 1, m_user = v7 4, m_role = ''operator'', m_version = 1\<rparr>],
     connections := [\<lparr>c_id = v7 2, c_workspace = v7 1, c_provider = ''hetzner'', c_api_family = ''hcloud'', c_account_identity = ''acc'', c_region_policy = [],
       c_label = ''l'', c_status = ''active'', c_active_version = Some 1, c_permissions_verified_at = Some 0,
       c_verified_capabilities = [''compute.server.reboot'']\<rparr>],
     credential_versions := [\<lparr>v_workspace = v7 1, v_connection = v7 2, v_version = 1, v_ciphertext = ''c'', v_nonce = ''n'', v_wrapped_data_key = ''w'', v_wrapping_nonce = ''x'', v_encryption_format = 1,
       v_master_key_id = ''k'', v_revoked_at = None\<rparr>],
     grants := [\<lparr>g_workspace = v7 1, g_connection = v7 2, g_user = v7 4, g_actions = [''read'', ''operate'']\<rparr>],
     sync_runs := [\<lparr>sy_id = v7 71, sy_workspace = v7 1, sy_connection = v7 2, sy_resource_type = ''compute.server'', sy_scope = ''account'',
       sy_generation = v7 70, sy_generation_number = 1, sy_status = ''succeeded'', sy_page_count = 1, sy_started_at = Some 0,
       sy_completed_at = Some 0, sy_actor = None, sy_scan_complete = True, sy_credential_version = Some 1, sy_failure_code = None\<rparr>],
     resources := [example_resource]\<rparr>"

definition example_reviewed :: db where
  "example_reviewed = snd (Prepare example_service good_net good_net (\<lambda>_ _. True) (\<lambda>d. d) 0 0 (Some (v7 6)) example_principal (v7 1) (v7 3) example_intent example_scope)"

definition example_confirmation :: confirmation where
  "example_confirmation = \<lparr>cf_ReviewID = v7 6, cf_Confirmed = True, cf_TypedTarget = []\<rparr>"

definition example_accept_ids :: accept_ids where
  "example_accept_ids = \<lparr>ai_operation = Some (v7 5), ai_job = Some (v7 7), ai_event = Some (v7 50), ai_audit = Some (v7 51)\<rparr>"

definition example_confirm :: "net \<Rightarrow> (err + accepted) \<times> db" where
  "example_confirm n = Confirm example_service good_net n (\<lambda>_ _. True) (\<lambda>d. d) minute minute example_accept_ids example_principal (v7 1) ''key''
     example_confirmation ''r1'' example_reviewed"

text \<open>The row a review is stored as.\<close>

definition prepared :: "service \<Rightarrow> time \<Rightarrow> time \<Rightarrow> uuid \<Rightarrow> principal \<Rightarrow> uuid \<Rightarrow> uuid \<Rightarrow> op_intent \<Rightarrow> binding \<Rightarrow> int \<Rightarrow> preconditions \<Rightarrow> string \<Rightarrow> review_row" where
  "prepared s clk now rid p scope target i b pol pre hash = \<lparr>ar_id = rid, ar_workspace = scope, ar_actor = pr_UserID p,
     ar_connection = bi_connection b, ar_resource = target, ar_action = in_Action i, ar_intent = encode_intent i,
     ar_intent_hash = hash, ar_precondition_hash = pc_Fingerprint pre, ar_credential_version = bi_version b,
     ar_policy_version = pol, ar_high_impact = pc_HighImpact pre, ar_target_name = pc_TargetName pre,
     ar_expires_at = now + 5 * minute, ar_created_at = clk, ar_consumed_by = None\<rparr>"

text \<open>
  C14: A review is stored only for what the provider answered just before and only under an authority that did not
  change while it was asked: the same credential and policy version in both transactions, sufficient for the
  action and impact, a recent login for a high-impact one, and fewer than 100 open reviews in the workspace. It
  expires after five minutes, starts unconsumed, and nothing else is written.
\<close>

theorem review_is_fresh_and_bound:
  assumes run: "Prepare s n1 n2 admit between clk now rid p scope target i d = (res, d')"
    and new: "reviews d' \<noteq> reviews d" "reviews d' \<noteq> reviews (between d)"
  shows "\<exists>a a' pre r hash. rid = Some r \<and> has_authority s d (pr_UserID p) scope target a \<and> has_authority s (between d) (pr_UserID p) scope target a'
     \<and> bi_version (au_binding a') = bi_version (au_binding a) \<and> au_policy a' = au_policy a \<and> authorized a' (in_Action i) (pc_HighImpact pre)
     \<and> inspect s admit a i = Inr pre \<and> (pc_HighImpact pre \<longrightarrow> RequireRecent now p = Inr ())
     \<and> Digest (sv_crypto s) i scope (pr_UserID p) (bi_connection (au_binding a)) target r = Inr hash
     \<and> cnt (\<lambda>q. ar_workspace q = scope \<and> ar_consumed_by q = None \<and> ar_expires_at q > clk) (reviews (between d)) < 100
     \<and> d' = (between d)\<lparr>reviews := reviews (between d) @ [prepared s clk now r p scope target i (au_binding a) (au_policy a) pre hash]\<rparr>
     \<and> r \<notin> set (map ar_id (reviews (between d)))"
proof -
  have first: "vc (authority s (pr_UserID p) scope target) (\<lambda>a _. has_authority s d (pr_UserID p) scope target a) d"
    by (intro vc_rules)
  from run new obtain a pre r hash where a: "run_read OpErrStore n1 (authority s (pr_UserID p) scope target) d = Inr a"
    and i: "inspect s admit a i = Inr pre" and rec: "pc_HighImpact pre \<longrightarrow> RequireRecent now p = Inr ()" and r: "rid = Some r"
    and h: "Digest (sv_crypto s) i scope (pr_UserID p) (bi_connection (au_binding a)) target r = Inr hash"
    and t: "run_tx OpErrStore OpErrStore n2 (prepare_tx s clk p scope target i a pre r hash (now + 5 * minute)) (between d) = (res, d')"
    unfolding Prepare_def prepare_begin_def by (cases "RequireRecent now p") (auto split: if_splits sum.splits option.splits)
  have ha: "has_authority s d (pr_UserID p) scope target a" using a by (auto elim!: run_read_Inr dest!: vcD [OF first])
  have "vc (prepare_tx s clk p scope target i a pre r hash (now + 5 * minute)) (\<lambda>_ d'. \<exists>a'. has_authority s (between d) (pr_UserID p) scope target a'
     \<and> bi_version (au_binding a') = bi_version (au_binding a) \<and> au_policy a' = au_policy a \<and> authorized a' (in_Action i) (pc_HighImpact pre)
     \<and> cnt (\<lambda>q. ar_workspace q = scope \<and> ar_consumed_by q = None \<and> ar_expires_at q > clk) (reviews (between d)) < 100
     \<and> d' = (between d)\<lparr>reviews := reviews (between d) @ [prepared s clk now r p scope target i (au_binding a) (au_policy a) pre hash]\<rparr>
     \<and> r \<notin> set (map ar_id (reviews (between d)))) (between d)"
    unfolding prepare_tx_def prepared_def
    by (intro vc_rules) (auto simp: insert_review_def review_insert_ok_def split: if_splits)
  from vc_run_tx [OF t this] new ha i rec h r show ?thesis by blast
qed

theorem review_is_fresh_and_bound_witness:
  "\<exists>b pol pre hash. example_reviewed = example_scope\<lparr>reviews := [prepared example_service 0 0 (v7 6) example_principal (v7 1) (v7 3) example_intent b pol pre hash]\<rparr>"
proof -
  have ne: "reviews example_reviewed \<noteq> reviews example_scope" by code_simp
  obtain res where run: "Prepare example_service good_net good_net (\<lambda>_ _. True) (\<lambda>d. d) 0 0 (Some (v7 6)) example_principal (v7 1) (v7 3) example_intent example_scope
      = (res, example_reviewed)"
    unfolding example_reviewed_def using surjective_pairing by blast
  have "reviews example_scope = []" by (simp add: example_scope_def empty_db_def)
  with review_is_fresh_and_bound [OF run ne ne] show ?thesis by auto
qed

lemma op_inv_reviewed: "op_inv example_reviewed" and no_operation_reviewed: "operations example_reviewed = []"
  by code_simp+


theorem confirm_retry_is_idempotent_witness:
  "let (r, d') = example_confirm \<lparr>n_left = None, n_lost_ack = True\<rparr> in r = Inl OpErrStore
     \<and> (\<exists>acc. Confirm example_service good_net good_net (\<lambda>_ _. False) (\<lambda>d. d) hour hour example_accept_ids example_principal (v7 1) ''key''
       example_confirmation ''r2'' d' = (Inr acc, d'))"
proof -
  let ?n = "\<lparr>n_left = None, n_lost_ack = True\<rparr>"
  let ?r = "fst (example_confirm ?n)" and ?d = "snd (example_confirm ?n)"
  have "?r = Inl OpErrStore \<and> operations ?d \<noteq> []" by code_simp
  then have ne: "operations ?d \<noteq> operations example_reviewed" and lost: "?r = Inl OpErrStore" by (auto simp: no_operation_reviewed)
  have run: "Confirm example_service good_net ?n (\<lambda>_ _. True) (\<lambda>d. d) minute minute example_accept_ids example_principal (v7 1) ''key''
     example_confirmation ''r1'' example_reviewed = (?r, ?d)" by (simp add: example_confirm_def)
  have "review_frozen (pr_UserID example_principal) (v7 1) (cf_ReviewID example_confirmation) example_reviewed example_reviewed"
    by (simp add: review_frozen_def)
  from confirm_retry_is_idempotent [OF op_inv_reviewed run ne ne this, of good_net "\<lambda>_ _. False" "\<lambda>d. d" hour hour example_accept_ids "''r2''"]
  show ?thesis using lost by (auto simp: split_beta)
qed

end
