(* ===== verification/Sama_Inventory.thy ===== *)
theory Sama_Inventory
  imports Sama_Job Sama_Workspace Sama_Intent
begin

text \<open>
  Package \<^verbatim>\<open>inventory\<close> with the port types of package \<^verbatim>\<open>provider\<close> it uses: refresh admission
  (\<^verbatim>\<open>enqueue.go\<close>), the scan that stages pages (\<^verbatim>\<open>scan.go\<close>, \<^verbatim>\<open>scan_page.go\<close>, \<^verbatim>\<open>snapshot.go\<close>),
  the publication of a complete generation (\<^verbatim>\<open>publish.go\<close>), direct observations (\<^verbatim>\<open>observation.go\<close>),
  retention (\<^verbatim>\<open>prune.go\<close>) and the reads (\<^verbatim>\<open>status.go\<close>, \<^verbatim>\<open>query.go\<close>, \<^verbatim>\<open>detail.go\<close>).
\<close>

section \<open>Constraints of the tables\<close>

definition SnapshotType :: string where
  "SnapshotType = ''storage.snapshot''"

definition ServerType :: string where
  "ServerType = ''compute.server''"

text \<open>A text column with \<^verbatim>\<open>length BETWEEN lo AND hi\<close>: valid UTF-8 without a zero byte, counted in characters.\<close>

definition pg_text :: "nat \<Rightarrow> nat \<Rightarrow> string \<Rightarrow> bool" where
  "pg_text lo hi s \<longleftrightarrow> CHR 0x00 \<notin> set s \<and> (case runes s of None \<Rightarrow> False | Some rs \<Rightarrow> lo \<le> length rs \<and> length rs \<le> hi)"

definition snapshot_details_ok :: "snapshot_details \<Rightarrow> bool" where
  "snapshot_details_ok s \<longleftrightarrow>
     list_all (pg_text 0 512) [sd_SourceNativeID s, sd_SourceType s, sd_StatusReason s, sd_NativeCreatedAt s, sd_CreationTimeReason s]
     \<and> (case sd_SizeBytes s of None \<Rightarrow> True | Some n \<Rightarrow> 0 \<le> n \<and> n \<le> 9223372036854775807)
     \<and> pred_option float_ok (sd_SizeGB s) \<and> pred_option float_ok (sd_MinimumDiskGB s)
     \<and> length (sd_Regions s) \<le> 100 \<and> list_all (pg_text 1 128) (sd_Regions s)
     \<and> sd_SourceType s \<in> {[], ''compute.server'', ''storage.volume''} \<and> (sd_SourceType s = []) = (sd_SourceNativeID s = [])"

text \<open>\<^verbatim>\<open>valid_inventory_details\<close>; \<open>fits\<close>: PostgreSQL's text of the document has at most 65536 bytes.\<close>

definition valid_inventory_details :: "(details \<Rightarrow> bool) \<Rightarrow> string \<Rightarrow> details \<Rightarrow> bool" where
  "valid_inventory_details fits kind t \<longleftrightarrow> fits t \<and>
     (if kind = ServerType then dt_Snapshot t = None \<and> CHR 0x00 \<notin> set (dt_Region t @ dt_MachineType t)
      else kind = SnapshotType \<and> dt_Region t = [] \<and> dt_MachineType t = []
        \<and> (case dt_Snapshot t of None \<Rightarrow> False | Some s \<Rightarrow> snapshot_details_ok s))"

definition resource_row_check :: "(details \<Rightarrow> bool) \<Rightarrow> resource_row \<Rightarrow> bool" where
  "resource_row_check fits r \<longleftrightarrow> pg_text 1 64 (r_api_family r) \<and> pg_text 1 128 (r_scope r) \<and> pg_text 1 512 (r_native_id r)
     \<and> pg_text 0 128 (r_native_status r) \<and> pg_text 0 200 (r_name r) \<and> 0 < r_version r \<and> bigint_ok (r_version r)
     \<and> (r_type r = ServerType \<and> r_status r \<in> {''unknown'', ''running'', ''stopped'', ''pending'', ''failed''}
       \<or> r_type r = SnapshotType \<and> r_status r \<in> {''unknown'', ''available'', ''pending'', ''failed'', ''deleted''})
     \<and> valid_inventory_details fits (r_type r) (r_details r)"

text \<open>The run a row belongs to: the reference \<^verbatim>\<open>(workspace, connection, type, scope, generation)\<close>.\<close>

definition generation_key :: "sync_row \<Rightarrow> uuid \<times> uuid \<times> string \<times> string \<times> uuid" where
  "generation_key y = (sy_workspace y, sy_connection y, sy_resource_type y, sy_scope y, sy_generation y)"

definition resource_generation :: "resource_row \<Rightarrow> uuid \<times> uuid \<times> string \<times> string \<times> uuid" where
  "resource_generation r = (r_workspace r, r_connection r, r_type r, r_scope r, r_generation r)"

definition identity_key :: "resource_row \<Rightarrow> uuid \<times> uuid \<times> string \<times> string \<times> string \<times> string" where
  "identity_key r = (r_workspace r, r_connection r, r_api_family r, r_type r, r_scope r, r_native_id r)"

definition staging_key :: "resource_row \<Rightarrow> uuid \<times> uuid \<times> uuid \<times> string" where
  "staging_key r = (r_workspace r, r_connection r, r_generation r, r_native_id r)"

definition run_open :: "sync_row \<Rightarrow> bool" where
  "run_open y \<longleftrightarrow> sy_status y = ''pending'' \<or> sy_status y = ''running''"

definition run_scope :: "sync_row \<Rightarrow> uuid \<times> uuid \<times> string \<times> string" where
  "run_scope y = (sy_workspace y, sy_connection y, sy_resource_type y, sy_scope y)"

text \<open>\<^verbatim>\<open>INSERT INTO sync_runs\<close>: the database numbers generations; one open run per scope.\<close>

definition new_run :: "uuid \<Rightarrow> uuid \<Rightarrow> uuid \<Rightarrow> string \<Rightarrow> uuid \<Rightarrow> int \<Rightarrow> sync_row" where
  "new_run i workspace connection kind actor number = \<lparr>sy_id = i, sy_workspace = workspace, sy_connection = connection, sy_resource_type = kind,
     sy_scope = ''global'', sy_generation = i, sy_generation_number = number, sy_status = ''pending'', sy_page_count = 0, sy_started_at = None,
     sy_completed_at = None, sy_actor = Some actor, sy_scan_complete = False, sy_credential_version = None, sy_failure_code = None\<rparr>"

definition insert_run :: "uuid \<Rightarrow> uuid \<Rightarrow> uuid \<Rightarrow> string \<Rightarrow> uuid \<Rightarrow> db \<Rightarrow> db option" where
  "insert_run i workspace connection kind actor d = (let y = new_run i workspace connection kind actor (sync_counter d + 1) in
     if i \<notin> set (map sy_id (sync_runs d)) \<and> connection_of d workspace connection \<noteq> None \<and> actor \<in> set (map u_id (users d))
        \<and> (kind = ServerType \<or> kind = SnapshotType) \<and> generation_key y \<notin> set (map generation_key (sync_runs d))
        \<and> \<not> (\<exists>z \<in> set (sync_runs d). run_open z \<and> run_scope z = run_scope y) \<and> bigint_ok (sync_counter d + 1)
     then Some (d\<lparr>sync_runs := sync_runs d @ [y], sync_counter := sync_counter d + 1\<rparr>) else None)"

section \<open>Admission\<close>

definition enqueueLockedType :: "time \<Rightarrow> time \<Rightarrow> uuid option \<Rightarrow> uuid option \<Rightarrow> uuid \<Rightarrow> uuid \<Rightarrow> uuid \<Rightarrow> string \<Rightarrow> uuid dbtx" where
  "enqueueLockedType clk now sid jid actor scope connection kind =
     tx_bind (query WsErrStore (\<lambda>d. fetch (\<lambda>y. run_open y \<and> run_scope y = (scope, connection, kind, ''global'')) (sync_runs d))) (\<lambda>existing.
     case existing of Some y \<Rightarrow> tx_ret (sy_id y)
     | None \<Rightarrow>
     tx_bind (query_row WsErrStore WsErrStore (\<lambda>d. map_option w_queue_limit (fetch (\<lambda>w. w_id w = scope) (workspaces d)))) (\<lambda>limit.
     tx_bind (query WsErrStore (\<lambda>d. cnt (\<lambda>j. j_workspace j = scope \<and> (j_state j = JQueued \<or> j_state j = JRunning)) (jobs d))) (\<lambda>count.
     if int count \<ge> limit then tx_raise InvErrQuota
     else (case (sid, jid) of
         (Some i, Some jobID) \<Rightarrow>
           tx_bind (exec WsErrStore (insert_run i scope connection kind actor)) (\<lambda>_.
           tx_bind (exec WsErrStore (insert_job (new_job clk \<lparr>jr_Operation = uuid_Nil, jr_ID = jobID, jr_Workspace = scope, jr_Connection = connection,
             jr_Type = ''connection_refresh'', jr_PayloadVersion = 2, jr_Deadline = now + 30 * minute\<rparr> None (Some i)))) (\<lambda>_.
           tx_ret i))
       | _ \<Rightarrow> tx_raise WsErrStore))))"

text \<open>The connection with the actor's grants (none: the empty list) and whether its active credential is live.\<close>

definition connection_access :: "db \<Rightarrow> uuid \<Rightarrow> uuid \<Rightarrow> uuid \<Rightarrow> (string \<times> string list \<times> bool) option" where
  "connection_access d scope connection actor = map_option (\<lambda>c. (c_status c,
     (case grant_of d scope connection actor of None \<Rightarrow> [] | Some g \<Rightarrow> g_actions g), live_credential d c \<noteq> None)) (connection_of d scope connection)"

definition enqueueType :: "time \<Rightarrow> time \<Rightarrow> uuid option \<Rightarrow> uuid option \<Rightarrow> uuid \<Rightarrow> uuid \<Rightarrow> uuid \<Rightarrow> string \<Rightarrow> uuid dbtx" where
  "enqueueType clk now sid jid actor scope connection kind =
     (if kind \<noteq> ServerType \<and> kind \<noteq> SnapshotType then tx_raise WsErrInvalid
      else tx_bind (query_row WsErrNotFound WsErrStore (\<lambda>d. open_workspace d scope)) (\<lambda>_.
      tx_bind (memberInTx scope actor) (\<lambda>m.
      tx_bind (query_row WsErrNotFound WsErrStore (\<lambda>d. connection_access d scope connection actor)) (\<lambda>(status, actions, active).
      if ''read'' \<notin> set actions then tx_raise WsErrNotFound
      else if ''refresh'' \<notin> set actions \<or> \<not> WithinCeiling (m_role m) ''refresh'' \<or> status \<noteq> ''active'' \<or> \<not> active then tx_raise WsErrDenied
      else enqueueLockedType clk now sid jid actor scope connection kind))))"

definition Enqueue :: "time \<Rightarrow> time \<Rightarrow> uuid option \<Rightarrow> uuid option \<Rightarrow> uuid \<Rightarrow> uuid \<Rightarrow> uuid \<Rightarrow> uuid dbtx" where
  "Enqueue clk now sid jid actor scope connection = enqueueType clk now sid jid actor scope connection ServerType"

definition RefreshType :: "net \<Rightarrow> time \<Rightarrow> time \<Rightarrow> uuid option \<Rightarrow> uuid option \<Rightarrow> uuid \<Rightarrow> uuid \<Rightarrow> uuid \<Rightarrow> string \<Rightarrow> db \<Rightarrow> (err + uuid) \<times> db" where
  "RefreshType n clk now sid jid actor scope connection kind d =
     run_tx WsErrStore WsErrStore n (enqueueType clk now sid jid actor scope connection kind) d"

definition Refresh :: "net \<Rightarrow> time \<Rightarrow> time \<Rightarrow> uuid option \<Rightarrow> uuid option \<Rightarrow> uuid \<Rightarrow> uuid \<Rightarrow> uuid \<Rightarrow> db \<Rightarrow> (err + uuid) \<times> db" where
  "Refresh n clk now sid jid actor scope connection d = RefreshType n clk now sid jid actor scope connection ServerType d"

definition Initial :: "time \<Rightarrow> time \<Rightarrow> uuid option \<Rightarrow> uuid option \<Rightarrow> uuid \<Rightarrow> uuid \<Rightarrow> uuid \<Rightarrow> uuid dbtx" where
  "Initial clk now sid jid actor scope connection =
     tx_bind (LockAuthority actor scope) (\<lambda>_.
     tx_bind (query_row WsErrStore WsErrStore (\<lambda>d. map_option (\<lambda>c. c_status c = ''active'') (connection_of d scope connection))) (\<lambda>active.
     if \<not> active then tx_raise WsErrDenied
     else enqueueLockedType clk now sid jid actor scope connection ServerType))"

section \<open>Direct observations\<close>

record observation =
  ob_ID :: uuid
  ob_Workspace :: uuid
  ob_Connection :: uuid
  ob_ResourceType :: string
  ob_Family :: string
  ob_Scope :: string
  ob_NativeID :: string
  ob_NativeStatus :: string
  ob_Status :: string
  ob_Name :: string
  ob_Generation :: uuid
  ob_ObservedAt :: time
  ob_Details :: details

definition observed_row :: "observation \<Rightarrow> string \<Rightarrow> resource_row" where
  "observed_row o1 kind = \<lparr>r_id = ob_ID o1, r_workspace = ob_Workspace o1, r_connection = ob_Connection o1, r_api_family = ob_Family o1,
     r_type = kind, r_scope = ob_Scope o1, r_native_id = ob_NativeID o1, r_native_status = ob_NativeStatus o1, r_status = ob_Status o1,
     r_name = ob_Name o1, r_details = ob_Details o1, r_observed_at = ob_ObservedAt o1, r_generation = ob_Generation o1,
     r_tombstoned_at = None, r_version = 1\<rparr>"

text \<open>\<^verbatim>\<open>ON CONFLICT (identity) DO UPDATE\<close>: the identifier and the identity columns stay.\<close>

definition refreshed :: "resource_row \<Rightarrow> resource_row \<Rightarrow> resource_row" where
  "refreshed new r = r\<lparr>r_native_status := r_native_status new, r_status := r_status new, r_name := r_name new, r_details := r_details new,
     r_observed_at := r_observed_at new, r_generation := r_generation new, r_tombstoned_at := None, r_version := r_version r + 1\<rparr>"

definition generation_known :: "db \<Rightarrow> resource_row \<Rightarrow> bool" where
  "generation_known d r \<longleftrightarrow> resource_generation r \<in> set (map generation_key (sync_runs d))"

text \<open>
  One row of \<^verbatim>\<open>INSERT ... ON CONFLICT DO UPDATE ... WHERE P\<close> into \<^verbatim>\<open>resources\<close>; \<open>None\<close>: a
  constraint is violated.
\<close>

definition upsert_row :: "(details \<Rightarrow> bool) \<Rightarrow> (db \<Rightarrow> resource_row \<Rightarrow> bool) \<Rightarrow> resource_row \<Rightarrow> db \<Rightarrow> (uuid option \<times> db) option" where
  "upsert_row fits P new d = (case fetch (\<lambda>r. identity_key r = identity_key new) (resources d) of
       None \<Rightarrow> if resource_row_check fits new \<and> generation_known d new \<and> r_id new \<notin> set (map r_id (resources d))
         then Some (Some (r_id new), d\<lparr>resources := resources d @ [new]\<rparr>) else None
     | Some r \<Rightarrow> if \<not> P d r then Some (None, d)
         else if resource_row_check fits (refreshed new r) \<and> generation_known d (refreshed new r)
         then Some (Some (r_id r), d\<lparr>resources := upd (\<lambda>r. identity_key r = identity_key new) (refreshed new) (resources d)\<rparr>) else None)"

text \<open>\<^verbatim>\<open>json.Marshal\<close> fails on a \<^verbatim>\<open>float64\<close> that is not finite.\<close>

fun float_finite :: "float64 \<Rightarrow> bool" where
  "float_finite (FFin _ _) = True"
| "float_finite _ = False"

definition details_marshal :: "details \<Rightarrow> bool" where
  "details_marshal t = (case dt_Snapshot t of None \<Rightarrow> True
     | Some s \<Rightarrow> pred_option float_finite (sd_SizeGB s) \<and> pred_option float_finite (sd_MinimumDiskGB s))"

text \<open>\<open>short\<close>: the marshalled details have at most 65536 bytes.\<close>

definition Upsert :: "(details \<Rightarrow> bool) \<Rightarrow> (details \<Rightarrow> bool) \<Rightarrow> observation \<Rightarrow> uuid dbtx" where
  "Upsert short fits o1 =
     (let kind = (if ob_ResourceType o1 = [] then ServerType else ob_ResourceType o1) in
      if uuid_version (ob_ID o1) \<noteq> 7 \<or> uuid_version (ob_Generation o1) \<noteq> 7 then tx_raise InvErrObservation
      else if kind \<noteq> ServerType \<and> kind \<noteq> SnapshotType \<or> (kind = SnapshotType) \<noteq> (dt_Snapshot (ob_Details o1) \<noteq> None) then tx_raise InvErrObservation
      else if \<not> details_marshal (ob_Details o1) \<or> \<not> short (ob_Details o1) then tx_raise InvErrObservation
      else tx_bind (sql InvErrObservation (\<lambda>d. case connection_of d (ob_Workspace o1) (ob_Connection o1) of
            Some c \<Rightarrow> if c_api_family c = ob_Family o1 then upsert_row fits (\<lambda>_ _. True) (observed_row o1 kind) d else Some (None, d)
          | None \<Rightarrow> Some (None, d))) (\<lambda>r.
        case r of None \<Rightarrow> tx_raise InvErrObservation | Some i \<Rightarrow> tx_ret i))"

section \<open>Pages\<close>

record scan_observation =
  so_NativeID :: string
  so_NativeStatus :: string
  so_Status :: string
  so_Name :: string
  so_ObservedAt :: "time option"
  so_Details :: details

record scan_page =
  sp_Data :: "scan_observation list"
  sp_Next :: string

text \<open>The port types of package \<^verbatim>\<open>provider\<close>; a zero \<^verbatim>\<open>time.Time\<close> is \<open>None\<close>.\<close>

record server_observation =
  vo_NativeID :: string
  vo_NativeStatus :: string
  vo_Status :: string
  vo_Name :: string
  vo_ObservedAt :: "time option"
  vo_Region :: string
  vo_MachineType :: string

record snapshot_observation =
  np_NativeID :: string
  np_Name :: string
  np_SourceNativeID :: string
  np_SourceType :: string
  np_Status :: string
  np_NativeStatus :: string
  np_StatusReason :: string
  np_CreatedAt :: "time option option"
  np_NativeCreatedAt :: string
  np_CreationTimeReason :: string
  np_SizeBytes :: "int option"
  np_SizeGB :: "float64 option"
  np_MinimumDiskGB :: "float64 option"
  np_Regions :: "string list"
  np_ObservedAt :: "time option"

text \<open>
  \<open>CheckedSnapshot\<close>; \<^verbatim>\<open>CreatedAt\<close> is a pointer, so it is absent (\<open>None\<close>), zero (\<open>Some None\<close>) or a time.
\<close>

definition CheckedSnapshot :: "snapshot_observation \<Rightarrow> bool" where
  "CheckedSnapshot s \<longleftrightarrow>
     \<not> (length (np_NativeID s) = 0 \<or> length (np_NativeID s) > 512 \<or> length (np_SourceNativeID s) > 512
        \<or> (case runes (np_Name s) of None \<Rightarrow> True | Some rs \<Rightarrow> length rs > 200) \<or> length (np_NativeStatus s) > 128
        \<or> length (np_Regions s) > 100 \<or> np_ObservedAt s = None)
     \<and> \<not> (np_SourceType s \<noteq> [] \<and> np_SourceType s \<noteq> ''compute.server'' \<and> np_SourceType s \<noteq> ''storage.volume''
        \<or> (np_SourceType s = []) \<noteq> (np_SourceNativeID s = []))
     \<and> pred_option float_ok (np_SizeGB s) \<and> pred_option float_ok (np_MinimumDiskGB s)
     \<and> list_all (\<lambda>r. r \<noteq> [] \<and> length r \<le> 128 \<and> runes r \<noteq> None) (np_Regions s)
     \<and> \<not> (pred_option (\<lambda>n. n < 0) (np_SizeBytes s) \<and> np_SizeBytes s \<noteq> None \<or> length (np_NativeCreatedAt s) > 64 \<or> runes (np_NativeCreatedAt s) = None)
     \<and> np_CreatedAt s \<noteq> Some None"

definition SnapshotMetadata :: "snapshot_observation \<Rightarrow> err + details" where
  "SnapshotMetadata s =
     (if \<not> CheckedSnapshot s then Inl InvErrObservation
      else if np_Status s \<notin> {''unknown'', ''available'', ''pending'', ''failed'', ''deleted''} then Inl InvErrObservation
      else Inr \<lparr>dt_Region = [], dt_MachineType = [], dt_Snapshot = Some \<lparr>sd_SourceNativeID = np_SourceNativeID s, sd_SourceType = np_SourceType s,
        sd_StatusReason = np_StatusReason s, sd_CreatedAt = Option.bind (np_CreatedAt s) (\<lambda>t. t), sd_NativeCreatedAt = np_NativeCreatedAt s,
        sd_CreationTimeReason = np_CreationTimeReason s, sd_SizeBytes = np_SizeBytes s, sd_SizeGB = np_SizeGB s,
        sd_MinimumDiskGB = np_MinimumDiskGB s, sd_Regions = np_Regions s\<rparr>\<rparr>)"

text \<open>
  The injected readers: a port that is absent, a factory error, no reader, or the pages by cursor. A page
  error of the server port still carries a page, which the caller discards.
\<close>

type_synonym server_pages = "string \<Rightarrow> err + (server_observation list \<times> string)"
type_synonym snapshot_pages = "string \<Rightarrow> err + (snapshot_observation list \<times> string)"

record scanner =
  sn_Reader :: "(binding \<Rightarrow> err + server_pages option) option"
  sn_Snapshots :: "(binding \<Rightarrow> err + snapshot_pages option) option"

definition server_scan :: "server_observation \<Rightarrow> scan_observation" where
  "server_scan v = \<lparr>so_NativeID = vo_NativeID v, so_NativeStatus = vo_NativeStatus v, so_Status = vo_Status v, so_Name = vo_Name v,
     so_ObservedAt = vo_ObservedAt v, so_Details = \<lparr>dt_Region = vo_Region v, dt_MachineType = vo_MachineType v, dt_Snapshot = None\<rparr>\<rparr>"

fun snapshot_scan :: "snapshot_observation list \<Rightarrow> err + scan_observation list" where
  "snapshot_scan [] = Inr []"
| "snapshot_scan (s # r) = (case SnapshotMetadata s of Inl _ \<Rightarrow> Inl (ScanFailure ''provider_response_invalid'')
     | Inr t \<Rightarrow> (case snapshot_scan r of Inl e \<Rightarrow> Inl e
       | Inr rest \<Rightarrow> Inr (\<lparr>so_NativeID = np_NativeID s, so_NativeStatus = np_NativeStatus s, so_Status = np_Status s, so_Name = np_Name s,
           so_ObservedAt = np_ObservedAt s, so_Details = t\<rparr> # rest)))"

definition pageReader :: "scanner \<Rightarrow> binding \<Rightarrow> string \<Rightarrow> err + (string \<Rightarrow> err + scan_page)" where
  "pageReader s b kind =
     (if kind = ServerType \<and> sn_Reader s \<noteq> None then
        (case the (sn_Reader s) b of
           Inr (Some reader) \<Rightarrow> Inr (\<lambda>cursor. case reader cursor of Inl e \<Rightarrow> Inl e
             | Inr (rows, next) \<Rightarrow> Inr \<lparr>sp_Data = map server_scan rows, sp_Next = next\<rparr>)
         | _ \<Rightarrow> Inl InvErrScan)
      else if kind = SnapshotType \<and> sn_Snapshots s \<noteq> None then
        (case the (sn_Snapshots s) b of
           Inr (Some reader) \<Rightarrow> Inr (\<lambda>cursor. case reader cursor of Inl e \<Rightarrow> Inl e
             | Inr (rows, next) \<Rightarrow> (case snapshot_scan rows of Inl e \<Rightarrow> Inl e
                 | Inr data \<Rightarrow> Inr \<lparr>sp_Data = data, sp_Next = next\<rparr>))
         | _ \<Rightarrow> Inl InvErrScan)
      else Inl InvErrScan)"

section \<open>The scan\<close>

text \<open>
  \<open>failureCode\<close>: the code of a scan failure or of an upstream \<^verbatim>\<open>outbound.Failure\<close>, both written
  \<open>ScanFailure\<close>, reduced to the five codes the run may store.
\<close>

definition failureCode :: "err \<Rightarrow> string" where
  "failureCode e = (let code = (case e of ScanFailure c \<Rightarrow> c | _ \<Rightarrow> ''provider_unavailable'') in
     if code = ''permission_denied'' \<or> code = ''provider_permission_denied'' then ''permission_denied''
     else if code = ''provider_rate_limited'' \<or> code = ''provider_response_invalid'' \<or> code = ''sync_limit_reached'' then code
     else ''provider_unavailable'')"

text \<open>The joined row of the authority query: family, current version, role and whether everything allows it.\<close>

definition scan_access :: "db \<Rightarrow> lease \<Rightarrow> uuid \<Rightarrow> (string \<times> int \<times> string \<times> bool) option" where
  "scan_access d lease actor =
     Option.bind (connection_of d (jr_Workspace lease) (jr_Connection lease)) (\<lambda>c.
     Option.bind (live_member d (jr_Workspace lease) actor) (\<lambda>m.
     Option.bind (grant_of d (jr_Workspace lease) (jr_Connection lease) actor) (\<lambda>g.
     Option.bind (c_active_version c) (\<lambda>active.
     map_option (\<lambda>v. (c_api_family c, active, m_role m, c_status c = ''active'' \<and> v_revoked_at v = None
         \<and> ''read'' \<in> set (g_actions g) \<and> ''refresh'' \<in> set (g_actions g)))
       (fetch (\<lambda>v. v_workspace v = jr_Workspace lease \<and> v_connection v = jr_Connection lease \<and> v_version v = active) (credential_versions d))))))"

definition leased_run :: "time \<Rightarrow> lease \<Rightarrow> job_row \<Rightarrow> sync_row \<Rightarrow> bool" where
  "leased_run clk lease j y \<longleftrightarrow> holds lease clk j \<and> j_workspace j = jr_Workspace lease \<and> j_connection j = jr_Connection lease
     \<and> sy_workspace y = j_workspace j \<and> sy_connection y = j_connection j \<and> j_sync j = Some (sy_id y) \<and> run_open y"

definition scanAuthority :: "time \<Rightarrow> lease \<Rightarrow> uuid \<Rightarrow> uuid \<Rightarrow> int \<Rightarrow> binding dbtx" where
  "scanAuthority clk lease run actor version =
     tx_bind (query_row InvErrScan InvErrScan (\<lambda>d. open_workspace d (jr_Workspace lease))) (\<lambda>_.
     tx_bind (query_row (ScanFailure ''permission_denied'') (ScanFailure ''permission_denied'') (\<lambda>d. scan_access d lease actor))
     (\<lambda>(family, current, role, allowed).
     if \<not> allowed \<or> \<not> WithinCeiling role ''refresh'' \<or> version \<noteq> 0 \<and> version \<noteq> current then tx_raise (ScanFailure ''permission_denied'')
     else tx_bind (query_row JobErrLease JobErrLease (\<lambda>d. fetch (\<lambda>j. j_sync j = Some run
            \<and> (\<exists>y \<in> set (sync_runs d). leased_run clk lease j y \<and> sy_actor y = Some actor)) (jobs d))) (\<lambda>_.
     case NewBinding (jr_Workspace lease) (jr_Connection lease) family current of
       None \<Rightarrow> tx_raise ProvErrBinding | Some b \<Rightarrow> tx_ret b)))"

definition clear_staging :: "lease \<Rightarrow> uuid \<Rightarrow> db \<Rightarrow> db option" where
  "clear_staging lease run d = Some (d\<lparr>staging := del (\<lambda>r. r_workspace r = jr_Workspace lease \<and> r_connection r = jr_Connection lease
     \<and> Some (r_generation r) = map_option sy_generation (fetch (\<lambda>y. sy_id y = run) (sync_runs d))) (staging d)\<rparr>)"

definition restarted :: "time \<Rightarrow> int \<Rightarrow> uuid \<Rightarrow> sync_row \<Rightarrow> sync_row" where
  "restarted clk version generation y = y\<lparr>sy_generation := (if sy_started_at y = None then sy_generation y else generation),
     sy_status := ''running'', sy_page_count := 0, sy_scan_complete := False, sy_started_at := Some clk, sy_credential_version := Some version\<rparr>"

text \<open>A new generation must be unused, and nothing may still refer to the old one.\<close>

definition start_run :: "time \<Rightarrow> uuid \<Rightarrow> int \<Rightarrow> uuid \<Rightarrow> db \<Rightarrow> db option" where
  "start_run clk run version generation d =
     (let runs = upd (\<lambda>y. sy_id y = run) (restarted clk version generation) (sync_runs d) in
      if distinct (map generation_key runs) \<and> (\<forall>r \<in> set (resources d) \<union> set (staging d). resource_generation r \<in> set (map generation_key runs))
      then Some (d\<lparr>sync_runs := runs\<rparr>) else None)"

definition guard_tx :: "time \<Rightarrow> uuid option \<Rightarrow> lease \<Rightarrow> uuid \<Rightarrow> uuid \<Rightarrow> int \<Rightarrow> bool \<Rightarrow> binding dbtx" where
  "guard_tx clk gen lease run actor version start =
     tx_bind (scanAuthority clk lease run actor version) (\<lambda>binding.
     if \<not> start then tx_ret binding
     else tx_bind (exec InvErrScan (clear_staging lease run)) (\<lambda>_.
     case gen of None \<Rightarrow> tx_raise InvErrScan
     | Some generation \<Rightarrow> tx_bind (exec InvErrScan (start_run clk run (bi_version binding) generation)) (\<lambda>_. tx_ret binding)))"

definition scan_guard :: "net \<Rightarrow> time \<Rightarrow> uuid option \<Rightarrow> lease \<Rightarrow> uuid \<Rightarrow> uuid \<Rightarrow> int \<Rightarrow> bool \<Rightarrow> db \<Rightarrow> (err + binding) \<times> db" where
  "scan_guard n clk gen lease run actor version start d = run_tx InvErrScan InvErrScan n (guard_tx clk gen lease run actor version start) d"

definition staged_row :: "uuid \<Rightarrow> lease \<Rightarrow> string \<Rightarrow> scan_observation \<Rightarrow> time \<Rightarrow> sync_row \<Rightarrow> resource_row" where
  "staged_row i lease family o1 observed y = \<lparr>r_id = i, r_workspace = jr_Workspace lease, r_connection = jr_Connection lease, r_api_family = family,
     r_type = sy_resource_type y, r_scope = sy_scope y, r_native_id = so_NativeID o1, r_native_status = so_NativeStatus o1, r_status = so_Status o1,
     r_name = so_Name o1, r_details = so_Details o1, r_observed_at = observed, r_generation = sy_generation y, r_tombstoned_at = None, r_version = 1\<rparr>"

definition insert_staging :: "(details \<Rightarrow> bool) \<Rightarrow> uuid \<Rightarrow> lease \<Rightarrow> string \<Rightarrow> uuid \<Rightarrow> scan_observation \<Rightarrow> time \<Rightarrow> db \<Rightarrow> db option" where
  "insert_staging fits i lease family run o1 observed d = (case fetch (\<lambda>y. sy_id y = run) (sync_runs d) of
       None \<Rightarrow> Some d
     | Some y \<Rightarrow> (let r = staged_row i lease family o1 observed y in
         if resource_row_check fits r \<and> generation_known d r \<and> staging_key r \<notin> set (map staging_key (staging d))
         then Some (d\<lparr>staging := staging d @ [r]\<rparr>) else None))"

fun stage_rows :: "(details \<Rightarrow> bool) \<Rightarrow> uuid option list \<Rightarrow> lease \<Rightarrow> string \<Rightarrow> uuid \<Rightarrow> scan_observation list \<Rightarrow> unit dbtx" where
  "stage_rows fits gens lease family run [] = tx_ret ()"
| "stage_rows fits gens lease family run (o1 # r) =
     (case so_ObservedAt o1 of None \<Rightarrow> tx_raise (ScanFailure ''provider_response_invalid'')
      | Some observed \<Rightarrow> (case gens of Some i # rest \<Rightarrow>
            if \<not> details_marshal (so_Details o1) then tx_raise InvErrScan
            else tx_bind (exec (ScanFailure ''provider_response_invalid'') (insert_staging fits i lease family run o1 observed)) (\<lambda>_.
              stage_rows fits rest lease family run r)
          | _ \<Rightarrow> tx_raise InvErrScan))"

definition page_done :: "uuid \<Rightarrow> int \<Rightarrow> bool \<Rightarrow> db \<Rightarrow> db option" where
  "page_done run number complete d = Some (d\<lparr>sync_runs := upd (\<lambda>y. sy_id y = run)
     (\<lambda>y. y\<lparr>sy_page_count := number, sy_scan_complete := complete\<rparr>) (sync_runs d)\<rparr>)"

definition stage_tx :: "(details \<Rightarrow> bool) \<Rightarrow> time \<Rightarrow> uuid option list \<Rightarrow> lease \<Rightarrow> uuid \<Rightarrow> uuid \<Rightarrow> binding \<Rightarrow> scan_page \<Rightarrow> nat \<Rightarrow> unit dbtx" where
  "stage_tx fits clk gens lease run actor b page number =
     tx_bind (scanAuthority clk lease run actor (bi_version b)) (\<lambda>_.
     tx_bind (stage_rows fits gens lease (bi_family b) run (sp_Data page)) (\<lambda>_.
     exec InvErrScan (page_done run (int number) (sp_Next page = []))))"

definition scan_stage :: "(details \<Rightarrow> bool) \<Rightarrow> net \<Rightarrow> time \<Rightarrow> uuid option list \<Rightarrow> lease \<Rightarrow> uuid \<Rightarrow> uuid \<Rightarrow> binding \<Rightarrow> scan_page \<Rightarrow> nat \<Rightarrow> db \<Rightarrow> (err + unit) \<times> db" where
  "scan_stage fits n clk gens lease run actor b page number d =
     run_tx InvErrScan InvErrScan n (stage_tx fits clk gens lease run actor b page number) d"

text \<open>
  What surrounds the scan: per page number the network and clock of its two transactions, the generated
  identifiers, what other transactions do before the page is staged, and the encoded size of a page
  (\<open>None\<close>: it cannot be marshalled).
\<close>

record scan_env =
  ev_net :: "nat \<Rightarrow> net \<times> net"
  ev_clock :: "nat \<Rightarrow> time"
  ev_ids :: "nat \<Rightarrow> uuid option list"
  ev_between :: "nat \<Rightarrow> db \<Rightarrow> db"
  ev_encoded :: "scan_observation list \<Rightarrow> nat option"
  ev_fits :: "details \<Rightarrow> bool"

definition page_over_limit :: "scan_env \<Rightarrow> scan_page \<Rightarrow> nat \<Rightarrow> nat \<Rightarrow> string list \<Rightarrow> bool" where
  "page_over_limit e page count bytes seen \<longleftrightarrow> (case ev_encoded e (sp_Data page) of None \<Rightarrow> True | Some len \<Rightarrow>
     len > 8 * 1024 * 1024 \<or> bytes + len > 32 * 1024 * 1024 \<or> count + length (sp_Data page) > 10000 \<or> length (sp_Data page) > 200
     \<or> length (sp_Next page) > 512 \<or> sp_Next page \<noteq> [] \<and> sp_Next page \<in> set seen)"

fun scan_loop :: "nat \<Rightarrow> scan_env \<Rightarrow> lease \<Rightarrow> uuid \<Rightarrow> uuid \<Rightarrow> binding \<Rightarrow> (string \<Rightarrow> err + scan_page) \<Rightarrow> nat \<Rightarrow> string \<Rightarrow> nat \<Rightarrow> nat \<Rightarrow> string list
    \<Rightarrow> db \<Rightarrow> (err + unit) \<times> db" where
  "scan_loop 0 e lease run actor b readPage k cursor count bytes seen d = (Inl (ScanFailure ''sync_limit_reached''), d)"
| "scan_loop (Suc m) e lease run actor b readPage k cursor count bytes seen d =
     (case scan_guard (fst (ev_net e k)) (ev_clock e k) None lease run actor (bi_version b) False d of
       (Inl err, d1) \<Rightarrow> (Inl err, d1)
     | (Inr _, d1) \<Rightarrow> (case readPage cursor of
         Inl err \<Rightarrow> (Inl (ScanFailure (failureCode err)), d1)
       | Inr page \<Rightarrow>
           if page_over_limit e page count bytes seen then (Inl (ScanFailure ''sync_limit_reached''), d1)
           else (case scan_stage (ev_fits e) (snd (ev_net e k)) (ev_clock e k) (ev_ids e k) lease run actor b page k (ev_between e k d1) of
               (Inl err, d2) \<Rightarrow> (Inl err, d2)
             | (Inr _, d2) \<Rightarrow>
                 if sp_Next page = [] then (Inr (), d2)
                 else scan_loop m e lease run actor b readPage (Suc k) (sp_Next page) (count + length (sp_Data page))
                   (bytes + the (ev_encoded e (sp_Data page))) (sp_Next page # seen) d2)))"

text \<open>The work \<open>Scan\<close> hands to the lease loop; index 0 of the environment is the starting transaction.\<close>

definition scan_work :: "scanner \<Rightarrow> scan_env \<Rightarrow> lease \<Rightarrow> uuid \<Rightarrow> uuid \<Rightarrow> string \<Rightarrow> db \<Rightarrow> (err + unit) \<times> db" where
  "scan_work s e lease run actor kind d =
     (case scan_guard (fst (ev_net e 0)) (ev_clock e 0) (hd (ev_ids e 0 @ [None])) lease run actor 0 True d of
       (Inl err, d1) \<Rightarrow> (Inl err, d1)
     | (Inr b, d1) \<Rightarrow> (case pageReader s b kind of
         Inl _ \<Rightarrow> (Inl InvErrScan, d1)
       | Inr readPage \<Rightarrow> scan_loop 100 e lease run actor b readPage 1 [] 0 0 [] d1))"

definition scan_target :: "db \<Rightarrow> lease \<Rightarrow> (uuid \<times> uuid option \<times> string) option" where
  "scan_target d lease = Option.bind (fetch (\<lambda>j. j_id j = jr_ID lease \<and> j_workspace j = jr_Workspace lease \<and> j_connection j = jr_Connection lease
       \<and> j_payload_version j = 2) (jobs d)) (\<lambda>j.
     map_option (\<lambda>y. (sy_id y, sy_actor y, sy_resource_type y))
       (fetch (\<lambda>y. sy_workspace y = j_workspace j \<and> sy_connection y = j_connection j \<and> Some (sy_id y) = j_sync j) (sync_runs d)))"

text \<open>
  \<open>Scan\<close>: the work runs under the renewal loop of \<^verbatim>\<open>job.Scheduler.Run\<close>, whose renewals and context events
  while it runs are \<open>evs\<close>; the result is what the loop makes of the work's.
\<close>

definition Scan :: "scanner \<Rightarrow> scan_env \<Rightarrow> net \<Rightarrow> time \<Rightarrow> err + time \<Rightarrow> run_event list \<Rightarrow> lease \<Rightarrow> db \<Rightarrow> (err + unit) \<times> db" where
  "Scan s e n now granted evs lease d =
     (if n_left n = Some 0 then (Inl InvErrScan, d)
      else (case scan_target d lease of
        Some (run, Some actor, kind) \<Rightarrow>
          (case scan_work s e lease run actor kind d of (r, d') \<Rightarrow>
            (case Run now now lease None granted (evs @ [Done (case r of Inl x \<Rightarrow> Some x | Inr _ \<Rightarrow> None)]) of
              Inl x \<Rightarrow> (Inl x, d)
            | Inr st \<Rightarrow> (case ru_result st of Some None \<Rightarrow> (Inr (), d') | Some (Some x) \<Rightarrow> (Inl x, d') | None \<Rightarrow> (Inl JobErrLease, d'))))
      | _ \<Rightarrow> (Inl InvErrScan, d)))"

section \<open>Publication\<close>

text \<open>The generation a published row came from has at most this number.\<close>

definition not_newer :: "int \<Rightarrow> db \<Rightarrow> resource_row \<Rightarrow> bool" where
  "not_newer number d r \<longleftrightarrow> (\<exists>y \<in> set (sync_runs d). generation_key y = resource_generation r \<and> sy_generation_number y \<le> number)"

definition published_row :: "resource_row \<Rightarrow> resource_row" where
  "published_row r = r\<lparr>r_tombstoned_at := None, r_version := 1\<rparr>"

fun upsert_all :: "(details \<Rightarrow> bool) \<Rightarrow> int \<Rightarrow> resource_row list \<Rightarrow> db \<Rightarrow> db option" where
  "upsert_all fits number [] d = Some d"
| "upsert_all fits number (r # rs) d = (case upsert_row fits (not_newer number) (published_row r) d of
       None \<Rightarrow> None | Some (_, d') \<Rightarrow> upsert_all fits number rs d')"

definition publish_staged :: "(details \<Rightarrow> bool) \<Rightarrow> lease \<Rightarrow> uuid \<Rightarrow> int \<Rightarrow> db \<Rightarrow> db option" where
  "publish_staged fits lease generation number d = upsert_all fits number
     (filter (\<lambda>r. r_workspace r = jr_Workspace lease \<and> r_connection r = jr_Connection lease \<and> r_generation r = generation) (staging d)) d"

definition missing :: "lease \<Rightarrow> string \<Rightarrow> string \<Rightarrow> string \<Rightarrow> uuid \<Rightarrow> int \<Rightarrow> db \<Rightarrow> resource_row \<Rightarrow> bool" where
  "missing lease family kind scope generation number d r \<longleftrightarrow> r_workspace r = jr_Workspace lease \<and> r_connection r = jr_Connection lease
     \<and> r_api_family r = family \<and> r_type r = kind \<and> r_scope r = scope \<and> r_tombstoned_at r = None \<and> not_newer number d r
     \<and> \<not> (\<exists>i \<in> set (staging d). r_workspace i = r_workspace r \<and> r_connection i = r_connection r \<and> r_generation i = generation \<and> r_native_id i = r_native_id r)"

definition tombstoned :: "time \<Rightarrow> resource_row \<Rightarrow> resource_row" where
  "tombstoned clk r = r\<lparr>r_tombstoned_at := Some clk, r_version := r_version r + 1\<rparr>"

definition tombstone_missing :: "time \<Rightarrow> lease \<Rightarrow> string \<Rightarrow> string \<Rightarrow> string \<Rightarrow> uuid \<Rightarrow> int \<Rightarrow> db \<Rightarrow> db option" where
  "tombstone_missing clk lease family kind scope generation number d =
     (let P = missing lease family kind scope generation number d in
      if \<forall>r \<in> set (resources d). P r \<longrightarrow> bigint_ok (r_version r + 1) then Some (d\<lparr>resources := upd P (tombstoned clk) (resources d)\<rparr>) else None)"

definition run_result :: "time \<Rightarrow> string \<Rightarrow> string option \<Rightarrow> sync_row \<Rightarrow> sync_row" where
  "run_result clk state code y = y\<lparr>sy_status := state, sy_failure_code := code, sy_completed_at := Some clk\<rparr>"

definition finish_run :: "time \<Rightarrow> uuid \<Rightarrow> string \<Rightarrow> string option \<Rightarrow> db \<Rightarrow> db option" where
  "finish_run clk run state code d = Some (d\<lparr>sync_runs := upd (\<lambda>y. sy_id y = run) (run_result clk state code) (sync_runs d)\<rparr>)"

definition job_outcome :: "string \<Rightarrow> job_state" where
  "job_outcome state = (if state = ''succeeded'' then JSucceeded else if state = ''failed'' then JFailed else JCancelled)"

definition run_of_lease :: "time \<Rightarrow> lease \<Rightarrow> db \<Rightarrow> sync_row option" where
  "run_of_lease clk lease d = fetch (\<lambda>y. \<exists>j \<in> set (jobs d). leased_run clk lease j y) (sync_runs d)"

text \<open>The outcome of the run: its state, the stored failure code, and what happens to the public inventory.\<close>

definition publish_outcome :: "(details \<Rightarrow> bool) \<Rightarrow> time \<Rightarrow> lease \<Rightarrow> err option \<Rightarrow> sync_row \<Rightarrow> (string \<times> string option) dbtx" where
  "publish_outcome fits clk lease scanErr y = (case scanErr of
       Some e \<Rightarrow> tx_ret (''failed'', Some (failureCode e))
     | None \<Rightarrow> (case (sy_scan_complete y, sy_actor y, sy_credential_version y) of
         (True, Some actor, Some version) \<Rightarrow>
           tx_bind (scanAuthority clk lease (sy_id y) actor version) (\<lambda>b.
           tx_bind (query InvErrScan (\<lambda>d. \<exists>z \<in> set (sync_runs d). run_scope z = (jr_Workspace lease, jr_Connection lease, sy_resource_type y, sy_scope y)
               \<and> sy_status z = ''succeeded'' \<and> sy_generation_number z > sy_generation_number y)) (\<lambda>newer.
           if newer then tx_ret (''cancelled'', None)
           else tx_bind (exec InvErrScan (publish_staged fits lease (sy_generation y) (sy_generation_number y))) (\<lambda>_.
                tx_bind (exec InvErrScan (tombstone_missing clk lease (bi_family b) (sy_resource_type y) (sy_scope y) (sy_generation y) (sy_generation_number y))) (\<lambda>_.
                tx_ret (''succeeded'', None)))))
       | _ \<Rightarrow> tx_raise InvErrScan))"

definition complete_tx :: "(details \<Rightarrow> bool) \<Rightarrow> time \<Rightarrow> lease \<Rightarrow> err option \<Rightarrow> unit dbtx" where
  "complete_tx fits clk lease scanErr =
     tx_bind (query_row InvErrScan InvErrScan (\<lambda>d. fetch (\<lambda>w. w_id w = jr_Workspace lease) (workspaces d))) (\<lambda>_.
     tx_bind (query_row JobErrLease JobErrLease (run_of_lease clk lease)) (\<lambda>y.
     tx_bind (publish_outcome fits clk lease scanErr y) (\<lambda>(state, code).
     tx_bind (exec InvErrScan (finish_run clk (sy_id y) state code)) (\<lambda>_.
     exec InvErrScan (update_jobs (\<lambda>j. j_id j = jr_ID lease) (completed clk (job_outcome state)))))))"

definition Complete :: "(details \<Rightarrow> bool) \<Rightarrow> net \<Rightarrow> time \<Rightarrow> lease \<Rightarrow> err option \<Rightarrow> db \<Rightarrow> (err + unit) \<times> db" where
  "Complete fits n clk lease scanErr d = run_tx InvErrScan InvErrScan n (complete_tx fits clk lease scanErr) d"

text \<open>\<open>Execute\<close>: scan, then complete; \<open>ctx\<close> is the state of the caller's context after the scan.\<close>

definition Execute :: "scanner \<Rightarrow> scan_env \<Rightarrow> net \<Rightarrow> net \<Rightarrow> time \<Rightarrow> time \<Rightarrow> err + time \<Rightarrow> run_event list \<Rightarrow> err option \<Rightarrow> lease \<Rightarrow> db \<Rightarrow> (err + unit) \<times> db" where
  "Execute s e n1 n2 now clk granted evs ctx lease d = (case Scan s e n1 now granted evs lease d of (r, d1) \<Rightarrow>
     (case ctx of Some c \<Rightarrow> (Inl c, d1)
      | None \<Rightarrow> (case Complete (ev_fits e) n2 clk lease (case r of Inl x \<Rightarrow> Some x | Inr _ \<Rightarrow> None) d1 of
          (Inl x, d2) \<Rightarrow> (Inl x, d2)
        | (Inr _, d2) \<Rightarrow> (r, d2))))"

section \<open>Retention\<close>

definition staging_run :: "db \<Rightarrow> resource_row \<Rightarrow> sync_row \<Rightarrow> bool" where
  "staging_run d r y \<longleftrightarrow> sy_workspace y = r_workspace r \<and> sy_connection y = r_connection r \<and> sy_scope y = r_scope r \<and> sy_generation y = r_generation r"

definition staging_expired :: "time \<Rightarrow> db \<Rightarrow> resource_row \<Rightarrow> (time \<times> uuid) option" where
  "staging_expired clk d r = Option.bind (fetch (\<lambda>y. staging_run d r y \<and> sy_status y \<in> {''succeeded'', ''failed'', ''cancelled''}
       \<and> (case sy_completed_at y of None \<Rightarrow> False | Some t \<Rightarrow> t < clk - 7 * day)) (sync_runs d))
     (\<lambda>y. map_option (\<lambda>t. (t, r_id r)) (sy_completed_at y))"

text \<open>\<open>busy\<close>: rows another transaction has locked (\<^verbatim>\<open>SKIP LOCKED\<close>).\<close>

definition staging_batch :: "time \<Rightarrow> (uuid \<Rightarrow> bool) \<Rightarrow> db \<Rightarrow> (uuid \<times> uuid \<times> uuid \<times> string) list" where
  "staging_batch clk busy d = map staging_key (take 100 (sort_key (\<lambda>r. the (staging_expired clk d r))
     (filter (\<lambda>r. staging_expired clk d r \<noteq> None \<and> \<not> busy (r_id r)) (staging d))))"

definition PruneStaging :: "net \<Rightarrow> time \<Rightarrow> (uuid \<Rightarrow> bool) \<Rightarrow> db \<Rightarrow> (err + nat) \<times> db" where
  "PruneStaging n clk busy d = run_auto InvErrScan n (sql InvErrScan (\<lambda>d.
     let batch = staging_batch clk busy d in
     Some (cnt (\<lambda>r. staging_key r \<in> set batch) (staging d), d\<lparr>staging := del (\<lambda>r. staging_key r \<in> set batch) (staging d)\<rparr>))) d"

section \<open>Reads\<close>

record freshness =
  fr_LastSuccessAt :: "time option"
  fr_FailureCode :: "string option"
  fr_State :: string

definition NewFreshness :: "time \<Rightarrow> time option \<Rightarrow> string option \<Rightarrow> freshness" where
  "NewFreshness now last1 failure = \<lparr>fr_LastSuccessAt = last1, fr_FailureCode = failure,
     fr_State = (case last1 of None \<Rightarrow> ''never_observed''
       | Some t \<Rightarrow> if failure = None \<and> 0 \<le> now - t \<and> now - t \<le> 5 * minute then ''fresh'' else ''stale'')\<rparr>"

text \<open>The newest success of a scope, and the failure code of its newest run.\<close>

definition last_success :: "db \<Rightarrow> uuid \<times> uuid \<times> string \<times> string \<Rightarrow> time option" where
  "last_success d k = (let ts = List.map_filter sy_completed_at (filter (\<lambda>y. run_scope y = k \<and> sy_status y = ''succeeded'') (sync_runs d)) in
     if ts = [] then None else Some (Max (set ts)))"

definition last_failure :: "db \<Rightarrow> uuid \<times> uuid \<times> string \<times> string \<Rightarrow> string option" where
  "last_failure d k = (case sort_key sy_generation_number (filter (\<lambda>y. run_scope y = k) (sync_runs d)) of [] \<Rightarrow> None | ys \<Rightarrow> sy_failure_code (last ys))"

record sync_status =
  ss_ID :: uuid
  ss_ConnectionID :: uuid
  ss_Status :: string
  ss_PageCount :: int
  ss_StartedAt :: "time option"
  ss_CompletedAt :: "time option"
  ss_FailureCode :: "string option"
  ss_Inventory :: freshness

definition reads :: "db \<Rightarrow> uuid \<Rightarrow> uuid \<Rightarrow> uuid \<Rightarrow> bool" where
  "reads d actor scope connection \<longleftrightarrow> open_workspace d scope \<noteq> None \<and> live_member d scope actor \<noteq> None
     \<and> (case grant_of d scope connection actor of None \<Rightarrow> False | Some g \<Rightarrow> ''read'' \<in> set (g_actions g))"

definition Status :: "net \<Rightarrow> time \<Rightarrow> uuid \<Rightarrow> uuid \<Rightarrow> uuid \<Rightarrow> db \<Rightarrow> err + sync_status" where
  "Status n now actor scope i d =
     (if n_left n = Some 0 then Inl WsErrStore
      else (case fetch (\<lambda>y. sy_workspace y = scope \<and> sy_id y = i \<and> reads d actor scope (sy_connection y)) (sync_runs d) of
        None \<Rightarrow> Inl WsErrNotFound
      | Some y \<Rightarrow> Inr \<lparr>ss_ID = sy_id y, ss_ConnectionID = sy_connection y, ss_Status = sy_status y, ss_PageCount = sy_page_count y,
          ss_StartedAt = sy_started_at y, ss_CompletedAt = sy_completed_at y, ss_FailureCode = sy_failure_code y,
          ss_Inventory = NewFreshness now (last_success d (run_scope y)) (last_failure d (run_scope y))\<rparr>))"

record filters =
  fi_Connection :: uuid
  fi_Provider :: string
  fi_Type :: string
  fi_Region :: string
  fi_Account :: string
  fi_SourceID :: string
  fi_SourceType :: string

record resource_view =
  re_row :: resource_row
  re_Provider :: string
  re_AccountIdentity :: string
  re_Inventory :: freshness
  re_role :: string
  re_grants :: "string list"
  re_verified :: "string list"
  re_connectionStatus :: string

record resource_cursor =
  rc_Workspace :: uuid
  rc_Actor :: uuid
  rc_Filter :: filters
  rc_ID :: uuid

text \<open>
  A cursor names a position. Its \<^verbatim>\<open>Filter\<close> is the digest of the filters; \<open>same_filter\<close> says whether two
  digests agree. A cursor text is given by its length and what decoding it gives.
\<close>

type_synonym cursor_text = "(nat \<times> resource_cursor option) option"

definition filters_ok :: "filters \<Rightarrow> int \<Rightarrow> bool" where
  "filters_ok f limit \<longleftrightarrow> \<not> (limit < 1 \<or> limit > 200 \<or> fi_Type f \<noteq> [] \<and> fi_Type f \<noteq> ServerType \<and> fi_Type f \<noteq> SnapshotType
     \<or> length (fi_SourceID f) > 512 \<or> fi_SourceType f \<noteq> [] \<and> fi_SourceType f \<noteq> ''compute.server'' \<and> fi_SourceType f \<noteq> ''storage.volume''
     \<or> length (fi_Provider f) > 64 \<or> length (fi_Region f) > 128 \<or> length (fi_Account f) > 512
     \<or> fi_Connection f \<noteq> uuid_Nil \<and> uuid_version (fi_Connection f) \<noteq> 7)"

definition resource_published :: "db \<Rightarrow> resource_row \<Rightarrow> bool" where
  "resource_published d r \<longleftrightarrow> (\<exists>y \<in> set (sync_runs d). generation_key y = resource_generation r \<and> sy_status y = ''succeeded'')"

definition matches :: "filters \<Rightarrow> uuid \<Rightarrow> connection_row \<Rightarrow> resource_row \<Rightarrow> bool" where
  "matches f target c r \<longleftrightarrow> (fi_Type f = [] \<or> r_type r = fi_Type f) \<and> (fi_Connection f = uuid_Nil \<or> r_connection r = fi_Connection f)
     \<and> (fi_Region f = [] \<or> dt_Region (r_details r) = fi_Region f) \<and> (fi_Account f = [] \<or> c_account_identity c = fi_Account f)
     \<and> (target = uuid_Nil \<or> r_id r = target) \<and> (fi_Provider f = [] \<or> c_provider c = fi_Provider f)
     \<and> (fi_SourceID f = [] \<or> map_option sd_SourceNativeID (dt_Snapshot (r_details r)) = Some (fi_SourceID f))
     \<and> (fi_SourceType f = [] \<or> map_option sd_SourceType (dt_Snapshot (r_details r)) = Some (fi_SourceType f))"

definition resource_view_of :: "time \<Rightarrow> db \<Rightarrow> uuid \<Rightarrow> uuid \<Rightarrow> uuid \<Rightarrow> filters \<Rightarrow> uuid \<Rightarrow> resource_row \<Rightarrow> resource_view option" where
  "resource_view_of now d actor scope after f target r =
     (if r_workspace r = scope \<and> r_tombstoned_at r = None \<and> after < r_id r \<and> resource_published d r \<and> open_workspace d scope \<noteq> None
      then Option.bind (connection_of d scope (r_connection r)) (\<lambda>c.
        Option.bind (live_member d scope actor) (\<lambda>m.
        Option.bind (grant_of d scope (r_connection r) actor) (\<lambda>g.
        if ''read'' \<in> set (g_actions g) \<and> matches f target c r
        then Some \<lparr>re_row = r, re_Provider = c_provider c, re_AccountIdentity = c_account_identity c,
          re_Inventory = NewFreshness now (last_success d (r_workspace r, r_connection r, r_type r, r_scope r)) (last_failure d (r_workspace r, r_connection r, r_type r, r_scope r)),
          re_role = m_role m, re_grants = g_actions g,
          re_verified = (if c_permissions_verified_at c = None then [] else c_verified_capabilities c), re_connectionStatus = c_status c\<rparr>
        else None)))
      else None)"

definition resource_query :: "net \<Rightarrow> time \<Rightarrow> (filters \<Rightarrow> filters \<Rightarrow> bool) \<Rightarrow> uuid \<Rightarrow> uuid \<Rightarrow> filters \<Rightarrow> cursor_text \<Rightarrow> int \<Rightarrow> uuid \<Rightarrow> db
    \<Rightarrow> err + (resource_view list \<times> resource_cursor option)" where
  "resource_query n now same_filter actor scope f0 cursor limit0 target d =
     (let limit = (if limit0 = 0 then 50 else limit0);
          f = (if fi_Type f0 = [] \<and> target = uuid_Nil then f0\<lparr>fi_Type := ServerType\<rparr> else f0) in
      if \<not> filters_ok f limit then Inl WsErrInvalid
      else (case (case cursor of None \<Rightarrow> Some uuid_Nil
             | Some (len, decoded) \<Rightarrow> if len > 1024 then None else (case decoded of None \<Rightarrow> None
                 | Some v \<Rightarrow> if rc_Workspace v \<noteq> scope \<or> rc_Actor v \<noteq> actor \<or> \<not> same_filter (rc_Filter v) f \<or> uuid_version (rc_ID v) \<noteq> 7 then None
                     else Some (rc_ID v))) of
        None \<Rightarrow> Inl WsErrInvalid
      | Some after \<Rightarrow>
          if n_left n = Some 0 then Inl WsErrStore
          else (case paginate (nat limit) (\<lambda>v. r_id (re_row v)) (sort_key (\<lambda>v. r_id (re_row v))
                 (List.map_filter (resource_view_of now d actor scope after f target) (resources d))) of
            (data, next) \<Rightarrow> Inr (data, map_option (\<lambda>i. \<lparr>rc_Workspace = scope, rc_Actor = actor, rc_Filter = f, rc_ID = i\<rparr>) next))))"

definition inventory_List :: "net \<Rightarrow> time \<Rightarrow> (filters \<Rightarrow> filters \<Rightarrow> bool) \<Rightarrow> uuid \<Rightarrow> uuid \<Rightarrow> filters \<Rightarrow> cursor_text \<Rightarrow> int \<Rightarrow> db
    \<Rightarrow> err + (resource_view list \<times> resource_cursor option)" where
  "inventory_List n now same_filter actor scope f cursor limit d = resource_query n now same_filter actor scope f cursor limit uuid_Nil d"

section \<open>Capabilities\<close>

record capability =
  ca_Action :: string
  ca_Available :: bool
  ca_Reason :: string

type_synonym support = "string \<times> string"

definition capability_reason :: "string list \<Rightarrow> string list \<Rightarrow> string list \<Rightarrow> string list \<Rightarrow> support \<Rightarrow> string" where
  "capability_reason implemented verified granted stateAllowed c =
     (if fst c \<notin> set implemented then ''unsupported'' else if fst c \<notin> set verified then ''unverified''
      else if snd c \<notin> set granted then ''denied'' else if fst c \<notin> set stateAllowed then ''state_restricted'' else ''available'')"

definition Effective :: "support list \<Rightarrow> string list \<Rightarrow> string list \<Rightarrow> string list \<Rightarrow> string list \<Rightarrow> capability list" where
  "Effective catalog implemented verified granted stateAllowed = map (\<lambda>c.
     let reason = capability_reason implemented verified granted stateAllowed c in
     \<lparr>ca_Action = fst c, ca_Available = (reason = ''available''), ca_Reason = reason\<rparr>) catalog"

definition NormalizeStatus :: "string \<Rightarrow> (string \<times> string) list \<Rightarrow> string" where
  "NormalizeStatus native known = (case map_of known native of
       Some s \<Rightarrow> if s \<in> {''running'', ''stopped'', ''pending'', ''failed''} then s else ''unknown'' | None \<Rightarrow> ''unknown'')"

definition ServerCatalog :: "support list" where
  "ServerCatalog = [(''compute.server.read'', ''read''), (''compute.server.power_on'', ''operate''), (''compute.server.shutdown'', ''operate''),
     (''compute.server.power_off'', ''operate''), (''compute.server.reboot'', ''operate''), (SnapshotCreate, ''high_impact'')]"

definition SnapshotCatalog :: "support list" where
  "SnapshotCatalog = [(''storage.snapshot.read'', ''read''), (SnapshotDelete, ''high_impact'')]"

definition state_allowed :: "resource_view \<Rightarrow> string list" where
  "state_allowed v = (let r = re_row v in
     (if r_type r = SnapshotType then [''storage.snapshot.read''] else [''compute.server.read''])
     @ (if re_connectionStatus v = ''active'' \<and> r_type r = ServerType then
          (if r_status r = ''stopped'' then [''compute.server.power_on'', SnapshotCreate] else [])
          @ (if r_status r = ''running'' then [''compute.server.shutdown'', ''compute.server.power_off'', ''compute.server.reboot'', SnapshotCreate] else [])
        else [])
     @ (if re_connectionStatus v = ''active'' \<and> r_type r = SnapshotType \<and> (r_status r = ''available''
            \<or> r_status r = ''unknown'' \<and> map_option sd_StatusReason (dt_Snapshot (r_details r)) = Some ''not_reported'')
        then [SnapshotDelete] else []))"

definition Detail :: "net \<Rightarrow> time \<Rightarrow> (string \<Rightarrow> string list) \<Rightarrow> uuid \<Rightarrow> uuid \<Rightarrow> uuid \<Rightarrow> db \<Rightarrow> err + (resource_view \<times> capability list)" where
  "Detail n now implemented actor scope i d =
     (if uuid_version i \<noteq> 7 then Inl WsErrInvalid
      else (case resource_query n now (=) actor scope \<lparr>fi_Connection = uuid_Nil, fi_Provider = [], fi_Type = [], fi_Region = [], fi_Account = [],
            fi_SourceID = [], fi_SourceType = []\<rparr> None 1 i d of
        Inl e \<Rightarrow> Inl e
      | Inr ([], _) \<Rightarrow> Inl WsErrNotFound
      | Inr (v # _, _) \<Rightarrow> Inr (v, Effective (if r_type (re_row v) = SnapshotType then SnapshotCatalog else ServerCatalog)
          (implemented (re_Provider v @ ''/'' @ r_api_family (re_row v))) (re_verified v)
          (filter (WithinCeiling (re_role v)) (re_grants v)) (state_allowed v))))"

section \<open>The invariant of runs and published rows\<close>

definition inv_inventory :: "db \<Rightarrow> bool" where
  "inv_inventory d \<longleftrightarrow> distinct (map sy_id (sync_runs d)) \<and> distinct (map sy_generation_number (sync_runs d))
     \<and> (\<forall>y \<in> set (sync_runs d). sy_generation_number y \<le> sync_counter d)
     \<and> (\<forall>y \<in> set (sync_runs d). \<forall>z \<in> set (sync_runs d). run_open y \<and> run_open z \<and> run_scope y = run_scope z \<longrightarrow> y = z)
     \<and> distinct (map identity_key (resources d)) \<and> distinct (map r_id (resources d)) \<and> (\<forall>r \<in> set (resources d). resource_published d r)
     \<and> distinct (map staging_key (staging d))
     \<and> (\<forall>i \<in> set (staging d). \<forall>y \<in> set (sync_runs d). (sy_workspace y, sy_connection y, sy_generation y) = (r_workspace i, r_connection i, r_generation i)
          \<longrightarrow> sy_resource_type y = r_type i \<and> sy_scope y = r_scope i)"

text \<open>A row exhibits what was staged: alive, of that generation, with the observed fields.\<close>

definition exhibits :: "resource_row \<Rightarrow> resource_row \<Rightarrow> bool" where
  "exhibits i r \<longleftrightarrow> identity_key r = identity_key i \<and> r_tombstoned_at r = None \<and> r_generation r = r_generation i \<and> r_native_status r = r_native_status i
     \<and> r_status r = r_status i \<and> r_name r = r_name i \<and> r_details r = r_details i \<and> r_observed_at r = r_observed_at i"

lemma identity_key_simps [simp]: "identity_key (published_row r) = identity_key r" "identity_key (refreshed i r) = identity_key r"
    "identity_key (tombstoned clk r) = identity_key r" "r_id (refreshed i r) = r_id r" "r_id (tombstoned clk r) = r_id r"
  by (simp_all add: identity_key_def published_row_def refreshed_def tombstoned_def)

lemma exhibits_refreshed: "identity_key r = identity_key i \<Longrightarrow> exhibits i (refreshed (published_row i) r)"
  by (simp add: exhibits_def refreshed_def published_row_def identity_key_def)

lemma exhibits_published: "exhibits i (published_row i)"
  by (simp add: exhibits_def published_row_def identity_key_def)

text \<open>What \<open>upsert_all\<close> leaves behind where no existing row is from a newer generation.\<close>

definition upserted :: "resource_row list \<Rightarrow> resource_row list \<Rightarrow> resource_row list \<Rightarrow> bool" where
  "upserted rs old new \<longleftrightarrow> distinct (map identity_key new) \<and> distinct (map r_id new)
     \<and> (\<forall>r \<in> set new. r \<in> set old \<and> identity_key r \<notin> identity_key ` set rs \<or> (\<exists>i \<in> set rs. exhibits i r))
     \<and> (\<forall>i \<in> set rs. \<exists>r \<in> set new. exhibits i r)
     \<and> (\<forall>r \<in> set old. \<exists>r' \<in> set new. r_id r' = r_id r \<and> identity_key r' = identity_key r)"

lemma upsert_row_effect:
  assumes "upsert_row fits P (published_row i) d = Some (x, d')" "\<forall>r \<in> set (resources d). identity_key r = identity_key i \<longrightarrow> P d r"
    "distinct (map identity_key (resources d))" "distinct (map r_id (resources d))"
  shows "d' = d\<lparr>resources := resources d'\<rparr> \<and> upserted [i] (resources d) (resources d')"
proof (cases "fetch (\<lambda>r. identity_key r = identity_key i) (resources d)")
  case None
  then have "identity_key i \<notin> identity_key ` set (resources d)" and "\<forall>r \<in> set (resources d). identity_key r \<noteq> identity_key i"
    by (auto simp: fetch_None)
  moreover have "r_id (published_row i) = r_id i" by (simp add: published_row_def)
  ultimately show ?thesis using assms None exhibits_published [of i]
    by (auto simp: upsert_row_def upserted_def split: if_splits)
next
  case (Some q)
  then have q: "q \<in> set (resources d)" "identity_key q = identity_key i" by (auto dest: fetch_Some)
  let ?new = "upd (\<lambda>r. identity_key r = identity_key i) (refreshed (published_row i)) (resources d)"
  have d': "d' = d\<lparr>resources := ?new\<rparr>" using assms(1,2) Some q by (auto simp: upsert_row_def split: if_splits)
  have keys: "map identity_key ?new = map identity_key (resources d)" "map r_id ?new = map r_id (resources d)" by (simp_all add: map_upd_key)
  have new: "r \<in> set (resources d) \<and> identity_key r \<noteq> identity_key i \<or> exhibits i r" if "r \<in> set ?new" for r
    using that by (auto dest!: in_updD simp: exhibits_refreshed)
  have "exhibits i (refreshed (published_row i) q)" "refreshed (published_row i) q \<in> set ?new" using q by (simp_all add: exhibits_refreshed in_updI)
  moreover have "\<exists>r' \<in> set ?new. r_id r' = r_id r \<and> identity_key r' = identity_key r" if "r \<in> set (resources d)" for r
  proof (cases "identity_key r = identity_key i")
    case True
    with that show ?thesis by (intro bexI [of _ "refreshed (published_row i) r"]) (simp_all add: in_updI)
  next
    case False
    with that show ?thesis by (intro bexI [of _ r]) (simp_all add: in_upd_other)
  qed
  ultimately show ?thesis using assms(3,4) new by (auto simp: d' upserted_def keys)
qed

lemma exhibits_key: "exhibits i r \<Longrightarrow> identity_key r = identity_key i"
  by (simp add: exhibits_def)

lemma upserted_trans:
  assumes one: "upserted [i] old mid" and rest: "upserted rs mid new" and i: "identity_key i \<notin> identity_key ` set rs"
  shows "upserted (i # rs) old new"
proof -
  have "r \<in> set old \<and> identity_key r \<notin> identity_key ` set (i # rs) \<or> (\<exists>j \<in> set (i # rs). exhibits j r)" if "r \<in> set new" for r
  proof -
    from that rest consider "r \<in> set mid" "identity_key r \<notin> identity_key ` set rs" | j where "j \<in> set rs" "exhibits j r" by (auto simp: upserted_def)
    then show ?thesis
    proof cases
      case 1
      with one have "r \<in> set old \<and> identity_key r \<noteq> identity_key i \<or> exhibits i r" by (auto simp: upserted_def)
      with 1 show ?thesis by auto
    qed auto
  qed
  moreover have "\<exists>r \<in> set new. exhibits j r" if "j \<in> set (i # rs)" for j
  proof (cases "j \<in> set rs")
    case True
    with rest show ?thesis by (auto simp: upserted_def)
  next
    case False
    with that have "j = i" by simp
    with one obtain r where r: "r \<in> set mid" "exhibits i r" by (auto simp: upserted_def)
    with rest obtain r' where r': "r' \<in> set new" "identity_key r' = identity_key r" by (auto simp: upserted_def)
    then have k: "identity_key r' = identity_key i" using r by (simp add: exhibits_key)
    have "\<not> exhibits j r'" if "j \<in> set rs" for j using i k that by (metis exhibits_key image_eqI)
    with rest r' have "r' \<in> set mid" by (auto simp: upserted_def)
    with one k have "exhibits i r'" by (auto simp: upserted_def)
    with r' \<open>j = i\<close> show ?thesis by blast
  qed
  moreover have "\<exists>r' \<in> set new. r_id r' = r_id r \<and> identity_key r' = identity_key r" if "r \<in> set old" for r
  proof -
    from that one obtain q where "q \<in> set mid" "r_id q = r_id r" "identity_key q = identity_key r" by (auto simp: upserted_def)
    with rest show ?thesis unfolding upserted_def by metis
  qed
  ultimately show ?thesis using rest by (simp add: upserted_def)
qed

lemma upsert_all_effect:
  assumes "upsert_all fits number rs d = Some d'" "distinct (map identity_key rs)"
    "\<forall>i \<in> set rs. \<forall>r \<in> set (resources d). identity_key r = identity_key i \<longrightarrow> not_newer number d r"
    "distinct (map identity_key (resources d))" "distinct (map r_id (resources d))"
  shows "d' = d\<lparr>resources := resources d'\<rparr> \<and> upserted rs (resources d) (resources d')"
  using assms
proof (induction rs arbitrary: d)
  case Nil
  then show ?case by (auto simp: upserted_def)
next
  case (Cons i rs)
  from Cons.prems(1) obtain x d1 where d1: "upsert_row fits (not_newer number) (published_row i) d = Some (x, d1)" "upsert_all fits number rs d1 = Some d'"
    by (auto split: option.splits prod.splits)
  have e1: "d1 = d\<lparr>resources := resources d1\<rparr>" "upserted [i] (resources d) (resources d1)"
    using upsert_row_effect [OF d1(1)] Cons.prems by auto
  have runs: "sync_runs d1 = sync_runs d" by (subst e1(1)) simp
  have i: "identity_key i \<notin> identity_key ` set rs" using Cons.prems(2) by auto
  have "not_newer number d1 r" if "j \<in> set rs" "r \<in> set (resources d1)" "identity_key r = identity_key j" for j r
  proof -
    have "identity_key r \<noteq> identity_key i" using that i by (metis image_eqI)
    with that(2) e1(2) have "r \<in> set (resources d)" by (auto simp: upserted_def dest: exhibits_key)
    with Cons.prems(3) that have "not_newer number d r" by auto
    then show ?thesis by (simp add: not_newer_def runs)
  qed
  then have "d' = d1\<lparr>resources := resources d'\<rparr> \<and> upserted rs (resources d1) (resources d')"
    using Cons.IH [OF d1(2)] Cons.prems(2) e1(2) by (auto simp: upserted_def)
  moreover have "d1\<lparr>resources := resources d'\<rparr> = d\<lparr>resources := resources d'\<rparr>" by (subst e1(1)) simp
  ultimately show ?case using upserted_trans [OF e1(2) _ i] by metis
qed

section \<open>What a completion leaves behind\<close>

definition staged_for :: "db \<Rightarrow> lease \<Rightarrow> uuid \<Rightarrow> resource_row list" where
  "staged_for d lease generation = filter (\<lambda>r. r_workspace r = jr_Workspace lease \<and> r_connection r = jr_Connection lease \<and> r_generation r = generation) (staging d)"

definition newer_run :: "db \<Rightarrow> lease \<Rightarrow> sync_row \<Rightarrow> bool" where
  "newer_run d lease y \<longleftrightarrow> (\<exists>z \<in> set (sync_runs d). run_scope z = (jr_Workspace lease, jr_Connection lease, sy_resource_type y, sy_scope y)
     \<and> sy_status z = ''succeeded'' \<and> sy_generation_number z > sy_generation_number y)"

definition inventory_after :: "(details \<Rightarrow> bool) \<Rightarrow> time \<Rightarrow> lease \<Rightarrow> err option \<Rightarrow> sync_row \<Rightarrow> db \<Rightarrow> string \<Rightarrow> resource_row list \<Rightarrow> bool" where
  "inventory_after fits clk lease scanErr y d state new \<longleftrightarrow> (case scanErr of
       Some e \<Rightarrow> state = ''failed'' \<and> new = resources d
     | None \<Rightarrow> newer_run d lease y \<and> state = ''cancelled'' \<and> new = resources d
         \<or> \<not> newer_run d lease y \<and> state = ''succeeded'' \<and> (\<exists>c mid. connection_of d (jr_Workspace lease) (jr_Connection lease) = Some c
             \<and> upsert_all fits (sy_generation_number y) (staged_for d lease (sy_generation y)) d = Some mid
             \<and> new = upd (missing lease (c_api_family c) (sy_resource_type y) (sy_scope y) (sy_generation y) (sy_generation_number y) mid) (tombstoned clk) (resources mid)))"

definition completion :: "(details \<Rightarrow> bool) \<Rightarrow> time \<Rightarrow> lease \<Rightarrow> err option \<Rightarrow> db \<Rightarrow> db \<Rightarrow> bool" where
  "completion fits clk lease scanErr d d' \<longleftrightarrow> (\<exists>y state code. run_of_lease clk lease d = Some y
     \<and> inventory_after fits clk lease scanErr y d state (resources d')
     \<and> code = map_option failureCode scanErr
     \<and> d' = d\<lparr>resources := resources d', sync_runs := upd (\<lambda>z. sy_id z = sy_id y) (run_result clk state code) (sync_runs d),
         jobs := upd (\<lambda>j. j_id j = jr_ID lease) (completed clk (job_outcome state)) (jobs d)\<rparr>)"

lemma upsert_row_frame: "upsert_row fits P r d = Some (x, d') \<Longrightarrow> d' = d\<lparr>resources := resources d'\<rparr>"
  by (auto simp: upsert_row_def split: option.splits if_splits)

lemma upsert_all_frame: "upsert_all fits k rs d = Some d' \<Longrightarrow> d' = d\<lparr>resources := resources d'\<rparr>"
proof (induction rs arbitrary: d)
  case (Cons r rs)
  then obtain x d1 where d1: "upsert_row fits (not_newer k) (published_row r) d = Some (x, d1)" "upsert_all fits k rs d1 = Some d'"
    by (auto split: option.splits prod.splits)
  have "d' = d1\<lparr>resources := resources d'\<rparr>" by (rule Cons.IH [OF d1(2)])
  also have "\<dots> = d\<lparr>resources := resources d'\<rparr>" by (subst upsert_row_frame [OF d1(1)]) simp
  finally show ?case .
qed simp

text \<open>What \<open>scanAuthority\<close> establishes: current permission of the run's actor and the lease on the run's job.\<close>

definition scan_authorized :: "time \<Rightarrow> lease \<Rightarrow> uuid \<Rightarrow> uuid \<Rightarrow> int \<Rightarrow> db \<Rightarrow> binding \<Rightarrow> bool" where
  "scan_authorized clk lease run actor version d b \<longleftrightarrow>
     (\<exists>role. scan_access d lease actor = Some (bi_family b, bi_version b, role, True) \<and> WithinCeiling role ''refresh'')
     \<and> (version = 0 \<or> version = bi_version b)
     \<and> (\<exists>j \<in> set (jobs d). j_sync j = Some run \<and> (\<exists>y \<in> set (sync_runs d). leased_run clk lease j y \<and> sy_actor y = Some actor))"

lemma vc_scanAuthority [vc_rules]:
  "(\<And>b. scan_authorized clk lease run actor version d b \<Longrightarrow> Q b d) \<Longrightarrow> vc (scanAuthority clk lease run actor version) Q d"
proof (rule vc_mono)
  show "vc (scanAuthority clk lease run actor version) (\<lambda>b d'. d' = d \<and> scan_authorized clk lease run actor version d b) d"
    unfolding scanAuthority_def
    by (intro vc_rules) (auto simp: scan_authorized_def NewBinding_def dest!: fetch_Some split: if_splits)
qed auto

lemma scan_authorized_connection:
  "scan_authorized clk lease run actor version d b \<Longrightarrow> \<exists>c. connection_of d (jr_Workspace lease) (jr_Connection lease) = Some c \<and> c_api_family c = bi_family b"
  by (auto simp: scan_authorized_def scan_access_def bind_eq_Some_conv)

lemma vc_publish_outcome:
  assumes "\<And>state new. inventory_after fits clk lease scanErr y d state new \<Longrightarrow> Q (state, map_option failureCode scanErr) (d\<lparr>resources := new\<rparr>)"
  shows "vc (publish_outcome fits clk lease scanErr y) Q d"
proof -
  have "Q (''succeeded'', None) d2" if "connection_of d (jr_Workspace lease) (jr_Connection lease) = Some c" "\<not> newer_run d lease y" "scanErr = None"
      "publish_staged fits lease (sy_generation y) (sy_generation_number y) d = Some d1"
      "tombstone_missing clk lease (c_api_family c) (sy_resource_type y) (sy_scope y) (sy_generation y) (sy_generation_number y) d1 = Some d2" for c d1 d2
  proof -
    have d1: "upsert_all fits (sy_generation_number y) (staged_for d lease (sy_generation y)) d = Some d1"
      using that(4) by (simp add: publish_staged_def staged_for_def)
    have "d2 = d1\<lparr>resources := resources d2\<rparr>" using that(5) by (auto simp: tombstone_missing_def Let_def split: if_splits)
    then have d2: "d2 = d\<lparr>resources := resources d2\<rparr>" by (subst (asm) upsert_all_frame [OF d1]) simp
    have "inventory_after fits clk lease scanErr y d ''succeeded'' (resources d2)"
      using that d1 by (auto simp: inventory_after_def tombstone_missing_def Let_def split: if_splits)
    from assms [OF this] that(3) d2 show ?thesis by simp
  qed
  moreover have "Q (''cancelled'', None) d" if "newer_run d lease y" "scanErr = None"
    using assms [of "''cancelled''" "resources d"] that by (simp add: inventory_after_def)
  moreover have "Q (''failed'', Some (failureCode e)) d" if "scanErr = Some e" for e
    using assms [of "''failed''" "resources d"] that by (simp add: inventory_after_def)
  ultimately show ?thesis
    unfolding publish_outcome_def newer_run_def [symmetric]
    by (intro vc_rules) (auto dest!: scan_authorized_connection)
qed

lemma vc_complete: "(\<And>d'. completion fits clk lease scanErr d d' \<Longrightarrow> Q () d') \<Longrightarrow> vc (complete_tx fits clk lease scanErr) Q d"
proof (rule vc_mono)
  show "vc (complete_tx fits clk lease scanErr) (\<lambda>_. completion fits clk lease scanErr d) d"
    unfolding complete_tx_def
    by (intro vc_rules vc_publish_outcome) (force simp: completion_def finish_run_def update_jobs_def split: if_splits)
qed auto

section \<open>Properties\<close>

lemma run_of_lease_Some:
  assumes "run_of_lease clk lease d = Some y"
  shows "y \<in> set (sync_runs d)" "run_open y" "sy_workspace y = jr_Workspace lease" "sy_connection y = jr_Connection lease"
    "\<exists>j \<in> set (jobs d). holds lease clk j \<and> j_sync j = Some (sy_id y)"
  using assms by (auto simp: run_of_lease_def leased_run_def dest!: fetch_Some)

lemma run_result_simps [simp]: "sy_id (run_result clk st c y) = sy_id y" "generation_key (run_result clk st c y) = generation_key y"
    "run_scope (run_result clk st c y) = run_scope y" "sy_generation_number (run_result clk st c y) = sy_generation_number y"
    "sy_status (run_result clk st c y) = st"
  by (simp_all add: run_result_def generation_key_def run_scope_def)

lemma generation_scope: "generation_key y = resource_generation r \<Longrightarrow> run_scope y = (r_workspace r, r_connection r, r_type r, r_scope r)"
  by (simp add: generation_key_def resource_generation_def run_scope_def)

text \<open>Finishing a run as anything but open keeps every run invariant and every publication.\<close>

lemma inv_inventory_finish:
  assumes inv: "inv_inventory d" and y: "y \<in> set (sync_runs d)" "run_open y" and st: "st \<in> {''succeeded'', ''failed'', ''cancelled''}"
    and res: "distinct (map identity_key new)" "distinct (map r_id new)"
    and pub: "\<forall>r \<in> set new. resource_published d r \<or> st = ''succeeded'' \<and> resource_generation r = generation_key y"
    and d': "d' = d\<lparr>resources := new, sync_runs := upd (\<lambda>z. sy_id z = sy_id y) (run_result clk st c) (sync_runs d), jobs := js\<rparr>"
  shows "inv_inventory d'"
proof -
  note I = inv [unfolded inv_inventory_def]
  have ids: "distinct (map sy_id (sync_runs d))" using I by blast
  have one: "z = w" if "z \<in> set (sync_runs d)" "w \<in> set (sync_runs d)" "run_open z" "run_open w" "run_scope z = run_scope w" for z w
    using I that by blast
  have own: "sy_resource_type z = r_type i \<and> sy_scope z = r_scope i" if "i \<in> set (staging d)" "z \<in> set (sync_runs d)"
      "(sy_workspace z, sy_connection z, sy_generation z) = (r_workspace i, r_connection i, r_generation i)" for i z
    using I that by blast
  have only: "z = y" if "z \<in> set (sync_runs d)" "sy_id z = sy_id y" for z
    using unique_key [OF ids that(1) y(1) that(2)] .
  have runs: "z \<in> set (sync_runs d) \<and> z \<noteq> y \<or> z = run_result clk st c y" if "z \<in> set (sync_runs d')" for z
  proof -
    have "z \<in> set (upd (\<lambda>z. sy_id z = sy_id y) (run_result clk st c) (sync_runs d))" using that by (simp add: d')
    from in_updD [OF this] show ?thesis
    proof
      assume "\<exists>q \<in> set (sync_runs d). sy_id q = sy_id y \<and> z = run_result clk st c q"
      then obtain q where "q \<in> set (sync_runs d)" "sy_id q = sy_id y" "z = run_result clk st c q" by blast
      with only [OF this(1,2)] show ?thesis by simp
    qed auto
  qed
  have y': "run_result clk st c y \<in> set (sync_runs d')" using y by (simp add: d' in_updI)
  have keep: "z \<in> set (sync_runs d')" if "z \<in> set (sync_runs d)" "z \<noteq> y" for z
    using in_upd_other [OF that(1), of "\<lambda>z. sy_id z = sy_id y"] only [OF that(1)] that(2) by (auto simp: d')
  have closed: "\<not> run_open (run_result clk st c y)" using st by (auto simp: run_open_def)
  have "resource_published d' r" if "r \<in> set new" for r
  proof -
    from pub that consider "resource_published d r" | "st = ''succeeded''" "resource_generation r = generation_key y" by blast
    then show ?thesis
    proof cases
      case 1
      then obtain z where z: "z \<in> set (sync_runs d)" "generation_key z = resource_generation r" "sy_status z = ''succeeded''" by (auto simp: resource_published_def)
      with y(2) have "z \<noteq> y" by (auto simp: run_open_def)
      with z keep show ?thesis by (auto simp: resource_published_def)
    next
      case 2
      with y' show ?thesis unfolding resource_published_def by (intro bexI [of _ "run_result clk st c y"]) simp_all
    qed
  qed
  moreover have "map sy_id (sync_runs d') = map sy_id (sync_runs d)" "map sy_generation_number (sync_runs d') = map sy_generation_number (sync_runs d)"
    by (simp_all add: d' map_upd_key)
  moreover have "sy_generation_number z \<le> sync_counter d" if "z \<in> set (sync_runs d')" for z
    using runs [OF that] I y(1) by auto
  moreover have "z = w" if "z \<in> set (sync_runs d')" "w \<in> set (sync_runs d')" "run_open z" "run_open w" "run_scope z = run_scope w" for z w
    using runs [OF that(1)] runs [OF that(2)] that(3-) closed one by blast
  moreover have "sy_resource_type z = r_type i \<and> sy_scope z = r_scope i" if "i \<in> set (staging d)" "z \<in> set (sync_runs d')"
      "(sy_workspace z, sy_connection z, sy_generation z) = (r_workspace i, r_connection i, r_generation i)" for i z
    using runs [OF that(2)]
  proof
    assume "z = run_result clk st c y"
    with own [OF that(1) y(1)] that(3) show ?thesis by (simp add: run_result_def)
  qed (use own that in blast)
  ultimately show ?thesis using I res unfolding inv_inventory_def by (simp add: d')
qed

lemma staged_for_distinct:
  assumes "distinct (map staging_key (staging d))"
  shows "distinct (map identity_key (staged_for d lease g))"
proof -
  have "inj_on identity_key (set (staged_for d lease g))"
    using assms by (auto simp: inj_on_def staged_for_def identity_key_def staging_key_def intro: unique_key [of staging_key "staging d"])
  moreover have "distinct (staged_for d lease g)" using assms by (auto simp: staged_for_def distinct_map)
  ultimately show ?thesis by (simp add: distinct_map)
qed

text \<open>The rows of the scope a run covers: its workspace, connection, resource type and scope.\<close>

definition in_run_scope :: "sync_row \<Rightarrow> resource_row \<Rightarrow> bool" where
  "in_run_scope y r \<longleftrightarrow> (r_workspace r, r_connection r, r_type r, r_scope r) = run_scope y"

lemma not_newer_published:
  assumes "\<not> newer_run d lease y" "resource_published d r" "in_run_scope y r" "sy_workspace y = jr_Workspace lease" "sy_connection y = jr_Connection lease"
  shows "not_newer (sy_generation_number y) d r"
proof -
  from assms(2) obtain z where z: "z \<in> set (sync_runs d)" "generation_key z = resource_generation r" "sy_status z = ''succeeded''"
    by (auto simp: resource_published_def)
  have "run_scope z = (jr_Workspace lease, jr_Connection lease, sy_resource_type y, sy_scope y)"
    using generation_scope [OF z(2)] assms(3-) by (simp add: in_run_scope_def run_scope_def)
  with assms(1) z have "sy_generation_number z \<le> sy_generation_number y" by (auto simp: newer_run_def)
  with z show ?thesis by (auto simp: not_newer_def)
qed

lemma publication_effect:
  assumes inv: "inv_inventory d" and run: "Complete fits n clk lease None d = (res, d')" and changed: "d' \<noteq> d"
  shows "\<exists>y c. run_of_lease clk lease d = Some y \<and> connection_of d (jr_Workspace lease) (jr_Connection lease) = c \<and> inv_inventory d' \<and>
     (if newer_run d lease y then resources d' = resources d
      else (\<forall>i \<in> set (staged_for d lease (sy_generation y)). \<exists>r \<in> set (resources d'). exhibits i r)
        \<and> (\<forall>r \<in> set (resources d'). in_run_scope y r \<and> r_tombstoned_at r = None \<and> Some (r_api_family r) = map_option c_api_family c
             \<longrightarrow> (\<exists>i \<in> set (staged_for d lease (sy_generation y)). r_native_id i = r_native_id r))
        \<and> (\<forall>r \<in> set (resources d). \<exists>r' \<in> set (resources d'). r_id r' = r_id r \<and> identity_key r' = identity_key r)
        \<and> (\<forall>r \<in> set (resources d'). \<not> in_run_scope y r \<longrightarrow> r \<in> set (resources d)))"
proof -
  have "completion fits clk lease None d d'"
    using vc_run_tx [OF run [unfolded Complete_def] vc_complete [where Q = "\<lambda>_. completion fits clk lease None d"]] changed by auto
  then obtain y st where y: "run_of_lease clk lease d = Some y" and after: "inventory_after fits clk lease None y d st (resources d')"
    and d': "d' = d\<lparr>resources := resources d', sync_runs := upd (\<lambda>z. sy_id z = sy_id y) (run_result clk st None) (sync_runs d),
      jobs := upd (\<lambda>j. j_id j = jr_ID lease) (completed clk (job_outcome st)) (jobs d)\<rparr>"
    by (auto simp: completion_def)
  note yf = run_of_lease_Some [OF y]
  have pub0: "\<forall>r \<in> set (resources d). resource_published d r" and keys0: "distinct (map identity_key (resources d))" "distinct (map r_id (resources d))"
    using inv by (auto simp: inv_inventory_def)
  show ?thesis
  proof (cases "newer_run d lease y")
    case True
    with after have "st = ''cancelled''" "resources d' = resources d" by (auto simp: inventory_after_def)
    then have "inv_inventory d'" using keys0 pub0 by (intro inv_inventory_finish [OF inv yf(1,2) _ _ _ _ d']) simp_all
    with True y \<open>resources d' = resources d\<close> show ?thesis by auto
  next
    case False
    let ?S = "staged_for d lease (sy_generation y)" and ?N = "sy_generation_number y"
    from after False obtain c mid where c: "connection_of d (jr_Workspace lease) (jr_Connection lease) = Some c" and st: "st = ''succeeded''"
      and mid: "upsert_all fits ?N ?S d = Some mid"
      and new: "resources d' = upd (missing lease (c_api_family c) (sy_resource_type y) (sy_scope y) (sy_generation y) ?N mid) (tombstoned clk) (resources mid)"
      by (auto simp: inventory_after_def)
    have stag: "in_run_scope y i" "resource_generation i = generation_key y" if "i \<in> set ?S" for i
      using inv yf that by (auto simp: staged_for_def inv_inventory_def in_run_scope_def run_scope_def resource_generation_def generation_key_def)
    have key: "in_run_scope y r = in_run_scope y r'" if "identity_key r = identity_key r'" for r r'
      using that by (auto simp: in_run_scope_def identity_key_def)
    have "\<forall>i \<in> set ?S. \<forall>r \<in> set (resources d). identity_key r = identity_key i \<longrightarrow> not_newer ?N d r"
      using not_newer_published [OF False _ _ yf(3,4)] pub0 stag key by metis
    from upsert_all_effect [OF mid staged_for_distinct this keys0] inv
    have fr: "mid = d\<lparr>resources := resources mid\<rparr>" and up: "upserted ?S (resources d) (resources mid)" by (auto simp: inv_inventory_def)
    have same: "sync_runs mid = sync_runs d" "staging mid = staging d" by (subst fr; simp)+
    have gen: "resource_generation r = generation_key y" if "i \<in> set ?S" "exhibits i r" for i r
      using stag(2) [OF that(1)] that(2) by (auto simp: exhibits_def resource_generation_def identity_key_def)
    have old: "r \<in> set (resources d) \<or> (\<exists>i \<in> set ?S. exhibits i r)" if "r \<in> set (resources mid)" for r
      using up that by (auto simp: upserted_def)
    have tomb: "resource_generation (tombstoned clk r) = resource_generation r" for r by (simp add: tombstoned_def resource_generation_def)
    let ?M = "missing lease (c_api_family c) (sy_resource_type y) (sy_scope y) (sy_generation y) ?N mid"
    have nm: "\<not> ?M r" if "i \<in> set ?S" "exhibits i r" for i r
      using that same by (auto simp: missing_def staged_for_def exhibits_def identity_key_def)
    have from_mid: "r \<in> set (resources mid) \<and> \<not> ?M r \<or> (\<exists>q \<in> set (resources mid). ?M q \<and> r = tombstoned clk q)" if "r \<in> set (resources d')" for r
      using that by (auto simp: new dest: in_updD)
    have inv': "inv_inventory d'"
    proof (rule inv_inventory_finish [OF inv yf(1,2) _ _ _ _ d'])
      show "distinct (map identity_key (resources d'))" "distinct (map r_id (resources d'))" using up by (simp_all add: new map_upd_key upserted_def)
      show "\<forall>r \<in> set (resources d'). resource_published d r \<or> st = ''succeeded'' \<and> resource_generation r = generation_key y"
        using from_mid old pub0 gen st tomb by (metis resource_published_def)
    qed (simp add: st)
    have seen: "\<exists>r \<in> set (resources d'). exhibits i r" if i: "i \<in> set ?S" for i
    proof -
      from up i obtain r where r: "r \<in> set (resources mid)" "exhibits i r" by (auto simp: upserted_def)
      then show ?thesis using nm [OF i r(2)] by (auto simp: new intro!: bexI [of _ r] in_upd_other)
    qed
    have kept: "\<exists>r' \<in> set (resources d'). r_id r' = r_id r \<and> identity_key r' = identity_key r" if "r \<in> set (resources d)" for r
    proof -
      from up that obtain q where q: "q \<in> set (resources mid)" "r_id q = r_id r" "identity_key q = identity_key r" unfolding upserted_def by metis
      show ?thesis
      proof (cases "?M q")
        case True
        with q show ?thesis unfolding new by (intro bexI [of _ "tombstoned clk q"]) (simp_all add: in_updI)
      next
        case False
        with q show ?thesis unfolding new by (intro bexI [of _ q]) (simp_all add: in_upd_other)
      qed
    qed
    have outside: "r \<in> set (resources d)" if "r \<in> set (resources d')" "\<not> in_run_scope y r" for r
    proof -
      have "?M q \<Longrightarrow> in_run_scope y (tombstoned clk q)" for q
        using yf by (auto simp: missing_def in_run_scope_def run_scope_def tombstoned_def)
      with from_mid [OF that(1)] that(2) have "r \<in> set (resources mid)" by auto
      with old that(2) stag(1) key show ?thesis by (metis exhibits_key)
    qed
    have live: "\<exists>i \<in> set ?S. r_native_id i = r_native_id r"
      if r: "r \<in> set (resources d')" "in_run_scope y r" "r_tombstoned_at r = None" "r_api_family r = c_api_family c" for r
    proof -
      from from_mid [OF r(1)] r(3) have m: "r \<in> set (resources mid)" "\<not> ?M r" by (auto simp: tombstoned_def)
      from old [OF m(1)] show ?thesis
      proof
        assume "r \<in> set (resources d)"
        then have "not_newer ?N mid r" using not_newer_published [OF False _ r(2) yf(3,4)] pub0 by (simp add: not_newer_def same)
        with m(2) r yf obtain i where "i \<in> set (staging mid)" "r_workspace i = r_workspace r" "r_connection i = r_connection r" "r_generation i = sy_generation y" "r_native_id i = r_native_id r"
          by (auto simp: missing_def in_run_scope_def run_scope_def)
        with r(2) yf same show ?thesis by (auto simp: staged_for_def in_run_scope_def run_scope_def)
      qed (auto simp: exhibits_def identity_key_def)
    qed
    show ?thesis using y c inv' False seen kept outside live by auto
  qed
qed

text \<open>
  C6: A completed scan replaces exactly its own scope, in one transaction. Unless a newer generation was published
  meanwhile (then the run is cancelled and the inventory stays), every staged observation is afterwards a live row of that
  generation with the observed fields, every live row of the scope has a native identifier that was staged, no
  row is lost or changes its identifier, and rows outside the scope are untouched.
\<close>

theorem publication_is_exact:
  assumes inv: "inv_inventory d" and run: "Complete fits n clk lease None d = (res, d')" and changed: "d' \<noteq> d"
  shows "\<exists>y c. run_of_lease clk lease d = Some y \<and> connection_of d (jr_Workspace lease) (jr_Connection lease) = c \<and> inv_inventory d' \<and>
     (if newer_run d lease y then resources d' = resources d
      else (\<forall>i \<in> set (staged_for d lease (sy_generation y)). \<exists>r \<in> set (resources d'). exhibits i r)
        \<and> (\<forall>r \<in> set (resources d'). in_run_scope y r \<and> r_tombstoned_at r = None \<and> Some (r_api_family r) = map_option c_api_family c
             \<longrightarrow> (\<exists>i \<in> set (staged_for d lease (sy_generation y)). r_native_id i = r_native_id r))
        \<and> (\<forall>r \<in> set (resources d). \<exists>r' \<in> set (resources d'). r_id r' = r_id r \<and> identity_key r' = identity_key r)
        \<and> (\<forall>r \<in> set (resources d'). \<not> in_run_scope y r \<longrightarrow> r \<in> set (resources d)))"
  using assms by (rule publication_effect)

text \<open>A connection with one published server, whose refresh has staged another one and is about to complete.\<close>

definition example_run :: sync_row where
  "example_run = (new_run (v7 80) (v7 1) (v7 2) ServerType (v7 4) 2)\<lparr>sy_status := ''running'', sy_started_at := Some 0, sy_scan_complete := True,
     sy_page_count := 1, sy_credential_version := Some 1\<rparr>"

definition example_refresh_job :: job_row where
  "example_refresh_job = (example_job 81 0)\<lparr>j_payload_version := 2, j_sync := Some (v7 80), j_state := JRunning, j_lease_owner := Some (v7 91),
     j_lease_token := Some (v7 90), j_lease_expires_at := Some minute\<rparr>"

definition example_refresh_lease :: lease where
  "example_refresh_lease = lease_of (v7 91) (v7 90) example_refresh_job"

definition example_server :: "nat \<Rightarrow> string \<Rightarrow> uuid \<Rightarrow> resource_row" where
  "example_server k native generation = \<lparr>r_id = v7 k, r_workspace = v7 1, r_connection = v7 2, r_api_family = ''hcloud'', r_type = ServerType,
     r_scope = ''global'', r_native_id = native, r_native_status = ''running'', r_status = ''running'', r_name = ''web'',
     r_details = \<lparr>dt_Region = ''fsn1'', dt_MachineType = ''cx11'', dt_Snapshot = None\<rparr>, r_observed_at = 0, r_generation = generation,
     r_tombstoned_at = None, r_version = 1\<rparr>"

definition example_inventory :: db where
  "example_inventory = empty_db\<lparr>users := [\<lparr>u_id = v7 4, u_issuer = ''iss'', u_subject = ''sub'', u_display_name = ''n'', u_disabled_at = None\<rparr>],
     workspaces := [\<lparr>w_id = v7 1, w_name = ''w'', w_policy_version = 1, w_closed_at = None, w_queue_limit = 10, w_audit_retention_days = 30\<rparr>],
     memberships := [\<lparr>m_workspace = v7 1, m_user = v7 4, m_role = ''operator'', m_version = 1\<rparr>],
     connections := [\<lparr>c_id = v7 2, c_workspace = v7 1, c_provider = ''hetzner'', c_api_family = ''hcloud'', c_account_identity = ''acc'', c_region_policy = [],
       c_label = ''l'', c_status = ''active'', c_active_version = Some 1, c_permissions_verified_at = Some 0,
       c_verified_capabilities = [''compute.server.reboot'']\<rparr>],
     credential_versions := [\<lparr>v_workspace = v7 1, v_connection = v7 2, v_version = 1, v_ciphertext = ''c'', v_nonce = ''n'', v_wrapped_data_key = ''w'', v_wrapping_nonce = ''x'', v_encryption_format = 1,
       v_master_key_id = ''k'', v_revoked_at = None\<rparr>],
     grants := [\<lparr>g_workspace = v7 1, g_connection = v7 2, g_user = v7 4, g_actions = [''read'', ''refresh'']\<rparr>],
     sync_runs := [(new_run (v7 70) (v7 1) (v7 2) ServerType (v7 4) 1)\<lparr>sy_status := ''succeeded'', sy_completed_at := Some 0\<rparr>, example_run],
     sync_counter := 2, resources := [example_server 3 ''42'' (v7 70)], staging := [example_server 82 ''43'' (v7 80)], jobs := [example_refresh_job]\<rparr>"

lemma inv_inventory_example: "inv_inventory example_inventory"
  by code_simp

theorem publication_is_exact_witness:
  "\<exists>r \<in> set (resources (snd (Complete (\<lambda>_. True) good_net second example_refresh_lease None example_inventory))).
     exhibits (example_server 82 ''43'' (v7 80)) r"
proof -
  let ?c = "Complete (\<lambda>_. True) good_net second example_refresh_lease None example_inventory"
  have ne: "snd ?c \<noteq> example_inventory"
  proof -
    have "length (resources (snd ?c)) \<noteq> length (resources example_inventory)" by code_simp
    then show ?thesis by auto
  qed
  have "?c = (fst ?c, snd ?c)" by simp
  from publication_is_exact [OF inv_inventory_example this ne] obtain y where y: "run_of_lease second example_refresh_lease example_inventory = Some y"
    and ex: "\<not> newer_run example_inventory example_refresh_lease y \<Longrightarrow> i \<in> set (staged_for example_inventory example_refresh_lease (sy_generation y)) \<Longrightarrow>
      \<exists>r \<in> set (resources (snd ?c)). exhibits i r" for i
    by (auto split: if_splits)
  have "run_of_lease second example_refresh_lease example_inventory = Some example_run" by code_simp
  with y have "y = example_run" by simp
  moreover have "\<not> newer_run example_inventory example_refresh_lease example_run" by code_simp
  moreover have "example_server 82 ''43'' (v7 80) \<in> set (staged_for example_inventory example_refresh_lease (sy_generation example_run))" by code_simp
  ultimately show ?thesis using ex by blast
qed

lemma stage_rows_resources: "vc (stage_rows fits gens lease family run obs) (\<lambda>_ d'. resources d' = resources d) d"
proof (induction obs arbitrary: gens d)
  case (Cons o1 obs)
  have ind: "vc (stage_rows fits gens' lease family run obs) (\<lambda>_ d'. resources d' = resources d) d1" if "resources d1 = resources d" for gens' d1
    using Cons.IH [of gens' d1] that by simp
  have same: "resources d1 = resources d" if "insert_staging fits i lease family run o1 t d = Some d1" for i t d1
    using that by (auto simp: insert_staging_def Let_def split: option.splits if_splits)
  show ?case
    by (auto split: option.splits list.splits intro!: vc_raise vc_bind vc_exec ind dest: same)
qed (auto intro: vc_ret)

lemma scan_guard_resources: "resources (snd (scan_guard n clk gen lease run actor version start d)) = resources d"
proof -
  have "vc (guard_tx clk gen lease run actor version start) (\<lambda>_ d'. resources d' = resources d) d"
    unfolding guard_tx_def by (intro vc_rules) (auto simp: clear_staging_def start_run_def Let_def split: if_splits)
  from vc_run_tx [OF _ this] show ?thesis unfolding scan_guard_def by (metis prod.collapse)
qed

lemma scan_stage_resources: "resources (snd (scan_stage fits n clk gens lease run actor b page k d)) = resources d"
proof -
  have "vc (stage_tx fits clk gens lease run actor b page k) (\<lambda>_ d'. resources d' = resources d) d"
    unfolding stage_tx_def by (intro vc_rules vc_mono [OF stage_rows_resources]) (auto simp: page_done_def)
  from vc_run_tx [OF _ this] show ?thesis unfolding scan_stage_def by (metis prod.collapse)
qed

lemma scan_loop_resources:
  assumes "\<And>k x. resources (ev_between e k x) = resources x"
  shows "resources (snd (scan_loop m e lease run actor b readPage k cursor count bytes seen d)) = resources d"
proof (induction m arbitrary: k cursor count bytes seen d)
  case (Suc m)
  note g = scan_guard_resources [of "fst (ev_net e k)" "ev_clock e k" None lease run actor "bi_version b" False d]
  note t = scan_stage_resources [of "ev_fits e" "snd (ev_net e k)" "ev_clock e k" "ev_ids e k" lease run actor b]
  show ?case
    using g Suc assms t by (auto split: prod.splits sum.splits) (metis snd_conv)+
qed simp

text \<open>
  A scan only stages: as long as other transactions leave the published rows alone, so do all its pages and
  failures, for every provider answer; and completing a failed scan keeps the last complete inventory and the staged rows
  while it ends the run and its job, with one of the five failure codes the run may store.
\<close>

theorem scan_never_publishes:
  assumes "\<And>k x. resources (ev_between e k x) = resources x"
  shows "resources (snd (Scan s e n now granted evs lease d)) = resources d
     \<and> (\<forall>err res d'. Complete fits n' clk lease (Some err) d = (res, d') \<and> d' \<noteq> d \<longrightarrow> resources d' = resources d \<and> staging d' = staging d
         \<and> (\<exists>y. run_of_lease clk lease d = Some y \<and> run_result clk ''failed'' (Some (failureCode err)) y \<in> set (sync_runs d'))
         \<and> failureCode err \<in> {''permission_denied'', ''provider_unavailable'', ''provider_rate_limited'', ''provider_response_invalid'', ''sync_limit_reached''})"
proof (intro conjI allI impI)
  have work: "resources (snd (scan_work s e lease run actor kind d)) = resources d" for run actor kind
    using scan_guard_resources [of "fst (ev_net e 0)" "ev_clock e 0" "hd (ev_ids e 0 @ [None])" lease run actor 0 True d]
    by (auto simp: scan_work_def scan_loop_resources [OF assms] split: prod.splits sum.splits)
  show "resources (snd (Scan s e n now granted evs lease d)) = resources d"
    using work by (auto simp: Scan_def split: option.splits prod.splits sum.splits) (metis snd_conv)+
next
  fix err res d'
  assume "Complete fits n' clk lease (Some err) d = (res, d') \<and> d' \<noteq> d"
  with vc_run_tx [OF _ vc_complete [where Q = "\<lambda>_. completion fits clk lease (Some err) d"]]
  have "completion fits clk lease (Some err) d d'" unfolding Complete_def by blast
  then obtain y where y: "run_of_lease clk lease d = Some y" "resources d' = resources d"
    and d': "d' = d\<lparr>resources := resources d', sync_runs := upd (\<lambda>z. sy_id z = sy_id y) (run_result clk ''failed'' (Some (failureCode err))) (sync_runs d),
         jobs := upd (\<lambda>j. j_id j = jr_ID lease) (completed clk (job_outcome ''failed'')) (jobs d)\<rparr>"
    by (auto simp: completion_def inventory_after_def)
  show "resources d' = resources d" by (rule y(2))
  show "staging d' = staging d" by (subst d') simp
  have "run_result clk ''failed'' (Some (failureCode err)) y \<in> set (sync_runs d')"
    using run_of_lease_Some(1) [OF y(1)] by (subst d') (simp add: in_updI)
  with y(1) show "\<exists>y. run_of_lease clk lease d = Some y \<and> run_result clk ''failed'' (Some (failureCode err)) y \<in> set (sync_runs d')" by blast
  show "failureCode err \<in> {''permission_denied'', ''provider_unavailable'', ''provider_rate_limited'', ''provider_response_invalid'', ''sync_limit_reached''}"
    by (simp add: failureCode_def Let_def)
qed

definition example_env :: scan_env where
  "example_env = \<lparr>ev_net = (\<lambda>_. (good_net, good_net)), ev_clock = (\<lambda>_. second), ev_ids = (\<lambda>_. map (\<lambda>k. Some (v7 k)) [200..<300]),
     ev_between = (\<lambda>_ d. d), ev_encoded = (\<lambda>_. Some 100), ev_fits = (\<lambda>_. True)\<rparr>"

definition example_scanner :: scanner where
  "example_scanner = \<lparr>sn_Reader = Some (\<lambda>b. Inr (Some (\<lambda>cursor. if cursor = [] then Inr ([], ''p2'') else Inl OutErrNetwork))), sn_Snapshots = None\<rparr>"

theorem scan_never_publishes_witness:
  "resources (snd (Scan example_scanner example_env good_net second (Inr minute) [] example_refresh_lease example_inventory)) = resources example_inventory"
proof -
  have "resources (ev_between example_env k x) = resources x" for k x by (simp add: example_env_def)
  from scan_never_publishes [OF this] show ?thesis by blast
qed

lemma vc_enqueueLockedType:
  assumes "\<And>y. y \<in> set (sync_runs d) \<Longrightarrow> run_open y \<Longrightarrow> run_scope y = (scope, connection, kind, ''global'') \<Longrightarrow> Q (sy_id y) d"
    and "\<And>i jid j d1. \<forall>y \<in> set (sync_runs d). run_open y \<longrightarrow> run_scope y \<noteq> (scope, connection, kind, ''global'') \<Longrightarrow> sid = Some i \<Longrightarrow> jid = Some j \<Longrightarrow>
      (\<exists>w. fetch (\<lambda>w. w_id w = scope) (workspaces d) = Some w
         \<and> int (cnt (\<lambda>j. j_workspace j = scope \<and> (j_state j = JQueued \<or> j_state j = JRunning)) (jobs d)) < w_queue_limit w) \<Longrightarrow>
      insert_run i scope connection kind actor d = Some d1 \<Longrightarrow>
      Q i (d1\<lparr>jobs := jobs d1 @ [new_job clk \<lparr>jr_Operation = uuid_Nil, jr_ID = j, jr_Workspace = scope, jr_Connection = connection,
             jr_Type = ''connection_refresh'', jr_PayloadVersion = 2, jr_Deadline = now + 30 * minute\<rparr> None (Some i)]\<rparr>)"
  shows "vc (enqueueLockedType clk now sid jid actor scope connection kind) Q d"
  unfolding enqueueLockedType_def
  by (intro vc_rules) (use assms in \<open>auto simp: insert_job_def fetch_None dest!: fetch_Some split: if_splits\<close>)

end
