(* ===== verification/Sama_Dispatch.thy ===== *)
theory Sama_Dispatch
  imports Sama_Review Sama_Inventory
begin

text \<open>
  Package \<^verbatim>\<open>operation\<close>, from an accepted operation to its outcome: the dispatch worker (\<^verbatim>\<open>dispatch.go\<close>,
  \<^verbatim>\<open>dispatch_authority.go\<close>, \<^verbatim>\<open>receipt.go\<close>, \<^verbatim>\<open>observe.go\<close>), the deadline sweep (\<^verbatim>\<open>expire.go\<close>), the
  owner's controls (\<^verbatim>\<open>control.go\<close>, \<^verbatim>\<open>recheck.go\<close>, \<^verbatim>\<open>resolution.go\<close>), the installation gate
  (\<^verbatim>\<open>recovery_gate.go\<close>), retention (\<^verbatim>\<open>prune.go\<close>) and the history (\<^verbatim>\<open>read.go\<close>).

  The worker alternates transactions with provider calls. Each transaction is one body; a run of the
  worker is a walk through the phases \<open>work_pc\<close>, one atomic step per transaction or call, so that any
  number of workers and any other transactions can run in between.
\<close>

section \<open>Loading and checking\<close>

record dispatch_plan =
  dp_id :: uuid
  dp_actor :: uuid
  dp_target :: uuid
  dp_review :: stored
  dp_authority :: "authority option"
  dp_state :: op_state
  dp_reference :: "string option"

definition leased_operation :: "time \<Rightarrow> lease \<Rightarrow> db \<Rightarrow> operation_row option" where
  "leased_operation clk lease d = fetch (\<lambda>p. \<exists>j \<in> set (jobs d). leased_job lease clk p j \<and> j_workspace j = jr_Workspace lease \<and> j_connection j = jr_Connection lease)
     (operations d)"

definition dispatchLoad :: "time \<Rightarrow> lease \<Rightarrow> dispatch_plan dbtx" where
  "dispatchLoad clk lease =
     tx_bind (query_row OpErrDenied OpErrDenied (\<lambda>d. open_workspace d (jr_Workspace lease))) (\<lambda>_.
     tx_bind (query_row JobErrLease OpErrStore (leased_operation clk lease)) (\<lambda>p.
     tx_bind (load (o_actor p) (jr_Workspace lease) (o_review p)) (\<lambda>r.
     tx_ret \<lparr>dp_id = o_id p, dp_actor = o_actor p, dp_target = o_resource p, dp_review = r, dp_authority = None,
       dp_state = o_state p, dp_reference = o_reference p\<rparr>)))"

definition dispatchCheck :: "service \<Rightarrow> lease \<Rightarrow> dispatch_plan \<Rightarrow> dispatch_plan dbtx" where
  "dispatchCheck s lease p =
     tx_bind (tx_as OpErrDenied (authority s (dp_actor p) (jr_Workspace lease) (dp_target p))) (\<lambda>a.
     if dp_state p \<noteq> Queued \<or> bi_connection (au_binding a) \<noteq> jr_Connection lease \<or> bi_version (au_binding a) \<noteq> st_credential (dp_review p)
        \<or> au_policy a \<noteq> st_policy (dp_review p) then tx_raise OpErrStale
     else if \<not> authorized a (in_Action (st_intent (dp_review p))) (st_high (dp_review p)) then tx_raise OpErrDenied
     else if sv_policy s \<noteq> None \<and> \<not> permits (sv_policy s) (family_key a) (in_Action (st_intent (dp_review p))) then tx_raise OpErrUnsupported
     else tx_ret (p\<lparr>dp_authority := Some a\<rparr>))"

text \<open>The first half of \<open>inspectDispatch\<close>, a transaction that is rolled back, and the second, a provider read.\<close>

definition inspect_tx :: "service \<Rightarrow> time \<Rightarrow> lease \<Rightarrow> dispatch_plan dbtx" where
  "inspect_tx s clk lease = tx_bind (dispatchLoad clk lease) (dispatchCheck s lease)"

definition inspect_read :: "service \<Rightarrow> (uuid \<Rightarrow> string \<Rightarrow> bool) \<Rightarrow> dispatch_plan \<Rightarrow> err + preconditions" where
  "inspect_read s admit p = (case dp_authority p of None \<Rightarrow> Inl OpErrStore
     | Some a \<Rightarrow> (case inspect s admit a (st_intent (dp_review p)) of
         Inl e \<Rightarrow> Inl e
       | Inr pre \<Rightarrow>
           if pc_Fingerprint pre \<noteq> st_preconditions (dp_review p) \<or> pc_HighImpact pre \<noteq> st_high (dp_review p)
              \<or> pc_TargetName pre \<noteq> st_name (dp_review p) then Inl OpErrStale
           else Inr pre))"

definition inspectDispatch :: "service \<Rightarrow> net \<Rightarrow> time \<Rightarrow> (uuid \<Rightarrow> string \<Rightarrow> bool) \<Rightarrow> lease \<Rightarrow> db \<Rightarrow> err + (dispatch_plan \<times> preconditions)" where
  "inspectDispatch s n clk admit lease d = (case run_read OpErrStore n (inspect_tx s clk lease) d of
     Inl e \<Rightarrow> Inl e
   | Inr p \<Rightarrow> (case inspect_read s admit p of Inl e \<Rightarrow> Inl e | Inr pre \<Rightarrow> Inr (p, pre)))"

section \<open>The recovery gate\<close>

definition checkRecoveryGate :: "unit dbtx" where
  "checkRecoveryGate =
     tx_bind (query OpErrStore (\<lambda>_. ())) (\<lambda>_.
     tx_bind (query_row OpErrStore OpErrStore (\<lambda>d. map_option gate_open (gate d))) (\<lambda>open1.
     if \<not> open1 then tx_raise OpErrRecovery else tx_ret ()))"

text \<open>Submissions whose outcome is not known to be settled.\<close>

definition unresolved :: "db \<Rightarrow> operation_row \<Rightarrow> bool" where
  "unresolved d p \<longleftrightarrow> o_state p \<in> {Dispatching, WaitingProvider, Reconciling} \<or> o_state p = Unknown \<and> (\<exists>l \<in> set (locks d). l_operation l = o_id p)"

record recovery_status =
  rs_Open :: bool
  rs_Version :: int
  rs_Unresolved :: nat

definition Recovery :: "net \<Rightarrow> db \<Rightarrow> err + recovery_status" where
  "Recovery n d = (if n_left n = Some 0 then Inl OpErrStore else (case gate d of None \<Rightarrow> Inl OpErrStore
     | Some g \<Rightarrow> Inr \<lparr>rs_Open = gate_open g, rs_Version = gate_version g, rs_Unresolved = cnt (unresolved d) (operations d)\<rparr>))"

definition set_gate :: "bool \<Rightarrow> db \<Rightarrow> db option" where
  "set_gate open1 d = (case gate d of None \<Rightarrow> Some d
     | Some g \<Rightarrow> if bigint_ok (gate_version g + 1) then Some (d\<lparr>gate := Some \<lparr>gate_open = open1, gate_version = gate_version g + 1\<rparr>\<rparr>) else None)"

definition set_recovery_tx :: "bool \<Rightarrow> int \<Rightarrow> unit dbtx" where
  "set_recovery_tx open1 version =
     tx_bind (query OpErrStore (\<lambda>_. ())) (\<lambda>_.
     tx_bind (query_row OpErrStore OpErrStore (\<lambda>d. map_option gate_version (gate d))) (\<lambda>current.
     if open1 \<and> version \<noteq> current then tx_raise OpErrStale
     else tx_bind (if open1 then query OpErrStore (\<lambda>d. cnt (unresolved d) (operations d)) else tx_ret 0) (\<lambda>count.
     if count \<noteq> 0 then tx_raise OpErrRecovery else exec OpErrStore (set_gate open1))))"

definition SetRecovery :: "net \<Rightarrow> bool \<Rightarrow> int \<Rightarrow> db \<Rightarrow> (err + unit) \<times> db" where
  "SetRecovery n open1 version d = run_tx OpErrStore OpErrStore n (set_recovery_tx open1 version) d"

section \<open>The transactions of the worker\<close>

text \<open>Generated identifiers and the clocks of one transaction.\<close>

record step_env =
  se_clk :: time
  se_now :: time
  se_net :: net
  se_admit :: "uuid \<Rightarrow> string \<Rightarrow> bool"
  se_ctx :: "err option"
  se_delay :: "int option"
  se_events :: "uuid option \<times> uuid option"
  se_audit :: "uuid option"
  se_sync :: "uuid option"
  se_job :: "uuid option"

definition system_event :: "uuid \<Rightarrow> uuid \<Rightarrow> string \<Rightarrow> string \<Rightarrow> (string \<times> string) list \<Rightarrow> audit_event" where
  "system_event eid workspace kind request metadata = \<lparr>ev_ID = eid, ev_Workspace = workspace, ev_ActorKind = ''system'', ev_ActorID = None,
     ev_Type = kind, ev_RequestID = request, ev_Metadata = metadata\<rparr>"

definition executionAudit :: "step_env \<Rightarrow> uuid \<Rightarrow> uuid \<Rightarrow> uuid \<Rightarrow> op_state \<Rightarrow> unit dbtx" where
  "executionAudit v workspace i target outcome = (case se_audit v of None \<Rightarrow> tx_raise OpErrStore
     | Some aid \<Rightarrow>
         (let kind = (if outcome = Failed then ''operation.failed'' else if outcome = Succeeded then ''operation.completed'' else ''operation.reconciled'');
              meta = [(''operation_id'', uuid_String i), (''resource_id'', uuid_String target)]
                @ (if kind \<noteq> ''operation.completed'' then [(''reason_code'', state_text outcome)] else []) in
          tx_as OpErrStore (Append (se_clk v) (system_event aid workspace kind ''operation-worker'' meta))))"

text \<open>\<open>Work\<close>'s first transaction only decides between submitting and observing.\<close>

definition reject_tx :: "step_env \<Rightarrow> lease \<Rightarrow> unit dbtx" where
  "reject_tx v lease =
     tx_bind (dispatchLoad (se_clk v) lease) (\<lambda>p.
     if dp_state p \<noteq> Queued then tx_raise OpErrState
     else tx_bind (advance (se_clk v) (fst (se_events v)) (jr_Workspace lease) (dp_id p) (dp_state p) Failed) (\<lambda>_.
     tx_bind (executionAudit v (jr_Workspace lease) (dp_id p) (dp_target p) Failed) (\<lambda>_.
     finishJob (se_clk v) lease JFailed 0)))"

definition definitive :: "err \<Rightarrow> bool" where
  "definitive cause \<longleftrightarrow> cause = OpErrDenied \<or> cause = OpErrStale \<or> cause = OpErrUnsupported"

definition rejectUnsent :: "step_env \<Rightarrow> lease \<Rightarrow> err \<Rightarrow> db \<Rightarrow> (err + unit) \<times> db" where
  "rejectUnsent v lease cause d = (if \<not> definitive cause then (Inl cause, d) else run_tx OpErrStore OpErrStore (se_net v) (reject_tx v lease) d)"

text \<open>The marker transaction: the last local check and the transition that permits the one submission.\<close>

definition marker_tx :: "service \<Rightarrow> step_env \<Rightarrow> lease \<Rightarrow> preconditions \<Rightarrow> dispatch_plan dbtx" where
  "marker_tx s v lease pre =
     tx_bind (dispatchLoad (se_clk v) lease) (\<lambda>p.
     tx_bind (dispatchCheck s lease p) (\<lambda>current.
     tx_bind checkRecoveryGate (\<lambda>_.
     if pc_Fingerprint pre \<noteq> st_preconditions (dp_review current) then tx_raise OpErrStale
     else tx_bind (advance (se_clk v) (fst (se_events v)) (jr_Workspace lease) (dp_id current) (dp_state current) Dispatching) (\<lambda>_.
     tx_ret current))))"

text \<open>The \<^verbatim>\<open>CHECK\<close> of \<^verbatim>\<open>provider_reference\<close> depends on the action of the row.\<close>

definition reference_ok :: "string \<Rightarrow> string option \<Rightarrow> bool" where
  "reference_ok action reference = (case reference of None \<Rightarrow> True
     | Some t \<Rightarrow> if snapshotAction action then snapshotReference t else nativeReference t)"

definition set_reference :: "uuid \<Rightarrow> uuid \<Rightarrow> string option \<Rightarrow> db \<Rightarrow> db option" where
  "set_reference workspace i reference d = (if \<forall>p \<in> set (operations d). op_at workspace i p \<longrightarrow> reference_ok (o_action p) reference
     then Some (d\<lparr>operations := upd (op_at workspace i) (\<lambda>p. p\<lparr>o_reference := reference\<rparr>) (operations d)\<rparr>) else None)"

definition poll_at :: "lease \<Rightarrow> time \<Rightarrow> time" where
  "poll_at lease next = (if next > jr_Deadline lease then jr_Deadline lease else next)"

definition receipt_tx :: "step_env \<Rightarrow> lease \<Rightarrow> err + receipt \<Rightarrow> unit dbtx" where
  "receipt_tx v lease r =
     tx_bind (dispatchLoad (se_clk v) lease) (\<lambda>p.
     if dp_state p \<noteq> Dispatching then tx_raise OpErrState
     else (case classifyActionReceipt (in_Action (st_intent (dp_review p))) r of (to, reference) \<Rightarrow>
       tx_bind (exec OpErrStore (set_reference (jr_Workspace lease) (dp_id p) reference)) (\<lambda>_.
       tx_bind (advance (se_clk v) (fst (se_events v)) (jr_Workspace lease) (dp_id p) (dp_state p) to) (\<lambda>_.
       tx_bind (executionAudit v (jr_Workspace lease) (dp_id p) (dp_target p) to) (\<lambda>_.
       finishJob (se_clk v) lease (if to = Failed then JFailed else JQueued) (poll_at lease (se_now v + 2 * second)))))))"

text \<open>\<open>pollDelay\<close>: two to five seconds; \<open>r\<close> is the random number (\<open>None\<close>: the source failed).\<close>

definition pollDelay :: "int option \<Rightarrow> time" where
  "pollDelay r = (case r of None \<Rightarrow> 5 * second | Some k \<Rightarrow> 2 * second + k mod (3 * second))"

record action_observation =
  ao_Outcome :: string
  ao_NativeEvidence :: bool

text \<open>The state an observation of the provider leads to.\<close>

definition observed_state :: "string option \<Rightarrow> err + action_observation \<Rightarrow> op_state" where
  "observed_state reference r = (case r of Inl _ \<Rightarrow> Reconciling
     | Inr q \<Rightarrow> if ao_Outcome q = ''pending'' then (if reference \<noteq> None then WaitingProvider else Reconciling)
         else if ao_Outcome q = ''succeeded'' then (if ao_NativeEvidence q then Succeeded else Reconciling)
         else if ao_Outcome q = ''failed'' then (if ao_NativeEvidence q then Failed else Reconciling)
         else if ao_Outcome q = ''unknown'' then Unknown else Reconciling)"

definition tolerated :: "err \<Rightarrow> bool" where
  "tolerated e \<longleftrightarrow> e = InvErrQuota \<or> e = WsErrDenied \<or> e = WsErrNotFound"

definition observe_refresh :: "step_env \<Rightarrow> uuid \<Rightarrow> lease \<Rightarrow> unit dbtx" where
  "observe_refresh v actor lease = tx_bind (tx_try (Enqueue (se_clk v) (se_now v) (se_sync v) (se_job v) actor (jr_Workspace lease) (jr_Connection lease)))
     (\<lambda>r. case r of Inl e \<Rightarrow> if tolerated e then tx_ret () else tx_raise OpErrStore | Inr _ \<Rightarrow> tx_ret ())"

definition observe_tx :: "step_env \<Rightarrow> lease \<Rightarrow> dispatch_plan \<Rightarrow> op_state \<Rightarrow> unit dbtx" where
  "observe_tx v lease p to =
     tx_bind (dispatchLoad (se_clk v) lease) (\<lambda>current.
     if dp_state current \<noteq> dp_state p then tx_raise OpErrState
     else tx_bind (if (dp_state p = Dispatching \<or> dp_state p = WaitingProvider) \<and> to = Unknown
            then tx_bind (advance (se_clk v) (fst (se_events v)) (jr_Workspace lease) (dp_id current) (dp_state current) Reconciling) (\<lambda>_. tx_ret Reconciling)
            else tx_ret (dp_state current)) (\<lambda>st.
     tx_bind (advance (se_clk v) (snd (se_events v)) (jr_Workspace lease) (dp_id current) st to) (\<lambda>_.
     tx_bind (executionAudit v (jr_Workspace lease) (dp_id p) (dp_target p) to) (\<lambda>_.
     tx_bind (if to = Succeeded then observe_refresh v (dp_actor p) lease else tx_ret ()) (\<lambda>_.
     finishJob (se_clk v) lease (if to = Succeeded \<or> to = Failed \<or> to = Unknown then JSucceeded else JQueued)
       (poll_at lease (se_now v + pollDelay (se_delay v))))))))"

section \<open>The worker\<close>

text \<open>
  A mutation adapter: what the provider answers to one submission and to one observation. \<open>di_factories\<close>
  are the mutation factories by key.
\<close>

record mutation =
  mu_Submit :: "binding \<Rightarrow> string \<Rightarrow> string \<Rightarrow> string \<Rightarrow> err + receipt"
  mu_Observe :: "binding \<Rightarrow> string \<Rightarrow> string \<Rightarrow> string option \<Rightarrow> err + action_observation"

record dispatcher =
  di_service :: service
  di_factories :: "(string \<times> (binding \<Rightarrow> err + mutation option)) list"

datatype work_pc =
    StartAt lease
  | InspectAt lease
  | ReadAt lease dispatch_plan
  | RejectAt lease err
  | MarkAt lease mutation preconditions
  | SubmitAt lease mutation dispatch_plan preconditions
  | ReceiptAt lease "err + receipt"
  | ObserveAt lease dispatch_plan
  | ObserveCallAt lease dispatch_plan mutation binding string string string
  | ObserveStoreAt lease dispatch_plan op_state
  | Finished "err + unit"

text \<open>The external effect: one call of the provider's mutation.\<close>

record submission =
  sb_operation :: uuid
  sb_binding :: binding
  sb_action :: string
  sb_native :: string
  sb_fingerprint :: string

text \<open>The row \<open>observe\<close> reads: provider, family, live version, native identifier and account.\<close>

definition observe_access :: "db \<Rightarrow> lease \<Rightarrow> uuid \<Rightarrow> (string \<times> string \<times> int \<times> string \<times> string) option" where
  "observe_access d lease target =
     Option.bind (connection_of d (jr_Workspace lease) (jr_Connection lease)) (\<lambda>c.
     Option.bind (resource_of d (jr_Workspace lease) (jr_Connection lease) target) (\<lambda>r.
     map_option (\<lambda>v. (c_provider c, c_api_family c, v, r_native_id r, c_account_identity c)) (live_credential d c)))"

definition observe_begin :: "dispatcher \<Rightarrow> step_env \<Rightarrow> lease \<Rightarrow> dispatch_plan \<Rightarrow> db \<Rightarrow> work_pc" where
  "observe_begin D v lease p d =
     (if dp_state p \<noteq> Dispatching \<and> dp_state p \<noteq> WaitingProvider \<and> dp_state p \<noteq> Reconciling then Finished (Inl OpErrState)
      else if n_left (se_net v) = Some 0 then Finished (Inl OpErrProvider)
      else (case observe_access d lease (dp_target p) of None \<Rightarrow> Finished (Inl OpErrProvider)
        | Some (brand, family, version, native, account) \<Rightarrow>
            (case NewBinding (jr_Workspace lease) (jr_Connection lease) family version of None \<Rightarrow> Finished (Inl OpErrStore)
             | Some b \<Rightarrow> (case map_of (di_factories D) (factoryKey (brand @ ''/'' @ family) (in_Action (st_intent (dp_review p)))) of
                 None \<Rightarrow> Finished (Inl OpErrUnsupported)
               | Some factory \<Rightarrow> (case factory b of Inr (Some adapter) \<Rightarrow> ObserveCallAt lease p adapter b brand native account
                   | _ \<Rightarrow> Finished (Inl OpErrProvider))))))"

definition read_done :: "dispatcher \<Rightarrow> step_env \<Rightarrow> lease \<Rightarrow> dispatch_plan \<Rightarrow> work_pc" where
  "read_done D v lease p = (case (inspect_read (di_service D) (se_admit v) p, dp_authority p) of
       (Inr pre, Some a) \<Rightarrow> (case map_of (di_factories D) (factoryKey (family_key a) (in_Action (st_intent (dp_review p)))) of
           None \<Rightarrow> RejectAt lease OpErrUnsupported
         | Some factory \<Rightarrow> (case factory (au_binding a) of Inr (Some adapter) \<Rightarrow> MarkAt lease adapter pre | _ \<Rightarrow> Finished (Inl OpErrProvider)))
     | (Inl e, _) \<Rightarrow> RejectAt lease e
     | (Inr _, None) \<Rightarrow> RejectAt lease OpErrStore)"

definition submit :: "service \<Rightarrow> step_env \<Rightarrow> lease \<Rightarrow> mutation \<Rightarrow> dispatch_plan \<Rightarrow> preconditions \<Rightarrow> work_pc \<times> submission option" where
  "submit s v lease adapter p pre = (case dp_authority p of None \<Rightarrow> (Finished (Inl OpErrStore), None)
     | Some a \<Rightarrow>
         if \<not> se_admit v (bi_connection (au_binding a)) (quotaKey (sv_crypto s) (au_provider a) (bi_family (au_binding a)) (au_account a))
         then (ReceiptAt lease (Inl OutErrNetwork), None)
         else (ReceiptAt lease (mu_Submit adapter (au_binding a) (in_Action (st_intent (dp_review p))) (au_native a) (pc_Fingerprint pre)),
           Some \<lparr>sb_operation = dp_id p, sb_binding = au_binding a, sb_action = in_Action (st_intent (dp_review p)), sb_native = au_native a,
             sb_fingerprint = pc_Fingerprint pre\<rparr>))"

fun work_step :: "dispatcher \<Rightarrow> step_env \<Rightarrow> work_pc \<Rightarrow> db \<Rightarrow> work_pc \<times> db \<times> submission option" where
  "work_step D v (StartAt lease) d =
     (if \<not> sv_enabled (di_service D) then (Finished (Inl OpErrUnsupported), d, None)
      else (case run_read OpErrStore (se_net v) (dispatchLoad (se_clk v) lease) d of
          Inl e \<Rightarrow> (Finished (Inl e), d, None)
        | Inr p \<Rightarrow> ((if dp_state p \<noteq> Queued then ObserveAt lease p else InspectAt lease), d, None)))"
| "work_step D v (InspectAt lease) d =
     ((case run_read OpErrStore (se_net v) (inspect_tx (di_service D) (se_clk v) lease) d of
          Inl e \<Rightarrow> RejectAt lease e | Inr p \<Rightarrow> ReadAt lease p), d, None)"
| "work_step D v (ReadAt lease p) d = (read_done D v lease p, d, None)"
| "work_step D v (RejectAt lease e) d = (case rejectUnsent v lease e d of (r, d') \<Rightarrow> (Finished r, d', None))"
| "work_step D v (MarkAt lease adapter pre) d =
     (case run_tx OpErrStore OpErrStore (se_net v) (marker_tx (di_service D) v lease pre) d of
          (Inl e, d') \<Rightarrow> (Finished (Inl e), d', None)
        | (Inr p, d') \<Rightarrow> ((case se_ctx v of Some e \<Rightarrow> Finished (Inl e) | None \<Rightarrow> SubmitAt lease adapter p pre), d', None))"
| "work_step D v (SubmitAt lease adapter p pre) d = (case submit (di_service D) v lease adapter p pre of (pc, sub) \<Rightarrow> (pc, d, sub))"
| "work_step D v (ReceiptAt lease r) d = (case run_tx OpErrStore OpErrStore (se_net v) (receipt_tx v lease r) d of (q, d') \<Rightarrow> (Finished q, d', None))"
| "work_step D v (ObserveAt lease p) d = (observe_begin D v lease p d, d, None)"
| "work_step D v (ObserveCallAt lease p adapter b brand native account) d =
     (ObserveStoreAt lease p (observed_state (dp_reference p)
        (if se_admit v (bi_connection b) (quotaKey (sv_crypto (di_service D)) brand (bi_family b) account)
         then mu_Observe adapter b (in_Action (st_intent (dp_review p))) native (dp_reference p) else Inl OutErrNetwork)), d, None)"
| "work_step D v (ObserveStoreAt lease p to) d = (case run_tx OpErrStore OpErrStore (se_net v) (observe_tx v lease p to) d of (q, d') \<Rightarrow> (Finished q, d', None))"
| "work_step D v (Finished r) d = (Finished r, d, None)"

text \<open>\<open>Work\<close> alone: at most six steps, with what other transactions do before each.\<close>

fun work_run :: "nat \<Rightarrow> dispatcher \<Rightarrow> (nat \<Rightarrow> step_env) \<Rightarrow> (nat \<Rightarrow> db \<Rightarrow> db) \<Rightarrow> work_pc \<Rightarrow> db \<Rightarrow> work_pc \<times> db \<times> submission list" where
  "work_run 0 D v between pc d = (pc, d, [])"
| "work_run (Suc k) D v between pc d = (case work_step D (v k) pc (between k d) of (pc', d', sub) \<Rightarrow>
     (case work_run k D v between pc' d' of (pc'', d'', subs) \<Rightarrow> (pc'', d'', (case sub of None \<Rightarrow> subs | Some b \<Rightarrow> b # subs))))"

definition Work :: "dispatcher \<Rightarrow> (nat \<Rightarrow> step_env) \<Rightarrow> (nat \<Rightarrow> db \<Rightarrow> db) \<Rightarrow> lease \<Rightarrow> db \<Rightarrow> work_pc \<times> db \<times> submission list" where
  "Work D v between lease d = work_run 6 D v between (StartAt lease) d"

section \<open>The deadline sweep\<close>

definition exhausted :: "time \<Rightarrow> job_row \<Rightarrow> bool" where
  "exhausted clk j \<longleftrightarrow> (j_state j = JQueued \<or> j_state j = JRunning) \<and> (j_deadline j \<le> clk \<or> j_attempts j \<ge> 100)
     \<and> (case j_lease_expires_at j of None \<Rightarrow> True | Some t \<Rightarrow> t \<le> clk)"

definition expire_batch :: "time \<Rightarrow> db \<Rightarrow> job_row list" where
  "expire_batch clk d = take 50 (sort_key j_id (filter (\<lambda>j. j_type j = ''operation_dispatch'' \<and> exhausted clk j) (jobs d)))"

definition expiring :: "time \<Rightarrow> uuid \<Rightarrow> db \<Rightarrow> operation_row option" where
  "expiring clk jid d = fetch (\<lambda>p. \<exists>j \<in> set (jobs d). j_id j = jid \<and> exhausted clk j \<and> j_workspace j = o_workspace p \<and> j_connection j = o_connection p
     \<and> j_operation j = Some (o_id p)) (operations d)"

definition expire_tx :: "step_env \<Rightarrow> uuid \<Rightarrow> uuid \<Rightarrow> (bool \<times> unit) dbtx" where
  "expire_tx v jid workspace =
     tx_bind (query OpErrStore (\<lambda>_. ())) (\<lambda>_.
     tx_bind (query OpErrStore (expiring (se_clk v) jid)) (\<lambda>found.
     case found of None \<Rightarrow> tx_ret (False, ())
     | Some p \<Rightarrow>
     tx_bind (if o_state p = Dispatching \<or> o_state p = WaitingProvider
            then tx_bind (advance (se_clk v) (fst (se_events v)) workspace (o_id p) (o_state p) Reconciling) (\<lambda>_. tx_ret Reconciling)
            else tx_ret (o_state p)) (\<lambda>st.
     tx_bind (tx_as OpErrStore (if st \<noteq> Unknown \<and> st \<noteq> Succeeded \<and> st \<noteq> Failed \<and> st \<noteq> Cancelled
            then (let to = (if o_state p = Queued then Failed else Unknown) in
              tx_bind (advance (se_clk v) (snd (se_events v)) workspace (o_id p) st to) (\<lambda>_. executionAudit v workspace (o_id p) (o_resource p) to))
            else tx_ret ())) (\<lambda>_.
     tx_bind (exec OpErrStore (update_jobs (\<lambda>j. j_id j = jid) (completed (se_clk v) JFailed))) (\<lambda>_. tx_ret (True, ()))))))"

fun expire_each :: "(step_env \<times> (db \<Rightarrow> db)) list \<Rightarrow> job_row list \<Rightarrow> db \<Rightarrow> (err + unit) \<times> db" where
  "expire_each envs [] d = (Inr (), d)"
| "expire_each [] (j # js) d = (Inl OpErrStore, d)"
| "expire_each ((v, between) # envs) (j # js) d =
     (case run_tx_if OpErrStore OpErrStore (se_net v) (expire_tx v (j_id j) (j_workspace j)) (between d) of
        (Inl e, d') \<Rightarrow> (Inl e, d') | (Inr _, d') \<Rightarrow> expire_each envs js d')"

definition Expire :: "net \<Rightarrow> time \<Rightarrow> (step_env \<times> (db \<Rightarrow> db)) list \<Rightarrow> db \<Rightarrow> (err + unit) \<times> db" where
  "Expire n clk envs d = (if n_left n = Some 0 then (Inl OpErrStore, d) else expire_each envs (expire_batch clk d) d)"

section \<open>Controls\<close>

definition control_row :: "db \<Rightarrow> uuid \<Rightarrow> uuid \<Rightarrow> uuid \<Rightarrow> (operation_row \<times> string \<times> string list \<times> bool) option" where
  "control_row d actor scope i =
     Option.bind (operation_of d scope i) (\<lambda>p.
     Option.bind (fetch (\<lambda>r. ar_workspace r = scope \<and> ar_connection r = o_connection p \<and> ar_id r = o_review p) (reviews d)) (\<lambda>r.
     Option.bind (live_member d scope actor) (\<lambda>m.
     Option.bind (grant_of d scope (o_connection p) actor) (\<lambda>g.
     if ''read'' \<in> set (g_actions g) then Some (p, m_role m, g_actions g, ar_high_impact r) else None))))"

definition controlLoad :: "uuid \<Rightarrow> uuid \<Rightarrow> uuid \<Rightarrow> (operation_row \<times> string) dbtx" where
  "controlLoad actor scope i =
     tx_bind (query_row WsErrNotFound WsErrNotFound (\<lambda>d. open_workspace d scope)) (\<lambda>_.
     tx_bind (query_row WsErrNotFound OpErrStore (\<lambda>d. control_row d actor scope i)) (\<lambda>(p, role, actions, high).
     let class = (if high then ''high_impact'' else ''operate'') in
     if \<not> WithinCeiling role class \<or> class \<notin> set actions then tx_raise OpErrDenied else tx_ret (p, role)))"

definition control_kind :: "string \<Rightarrow> string" where
  "control_kind reason = (if reason = ''reservation_released_residual_risk'' then ''operation.reservation_released''
     else if reason = ''cancelled_before_dispatch'' then ''operation.cancelled'' else ''operation.reconciled'')"

definition controlAudit :: "step_env \<Rightarrow> operation_row \<Rightarrow> uuid \<Rightarrow> uuid \<Rightarrow> string \<Rightarrow> string \<Rightarrow> uuid dbtx" where
  "controlAudit v p actor scope request reason = (case se_audit v of None \<Rightarrow> tx_raise OpErrStore
     | Some aid \<Rightarrow> tx_bind (tx_as OpErrStore (Append (se_clk v) (user_event aid scope actor (control_kind reason) request
         [(''operation_id'', uuid_String (o_id p)), (''resource_id'', uuid_String (o_resource p)), (''reason_code'', reason)]))) (\<lambda>_. tx_ret aid))"

definition job_of_operation :: "uuid \<Rightarrow> uuid \<Rightarrow> job_row \<Rightarrow> bool" where
  "job_of_operation scope i j \<longleftrightarrow> j_workspace j = scope \<and> j_operation j = Some i"

definition cancel_tx :: "step_env \<Rightarrow> principal \<Rightarrow> uuid \<Rightarrow> uuid \<Rightarrow> string \<Rightarrow> accepted dbtx" where
  "cancel_tx v p scope i request =
     tx_bind (controlLoad (pr_UserID p) scope i) (\<lambda>(pl, _).
     if o_state pl \<noteq> Queued then tx_raise OpErrState
     else tx_bind (advance (se_clk v) (fst (se_events v)) scope (o_id pl) (o_state pl) Cancelled) (\<lambda>_.
     tx_bind (exec OpErrStore (update_jobs (\<lambda>j. job_of_operation scope i j \<and> (j_state j = JQueued \<or> j_state j = JRunning)) (completed (se_clk v) JCancelled))) (\<lambda>_.
     tx_bind (controlAudit v pl (pr_UserID p) scope request ''cancelled_before_dispatch'') (\<lambda>_.
     tx_ret \<lparr>ac_ID = i, ac_State = Cancelled\<rparr>))))"

definition Cancel :: "step_env \<Rightarrow> principal \<Rightarrow> uuid \<Rightarrow> uuid \<Rightarrow> string \<Rightarrow> db \<Rightarrow> (err + accepted) \<times> db" where
  "Cancel v p scope i request d = run_tx OpErrStore OpErrStore (se_net v) (cancel_tx v p scope i request) d"

definition reobserved :: "time \<Rightarrow> job_row \<Rightarrow> job_row" where
  "reobserved clk j = j\<lparr>j_state := JQueued, j_deadline := clk + 5 * minute, j_next_run_at := clk, j_attempts := 0, j_completed_at := None,
     j_lease_owner := None, j_lease_token := None, j_lease_expires_at := None\<rparr>"

definition recheck_tx :: "step_env \<Rightarrow> principal \<Rightarrow> uuid \<Rightarrow> uuid \<Rightarrow> string \<Rightarrow> (bool \<times> accepted) dbtx" where
  "recheck_tx v p scope i request =
     tx_bind (controlLoad (pr_UserID p) scope i) (\<lambda>(pl, _).
     tx_bind (if o_state pl = Reconciling then query OpErrStore (\<lambda>d. \<exists>j \<in> set (jobs d). job_of_operation scope i j
            \<and> (j_state j = JQueued \<or> j_state j = JRunning) \<and> j_deadline j > se_clk v) else tx_ret False) (\<lambda>pending.
     if pending then tx_ret (False, \<lparr>ac_ID = i, ac_State = Reconciling\<rparr>)
     else if o_state pl \<noteq> Unknown then tx_raise OpErrState
     else tx_bind (query OpErrStore (\<lambda>d. \<exists>l \<in> set (locks d). lock_holder l = (scope, i))) (\<lambda>held.
     if \<not> held then tx_raise OpErrState
     else tx_bind (controlAudit v pl (pr_UserID p) scope request ''user_requested_recheck'') (\<lambda>_.
     tx_bind (advance (se_clk v) (fst (se_events v)) scope (o_id pl) (o_state pl) Reconciling) (\<lambda>_.
     tx_bind (sql OpErrStore (\<lambda>d. let P = (\<lambda>j. job_of_operation scope i j \<and> j_type j = ''operation_dispatch'' \<and> j_payload_version j = 3) in
         map_option (\<lambda>d'. (cnt P (jobs d), d')) (update_jobs P (reobserved (se_clk v)) d))) (\<lambda>affected.
     if affected \<noteq> 1 then tx_raise OpErrStore else tx_ret (True, \<lparr>ac_ID = i, ac_State = Reconciling\<rparr>)))))))"

definition Recheck :: "step_env \<Rightarrow> principal \<Rightarrow> uuid \<Rightarrow> uuid \<Rightarrow> string \<Rightarrow> db \<Rightarrow> (err + accepted) \<times> db" where
  "Recheck v p scope i request d = run_tx_if OpErrStore OpErrStore (se_net v) (recheck_tx v p scope i request) d"

record resolution =
  rn_Acknowledged :: bool
  rn_Target :: string

definition insert_resolution :: "resolution_row \<Rightarrow> db \<Rightarrow> db option" where
  "insert_resolution x d = (if x_id x \<notin> set (map x_id (resolutions d)) \<and> x_actor x \<in> set (map u_id (users d))
      \<and> \<not> (\<exists>y \<in> set (resolutions d). x_workspace y = x_workspace x \<and> x_operation y = x_operation x)
      \<and> operation_of d (x_workspace x) (x_operation x) \<noteq> None \<and> (\<exists>a \<in> set (audit_events d). a_workspace a = x_workspace x \<and> a_id a = x_audit x)
     then Some (d\<lparr>resolutions := resolutions d @ [x]\<rparr>) else None)"

definition resolution_facts :: "db \<Rightarrow> uuid \<Rightarrow> uuid \<Rightarrow> uuid \<Rightarrow> (string \<times> bool) option" where
  "resolution_facts d scope i actor =
     Option.bind (operation_of d scope i) (\<lambda>p.
     Option.bind (fetch (\<lambda>r. ar_id r = o_review p) (reviews d)) (\<lambda>r.
     map_option (\<lambda>g. (ar_target_name r, ''high_impact'' \<in> set (g_actions g))) (grant_of d scope (o_connection p) actor)))"

definition release_tx :: "step_env \<Rightarrow> principal \<Rightarrow> uuid \<Rightarrow> uuid \<Rightarrow> resolution \<Rightarrow> string \<Rightarrow> accepted dbtx" where
  "release_tx v p scope i input request =
     tx_bind (controlLoad (pr_UserID p) scope i) (\<lambda>(pl, role).
     if role \<noteq> ''owner'' then tx_raise OpErrDenied
     else if o_state pl \<noteq> Unknown then tx_raise OpErrState
     else tx_bind (query_row OpErrStore OpErrStore (\<lambda>d. resolution_facts d scope i (pr_UserID p))) (\<lambda>(name, high).
     if \<not> high then tx_raise OpErrDenied
     else if name \<noteq> rn_Target input then tx_raise OpErrInvalid
     else tx_bind (controlAudit v pl (pr_UserID p) scope request ''reservation_released_residual_risk'') (\<lambda>aid.
     case fst (se_events v) of None \<Rightarrow> tx_raise OpErrStore
     | Some rid \<Rightarrow>
     tx_bind (exec OpErrState (insert_resolution \<lparr>x_id = rid, x_workspace = scope, x_operation = i, x_actor = pr_UserID p, x_audit = aid\<rparr>)) (\<lambda>_.
     tx_bind (sql OpErrState (\<lambda>d. Some (cnt (\<lambda>l. lock_holder l = (scope, i)) (locks d), d\<lparr>locks := del (\<lambda>l. lock_holder l = (scope, i)) (locks d)\<rparr>))) (\<lambda>affected.
     if affected \<noteq> 1 then tx_raise OpErrState
     else tx_bind (exec OpErrStore (update_jobs (job_of_operation scope i) (completed (se_clk v) JCancelled))) (\<lambda>_.
     tx_ret \<lparr>ac_ID = i, ac_State = Unknown\<rparr>))))))"

definition ReleaseUnknown :: "service \<Rightarrow> step_env \<Rightarrow> principal \<Rightarrow> uuid \<Rightarrow> uuid \<Rightarrow> resolution \<Rightarrow> string \<Rightarrow> db \<Rightarrow> (err + accepted) \<times> db" where
  "ReleaseUnknown s v p scope i input request d =
     (if \<not> rn_Acknowledged input then (Inl OpErrInvalid, d)
      else if \<not> sv_sessions s \<or> isl (RequireRecent (se_now v) p) then (Inl IdErrRecentRequired, d)
      else run_tx OpErrStore OpErrStore (se_net v) (release_tx v p scope i input request) d)"

section \<open>Retention of reviews\<close>

definition review_prunable :: "time \<Rightarrow> db \<Rightarrow> review_row \<Rightarrow> bool" where
  "review_prunable clk d r \<longleftrightarrow> ar_consumed_by r = None \<and> ar_expires_at r < clk - 7 * day
     \<and> \<not> (\<exists>p \<in> set (operations d). o_workspace p = ar_workspace r \<and> o_review p = ar_id r)"

definition review_batch :: "time \<Rightarrow> (uuid \<Rightarrow> bool) \<Rightarrow> db \<Rightarrow> uuid list" where
  "review_batch clk busy d = map ar_id (take 100 (sort_key (\<lambda>r. (ar_expires_at r, ar_id r))
     (filter (\<lambda>r. review_prunable clk d r \<and> \<not> busy (ar_id r)) (reviews d))))"

definition PruneReviews :: "net \<Rightarrow> time \<Rightarrow> (uuid \<Rightarrow> bool) \<Rightarrow> db \<Rightarrow> (err + nat) \<times> db" where
  "PruneReviews n clk busy d = run_auto OpErrStore n (sql OpErrStore (\<lambda>d. let batch = review_batch clk busy d in
     Some (cnt (\<lambda>r. ar_id r \<in> set batch) (reviews d), d\<lparr>reviews := del (\<lambda>r. ar_id r \<in> set batch) (reviews d)\<rparr>))) d"

section \<open>History\<close>

record event_view =
  ew_Sequence :: int
  ew_State :: op_state
  ew_CreatedAt :: time

record op_view =
  ov_row :: operation_row
  ov_ReservationReleased :: bool
  ov_Uncertain :: bool
  ov_TargetName :: string
  ov_NativeID :: string
  ov_Provider :: string
  ov_AccountIdentity :: string
  ov_Region :: string
  ov_Events :: "event_view list"

record history_cursor =
  hc_Workspace :: uuid
  hc_Actor :: uuid
  hc_At :: "time option"
  hc_ID :: uuid

text \<open>The newest twenty events in ascending order.\<close>

definition recent_events :: "db \<Rightarrow> operation_row \<Rightarrow> event_view list" where
  "recent_events d p = map (\<lambda>e. \<lparr>ew_Sequence = e_sequence e, ew_State = e_to e, ew_CreatedAt = e_created_at e\<rparr>)
     (let es = sort_key e_sequence (filter (\<lambda>e. e_workspace e = o_workspace p \<and> e_operation e = o_id p) (events d)) in drop (length es - 20) es)"

definition op_view_of :: "db \<Rightarrow> uuid \<Rightarrow> uuid \<Rightarrow> operation_row \<Rightarrow> op_view option" where
  "op_view_of d actor scope p =
     (if o_workspace p \<noteq> scope \<or> open_workspace d scope = None \<or> live_member d scope actor = None then None
      else Option.bind (connection_of d scope (o_connection p)) (\<lambda>c.
        Option.bind (resource_of d scope (o_connection p) (o_resource p)) (\<lambda>r.
        Option.bind (fetch (\<lambda>a. ar_workspace a = scope \<and> ar_connection a = o_connection p \<and> ar_id a = o_review p) (reviews d)) (\<lambda>a.
        Option.bind (grant_of d scope (o_connection p) actor) (\<lambda>g.
        if ''read'' \<in> set (g_actions g)
        then Some \<lparr>ov_row = p, ov_ReservationReleased = (\<exists>x \<in> set (resolutions d). x_workspace x = scope \<and> x_operation x = o_id p),
          ov_Uncertain = (o_state p = Unknown), ov_TargetName = ar_target_name a, ov_NativeID = r_native_id r, ov_Provider = c_provider c,
          ov_AccountIdentity = c_account_identity c, ov_Region = dt_Region (r_details r), ov_Events = recent_events d p\<rparr>
        else None)))))"

definition before :: "time \<times> uuid \<Rightarrow> operation_row \<Rightarrow> bool" where
  "before k p \<longleftrightarrow> o_created_at p < fst k \<or> o_created_at p = fst k \<and> o_id p < snd k"

definition history_position :: "uuid \<Rightarrow> uuid \<Rightarrow> uuid \<Rightarrow> (nat \<times> history_cursor option) option \<Rightarrow> (time \<times> uuid) option option" where
  "history_position scope actor target position = (case position of None \<Rightarrow> Some None
     | Some (len, decoded) \<Rightarrow> if len > 1024 \<or> target \<noteq> uuid_Nil then None
         else (case decoded of None \<Rightarrow> None
           | Some h \<Rightarrow> if hc_Workspace h \<noteq> scope \<or> hc_Actor h \<noteq> actor \<or> uuid_version (hc_ID h) \<noteq> 7 then None
               else (case hc_At h of None \<Rightarrow> None | Some t \<Rightarrow> Some (Some (t, hc_ID h)))))"

definition history_key :: "op_view \<Rightarrow> time \<times> uuid" where
  "history_key v = (o_created_at (ov_row v), o_id (ov_row v))"

definition operation_Read :: "net \<Rightarrow> uuid \<Rightarrow> uuid \<Rightarrow> uuid \<Rightarrow> (nat \<times> history_cursor option) option \<Rightarrow> int \<Rightarrow> db
    \<Rightarrow> err + (op_view list \<times> history_cursor option)" where
  "operation_Read n actor scope target position limit d =
     (if limit < 1 \<or> limit > 200 then Inl WsErrInvalid
      else (case history_position scope actor target position of None \<Rightarrow> Inl WsErrInvalid
        | Some after \<Rightarrow>
            if n_left n = Some 0 then Inl WsErrStore
            else (let rows = rev (sort_key history_key (List.map_filter (op_view_of d actor scope)
                    (filter (\<lambda>p. (case after of None \<Rightarrow> True | Some k \<Rightarrow> before k p) \<and> (target = uuid_Nil \<or> o_id p = target)) (operations d)))) in
              (case paginate (nat limit) history_key rows of (data, next) \<Rightarrow>
                 if target \<noteq> uuid_Nil \<and> data = [] then Inl WsErrNotFound
                 else Inr (data, map_option (\<lambda>k. \<lparr>hc_Workspace = scope, hc_Actor = actor, hc_At = Some (fst k), hc_ID = snd k\<rparr>) next)))))"

end
