(* ===== verification/Sama_Lifecycle.thy ===== *)
theory Sama_Lifecycle
  imports Sama_Dispatch
begin

text \<open>
  What the transactions of package \<^verbatim>\<open>operation\<close> do to the lifecycle of operations: each keeps
  \<open>op_inv\<close> and moves the states of operations only along the abstract machine \<open>abs_move\<close>.
\<close>

section \<open>The abstract machine\<close>

text \<open>The abstract state of the installation: the state of every operation.\<close>

type_synonym lifecycle = "uuid \<rightharpoonup> op_state"

inductive abs_move :: "lifecycle \<Rightarrow> lifecycle \<Rightarrow> bool" where
  accept: "m i = None \<Longrightarrow> abs_move m (m(i \<mapsto> Queued))"
| move: "m i = Some s \<Longrightarrow> Allowed s t \<Longrightarrow> abs_move m (m(i \<mapsto> t))"

inductive_cases abs_moveE: "abs_move m m'"

definition op_states :: "db \<Rightarrow> lifecycle" where
  "op_states d = (\<lambda>i. map_option o_state (fetch (\<lambda>p. o_id p = i) (operations d)))"

text \<open>Whatever left \<open>queued\<close> never returns to it, and never disappears.\<close>

lemma abs_move_dispatched: "abs_move m m' \<Longrightarrow> m i = Some s \<Longrightarrow> s \<noteq> Queued \<Longrightarrow> \<exists>t. m' i = Some t \<and> t \<noteq> Queued"
  by (auto elim!: abs_moveE dest: Allowed_not_Queued)

lemma abs_moves_dispatched: "abs_move\<^sup>*\<^sup>* m m' \<Longrightarrow> m i = Some s \<Longrightarrow> s \<noteq> Queued \<Longrightarrow> \<exists>t. m' i = Some t \<and> t \<noteq> Queued"
  by (induction arbitrary: s rule: converse_rtranclp_induct) (auto dest: abs_move_dispatched)

lemma abs_move_terminal: "abs_move m m' \<Longrightarrow> m i = Some s \<Longrightarrow> op_terminal s \<Longrightarrow> m' i = Some s"
  by (auto elim!: abs_moveE simp: Allowed_terminal)

lemma abs_moves_terminal: "abs_move\<^sup>*\<^sup>* m m' \<Longrightarrow> m i = Some s \<Longrightarrow> op_terminal s \<Longrightarrow> m' i = Some s"
  by (induction rule: converse_rtranclp_induct) (auto dest: abs_move_terminal)

lemma op_states_Some: "op_states d i = Some s \<Longrightarrow> \<exists>p \<in> set (operations d). o_id p = i \<and> o_state p = s"
  by (auto simp: op_states_def dest: fetch_Some)

lemma op_states_in: "op_inv d \<Longrightarrow> p \<in> set (operations d) \<Longrightarrow> op_states d (o_id p) = Some (o_state p)"
  unfolding op_states_def by (subst fetch_unique [where k = o_id and r = p]) (auto dest: op_inv_distinct)

lemma op_states_upd:
  assumes "\<And>p. P p \<Longrightarrow> o_id (f p) = o_id p"
  shows "op_states (d\<lparr>operations := upd P f (operations d)\<rparr>) i =
    map_option (\<lambda>p. o_state (if P p then f p else p)) (fetch (\<lambda>p. o_id p = i) (operations d))"
  by (simp add: op_states_def fetch_upd assms option.map_comp comp_def)

text \<open>\<open>lifecycle d d'\<close>: what every transaction guarantees from a database with the invariant.\<close>

definition lifecycle_ok :: "db \<Rightarrow> db \<Rightarrow> bool" where
  "lifecycle_ok d d' \<longleftrightarrow> op_inv d' \<and> abs_move\<^sup>*\<^sup>* (op_states d) (op_states d')"

lemma lifecycle_refl: "op_inv d \<Longrightarrow> lifecycle_ok d d"
  by (simp add: lifecycle_ok_def)

lemma lifecycle_inv: "lifecycle_ok d d' \<Longrightarrow> op_inv d'"
  by (simp add: lifecycle_ok_def)

lemma lifecycle_trans: "lifecycle_ok d d1 \<Longrightarrow> lifecycle_ok d1 d2 \<Longrightarrow> lifecycle_ok d d2"
  by (auto simp: lifecycle_ok_def)

lemma op_states_frame [simp]:
  "op_states (d\<lparr>jobs := a1\<rparr>) = op_states d" "op_states (d\<lparr>audit_events := a2\<rparr>) = op_states d" "op_states (d\<lparr>reviews := a3\<rparr>) = op_states d"
  "op_states (d\<lparr>resolutions := a4\<rparr>) = op_states d" "op_states (d\<lparr>gate := a5\<rparr>) = op_states d" "op_states (d\<lparr>locks := a6\<rparr>) = op_states d"
  "op_states (d\<lparr>events := a7\<rparr>) = op_states d" "op_states (d\<lparr>sync_runs := a8\<rparr>) = op_states d" "op_states (d\<lparr>sync_counter := a9\<rparr>) = op_states d"
  "op_states (d\<lparr>resources := b1\<rparr>) = op_states d" "op_states (d\<lparr>lock_counter := b2\<rparr>) = op_states d" "op_states (d\<lparr>staging := b3\<rparr>) = op_states d"
  by (simp_all add: op_states_def)

lemma lifecycle_frame [simp]:
  "lifecycle_ok d (d'\<lparr>jobs := a1\<rparr>) = lifecycle_ok d d'" "lifecycle_ok d (d'\<lparr>audit_events := a2\<rparr>) = lifecycle_ok d d'"
  "lifecycle_ok d (d'\<lparr>reviews := a3\<rparr>) = lifecycle_ok d d'" "lifecycle_ok d (d'\<lparr>resolutions := a4\<rparr>) = lifecycle_ok d d'"
  "lifecycle_ok d (d'\<lparr>gate := a5\<rparr>) = lifecycle_ok d d'" "lifecycle_ok d (d'\<lparr>sync_runs := a8\<rparr>) = lifecycle_ok d d'"
  "lifecycle_ok d (d'\<lparr>sync_counter := a9\<rparr>) = lifecycle_ok d d'"
  by (simp_all add: lifecycle_ok_def)

lemma lifecycle_same:
  "op_inv d \<Longrightarrow> operations d' = operations d \<Longrightarrow> events d' = events d \<Longrightarrow> locks d' = locks d \<Longrightarrow> resources d' = resources d \<Longrightarrow> lifecycle_ok d d'"
  using op_inv_tables [of d' d] by (simp add: lifecycle_ok_def op_states_def)

section \<open>One step of an operation\<close>

declare vc_advance [vc_rules del]

text \<open>The contract of \<open>advance\<close> in terms of the abstract machine; the tables it does not write stay.\<close>

definition stepped :: "uuid \<Rightarrow> uuid \<Rightarrow> op_state \<Rightarrow> op_state \<Rightarrow> db \<Rightarrow> db \<Rightarrow> bool" where
  "stepped w i s t d d' \<longleftrightarrow> Allowed s t \<and> op_states d i = Some s \<and> op_states d' = (op_states d)(i \<mapsto> t) \<and> op_inv d'
     \<and> locks d' = (if op_terminal t then del (\<lambda>l. lock_holder l = (w, i)) (locks d) else locks d)
     \<and> d' = d\<lparr>operations := operations d', events := events d', locks := locks d'\<rparr>"

lemma stepped_lifecycle: "stepped w i s t d d' \<Longrightarrow> lifecycle_ok d d'"
  by (auto simp: stepped_def lifecycle_ok_def intro!: r_into_rtranclp abs_move.move)

lemma stepped_inv: "stepped w i s t d d' \<Longrightarrow> op_inv d'"
  by (simp add: stepped_def)

lemma stepped_frame:
  assumes "stepped w i s t d d'"
  shows "jobs d' = jobs d \<and> gate d' = gate d \<and> resources d' = resources d \<and> reviews d' = reviews d \<and> audit_events d' = audit_events d"
proof -
  have e: "d' = d\<lparr>operations := operations d', events := events d', locks := locks d'\<rparr>" using assms unfolding stepped_def by blast
  show ?thesis
    using arg_cong [OF e, of jobs] arg_cong [OF e, of gate] arg_cong [OF e, of resources] arg_cong [OF e, of reviews] arg_cong [OF e, of audit_events]
    by simp
qed

lemma vc_step [vc_rules]:
  assumes inv: "op_inv d" and res: "s = Unknown \<Longrightarrow> reserved d w i" and Q: "\<And>d'. stepped w i s t d d' \<Longrightarrow> Q () d'"
  shows "vc (advance clk eid w i s t) Q d"
proof (rule vc_advance [OF inv res])
  fix p d'
  assume al: "Allowed s t" and p: "p \<in> set (operations d)" "op_at w i p" "o_state p = s"
    and adv: "advanced clk (\<lambda>p. op_at w i p \<and> o_state p = s) t p d d'" and inv': "op_inv d'"
  let ?P = "\<lambda>p. op_at w i p \<and> o_state p = s"
  have i: "o_id p = i" "o_workspace p = w" using p by (auto simp: op_at_def)
  from adv obtain eid where d': "d' = d\<lparr>operations := upd ?P (moved clk t) (operations d), events := events d @ [new_event clk eid (Some (o_state p)) t p],
      locks := if op_terminal t then del (\<lambda>l. lock_holder l = (o_workspace p, o_id p)) (locks d) else locks d\<rparr>"
    by (auto simp: advanced_def)
  have f: "fetch (\<lambda>q. o_id q = i) (operations d) = Some p"
    by (rule fetch_unique [where k = o_id]) (use p i op_inv_distinct [OF inv] in auto)
  have other: "\<not> ?P q" if "fetch (\<lambda>q. o_id q = k) (operations d) = Some q" "k \<noteq> i" for q k
    using that by (auto simp: op_at_def dest!: fetch_Some)
  have "op_states d' k = ((op_states d)(i \<mapsto> t)) k" for k
  proof -
    have "op_states d' k = map_option (\<lambda>q. o_state (if ?P q then moved clk t q else q)) (fetch (\<lambda>q. o_id q = k) (operations d))"
      unfolding d' using op_states_upd [of ?P "moved clk t" d k] by (simp add: op_states_def)
    also have "\<dots> = ((op_states d)(i \<mapsto> t)) k"
    proof (cases "k = i")
      case True
      with f p show ?thesis by simp
    next
      case False
      then show ?thesis using other by (cases "fetch (\<lambda>q. o_id q = k) (operations d)") (auto simp: op_states_def)
    qed
    finally show ?thesis .
  qed
  then have "op_states d' = (op_states d)(i \<mapsto> t)" by (rule ext)
  moreover have "op_states d i = Some s" using f p by (simp add: op_states_def)
  ultimately have "stepped w i s t d d'" using al inv' i by (simp add: stepped_def d')
  then show "Q () d'" by (rule Q)
qed

lemma vc_dispatchLoad [vc_rules]:
  assumes "\<And>p o1. o1 \<in> set (operations d) \<Longrightarrow> o_id o1 = dp_id p \<Longrightarrow> o_state o1 = dp_state p \<Longrightarrow> o_workspace o1 = jr_Workspace lease \<Longrightarrow>
      leased_operation clk lease d = Some o1 \<Longrightarrow> dp_actor p = o_actor o1 \<Longrightarrow> dp_target p = o_resource o1 \<Longrightarrow> dp_reference p = o_reference o1 \<Longrightarrow>
      has_review d (o_actor o1) (jr_Workspace lease) (o_review o1) (dp_review p) \<Longrightarrow> Q p d"
  shows "vc (dispatchLoad clk lease) Q d"
  unfolding dispatchLoad_def
proof (intro vc_rules)
  fix w o1 st
  assume o1: "leased_operation clk lease d = Some o1" and st: "has_review d (o_actor o1) (jr_Workspace lease) (o_review o1) st"
  from o1 have "o1 \<in> set (operations d)" "o_workspace o1 = jr_Workspace lease"
    by (auto simp: leased_operation_def leased_job_def dest!: fetch_Some)
  with o1 st show "Q \<lparr>dp_id = o_id o1, dp_actor = o_actor o1, dp_target = o_resource o1, dp_review = st, dp_authority = None, dp_state = o_state o1, dp_reference = o_reference o1\<rparr> d"
    by (intro assms [of o1]) simp_all
qed

lemma vc_executionAudit [vc_rules]: "(\<And>a. Q () (d\<lparr>audit_events := audit_events d @ [a]\<rparr>)) \<Longrightarrow> vc (executionAudit v w i t st) Q d"
  unfolding executionAudit_def by (intro vc_rules) auto

lemma vc_controlAudit [vc_rules]: "(\<And>aid a. Q aid (d\<lparr>audit_events := audit_events d @ [a]\<rparr>)) \<Longrightarrow> vc (controlAudit v p actor scope request reason) Q d"
  unfolding controlAudit_def by (intro vc_rules) auto

lemma reserved_frame [simp]: "reserved (d\<lparr>audit_events := a\<rparr>) w i = reserved d w i"
  by (simp add: reserved_def)

section \<open>The worker's transactions\<close>

lemma vc_reject: "op_inv d \<Longrightarrow> vc (reject_tx v lease) (\<lambda>_. lifecycle_ok d) d"
  unfolding reject_tx_def
  by (intro vc_rules) (auto dest: stepped_lifecycle)

text \<open>
  The marker: under a live lease and an open gate, with the authority read in this transaction, the operation
  moves from \<open>queued\<close> to \<open>dispatching\<close>.
\<close>

definition marked :: "service \<Rightarrow> time \<Rightarrow> lease \<Rightarrow> preconditions \<Rightarrow> db \<Rightarrow> dispatch_plan \<Rightarrow> db \<Rightarrow> bool" where
  "marked s clk lease pre d p d' \<longleftrightarrow> stepped (jr_Workspace lease) (dp_id p) Queued Dispatching d d'
     \<and> (\<exists>o1 a. leased_operation clk lease d = Some o1 \<and> o_id o1 = dp_id p \<and> dp_authority p = Some a
        \<and> has_review d (o_actor o1) (jr_Workspace lease) (o_review o1) (dp_review p)
        \<and> has_authority s d (o_actor o1) (jr_Workspace lease) (o_resource o1) a
        \<and> bi_connection (au_binding a) = jr_Connection lease \<and> bi_version (au_binding a) = st_credential (dp_review p) \<and> au_policy a = st_policy (dp_review p)
        \<and> authorized a (in_Action (st_intent (dp_review p))) (st_high (dp_review p))
        \<and> (sv_policy s \<noteq> None \<longrightarrow> permits (sv_policy s) (family_key a) (in_Action (st_intent (dp_review p)))))
     \<and> (\<exists>g. gate d = Some g \<and> gate_open g) \<and> pc_Fingerprint pre = st_preconditions (dp_review p)"

lemma vc_marker: "op_inv d \<Longrightarrow> vc (marker_tx s v lease pre) (marked s (se_clk v) lease pre d) d"
  unfolding marker_tx_def dispatchCheck_def checkRecoveryGate_def
  by (intro vc_rules) (auto simp: marked_def)

lemma op_inv_reference:
  assumes "op_inv d" "\<And>p. f p = p\<lparr>o_reference := r\<rparr>"
  shows "op_inv (d\<lparr>operations := upd P f (operations d)\<rparr>)"
proof -
  let ?d = "d\<lparr>operations := upd P f (operations d)\<rparr>"
  let ?g = "\<lambda>p. if P p then f p else p"
  have tabs: "events ?d = events d" "locks ?d = locks d" "resources ?d = resources d" by simp_all
  have ops: "set (operations ?d) = ?g ` set (operations d)" by (simp add: set_upd)
  have g: "o_id (?g p) = o_id p" "o_workspace (?g p) = o_workspace p" "o_state (?g p) = o_state p" "o_event_sequence (?g p) = o_event_sequence p"
      "o_connection (?g p) = o_connection p" "o_resource (?g p) = o_resource p" for p by (simp_all add: assms(2))
  have "map o_id (operations ?d) = map o_id (operations d)" by (simp add: map_upd_key assms(2))
  moreover have "log_ok ?d (?g p) = log_ok d p" for p by (simp only: log_ok_def events_of_def g tabs)
  moreover have "op_at w i (?g p) = op_at w i p" for w i p by (simp only: op_at_def g)
  moreover have "lock_for ?d (?g p) l = lock_for d p l" for p l by (simp only: lock_for_def op_at_def g tabs)
  ultimately show ?thesis using assms(1) unfolding op_inv_def ops ball_simps bex_simps g by (simp only: tabs) blast
qed

lemma lifecycle_reference: "op_inv d \<Longrightarrow> set_reference w i r d = Some d' \<Longrightarrow> lifecycle_ok d d'"
proof -
  assume inv: "op_inv d" and s: "set_reference w i r d = Some d'"
  then have d': "d' = d\<lparr>operations := upd (op_at w i) (\<lambda>p. p\<lparr>o_reference := r\<rparr>) (operations d)\<rparr>" by (auto simp: set_reference_def split: if_splits)
  have "op_states d' k = op_states d k" for k
    unfolding d' by (subst op_states_upd) (auto simp: op_states_def intro!: option.map_cong)
  then have "op_states d' = op_states d" by (rule ext)
  with op_inv_reference [OF inv, of "\<lambda>p. p\<lparr>o_reference := r\<rparr>" r "op_at w i"] show ?thesis by (simp add: lifecycle_ok_def d')
qed

lemma vc_receipt: "op_inv d \<Longrightarrow> vc (receipt_tx v lease r) (\<lambda>_. lifecycle_ok d) d"
  unfolding receipt_tx_def
  by (intro vc_rules)
     (auto dest!: lifecycle_reference stepped_lifecycle dest: lifecycle_inv intro: lifecycle_trans)

section \<open>Bodies whose error is inspected\<close>

text \<open>\<open>stays I m\<close>: whether the body succeeds or fails, the database it leaves satisfies \<open>I\<close>.\<close>

definition stays :: "(db \<Rightarrow> bool) \<Rightarrow> 'a dbtx \<Rightarrow> bool" where
  "stays I m \<longleftrightarrow> (\<forall>s. I (t_db s) \<longrightarrow> I (t_db (snd (m s))))"

lemma stays_ret: "stays I (tx_ret x)" and stays_raise: "stays I (tx_raise e)"
  by (simp_all add: stays_def tx_ret_def tx_raise_def)

lemma stays_bind: "stays I m \<Longrightarrow> (\<And>x. stays I (f x)) \<Longrightarrow> stays I (tx_bind m f)"
  unfolding stays_def
proof (intro allI impI)
  fix s :: "db txs"
  assume m: "\<forall>s. I (t_db s) \<longrightarrow> I (t_db (snd (m s)))" and f: "\<And>x. \<forall>s. I (t_db s) \<longrightarrow> I (t_db (snd (f x s)))" and s: "I (t_db s)"
  obtain r s1 where r: "m s = (r, s1)" by (cases "m s")
  with m s have "I (t_db s1)" by (metis snd_conv)
  with r f show "I (t_db (snd (tx_bind m f s)))" by (cases r) (simp_all add: tx_bind_def)
qed

lemma stays_sql: "(\<And>d x d'. I d \<Longrightarrow> f d = Some (x, d') \<Longrightarrow> I d') \<Longrightarrow> stays I (sql e f)"
  by (auto simp: stays_def sql_def split: option.splits)

lemma stays_exec: "(\<And>d d'. I d \<Longrightarrow> f d = Some d' \<Longrightarrow> I d') \<Longrightarrow> stays I (exec e f)"
  unfolding exec_def by (rule stays_sql) auto

lemma stays_query: "stays I (query e f)"
  unfolding query_def by (rule stays_sql) auto

lemma stays_query_row: "stays I (query_row none e f)"
  unfolding query_row_def by (intro stays_bind stays_query) (auto split: option.splits intro: stays_ret stays_raise)

lemma stays_if: "stays I m \<Longrightarrow> stays I m' \<Longrightarrow> stays I (if b then m else m')"
  by simp

lemma stays_option: "stays I m \<Longrightarrow> (\<And>x. stays I (f x)) \<Longrightarrow> stays I (case v of None \<Rightarrow> m | Some x \<Rightarrow> f x)"
  by (cases v) auto

lemma stays_prod: "(\<And>x y. stays I (f x y)) \<Longrightarrow> stays I (case p of (x, y) \<Rightarrow> f x y)"
  by (cases p) auto

lemmas stays_rules = stays_ret stays_raise stays_bind stays_query stays_query_row stays_if stays_option stays_prod stays_exec

lemma vc_try: "stays I m \<Longrightarrow> I d \<Longrightarrow> (\<And>r d'. I d' \<Longrightarrow> Q r d') \<Longrightarrow> vc (tx_try m) Q d"
  by (rule vcI) (auto simp: tx_try_Inr stays_def dest: spec)

text \<open>The tables the lifecycle reads.\<close>

definition same_core :: "db \<Rightarrow> db \<Rightarrow> bool" where
  "same_core d d' \<longleftrightarrow> operations d' = operations d \<and> events d' = events d \<and> locks d' = locks d \<and> resources d' = resources d"

lemma stays_Enqueue: "stays (same_core d) (Enqueue clk now sid jid actor scope connection)"
  unfolding Enqueue_def enqueueType_def enqueueLockedType_def memberInTx_def
  by (intro stays_rules) (auto simp: same_core_def insert_run_def insert_job_def Let_def split: if_splits)

lemma lifecycle_core: "op_inv d \<Longrightarrow> same_core d d' \<Longrightarrow> lifecycle_ok d d'"
  by (rule lifecycle_same) (auto simp: same_core_def)

lemma same_core_audit [simp]: "same_core (d\<lparr>audit_events := a\<rparr>) d' = same_core d d'"
  by (simp add: same_core_def)

lemma lifecycle_then_core: "lifecycle_ok d d1 \<Longrightarrow> same_core d1 d2 \<Longrightarrow> lifecycle_ok d d2"
  by (blast intro: lifecycle_trans lifecycle_core lifecycle_inv)

lemma lifecycle_audit [simp]: "lifecycle_ok (d\<lparr>audit_events := a\<rparr>) d' = lifecycle_ok d d'"
  by (simp add: lifecycle_ok_def)

lemma vc_observe_refresh [vc_rules]:
  assumes "\<And>d'. same_core d d' \<Longrightarrow> Q () d'"
  shows "vc (observe_refresh v actor lease) Q d"
  unfolding observe_refresh_def
  by (intro vc_bind vc_try [where I = "same_core d", OF stays_Enqueue]; (simp add: same_core_def; fail)?; intro vc_rules; intro assms)

lemma vc_observe:
  assumes "op_inv d" "dp_state p \<noteq> Unknown"
  shows "vc (observe_tx v lease p to) (\<lambda>_. lifecycle_ok d) d"
  unfolding observe_tx_def
  by (intro vc_rules) (use assms in \<open>auto dest!: stepped_lifecycle dest: lifecycle_inv intro: lifecycle_trans lifecycle_then_core\<close>)

section \<open>The sweep and the controls\<close>

lemma vc_expire:
  assumes "op_inv d"
  shows "vc (expire_tx v jid w) (\<lambda>_. lifecycle_ok d) d"
  unfolding expire_tx_def Let_def
  by (intro vc_rules)
     (use assms in \<open>auto simp: update_jobs_Some dest!: stepped_lifecycle dest: lifecycle_inv intro: lifecycle_trans lifecycle_refl\<close>)

lemma vc_controlLoad [vc_rules]:
  assumes "\<And>p role. operation_of d scope i = Some p \<Longrightarrow> (\<exists>actions high. control_row d actor scope i = Some (p, role, actions, high)
      \<and> WithinCeiling role (if high then ''high_impact'' else ''operate'') \<and> (if high then ''high_impact'' else ''operate'') \<in> set actions) \<Longrightarrow> Q (p, role) d"
  shows "vc (controlLoad actor scope i) Q d"
  unfolding controlLoad_def Let_def
proof (intro vc_rules)
  fix w x p role y actions high
  assume "control_row d actor scope i = Some x" "x = (p, y)" "y = (role, high)" "high = (actions, w)"
  then show "Q (p, role) d" if "\<not> (\<not> WithinCeiling role (if w then ''high_impact'' else ''operate'') \<or> (if w then ''high_impact'' else ''operate'') \<notin> set actions)"
    using that by (intro assms) (auto simp: control_row_def bind_eq_Some_conv split: if_splits)
qed

lemma vc_cancel:
  assumes "op_inv d"
  shows "vc (cancel_tx v p scope i request) (\<lambda>r d'. lifecycle_ok d d' \<and> (\<exists>d1. stepped scope i Queued Cancelled d d1 \<and> operations d' = operations d1)) d"
  unfolding cancel_tx_def
  by (intro vc_rules) (use assms in \<open>auto simp: update_jobs_Some dest!: operation_of_Some dest: stepped_lifecycle simp: op_at_def\<close>)

lemma vc_recheck:
  assumes "op_inv d"
  shows "vc (recheck_tx v p scope i request) (\<lambda>r. lifecycle_ok d) d"
  unfolding recheck_tx_def Let_def
  by (intro vc_rules) (use assms in \<open>auto simp: update_jobs_Some reserved_def dest!: operation_of_Some dest: stepped_lifecycle intro: lifecycle_refl simp: op_at_def\<close>)

text \<open>Releasing the reservation of an operation that may not act any more keeps the invariant.\<close>

lemma op_inv_release:
  assumes inv: "op_inv d" and p: "p \<in> set (operations d)" "o_state p = Unknown"
  shows "op_inv (d\<lparr>locks := del (\<lambda>l. lock_holder l = (o_workspace p, o_id p)) (locks d)\<rparr>)"
proof -
  let ?d = "d\<lparr>locks := del (\<lambda>l. lock_holder l = (o_workspace p, o_id p)) (locks d)\<rparr>"
  have "\<exists>l \<in> set (locks ?d). lock_holder l = (o_workspace q, o_id q)" if q: "q \<in> set (operations d)" "in_flight (o_state q)" for q
  proof -
    have "q \<noteq> p" using q p by (auto simp: in_flight_def)
    then have "o_id q \<noteq> o_id p" using unique_key [OF op_inv_distinct [OF inv] q(1) p(1)] by blast
    moreover from inv q obtain l where "l \<in> set (locks d)" "lock_holder l = (o_workspace q, o_id q)" by (auto simp: op_inv_def)
    ultimately show ?thesis by (intro bexI [of _ l]) auto
  qed
  moreover have "log_ok ?d = log_ok d" by (simp add: log_ok_def events_of_def fun_eq_iff)
  moreover have "lock_for ?d = lock_for d" by (simp add: lock_for_def fun_eq_iff)
  ultimately show ?thesis using inv unfolding op_inv_def by (simp add: distinct_map_del)
qed

lemma lifecycle_release:
  assumes inv: "op_inv d" and p: "operation_of d w i = Some p" "o_state p = Unknown" and same: "same_core d d1"
  shows "lifecycle_ok d (d1\<lparr>locks := del (\<lambda>l. lock_holder l = (w, i)) (locks d1)\<rparr>)"
proof -
  have "op_inv d1" "operations d1 = operations d" using lifecycle_core [OF inv same] same by (auto simp: lifecycle_ok_def same_core_def)
  moreover have "p \<in> set (operations d)" "o_workspace p = w" "o_id p = i" using operation_of_Some [OF p(1)] by (auto simp: op_at_def)
  ultimately have "op_inv (d1\<lparr>locks := del (\<lambda>l. lock_holder l = (w, i)) (locks d1)\<rparr>)" using op_inv_release [of d1 p] p(2) by simp
  then show ?thesis using \<open>operations d1 = operations d\<close> by (simp add: lifecycle_ok_def op_states_def)
qed

lemma insert_resolution_core: "insert_resolution x d = Some d' \<Longrightarrow> same_core d d'"
  by (auto simp: insert_resolution_def same_core_def split: if_splits)

lemma vc_release:
  assumes "op_inv d"
  shows "vc (release_tx v p scope i input request) (\<lambda>r. lifecycle_ok d) d"
  unfolding release_tx_def
  by (intro vc_rules) (auto simp: update_jobs_Some dest!: insert_resolution_core intro: lifecycle_release [OF assms])

section \<open>Acceptance and publication\<close>

lemma lifecycle_acceptance:
  assumes inv: "op_inv d" and acc: "acceptance clk now i p scope key hash c r d d'"
  shows "lifecycle_ok d d'"
proof -
  let ?op = "new_operation clk i scope (pr_UserID p) key hash (cf_ReviewID c) r (now + 30 * minute)"
  have op: "o_id ?op = i" "o_state ?op = Queued" by (simp_all add: new_operation_def)
  have ops: "operations d' = operations d @ [?op]" and fresh: "i \<notin> set (map o_id (operations d))"
    using acc op by (auto simp: acceptance_def Let_def operation_insert_ok_def)
  have none: "fetch (\<lambda>q. o_id q = i) (operations d) = None" using fresh by (auto simp: fetch_None)
  have "op_states d' = (op_states d)(i \<mapsto> Queued)"
  proof (rule ext)
    fix k
    show "op_states d' k = ((op_states d)(i \<mapsto> Queued)) k"
      using none op by (cases "k = i") (auto simp: op_states_def ops fetch_append split: option.splits)
  qed
  moreover have "op_states d i = None" using none by (simp add: op_states_def)
  ultimately show ?thesis using op_inv_acceptance [OF inv acc] abs_move.accept [of "op_states d" i] by (auto simp: lifecycle_ok_def)
qed

lemma lifecycle_confirm:
  assumes "op_inv d" "run_tx_if OpErrStore OpErrStore n (confirm_tx s clk now ids p scope key c request hash pre) d = (res, d')"
  shows "lifecycle_ok d d'"
  using vc_run_tx_if [OF assms(2) vc_confirm_tx [OF assms(1)]] lifecycle_refl [OF assms(1)] lifecycle_acceptance [OF assms(1)]
  by (auto simp: confirm_post_def confirmed_def)

text \<open>A publication rewrites rows in place, so the resource a reservation names stays where it is.\<close>

lemma op_inv_resources:
  assumes inv: "op_inv d" and new: "distinct (map r_id new)"
    and kept: "\<forall>r \<in> set (resources d). \<exists>r' \<in> set new. r_id r' = r_id r \<and> identity_key r' = identity_key r"
  shows "op_inv (d\<lparr>resources := new\<rparr>)"
proof -
  let ?d = "d\<lparr>resources := new\<rparr>"
  have "lock_for ?d p l" if "lock_for d p l" for p l
  proof -
    from that obtain r where r: "r \<in> set (resources d)" "r_workspace r = o_workspace p" "r_connection r = o_connection p" "r_id r = o_resource p"
        "l_target_kind l = ''resource''" "l_resource_type l = r_type r" "l_scope l = r_scope r" "l_native_id l = r_native_id r"
      by (auto simp: lock_for_def)
    with kept obtain r' where "r' \<in> set new" "r_id r' = r_id r" "identity_key r' = identity_key r" by blast
    with r that show ?thesis by (auto simp: lock_for_def identity_key_def intro!: bexI [of _ r'])
  qed
  moreover have "log_ok ?d = log_ok d" by (simp add: log_ok_def events_of_def fun_eq_iff)
  ultimately show ?thesis using inv new unfolding op_inv_def by (simp; meson)
qed

definition rows_kept :: "resource_row list \<Rightarrow> resource_row list \<Rightarrow> bool" where
  "rows_kept old new \<longleftrightarrow> (distinct (map r_id old) \<longrightarrow> distinct (map r_id new))
     \<and> (\<forall>r \<in> set old. \<exists>r' \<in> set new. r_id r' = r_id r \<and> identity_key r' = identity_key r)"

lemma rows_kept_refl: "rows_kept old old"
  by (auto simp: rows_kept_def)

lemma rows_kept_trans: "rows_kept a b \<Longrightarrow> rows_kept b c \<Longrightarrow> rows_kept a c"
  unfolding rows_kept_def by metis

lemma rows_kept_upd:
  assumes "\<And>r. P r \<Longrightarrow> r_id (f r) = r_id r" "\<And>r. P r \<Longrightarrow> identity_key (f r) = identity_key r"
  shows "rows_kept old (upd P f old)"
proof -
  have "\<exists>r' \<in> set (upd P f old). r_id r' = r_id r \<and> identity_key r' = identity_key r" if "r \<in> set old" for r
    using in_updI [OF that, of P f] in_upd_other [OF that, of P f] assms by (cases "P r") blast+
  then show ?thesis by (simp add: rows_kept_def map_upd_key assms)
qed

lemma rows_kept_upsert_row: "upsert_row fits P r d = Some (x, d') \<Longrightarrow> rows_kept (resources d) (resources d')"
  by (auto simp: upsert_row_def rows_kept_refl intro!: rows_kept_upd split: option.splits if_splits) (auto simp: rows_kept_def)

lemma rows_kept_upsert_all: "upsert_all fits k rs d = Some d' \<Longrightarrow> rows_kept (resources d) (resources d')"
proof (induction rs arbitrary: d)
  case (Cons r rs)
  then obtain x d1 where "upsert_row fits (not_newer k) (published_row r) d = Some (x, d1)" "upsert_all fits k rs d1 = Some d'"
    by (auto split: option.splits prod.splits)
  with Cons.IH show ?case by (blast intro: rows_kept_trans rows_kept_upsert_row)
qed (simp add: rows_kept_refl)

lemma rows_kept_inventory: "inventory_after fits clk lease scanErr y d st new \<Longrightarrow> rows_kept (resources d) new"
  by (auto simp: inventory_after_def rows_kept_refl intro!: rows_kept_trans [OF rows_kept_upsert_all rows_kept_upd] split: option.splits)

lemma lifecycle_complete:
  assumes inv: "op_inv d" and run: "Complete fits n clk lease scanErr d = (res, d')"
  shows "lifecycle_ok d d'"
proof (cases "d' = d")
  case True
  with inv show ?thesis by (simp add: lifecycle_refl)
next
  case False
  with vc_run_tx [OF run [unfolded Complete_def] vc_complete [where Q = "\<lambda>_. completion fits clk lease scanErr d"]]
  have "completion fits clk lease scanErr d d'" by auto
  then obtain runs js where d': "d' = d\<lparr>resources := resources d', sync_runs := runs, jobs := js\<rparr>" and kept: "rows_kept (resources d) (resources d')"
    by (auto simp: completion_def dest: rows_kept_inventory)
  have "op_inv (d\<lparr>resources := resources d'\<rparr>)"
    using kept inv by (intro op_inv_resources [OF inv]) (auto simp: rows_kept_def op_inv_def)
  then have "op_inv d'" by (subst d') simp
  moreover have "op_states d' = op_states d" by (subst d') simp
  ultimately show ?thesis by (simp add: lifecycle_ok_def)
qed

end
