(* ===== verification/Sama_System.thy ===== *)
theory Sama_System
  imports Sama_Lifecycle
begin

text \<open>
  The installation as a whole: one database, any number of dispatch workers at any phase of their work, and the
  submissions that reached a provider. The steps interleave freely, so the theorems hold for every schedule,
  for workers that crash, and for workers that run on with a lease they have lost.
\<close>

section \<open>Steps\<close>

record system =
  sm_db :: db
  sm_workers :: "work_pc list"
  sm_sent :: "submission list"

text \<open>
  One transaction of another part. \<open>other\<close> covers everything that leaves operations, their events,
  reservations and the published resources alone.
\<close>

inductive db_step :: "db \<Rightarrow> db \<Rightarrow> bool" where
  other: "same_core d d' \<Longrightarrow> db_step d d'"
| confirm: "run_tx_if OpErrStore OpErrStore n (confirm_tx s clk now ids p scope key c request hash pre) d = (r, d') \<Longrightarrow> db_step d d'"
| expire: "run_tx_if OpErrStore OpErrStore (se_net v) (expire_tx v jid w) d = (q, d') \<Longrightarrow> db_step d d'"
| cancel: "Cancel v p scope i request d = (r, d') \<Longrightarrow> db_step d d'"
| recheck: "Recheck v p scope i request d = (r, d') \<Longrightarrow> db_step d d'"
| release: "ReleaseUnknown s v p scope i input request d = (r, d') \<Longrightarrow> db_step d d'"
| publish: "Complete fits n clk lease scanErr d = (q, d') \<Longrightarrow> db_step d d'"

inductive_cases db_stepE: "db_step d d'"

definition emitted :: "submission option \<Rightarrow> submission list" where
  "emitted sub = (case sub of None \<Rightarrow> [] | Some b \<Rightarrow> [b])"

inductive sys_step :: "system \<Rightarrow> system \<Rightarrow> bool" where
  db: "db_step (sm_db S) d' \<Longrightarrow> sys_step S (S\<lparr>sm_db := d'\<rparr>)"
| start: "sys_step S (S\<lparr>sm_workers := sm_workers S @ [StartAt lease]\<rparr>)"
| crash: "k < length (sm_workers S) \<Longrightarrow> sys_step S (S\<lparr>sm_workers := (sm_workers S)[k := Finished (Inl e)]\<rparr>)"
| work: "k < length (sm_workers S) \<Longrightarrow> work_step D v (sm_workers S ! k) (sm_db S) = (pc, d', sub) \<Longrightarrow>
    sys_step S (S\<lparr>sm_db := d', sm_workers := (sm_workers S)[k := pc], sm_sent := sm_sent S @ emitted sub\<rparr>)"

inductive_cases sys_stepE: "sys_step S S'"

text \<open>The handlers of the other parts are steps of the first kind.\<close>

lemma vc_same_core:
  assumes "run_tx eb ec n m d = (r, d')" "vc m (\<lambda>_. same_core d) d"
  shows "db_step d d'"
  using vc_run_tx [OF assms] by (auto intro!: db_step.other simp: same_core_def)

lemma vc_same_core_auto:
  assumes "run_auto e n m d = (r, d')" "vc m (\<lambda>_. same_core d) d"
  shows "db_step d d'"
  using vc_run_auto [OF assms] by (auto intro!: db_step.other simp: same_core_def)

lemma refresh_is_step: "RefreshType n clk now sid jid actor scope connection kind d = (r, d') \<Longrightarrow> db_step d d'"
  unfolding RefreshType_def
  by (rule vc_same_core) (assumption, unfold enqueueType_def memberInTx_def,
    intro vc_rules vc_enqueueLockedType, auto simp: same_core_def insert_run_def Let_def split: if_splits)

lemma set_recovery_is_step: "SetRecovery n open1 version d = (r, d') \<Longrightarrow> db_step d d'"
  unfolding SetRecovery_def
  by (rule vc_same_core) (assumption, unfold set_recovery_tx_def, intro vc_rules, auto simp: same_core_def set_gate_def split: option.splits if_splits)

lemma prepare_is_step: "run_tx OpErrStore OpErrStore n (prepare_tx s clk p scope target i a pre rid hash expires) d = (r, d') \<Longrightarrow> db_step d d'"
  by (rule vc_same_core) (assumption, unfold prepare_tx_def, intro vc_rules, auto simp: same_core_def insert_review_def split: if_splits)

lemma prune_reviews_is_step: "PruneReviews n clk busy d = (r, d') \<Longrightarrow> db_step d d'"
  unfolding PruneReviews_def by (rule vc_same_core_auto) (assumption, intro vc_rules, auto simp: same_core_def Let_def)

lemma prune_staging_is_step: "PruneStaging n clk busy d = (r, d') \<Longrightarrow> db_step d d'"
  unfolding PruneStaging_def by (rule vc_same_core_auto) (assumption, intro vc_rules, auto simp: same_core_def Let_def)

lemma claim_is_step: "run_tx JobErrLease JobErrLease n (claim_tx s skip now owner token) d = (r, d') \<Longrightarrow> db_step d d'"
  by (rule vc_same_core) (assumption, intro vc_claim, auto simp: claimed_def same_core_def)

lemma finish_is_step: "Finish n clk now lease st d = (r, d') \<Longrightarrow> db_step d d'"
  by (drule Finish_committed) (auto simp: finished_def same_core_def intro!: db_step.other)

lemma renew_is_step: "renew n started now lease d = (r, d') \<Longrightarrow> db_step d d'"
  by (drule renew_committed) (auto simp: renewed_def same_core_def intro!: db_step.other)

section \<open>Every step respects the lifecycle\<close>

lemma vc_run_lifecycle: "run_tx eb ec n m d = (r, d') \<Longrightarrow> op_inv d \<Longrightarrow> vc m (\<lambda>_. lifecycle_ok d) d \<Longrightarrow> lifecycle_ok d d'"
  by (drule vc_run_tx) (auto intro: lifecycle_refl)

lemma vc_run_if_lifecycle: "run_tx_if eb ec n m d = (r, d') \<Longrightarrow> op_inv d \<Longrightarrow> vc m (\<lambda>_. lifecycle_ok d) d \<Longrightarrow> lifecycle_ok d d'"
  by (drule vc_run_tx_if) (auto intro: lifecycle_refl)

lemma db_step_lifecycle: "db_step d d' \<Longrightarrow> op_inv d \<Longrightarrow> lifecycle_ok d d'"
proof (induction rule: db_step.induct)
  case (other d d')
  then show ?case by (simp add: lifecycle_core)
next
  case (confirm n s clk now ids p scope key c request hash pre d r d')
  then show ?case by (blast intro: lifecycle_confirm)
next
  case (expire v jid w d q d')
  then show ?case by (blast intro: vc_run_if_lifecycle vc_expire)
next
  case (cancel v p scope i request d r d')
  then show ?case unfolding Cancel_def by (blast intro: vc_run_lifecycle vc_mono [OF vc_cancel])
next
  case (recheck v p scope i request d r d')
  then show ?case unfolding Recheck_def by (blast intro: vc_run_if_lifecycle vc_recheck)
next
  case (release s v p scope i input request d r d')
  then show ?case unfolding ReleaseUnknown_def by (auto split: if_splits intro: vc_run_lifecycle vc_release lifecycle_refl)
next
  case (publish fits n clk lease scanErr d q d')
  then show ?case by (blast intro: lifecycle_complete)
qed

text \<open>Phases that will or may submit, and the plans that observe.\<close>

fun pending :: "uuid \<Rightarrow> work_pc \<Rightarrow> nat" where
  "pending i (SubmitAt lease adapter p pre) = (if dp_id p = i then 1 else 0)"
| "pending i _ = 0"

fun pc_ok :: "work_pc \<Rightarrow> bool" where
  "pc_ok (ObserveCallAt lease p adapter b brand native account) = (dp_state p \<noteq> Unknown)"
| "pc_ok (ObserveStoreAt lease p to) = (dp_state p \<noteq> Unknown)"
| "pc_ok _ = True"

definition sent_for :: "uuid \<Rightarrow> submission list \<Rightarrow> nat" where
  "sent_for i = cnt (\<lambda>b. sb_operation b = i)"

text \<open>
  One step of a worker: the lifecycle is respected, and the number of submissions made or about to be made for an
  operation grows only when the marker transaction moved that operation out of \<open>queued\<close>.
\<close>

lemma work_step_effect:
  assumes inv: "op_inv d" and ok: "pc_ok pc" and step: "work_step D v pc d = (pc', d', sub)"
  shows "lifecycle_ok d d' \<and> pc_ok pc' \<and> (pending i pc' + sent_for i (emitted sub) \<le> pending i pc
     \<or> op_states d i = Some Queued \<and> op_states d' i = Some Dispatching \<and> pending i pc' = 1 \<and> sub = None)"
proof (cases pc)
  case (StartAt lease)
  with step inv show ?thesis by (auto simp: emitted_def sent_for_def lifecycle_refl split: if_splits sum.splits)
next
  case (InspectAt lease)
  with step inv show ?thesis by (auto simp: emitted_def sent_for_def lifecycle_refl split: sum.splits)
next
  case (ReadAt lease p)
  with step inv show ?thesis
    by (auto simp: emitted_def sent_for_def lifecycle_refl read_done_def split: sum.splits option.splits prod.splits)
next
  case (RejectAt lease e)
  with step inv show ?thesis
    by (auto simp: emitted_def sent_for_def rejectUnsent_def split: prod.splits if_splits intro: lifecycle_refl vc_run_lifecycle [OF _ _ vc_reject])
next
  case (MarkAt lease adapter pre)
  obtain r d1 where run: "run_tx OpErrStore OpErrStore (se_net v) (marker_tx (di_service D) v lease pre) d = (r, d1)" by fastforce
  have d1: "d' = d1" "sub = None" using step MarkAt run by (auto split: sum.splits prod.splits)
  from vc_run_tx [OF run vc_marker [OF inv]] consider "d1 = d" "isl r"
    | p where "marked (di_service D) (se_clk v) lease pre d p d1" "r = Inr p \<or> r = Inl OpErrStore" by blast
  then show ?thesis
  proof cases
    case 1
    with step MarkAt run inv show ?thesis by (auto simp: emitted_def sent_for_def lifecycle_refl split: sum.splits)
  next
    case 2
    then have st: "stepped (jr_Workspace lease) (dp_id p) Queued Dispatching d d1" by (simp add: marked_def)
    have "pc' = Finished (Inl OpErrStore) \<or> (\<exists>e. pc' = Finished (Inl e)) \<or> pc' = SubmitAt lease adapter p pre"
      using step MarkAt run 2(2) by (auto split: option.splits)
    with stepped_lifecycle [OF st] d1 st show ?thesis by (auto simp: emitted_def sent_for_def stepped_def)
  qed
next
  case (SubmitAt lease adapter p pre)
  with step inv show ?thesis
    by (auto simp: emitted_def sent_for_def cnt_def lifecycle_refl submit_def split: option.splits if_splits prod.splits)
next
  case (ReceiptAt lease r)
  with step inv show ?thesis
    by (auto simp: emitted_def sent_for_def split: prod.splits intro: vc_run_lifecycle [OF _ _ vc_receipt])
next
  case (ObserveAt lease p)
  with step inv show ?thesis
    by (auto simp: emitted_def sent_for_def lifecycle_refl observe_begin_def split: if_splits option.splits prod.splits sum.splits)
next
  case (ObserveCallAt lease p adapter b brand native account)
  with step inv ok show ?thesis by (auto simp: emitted_def sent_for_def lifecycle_refl)
next
  case (ObserveStoreAt lease p to)
  with step inv ok show ?thesis
    by (auto simp: emitted_def sent_for_def split: prod.splits intro: vc_run_lifecycle [OF _ _ vc_observe])
next
  case (Finished r)
  with step inv show ?thesis by (auto simp: emitted_def sent_for_def lifecycle_refl)
qed

section \<open>The invariant of the system\<close>

definition dispatched :: "lifecycle \<Rightarrow> uuid \<Rightarrow> bool" where
  "dispatched m i \<longleftrightarrow> (\<exists>s. m i = Some s \<and> s \<noteq> Queued \<and> s \<noteq> Cancelled)"

lemma Allowed_Cancelled: "Allowed s Cancelled \<longleftrightarrow> s = Queued"
  by (cases s) auto

lemma abs_moves_keep_dispatched: "abs_move\<^sup>*\<^sup>* m m' \<Longrightarrow> dispatched m i \<Longrightarrow> dispatched m' i"
proof (induction rule: converse_rtranclp_induct)
  case (step a b)
  from step.hyps(1) step.prems have "dispatched b i"
    by (auto simp: dispatched_def Allowed_Cancelled elim!: abs_moveE dest: Allowed_not_Queued)
  then show ?case by (rule step.IH)
qed

definition in_hand :: "uuid \<Rightarrow> system \<Rightarrow> nat" where
  "in_hand i S = sent_for i (sm_sent S) + sum_list (map (pending i) (sm_workers S))"

definition sys_inv :: "system \<Rightarrow> bool" where
  "sys_inv S \<longleftrightarrow> op_inv (sm_db S) \<and> (\<forall>pc \<in> set (sm_workers S). pc_ok pc)
     \<and> (\<forall>i. in_hand i S \<le> 1 \<and> (in_hand i S = 1 \<longrightarrow> dispatched (op_states (sm_db S)) i))"

lemma sum_list_update_nat: "k < length xs \<Longrightarrow> sum_list (map f (xs[k := y])) + f (xs ! k) = sum_list (map f xs) + (f y :: nat)"
proof (induction xs arbitrary: k)
  case (Cons x xs)
  then show ?case by (cases k) (auto simp: add.commute add.left_commute)
qed simp

lemma sys_inv_step:
  assumes "sys_step S S'" "sys_inv S"
  shows "sys_inv S'"
  using assms
proof (induction rule: sys_step.induct)
  case (db S d')
  then have ok: "lifecycle_ok (sm_db S) d'" by (auto simp: sys_inv_def intro: db_step_lifecycle)
  have "in_hand i (S\<lparr>sm_db := d'\<rparr>) = in_hand i S" for i by (simp add: in_hand_def)
  with db ok show ?case by (auto simp: sys_inv_def lifecycle_ok_def intro: abs_moves_keep_dispatched)
next
  case (start S lease)
  have "in_hand i (S\<lparr>sm_workers := sm_workers S @ [StartAt lease]\<rparr>) = in_hand i S" for i by (simp add: in_hand_def)
  with start show ?case by (auto simp: sys_inv_def)
next
  case (crash k S e)
  have le: "in_hand i (S\<lparr>sm_workers := (sm_workers S)[k := Finished (Inl e)]\<rparr>) \<le> in_hand i S" for i
    using sum_list_update_nat [OF crash(1), of "pending i" "Finished (Inl e)"] by (simp add: in_hand_def)
  have "dispatched (op_states (sm_db S)) i \<and> in_hand i S = 1" if "in_hand i (S\<lparr>sm_workers := (sm_workers S)[k := Finished (Inl e)]\<rparr>) = 1" for i
    using le [of i] that crash(2) by (auto simp: sys_inv_def le_antisym)
  with crash le show ?case unfolding sys_inv_def
    by (auto dest!: set_update_subset_insert [THEN subsetD]) (meson le_trans)
next
  case (work k S D v pc d' sub)
  let ?S = "S\<lparr>sm_db := d', sm_workers := (sm_workers S)[k := pc], sm_sent := sm_sent S @ emitted sub\<rparr>"
  let ?old = "sm_workers S ! k"
  have inv: "op_inv (sm_db S)" and ok: "pc_ok ?old" and hand: "\<And>i. in_hand i S \<le> 1 \<and> (in_hand i S = 1 \<longrightarrow> dispatched (op_states (sm_db S)) i)"
    using work by (auto simp: sys_inv_def)
  note eff = work_step_effect [OF inv ok work(2)]
  have life: "lifecycle_ok (sm_db S) d'" and pc: "pc_ok pc" using eff by blast+
  have keep: "dispatched (op_states d') i" if "dispatched (op_states (sm_db S)) i" for i
    using life that by (auto simp: lifecycle_ok_def intro: abs_moves_keep_dispatched)
  have sum: "in_hand i ?S + pending i ?old = in_hand i S + pending i pc + sent_for i (emitted sub)" for i
    using sum_list_update_nat [OF work(1), of "pending i" pc] by (simp add: in_hand_def sent_for_def)
  have "in_hand i ?S \<le> 1 \<and> (in_hand i ?S = 1 \<longrightarrow> dispatched (op_states d') i)" for i
  proof -
    from eff [of i] consider "pending i pc + sent_for i (emitted sub) \<le> pending i ?old"
      | "op_states (sm_db S) i = Some Queued" "op_states d' i = Some Dispatching" "pending i pc = 1" "sub = None" by blast
    then show ?thesis
    proof cases
      case 1
      with sum [of i] have "in_hand i ?S \<le> in_hand i S" by linarith
      with hand [of i] keep [of i] show ?thesis by fastforce
    next
      case 2
      then have "\<not> dispatched (op_states (sm_db S)) i" by (simp add: dispatched_def)
      with hand [of i] have "in_hand i S = 0" by (metis One_nat_def le_Suc_eq le_zero_eq)
      with sum [of i] 2 have "in_hand i ?S \<le> 1" by (simp add: emitted_def sent_for_def)
      with 2 show ?thesis by (simp add: dispatched_def)
    qed
  qed
  moreover have "\<forall>p \<in> set ((sm_workers S)[k := pc]). pc_ok p"
    using work(3) pc by (auto simp: sys_inv_def dest!: set_update_subset_insert [THEN subsetD])
  ultimately show ?case using life by (simp add: sys_inv_def lifecycle_ok_def)
qed

interpretation sys: machine sys_step sys_inv
  by unfold_locales (rule sys_inv_step)

definition initial :: "system \<Rightarrow> bool" where
  "initial S \<longleftrightarrow> op_inv (sm_db S) \<and> sm_workers S = [] \<and> sm_sent S = []"

lemma sys_inv_initial: "initial S \<Longrightarrow> sys_inv S"
  by (simp add: initial_def sys_inv_def in_hand_def sent_for_def)

lemma work_run_steps:
  assumes "work_run n D v (\<lambda>_ d. d) (sm_workers S ! k) (sm_db S) = (pc, d', subs)" "k < length (sm_workers S)"
  shows "sys_step\<^sup>*\<^sup>* S (S\<lparr>sm_db := d', sm_workers := (sm_workers S)[k := pc], sm_sent := sm_sent S @ subs\<rparr>)"
  using assms
proof (induction n arbitrary: S pc d' subs)
  case 0
  then have "S\<lparr>sm_db := d', sm_workers := (sm_workers S)[k := pc], sm_sent := sm_sent S @ subs\<rparr> = S" by (cases S) auto
  then show ?case by simp
next
  case (Suc n)
  obtain pc1 d1 sub where one: "work_step D (v n) (sm_workers S ! k) (sm_db S) = (pc1, d1, sub)" by (cases "work_step D (v n) (sm_workers S ! k) (sm_db S)")
  obtain pc2 d2 subs2 where two: "work_run n D v (\<lambda>_ d. d) pc1 d1 = (pc2, d2, subs2)" by (cases "work_run n D v (\<lambda>_ d. d) pc1 d1")
  have res: "pc = pc2" "d' = d2" "subs = emitted sub @ subs2" using Suc.prems(1) one two by (auto simp: emitted_def split: option.splits)
  let ?S = "S\<lparr>sm_db := d1, sm_workers := (sm_workers S)[k := pc1], sm_sent := sm_sent S @ emitted sub\<rparr>"
  have "sys_step S ?S" by (rule sys_step.work [OF Suc.prems(2) one])
  moreover have "sys_step\<^sup>*\<^sup>* ?S (?S\<lparr>sm_db := d2, sm_workers := (sm_workers ?S)[k := pc2], sm_sent := sm_sent ?S @ subs2\<rparr>)"
  proof (rule Suc.IH)
    show "work_run n D v (\<lambda>_ d. d) (sm_workers ?S ! k) (sm_db ?S) = (pc2, d2, subs2)" using two Suc.prems(2) by simp
    show "k < length (sm_workers ?S)" using Suc.prems(2) by simp
  qed
  ultimately show ?case by (simp add: res)
qed

section \<open>Properties\<close>

text \<open>
  C1: However workers, crashes, lost leases, retries and user actions interleave, a provider is asked at most once to
  carry out an operation; by then the operation left \<open>queued\<close>, and an operation that was cancelled is never submitted,
  before or after. The invariant of histories and reservations holds throughout.
\<close>

theorem submitted_at_most_once:
  assumes "initial S0" "sys_step\<^sup>*\<^sup>* S0 S"
  shows "sent_for i (sm_sent S) \<le> 1 \<and> op_inv (sm_db S)
     \<and> (sent_for i (sm_sent S) = 1 \<longrightarrow> (\<exists>s. op_states (sm_db S) i = Some s \<and> s \<noteq> Queued \<and> s \<noteq> Cancelled))
     \<and> (op_states (sm_db S) i = Some Cancelled \<longrightarrow> sent_for i (sm_sent S) = 0 \<and> (\<forall>S'. sys_step\<^sup>*\<^sup>* S S' \<longrightarrow> sent_for i (sm_sent S') = 0))"
proof -
  have inv: "sys_inv S" using sys.reachable [OF assms(2) sys_inv_initial [OF assms(1)]] .
  have le: "sent_for i (sm_sent T) \<le> in_hand i T" for T by (simp add: in_hand_def)
  have one: "sent_for i (sm_sent T) \<le> 1 \<and> (sent_for i (sm_sent T) = 1 \<longrightarrow> dispatched (op_states (sm_db T)) i)" if "sys_inv T" for T
  proof -
    have "in_hand i T \<le> 1" "in_hand i T = 1 \<longrightarrow> dispatched (op_states (sm_db T)) i" using that by (auto simp: sys_inv_def)
    then show ?thesis using le [of T] by (cases "in_hand i T") auto
  qed
  have "sent_for i (sm_sent S') = 0" if c: "op_states (sm_db S) i = Some Cancelled" and st: "sys_step\<^sup>*\<^sup>* S S'" for S'
  proof -
    from st inv have "sys_inv S' \<and> op_states (sm_db S') i = Some Cancelled"
    proof (induction rule: rtranclp_induct)
      case (step T T')
      then have T: "sys_inv T" "op_states (sm_db T) i = Some Cancelled" by auto
      have "lifecycle_ok (sm_db T) (sm_db T')"
        using step.hyps(2)
      proof cases
        case (db d')
        then show ?thesis using T by (auto simp: sys_inv_def intro: db_step_lifecycle)
      next
        case (work k D v pc d' sub)
        moreover have "op_inv (sm_db T)" "pc_ok (sm_workers T ! k)" using T(1) work(2) by (auto simp: sys_inv_def)
        ultimately show ?thesis using work_step_effect [of "sm_db T" "sm_workers T ! k" D v pc d' sub] by simp
      qed (use T in \<open>auto simp: sys_inv_def lifecycle_refl\<close>)
      then have "op_states (sm_db T') i = Some Cancelled"
        using abs_moves_terminal [of "op_states (sm_db T)" "op_states (sm_db T')" i Cancelled] T(2) by (simp add: lifecycle_ok_def op_terminal_def)
      with sys_inv_step [OF step.hyps(2) T(1)] show ?case by blast
    qed (use c in simp)
    with one [of S'] show ?thesis by (auto simp: dispatched_def)
  qed
  with one [OF inv] inv show ?thesis by (auto simp: dispatched_def sys_inv_def)
qed

text \<open>An accepted reboot whose job a worker has leased, and a provider that accepts it.\<close>

definition example_mutation :: mutation where
  "example_mutation = \<lparr>mu_Submit = (\<lambda>b action native fp. Inr \<lparr>re_Outcome = ''accepted'', re_Reference = ''act-1''\<rparr>),
     mu_Observe = (\<lambda>b action native reference. Inr \<lparr>ao_Outcome = ''succeeded'', ao_NativeEvidence = True\<rparr>)\<rparr>"

definition example_dispatcher :: dispatcher where
  "example_dispatcher = \<lparr>di_service = example_service, di_factories = [(''hetzner/hcloud'', \<lambda>b. Inr (Some example_mutation))]\<rparr>"

definition example_review_row :: review_row where
  "example_review_row = (prepared example_service 0 0 (v7 6) example_principal (v7 1) (v7 3) example_intent
     \<lparr>bi_workspace = v7 1, bi_connection = v7 2, bi_family = ''hcloud'', bi_version = 1\<rparr> 1
     \<lparr>pc_Fingerprint = replicate 32 CHR ''f'', pc_TargetName = ''web'', pc_Allowed = True, pc_HighImpact = False\<rparr> (replicate 32 CHR ''h''))
     \<lparr>ar_consumed_by := Some (v7 5)\<rparr>"

definition example_live :: db where
  "example_live = example_scope\<lparr>reviews := [example_review_row], operations := [example_operation],
     events := events example_ops, locks := locks example_ops, lock_counter := 1, jobs := [example_dispatch_job],
     gate := Some \<lparr>gate_open = True, gate_version = 2\<rparr>\<rparr>"

definition example_step :: "nat \<Rightarrow> step_env" where
  "example_step k = \<lparr>se_clk = second, se_now = second, se_net = good_net, se_admit = (\<lambda>_ _. True), se_ctx = None, se_delay = Some 0,
     se_events = (Some (v7 (300 + k)), Some (v7 (400 + k))), se_audit = Some (v7 (500 + k)), se_sync = Some (v7 (600 + k)), se_job = Some (v7 (700 + k))\<rparr>"

definition example_work :: "work_pc \<times> db \<times> submission list" where
  "example_work = work_run 5 example_dispatcher example_step (\<lambda>_ d. d) (StartAt dispatch_lease) example_live"

lemma op_inv_live: "op_inv example_live"
  by code_simp
lemma example_work_result: "length (snd (snd example_work)) = 1 \<and> sb_operation (hd (snd (snd example_work))) = v7 5"
  by code_simp

theorem submitted_at_most_once_witness:
  "case example_work of (pc, d, subs) \<Rightarrow> sent_for (v7 5) subs = 1 \<and> (\<exists>s. op_states d (v7 5) = Some s \<and> s \<noteq> Queued \<and> s \<noteq> Cancelled)"
proof -
  obtain pc d subs where w: "example_work = (pc, d, subs)" by (cases example_work)
  let ?S0 = "\<lparr>sm_db = example_live, sm_workers = [], sm_sent = []\<rparr>"
  let ?S1 = "\<lparr>sm_db = example_live, sm_workers = [StartAt dispatch_lease], sm_sent = []\<rparr>"
  have init: "initial ?S0" by (simp add: initial_def op_inv_live)
  have "sys_step ?S0 ?S1" using sys_step.start [of ?S0 dispatch_lease] by simp
  moreover have "sys_step\<^sup>*\<^sup>* ?S1 (?S1\<lparr>sm_db := d, sm_workers := [pc], sm_sent := subs\<rparr>)"
    using work_run_steps [of 5 example_dispatcher example_step ?S1 0 pc d subs] w by (simp add: example_work_def)
  ultimately have "sys_step\<^sup>*\<^sup>* ?S0 (?S1\<lparr>sm_db := d, sm_workers := [pc], sm_sent := subs\<rparr>)" by simp
  from submitted_at_most_once [OF init this, of "v7 5"] have r: "sent_for (v7 5) subs = 1 \<longrightarrow> (\<exists>s. op_states d (v7 5) = Some s \<and> s \<noteq> Queued \<and> s \<noteq> Cancelled)" by simp
  have "length subs = 1 \<and> sb_operation (hd subs) = v7 5" using example_work_result unfolding w by simp
  then have "sent_for (v7 5) subs = 1" by (cases subs) (auto simp: sent_for_def cnt_def)
  with r show ?thesis unfolding w by simp
qed

section \<open>Refinement of the abstract machine\<close>

text \<open>The specification: operations move along \<open>abs_move\<close>, and each may be submitted once, after it was dispatched.\<close>

type_synonym abstract = "lifecycle \<times> uuid set"

inductive abs_step :: "abstract \<Rightarrow> abstract \<Rightarrow> bool" where
  moves: "abs_move m m' \<Longrightarrow> abs_step (m, A) (m', A)"
| send: "dispatched m i \<Longrightarrow> i \<notin> A \<Longrightarrow> abs_step (m, A) (m, insert i A)"

definition abstract_of :: "system \<Rightarrow> abstract" where
  "abstract_of S = (op_states (sm_db S), sb_operation ` set (sm_sent S))"

lemma abs_moves: "abs_move\<^sup>*\<^sup>* m m' \<Longrightarrow> abs_step\<^sup>*\<^sup>* (m, A) (m', A)"
  by (induction rule: rtranclp_induct) (auto intro: abs_step.moves rtranclp.rtrancl_into_rtrancl)

lemma work_step_sends:
  "work_step D v pc d = (pc', d', Some b) \<Longrightarrow> d' = d \<and> pending (sb_operation b) pc = 1"
  by (cases pc) (auto simp: submit_def split: option.splits if_splits sum.splits prod.splits)

text \<open>
  C2: The detailed system refines the abstract machine: every step of workers, controls, sweeps and other
  transactions from a state with the invariant is, seen through \<open>abstract_of\<close>, a sequence of abstract steps, and the
  invariant is kept.
\<close>

theorem system_refines_lifecycle:
  assumes "sys_inv S" "sys_step S S'"
  shows "abs_step\<^sup>*\<^sup>* (abstract_of S) (abstract_of S') \<and> sys_inv S'"
proof
  show "sys_inv S'" by (rule sys_inv_step [OF assms(2,1)])
  show "abs_step\<^sup>*\<^sup>* (abstract_of S) (abstract_of S')"
    using assms(2)
  proof cases
    case (db d')
    with assms(1) db_step_lifecycle [of "sm_db S" d'] show ?thesis by (auto simp: abstract_of_def sys_inv_def lifecycle_ok_def intro: abs_moves)
  next
    case (work k D v pc d' sub)
    have inv: "op_inv (sm_db S)" and ok: "pc_ok (sm_workers S ! k)" using assms(1) work(2) by (auto simp: sys_inv_def)
    have life: "lifecycle_ok (sm_db S) d'" using work_step_effect [OF inv ok work(3)] by blast
    show ?thesis
    proof (cases sub)
      case None
      with work life show ?thesis by (auto simp: abstract_of_def emitted_def lifecycle_ok_def intro: abs_moves)
    next
      case (Some b)
      let ?i = "sb_operation b"
      have same: "d' = sm_db S" and pend: "pending ?i (sm_workers S ! k) = 1" using work_step_sends work(3) Some by blast+
      have "pending ?i (sm_workers S ! k) \<le> sum_list (map (pending ?i) (sm_workers S))"
        using elem_le_sum_list [of k "map (pending ?i) (sm_workers S)"] work(2) by simp
      with pend have "1 + sent_for ?i (sm_sent S) \<le> in_hand ?i S" by (simp add: in_hand_def)
      moreover have "in_hand ?i S \<le> 1" "in_hand ?i S = 1 \<longrightarrow> dispatched (op_states (sm_db S)) ?i" using assms(1) by (auto simp: sys_inv_def)
      ultimately have "sent_for ?i (sm_sent S) = 0" "dispatched (op_states (sm_db S)) ?i" by auto
      then have "?i \<notin> sb_operation ` set (sm_sent S)" by (auto simp: sent_for_def cnt_zero)
      with \<open>dispatched (op_states (sm_db S)) ?i\<close> have "abs_step (abstract_of S) (op_states (sm_db S), insert ?i (sb_operation ` set (sm_sent S)))"
        unfolding abstract_of_def by (rule abs_step.send)
      with work Some same show ?thesis by (simp add: abstract_of_def emitted_def r_into_rtranclp)
    qed
  qed (auto simp: abstract_of_def)
qed

theorem system_refines_lifecycle_witness:
  "let S = \<lparr>sm_db = example_live, sm_workers = [], sm_sent = []\<rparr>; S' = S\<lparr>sm_workers := [StartAt dispatch_lease]\<rparr> in
     abs_step\<^sup>*\<^sup>* (abstract_of S) (abstract_of S') \<and> sys_inv S'"
proof -
  let ?S = "\<lparr>sm_db = example_live, sm_workers = [], sm_sent = []\<rparr>"
  have "sys_step ?S (?S\<lparr>sm_workers := [StartAt dispatch_lease]\<rparr>)" using sys_step.start [of ?S dispatch_lease] by simp
  from system_refines_lifecycle [OF _ this] show ?thesis by (simp add: sys_inv_initial initial_def op_inv_live)
qed

section \<open>What a submission rests on\<close>


fun steps_left :: "work_pc \<Rightarrow> nat" where
  "steps_left (StartAt _) = 6" | "steps_left (InspectAt _) = 5" | "steps_left (ReadAt _ _) = 4" | "steps_left (RejectAt _ _) = 1"
| "steps_left (MarkAt _ _ _) = 3" | "steps_left (SubmitAt _ _ _ _) = 2" | "steps_left (ReceiptAt _ _) = 1" | "steps_left (ObserveAt _ _) = 3"
| "steps_left (ObserveCallAt _ _ _ _ _ _ _) = 2" | "steps_left (ObserveStoreAt _ _ _) = 1" | "steps_left (Finished _) = 0"

text \<open>Whether a phase can still lead to a submission.\<close>

fun chance :: "work_pc \<Rightarrow> nat" where
  "chance (StartAt _) = 1" | "chance (InspectAt _) = 1" | "chance (ReadAt _ _) = 1" | "chance (MarkAt _ _ _) = 1" | "chance (SubmitAt _ _ _ _) = 1"
| "chance _ = 0"

lemma steps_left_step:
  "work_step D v pc d = (pc', d', sub) \<Longrightarrow> steps_left pc' \<le> steps_left pc - 1 \<and> chance pc' + length (emitted sub) \<le> chance pc"
  by (cases pc) (auto simp: read_done_def observe_begin_def submit_def emitted_def split: if_splits sum.splits option.splits prod.splits)

lemma work_run_ends:
  "steps_left pc \<le> n \<Longrightarrow> work_run n D v between pc d = (pc', d', subs) \<Longrightarrow> steps_left pc' = 0 \<and> chance pc' + length subs \<le> chance pc"
proof (induction n arbitrary: pc d pc' d' subs)
  case (Suc n)
  obtain pc1 d1 sub where one: "work_step D (v n) pc (between n d) = (pc1, d1, sub)" by (cases "work_step D (v n) pc (between n d)")
  obtain pc2 d2 subs2 where two: "work_run n D v between pc1 d1 = (pc2, d2, subs2)" by (cases "work_run n D v between pc1 d1")
  have res: "pc' = pc2" "subs = emitted sub @ subs2" using Suc.prems(2) one two by (auto simp: emitted_def split: option.splits)
  have "steps_left pc1 \<le> n" using steps_left_step [OF one] Suc.prems(1) by auto
  from Suc.IH [OF this two] steps_left_step [OF one] show ?case by (simp add: res)
qed simp

text \<open>
  C11: The worker always comes to an end: whatever the database, the provider and other transactions do, six atomic steps
  after it started it has returned, having submitted at most once.
\<close>

theorem worker_returns: "\<exists>r d' subs. Work D v between lease d = (Finished r, d', subs) \<and> length subs \<le> 1"
proof -
  obtain pc d' subs where w: "Work D v between lease d = (pc, d', subs)" by (cases "Work D v between lease d")
  have e: "steps_left pc = 0 \<and> chance pc + length subs \<le> 1"
    using work_run_ends [of "StartAt lease" 6 D v between d pc d' subs] w by (simp add: Work_def)
  then obtain r where "pc = Finished r" by (cases pc) auto
  with e w show ?thesis by auto
qed

section \<open>Settling exhausted work\<close>


text \<open>
  C13: The recovery gate opens only with the inspected version and only while no submission is unresolved; closing it is always
  possible. While it is closed no worker passes the marker, so nothing is submitted.
\<close>

theorem gate_protects_recovery:
  "(SetRecovery n open1 version d = (res, d') \<and> d' \<noteq> d \<longrightarrow>
      (\<exists>g. gate d = Some g \<and> gate d' = Some \<lparr>gate_open = open1, gate_version = gate_version g + 1\<rparr>
        \<and> (open1 \<longrightarrow> version = gate_version g \<and> (\<forall>p \<in> set (operations d). \<not> unresolved d p)))
      \<and> operations d' = operations d)
   \<and> ((\<exists>g. gate d = Some g \<and> \<not> gate_open g) \<and> op_inv d \<longrightarrow>
        (\<forall>D v lease adapter pre. \<exists>e. work_step D v (MarkAt lease adapter pre) d = (Finished (Inl e), d, None)))"
proof (intro conjI impI allI)
  assume a: "SetRecovery n open1 version d = (res, d') \<and> d' \<noteq> d"
  have "vc (set_recovery_tx open1 version) (\<lambda>_ d'. d' = d \<or> (\<exists>g. gate d = Some g \<and> gate d' = Some \<lparr>gate_open = open1, gate_version = gate_version g + 1\<rparr>
        \<and> (open1 \<longrightarrow> version = gate_version g \<and> (\<forall>p \<in> set (operations d). \<not> unresolved d p))) \<and> operations d' = operations d) d"
    unfolding set_recovery_tx_def by (intro vc_rules) (auto simp: set_gate_def cnt_zero split: option.splits if_splits)
  from vc_run_tx [OF conjunct1 [OF a, unfolded SetRecovery_def] this] a
  show "\<exists>g. gate d = Some g \<and> gate d' = Some \<lparr>gate_open = open1, gate_version = gate_version g + 1\<rparr>
        \<and> (open1 \<longrightarrow> version = gate_version g \<and> (\<forall>p \<in> set (operations d). \<not> unresolved d p))" "operations d' = operations d"
    by auto
next
  fix D :: dispatcher and v lease adapter pre
  assume c: "(\<exists>g. gate d = Some g \<and> \<not> gate_open g) \<and> op_inv d"
  obtain r d1 where run: "run_tx OpErrStore OpErrStore (se_net v) (marker_tx (di_service D) v lease pre) d = (r, d1)" by fastforce
  from vc_run_tx [OF run vc_marker] c have "d1 = d" "isl r" by (auto simp: marked_def)
  with run show "\<exists>e. work_step D v (MarkAt lease adapter pre) d = (Finished (Inl e), d, None)" by (cases r) auto
qed

definition example_pre :: preconditions where
  "example_pre = \<lparr>pc_Fingerprint = replicate 32 CHR ''f'', pc_TargetName = ''web'', pc_Allowed = True, pc_HighImpact = False\<rparr>"

definition example_mark :: "work_pc \<times> db \<times> submission option" where
  "example_mark = work_step example_dispatcher (example_step 0) (MarkAt dispatch_lease example_mutation example_pre) example_live"

definition mark_passed :: "work_pc \<Rightarrow> bool" where
  "mark_passed pc \<longleftrightarrow> (case pc of SubmitAt _ _ p _ \<Rightarrow> dp_id p = v7 5 | _ \<Rightarrow> False)"

lemma example_mark_passed: "mark_passed (fst example_mark)"
  by code_simp


text \<open>The same operation after its outcome stayed unknown, with its owner.\<close>

definition example_unknown :: db where
  "example_unknown = example_live\<lparr>operations := [moved 0 Unknown (moved 0 Reconciling (moved 0 Dispatching example_operation))],
     events := events example_live @ [new_event 0 (v7 51) (Some Queued) Dispatching example_operation,
       new_event 0 (v7 52) (Some Dispatching) Reconciling (moved 0 Dispatching example_operation),
       new_event 0 (v7 53) (Some Reconciling) Unknown (moved 0 Reconciling (moved 0 Dispatching example_operation))],
     memberships := [\<lparr>m_workspace = v7 1, m_user = v7 4, m_role = ''owner'', m_version = 1\<rparr>],
     grants := [\<lparr>g_workspace = v7 1, g_connection = v7 2, g_user = v7 4, g_actions = [''read'', ''operate'', ''high_impact'']\<rparr>]\<rparr>"

definition example_release :: "(err + accepted) \<times> db" where
  "example_release = ReleaseUnknown example_service (example_step 0) (example_principal\<lparr>pr_AuthenticatedAt := 1\<rparr>) (v7 1) (v7 5)
     \<lparr>rn_Acknowledged = True, rn_Target = ''web''\<rparr> ''req'' example_unknown"

lemma op_inv_unknown: "op_inv example_unknown"
  by code_simp

lemma example_release_result: "fst example_release = Inr \<lparr>ac_ID = v7 5, ac_State = Unknown\<rparr> \<and> locks (snd example_release) \<noteq> locks example_unknown"
  by code_simp


theorem gate_protects_recovery_witness:
  "gate (snd (SetRecovery good_net False 0 example_live)) = Some \<lparr>gate_open = False, gate_version = 3\<rparr>"
proof -
  obtain r d' where w: "SetRecovery good_net False 0 example_live = (r, d')" by (cases "SetRecovery good_net False 0 example_live")
  have "gate (snd (SetRecovery good_net False 0 example_live)) \<noteq> gate example_live" by code_simp
  then have "d' \<noteq> example_live" unfolding w by auto
  with gate_protects_recovery [of good_net False 0 example_live r d'] w show ?thesis by (auto simp: example_live_def)
qed

end
