(* ===== verification/Sama_Envelope.thy ===== *)
theory Sama_Envelope
  imports Sama_Intent
begin

text \<open>
  Package \<^verbatim>\<open>credentials\<close>: envelopes for stored credentials (\<^verbatim>\<open>envelope.go\<close>), the ring of master keys
  (\<^verbatim>\<open>keyring.go\<close>) and the change of a master key (\<^verbatim>\<open>rewrap.go\<close>). A payload is sealed under a fresh data key and
  the data key under a master key; both seals authenticate the identity the credential belongs to.

  Bytes are characters. AES-256-GCM is a pair of functions the definitions are given, and so is the randomness.
\<close>

section \<open>The cipher\<close>

record aead =
  ae_Seal :: "string \<Rightarrow> string \<Rightarrow> string \<Rightarrow> string \<Rightarrow> string"
  ae_Open :: "string \<Rightarrow> string \<Rightarrow> string \<Rightarrow> string \<Rightarrow> string option"

text \<open>
  The arguments are key, nonce, text and additional data. What the documentation of \<^verbatim>\<open>cipher.AEAD\<close> promises of GCM: what was
  sealed opens under the same key, nonce and additional data, and the seal adds a tag of 16 bytes.
\<close>

definition aead_ok :: "aead \<Rightarrow> bool" where
  "aead_ok A \<longleftrightarrow> (\<forall>k n p a. length k = 32 \<and> length n = 12 \<longrightarrow>
     ae_Open A k n (ae_Seal A k n p a) a = Some p \<and> length (ae_Seal A k n p a) = length p + 16)"

definition seal :: "aead \<Rightarrow> string \<Rightarrow> string option \<Rightarrow> string \<Rightarrow> string \<Rightarrow> err + (string \<times> string)" where
  "seal A key rnd plaintext aad = (if length key \<noteq> 32 then Inl EnvErrEnvelope
     else (case rnd of None \<Rightarrow> Inl EnvErrEnvelope | Some nonce \<Rightarrow> Inr (ae_Seal A key nonce plaintext aad, nonce)))"

definition unseal :: "aead \<Rightarrow> string \<Rightarrow> string \<Rightarrow> string \<Rightarrow> string \<Rightarrow> err + string" where
  "unseal A key ciphertext nonce aad = (if length key \<noteq> 32 \<or> length nonce \<noteq> 12 then Inl EnvErrEnvelope
     else (case ae_Open A key nonce ciphertext aad of None \<Rightarrow> Inl EnvErrEnvelope | Some plain \<Rightarrow> Inr plain))"

section \<open>Bindings\<close>

text \<open>
  \<^verbatim>\<open>json.Marshal\<close> of a string: \<open>json_body\<close> escapes quotes, backslashes, control characters and \<^verbatim>\<open><\<close>, \<^verbatim>\<open>>\<close>, \<^verbatim>\<open>&\<close>, copies
  the bytes of a valid rune (but not of U+2028 and U+2029) and replaces an invalid byte.
\<close>

definition first_rune :: "string \<Rightarrow> (nat \<times> nat) option" where
  "first_rune s = List.find (\<lambda>_. True) (List.map_filter (\<lambda>n. if length s < n then None
     else (case runes (take n s) of Some [r] \<Rightarrow> Some (r, n) | _ \<Rightarrow> None)) [1, 2, 3, 4])"

definition json_ascii :: "char \<Rightarrow> string" where
  "json_ascii c = (let b = of_char c :: nat in
     if c = CHR 0x22 \<or> c = CHR 0x5C then [CHR 0x5C, c]
     else if b = 8 then [CHR 0x5C, CHR ''b''] else if b = 12 then [CHR 0x5C, CHR ''f''] else if b = 10 then [CHR 0x5C, CHR ''n'']
     else if b = 13 then [CHR 0x5C, CHR ''r''] else if b = 9 then [CHR 0x5C, CHR ''t'']
     else if b < 32 \<or> c \<in> {CHR ''<'', CHR ''>'', CHR ''&''} then CHR 0x5C # ''u00'' @ [hex_digit (b div 16), hex_digit (b mod 16)]
     else [c])"

function json_body :: "string \<Rightarrow> string" where
  "json_body [] = []"
| "json_body (c # cs) = (if (of_char c :: nat) < 128 then json_ascii c @ json_body cs
     else (case first_rune (c # cs) of
         None \<Rightarrow> CHR 0x5C # ''ufffd'' @ json_body cs
       | Some (r, n) \<Rightarrow> (if r = 8232 then CHR 0x5C # ''u2028'' else if r = 8233 then CHR 0x5C # ''u2029'' else take n (c # cs))
           @ json_body (drop (n - 1) cs)))"
  by pat_completeness auto
termination by (relation "measure length") auto

definition aad_text :: "binding \<Rightarrow> string \<Rightarrow> string" where
  "aad_text b purpose = ''{'' @ dq ''Format'' @ '':1,'' @ dq ''Purpose'' @ '':'' @ dq purpose @ '','' @ dq ''Binding'' @ '':{'' @ dq ''Workspace'' @ '':''
     @ dq (uuid_String (bi_workspace b)) @ '','' @ dq ''Connection'' @ '':'' @ dq (uuid_String (bi_connection b)) @ '','' @ dq ''Family'' @ '':''
     @ dq (json_body (bi_family b)) @ '','' @ dq ''Version'' @ '':'' @ FormatInt (bi_version b) @ ''}}''"

definition binding_aad :: "binding \<Rightarrow> string \<Rightarrow> err + string" where
  "binding_aad b purpose = (if uuid_version (bi_workspace b) \<noteq> 7 \<or> uuid_version (bi_connection b) \<noteq> 7 \<or> bi_version b < 1
       \<or> length (bi_family b) = 0 \<or> length (bi_family b) > 128 then Inl EnvErrEnvelope
     else Inr (aad_text b purpose))"

section \<open>Envelopes\<close>

record envelope =
  en_Ciphertext :: string
  en_Nonce :: string
  en_WrappedKey :: string
  en_WrappingNonce :: string
  en_KeyID :: string
  en_Format :: int

definition validKeyID :: "string \<Rightarrow> bool" where
  "validKeyID i \<longleftrightarrow> length i \<noteq> 0 \<and> length i \<le> 128 \<and> list_all (\<lambda>c. alnum c \<or> c = CHR ''-'' \<or> c = CHR ''_'') i"

text \<open>What one encryption draws: the data key and the two nonces, each \<open>None\<close> where \<^verbatim>\<open>rand.Read\<close> fails.\<close>

record draws =
  dr_key :: "string option"
  dr_nonce :: "string option"
  dr_wrap :: "string option"

definition draws_ok :: "draws \<Rightarrow> bool" where
  "draws_ok r \<longleftrightarrow> pred_option (\<lambda>k. length k = 32) (dr_key r) \<and> pred_option (\<lambda>n. length n = 12) (dr_nonce r)
     \<and> pred_option (\<lambda>n. length n = 12) (dr_wrap r)"

definition Encrypt :: "aead \<Rightarrow> draws \<Rightarrow> binding \<Rightarrow> string \<Rightarrow> string \<Rightarrow> string \<Rightarrow> err + envelope" where
  "Encrypt A r b payload keyID master = (case binding_aad b ''payload'' of Inl _ \<Rightarrow> Inl EnvErrEnvelope
     | Inr aad \<Rightarrow>
         if length payload = 0 \<or> length payload > 65520 \<or> \<not> validKeyID keyID then Inl EnvErrEnvelope
         else (case dr_key r of None \<Rightarrow> Inl EnvErrEnvelope
           | Some dataKey \<Rightarrow> (case seal A dataKey (dr_nonce r) payload aad of Inl e \<Rightarrow> Inl e
               | Inr (ciphertext, nonce) \<Rightarrow> (case seal A master (dr_wrap r) dataKey (aad_text b ''data-key'') of Inl e \<Rightarrow> Inl e
                   | Inr (wrapped, wrappingNonce) \<Rightarrow> Inr \<lparr>en_Ciphertext = ciphertext, en_Nonce = nonce, en_WrappedKey = wrapped,
                       en_WrappingNonce = wrappingNonce, en_KeyID = keyID, en_Format = 1\<rparr>))))"

text \<open>A missing entry of the key map is the empty key.\<close>

definition key_at :: "(string \<times> string) list \<Rightarrow> string \<Rightarrow> string" where
  "key_at keys i = (case map_of keys i of None \<Rightarrow> [] | Some k \<Rightarrow> k)"

definition Decrypt :: "aead \<Rightarrow> binding \<Rightarrow> envelope \<Rightarrow> (string \<times> string) list \<Rightarrow> err + string" where
  "Decrypt A b e keys = (case binding_aad b ''payload'' of Inl _ \<Rightarrow> Inl EnvErrEnvelope
     | Inr aad \<Rightarrow>
         if en_Format e \<noteq> 1 \<or> length (en_Ciphertext e) > 65536 \<or> length (en_WrappedKey e) \<noteq> 48 then Inl EnvErrEnvelope
         else (case unseal A (key_at keys (en_KeyID e)) (en_WrappedKey e) (en_WrappingNonce e) (aad_text b ''data-key'') of Inl x \<Rightarrow> Inl x
           | Inr dataKey \<Rightarrow> unseal A dataKey (en_Ciphertext e) (en_Nonce e) aad))"

section \<open>The key ring\<close>

record keyring =
  kr_active :: string
  kr_keys :: "(string \<times> string) list"

fun unique_properties :: "json \<Rightarrow> bool" where
  "unique_properties (JObj fs) = (distinct (map fst fs) \<and> list_all unique_properties (map snd fs))"
| "unique_properties (JArr xs) = list_all unique_properties xs"
| "unique_properties _ = True"

text \<open>The keys of the file in order; an entry that does not decode, has another length or a used name refuses the file.\<close>

fun load_keys :: "(string \<Rightarrow> string option) \<Rightarrow> (string \<times> string) list \<Rightarrow> (string \<times> string) list \<Rightarrow> (string \<times> string) list option" where
  "load_keys b64 ring [] = Some ring"
| "load_keys b64 ring ((i, text) # rest) = (case b64 text of None \<Rightarrow> None
     | Some key \<Rightarrow> if length key \<noteq> 32 \<or> \<not> validKeyID i \<or> map_of ring i \<noteq> None then None else load_keys b64 ((i, key) # ring) rest)"

text \<open>
  \<open>LoadKeyring\<close>: \<open>mounted\<close> is that the path names a regular file with mode 0600 that opens as the same file, \<open>len\<close> its length,
  \<open>doc\<close> the JSON document it holds and \<open>input\<close> that document decoded into the struct (\<open>None\<close> where either fails);
  \<open>b64\<close> is the strict standard base64 decoder.
\<close>

definition LoadKeyring :: "(string \<Rightarrow> string option) \<Rightarrow> bool \<Rightarrow> nat \<Rightarrow> json option \<Rightarrow> (string \<times> (string \<times> string) list) option \<Rightarrow> err + keyring" where
  "LoadKeyring b64 mounted len doc input = (if \<not> mounted \<or> len > 65536 then Inl EnvErrKeyring
     else (case (doc, input) of
         (Some j, Some (active, entries)) \<Rightarrow>
           if length entries = 0 \<or> length entries > 64 \<or> \<not> unique_properties j then Inl EnvErrKeyring
           else (case load_keys b64 [] entries of None \<Rightarrow> Inl EnvErrKeyring
             | Some keys \<Rightarrow> if map_of keys active = None then Inl EnvErrKeyring else Inr \<lparr>kr_active = active, kr_keys = keys\<rparr>)
       | _ \<Rightarrow> Inl EnvErrKeyring))"

definition Require :: "keyring option \<Rightarrow> string list \<Rightarrow> bool" where
  "Require k ids = (case k of None \<Rightarrow> False
     | Some ring \<Rightarrow> map_of (kr_keys ring) (kr_active ring) \<noteq> None \<and> list_all (\<lambda>i. map_of (kr_keys ring) i \<noteq> None) ids)"

definition Keyring_Encrypt :: "aead \<Rightarrow> draws \<Rightarrow> keyring \<Rightarrow> binding \<Rightarrow> string \<Rightarrow> err + envelope" where
  "Keyring_Encrypt A r ring b payload = (if \<not> Require (Some ring) [] then Inl EnvErrKeyring
     else Encrypt A r b payload (kr_active ring) (key_at (kr_keys ring) (kr_active ring)))"

definition Keyring_Decrypt :: "aead \<Rightarrow> keyring \<Rightarrow> binding \<Rightarrow> envelope \<Rightarrow> err + string" where
  "Keyring_Decrypt A ring b e = (if \<not> Require (Some ring) [en_KeyID e] then Inl EnvErrKeyring else Decrypt A b e (kr_keys ring))"

definition Rewrap :: "aead \<Rightarrow> string option \<Rightarrow> keyring \<Rightarrow> binding \<Rightarrow> envelope \<Rightarrow> string \<Rightarrow> err + envelope" where
  "Rewrap A rnd ring b e target = (if \<not> Require (Some ring) [en_KeyID e, target] then Inl EnvErrKeyring
     else (case binding_aad b ''data-key'' of Inl _ \<Rightarrow> Inl EnvErrEnvelope
       | Inr aad \<Rightarrow>
           if en_Format e \<noteq> 1 \<or> length (en_WrappedKey e) \<noteq> 48 then Inl EnvErrEnvelope
           else (case unseal A (key_at (kr_keys ring) (en_KeyID e)) (en_WrappedKey e) (en_WrappingNonce e) aad of Inl _ \<Rightarrow> Inl EnvErrEnvelope
             | Inr dataKey \<Rightarrow> (case seal A (key_at (kr_keys ring) target) rnd dataKey aad of Inl _ \<Rightarrow> Inl EnvErrEnvelope
                 | Inr (wrapped, nonce) \<Rightarrow> Inr (e\<lparr>en_WrappedKey := wrapped, en_WrappingNonce := nonce, en_KeyID := target\<rparr>)))))"

section \<open>Round trips\<close>

lemma seal_Inr: "seal A key rnd p a = Inr (c, n) \<longleftrightarrow> length key = 32 \<and> rnd = Some n \<and> c = ae_Seal A key n p a"
  by (auto simp: seal_def split: option.splits)

lemma unseal_Inr: "unseal A key c n a = Inr p \<longleftrightarrow> length key = 32 \<and> length n = 12 \<and> ae_Open A key n c a = Some p"
  by (auto simp: unseal_def split: option.splits)

lemma binding_aad_Inr: "binding_aad b purpose = Inr a \<longleftrightarrow> binding_aad b [] \<noteq> Inl EnvErrEnvelope \<and> a = aad_text b purpose"
  by (auto simp: binding_aad_def)

text \<open>The shape of an envelope that \<open>Encrypt\<close> makes.\<close>

lemma Encrypt_Inr:
  assumes "Encrypt A r b payload keyID master = Inr e"
  obtains k n w where "dr_key r = Some k" "dr_nonce r = Some n" "dr_wrap r = Some w" "length k = 32" "length master = 32"
    "binding_aad b ''payload'' = Inr (aad_text b ''payload'')" "length payload \<noteq> 0" "length payload \<le> 65520" "validKeyID keyID"
    "e = \<lparr>en_Ciphertext = ae_Seal A k n payload (aad_text b ''payload''), en_Nonce = n,
       en_WrappedKey = ae_Seal A master w k (aad_text b ''data-key''), en_WrappingNonce = w, en_KeyID = keyID, en_Format = 1\<rparr>"
  using assms by (auto simp: Encrypt_def seal_Inr binding_aad_def split: sum.splits if_splits option.splits)

lemma Decrypt_Inr:
  "Decrypt A b e keys = Inr p \<longleftrightarrow> binding_aad b ''payload'' = Inr (aad_text b ''payload'') \<and> en_Format e = 1
     \<and> length (en_Ciphertext e) \<le> 65536 \<and> length (en_WrappedKey e) = 48
     \<and> (\<exists>k. unseal A (key_at keys (en_KeyID e)) (en_WrappedKey e) (en_WrappingNonce e) (aad_text b ''data-key'') = Inr k
        \<and> unseal A k (en_Ciphertext e) (en_Nonce e) (aad_text b ''payload'') = Inr p)"
  by (auto simp: Decrypt_def binding_aad_def split: sum.splits if_splits)

lemma aead_okD: "aead_ok A \<Longrightarrow> length k = 32 \<Longrightarrow> length n = 12 \<Longrightarrow>
    ae_Open A k n (ae_Seal A k n p a) a = Some p \<and> length (ae_Seal A k n p a) = length p + 16"
  by (simp add: aead_ok_def)

lemma draws_okD: "draws_ok r \<Longrightarrow> dr_key r = Some k \<Longrightarrow> length k = 32" "draws_ok r \<Longrightarrow> dr_nonce r = Some n \<Longrightarrow> length n = 12"
    "draws_ok r \<Longrightarrow> dr_wrap r = Some w \<Longrightarrow> length w = 12"
  by (simp_all add: draws_ok_def)

lemma Decrypt_Encrypt:
  assumes "aead_ok A" "draws_ok r" "Encrypt A r b payload keyID master = Inr e" "map_of keys keyID = Some master"
  shows "Decrypt A b e keys = Inr payload"
  using assms(3)
proof (rule Encrypt_Inr)
  fix k n w
  assume *: "dr_key r = Some k" "dr_nonce r = Some n" "dr_wrap r = Some w" "length k = 32" "length master = 32"
    "binding_aad b ''payload'' = Inr (aad_text b ''payload'')" "length payload \<noteq> 0" "length payload \<le> 65520"
    "e = \<lparr>en_Ciphertext = ae_Seal A k n payload (aad_text b ''payload''), en_Nonce = n,
       en_WrappedKey = ae_Seal A master w k (aad_text b ''data-key''), en_WrappingNonce = w, en_KeyID = keyID, en_Format = 1\<rparr>"
  then have "length n = 12" "length w = 12" using draws_okD assms(2) by blast+
  with * assms aead_okD [OF assms(1), of k n] aead_okD [OF assms(1), of master w] show ?thesis
    by (simp add: Decrypt_Inr unseal_Inr key_at_def)
qed

lemma Keyring_Decrypt_Inr: "Keyring_Decrypt A ring b e = Inr p \<longleftrightarrow> Require (Some ring) [en_KeyID e] \<and> Decrypt A b e (kr_keys ring) = Inr p"
  by (simp add: Keyring_Decrypt_def)

lemma Keyring_Decrypt_Encrypt:
  assumes "aead_ok A" "draws_ok r" "Keyring_Encrypt A r ring b payload = Inr e"
  shows "Keyring_Decrypt A ring b e = Inr payload"
proof -
  have req: "Require (Some ring) []" and enc: "Encrypt A r b payload (kr_active ring) (key_at (kr_keys ring) (kr_active ring)) = Inr e"
    using assms(3) by (auto simp: Keyring_Encrypt_def split: if_splits)
  moreover from req have "map_of (kr_keys ring) (kr_active ring) = Some (key_at (kr_keys ring) (kr_active ring))"
    by (auto simp: Require_def key_at_def)
  moreover from enc have "en_KeyID e = kr_active ring" by (rule Encrypt_Inr) simp
  ultimately show ?thesis using Decrypt_Encrypt [OF assms(1,2) enc] by (auto simp: Keyring_Decrypt_Inr Require_def)
qed

lemma Rewrap_Inr:
  "Rewrap A rnd ring b e target = Inr e' \<longleftrightarrow> Require (Some ring) [en_KeyID e, target] \<and> binding_aad b ''data-key'' = Inr (aad_text b ''data-key'')
     \<and> en_Format e = 1 \<and> length (en_WrappedKey e) = 48
     \<and> (\<exists>k n. unseal A (key_at (kr_keys ring) (en_KeyID e)) (en_WrappedKey e) (en_WrappingNonce e) (aad_text b ''data-key'') = Inr k
        \<and> length (key_at (kr_keys ring) target) = 32 \<and> rnd = Some n
        \<and> e' = e\<lparr>en_WrappedKey := ae_Seal A (key_at (kr_keys ring) target) n k (aad_text b ''data-key''), en_WrappingNonce := n, en_KeyID := target\<rparr>)"
  by (auto simp: Rewrap_def binding_aad_def seal_def split: sum.splits if_splits option.splits)

text \<open>Rewrapping an envelope that opens gives one that opens to the same payload.\<close>

lemma Rewrap_keeps:
  assumes "aead_ok A" "pred_option (\<lambda>n. length n = 12) rnd" "Rewrap A rnd ring b e target = Inr e'"
  shows "Keyring_Decrypt A ring b e = Inr p \<Longrightarrow> Keyring_Decrypt A ring b e' = Inr p"
    and "en_KeyID e' = target \<and> en_Ciphertext e' = en_Ciphertext e \<and> en_Nonce e' = en_Nonce e \<and> en_Format e' = en_Format e"
proof -
  from assms(3) obtain k n where *: "Require (Some ring) [en_KeyID e, target]"
      "unseal A (key_at (kr_keys ring) (en_KeyID e)) (en_WrappedKey e) (en_WrappingNonce e) (aad_text b ''data-key'') = Inr k"
      "length (key_at (kr_keys ring) target) = 32" "rnd = Some n"
      "e' = e\<lparr>en_WrappedKey := ae_Seal A (key_at (kr_keys ring) target) n k (aad_text b ''data-key''), en_WrappingNonce := n, en_KeyID := target\<rparr>"
    by (auto simp: Rewrap_Inr)
  then have n: "length n = 12" using assms(2) by simp
  show "en_KeyID e' = target \<and> en_Ciphertext e' = en_Ciphertext e \<and> en_Nonce e' = en_Nonce e \<and> en_Format e' = en_Format e" using * by simp
  assume p: "Keyring_Decrypt A ring b e = Inr p"
  then have "length k = 32" using * by (auto simp: Keyring_Decrypt_Inr Decrypt_Inr unseal_Inr)
  then show "Keyring_Decrypt A ring b e' = Inr p"
    using p * n aead_okD [OF assms(1) *(3) n, of k "aad_text b ''data-key''"]
    by (auto simp: Keyring_Decrypt_Inr Decrypt_Inr unseal_Inr Require_def)
qed

lemma Encrypt_succeeds:
  assumes "binding_aad b ''payload'' = Inr a" "payload \<noteq> []" "length payload \<le> 65520" "validKeyID i" "length master = 32" "draws_ok r"
    "dr_key r \<noteq> None" "dr_nonce r \<noteq> None" "dr_wrap r \<noteq> None"
  shows "\<exists>e. Encrypt A r b payload i master = Inr e"
  using assms by (auto simp: Encrypt_def seal_def draws_ok_def split: sum.splits)

text \<open>A cipher for concrete runs: the text with a constant tag.\<close>

definition example_aead :: aead where
  "example_aead = \<lparr>ae_Seal = (\<lambda>k n p a. p @ replicate 16 CHR ''.''),
     ae_Open = (\<lambda>k n c a. if length c < 16 then None else Some (take (length c - 16) c))\<rparr>"

lemma aead_ok_example: "aead_ok example_aead"
  by (auto simp: aead_ok_def example_aead_def)

definition example_draws :: draws where
  "example_draws = \<lparr>dr_key = Some (replicate 32 CHR ''d''), dr_nonce = Some (replicate 12 CHR ''n''), dr_wrap = Some (replicate 12 CHR ''w'')\<rparr>"

lemma draws_ok_example: "draws_ok example_draws"
  by (simp add: draws_ok_def example_draws_def)

definition example_ring :: keyring where
  "example_ring = \<lparr>kr_active = ''k1'', kr_keys = [(''k1'', replicate 32 CHR ''1''), (''k2'', replicate 32 CHR ''2'')]\<rparr>"

definition example_binding :: binding where
  "example_binding = \<lparr>bi_workspace = v7 1, bi_connection = v7 2, bi_family = ''vultr'', bi_version = 1\<rparr>"

text \<open>
  C18: a payload of 1 to 65520 bytes with a proper binding is always sealed under the active key, what was sealed opens to the same
  payload under the same binding, and moving the envelope to another key of the ring changes the wrapping alone, so that the
  moved envelope opens to the payload too.
\<close>
theorem envelope_roundtrip:
  assumes "aead_ok A" "draws_ok r"
  shows "(binding_aad b ''payload'' = Inr a \<and> payload \<noteq> [] \<and> length payload \<le> 65520 \<and> Require (Some ring) [] \<and> validKeyID (kr_active ring)
      \<and> length (key_at (kr_keys ring) (kr_active ring)) = 32 \<and> dr_key r \<noteq> None \<and> dr_nonce r \<noteq> None \<and> dr_wrap r \<noteq> None
      \<longrightarrow> (\<exists>e. Keyring_Encrypt A r ring b payload = Inr e))
    \<and> (\<forall>e. Keyring_Encrypt A r ring b payload = Inr e \<longrightarrow> Keyring_Decrypt A ring b e = Inr payload
        \<and> (\<forall>e'. length n = 12 \<and> Rewrap A (Some n) ring b e target = Inr e' \<longrightarrow> Keyring_Decrypt A ring b e' = Inr payload \<and> en_KeyID e' = target
             \<and> en_Ciphertext e' = en_Ciphertext e \<and> en_Nonce e' = en_Nonce e \<and> en_Format e' = en_Format e))"
proof (intro conjI allI impI; (elim conjE)?)
  assume "binding_aad b ''payload'' = Inr a" "payload \<noteq> []" "length payload \<le> 65520" "Require (Some ring) []" "validKeyID (kr_active ring)"
    "length (key_at (kr_keys ring) (kr_active ring)) = 32" "dr_key r \<noteq> None" "dr_nonce r \<noteq> None" "dr_wrap r \<noteq> None"
  then show "\<exists>e. Keyring_Encrypt A r ring b payload = Inr e" using assms Encrypt_succeeds by (simp add: Keyring_Encrypt_def)
next
  fix e
  assume enc: "Keyring_Encrypt A r ring b payload = Inr e"
  then show open1: "Keyring_Decrypt A ring b e = Inr payload" using assms by (rule Keyring_Decrypt_Encrypt [rotated 2])
  fix e'
  assume "length n = 12" and moved: "Rewrap A (Some n) ring b e target = Inr e'"
  then have n: "pred_option (\<lambda>n. length n = 12) (Some n)" by simp
  note keeps = Rewrap_keeps [OF assms(1) n moved]
  show "Keyring_Decrypt A ring b e' = Inr payload" "en_KeyID e' = target" "en_Ciphertext e' = en_Ciphertext e"
    "en_Nonce e' = en_Nonce e" "en_Format e' = en_Format e"
    using keeps(1) [OF open1] keeps(2) by simp_all
qed

text \<open>A token sealed under the first key, and moved to the second.\<close>
theorem envelope_roundtrip_witness:
  "\<exists>e e'. Keyring_Encrypt example_aead example_draws example_ring example_binding ''token'' = Inr e
     \<and> Rewrap example_aead (Some (replicate 12 CHR ''m'')) example_ring example_binding e ''k2'' = Inr e'
     \<and> Keyring_Decrypt example_aead example_ring example_binding e' = Inr ''token'' \<and> en_KeyID e' = ''k2''"
proof -
  have v: "uuid_version (v7 1) = 7" "uuid_version (v7 2) = 7" by code_simp+
  then obtain a where "binding_aad example_binding ''payload'' = Inr a" by (simp add: binding_aad_def example_binding_def)
  moreover have "dr_key example_draws \<noteq> None" "dr_nonce example_draws \<noteq> None" "dr_wrap example_draws \<noteq> None" by (simp_all add: example_draws_def)
  moreover have "Require (Some example_ring) []" "validKeyID (kr_active example_ring)" "length (key_at (kr_keys example_ring) (kr_active example_ring)) = 32"
    by (code_simp, code_simp, simp add: example_ring_def key_at_def)
  ultimately obtain e where e: "Keyring_Encrypt example_aead example_draws example_ring example_binding ''token'' = Inr e"
    using envelope_roundtrip [OF aead_ok_example draws_ok_example, of example_binding a "''token''" example_ring "[]" "[]"] by auto
  then have "\<exists>e'. Rewrap example_aead (Some (replicate 12 CHR ''m'')) example_ring example_binding e ''k2'' = Inr e'"
    using v by (auto simp: Keyring_Encrypt_def Rewrap_Inr Require_def example_ring_def unseal_Inr example_aead_def key_at_def binding_aad_def
        example_binding_def example_draws_def split: if_splits elim!: Encrypt_Inr)
  then obtain e' where e': "Rewrap example_aead (Some (replicate 12 CHR ''m'')) example_ring example_binding e ''k2'' = Inr e'" by blast
  with e envelope_roundtrip [OF aead_ok_example draws_ok_example, of example_binding a "''token''" example_ring "replicate 12 CHR ''m''" "''k2''"]
  show ?thesis by auto
qed

section \<open>Envelopes are bound to their identity\<close>

definition number_text :: "string \<Rightarrow> nat" where
  "number_text s = foldl (\<lambda>v c. 10 * v + (of_char c - 48)) 0 s"

lemma number_text_snoc: "number_text (s @ [c]) = 10 * number_text s + (of_char c - 48)"
  by (simp add: number_text_def)

lemma digit_value: "n < 10 \<Longrightarrow> of_char (''0123456789'' ! n) - 48 = n"
proof -
  have "\<forall>n < 10. of_char (''0123456789'' ! n) - 48 = n" by code_simp
  then show "n < 10 \<Longrightarrow> of_char (''0123456789'' ! n) - 48 = n" by blast
qed

lemma number_text_dec: "number_text (dec_nat n) = n"
proof (induction n rule: dec_nat.induct)
  case (1 n)
  show ?case
  proof (cases "n < 10")
    case True
    then show ?thesis using digit_value [of n] by (subst dec_nat.simps) (simp add: number_text_def)
  next
    case False
    then show ?thesis using 1 digit_value [of "n mod 10"] by (subst dec_nat.simps) (simp add: number_text_snoc)
  qed
qed

lemma FormatInt_inject: "0 \<le> n \<Longrightarrow> 0 \<le> m \<Longrightarrow> FormatInt n = FormatInt m \<Longrightarrow> n = m"
  by (metis FormatInt_def eq_nat_nat_iff linorder_not_le number_text_dec)

text \<open>Text that JSON leaves as it is; the families of all adapters are such.\<close>

definition plain_text :: "string \<Rightarrow> bool" where
  "plain_text s \<longleftrightarrow> list_all (\<lambda>c. 32 \<le> (of_char c :: nat) \<and> of_char c < (128 :: nat)
     \<and> c \<notin> {CHR 0x22, CHR 0x5C, CHR ''<'', CHR ''>'', CHR ''&''}) s"

lemma json_body_plain: "plain_text s \<Longrightarrow> json_body s = s"
  by (induction s) (auto simp: plain_text_def json_ascii_def Let_def)

lemma aad_text_inject:
  assumes "aad_text b p = aad_text b' p" "plain_text (bi_family b)" "plain_text (bi_family b')" "1 \<le> bi_version b" "1 \<le> bi_version b'"
  shows "b = b'"
proof -
  have quote: "CHR 0x22 \<notin> set (bi_family b)" "CHR 0x22 \<notin> set (bi_family b')" using assms(2,3) by (auto simp: plain_text_def list_all_iff)
  let ?rest = "\<lambda>b. '','' @ dq ''Version'' @ '':'' @ FormatInt (bi_version b) @ ''}}''"
  from assms(1) have ids: "bi_workspace b = bi_workspace b' \<and> bi_connection b = bi_connection b'"
    and tail: "dq (bi_family b) @ ?rest b = dq (bi_family b') @ ?rest b'"
    by (simp_all only: aad_text_def same_append_eq append_assoc dq_length_eq length_uuid_String uuid_String_inject json_body_plain [OF assms(2)]
        json_body_plain [OF assms(3)])
  have family: "bi_family b = bi_family b'" by (rule quoted_split [OF quote tail])
  with tail have "FormatInt (bi_version b) @ ''}}'' = FormatInt (bi_version b') @ ''}}''"
    by (simp only: same_append_eq)
  then have "bi_version b = bi_version b'" using FormatInt_inject [of "bi_version b" "bi_version b'"] assms(4,5)
    by (simp only: append_same_eq)
  with ids family show ?thesis by (auto intro: binding.equality)
qed

text \<open>A forgery: a text sealed with some additional data opens with other additional data.\<close>

definition forgery :: "aead \<Rightarrow> string \<Rightarrow> bool" where
  "forgery A k \<longleftrightarrow> (\<exists>n p a a'. a' \<noteq> a \<and> ae_Open A k n (ae_Seal A k n p a) a' \<noteq> None)"



end
