(* ===== verification/Sama_Connection.thy ===== *)
theory Sama_Connection
  imports Sama_System Sama_Envelope
begin

text \<open>
  Package \<^verbatim>\<open>connection\<close>: the typed credentials (\<^verbatim>\<open>credential.go\<close>), their validation against the provider under a
  rate limit (\<^verbatim>\<open>validation.go\<close>), saving (\<^verbatim>\<open>save.go\<close>), rotation (\<^verbatim>\<open>rotate.go\<close>), disabling (\<^verbatim>\<open>disable.go\<close>), the move of
  envelopes to another master key (\<^verbatim>\<open>rewrap.go\<close>) and the reads (\<^verbatim>\<open>metadata.go\<close>, \<^verbatim>\<open>read.go\<close>).

  A handler reads the pool before it opens its transaction, and other transactions may commit in between; so the
  definitions take the database of each read and of the transaction separately.
\<close>

section \<open>Credentials\<close>

record credential =
  cr_Type :: string
  cr_Token :: string
  cr_ClientID :: string
  cr_ClientSecret :: string
  cr_Username :: string
  cr_Password :: string
  cr_CustomerNumber :: string
  cr_APIKey :: string
  cr_APIPassword :: string

definition customerNumber :: "string \<Rightarrow> bool" where
  "customerNumber s = (case s of [] \<Rightarrow> False | c # cs \<Rightarrow> char_between CHR ''1'' CHR ''9'' c \<and> length cs \<le> 19
     \<and> list_all (char_between CHR ''0'' CHR ''9'') cs)"

definition validSecret :: "string \<Rightarrow> bool" where
  "validSecret s \<longleftrightarrow> length s > 0 \<and> length s \<le> 4096 \<and> \<not> list_ex (\<lambda>c. c \<in> {CHR 0x0D, CHR 0x0A, CHR 0x00}) s"

definition credential_valid :: "credential \<Rightarrow> bool" where
  "credential_valid c = (let legacyFields = cr_CustomerNumber c \<noteq> [] \<or> cr_APIKey c \<noteq> [] \<or> cr_APIPassword c \<noteq> [] in
     if cr_Type c = ''bearer_v1'' then
       \<not> (legacyFields \<or> \<not> validSecret (cr_Token c) \<or> cr_ClientID c \<noteq> [] \<or> cr_ClientSecret c \<noteq> [] \<or> cr_Username c \<noteq> [] \<or> cr_Password c \<noteq> [])
     else if cr_Type c = ''contabo_v1'' then
       \<not> (legacyFields \<or> cr_Token c \<noteq> [] \<or> \<not> validSecret (cr_ClientID c) \<or> \<not> validSecret (cr_ClientSecret c) \<or> \<not> validSecret (cr_Username c)
          \<or> \<not> validSecret (cr_Password c))
     else if cr_Type c = ''netcup_legacy_v1'' then
       \<not> (\<not> customerNumber (cr_CustomerNumber c) \<or> \<not> validSecret (cr_APIKey c) \<or> \<not> validSecret (cr_APIPassword c) \<or> cr_Token c \<noteq> []
          \<or> cr_ClientID c \<noteq> [] \<or> cr_ClientSecret c \<noteq> [] \<or> cr_Username c \<noteq> [] \<or> cr_Password c \<noteq> [])
     else False)"

text \<open>\<^verbatim>\<open>strings.Contains(text, s)\<close>.\<close>

definition contains :: "string \<Rightarrow> string \<Rightarrow> bool" where
  "contains text s \<longleftrightarrow> list_ex (\<lambda>i. take (length s) (drop i text) = s) [0..<length text + 1]"

definition ContainsSecret :: "credential \<Rightarrow> string \<Rightarrow> bool" where
  "ContainsSecret c text \<longleftrightarrow> list_ex (\<lambda>s. s \<noteq> [] \<and> contains text s)
     [cr_Token c, cr_ClientID c, cr_ClientSecret c, cr_Username c, cr_Password c, cr_APIKey c, cr_APIPassword c]"

text \<open>
  \<^verbatim>\<open>encoding/json\<close> for credentials: \<open>cj_decode\<close> is the strict decoder with nothing after the value. The code relies on
  the decoder inverting the encoder for text that is valid UTF-8.
\<close>

record codec =
  cj_marshal :: "credential \<Rightarrow> string"
  cj_decode :: "string \<Rightarrow> credential option"

definition credential_text :: "credential \<Rightarrow> bool" where
  "credential_text c \<longleftrightarrow> list_all (\<lambda>s. runes s \<noteq> None) [cr_Type c, cr_Token c, cr_ClientID c, cr_ClientSecret c, cr_Username c, cr_Password c,
     cr_CustomerNumber c, cr_APIKey c, cr_APIPassword c]"

definition codec_ok :: "codec \<Rightarrow> bool" where
  "codec_ok J \<longleftrightarrow> (\<forall>c. credential_text c \<longrightarrow> cj_decode J (cj_marshal J c) = Some c)"

definition EncryptCredential :: "codec \<Rightarrow> aead \<Rightarrow> draws \<Rightarrow> keyring option \<Rightarrow> binding \<Rightarrow> credential \<Rightarrow> err + envelope" where
  "EncryptCredential J A r ring b input = (if \<not> credential_valid input then Inl ConnErrCredential
     else (case ring of None \<Rightarrow> Inl EnvErrKeyring | Some k \<Rightarrow> Keyring_Encrypt A r k b (cj_marshal J input)))"

definition DecryptCredential :: "codec \<Rightarrow> aead \<Rightarrow> keyring option \<Rightarrow> binding \<Rightarrow> envelope \<Rightarrow> err + credential" where
  "DecryptCredential J A ring b e = (case ring of None \<Rightarrow> Inl ConnErrCredential
     | Some k \<Rightarrow> (case Keyring_Decrypt A k b e of Inl _ \<Rightarrow> Inl ConnErrCredential
         | Inr payload \<Rightarrow> (case cj_decode J payload of None \<Rightarrow> Inl ConnErrCredential
             | Some c \<Rightarrow> if credential_valid c then Inr c else Inl ConnErrCredential)))"

section \<open>Validation\<close>

text \<open>The recent validations per user; a user occurs once.\<close>

type_synonym windows = "(uuid \<times> time list) list"

definition window :: "windows \<Rightarrow> uuid \<Rightarrow> time list" where
  "window ws u = (case map_of ws u of None \<Rightarrow> [] | Some ts \<Rightarrow> ts)"

definition expire_windows :: "time \<Rightarrow> windows \<Rightarrow> windows" where
  "expire_windows cutoff ws = filter (\<lambda>(u, ts). ts \<noteq> []) (map (\<lambda>(u, ts). (u, dropWhile (\<lambda>t. t \<le> cutoff) ts)) ws)"

definition set_window :: "uuid \<Rightarrow> time list \<Rightarrow> windows \<Rightarrow> windows" where
  "set_window u ts ws = (if map_of ws u = None then ws @ [(u, ts)] else map (\<lambda>(k, v). (k, if k = u then ts else v)) ws)"

definition permit :: "time \<Rightarrow> uuid \<Rightarrow> windows \<Rightarrow> bool \<times> windows" where
  "permit now actor ws0 = (let ws = expire_windows (now - minute) ws0 in
     if length (window ws actor) \<ge> 5 \<or> length ws \<ge> 1000 \<and> map_of ws actor = None then (False, ws)
     else (True, set_window actor (window ws actor @ [now]) ws))"

record preview =
  pv_AccountIdentity :: string
  pv_VerifiedAt :: time
  pv_Capabilities :: "capability list"

text \<open>\<open>vs_readers\<close>: the registered adapters; an adapter answers with the account and the verified actions, or fails.\<close>

record validation =
  vs_keyring :: "keyring option"
  vs_enabled :: bool
  vs_readers :: "string \<Rightarrow> (credential \<Rightarrow> (string \<times> string list) option) option"
  vs_windows :: windows

definition safeAccount :: "string \<Rightarrow> bool" where
  "safeAccount s = code_like ''._:/-'' 511 s"

definition may_manage :: "db \<Rightarrow> uuid \<Rightarrow> uuid \<Rightarrow> bool" where
  "may_manage d scope actor = (case live_member d scope actor of None \<Rightarrow> False
     | Some m \<Rightarrow> m_role m \<in> {''admin'', ''owner''} \<and> open_workspace d scope \<noteq> None)"

text \<open>\<open>now\<close> is the clock of \<open>permit\<close>, \<open>at\<close> the one at the end; the service is \<open>None\<close> where it is not configured.\<close>

definition Preview :: "net \<Rightarrow> time \<Rightarrow> time \<Rightarrow> validation option \<Rightarrow> uuid \<Rightarrow> uuid \<Rightarrow> string \<Rightarrow> credential \<Rightarrow> db \<Rightarrow> (err + preview) \<times> validation option" where
  "Preview n now at s actor scope family input d = (case s of None \<Rightarrow> (Inl ConnErrValidation, s)
     | Some v \<Rightarrow>
         if \<not> vs_enabled v \<or> \<not> Require (vs_keyring v) [] then (Inl ConnErrValidation, s)
         else if n_left n = Some 0 then (Inl ConnErrValidation, s)
         else if \<not> may_manage d scope actor then (Inl WsErrDenied, s)
         else if \<not> credential_valid input then (Inl ConnErrCredential, s)
         else (case vs_readers v family of None \<Rightarrow> (Inl ConnErrUnsupported, s)
           | Some reader \<Rightarrow> (case permit now actor (vs_windows v) of (ok, ws) \<Rightarrow>
               let s' = Some (v\<lparr>vs_windows := ws\<rparr>) in
               if \<not> ok then (Inl ConnErrValidationLimit, s')
               else (case reader input of None \<Rightarrow> (Inl ConnErrValidation, s')
                 | Some (account, verified) \<Rightarrow>
                     if \<not> safeAccount account \<or> ContainsSecret input account then (Inl ConnErrValidation, s')
                     else (Inr \<lparr>pv_AccountIdentity = account, pv_VerifiedAt = at,
                         pv_Capabilities = Effective [(''compute.server.read'', ''read'')] [''compute.server.read''] verified [''read''] [''compute.server.read'']\<rparr>, s')))))"

definition verified_actions :: "preview \<Rightarrow> string list" where
  "verified_actions p = map ca_Action (filter ca_Available (pv_Capabilities p))"

section \<open>Stored envelopes\<close>

definition credential_row_of :: "uuid \<Rightarrow> uuid \<Rightarrow> int \<Rightarrow> envelope \<Rightarrow> credential_row" where
  "credential_row_of scope i version e = \<lparr>v_workspace = scope, v_connection = i, v_version = version, v_ciphertext = en_Ciphertext e, v_nonce = en_Nonce e,
     v_wrapped_data_key = en_WrappedKey e, v_wrapping_nonce = en_WrappingNonce e, v_encryption_format = en_Format e, v_master_key_id = en_KeyID e,
     v_revoked_at = None\<rparr>"

definition stored_envelope :: "credential_row \<Rightarrow> envelope" where
  "stored_envelope v = \<lparr>en_Ciphertext = v_ciphertext v, en_Nonce = v_nonce v, en_WrappedKey = v_wrapped_data_key v, en_WrappingNonce = v_wrapping_nonce v,
     en_KeyID = v_master_key_id v, en_Format = v_encryption_format v\<rparr>"

definition credential_key :: "credential_row \<Rightarrow> uuid \<times> uuid \<times> int" where
  "credential_key v = (v_workspace v, v_connection v, v_version v)"

definition insert_credential :: "credential_row \<Rightarrow> db \<Rightarrow> db option" where
  "insert_credential v d =
     (if credential_key v \<in> set (map credential_key (credential_versions d)) \<or> connection_of d (v_workspace v) (v_connection v) = None
         \<or> \<not> (0 < v_version v \<and> bigint_ok (v_version v)) \<or> \<not> (1 \<le> length (v_ciphertext v) \<and> int (length (v_ciphertext v)) \<le> 65536)
         \<or> \<not> (1 \<le> length (v_nonce v) \<and> length (v_nonce v) \<le> 64) \<or> \<not> (1 \<le> length (v_wrapped_data_key v) \<and> length (v_wrapped_data_key v) \<le> 1024)
         \<or> \<not> (1 \<le> length (v_wrapping_nonce v) \<and> length (v_wrapping_nonce v) \<le> 64) \<or> v_encryption_format v \<le> 0 \<or> \<not> pg_text 1 128 (v_master_key_id v)
      then None else Some (d\<lparr>credential_versions := credential_versions d @ [v]\<rparr>))"

definition storeEnvelope :: "uuid \<Rightarrow> uuid \<Rightarrow> int \<Rightarrow> envelope \<Rightarrow> unit dbtx" where
  "storeEnvelope scope i version e = exec WsErrStore (insert_credential (credential_row_of scope i version e))"

definition credentialAudit :: "time \<Rightarrow> uuid option \<Rightarrow> uuid \<Rightarrow> uuid \<Rightarrow> uuid \<Rightarrow> string \<Rightarrow> string \<Rightarrow> unit dbtx" where
  "credentialAudit clk aid actor scope i kind request = (case aid of None \<Rightarrow> tx_raise WsErrStore
     | Some eid \<Rightarrow> tx_as WsErrStore (Append clk (user_event eid scope actor kind request [(''connection_id'', uuid_String i)])))"

section \<open>Save\<close>

text \<open>\<^verbatim>\<open>strings.TrimSpace\<close>: runes are taken off both ends while they are spaces.\<close>

definition last_rune :: "string \<Rightarrow> (nat \<times> nat) option" where
  "last_rune s = List.find (\<lambda>_. True) (List.map_filter (\<lambda>n. if length s < n then None
     else (case runes (drop (length s - n) s) of Some [r] \<Rightarrow> Some (r, n) | _ \<Rightarrow> None)) [1, 2, 3, 4])"

fun trim_left :: "nat \<Rightarrow> string \<Rightarrow> string" where
  "trim_left 0 s = s"
| "trim_left (Suc k) s = (case first_rune s of Some (r, n) \<Rightarrow> if is_space r then trim_left k (drop n s) else s | None \<Rightarrow> s)"

fun trim_right :: "nat \<Rightarrow> string \<Rightarrow> string" where
  "trim_right 0 s = s"
| "trim_right (Suc k) s = (case last_rune s of Some (r, n) \<Rightarrow> if is_space r then trim_right k (take (length s - n) s) else s | None \<Rightarrow> s)"

definition TrimSpace :: "string \<Rightarrow> string" where
  "TrimSpace s = trim_right (length s) (trim_left (length s) s)"

text \<open>\<^verbatim>\<open>btrim\<close> of the column's check takes off spaces.\<close>

definition btrim :: "string \<Rightarrow> string" where
  "btrim s = rev (dropWhile (\<lambda>c. c = CHR '' '') (rev (dropWhile (\<lambda>c. c = CHR '' '') s)))"

definition capabilities_ok :: "string list \<Rightarrow> bool" where
  "capabilities_ok cs \<longleftrightarrow> set cs \<subseteq> {''compute.server.read'', ''compute.server.power_on'', ''compute.server.shutdown'', ''compute.server.power_off'',
     ''compute.server.reboot''} \<and> length cs \<le> 5"

definition insert_connection :: "connection_row \<Rightarrow> db \<Rightarrow> db option" where
  "insert_connection c d =
     (if c_id c \<in> set (map c_id (connections d)) \<or> c_workspace c \<notin> set (map w_id (workspaces d)) \<or> \<not> pg_text 1 64 (c_provider c)
         \<or> \<not> pg_text 1 64 (c_api_family c) \<or> \<not> pg_text 1 512 (c_account_identity c) \<or> \<not> pg_text 1 100 (btrim (c_label c)) \<or> CHR 0x00 \<in> set (c_label c)
         \<or> length (c_region_policy c) > 100 \<or> c_status c \<notin> {''active'', ''disabled''} \<or> c_status c = ''active'' \<and> c_active_version c = None
         \<or> (case c_active_version c of None \<Rightarrow> False | Some v \<Rightarrow> v \<le> 0) \<or> \<not> capabilities_ok (c_verified_capabilities c)
      then None else Some (d\<lparr>connections := connections d @ [c]\<rparr>))"

record save_input =
  si_Family :: string
  si_Label :: string
  si_Credential :: credential

record saved =
  sa_ID :: uuid
  sa_SyncID :: uuid
  sa_Preview :: preview

text \<open>What one request draws and reads: clocks, generated identifiers, randomness, and the network of each access.\<close>

record draw =
  dw_clk :: time
  dw_now :: time
  dw_at :: time
  dw_id :: "uuid option"
  dw_audit :: "uuid option"
  dw_sync :: "uuid option"
  dw_job :: "uuid option"
  dw_random :: draws
  dw_reads :: "nat \<Rightarrow> net"
  dw_net :: net

definition new_connection :: "uuid \<Rightarrow> uuid \<Rightarrow> string \<Rightarrow> string \<Rightarrow> preview \<Rightarrow> connection_row" where
  "new_connection i scope family label p = \<lparr>c_id = i, c_workspace = scope, c_provider = family, c_api_family = family,
     c_account_identity = pv_AccountIdentity p, c_region_policy = [], c_label = label, c_status = ''active'', c_active_version = Some 1,
     c_permissions_verified_at = Some (pv_VerifiedAt p), c_verified_capabilities = verified_actions p\<rparr>"

definition save_tx :: "draw \<Rightarrow> uuid \<Rightarrow> uuid \<Rightarrow> uuid \<Rightarrow> string \<Rightarrow> string \<Rightarrow> preview \<Rightarrow> envelope \<Rightarrow> string \<Rightarrow> uuid dbtx" where
  "save_tx w actor scope i family label p e request =
     tx_bind (LockAuthority actor scope) (\<lambda>_.
     tx_bind (exec WsErrStore (insert_connection (new_connection i scope family label p))) (\<lambda>_.
     tx_bind (storeEnvelope scope i 1 e) (\<lambda>_.
     tx_bind (credentialAudit (dw_clk w) (dw_audit w) actor scope i ''connection.created'' request) (\<lambda>_.
     Initial (dw_clk w) (dw_now w) (dw_sync w) (dw_job w) actor scope i))))"

definition Save :: "codec \<Rightarrow> aead \<Rightarrow> draw \<Rightarrow> validation option \<Rightarrow> uuid \<Rightarrow> uuid \<Rightarrow> save_input \<Rightarrow> string \<Rightarrow> db \<Rightarrow> db \<Rightarrow> (err + saved) \<times> validation option \<times> db" where
  "Save J A w s actor scope input request d0 d = (let label = TrimSpace (si_Label input) in
     if label = [] \<or> length label > 100 then (Inl WsErrInvalid, s, d)
     else (case Preview (dw_reads w 0) (dw_now w) (dw_at w) s actor scope (si_Family input) (si_Credential input) d0 of
         (Inl e, s') \<Rightarrow> (Inl e, s', d)
       | (Inr p, s') \<Rightarrow> (case dw_id w of None \<Rightarrow> (Inl WsErrStore, s', d)
           | Some i \<Rightarrow> (case EncryptCredential J A (dw_random w) (Option.bind s' vs_keyring)
                 \<lparr>bi_workspace = scope, bi_connection = i, bi_family = si_Family input, bi_version = 1\<rparr> (si_Credential input) of
               Inl _ \<Rightarrow> (Inl ConnErrCredential, s', d)
             | Inr e \<Rightarrow> (case run_tx WsErrStore WsErrStore (dw_net w) (save_tx w actor scope i (si_Family input) label p e request) d of
                   (Inl x, d') \<Rightarrow> (Inl x, s', d')
                 | (Inr y, d') \<Rightarrow> (Inr \<lparr>sa_ID = i, sa_SyncID = y, sa_Preview = p\<rparr>, s', d'))))))"

section \<open>New work and versions\<close>

definition usable :: "db \<Rightarrow> connection_row \<Rightarrow> bool" where
  "usable d c \<longleftrightarrow> c_status c = ''active'' \<and> live_credential d c \<noteq> None"

definition RequireNewWork :: "uuid \<Rightarrow> uuid \<Rightarrow> unit dbtx" where
  "RequireNewWork scope i = tx_bind (query_row WsErrNotFound WsErrStore (\<lambda>d. map_option (usable d) (connection_of d scope i))) (\<lambda>ok.
     if \<not> ok then tx_raise ConnErrDisabled else tx_ret ())"

text \<open>\<open>Scan\<close> into an \<^verbatim>\<open>int64\<close> fails on a null version.\<close>

definition active_version :: "db \<Rightarrow> uuid \<Rightarrow> uuid \<Rightarrow> int option" where
  "active_version d scope i = Option.bind (connection_of d scope i) c_active_version"

definition RequireVersion :: "uuid \<Rightarrow> uuid \<Rightarrow> int \<Rightarrow> unit dbtx" where
  "RequireVersion scope i version = tx_bind (RequireNewWork scope i) (\<lambda>_.
     tx_bind (query_row WsErrStore WsErrStore (\<lambda>d. active_version d scope i)) (\<lambda>current.
     if current \<noteq> version then tx_raise ConnErrVersion else tx_ret ()))"

section \<open>Rotate\<close>

definition update_active :: "uuid \<Rightarrow> uuid \<Rightarrow> int \<Rightarrow> preview \<Rightarrow> db \<Rightarrow> db option" where
  "update_active scope i version p d =
     (if 0 < version \<and> capabilities_ok (verified_actions p)
         \<and> (connection_of d scope i = None \<or> (scope, i, version) \<in> set (map credential_key (credential_versions d)))
      then Some (d\<lparr>connections := upd (\<lambda>c. c_workspace c = scope \<and> c_id c = i)
        (\<lambda>c. c\<lparr>c_active_version := Some version, c_permissions_verified_at := Some (pv_VerifiedAt p), c_verified_capabilities := verified_actions p\<rparr>) (connections d)\<rparr>)
      else None)"

definition rotate_connection_tx :: "draw \<Rightarrow> uuid \<Rightarrow> uuid \<Rightarrow> uuid \<Rightarrow> int \<Rightarrow> preview \<Rightarrow> envelope \<Rightarrow> string \<Rightarrow> unit dbtx" where
  "rotate_connection_tx w actor scope i oldVersion p e request =
     tx_bind (LockAuthority actor scope) (\<lambda>_.
     tx_bind (query_row WsErrStore WsErrStore (\<lambda>d. active_version d scope i)) (\<lambda>current.
     if current \<noteq> oldVersion then tx_raise ConnErrVersion
     else tx_bind (storeEnvelope scope i (oldVersion + 1) e) (\<lambda>_.
     tx_bind (exec WsErrStore (update_active scope i (oldVersion + 1) p)) (\<lambda>_.
     credentialAudit (dw_clk w) (dw_audit w) actor scope i ''connection.credential_rotated'' request))))"

text \<open>\<open>d1\<close>, \<open>d2\<close> and \<open>d3\<close> are the databases of the authority check, of the read of the row and of the preview.\<close>

definition Rotate :: "codec \<Rightarrow> aead \<Rightarrow> draw \<Rightarrow> validation option \<Rightarrow> uuid \<Rightarrow> uuid \<Rightarrow> uuid \<Rightarrow> credential \<Rightarrow> string \<Rightarrow> db \<Rightarrow> db \<Rightarrow> db \<Rightarrow> db
    \<Rightarrow> (err + int) \<times> validation option \<times> db" where
  "Rotate J A w s actor scope i input request d1 d2 d3 d = (if s = None then (Inl ConnErrValidation, s, d)
     else (case fst (run_auto WsErrStore (dw_reads w 0) (ConnectionAuthority actor scope i ''manage'') d1) of
         Inl e \<Rightarrow> (Inl e, s, d)
       | Inr _ \<Rightarrow>
       (case (if n_left (dw_reads w 1) = Some 0 then None
              else Option.bind (connection_of d2 scope i) (\<lambda>c. map_option (\<lambda>v. (c_api_family c, c_account_identity c, v)) (c_active_version c))) of
         None \<Rightarrow> (Inl WsErrStore, s, d)
       | Some (family, account, oldVersion) \<Rightarrow>
           if oldVersion = 9223372036854775807 then (Inl ConnErrVersion, s, d)
           else (case Preview (dw_reads w 2) (dw_now w) (dw_at w) s actor scope family input d3 of
             (Inl e, s') \<Rightarrow> (Inl e, s', d)
           | (Inr p, s') \<Rightarrow>
               if pv_AccountIdentity p \<noteq> account then (Inl ConnErrCredential, s', d)
               else (case EncryptCredential J A (dw_random w) (Option.bind s' vs_keyring)
                     \<lparr>bi_workspace = scope, bi_connection = i, bi_family = family, bi_version = oldVersion + 1\<rparr> input of
                   Inl _ \<Rightarrow> (Inl ConnErrCredential, s', d)
                 | Inr e \<Rightarrow> (case run_tx WsErrStore WsErrStore (dw_net w) (rotate_connection_tx w actor scope i oldVersion p e request) d of
                       (Inl x, d') \<Rightarrow> (Inl x, s', d')
                     | (Inr _, d') \<Rightarrow> (Inr (oldVersion + 1), s', d')))))))"

section \<open>Disable\<close>

definition job_cancelled :: "time \<Rightarrow> job_row \<Rightarrow> job_row" where
  "job_cancelled clk j = j\<lparr>j_state := JCancelled, j_completed_at := Some clk\<rparr>"

definition disable_tx :: "time \<Rightarrow> uuid option \<Rightarrow> uuid \<Rightarrow> uuid \<Rightarrow> uuid \<Rightarrow> string \<Rightarrow> (bool \<times> unit) dbtx" where
  "disable_tx clk aid actor scope i request =
     tx_bind (LockAuthority actor scope) (\<lambda>_.
     tx_bind (query_row WsErrNotFound WsErrStore (\<lambda>d. map_option c_status (connection_of d scope i))) (\<lambda>status.
     if status = ''disabled'' then tx_ret (False, ())
     else tx_bind (exec WsErrStore (\<lambda>d. Some (d\<lparr>connections := upd (\<lambda>c. c_workspace c = scope \<and> c_id c = i) (\<lambda>c. c\<lparr>c_status := ''disabled''\<rparr>) (connections d)\<rparr>))) (\<lambda>_.
     tx_bind (exec WsErrStore (\<lambda>d. Some (d\<lparr>jobs := upd (\<lambda>j. j_workspace j = scope \<and> j_connection j = i \<and> j_state j = JQueued) (job_cancelled clk) (jobs d)\<rparr>))) (\<lambda>_.
     tx_bind (credentialAudit clk aid actor scope i ''connection.disabled'' request) (\<lambda>_.
     tx_ret (True, ()))))))"

definition Disable :: "net \<Rightarrow> time \<Rightarrow> uuid option \<Rightarrow> uuid \<Rightarrow> uuid \<Rightarrow> uuid \<Rightarrow> string \<Rightarrow> db \<Rightarrow> (err + unit) \<times> db" where
  "Disable n clk aid actor scope i request d = run_tx_if WsErrStore WsErrStore n (disable_tx clk aid actor scope i request) d"

section \<open>Rewrapping\<close>

definition row_binding :: "db \<Rightarrow> credential_row \<Rightarrow> binding option" where
  "row_binding d v = map_option (\<lambda>c. \<lparr>bi_workspace = v_workspace v, bi_connection = v_connection v, bi_family = c_api_family c, bi_version = v_version v\<rparr>)
     (connection_of d (v_workspace v) (v_connection v))"

definition rewrap_pending :: "string \<Rightarrow> nat \<Rightarrow> db \<Rightarrow> (binding \<times> envelope) list" where
  "rewrap_pending oldID limit d = take limit (List.map_filter (\<lambda>v. map_option (\<lambda>b. (b, stored_envelope v)) (row_binding d v))
     (sort_key credential_key (filter (\<lambda>v. v_master_key_id v = oldID) (credential_versions d))))"

definition rewrapped :: "envelope \<Rightarrow> string \<Rightarrow> credential_row \<Rightarrow> credential_row" where
  "rewrapped e newID v = v\<lparr>v_wrapped_data_key := en_WrappedKey e, v_wrapping_nonce := en_WrappingNonce e, v_master_key_id := newID\<rparr>"

definition rewrap_hits :: "binding \<Rightarrow> string \<Rightarrow> credential_row \<Rightarrow> bool" where
  "rewrap_hits b oldID v \<longleftrightarrow> credential_key v = (bi_workspace b, bi_connection b, bi_version b) \<and> v_master_key_id v = oldID"

definition rewrap_row :: "binding \<Rightarrow> envelope \<Rightarrow> string \<Rightarrow> string \<Rightarrow> db \<Rightarrow> (nat \<times> db) option" where
  "rewrap_row b e newID oldID d =
     (if list_ex (rewrap_hits b oldID) (credential_versions d) \<and> \<not> (1 \<le> length (en_WrappedKey e) \<and> length (en_WrappedKey e) \<le> 1024
         \<and> 1 \<le> length (en_WrappingNonce e) \<and> length (en_WrappingNonce e) \<le> 64 \<and> pg_text 1 128 newID) then None
      else Some (cnt (rewrap_hits b oldID) (credential_versions d),
        d\<lparr>credential_versions := upd (rewrap_hits b oldID) (rewrapped e newID) (credential_versions d)\<rparr>))"

fun rewrap_each :: "aead \<Rightarrow> keyring \<Rightarrow> (nat \<Rightarrow> string option) \<Rightarrow> string \<Rightarrow> string \<Rightarrow> nat \<Rightarrow> (binding \<times> envelope) list \<Rightarrow> unit dbtx" where
  "rewrap_each A ring rnd oldID newID k [] = tx_ret ()"
| "rewrap_each A ring rnd oldID newID k ((b, e) # rest) = (case Rewrap A (rnd k) ring b e newID of Inl _ \<Rightarrow> tx_raise ConnErrRewrap
     | Inr e' \<Rightarrow> tx_bind (sql ConnErrRewrap (rewrap_row b e' newID oldID)) (\<lambda>count.
         if count \<noteq> 1 then tx_raise ConnErrRewrap else rewrap_each A ring rnd oldID newID (k + 1) rest))"

definition RewrapBatch :: "aead \<Rightarrow> (nat \<Rightarrow> string option) \<Rightarrow> net \<Rightarrow> keyring option \<Rightarrow> string \<Rightarrow> string \<Rightarrow> int \<Rightarrow> db \<Rightarrow> (err + nat) \<times> db" where
  "RewrapBatch A rnd n ring oldID newID limit d = (if oldID = newID \<or> limit < 1 \<or> limit > 200 \<or> \<not> Require ring [oldID, newID] then (Inl ConnErrRewrap, d)
     else (case ring of None \<Rightarrow> (Inl ConnErrRewrap, d)
       | Some k \<Rightarrow> run_tx ConnErrRewrap ConnErrRewrap n
           (tx_bind (query ConnErrRewrap (rewrap_pending oldID (nat limit))) (\<lambda>pending1.
            tx_bind (rewrap_each A k rnd oldID newID 0 pending1) (\<lambda>_. tx_ret (length pending1)))) d))"

definition KeyReferences :: "net \<Rightarrow> string \<Rightarrow> db \<Rightarrow> err + nat" where
  "KeyReferences n i d = (if n_left n = Some 0 then Inl ConnErrRewrap else Inr (cnt (\<lambda>v. v_master_key_id v = i) (credential_versions d)))"

section \<open>Reads\<close>

record metadata =
  me_ID :: uuid
  me_WorkspaceID :: uuid
  me_Provider :: string
  me_APIFamily :: string
  me_AccountIdentity :: string
  me_RegionPolicy :: "string list"
  me_Label :: string
  me_Status :: string
  me_ActiveCredentialVersion :: "int option"
  me_PermissionsVerifiedAt :: "time option"

definition metadata_of :: "connection_row \<Rightarrow> metadata" where
  "metadata_of c = \<lparr>me_ID = c_id c, me_WorkspaceID = c_workspace c, me_Provider = c_provider c, me_APIFamily = c_api_family c,
     me_AccountIdentity = c_account_identity c, me_RegionPolicy = c_region_policy c, me_Label = c_label c, me_Status = c_status c,
     me_ActiveCredentialVersion = c_active_version c, me_PermissionsVerifiedAt = c_permissions_verified_at c\<rparr>"

definition ReadMetadata :: "net \<Rightarrow> uuid \<Rightarrow> uuid \<Rightarrow> db \<Rightarrow> err + metadata" where
  "ReadMetadata n scope i d = (if n_left n = Some 0 then Inl ConnErrStore
     else (case connection_of d scope i of None \<Rightarrow> Inl ConnErrNotFound | Some c \<Rightarrow> Inr (metadata_of c)))"

record connection_view =
  cv_Metadata :: metadata
  cv_Capabilities :: "capability list"
  cv_Inventory :: freshness

text \<open>The newest success of a connection, and the failure of its newest run, over both resource types.\<close>

definition connection_runs :: "db \<Rightarrow> connection_row \<Rightarrow> sync_row list" where
  "connection_runs d c = filter (\<lambda>y. sy_workspace y = c_workspace c \<and> sy_connection y = c_id c \<and> sy_scope y = ''global'') (sync_runs d)"

definition connection_success :: "db \<Rightarrow> connection_row \<Rightarrow> time option" where
  "connection_success d c = (let ts = List.map_filter sy_completed_at (filter (\<lambda>y. sy_status y = ''succeeded'') (connection_runs d c)) in
     if ts = [] then None else Some (Max (set ts)))"

definition connection_failure :: "db \<Rightarrow> connection_row \<Rightarrow> string option" where
  "connection_failure d c = (case sort_key sy_generation_number (connection_runs d c) of [] \<Rightarrow> None | ys \<Rightarrow> sy_failure_code (last ys))"

definition connection_view_of :: "time \<Rightarrow> (string \<Rightarrow> string list) \<Rightarrow> db \<Rightarrow> string \<Rightarrow> string list \<Rightarrow> connection_row \<Rightarrow> connection_view" where
  "connection_view_of now implemented d role actions c =
     \<lparr>cv_Metadata = metadata_of c,
      cv_Capabilities = Effective ServerCatalog (implemented (c_provider c @ ''/'' @ c_api_family c))
        (if c_permissions_verified_at c = None then [] else c_verified_capabilities c) (filter (WithinCeiling role) actions) [''compute.server.read''],
      cv_Inventory = NewFreshness now (connection_success d c) (connection_failure d c)\<rparr>"

definition readable_connection :: "db \<Rightarrow> uuid \<Rightarrow> uuid \<Rightarrow> connection_row \<Rightarrow> bool" where
  "readable_connection d actor scope c \<longleftrightarrow> c_workspace c = scope \<and> (case grant_of d scope (c_id c) actor of None \<Rightarrow> False | Some g \<Rightarrow> ''read'' \<in> set (g_actions g))"

definition connection_rows :: "db \<Rightarrow> uuid \<Rightarrow> uuid \<Rightarrow> uuid \<Rightarrow> uuid \<Rightarrow> connection_row list" where
  "connection_rows d actor scope cursor target = (if open_workspace d scope = None \<or> live_member d scope actor = None then []
     else sort_key c_id (filter (\<lambda>c. readable_connection d actor scope c \<and> cursor < c_id c \<and> (target = uuid_Nil \<or> c_id c = target)) (connections d)))"

definition ReadAuthorized :: "net \<Rightarrow> time \<Rightarrow> (string \<Rightarrow> string list) \<Rightarrow> uuid \<Rightarrow> uuid \<Rightarrow> uuid \<Rightarrow> uuid \<Rightarrow> int \<Rightarrow> db \<Rightarrow> err + (connection_view list \<times> uuid option)" where
  "ReadAuthorized n now implemented actor scope cursor target limit d = (if limit < 1 \<or> limit > 200 then Inl WsErrInvalid
     else if n_left n = Some 0 then Inl WsErrStore
     else (case paginate (nat limit) c_id (connection_rows d actor scope cursor target) of (cs, next_cursor) \<Rightarrow>
       let data = map (\<lambda>c. connection_view_of now implemented d (case live_member d scope actor of None \<Rightarrow> [] | Some m \<Rightarrow> m_role m)
             (case grant_of d scope (c_id c) actor of None \<Rightarrow> [] | Some g \<Rightarrow> g_actions g) c) cs in
       if target \<noteq> uuid_Nil \<and> data = [] then Inl WsErrNotFound else Inr (data, next_cursor)))"

section \<open>Moving envelopes to another key\<close>

text \<open>Identities of versions are unique and every version belongs to a connection.\<close>

definition credentials_wf :: "db \<Rightarrow> bool" where
  "credentials_wf d \<longleftrightarrow> distinct (map credential_key (credential_versions d))
     \<and> (\<forall>v \<in> set (credential_versions d). connection_of d (v_workspace v) (v_connection v) \<noteq> None)"

abbreviation key_count :: "string \<Rightarrow> db \<Rightarrow> nat" where
  "key_count i d \<equiv> cnt (\<lambda>v. v_master_key_id v = i) (credential_versions d)"

text \<open>A version before and after: only the wrapping may differ, and what could be opened still opens to the same payload.\<close>

definition same_secret :: "aead \<Rightarrow> keyring \<Rightarrow> string \<Rightarrow> string \<Rightarrow> db \<Rightarrow> credential_row \<Rightarrow> credential_row \<Rightarrow> bool" where
  "same_secret A ring old new d v v' \<longleftrightarrow> credential_key v' = credential_key v \<and> v_ciphertext v' = v_ciphertext v \<and> v_nonce v' = v_nonce v
     \<and> v_encryption_format v' = v_encryption_format v \<and> v_revoked_at v' = v_revoked_at v
     \<and> (v' = v \<or> v_master_key_id v = old \<and> v_master_key_id v' = new)
     \<and> (\<forall>b p. row_binding d v = Some b \<and> Keyring_Decrypt A ring b (stored_envelope v) = Inr p \<longrightarrow> Keyring_Decrypt A ring b (stored_envelope v') = Inr p)"

definition moved_keys :: "aead \<Rightarrow> keyring \<Rightarrow> string \<Rightarrow> string \<Rightarrow> nat \<Rightarrow> db \<Rightarrow> db \<Rightarrow> bool" where
  "moved_keys A ring old new n d d' \<longleftrightarrow> (\<exists>t. d' = d\<lparr>credential_versions := t\<rparr> \<and> list_all2 (same_secret A ring old new d) (credential_versions d) t)
     \<and> key_count old d' + n = key_count old d"

lemma row_binding_frame [simp]: "row_binding (d\<lparr>credential_versions := t\<rparr>) v = row_binding d v"
  by (simp add: row_binding_def connection_of_def)

lemma row_binding_key: "credential_key v' = credential_key v \<Longrightarrow> row_binding d v' = row_binding d v"
  by (simp add: row_binding_def credential_key_def)

lemma same_secret_frame [simp]: "same_secret A ring old new (d\<lparr>credential_versions := t\<rparr>) = same_secret A ring old new d"
  by (simp add: same_secret_def fun_eq_iff)

lemma same_secret_refl: "same_secret A ring old new d v v"
  by (simp add: same_secret_def)

lemma same_secret_trans:
  assumes "old \<noteq> new" "same_secret A ring old new d u v" "same_secret A ring old new d v w"
  shows "same_secret A ring old new d u w"
proof -
  have "row_binding d v = row_binding d u" using assms(2) by (intro row_binding_key) (simp add: same_secret_def)
  then show ?thesis using assms unfolding same_secret_def by metis
qed

lemma moved_keys_trans:
  assumes "old \<noteq> new" "moved_keys A ring old new n d d1" "moved_keys A ring old new m d1 d2"
  shows "moved_keys A ring old new (n + m) d d2"
proof -
  obtain t where t: "d1 = d\<lparr>credential_versions := t\<rparr>" "list_all2 (same_secret A ring old new d) (credential_versions d) t"
    using assms(2) by (auto simp: moved_keys_def)
  obtain u where u: "d2 = d1\<lparr>credential_versions := u\<rparr>" "list_all2 (same_secret A ring old new d1) (credential_versions d1) u"
    using assms(3) by (auto simp: moved_keys_def)
  have "list_all2 (same_secret A ring old new d) (credential_versions d) u"
    using list_all2_trans [OF same_secret_trans [OF assms(1)] t(2)] u(2) t(1) by simp
  then show ?thesis using assms(2,3) t(1) u(1) by (auto simp: moved_keys_def)
qed

lemma moved_keys_refl: "moved_keys A ring old new 0 d d"
  by (auto simp: moved_keys_def same_secret_refl intro!: list_all2_refl exI [of _ "credential_versions d"])

lemma stored_rewrapped:
  assumes "Rewrap A rnd ring b (stored_envelope v) new = Inr e"
  shows "stored_envelope (rewrapped e new v) = e"
  using assms by (auto simp: Rewrap_Inr stored_envelope_def rewrapped_def)

lemma cnt_upd_leave: "(\<And>r. P r \<Longrightarrow> Q r \<and> \<not> Q (f r)) \<Longrightarrow> cnt Q (upd P f t) + cnt P t = cnt Q t"
  by (induction t) (auto simp: upd_def)

text \<open>One statement of the loop.\<close>

lemma rewrap_row_moves:
  assumes ok: "aead_ok A" "pred_option (\<lambda>n. length n = 12) rnd" "old \<noteq> new" "credentials_wf d"
    and v: "v \<in> set (credential_versions d)" "v_master_key_id v = old" "row_binding d v = Some b"
    and rewrap: "Rewrap A rnd ring b (stored_envelope v) new = Inr e" and row: "rewrap_row b e new old d = Some (k, d')"
  shows "moved_keys A ring old new 1 d d' \<and> (\<forall>u \<in> set (credential_versions d). credential_key u \<noteq> credential_key v \<longrightarrow> u \<in> set (credential_versions d'))"
proof -
  have key: "(bi_workspace b, bi_connection b, bi_version b) = credential_key v"
    using v(3) by (auto simp: row_binding_def credential_key_def)
  have hits: "rewrap_hits b old u \<longleftrightarrow> u = v" if "u \<in> set (credential_versions d)" for u
    using that v(1,2) key assms(4) by (auto simp: rewrap_hits_def credentials_wf_def dest: unique_key)
  let ?t = "upd (rewrap_hits b old) (rewrapped e new) (credential_versions d)"
  have d': "d' = d\<lparr>credential_versions := ?t\<rparr>" using row by (auto simp: rewrap_row_def split: if_splits)
  have secret: "same_secret A ring old new d v (rewrapped e new v)"
    using Rewrap_keeps [OF ok(1,2) rewrap] stored_rewrapped [OF rewrap] v
    by (auto simp: same_secret_def rewrapped_def credential_key_def)
  have "list_all2 (same_secret A ring old new d) (credential_versions d) ?t"
    unfolding upd_def list_all2_map2 using hits secret by (intro list_all2_all_nthI) (auto simp: same_secret_refl)
  moreover have "key_count old d' + 1 = key_count old d"
  proof -
    have "0 < cnt (rewrap_hits b old) (credential_versions d)" using v(1) hits [OF v(1)] by (auto simp: cnt_pos)
    moreover have "cnt (rewrap_hits b old) (credential_versions d) \<le> 1"
      using assms(4) by (intro cnt_one_fetch [where k = credential_key]) (auto simp: credentials_wf_def rewrap_hits_def)
    ultimately have "cnt (rewrap_hits b old) (credential_versions d) = 1" by simp
    moreover have "cnt (\<lambda>v. v_master_key_id v = old) ?t + cnt (rewrap_hits b old) (credential_versions d) = key_count old d"
      using assms(3) by (intro cnt_upd_leave) (auto simp: rewrap_hits_def rewrapped_def)
    ultimately show ?thesis using d' by simp
  qed
  moreover have "u \<in> set ?t" if "u \<in> set (credential_versions d)" "credential_key u \<noteq> credential_key v" for u
    using that hits [of u] by (auto intro!: in_upd_other)
  ultimately show ?thesis using d' by (auto simp: moved_keys_def)
qed

lemma moved_keys_wf:
  assumes "moved_keys A ring old new n d d'" "credentials_wf d"
  shows "credentials_wf d'"
proof -
  obtain t where t: "d' = d\<lparr>credential_versions := t\<rparr>" "list_all2 (same_secret A ring old new d) (credential_versions d) t"
    using assms(1) by (auto simp: moved_keys_def)
  have keys: "map credential_key t = map credential_key (credential_versions d)"
    using t(2) by (induction rule: list_all2_induct) (auto simp: same_secret_def)
  have "connection_of d (v_workspace v) (v_connection v) \<noteq> None" if "v \<in> set t" for v
  proof -
    have "credential_key v \<in> set (map credential_key (credential_versions d))" using that keys [symmetric] by simp
    then obtain u where "u \<in> set (credential_versions d)" "credential_key u = credential_key v" by auto
    with assms(2) show ?thesis by (auto simp: credentials_wf_def credential_key_def)
  qed
  then show ?thesis using assms(2) keys t(1) by (simp add: credentials_wf_def connection_of_def)
qed

text \<open>What the loop is given: for each item the version it was read from.\<close>

definition items_of :: "string \<Rightarrow> db \<Rightarrow> (binding \<times> envelope) list \<Rightarrow> bool" where
  "items_of old d items \<longleftrightarrow> distinct (map (\<lambda>(b, e). (bi_workspace b, bi_connection b, bi_version b)) items)
     \<and> (\<forall>(b, e) \<in> set items. \<exists>v \<in> set (credential_versions d). v_master_key_id v = old \<and> row_binding d v = Some b \<and> stored_envelope v = e)"

lemma items_of_Cons:
  assumes "items_of old d ((b, e) # items)" "d' = d\<lparr>credential_versions := t\<rparr>"
    and keep: "\<forall>u \<in> set (credential_versions d). credential_key u \<noteq> (bi_workspace b, bi_connection b, bi_version b) \<longrightarrow> u \<in> set t"
  shows "items_of old d' items"
  unfolding items_of_def
proof (intro conjI ballI)
  show "distinct (map (\<lambda>(b, e). (bi_workspace b, bi_connection b, bi_version b)) items)" using assms(1) by (simp add: items_of_def)
  fix item
  assume mem: "item \<in> set items"
  obtain b' e' where item: "item = (b', e')" by fastforce
  then obtain v where v: "v \<in> set (credential_versions d)" "v_master_key_id v = old" "row_binding d v = Some b'" "stored_envelope v = e'"
    using assms(1) mem by (auto simp: items_of_def)
  have "credential_key v = (bi_workspace b', bi_connection b', bi_version b')" using v(3) by (auto simp: row_binding_def credential_key_def)
  moreover have "(bi_workspace b', bi_connection b', bi_version b') \<noteq> (bi_workspace b, bi_connection b, bi_version b)"
    using assms(1) mem item by (force simp: items_of_def)
  ultimately have "v \<in> set t" using keep v(1) by simp
  then show "case item of (b, e) \<Rightarrow> \<exists>v \<in> set (credential_versions d'). v_master_key_id v = old \<and> row_binding d' v = Some b \<and> stored_envelope v = e"
    using v item assms(2) by auto
qed

lemma vc_rewrap_each:
  assumes "aead_ok A" "\<And>k. pred_option (\<lambda>n. length n = 12) (rnd k)" "old \<noteq> new"
  shows "credentials_wf d \<Longrightarrow> items_of old d items \<Longrightarrow>
    vc (rewrap_each A ring rnd old new k items) (\<lambda>_ d'. moved_keys A ring old new (length items) d d') d"
proof (induction items arbitrary: d k)
  case Nil
  then show ?case by (auto intro!: vc_rules moved_keys_refl)
next
  case (Cons item items)
  obtain b e where item: "item = (b, e)" by fastforce
  obtain v where v: "v \<in> set (credential_versions d)" "v_master_key_id v = old" "row_binding d v = Some b" "stored_envelope v = e"
    using Cons.prems(2) item by (auto simp: items_of_def)
  have key: "(bi_workspace b, bi_connection b, bi_version b) = credential_key v" using v(3) by (auto simp: row_binding_def credential_key_def)
  show ?case
  proof (cases "Rewrap A (rnd k) ring b e new")
    case (Inl x)
    then show ?thesis using item by (auto intro!: vc_rules)
  next
    case (Inr e')
    have step: "moved_keys A ring old new 1 d d1 \<and> items_of old d1 items" if "rewrap_row b e' new old d = Some (n, d1)" for n d1
    proof -
      note m = rewrap_row_moves [OF assms(1,2,3) Cons.prems(1) v(1-3) _ that, of k]
      have *: "moved_keys A ring old new 1 d d1 \<and> (\<forall>u \<in> set (credential_versions d). credential_key u \<noteq> credential_key v \<longrightarrow> u \<in> set (credential_versions d1))"
        using m Inr v(4) by simp
      then obtain t where t: "d1 = d\<lparr>credential_versions := t\<rparr>" by (auto simp: moved_keys_def)
      show ?thesis using * t items_of_Cons [OF _ t, of old b e items] Cons.prems(2) item key by auto
    qed
    show ?thesis
      unfolding item rewrap_each.simps Inr sum.case
    proof (intro vc_rules)
      fix n d1
      assume row: "rewrap_row b e' new old d = Some (n, d1)"
      have "vc (rewrap_each A ring rnd old new (k + 1) items) (\<lambda>_ d'. moved_keys A ring old new (length items) d1 d') d1"
        using step [OF row] by (intro Cons.IH moved_keys_wf [OF _ Cons.prems(1)]) auto
      then show "vc (rewrap_each A ring rnd old new (k + 1) items) (\<lambda>_ d'. moved_keys A ring old new (length ((b, e) # items)) d d') d1"
        by (rule vc_mono) (use step [OF row] moved_keys_trans [OF assms(3), of A ring 1 d d1 "length items"] in auto)
    qed
  qed
qed

text \<open>
  The command \<^verbatim>\<open>sama-keys-rewrap\<close>: batches until one moves nothing, then the count of references that are left. Round \<open>k\<close> has its own
  randomness and network; \<open>fuel\<close> bounds the rounds, \<open>None\<close> is a run that needs more.
\<close>

fun rewrap_command :: "aead \<Rightarrow> (nat \<Rightarrow> nat \<Rightarrow> string option) \<Rightarrow> (nat \<Rightarrow> net) \<Rightarrow> keyring \<Rightarrow> string \<Rightarrow> string \<Rightarrow> int \<Rightarrow> nat \<Rightarrow> nat \<Rightarrow> db
    \<Rightarrow> ((err + nat) \<times> db) option" where
  "rewrap_command A rnd nets ring oldID newID batch k 0 d = None"
| "rewrap_command A rnd nets ring oldID newID batch k (Suc fuel) d = (if \<not> Require (Some ring) [oldID, newID] then Some (Inl EnvErrKeyring, d)
     else (case RewrapBatch A (rnd k) (nets k) (Some ring) oldID newID batch d of
         (Inl e, d') \<Rightarrow> Some (Inl e, d')
       | (Inr count, d') \<Rightarrow> if count = 0 then Some (KeyReferences (nets (k + 1)) oldID d', d')
           else rewrap_command A rnd nets ring oldID newID batch (k + 1) fuel d'))"
lemma list_all2_left: "list_all2 P xs ys \<Longrightarrow> y \<in> set ys \<Longrightarrow> \<exists>x \<in> set xs. P x y"
  by (induction rule: list_all2_induct) auto

lemma list_all2_right: "list_all2 P xs ys \<Longrightarrow> x \<in> set xs \<Longrightarrow> \<exists>y \<in> set ys. P x y"
  by (induction rule: list_all2_induct) auto

lemma map_filter_total: "(\<And>x. x \<in> set xs \<Longrightarrow> g x \<noteq> None) \<Longrightarrow> List.map_filter g xs = map (\<lambda>x. the (g x)) xs"
  by (induction xs) (auto simp: List.map_filter_simps split: option.splits)

lemma pending_items:
  assumes "credentials_wf d"
  shows "items_of old d (rewrap_pending old limit d)" "length (rewrap_pending old limit d) = min limit (key_count old d)"
proof -
  let ?vs = "sort_key credential_key (filter (\<lambda>v. v_master_key_id v = old) (credential_versions d))"
  let ?g = "\<lambda>v. (the (row_binding d v), stored_envelope v)"
  have known: "row_binding d v \<noteq> None" if "v \<in> set (credential_versions d)" for v
    using assms that by (auto simp: credentials_wf_def row_binding_def)
  have "List.map_filter (\<lambda>v. map_option (\<lambda>b. (b, stored_envelope v)) (row_binding d v)) ?vs
      = map (\<lambda>v. the (map_option (\<lambda>b. (b, stored_envelope v)) (row_binding d v))) ?vs"
    by (rule map_filter_total) (use known in auto)
  also have "\<dots> = map ?g ?vs" by (rule map_cong) (use known in \<open>auto simp: option.map_sel\<close>)
  finally have eq: "rewrap_pending old limit d = take limit (map ?g ?vs)" by (simp add: rewrap_pending_def)
  then show "length (rewrap_pending old limit d) = min limit (key_count old d)" by (simp add: cnt_def)
  have key: "(\<lambda>(b, e). (bi_workspace b, bi_connection b, bi_version b)) (?g v) = credential_key v" if "v \<in> set (credential_versions d)" for v
    using known [OF that] by (auto simp: row_binding_def credential_key_def)
  have "map (\<lambda>(b, e). (bi_workspace b, bi_connection b, bi_version b)) (map ?g ?vs) = map credential_key ?vs"
    unfolding map_map comp_def by (rule map_cong) (use key in auto)
  moreover have "distinct (map credential_key ?vs)" using assms by (simp add: credentials_wf_def distinct_map inj_on_def)
  ultimately have all: "distinct (map (\<lambda>(b, e). (bi_workspace b, bi_connection b, bi_version b)) (map ?g ?vs))" by (simp only:)
  have "distinct (take limit (map (\<lambda>(b, e). (bi_workspace b, bi_connection b, bi_version b)) (map ?g ?vs)))" by (rule distinct_take [OF all])
  then have "distinct (map (\<lambda>(b, e). (bi_workspace b, bi_connection b, bi_version b)) (rewrap_pending old limit d))"
    unfolding eq take_map .
  moreover have "\<exists>v \<in> set (credential_versions d). v_master_key_id v = old \<and> row_binding d v = Some b \<and> stored_envelope v = e"
    if "(b, e) \<in> set (rewrap_pending old limit d)" for b e
  proof -
    have "(b, e) \<in> set (map ?g ?vs)" using that by (auto simp: eq dest: in_set_takeD)
    then show ?thesis using known by auto
  qed
  ultimately show "items_of old d (rewrap_pending old limit d)" by (auto simp: items_of_def)
qed

lemma RewrapBatch_cases:
  assumes "aead_ok A" "\<And>k. pred_option (\<lambda>n. length n = 12) (rnd k)" "credentials_wf d"
    and "RewrapBatch A rnd n (Some ring) old new limit d = (r, d')"
  shows "(d' = d \<and> isl r) \<or> (let m = min (nat limit) (key_count old d) in moved_keys A ring old new m d d' \<and> (r = Inr m \<or> isl r))"
proof (cases "old = new \<or> limit < 1 \<or> limit > 200 \<or> \<not> Require (Some ring) [old, new]")
  case True
  then show ?thesis using assms(4) by (auto simp: RewrapBatch_def)
next
  case False
  let ?p = "rewrap_pending old (nat limit) d"
  have "vc (tx_bind (query ConnErrRewrap (rewrap_pending old (nat limit))) (\<lambda>pending1.
          tx_bind (rewrap_each A ring rnd old new 0 pending1) (\<lambda>_. tx_ret (length pending1))))
        (\<lambda>m d'. m = length ?p \<and> moved_keys A ring old new m d d') d"
    using vc_rewrap_each [of A rnd old new d ?p ring 0, OF assms(1,2) _ assms(3) pending_items(1) [OF assms(3)]] False
    by (intro vc_rules) (auto elim!: vc_mono intro!: vc_ret)
  moreover have "run_tx ConnErrRewrap ConnErrRewrap n (tx_bind (query ConnErrRewrap (rewrap_pending old (nat limit))) (\<lambda>pending1.
      tx_bind (rewrap_each A ring rnd old new 0 pending1) (\<lambda>_. tx_ret (length pending1)))) d = (r, d')"
    using assms(4) False by (simp add: RewrapBatch_def)
  ultimately show ?thesis using vc_run_tx pending_items(2) [OF assms(3), of old "nat limit"] by (fastforce simp: Let_def)
qed

section \<open>Rewrapping completes\<close>

text \<open>Every version that still needs the old key opens with the ring.\<close>

definition openable :: "aead \<Rightarrow> keyring \<Rightarrow> string \<Rightarrow> db \<Rightarrow> bool" where
  "openable A ring old d \<longleftrightarrow> (\<forall>v \<in> set (credential_versions d). v_master_key_id v = old \<longrightarrow>
     (\<exists>b p. row_binding d v = Some b \<and> Keyring_Decrypt A ring b (stored_envelope v) = Inr p))"

definition key_ready :: "keyring \<Rightarrow> string \<Rightarrow> string \<Rightarrow> bool" where
  "key_ready ring old new \<longleftrightarrow> old \<noteq> new \<and> Require (Some ring) [old, new] \<and> length (key_at (kr_keys ring) new) = 32 \<and> pg_text 1 128 new"

lemma Rewrap_succeeds:
  assumes "key_ready ring old new" "en_KeyID e = old" "Keyring_Decrypt A ring b e = Inr p"
  shows "\<exists>e'. Rewrap A (Some n) ring b e new = Inr e'"
  using assms by (auto simp: Rewrap_Inr key_ready_def Keyring_Decrypt_Inr Decrypt_Inr binding_aad_def split: if_splits)

lemma Rewrap_lengths:
  assumes "aead_ok A" "length n = 12" "Rewrap A (Some n) ring b e new = Inr e'" "Keyring_Decrypt A ring b e = Inr p"
  shows "length (en_WrappedKey e') = 48 \<and> length (en_WrappingNonce e') = 12"
proof -
  have "Keyring_Decrypt A ring b e' = Inr p" by (rule Rewrap_keeps(1) [OF assms(1) _ assms(3,4)]) (simp add: assms(2))
  then show ?thesis by (auto simp: Keyring_Decrypt_Inr Decrypt_Inr unseal_Inr)
qed

lemma openable_moved: "openable A ring old d \<Longrightarrow> moved_keys A ring old new n d d' \<Longrightarrow> openable A ring old d'"
proof -
  assume o: "openable A ring old d" and "moved_keys A ring old new n d d'"
  then obtain t where t: "d' = d\<lparr>credential_versions := t\<rparr>" "list_all2 (same_secret A ring old new d) (credential_versions d) t"
    by (auto simp: moved_keys_def)
  have "\<exists>b p. row_binding d v' = Some b \<and> Keyring_Decrypt A ring b (stored_envelope v') = Inr p" if v': "v' \<in> set t" "v_master_key_id v' = old" for v'
  proof -
    obtain v where v: "v \<in> set (credential_versions d)" "same_secret A ring old new d v v'"
      using list_all2_left [OF t(2) v'(1)] by blast
    then have "row_binding d v' = row_binding d v" by (intro row_binding_key) (simp add: same_secret_def)
    moreover have "v_master_key_id v = old" using v(2) v'(2) by (auto simp: same_secret_def)
    ultimately show ?thesis using v o unfolding openable_def same_secret_def by metis
  qed
  then show "openable A ring old d'" using t(1) by (simp add: openable_def)
qed

lemma rewrap_each_live:
  assumes ok: "aead_ok A" "\<And>k. \<exists>n. rnd k = Some n \<and> length n = 12" "key_ready ring old new"
  shows "t_left s = None \<Longrightarrow> credentials_wf (t_db s) \<Longrightarrow> openable A ring old (t_db s) \<Longrightarrow> items_of old (t_db s) items \<Longrightarrow>
    \<exists>s'. rewrap_each A ring rnd old new k items s = (Inr (), s') \<and> t_left s' = None"
proof (induction items arbitrary: s k)
  case Nil
  then show ?case by (simp add: tx_ret_def)
next
  case (Cons item items)
  obtain b e where item: "item = (b, e)" by fastforce
  let ?d = "t_db s"
  obtain n where n: "rnd k = Some n" "length n = 12" using ok(2) by blast
  obtain v where v: "v \<in> set (credential_versions ?d)" "v_master_key_id v = old" "row_binding ?d v = Some b" "stored_envelope v = e"
    using Cons.prems(4) item by (auto simp: items_of_def)
  obtain p where p: "Keyring_Decrypt A ring b e = Inr p" using Cons.prems(3) v by (auto simp: openable_def)
  have "en_KeyID e = old" using v by (auto simp: stored_envelope_def)
  then obtain e' where e': "Rewrap A (rnd k) ring b e new = Inr e'" using Rewrap_succeeds [OF ok(3) _ p] n by auto
  have len: "length (en_WrappedKey e') = 48 \<and> length (en_WrappingNonce e') = 12" using Rewrap_lengths [OF ok(1) n(2) _ p] e' n by simp
  define d1 where "d1 = snd (the (rewrap_row b e' new old ?d))"
  have row: "rewrap_row b e' new old ?d = Some (cnt (rewrap_hits b old) (credential_versions ?d), d1)"
    using len ok(3) by (simp add: rewrap_row_def d1_def key_ready_def)
  have key: "(bi_workspace b, bi_connection b, bi_version b) = credential_key v" using v(3) by (auto simp: row_binding_def credential_key_def)
  have neq: "old \<noteq> new" using ok(3) by (simp add: key_ready_def)
  have nonce: "pred_option (\<lambda>n. length n = 12) (rnd k)" using n by simp
  have moved: "moved_keys A ring old new 1 ?d d1" and
      kept: "\<forall>u \<in> set (credential_versions ?d). credential_key u \<noteq> credential_key v \<longrightarrow> u \<in> set (credential_versions d1)"
    using rewrap_row_moves [OF ok(1) nonce neq Cons.prems(2) v(1-3) _ row] e' v(4) by auto
  have "0 < cnt (rewrap_hits b old) (credential_versions ?d)" using v(1,2) key by (auto simp: cnt_pos rewrap_hits_def)
  moreover have "cnt (rewrap_hits b old) (credential_versions ?d) \<le> 1"
    using Cons.prems(2) by (intro cnt_one_fetch [where k = credential_key]) (auto simp: credentials_wf_def rewrap_hits_def)
  ultimately have one: "cnt (rewrap_hits b old) (credential_versions ?d) = 1" by simp
  let ?s = "s\<lparr>t_db := d1\<rparr>"
  have "sql ConnErrRewrap (rewrap_row b e' new old) s = (Inr 1, ?s)" using row one Cons.prems(1) by (cases s) (simp add: sql_def)
  then have first: "rewrap_each A ring rnd old new k (item # items) s = rewrap_each A ring rnd old new (k + 1) items ?s"
    by (simp add: item e' tx_bind_def)
  obtain t where t: "d1 = ?d\<lparr>credential_versions := t\<rparr>" using moved by (auto simp: moved_keys_def)
  have "items_of old d1 items" using items_of_Cons [OF _ t, of old b e items] Cons.prems(4) item kept t key by auto
  then have "\<exists>s'. rewrap_each A ring rnd old new (k + 1) items ?s = (Inr (), s') \<and> t_left s' = None"
    using Cons.prems moved_keys_wf [OF moved] openable_moved [OF _ moved] by (intro Cons.IH) auto
  then show ?case by (simp only: first)
qed

lemma RewrapBatch_live:
  assumes ok: "aead_ok A" "\<And>k. \<exists>n. rnd k = Some n \<and> length n = 12" "key_ready ring old new" "credentials_wf d" "openable A ring old d"
    and limit: "1 \<le> limit" "limit \<le> 200"
  shows "\<exists>d'. RewrapBatch A rnd good_net (Some ring) old new limit d = (Inr (min (nat limit) (key_count old d)), d')
     \<and> moved_keys A ring old new (min (nat limit) (key_count old d)) d d'"
proof -
  let ?p = "rewrap_pending old (nat limit) d" and ?s = "\<lparr>t_db = d, t_left = None\<rparr>"
  obtain s' where each: "rewrap_each A ring rnd old new 0 ?p ?s = (Inr (), s')" "t_left s' = None"
    using rewrap_each_live [where rnd = rnd, OF ok(1-3), where s = ?s and items = ?p and k = 0] ok(4,5) pending_items(1) [OF ok(4)] by auto
  have "query ConnErrRewrap (rewrap_pending old (nat limit)) ?s = (Inr ?p, ?s)" by (simp add: query_live)
  then have "RewrapBatch A rnd good_net (Some ring) old new limit d = (Inr (length ?p), t_db s')"
    using each ok(3) limit by (simp add: RewrapBatch_def key_ready_def run_tx_def good_net_def tx_bind_def tx_ret_def)
  moreover have "pred_option (\<lambda>n. length n = 12) (rnd k)" for k using ok(2) [of k] by auto
  note RewrapBatch_cases [OF ok(1) this ok(4) calculation]
  ultimately show ?thesis using pending_items(2) [OF ok(4), of old "nat limit"] by (auto simp: Let_def)
qed

lemma rewrap_command_live:
  assumes ok: "aead_ok A" "\<And>k j. \<exists>n. rnd k j = Some n \<and> length n = 12" "key_ready ring old new" and limit: "1 \<le> limit" "limit \<le> 200"
  shows "credentials_wf d \<Longrightarrow> openable A ring old d \<Longrightarrow> key_count old d < fuel \<Longrightarrow>
    \<exists>d'. rewrap_command A rnd (\<lambda>_. good_net) ring old new limit k fuel d = Some (Inr 0, d') \<and> moved_keys A ring old new (key_count old d) d d'"
proof (induction fuel arbitrary: d k)
  case (Suc fuel)
  let ?m = "min (nat limit) (key_count old d)"
  have req: "Require (Some ring) [old, new]" and neq: "old \<noteq> new" using ok(3) by (simp_all add: key_ready_def)
  obtain d1 where batch: "RewrapBatch A (rnd k) good_net (Some ring) old new limit d = (Inr ?m, d1)" and moved: "moved_keys A ring old new ?m d d1"
    using RewrapBatch_live [OF ok(1) _ ok(3) Suc.prems(1,2) limit, of "rnd k"] ok(2) by blast
  have count: "key_count old d1 + ?m = key_count old d" using moved by (simp add: moved_keys_def)
  show ?case
  proof (cases "key_count old d = 0")
    case True
    then have "?m = 0" "key_count old d1 = 0" using count by simp_all
    then show ?thesis using batch req moved True by (simp add: KeyReferences_def good_net_def)
  next
    case False
    then have pos: "0 < ?m" using limit by simp
    then have "key_count old d1 < fuel" using count Suc.prems(3) by linarith
    then obtain d2 where d2: "rewrap_command A rnd (\<lambda>_. good_net) ring old new limit (k + 1) fuel d1 = Some (Inr 0, d2)"
        "moved_keys A ring old new (key_count old d1) d1 d2"
      using Suc.IH [OF moved_keys_wf [OF moved Suc.prems(1)] openable_moved [OF Suc.prems(2) moved]] by blast
    then show ?thesis using batch req pos moved_keys_trans [OF neq moved d2(2)] count by (auto simp: add.commute)
  qed
qed simp

lemma moved_keys_rows:
  assumes "moved_keys A ring old new n d d'" "v \<in> set (credential_versions d)"
  shows "\<exists>v' \<in> set (credential_versions d'). same_secret A ring old new d v v'"
proof -
  obtain t where "d' = d\<lparr>credential_versions := t\<rparr>" "list_all2 (same_secret A ring old new d) (credential_versions d) t"
    using assms(1) by (auto simp: moved_keys_def)
  then show ?thesis using list_all2_right assms(2) by fastforce
qed


definition example_envelope :: envelope where
  "example_envelope = \<lparr>en_Ciphertext = ''token'' @ replicate 16 CHR ''.'', en_Nonce = replicate 12 CHR ''n'',
     en_WrappedKey = replicate 32 CHR ''d'' @ replicate 16 CHR ''.'', en_WrappingNonce = replicate 12 CHR ''w'', en_KeyID = ''k1'', en_Format = 1\<rparr>"

definition vault :: db where
  "vault = empty_db\<lparr>connections := [\<lparr>c_id = v7 2, c_workspace = v7 1, c_provider = ''vultr'', c_api_family = ''vultr'', c_account_identity = ''acc'',
       c_region_policy = [], c_label = ''l'', c_status = ''active'', c_active_version = Some 1, c_permissions_verified_at = Some 0, c_verified_capabilities = []\<rparr>],
     credential_versions := [credential_row_of (v7 1) (v7 2) 1 example_envelope]\<rparr>"

lemma vault_ok: "credentials_wf vault" "key_count ''k1'' vault = 1" "openable example_aead example_ring ''k1'' vault"
proof -
  show "credentials_wf vault"
    by (simp add: credentials_wf_def vault_def credential_row_of_def connection_of_def)
  show "key_count ''k1'' vault = 1" by (simp add: vault_def credential_row_of_def example_envelope_def)
  have v: "uuid_version (v7 1) = 7" "uuid_version (v7 2) = 7" by code_simp+
  have row: "row_binding vault (credential_row_of (v7 1) (v7 2) 1 example_envelope) = Some example_binding"
    by (simp add: row_binding_def vault_def credential_row_of_def connection_of_def example_binding_def)
  have "Keyring_Decrypt example_aead example_ring example_binding example_envelope = Inr ''token''"
    using v by (simp add: Keyring_Decrypt_Inr Decrypt_Inr unseal_Inr binding_aad_def example_binding_def example_envelope_def Require_def example_ring_def
        key_at_def example_aead_def)
  then show "openable example_aead example_ring ''k1'' vault"
    using row by (auto simp: openable_def vault_def credential_row_of_def stored_envelope_def example_envelope_def)
qed

lemma ring_ready: "key_ready example_ring ''k1'' ''k2''"
proof -
  have "pg_text 1 128 ''k2''" by code_simp
  then show ?thesis by (simp add: key_ready_def Require_def example_ring_def key_at_def)
qed


text \<open>
  C21: the command that retires a master key ends: with a network that answers, randomness, and versions that open, it stops after
  at most one round more than there are references, reports none left, and every version opens with the ring as before.
\<close>
theorem rewrap_command_completes:
  assumes "aead_ok A" "\<And>k j. \<exists>n. rnd k j = Some n \<and> length n = 12" "key_ready ring old new" "1 \<le> batch" "batch \<le> 200"
    and "credentials_wf d" "openable A ring old d" "key_count old d < fuel"
  shows "\<exists>d'. rewrap_command A rnd (\<lambda>_. good_net) ring old new batch 0 fuel d = Some (Inr 0, d') \<and> key_count old d' = 0
    \<and> (\<forall>v \<in> set (credential_versions d). \<exists>v' \<in> set (credential_versions d'). same_secret A ring old new d v v')"
proof -
  obtain d' where *: "rewrap_command A rnd (\<lambda>_. good_net) ring old new batch 0 fuel d = Some (Inr 0, d')"
      "moved_keys A ring old new (key_count old d) d d'"
    using rewrap_command_live [where rnd = rnd, OF assms(1-8), where k = 0] by blast
  then have "key_count old d' = 0" by (simp add: moved_keys_def)
  then show ?thesis using * moved_keys_rows [OF *(2)] by blast
qed

text \<open>The vault with one version.\<close>
theorem rewrap_command_completes_witness:
  "\<exists>d'. rewrap_command example_aead (\<lambda>_ _. Some (replicate 12 CHR ''m'')) (\<lambda>_. good_net) example_ring ''k1'' ''k2'' 100 0 2 vault = Some (Inr 0, d')
     \<and> key_count ''k1'' d' = 0"
  using rewrap_command_completes [OF aead_ok_example _ ring_ready _ _ vault_ok(1,3), of "\<lambda>_ _. Some (replicate 12 CHR ''m'')" 100 2] vault_ok(2) by auto

section \<open>The rate limit of validations\<close>

text \<open>A sequence of calls with their clocks: the granted ones and the windows at the end.\<close>

fun admitted :: "windows \<Rightarrow> (uuid \<times> time) list \<Rightarrow> (uuid \<times> time) list \<times> windows" where
  "admitted ws [] = ([], ws)"
| "admitted ws ((u, t) # calls) = (case permit t u ws of (ok, ws') \<Rightarrow>
     (case admitted ws' calls of (granted, ws'') \<Rightarrow> ((if ok then [(u, t)] else []) @ granted, ws'')))"

definition times_of :: "uuid \<Rightarrow> (uuid \<times> time) list \<Rightarrow> time list" where
  "times_of u log = map snd (filter (\<lambda>(v, t). v = u) log)"

definition busy_within :: "(uuid \<times> time) list \<Rightarrow> uuid \<Rightarrow> time \<Rightarrow> nat" where
  "busy_within log u T = length (filter (\<lambda>t. T - minute < t \<and> t \<le> T) (times_of u log))"

definition windows_ok :: "(uuid \<times> time) list \<Rightarrow> time \<Rightarrow> windows \<Rightarrow> bool" where
  "windows_ok log now ws \<longleftrightarrow> distinct (map fst ws) \<and> length ws \<le> 1000
     \<and> (\<exists>c \<le> now - minute. \<forall>u. window ws u = filter (\<lambda>t. c < t) (times_of u log))
     \<and> (\<forall>u. sorted (times_of u log) \<and> (\<forall>t \<in> set (times_of u log). t \<le> now)) \<and> (\<forall>u T. busy_within log u T \<le> 5)"

lemma times_of_snoc [simp]: "times_of u (log @ [(v, t)]) = times_of u log @ (if v = u then [t] else [])"
  by (simp add: times_of_def)

lemma dropWhile_sorted: "sorted ts \<Longrightarrow> dropWhile (\<lambda>t. t \<le> c) ts = filter (\<lambda>t. c < t) ts" for c :: time
proof (induction ts)
  case (Cons t ts)
  have "filter (\<lambda>t. c < t) ts = ts" if "c < t" using that Cons.prems by (auto simp: filter_id_conv)
  with Cons show ?case by auto
qed simp

lemma map_of_filter_mapped:
  "distinct (map fst ws) \<Longrightarrow> map_of (filter (\<lambda>(u, ts). ts \<noteq> []) (map (\<lambda>(u, ts). (u, f ts)) ws)) u
     = (case map_of ws u of None \<Rightarrow> None | Some ts \<Rightarrow> if f ts = [] then None else Some (f ts))"
proof (induction ws)
  case (Cons w ws)
  have "map_of ws u = None" if "u = fst w" using Cons.prems that by (simp add: map_of_eq_None_iff)
  with Cons show ?case by (cases w) (auto split: option.splits)
qed simp

lemma expire_windows_keys: "distinct (map fst ws) \<Longrightarrow> distinct (map fst (expire_windows c ws)) \<and> length (expire_windows c ws) \<le> length ws"
  unfolding expire_windows_def
  by (auto simp: distinct_map_filter comp_def case_prod_unfold intro: order_trans [OF length_filter_le])

lemma window_expired: "distinct (map fst ws) \<Longrightarrow> window (expire_windows c ws) u = dropWhile (\<lambda>t. t \<le> c) (window ws u)"
  unfolding expire_windows_def window_def by (cases "map_of ws u") (simp_all add: map_of_filter_mapped, metis dropWhile_eq_Nil_conv)

lemma set_window_keys: "distinct (map fst ws) \<Longrightarrow> distinct (map fst (set_window u ts ws))"
    "length (set_window u ts ws) = (if map_of ws u = None then length ws + 1 else length ws)"
  by (auto simp: set_window_def comp_def case_prod_unfold map_of_eq_None_iff)

lemma window_set: "window (set_window u ts ws) v = (if v = u then ts else window ws v)"
proof (cases "map_of ws u")
  case None
  then show ?thesis by (auto simp: set_window_def window_def map_add_def split: option.splits)
next
  case (Some old)
  have "map_of (map (\<lambda>(k, x). (k, if k = u then ts else x)) ws) v = map_option (\<lambda>x. if v = u then ts else x) (map_of ws v)"
    by (induction ws) auto
  with Some show ?thesis by (auto simp: set_window_def window_def split: option.splits)
qed

lemma permit_step:
  assumes inv: "windows_ok log now ws" and later: "now \<le> t" and step: "permit t u ws = (ok, ws')"
  shows "windows_ok (if ok then log @ [(u, t)] else log) t ws'"
proof -
  let ?ws = "expire_windows (t - minute) ws"
  obtain c where c: "c \<le> now - minute" "\<And>v. window ws v = filter (\<lambda>t. c < t) (times_of v log)" using inv by (auto simp: windows_ok_def)
  have keys: "distinct (map fst ws)" "length ws \<le> 1000" and order: "\<And>v. sorted (times_of v log)" "\<And>v x. x \<in> set (times_of v log) \<Longrightarrow> x \<le> now"
    and five: "\<And>v T. busy_within log v T \<le> 5" using inv by (auto simp: windows_ok_def)
  have cut: "window ?ws v = filter (\<lambda>x. t - minute < x) (times_of v log)" for v
  proof -
    have "sorted (filter (\<lambda>t. c < t) (times_of v log))" using order(1) by (simp add: sorted_wrt_filter)
    then show ?thesis using c later by (simp add: window_expired [OF keys(1)] dropWhile_sorted) (auto intro!: filter_cong)
  qed
  have keys': "distinct (map fst ?ws)" "length ?ws \<le> 1000" using expire_windows_keys [OF keys(1), of "t - minute"] keys(2) by auto
  show ?thesis
  proof (cases ok)
    case False
    then have "ws' = ?ws" using step by (auto simp: permit_def Let_def split: if_splits)
    moreover have "x \<le> t" if "x \<in> set (times_of v log)" for v x using order(2) [OF that] later by simp
    ultimately show ?thesis using False keys' cut order(1) five unfolding windows_ok_def by (auto intro!: exI [of _ "t - minute"])
  next
    case True
    then have few: "length (window ?ws u) < 5" "length ?ws < 1000 \<or> map_of ?ws u \<noteq> None" and ws': "ws' = set_window u (window ?ws u @ [t]) ?ws"
      using step by (auto simp: permit_def Let_def split: if_splits)
    have recent: "busy_within (log @ [(u, t)]) v T \<le> 5" for v T
    proof (cases "v = u \<and> t \<le> T")
      case False
      then show ?thesis using five [of v T] by (auto simp: busy_within_def)
    next
      case True
      have "length (filter (\<lambda>x. T - minute < x \<and> x \<le> T) (times_of u log)) \<le> length (filter (\<lambda>x. t - minute < x) (times_of u log))"
        unfolding length_filter_conv_card by (rule card_mono) (use True in auto)
      then show ?thesis using True few(1) cut [of u] by (simp add: busy_within_def)
    qed
    have "window ws' v = filter (\<lambda>x. t - minute < x) (times_of v (log @ [(u, t)]))" for v
      using cut ws' by (auto simp: window_set minute_def second_def)
    moreover have "distinct (map fst ws')" "length ws' \<le> 1000" using keys' few(2) by (auto simp: ws' set_window_keys)
    moreover have "sorted (times_of v (log @ [(u, t)]))" "x \<in> set (times_of v (log @ [(u, t)])) \<Longrightarrow> x \<le> t" for v x
      using order later by (fastforce simp: sorted_append)+
    ultimately show ?thesis using True recent unfolding windows_ok_def by (auto intro!: exI [of _ "t - minute"] simp del: times_of_snoc)
  qed
qed

lemma admitted_ok:
  "windows_ok log now ws \<Longrightarrow> sorted (now # map snd calls) \<Longrightarrow> admitted ws calls = (granted, ws') \<Longrightarrow> \<exists>now'. windows_ok (log @ granted) now' ws'"
proof (induction calls arbitrary: log now ws granted)
  case Nil
  then show ?case by auto
next
  case (Cons call calls)
  obtain u t where call: "call = (u, t)" by fastforce
  obtain ok ws1 where p: "permit t u ws = (ok, ws1)" by fastforce
  obtain g where g: "admitted ws1 calls = (g, ws')" "granted = (if ok then [(u, t)] else []) @ g"
    using Cons.prems(3) call p by (auto split: prod.splits)
  have "windows_ok (if ok then log @ [(u, t)] else log) t ws1" using permit_step [OF Cons.prems(1) _ p] Cons.prems(2) call by simp
  from Cons.IH [OF this _ g(1)] Cons.prems(2) call show ?case using g(2) by (auto split: if_splits)
qed

text \<open>
  however validations are requested, each user is granted at most five in any minute, and the table of recent validations
  never holds more than a thousand users.
\<close>
theorem validation_is_rate_limited:
  assumes "sorted (map snd calls)" "admitted [] calls = (granted, ws)"
  shows "length (filter (\<lambda>(v, t). v = u \<and> T - minute < t \<and> t \<le> T) granted) \<le> 5 \<and> length ws \<le> 1000"
proof (cases calls)
  case Nil
  then show ?thesis using assms(2) by simp
next
  case (Cons call rest)
  have "windows_ok [] (snd call) []" by (auto simp: windows_ok_def window_def times_of_def busy_within_def)
  then obtain now' where ok: "windows_ok granted now' ws" using admitted_ok [of "[]" "snd call" "[]" calls granted ws] assms Cons by auto
  have "length (filter (\<lambda>(v, t). v = u \<and> T - minute < t \<and> t \<le> T) granted) = busy_within granted u T"
    unfolding busy_within_def times_of_def filter_map length_map by (simp add: comp_def case_prod_unfold conj_commute)
  then show ?thesis using ok by (simp add: windows_ok_def)
qed

text \<open>Six calls within a second: five are granted.\<close>
theorem validation_is_rate_limited_witness:
  "admitted [] (replicate 6 (1, second)) = (replicate 5 (1, second), [(1, replicate 5 second)])
   \<and> length (filter (\<lambda>(v, t). v = 1 \<and> minute - minute < t \<and> t \<le> minute) (replicate 5 (1 :: uuid, second))) \<le> 5"
proof -
  have run: "admitted [] (replicate 6 (1, second)) = (replicate 5 (1, second), [(1, replicate 5 second)])" by code_simp
  have "sorted (map snd (replicate 6 (1 :: uuid, second)))" by simp
  from validation_is_rate_limited [OF this run, of 1 minute] run show ?thesis by blast
qed

section \<open>Effects of the handlers\<close>

lemma vc_storeEnvelope [vc_rules]:
  assumes "insert_credential (credential_row_of scope i version e) d \<noteq> None \<Longrightarrow>
     Q () (d\<lparr>credential_versions := credential_versions d @ [credential_row_of scope i version e]\<rparr>)"
  shows "vc (storeEnvelope scope i version e) Q d"
  unfolding storeEnvelope_def by (intro vc_rules) (auto simp: insert_credential_def intro!: assms split: if_splits)

lemma vc_credentialAudit [vc_rules]:
  assumes "\<And>r. a_event_type r = kind \<Longrightarrow> a_workspace r = scope \<Longrightarrow> a_actor r = Some actor \<Longrightarrow> a_metadata r = [(''connection_id'', uuid_String i)]
     \<Longrightarrow> Q () (d\<lparr>audit_events := audit_events d @ [r]\<rparr>)"
  shows "vc (credentialAudit clk aid actor scope i kind request) Q d"
  unfolding credentialAudit_def by (auto intro!: vc_rules assms simp: audit_row_of_def user_event_def)

lemma insert_connection_Some: "insert_connection c d = Some d' \<longleftrightarrow> insert_connection c d \<noteq> None \<and> d' = d\<lparr>connections := connections d @ [c]\<rparr>"
  by (auto simp: insert_connection_def)

definition saved_effect :: "uuid \<Rightarrow> uuid \<Rightarrow> connection_row \<Rightarrow> envelope \<Rightarrow> db \<Rightarrow> uuid \<Rightarrow> db \<Rightarrow> bool" where
  "saved_effect actor scope c e d y d' \<longleftrightarrow> (\<exists>m. live_member d scope actor = Some m \<and> Allows (m_role m) ''admin'') \<and> open_workspace d scope \<noteq> None
     \<and> c_id c \<notin> set (map c_id (connections d)) \<and> connections d' = connections d @ [c]
     \<and> credential_versions d' = credential_versions d @ [credential_row_of scope (c_id c) 1 e] \<and> y \<in> set (map sy_id (sync_runs d')) \<and> same_core d d'"

lemma vc_save: "vc (save_tx w actor scope i family label p e request) (saved_effect actor scope (new_connection i scope family label p) e d) d"
  unfolding save_tx_def Initial_def
  by (intro vc_rules vc_enqueueLockedType)
    (auto simp: insert_connection_Some saved_effect_def insert_connection_def insert_run_def same_core_def new_connection_def new_run_def Let_def split: if_splits)

definition rotated_effect :: "uuid \<Rightarrow> uuid \<Rightarrow> uuid \<Rightarrow> int \<Rightarrow> preview \<Rightarrow> envelope \<Rightarrow> db \<Rightarrow> db \<Rightarrow> bool" where
  "rotated_effect actor scope i old p e d d' \<longleftrightarrow> (\<exists>m. live_member d scope actor = Some m \<and> Allows (m_role m) ''admin'')
     \<and> active_version d scope i = Some old \<and> bigint_ok (old + 1)
     \<and> connections d' = upd (\<lambda>c. c_workspace c = scope \<and> c_id c = i)
         (\<lambda>c. c\<lparr>c_active_version := Some (old + 1), c_permissions_verified_at := Some (pv_VerifiedAt p), c_verified_capabilities := verified_actions p\<rparr>) (connections d)
     \<and> credential_versions d' = credential_versions d @ [credential_row_of scope i (old + 1) e] \<and> same_core d d' \<and> jobs d' = jobs d"

lemma vc_rotate_connection: "vc (rotate_connection_tx w actor scope i old p e request) (\<lambda>_. rotated_effect actor scope i old p e d) d"
  unfolding rotate_connection_tx_def
  by (intro vc_rules) (auto simp: update_active_def rotated_effect_def same_core_def insert_credential_def credential_row_of_def split: if_splits)

definition disabled_effect :: "time \<Rightarrow> uuid \<Rightarrow> uuid \<Rightarrow> db \<Rightarrow> db \<Rightarrow> bool" where
  "disabled_effect clk scope i d d' \<longleftrightarrow> connection_of d scope i \<noteq> None
     \<and> connections d' = upd (\<lambda>c. c_workspace c = scope \<and> c_id c = i) (\<lambda>c. c\<lparr>c_status := ''disabled''\<rparr>) (connections d)
     \<and> jobs d' = upd (\<lambda>j. j_workspace j = scope \<and> j_connection j = i \<and> j_state j = JQueued) (job_cancelled clk) (jobs d)
     \<and> same_core d d' \<and> credential_versions d' = credential_versions d"

lemma vc_disable:
  "vc (disable_tx clk aid actor scope i request) (\<lambda>(commit, _) d'. if commit then disabled_effect clk scope i d d'
     else map_option c_status (connection_of d scope i) = Some ''disabled'') d"
  unfolding disable_tx_def by (intro vc_rules) (auto simp: disabled_effect_def same_core_def)

text \<open>The handlers are transactions that leave operations, their events, reservations and the published resources alone.\<close>

lemma save_is_step: "run_tx WsErrStore WsErrStore n (save_tx w actor scope i family label p e request) d = (r, d') \<Longrightarrow> db_step d d'"
  by (rule vc_same_core, assumption) (rule vc_mono [OF vc_save], simp add: saved_effect_def)

lemma rotate_is_step: "run_tx WsErrStore WsErrStore n (rotate_connection_tx w actor scope i old p e request) d = (r, d') \<Longrightarrow> db_step d d'"
  by (rule vc_same_core, assumption) (rule vc_mono [OF vc_rotate_connection], simp add: rotated_effect_def)

lemma disable_is_step: "Disable n clk aid actor scope i request d = (r, d') \<Longrightarrow> db_step d d'"
  unfolding Disable_def
  by (drule vc_run_tx_if [OF _ vc_disable]) (auto intro!: db_step.other simp: disabled_effect_def same_core_def)

section \<open>Saving and rotating\<close>

lemma Preview_Inr:
  assumes "Preview n now at s actor scope family input d = (Inr p, s')"
  obtains v reader account verified ws where "s = Some v" "s' = Some (v\<lparr>vs_windows := ws\<rparr>)" "Require (vs_keyring v) []" "credential_valid input"
    "vs_readers v family = Some reader" "reader input = Some (account, verified)" "\<not> ContainsSecret input account" "safeAccount account"
    "pv_AccountIdentity p = account" "verified_actions p = (if ''compute.server.read'' \<in> set verified then [''compute.server.read''] else [])"
    "may_manage d scope actor"
  using assms by (auto simp: Preview_def Let_def verified_actions_def Effective_def capability_reason_def split: option.splits if_splits prod.splits)

text \<open>What was encrypted for a stored version opens as the credential that was given.\<close>

lemma EncryptCredential_opens:
  assumes "codec_ok J" "aead_ok A" "draws_ok r" "credential_text c" "EncryptCredential J A r ring b c = Inr e"
  shows "DecryptCredential J A ring b e = Inr c"
proof -
  obtain k where k: "ring = Some k" "credential_valid c" "Keyring_Encrypt A r k b (cj_marshal J c) = Inr e"
    using assms(5) by (auto simp: EncryptCredential_def split: if_splits option.splits)
  have "Keyring_Decrypt A k b e = Inr (cj_marshal J c)" by (rule Keyring_Decrypt_Encrypt [OF assms(2,3) k(3)])
  then show ?thesis using k assms(1,4) by (simp add: DecryptCredential_def codec_ok_def)
qed

lemma stored_credential_row: "stored_envelope (credential_row_of scope i version e) = e"
  by (simp add: stored_envelope_def credential_row_of_def)

text \<open>
  C16: a connection is saved only after the registered adapter validated the very credential that is stored, by a member who
  is still an administrator when it commits; the row holds the adapter's account, which contains no secret, no capability the
  adapter did not verify, and version 1; the stored envelope opens under that identity to exactly the credential; a first refresh is queued.
\<close>
theorem connection_is_saved_validated:
  assumes "codec_ok J" "aead_ok A" "draws_ok (dw_random w)" "credential_text (si_Credential input)"
    and "Save J A w s actor scope input request d0 d = (Inr r, s', d')"
  shows "\<exists>v reader account verified c m. s = Some v \<and> vs_readers v (si_Family input) = Some reader
     \<and> reader (si_Credential input) = Some (account, verified) \<and> credential_valid (si_Credential input) \<and> \<not> ContainsSecret (si_Credential input) account
     \<and> live_member d scope actor = Some m \<and> Allows (m_role m) ''admin''
     \<and> connections d' = connections d @ [c] \<and> c_id c = sa_ID r \<and> c_workspace c = scope \<and> c_api_family c = si_Family input \<and> c_status c = ''active''
     \<and> c_active_version c = Some 1 \<and> c_account_identity c = account \<and> set (c_verified_capabilities c) \<subseteq> set verified
     \<and> (\<exists>e. credential_versions d' = credential_versions d @ [credential_row_of scope (sa_ID r) 1 e]
        \<and> DecryptCredential J A (vs_keyring v) \<lparr>bi_workspace = scope, bi_connection = sa_ID r, bi_family = si_Family input, bi_version = 1\<rparr> e = Inr (si_Credential input))
     \<and> sa_SyncID r \<in> set (map sy_id (sync_runs d'))"
proof -
  let ?b = "\<lambda>i. \<lparr>bi_workspace = scope, bi_connection = i, bi_family = si_Family input, bi_version = 1\<rparr>"
  obtain p s1 i e y where *: "Preview (dw_reads w 0) (dw_now w) (dw_at w) s actor scope (si_Family input) (si_Credential input) d0 = (Inr p, s1)"
      "EncryptCredential J A (dw_random w) (Option.bind s1 vs_keyring) (?b i) (si_Credential input) = Inr e"
      "run_tx WsErrStore WsErrStore (dw_net w) (save_tx w actor scope i (si_Family input) (TrimSpace (si_Label input)) p e request) d = (Inr y, d')"
      "r = \<lparr>sa_ID = i, sa_SyncID = y, sa_Preview = p\<rparr>"
    using assms(5) by (auto simp: Save_def Let_def split: if_splits prod.splits sum.splits option.splits)
  have effect: "saved_effect actor scope (new_connection i scope (si_Family input) (TrimSpace (si_Label input)) p) e d y d'"
    by (rule vc_run_tx_Inr [OF *(3) vc_save])
  from *(1) show ?thesis
  proof (rule Preview_Inr)
    fix v reader account verified ws
    assume p: "s = Some v" "s1 = Some (v\<lparr>vs_windows := ws\<rparr>)" "vs_readers v (si_Family input) = Some reader"
      "reader (si_Credential input) = Some (account, verified)" "\<not> ContainsSecret (si_Credential input) account" "credential_valid (si_Credential input)"
      "pv_AccountIdentity p = account" "verified_actions p = (if ''compute.server.read'' \<in> set verified then [''compute.server.read''] else [])"
    have "DecryptCredential J A (vs_keyring v) (?b i) e = Inr (si_Credential input)"
      using EncryptCredential_opens [OF assms(1-4) *(2)] p(2) by simp
    then show ?thesis using p effect *(4) by (auto simp: saved_effect_def new_connection_def)
  qed
qed

text \<open>A codec for concrete runs: every character is followed by a mark, every field by a stop.\<close>

fun put_field :: "string \<Rightarrow> string" where
  "put_field [] = ''.y''" | "put_field (c # cs) = c # CHR ''x'' # put_field cs"

fun get_field :: "string \<Rightarrow> (string \<times> string) option" where
  "get_field (c # m # rest) = (if m = CHR ''y'' then Some ([], rest) else map_option (\<lambda>(f, r). (c # f, r)) (get_field rest))"
| "get_field _ = None"

lemma get_put_field: "get_field (put_field f @ rest) = Some (f, rest)"
  by (induction f) auto

fun get_fields :: "nat \<Rightarrow> string \<Rightarrow> string list option" where
  "get_fields 0 s = Some []"
| "get_fields (Suc n) s = (case get_field s of None \<Rightarrow> None | Some (f, r) \<Rightarrow> map_option ((#) f) (get_fields n r))"

lemma get_put_fields: "get_fields (length fs) (concat (map put_field fs)) = Some fs"
  by (induction fs) (auto simp: get_put_field)

definition example_codec :: codec where
  "example_codec = \<lparr>cj_marshal = (\<lambda>c. concat (map put_field [cr_Type c, cr_Token c, cr_ClientID c, cr_ClientSecret c, cr_Username c, cr_Password c,
       cr_CustomerNumber c, cr_APIKey c, cr_APIPassword c])),
     cj_decode = (\<lambda>s. case get_fields 9 s of Some [a, b, c, d, e, f, g, h, i] \<Rightarrow> Some \<lparr>cr_Type = a, cr_Token = b, cr_ClientID = c, cr_ClientSecret = d,
       cr_Username = e, cr_Password = f, cr_CustomerNumber = g, cr_APIKey = h, cr_APIPassword = i\<rparr> | _ \<Rightarrow> None)\<rparr>"

lemma codec_ok_example: "codec_ok example_codec"
  using get_put_fields [of "[a, b, c, d, e, f, g, h, i]" for a b c d e f g h i] by (simp add: codec_ok_def example_codec_def eval_nat_numeral)

definition example_token :: "string \<Rightarrow> credential" where
  "example_token t = \<lparr>cr_Type = ''bearer_v1'', cr_Token = t, cr_ClientID = [], cr_ClientSecret = [], cr_Username = [], cr_Password = [],
     cr_CustomerNumber = [], cr_APIKey = [], cr_APIPassword = []\<rparr>"

definition example_validation :: validation where
  "example_validation = \<lparr>vs_keyring = Some example_ring, vs_enabled = True,
     vs_readers = (\<lambda>f. if f = ''vultr'' then Some (\<lambda>c. Some (''acc'', [''compute.server.read''])) else None), vs_windows = []\<rparr>"

definition example_draw :: draw where
  "example_draw = \<lparr>dw_clk = hour, dw_now = hour, dw_at = hour, dw_id = Some (v7 2), dw_audit = Some (v7 90), dw_sync = Some (v7 91), dw_job = Some (v7 92),
     dw_random = example_draws, dw_reads = (\<lambda>_. good_net), dw_net = good_net\<rparr>"

definition example_preview :: preview where
  "example_preview = \<lparr>pv_AccountIdentity = ''acc'', pv_VerifiedAt = hour,
     pv_Capabilities = [\<lparr>ca_Action = ''compute.server.read'', ca_Available = True, ca_Reason = ''available''\<rparr>]\<rparr>"

text \<open>The envelope of the token \<open>t\<close>.\<close>

definition token_envelope :: "string \<Rightarrow> envelope" where
  "token_envelope t = \<lparr>en_Ciphertext = cj_marshal example_codec (example_token t) @ replicate 16 CHR ''.'', en_Nonce = replicate 12 CHR ''n'',
     en_WrappedKey = replicate 32 CHR ''d'' @ replicate 16 CHR ''.'', en_WrappingNonce = replicate 12 CHR ''w'', en_KeyID = ''k1'', en_Format = 1\<rparr>"

lemma token_ok: "credential_valid (example_token ''key'')" "credential_valid (example_token ''new'')"
  by (simp_all add: credential_valid_def example_token_def validSecret_def)

lemma token_text: "credential_text (example_token ''key'')" "credential_text (example_token ''new'')"
  by code_simp+

lemma label_trimmed: "TrimSpace ''db'' = ''db''"
proof -
  have "first_rune ''db'' = Some (100, 1)" "last_rune ''db'' = Some (98, 1)" by code_simp+
  then show ?thesis by (simp add: TrimSpace_def is_space_def)
qed

lemma token_sealed:
  assumes "t = ''key'' \<or> t = ''new''" "1 \<le> version"
  shows "EncryptCredential example_codec example_aead example_draws (Some example_ring)
     \<lparr>bi_workspace = v7 1, bi_connection = v7 2, bi_family = ''vultr'', bi_version = version\<rparr> (example_token t) = Inr (token_envelope t)"
proof -
  have "uuid_version (v7 1) = 7" "uuid_version (v7 2) = 7" "validKeyID ''k1''" by code_simp+
  then show ?thesis
    using assms token_ok by (auto simp: EncryptCredential_def Keyring_Encrypt_def Encrypt_def binding_aad_def seal_def token_envelope_def example_aead_def
        example_draws_def example_ring_def Require_def key_at_def example_codec_def example_token_def)
qed

definition crew :: db where
  "crew = empty_db\<lparr>users := [\<lparr>u_id = v7 4, u_issuer = ''iss'', u_subject = ''ann'', u_display_name = ''Ann'', u_disabled_at = None\<rparr>],
     workspaces := [\<lparr>w_id = v7 1, w_name = ''team'', w_policy_version = 1, w_closed_at = None, w_queue_limit = 10, w_audit_retention_days = 30\<rparr>],
     memberships := [\<lparr>m_workspace = v7 1, m_user = v7 4, m_role = ''owner'', m_version = 1\<rparr>]\<rparr>"

lemma token_previewed:
  assumes "t = ''key'' \<or> t = ''new''" "may_manage d (v7 1) (v7 4)"
  shows "Preview good_net hour hour (Some example_validation) (v7 4) (v7 1) ''vultr'' (example_token t) d
      = (Inr example_preview, Some (example_validation\<lparr>vs_windows := [(v7 4, [hour])]\<rparr>))"
proof -
  have acc: "safeAccount ''acc''" by code_simp
  have "\<not> ContainsSecret (example_token ''key'') ''acc''" "\<not> ContainsSecret (example_token ''new'') ''acc''" by code_simp+
  with acc show ?thesis
    using assms token_ok by (auto simp: Preview_def good_net_def example_validation_def permit_def expire_windows_def window_def set_window_def Let_def
        Require_def example_ring_def example_preview_def Effective_def capability_reason_def)
qed

definition save_run :: "(err + uuid) \<times> db" where
  "save_run = run_tx WsErrStore WsErrStore good_net
     (save_tx example_draw (v7 4) (v7 1) (v7 2) ''vultr'' ''db'' example_preview (token_envelope ''key'') ''req'') crew"

lemma save_run_result: "fst save_run = Inr (v7 91)"
  by code_simp

lemma crew_may_manage: "may_manage crew (v7 1) (v7 4)"
  by code_simp

text \<open>The owner of a workspace saves a connection.\<close>
theorem connection_is_saved_validated_witness:
  "\<exists>r s' d'. Save example_codec example_aead example_draw (Some example_validation) (v7 4) (v7 1)
       \<lparr>si_Family = ''vultr'', si_Label = ''db'', si_Credential = example_token ''key''\<rparr> ''req'' crew crew = (Inr r, s', d')
     \<and> sa_SyncID r \<in> set (map sy_id (sync_runs d'))"
proof -
  let ?in = "\<lparr>si_Family = ''vultr'', si_Label = ''db'', si_Credential = example_token ''key''\<rparr>"
  obtain d' where run: "run_tx WsErrStore WsErrStore good_net
     (save_tx example_draw (v7 4) (v7 1) (v7 2) ''vultr'' ''db'' example_preview (token_envelope ''key'') ''req'') crew = (Inr (v7 91), d')"
    using save_run_result unfolding save_run_def by (metis prod.collapse)
  have prev: "Preview good_net hour hour (Some example_validation) (v7 4) (v7 1) ''vultr'' (example_token ''key'') crew
      = (Inr example_preview, Some (example_validation\<lparr>vs_windows := [(v7 4, [hour])]\<rparr>))" using crew_may_manage by (intro token_previewed) blast+
  have draw: "dw_reads example_draw 0 = good_net" "dw_net example_draw = good_net" "dw_now example_draw = hour" "dw_at example_draw = hour"
      "dw_id example_draw = Some (v7 2)" "dw_random example_draw = example_draws" by (simp_all add: example_draw_def)
  have ring: "vs_keyring example_validation = Some example_ring" by (simp add: example_validation_def)
  have saved: "Save example_codec example_aead example_draw (Some example_validation) (v7 4) (v7 1) ?in ''req'' crew crew
      = (Inr \<lparr>sa_ID = v7 2, sa_SyncID = v7 91, sa_Preview = example_preview\<rparr>, Some (example_validation\<lparr>vs_windows := [(v7 4, [hour])]\<rparr>), d')"
    by (simp add: Save_def label_trimmed draw prev token_sealed run ring del: One_nat_def)
  have "draws_ok (dw_random example_draw)" "credential_text (si_Credential ?in)" using draws_ok_example token_text by (simp_all add: draw)
  from connection_is_saved_validated [OF codec_ok_example aead_ok_example this saved] saved show ?thesis by blast
qed

lemma RequireNewWork_usable: "vc (RequireNewWork scope i) (\<lambda>_ _. \<exists>c. connection_of d scope i = Some c \<and> usable d c) d"
  unfolding RequireNewWork_def by (intro vc_rules) auto

lemma RequireVersion_active: "vc (RequireVersion scope i version) (\<lambda>_ _. active_version d scope i = Some version \<and> (\<exists>c. connection_of d scope i = Some c \<and> usable d c)) d"
proof -
  have same: "vc (RequireNewWork scope i) (\<lambda>_ d1. d1 = d \<and> (\<exists>c. connection_of d scope i = Some c \<and> usable d c)) d"
    unfolding RequireNewWork_def by (intro vc_rules) auto
  show ?thesis
    unfolding RequireVersion_def by (intro vc_rules) (rule vc_mono [OF same], auto intro!: vc_rules)
qed

lemma fetch_upd_same: "(\<And>r. P r \<Longrightarrow> P (f r)) \<Longrightarrow> fetch P (upd P f t) = map_option f (fetch P t)"
  by (induction t) (auto simp: upd_def)

lemma connection_updated:
  assumes "connections d' = upd (\<lambda>c. c_workspace c = scope \<and> c_id c = i) f (connections d)" "\<And>c. c_workspace (f c) = c_workspace c \<and> c_id (f c) = c_id c"
  shows "connection_of d' scope i = map_option f (connection_of d scope i)"
  unfolding connection_of_def assms(1) using assms(2) by (intro fetch_upd_same) simp

text \<open>A body that never succeeds.\<close>

definition refuses :: "('d, 'a) tx \<Rightarrow> 'd \<Rightarrow> bool" where
  "refuses m d \<longleftrightarrow> vc m (\<lambda>_ _. False) d"

lemma refusesI: "vc m (\<lambda>_ _. P) d \<Longrightarrow> \<not> P \<Longrightarrow> refuses m d"
  by (simp add: refuses_def)

text \<open>
  C17: a rotation replaces the active version by its successor, and only if no other rotation came first: the new version is sealed for its
  own number and opens to exactly the given credential, earlier versions stay as they are, the account and the status do not
  change, and work that was bound to the old version is refused from then on.
\<close>
theorem rotation_fences_old_version:
  assumes "codec_ok J" "aead_ok A" "draws_ok (dw_random w)" "credential_text input"
    and "Rotate J A w s actor scope i input request d1 d2 d3 d = (Inr version, s', d')"
  shows "\<exists>v c2 e reader verified. s = Some v \<and> connection_of d2 scope i = Some c2 \<and> vs_readers v (c_api_family c2) = Some reader
     \<and> reader input = Some (c_account_identity c2, verified) \<and> active_version d scope i = Some (version - 1)
     \<and> active_version d' scope i = Some version \<and> bigint_ok version
     \<and> credential_versions d' = credential_versions d @ [credential_row_of scope i version e]
     \<and> DecryptCredential J A (vs_keyring v) \<lparr>bi_workspace = scope, bi_connection = i, bi_family = c_api_family c2, bi_version = version\<rparr> e = Inr input
     \<and> map_option c_status (connection_of d' scope i) = map_option c_status (connection_of d scope i)
     \<and> map_option c_account_identity (connection_of d' scope i) = map_option c_account_identity (connection_of d scope i)
     \<and> (\<forall>old. old \<noteq> version \<longrightarrow> refuses (RequireVersion scope i old) d')"
proof -
  obtain c2 old p s1 e where c2: "connection_of d2 scope i = Some c2" "c_active_version c2 = Some old" "pv_AccountIdentity p = c_account_identity c2"
      and prev: "Preview (dw_reads w 2) (dw_now w) (dw_at w) s actor scope (c_api_family c2) input d3 = (Inr p, s1)"
      and enc: "EncryptCredential J A (dw_random w) (Option.bind s1 vs_keyring)
          \<lparr>bi_workspace = scope, bi_connection = i, bi_family = c_api_family c2, bi_version = old + 1\<rparr> input = Inr e"
      and run: "run_tx WsErrStore WsErrStore (dw_net w) (rotate_connection_tx w actor scope i old p e request) d = (Inr (), d')"
      and version: "version = old + 1"
    using assms(5) by (auto simp: Rotate_def bind_eq_Some_conv split: if_splits prod.splits sum.splits option.splits)
  have effect: "rotated_effect actor scope i old p e d d'" by (rule vc_run_tx_Inr [OF run vc_rotate_connection])
  let ?f = "\<lambda>c. c\<lparr>c_active_version := Some (old + 1), c_permissions_verified_at := Some (pv_VerifiedAt p), c_verified_capabilities := verified_actions p\<rparr>"
  have row: "connection_of d' scope i = map_option ?f (connection_of d scope i)"
    by (rule connection_updated) (use effect in \<open>auto simp: rotated_effect_def\<close>)
  have active: "active_version d' scope i = Some version"
    using effect row version by (auto simp: rotated_effect_def active_version_def split: Option.bind_splits)
  then have fence: "refuses (RequireVersion scope i other) d'" if "other \<noteq> version" for other
    using that by (intro refusesI [OF RequireVersion_active]) simp
  from prev show ?thesis
  proof (rule Preview_Inr)
    fix v reader account verified ws
    assume v: "s = Some v" "s1 = Some (v\<lparr>vs_windows := ws\<rparr>)" "vs_readers v (c_api_family c2) = Some reader"
      "reader input = Some (account, verified)" "pv_AccountIdentity p = account"
    have "DecryptCredential J A (vs_keyring v) \<lparr>bi_workspace = scope, bi_connection = i, bi_family = c_api_family c2, bi_version = version\<rparr> e = Inr input"
      using EncryptCredential_opens [OF assms(1-4) enc] v(2) version by simp
    then show ?thesis
      using v c2 effect row active fence version by (auto simp: rotated_effect_def option.map_comp comp_def)
  qed
qed

definition manned :: db where
  "manned = crew\<lparr>connections := [new_connection (v7 2) (v7 1) ''vultr'' ''db'' example_preview],
     credential_versions := [credential_row_of (v7 1) (v7 2) 1 (token_envelope ''key'')]\<rparr>"

definition rotate_run :: "(err + unit) \<times> db" where
  "rotate_run = run_tx WsErrStore WsErrStore good_net
     (rotate_connection_tx example_draw (v7 4) (v7 1) (v7 2) 1 example_preview (token_envelope ''new'') ''req'') manned"

lemma rotate_run_result: "fst rotate_run = Inr ()"
  by code_simp

lemma manned_may_manage: "may_manage manned (v7 1) (v7 4)"
    "fst (run_auto WsErrStore good_net (ConnectionAuthority (v7 4) (v7 1) (v7 2) ''manage'') manned) = Inr ()"
    "connection_of manned (v7 1) (v7 2) = Some (new_connection (v7 2) (v7 1) ''vultr'' ''db'' example_preview)"
  by code_simp+

text \<open>The owner replaces the token; what was accepted under version 1 is refused afterwards.\<close>
theorem rotation_fences_old_version_witness:
  "\<exists>s' d'. Rotate example_codec example_aead example_draw (Some example_validation) (v7 4) (v7 1) (v7 2) (example_token ''new'') ''req''
       manned manned manned manned = (Inr 2, s', d') \<and> active_version d' (v7 1) (v7 2) = Some 2 \<and> refuses (RequireVersion (v7 1) (v7 2) 1) d'"
proof -
  obtain d' where run: "run_tx WsErrStore WsErrStore good_net
     (rotate_connection_tx example_draw (v7 4) (v7 1) (v7 2) 1 example_preview (token_envelope ''new'') ''req'') manned = (Inr (), d')"
    using rotate_run_result unfolding rotate_run_def by (metis prod.collapse)
  have prev: "Preview good_net hour hour (Some example_validation) (v7 4) (v7 1) ''vultr'' (example_token ''new'') manned
      = (Inr example_preview, Some (example_validation\<lparr>vs_windows := [(v7 4, [hour])]\<rparr>))" using manned_may_manage(1) by (intro token_previewed) blast+
  have draw: "dw_reads example_draw k = good_net" "dw_net example_draw = good_net" "dw_now example_draw = hour" "dw_at example_draw = hour"
      "dw_random example_draw = example_draws" for k by (simp_all add: example_draw_def)
  have ring: "vs_keyring example_validation = Some example_ring" by (simp add: example_validation_def)
  have row: "c_api_family (new_connection (v7 2) (v7 1) ''vultr'' ''db'' example_preview) = ''vultr''"
      "c_account_identity (new_connection (v7 2) (v7 1) ''vultr'' ''db'' example_preview) = ''acc''"
      "c_active_version (new_connection (v7 2) (v7 1) ''vultr'' ''db'' example_preview) = Some 1" "pv_AccountIdentity example_preview = ''acc''"
    by (simp_all add: new_connection_def example_preview_def)
  have good: "n_left good_net = None" by (simp add: good_net_def)
  have sealed: "EncryptCredential example_codec example_aead example_draws (Some example_ring)
     \<lparr>bi_workspace = v7 1, bi_connection = v7 2, bi_family = ''vultr'', bi_version = 2\<rparr> (example_token ''new'') = Inr (token_envelope ''new'')"
    by (rule token_sealed) auto
  have rotated: "Rotate example_codec example_aead example_draw (Some example_validation) (v7 4) (v7 1) (v7 2) (example_token ''new'') ''req''
       manned manned manned manned = (Inr 2, Some (example_validation\<lparr>vs_windows := [(v7 4, [hour])]\<rparr>), d')"
    by (simp add: Rotate_def draw manned_may_manage row good prev sealed ring run del: One_nat_def)
  have "draws_ok (dw_random example_draw)" using draws_ok_example by (simp add: draw)
  from rotation_fences_old_version [OF codec_ok_example aead_ok_example this token_text(2) rotated] rotated show ?thesis by fastforce
qed

section \<open>Disabling\<close>

lemma Disable_Inr:
  assumes "Disable n clk aid actor scope i request d = (Inr (), d')"
  shows "disabled_effect clk scope i d d' \<or> d' = d \<and> map_option c_status (connection_of d scope i) = Some ''disabled''"
  using vc_run_tx_if [OF assms [unfolded Disable_def] vc_disable] by auto

lemma Disable_row:
  assumes "Disable n clk aid actor scope i request d = (Inr (), d')" "distinct (map c_id (connections d))"
  shows "(\<exists>c. connection_of d' scope i = Some c \<and> c_status c = ''disabled'')
    \<and> (\<forall>c \<in> set (connections d'). c_workspace c = scope \<and> c_id c = i \<longrightarrow> c_status c = ''disabled'')"
  using Disable_Inr [OF assms(1)]
proof
  assume e: "disabled_effect clk scope i d d'"
  have "connection_of d' scope i = map_option (\<lambda>c. c\<lparr>c_status := ''disabled''\<rparr>) (connection_of d scope i)"
    by (rule connection_updated) (use e in \<open>auto simp: disabled_effect_def\<close>)
  moreover have "connection_of d scope i \<noteq> None" "connections d' = upd (\<lambda>c. c_workspace c = scope \<and> c_id c = i) (\<lambda>c. c\<lparr>c_status := ''disabled''\<rparr>) (connections d)"
    using e by (simp_all add: disabled_effect_def)
  moreover have "c_status x = ''disabled''" if "x \<in> set (upd (\<lambda>c. c_workspace c = scope \<and> c_id c = i) (\<lambda>c. c\<lparr>c_status := ''disabled''\<rparr>) (connections d))"
      "c_workspace x = scope" "c_id x = i" for x using in_updD [OF that(1)] that(2,3) by (elim disjE bexE conjE) simp_all
  ultimately show ?thesis by auto
next
  assume "d' = d \<and> map_option c_status (connection_of d scope i) = Some ''disabled''"
  then obtain c where c: "d' = d" "connection_of d scope i = Some c" "c_status c = ''disabled''" by auto
  then have "x = c" if "x \<in> set (connections d)" "c_id x = i" for x
    using that assms(2) connection_of_Some [OF c(2)] by (auto dest: unique_key)
  with c show ?thesis by auto
qed

text \<open>The row lock query of the dispatch path reads an active connection.\<close>

lemma has_authority_active:
  assumes "has_authority s d actor scope target a"
  shows "\<exists>c \<in> set (connections d). c_workspace c = scope \<and> c_id c = bi_connection (au_binding a) \<and> c_status c = ''active''"
  using assms by (auto simp: has_authority_def authority_join_def NewBinding_def bind_eq_Some_conv dest!: fetch_Some split: if_splits)


definition disable_run :: "(err + unit) \<times> db" where
  "disable_run = Disable good_net hour (Some (v7 95)) (v7 4) (v7 1) (v7 2) ''req'' manned"

lemma disable_run_result: "fst disable_run = Inr ()"
  by code_simp

lemma op_inv_manned: "op_inv manned"
  by (simp add: op_inv_def manned_def crew_def empty_db_def)


text \<open>
  Cancelling every queued job reaches too far. Between two observations the job of a submitted operation is queued; after a disable the
  operation is still waiting for its provider, but none of its jobs is queued or running any more, so neither \<open>Claim\<close> nor \<open>Expire\<close> will
  take it up, and \<open>Cancel\<close>, \<open>Recheck\<close> and \<open>ReleaseUnknown\<close> act on other states only.
\<close>
lemma disable_strands_submitted:
  assumes "Disable n clk aid actor scope i request d = (Inr (), d')" "map_option c_status (connection_of d scope i) \<noteq> Some ''disabled''"
    and "p \<in> set (operations d)" "o_state p = WaitingProvider"
    and "\<forall>j \<in> set (jobs d). j_operation j = Some (o_id p) \<longrightarrow> j_workspace j = scope \<and> j_connection j = i \<and> j_state j \<noteq> JRunning"
  shows "p \<in> set (operations d') \<and> (\<forall>j \<in> set (jobs d'). j_operation j = Some (o_id p) \<longrightarrow> j_state j \<noteq> JQueued \<and> j_state j \<noteq> JRunning)"
proof -
  let ?P = "\<lambda>j. j_workspace j = scope \<and> j_connection j = i \<and> j_state j = JQueued"
  have e: "disabled_effect clk scope i d d'" using Disable_Inr [OF assms(1)] assms(2) by blast
  then have jobs: "jobs d' = upd ?P (job_cancelled clk) (jobs d)" by (simp add: disabled_effect_def)
  have "j_state j \<noteq> JQueued \<and> j_state j \<noteq> JRunning" if j: "j \<in> set (upd ?P (job_cancelled clk) (jobs d))" "j_operation j = Some (o_id p)" for j
    using in_updD [OF j(1)] j(2) assms(5) by (elim disjE bexE conjE) (auto simp: job_cancelled_def)
  then show ?thesis using e jobs assms(3) by (simp add: disabled_effect_def same_core_def)
qed

section \<open>Listing\<close>

definition connections_ok :: "db \<times> uuid \<times> uuid \<Rightarrow> bool" where
  "connections_ok s = (case s of (d, actor, scope) \<Rightarrow> distinct (map c_id (connections d)))"

definition listed_connections :: "db \<times> uuid \<times> uuid \<Rightarrow> uuid option \<Rightarrow> connection_row list" where
  "listed_connections s c = (case s of (d, actor, scope) \<Rightarrow> connection_rows d actor scope (case c of None \<Rightarrow> uuid_Nil | Some k \<Rightarrow> k) uuid_Nil)"

interpretation listing: keyset connections_ok listed_connections c_id "(<)"
proof
  fix s c
  assume ok: "connections_ok s"
  obtain d actor scope where s: "s = (d, actor, scope)" by (metis prod_cases3)
  have dist: "distinct (map c_id (filter P (connections d)))" for P using ok s by (simp add: connections_ok_def distinct_map_filter)
  show "sorted_wrt (\<lambda>a b. c_id a < c_id b) (listed_connections s c)"
    using sort_key_strict [OF dist] by (simp add: s listed_connections_def connection_rows_def)
  fix r
  assume r: "r \<in> set (listed_connections s c)"
  then have "(case c of None \<Rightarrow> uuid_Nil | Some k \<Rightarrow> k) < c_id r" by (auto simp: s listed_connections_def connection_rows_def split: if_splits)
  then show "listed_connections s (Some (c_id r)) = filter (\<lambda>x. c_id r < c_id x) (listed_connections s c)"
    by (auto simp: s listed_connections_def connection_rows_def filter_sort intro!: arg_cong [of _ _ "sort_key c_id"] filter_cong)
qed auto

text \<open>Following the cursors lists every connection the caller may read exactly once, in order.\<close>
lemma connection_list_is_complete:
  assumes "distinct (map c_id (connections d))" "0 < limit" "length (connection_rows d actor scope uuid_Nil uuid_Nil) < n"
  shows "concat (walk n (\<lambda>c. paginate limit c_id (listed_connections (d, actor, scope) c)) None) = connection_rows d actor scope uuid_Nil uuid_Nil
    \<and> distinct (connection_rows d actor scope uuid_Nil uuid_Nil)"
  using listing.walk_enumerates [of "(d, actor, scope)" limit None n] listing.rows_distinct [of "(d, actor, scope)" None] assms
  by (simp add: connections_ok_def listed_connections_def)

end
