(* ===== verification/Sama_Budget.thy ===== *)
theory Sama_Budget
  imports Sama_Prelude
begin

text \<open>
  The admission budget of \<^verbatim>\<open>internal/platform/outbound/budget.go\<close>, which every provider call of the process
  passes: at most two calls at a time for a connection, and none while its quota scope cools down.

  The two maps of \<^verbatim>\<open>Budget\<close> hold pointers, and callers keep theirs across the mutex; so the cells live in a heap and
  the maps and the callers hold addresses. Each critical section of \<^verbatim>\<open>b.mu\<close> is one atomic step. The channel
  \<^verbatim>\<open>changed\<close> is a counter: \<open>signal\<close> closes the current channel and makes the next one, so a channel is
  closed when its number is below the current one.
\<close>

section \<open>Cells and tables\<close>

record quota =
  q_until :: time
  q_refs :: nat

record slots =
  sl_active :: nat
  sl_refs :: nat

record budget =
  bu_connections :: "(uuid \<times> nat) list"
  bu_cooldowns :: "(string \<times> nat) list"
  bu_slots :: "nat \<Rightarrow> slots"
  bu_quotas :: "nat \<Rightarrow> quota"
  bu_next :: nat
  bu_changed :: nat

definition NewBudget :: budget where
  "NewBudget = \<lparr>bu_connections = [], bu_cooldowns = [], bu_slots = (\<lambda>_. \<lparr>sl_active = 0, sl_refs = 0\<rparr>),
     bu_quotas = (\<lambda>_. \<lparr>q_until = 0, q_refs = 0\<rparr>), bu_next = 0, bu_changed = 0\<rparr>"

definition signal :: "budget \<Rightarrow> budget" where
  "signal b = b\<lparr>bu_changed := bu_changed b + 1\<rparr>"

definition drop_key :: "'k \<Rightarrow> ('k \<times> nat) list \<Rightarrow> ('k \<times> nat) list" where
  "drop_key k t = filter (\<lambda>e. fst e \<noteq> k) t"

definition set_slots :: "nat \<Rightarrow> (slots \<Rightarrow> slots) \<Rightarrow> budget \<Rightarrow> budget" where
  "set_slots a f b = b\<lparr>bu_slots := (bu_slots b)(a := f (bu_slots b a))\<rparr>"

definition set_quota :: "nat \<Rightarrow> (quota \<Rightarrow> quota) \<Rightarrow> budget \<Rightarrow> budget" where
  "set_quota a f b = b\<lparr>bu_quotas := (bu_quotas b)(a := f (bu_quotas b a))\<rparr>"

section \<open>acquire\<close>

text \<open>The sweep at the start of \<open>acquire\<close>: forget cooldowns that nobody refers to and that have passed.\<close>

definition sweep :: "time \<Rightarrow> budget \<Rightarrow> budget" where
  "sweep now b = b\<lparr>bu_cooldowns := filter (\<lambda>(k, q). \<not> (q_refs (bu_quotas b q) = 0 \<and> q_until (bu_quotas b q) \<le> now)) (bu_cooldowns b)\<rparr>"

definition slots_for :: "uuid \<Rightarrow> budget \<Rightarrow> (budget \<times> nat) option" where
  "slots_for connection b = (case map_of (bu_connections b) connection of
      Some a \<Rightarrow> Some (b, a)
    | None \<Rightarrow> if length (bu_connections b) \<ge> 1000 then None
        else Some (b\<lparr>bu_slots := (bu_slots b)(bu_next b := \<lparr>sl_active = 0, sl_refs = 0\<rparr>),
          bu_connections := (connection, bu_next b) # bu_connections b, bu_next := bu_next b + 1\<rparr>, bu_next b))"

definition quota_for :: "string \<Rightarrow> budget \<Rightarrow> budget \<times> nat" where
  "quota_for scope b = (case map_of (bu_cooldowns b) scope of
      Some q \<Rightarrow> (b, q)
    | None \<Rightarrow> (b\<lparr>bu_quotas := (bu_quotas b)(bu_next b := \<lparr>q_until = 0, q_refs = 0\<rparr>),
        bu_cooldowns := (scope, bu_next b) # bu_cooldowns b, bu_next := bu_next b + 1\<rparr>, bu_next b))"

text \<open>The first part of \<open>acquire\<close>: \<open>None\<close> is \<^verbatim>\<open>ErrNetwork\<close>; the sweep stays either way.\<close>

definition enter :: "time \<Rightarrow> uuid \<Rightarrow> string \<Rightarrow> budget \<Rightarrow> budget \<times> (nat \<times> nat) option" where
  "enter now connection scope b0 =
     (if uuid_version connection \<noteq> 7 \<or> scope = [] \<or> length scope > 512 then (b0, None)
      else (let b = sweep now b0 in
        if map_of (bu_cooldowns b) scope = None \<and> length (bu_cooldowns b) \<ge> 1000 then (b, None)
        else (case slots_for connection b of None \<Rightarrow> (b, None)
          | Some (b1, a) \<Rightarrow> (case quota_for scope b1 of (b2, q) \<Rightarrow>
              (set_slots a (\<lambda>s. s\<lparr>sl_refs := sl_refs s + 1\<rparr>) (set_quota q (\<lambda>s. s\<lparr>q_refs := q_refs s + 1\<rparr>) b2), Some (a, q))))))"

text \<open>Giving the references back, in the cancelled branch and in the release function.\<close>

definition leave :: "time \<Rightarrow> uuid \<Rightarrow> string \<Rightarrow> nat \<Rightarrow> nat \<Rightarrow> budget \<Rightarrow> budget" where
  "leave now connection scope a q b0 =
     (let b1 = set_slots a (\<lambda>s. s\<lparr>sl_refs := sl_refs s - 1\<rparr>) (set_quota q (\<lambda>s. s\<lparr>q_refs := q_refs s - 1\<rparr>) b0);
          b2 = (if q_refs (bu_quotas b1 q) = 0 \<and> q_until (bu_quotas b1 q) \<le> now then b1\<lparr>bu_cooldowns := drop_key scope (bu_cooldowns b1)\<rparr> else b1) in
      if sl_refs (bu_slots b2 a) = 0 then b2\<lparr>bu_connections := drop_key connection (bu_connections b2)\<rparr> else b2)"

text \<open>
  One turn of the loop of \<open>acquire\<close>: \<open>cancelled\<close> is \<^verbatim>\<open>ctx.Err() != nil\<close>, \<open>now\<close> the clock of
  \<^verbatim>\<open>time.Until\<close>, \<open>later\<close> the second reading in the cancelled branch. A waiting caller remembers the
  channel it saw and the instant its timer fires.
\<close>

datatype turn = GivesUp | Admitted | Waits nat time

definition admissible :: "time \<Rightarrow> nat \<Rightarrow> nat \<Rightarrow> budget \<Rightarrow> bool" where
  "admissible now a q b \<longleftrightarrow> sl_active (bu_slots b a) < 2 \<and> q_until (bu_quotas b q) \<le> now"

definition attempt :: "bool \<Rightarrow> time \<Rightarrow> time \<Rightarrow> uuid \<Rightarrow> string \<Rightarrow> nat \<Rightarrow> nat \<Rightarrow> budget \<Rightarrow> budget \<times> turn" where
  "attempt cancelled now later connection scope a q b =
     (if cancelled then (leave later connection scope a q b, GivesUp)
      else if admissible now a q b then (set_slots a (\<lambda>s. s\<lparr>sl_active := sl_active s + 1\<rparr>) b, Admitted)
      else (b, Waits (bu_changed b) (if q_until (bu_quotas b q) \<le> now then now + 30 * second else q_until (bu_quotas b q))))"

definition release :: "time \<Rightarrow> uuid \<Rightarrow> string \<Rightarrow> nat \<Rightarrow> nat \<Rightarrow> budget \<Rightarrow> budget" where
  "release now connection scope a q b =
     signal (leave now connection scope a q (set_slots a (\<lambda>s. s\<lparr>sl_active := sl_active s - 1\<rparr>) b))"

definition postpone :: "time \<Rightarrow> string \<Rightarrow> time \<Rightarrow> budget \<Rightarrow> budget" where
  "postpone now scope delay b = (case map_of (bu_cooldowns b) scope of None \<Rightarrow> b
     | Some q \<Rightarrow> if q_until (bu_quotas b q) < now + delay then signal (set_quota q (\<lambda>s. s\<lparr>q_until := now + delay\<rparr>) b) else b)"

section \<open>Callers\<close>

text \<open>
  A caller of \<open>Call\<close> or of the budget's transport: not yet admitted, waiting, holding a slot, or done. The release
  function runs its body once (\<^verbatim>\<open>sync.Once\<close>), so a caller that is done stays done.
\<close>

datatype caller = Calling uuid string | Waiting uuid string nat nat nat time | Holding uuid string nat nat | Returned bool

definition after_turn :: "uuid \<Rightarrow> string \<Rightarrow> nat \<Rightarrow> nat \<Rightarrow> turn \<Rightarrow> caller" where
  "after_turn connection scope a q t = (case t of GivesUp \<Rightarrow> Returned False | Admitted \<Rightarrow> Holding connection scope a q
     | Waits c until \<Rightarrow> Waiting connection scope a q c until)"

fun acquire :: "bool \<Rightarrow> time \<Rightarrow> time \<Rightarrow> caller \<Rightarrow> budget \<Rightarrow> caller \<times> budget" where
  "acquire cancelled now later (Calling connection scope) b = (case enter now connection scope b of
      (b', None) \<Rightarrow> (Returned False, b')
    | (b', Some (a, q)) \<Rightarrow> (case attempt cancelled now later connection scope a q b' of (b'', t) \<Rightarrow> (after_turn connection scope a q t, b'')))"
| "acquire cancelled now later (Waiting connection scope a q c until) b =
     (case attempt cancelled now later connection scope a q b of (b', t) \<Rightarrow> (after_turn connection scope a q t, b'))"
| "acquire cancelled now later w b = (w, b)"

fun finish :: "time \<Rightarrow> caller \<Rightarrow> budget \<Rightarrow> caller \<times> budget" where
  "finish now (Holding connection scope a q) b = (Returned True, release now connection scope a q b)"
| "finish now w b = (w, b)"

text \<open>
  The process: any caller may take its next turn at any time (woken by the channel, its timer or its context), return its
  slot, or report a rate limit; \<open>now\<close> only moves forward. \<open>co\<close> collects, for the properties below, the cooldowns that were
  set on a known scope.
\<close>

record process =
  pr_budget :: budget
  pr_callers :: "caller list"
  pr_now :: time
  pr_set :: "(string \<times> time) list"

inductive turn_step :: "process \<Rightarrow> process \<Rightarrow> bool" where
  arrive: "turn_step p (p\<lparr>pr_callers := pr_callers p @ [Calling connection scope]\<rparr>)"
| tick: "pr_now p \<le> t \<Longrightarrow> turn_step p (p\<lparr>pr_now := t\<rparr>)"
| turns: "k < length (pr_callers p) \<Longrightarrow> pr_now p \<le> later \<Longrightarrow> acquire cancelled (pr_now p) later (pr_callers p ! k) (pr_budget p) = (w, b) \<Longrightarrow>
     turn_step p (p\<lparr>pr_callers := (pr_callers p)[k := w], pr_budget := b, pr_now := later\<rparr>)"
| return: "k < length (pr_callers p) \<Longrightarrow> finish (pr_now p) (pr_callers p ! k) (pr_budget p) = (w, b) \<Longrightarrow>
     turn_step p (p\<lparr>pr_callers := (pr_callers p)[k := w], pr_budget := b\<rparr>)"
| limited: "map_of (bu_cooldowns (pr_budget p)) scope \<noteq> None \<Longrightarrow>
     turn_step p (p\<lparr>pr_budget := postpone (pr_now p) scope delay (pr_budget p), pr_set := (scope, pr_now p + delay) # pr_set p\<rparr>)"
| unlimited: "map_of (bu_cooldowns (pr_budget p)) scope = None \<Longrightarrow> turn_step p (p\<lparr>pr_budget := postpone (pr_now p) scope delay (pr_budget p)\<rparr>)"

inductive_cases turn_stepE: "turn_step p p'"

section \<open>The invariant of the tables\<close>

fun at_slots :: "nat \<Rightarrow> caller \<Rightarrow> bool" where
  "at_slots a (Waiting _ _ a' _ _ _) = (a' = a)" | "at_slots a (Holding _ _ a' _) = (a' = a)" | "at_slots a _ = False"

fun at_quota :: "nat \<Rightarrow> caller \<Rightarrow> bool" where
  "at_quota q (Waiting _ _ _ q' _ _) = (q' = q)" | "at_quota q (Holding _ _ _ q') = (q' = q)" | "at_quota q _ = False"

fun holds_at :: "nat \<Rightarrow> caller \<Rightarrow> bool" where
  "holds_at a (Holding _ _ a' _) = (a' = a)" | "holds_at a _ = False"

fun in_tables :: "budget \<Rightarrow> caller \<Rightarrow> bool" where
  "in_tables b (Waiting c s a q _ _) = ((c, a) \<in> set (bu_connections b) \<and> (s, q) \<in> set (bu_cooldowns b))"
| "in_tables b (Holding c s a q) = ((c, a) \<in> set (bu_connections b) \<and> (s, q) \<in> set (bu_cooldowns b))"
| "in_tables b _ = True"

definition one_to_one :: "nat \<Rightarrow> ('k \<times> nat) list \<Rightarrow> bool" where
  "one_to_one n t \<longleftrightarrow> distinct (map fst t) \<and> distinct (map snd t) \<and> (\<forall>a \<in> snd ` set t. a < n)"

definition slots_ok :: "caller list \<Rightarrow> budget \<Rightarrow> bool" where
  "slots_ok cs b \<longleftrightarrow> (\<forall>a \<in> snd ` set (bu_connections b). sl_refs (bu_slots b a) = cnt (at_slots a) cs
     \<and> sl_active (bu_slots b a) = cnt (holds_at a) cs \<and> cnt (holds_at a) cs \<le> 2 \<and> 0 < cnt (at_slots a) cs)"

definition quotas_ok :: "caller list \<Rightarrow> budget \<Rightarrow> bool" where
  "quotas_ok cs b \<longleftrightarrow> (\<forall>q \<in> snd ` set (bu_cooldowns b). q_refs (bu_quotas b q) = cnt (at_quota q) cs)"

definition tables_ok :: "caller list \<Rightarrow> budget \<Rightarrow> bool" where
  "tables_ok cs b \<longleftrightarrow> one_to_one (bu_next b) (bu_connections b) \<and> one_to_one (bu_next b) (bu_cooldowns b)
     \<and> (\<forall>w \<in> set cs. in_tables b w) \<and> slots_ok cs b \<and> quotas_ok cs b
     \<and> length (bu_connections b) \<le> 1000 \<and> length (bu_cooldowns b) \<le> 1000"

lemma cnt_list_update:
  assumes "k < length xs"
  shows "cnt P (xs[k := w]) + (if P (xs ! k) then 1 else 0) = cnt P xs + (if P w then 1 else 0)"
proof -
  have "cnt P xs = cnt P (take k xs @ xs ! k # drop (Suc k) xs)" by (rule arg_cong [OF id_take_nth_drop [OF assms]])
  then have "cnt P xs = cnt P (take k xs) + (if P (xs ! k) then 1 else 0) + cnt P (drop (Suc k) xs)" by (simp add: cnt_def)
  moreover have "cnt P (xs[k := w]) = cnt P (take k xs) + (if P w then 1 else 0) + cnt P (drop (Suc k) xs)"
    using assms by (simp add: cnt_def upd_conv_take_nth_drop)
  ultimately show ?thesis by simp
qed

lemma one_to_one_map_of: "one_to_one n t \<Longrightarrow> (k, a) \<in> set t \<longleftrightarrow> map_of t k = Some a"
  by (simp add: one_to_one_def)

lemma one_to_one_key: "one_to_one n t \<Longrightarrow> (k, a) \<in> set t \<Longrightarrow> (k', a) \<in> set t \<Longrightarrow> k' = k"
  using inj_onD [of snd "set t" "(k, a)" "(k', a)"] by (simp add: one_to_one_def distinct_map)

lemma one_to_one_add: "one_to_one n t \<Longrightarrow> k \<notin> fst ` set t \<Longrightarrow> one_to_one (n + 1) ((k, n) # t)"
  by (auto simp: one_to_one_def less_Suc_eq)

lemma one_to_one_filter: "one_to_one n t \<Longrightarrow> one_to_one n (filter P t)"
  by (auto simp: one_to_one_def distinct_map_filter)

lemma one_to_one_mono: "one_to_one n t \<Longrightarrow> n \<le> m \<Longrightarrow> one_to_one m t"
  by (fastforce simp: one_to_one_def)

lemma cnt_pos_in: "w \<in> set xs \<Longrightarrow> P w \<Longrightarrow> 0 < cnt P xs"
  by (auto simp: cnt_def filter_empty_conv)

lemma update_caller: "w' \<in> set (cs[k := w]) \<Longrightarrow> w' = w \<or> w' \<in> set cs"
  using set_update_subset_insert [of cs k w] by blast

text \<open>What each move of a caller does to the three counts.\<close>

lemma counts_enter:
  assumes "k < length cs" "cs ! k = Calling c s"
  shows "cnt (at_slots x) (cs[k := Waiting c s a q ch u]) = cnt (at_slots x) cs + (if x = a then 1 else 0)"
    and "cnt (at_quota x) (cs[k := Waiting c s a q ch u]) = cnt (at_quota x) cs + (if x = q then 1 else 0)"
    and "cnt (holds_at x) (cs[k := Waiting c s a q ch u]) = cnt (holds_at x) cs"
  using cnt_list_update [OF assms(1), of "at_slots x" "Waiting c s a q ch u"] cnt_list_update [OF assms(1), of "at_quota x" "Waiting c s a q ch u"]
    cnt_list_update [OF assms(1), of "holds_at x" "Waiting c s a q ch u"] assms(2) by auto

lemma counts_wait:
  assumes "k < length cs" "cs ! k = Waiting c s a q ch u"
  shows "cnt (at_slots x) (cs[k := Waiting c s a q ch' u']) = cnt (at_slots x) cs"
    and "cnt (at_quota x) (cs[k := Waiting c s a q ch' u']) = cnt (at_quota x) cs"
    and "cnt (holds_at x) (cs[k := Waiting c s a q ch' u']) = cnt (holds_at x) cs"
  using cnt_list_update [OF assms(1), of "at_slots x" "Waiting c s a q ch' u'"] cnt_list_update [OF assms(1), of "at_quota x" "Waiting c s a q ch' u'"]
    cnt_list_update [OF assms(1), of "holds_at x" "Waiting c s a q ch' u'"] assms(2) by auto

lemma counts_admit:
  assumes "k < length cs" "cs ! k = Waiting c s a q ch u"
  shows "cnt (at_slots x) (cs[k := Holding c s a q]) = cnt (at_slots x) cs"
    and "cnt (at_quota x) (cs[k := Holding c s a q]) = cnt (at_quota x) cs"
    and "cnt (holds_at x) (cs[k := Holding c s a q]) = cnt (holds_at x) cs + (if x = a then 1 else 0)"
  using cnt_list_update [OF assms(1), of "at_slots x" "Holding c s a q"] cnt_list_update [OF assms(1), of "at_quota x" "Holding c s a q"]
    cnt_list_update [OF assms(1), of "holds_at x" "Holding c s a q"] assms(2) by auto

lemma counts_unhold:
  assumes "k < length cs" "cs ! k = Holding c s a q"
  shows "cnt (at_slots x) (cs[k := Waiting c s a q ch u]) = cnt (at_slots x) cs"
    and "cnt (at_quota x) (cs[k := Waiting c s a q ch u]) = cnt (at_quota x) cs"
    and "cnt (holds_at x) (cs[k := Waiting c s a q ch u]) = cnt (holds_at x) cs - (if x = a then 1 else 0)"
  using cnt_list_update [OF assms(1), of "at_slots x" "Waiting c s a q ch u"] cnt_list_update [OF assms(1), of "at_quota x" "Waiting c s a q ch u"]
    cnt_list_update [OF assms(1), of "holds_at x" "Waiting c s a q ch u"] assms(2) by auto

lemma counts_leave:
  assumes "k < length cs" "cs ! k = Waiting c s a q ch u"
  shows "cnt (at_slots x) (cs[k := Returned r]) = cnt (at_slots x) cs - (if x = a then 1 else 0)"
    and "cnt (at_quota x) (cs[k := Returned r]) = cnt (at_quota x) cs - (if x = q then 1 else 0)"
    and "cnt (holds_at x) (cs[k := Returned r]) = cnt (holds_at x) cs"
  using cnt_list_update [OF assms(1), of "at_slots x" "Returned r"] cnt_list_update [OF assms(1), of "at_quota x" "Returned r"]
    cnt_list_update [OF assms(1), of "holds_at x" "Returned r"] assms(2) by auto

text \<open>Each critical section keeps the tables consistent with the callers.\<close>

lemma tables_callerD:
  "tables_ok cs b \<Longrightarrow> k < length cs \<Longrightarrow> in_tables b (cs ! k)"
  by (simp add: tables_ok_def)

lemma tables_scope: "tables_ok cs b \<Longrightarrow> (s, q) \<in> set (bu_cooldowns b) \<Longrightarrow> map_of (bu_cooldowns b) s = Some q"
  by (simp add: tables_ok_def one_to_one_def)

lemma tables_ok_returned:
  assumes "tables_ok cs b" "k < length cs" "cs ! k = Calling c s"
  shows "tables_ok (cs[k := Returned r]) b"
proof -
  have "cnt (at_slots x) (cs[k := Returned r]) = cnt (at_slots x) cs" "cnt (at_quota x) (cs[k := Returned r]) = cnt (at_quota x) cs"
      "cnt (holds_at x) (cs[k := Returned r]) = cnt (holds_at x) cs" for x
    using cnt_list_update [OF assms(2), of "at_slots x" "Returned r"] cnt_list_update [OF assms(2), of "at_quota x" "Returned r"]
      cnt_list_update [OF assms(2), of "holds_at x" "Returned r"] assms(3) by auto
  with assms(1) show ?thesis by (auto simp: tables_ok_def slots_ok_def quotas_ok_def dest!: update_caller)
qed

lemma tables_ok_wait:
  assumes "tables_ok cs b" "k < length cs" "cs ! k = Waiting c s a q ch u"
  shows "tables_ok (cs[k := Waiting c s a q ch' u']) b"
  using assms(1) tables_callerD [OF assms(1,2)] assms(3) counts_wait [OF assms(2,3), of _ ch' u']
  by (auto simp: tables_ok_def slots_ok_def quotas_ok_def dest!: update_caller)

lemma cells_simps [simp]:
  "bu_connections (set_slots a f b) = bu_connections b" "bu_cooldowns (set_slots a f b) = bu_cooldowns b" "bu_next (set_slots a f b) = bu_next b"
  "bu_changed (set_slots a f b) = bu_changed b" "bu_quotas (set_slots a f b) = bu_quotas b" "bu_slots (set_slots a f b) = (bu_slots b)(a := f (bu_slots b a))"
  "bu_connections (set_quota a g b) = bu_connections b" "bu_cooldowns (set_quota a g b) = bu_cooldowns b" "bu_next (set_quota a g b) = bu_next b"
  "bu_changed (set_quota a g b) = bu_changed b" "bu_slots (set_quota a g b) = bu_slots b" "bu_quotas (set_quota a g b) = (bu_quotas b)(a := g (bu_quotas b a))"
  by (simp_all add: set_slots_def set_quota_def)

lemma in_tables_cells [simp]: "in_tables (set_slots a f b) w = in_tables b w" "in_tables (set_quota q g b) w = in_tables b w"
  by (cases w; simp add: set_slots_def set_quota_def)+

lemma tables_ok_admit:
  assumes "tables_ok cs b" "k < length cs" "cs ! k = Waiting c s a q ch u" "sl_active (bu_slots b a) < 2"
  shows "tables_ok (cs[k := Holding c s a q]) (set_slots a (\<lambda>s. s\<lparr>sl_active := sl_active s + 1\<rparr>) b)"
proof -
  note n = counts_admit [OF assms(2,3)]
  have "slots_ok (cs[k := Holding c s a q]) (set_slots a (\<lambda>s. s\<lparr>sl_active := sl_active s + 1\<rparr>) b)"
    using assms(1,4) unfolding tables_ok_def slots_ok_def n by (auto simp: set_slots_def)
  moreover have "quotas_ok (cs[k := Holding c s a q]) (set_slots a (\<lambda>s. s\<lparr>sl_active := sl_active s + 1\<rparr>) b)"
    using assms(1) unfolding tables_ok_def quotas_ok_def n by (simp add: set_slots_def)
  ultimately show ?thesis
    using assms(1) tables_callerD [OF assms(1,2)] assms(3) by (auto simp: tables_ok_def dest!: update_caller)
qed

lemma tables_ok_unhold:
  assumes "tables_ok cs b" "k < length cs" "cs ! k = Holding c s a q"
  shows "tables_ok (cs[k := Waiting c s a q ch u]) (set_slots a (\<lambda>s. s\<lparr>sl_active := sl_active s - 1\<rparr>) b)"
proof -
  note n = counts_unhold [OF assms(2,3)]
  have "slots_ok (cs[k := Waiting c s a q ch u]) (set_slots a (\<lambda>s. s\<lparr>sl_active := sl_active s - 1\<rparr>) b)"
    using assms(1) unfolding tables_ok_def slots_ok_def n by (auto simp: set_slots_def)
  moreover have "quotas_ok (cs[k := Waiting c s a q ch u]) (set_slots a (\<lambda>s. s\<lparr>sl_active := sl_active s - 1\<rparr>) b)"
    using assms(1) unfolding tables_ok_def quotas_ok_def n by (simp add: set_slots_def)
  ultimately show ?thesis
    using assms(1) tables_callerD [OF assms(1,2)] assms(3) by (auto simp: tables_ok_def dest!: update_caller)
qed

lemma tables_ok_leave:
  assumes ok: "tables_ok cs b" and k: "k < length cs" "cs ! k = Waiting c s a q ch u"
  shows "tables_ok (cs[k := Returned r]) (leave now c s a q b)"
proof -
  let ?cs = "cs[k := Returned r]" and ?b = "leave now c s a q b"
  note n = counts_leave [OF k]
  have in_k: "(c, a) \<in> set (bu_connections b)" "(s, q) \<in> set (bu_cooldowns b)" using tables_callerD [OF ok k(1)] k(2) by auto
  have one: "one_to_one (bu_next b) (bu_connections b)" "one_to_one (bu_next b) (bu_cooldowns b)" using ok by (auto simp: tables_ok_def)
  have refs: "sl_refs (bu_slots b a) = cnt (at_slots a) cs" "q_refs (bu_quotas b q) = cnt (at_quota q) cs"
    using ok in_k by (force simp: tables_ok_def slots_ok_def quotas_ok_def)+
  have fields: "bu_connections ?b = (if cnt (at_slots a) ?cs = 0 then drop_key c (bu_connections b) else bu_connections b)"
      "bu_cooldowns ?b = (if cnt (at_quota q) ?cs = 0 \<and> q_until (bu_quotas b q) \<le> now then drop_key s (bu_cooldowns b) else bu_cooldowns b)"
      "bu_next ?b = bu_next b" "bu_slots ?b = (bu_slots b)(a := (bu_slots b a)\<lparr>sl_refs := cnt (at_slots a) ?cs\<rparr>)"
      "bu_quotas ?b = (bu_quotas b)(q := (bu_quotas b q)\<lparr>q_refs := cnt (at_quota q) ?cs\<rparr>)"
    using refs by (simp_all add: leave_def Let_def set_slots_def set_quota_def n)
  have gone: "\<not> at_slots a w" if "cnt (at_slots a) ?cs = 0" "w \<in> set ?cs" for w using cnt_pos_in [OF that(2)] that(1) by fastforce
  have gone_q: "\<not> at_quota q w" if "cnt (at_quota q) ?cs = 0" "w \<in> set ?cs" for w using cnt_pos_in [OF that(2)] that(1) by fastforce
  have keys: "a' = a" if "(c, a') \<in> set (bu_connections b)" for a' using that in_k one by (simp add: one_to_one_map_of)
  have keys_q: "q' = q" if "(s, q') \<in> set (bu_cooldowns b)" for q' using that in_k one by (simp add: one_to_one_map_of)
  have "in_tables ?b w" if w: "w \<in> set ?cs" for w
  proof -
    have "in_tables b w" using update_caller [OF w] ok by (auto simp: tables_ok_def)
    then show ?thesis
      using gone [OF _ w] gone_q [OF _ w] keys keys_q by (cases w) (auto simp: fields drop_key_def)
  qed
  moreover have "slots_ok ?cs ?b"
    unfolding slots_ok_def
  proof
    fix x assume "x \<in> snd ` set (bu_connections ?b)"
    then have x: "x \<in> snd ` set (bu_connections b)" "x = a \<Longrightarrow> cnt (at_slots a) ?cs \<noteq> 0"
      using one_to_one_key [OF one(1) in_k(1)] by (auto simp: fields drop_key_def split: if_splits)
    have "sl_refs (bu_slots b x) = cnt (at_slots x) cs" "sl_active (bu_slots b x) = cnt (holds_at x) cs" "cnt (holds_at x) cs \<le> 2" "0 < cnt (at_slots x) cs"
      using ok x(1) unfolding tables_ok_def slots_ok_def by blast+
    then show "sl_refs (bu_slots ?b x) = cnt (at_slots x) ?cs \<and> sl_active (bu_slots ?b x) = cnt (holds_at x) ?cs
        \<and> cnt (holds_at x) ?cs \<le> 2 \<and> 0 < cnt (at_slots x) ?cs"
      using x(2) by (cases "x = a") (simp_all add: fields n)
  qed
  moreover have "quotas_ok ?cs ?b"
    using ok unfolding tables_ok_def quotas_ok_def fields by (auto simp: drop_key_def n)
  ultimately show ?thesis
    using ok one by (auto simp: tables_ok_def fields drop_key_def one_to_one_filter intro: order_trans [OF length_filter_le])
qed

lemma tables_ok_frame:
  assumes "tables_ok cs b" "bu_connections b' = bu_connections b" "bu_cooldowns b' = bu_cooldowns b" "bu_next b' = bu_next b"
    "bu_slots b' = bu_slots b" "\<And>q. q_refs (bu_quotas b' q) = q_refs (bu_quotas b q)"
  shows "tables_ok cs b'"
proof -
  have "in_tables b' w = in_tables b w" for w using assms by (cases w) auto
  then show ?thesis using assms by (simp add: tables_ok_def slots_ok_def quotas_ok_def)
qed

lemma tables_ok_release:
  assumes "tables_ok cs b" "k < length cs" "cs ! k = Holding c s a q"
  shows "tables_ok (cs[k := Returned r]) (release now c s a q b)"
proof -
  have "tables_ok (cs[k := Waiting c s a q 0 0]) (set_slots a (\<lambda>s. s\<lparr>sl_active := sl_active s - 1\<rparr>) b)"
    by (rule tables_ok_unhold [OF assms])
  from tables_ok_leave [OF this, of k c s a q 0 0 r now] assms(2) have "tables_ok (cs[k := Returned r]) (leave now c s a q (set_slots a (\<lambda>s. s\<lparr>sl_active := sl_active s - 1\<rparr>) b))"
    by simp
  then show ?thesis by (rule tables_ok_frame) (simp_all add: release_def signal_def)
qed

lemma tables_ok_postpone: "tables_ok cs b \<Longrightarrow> tables_ok cs (postpone now scope delay b)"
  by (erule tables_ok_frame) (auto simp: postpone_def signal_def set_quota_def split: option.splits)

lemma tables_ok_sweep:
  assumes ok: "tables_ok cs b"
  shows "tables_ok cs (sweep now b)"
proof -
  have "in_tables (sweep now b) w" if w: "w \<in> set cs" for w
  proof -
    have pos: "0 < q_refs (bu_quotas b q)" if "at_quota q w" "(s, q) \<in> set (bu_cooldowns b)" for s q
      using cnt_pos_in [of w cs "at_quota q"] w that ok by (force simp: tables_ok_def quotas_ok_def)
    show ?thesis using ok w pos by (cases w) (fastforce simp: tables_ok_def sweep_def)+
  qed
  then show ?thesis
    using ok by (auto simp: tables_ok_def slots_ok_def quotas_ok_def one_to_one_filter sweep_def intro: order_trans [OF length_filter_le])
qed

lemma slots_forD:
  assumes "slots_for c b = Some (b1, a)"
  shows "bu_connections b1 = (if map_of (bu_connections b) c = None then (c, a) # bu_connections b else bu_connections b)"
    and "map_of (bu_connections b) c = None \<and> a = bu_next b \<and> bu_next b1 = bu_next b + 1 \<and> length (bu_connections b) < 1000
         \<and> bu_slots b1 = (bu_slots b)(a := \<lparr>sl_active = 0, sl_refs = 0\<rparr>)
       \<or> map_of (bu_connections b) c = Some a \<and> b1 = b"
    and "bu_cooldowns b1 = bu_cooldowns b \<and> bu_quotas b1 = bu_quotas b \<and> bu_changed b1 = bu_changed b"
  using assms by (auto simp: slots_for_def split: option.splits if_splits)

lemma quota_forD:
  assumes "quota_for s b = (b1, q)"
  shows "bu_cooldowns b1 = (if map_of (bu_cooldowns b) s = None then (s, q) # bu_cooldowns b else bu_cooldowns b)"
    and "map_of (bu_cooldowns b) s = None \<and> q = bu_next b \<and> bu_next b1 = bu_next b + 1 \<and> bu_quotas b1 = (bu_quotas b)(q := \<lparr>q_until = 0, q_refs = 0\<rparr>)
       \<or> map_of (bu_cooldowns b) s = Some q \<and> b1 = b"
    and "bu_connections b1 = bu_connections b \<and> bu_slots b1 = bu_slots b \<and> bu_changed b1 = bu_changed b"
  using assms by (auto simp: quota_for_def split: option.splits if_splits)

text \<open>A fresh address is nobody's.\<close>

lemma fresh_counts:
  assumes "tables_ok cs b" "bu_next b \<le> x"
  shows "cnt (at_slots x) cs = 0" "cnt (holds_at x) cs = 0" "cnt (at_quota x) cs = 0"
proof -
  have "\<not> at_slots x w \<and> \<not> at_quota x w \<and> \<not> holds_at x w" if "w \<in> set cs" for w
    using assms that by (cases w) (force simp: tables_ok_def one_to_one_def)+
  then show "cnt (at_slots x) cs = 0" "cnt (holds_at x) cs = 0" "cnt (at_quota x) cs = 0"
    by (auto simp: cnt_def filter_empty_conv)
qed

lemma tables_ok_enter_swept:
  assumes ok: "tables_ok cs b" and k: "k < length cs" "cs ! k = Calling c s"
    and room: "map_of (bu_cooldowns b) s = None \<Longrightarrow> length (bu_cooldowns b) < 1000"
    and sl: "slots_for c b = Some (b1, a)" and qu: "quota_for s b1 = (b2, q)"
  shows "tables_ok (cs[k := Waiting c s a q ch u]) (set_slots a (\<lambda>s. s\<lparr>sl_refs := sl_refs s + 1\<rparr>) (set_quota q (\<lambda>s. s\<lparr>q_refs := q_refs s + 1\<rparr>) b2))"
    (is "tables_ok ?cs ?b")
proof -
  note S = slots_forD [OF sl] and Q = quota_forD [OF qu] and n = counts_enter [OF k]
  have one: "one_to_one (bu_next b) (bu_connections b)" "one_to_one (bu_next b) (bu_cooldowns b)" using ok by (auto simp: tables_ok_def)
  have nxt: "bu_next b \<le> bu_next b1" "bu_next b1 \<le> bu_next b2" using S(2) Q(2) by auto
  have one1: "one_to_one (bu_next b1) (bu_connections b1)" "(c, a) \<in> set (bu_connections b1)" "length (bu_connections b1) \<le> 1000"
    using S(1,2) one ok one_to_one_add [OF one(1)] by (auto simp: map_of_eq_None_iff tables_ok_def one_to_one_map_of)
  have cool1: "one_to_one (bu_next b1) (bu_cooldowns b1)" "bu_cooldowns b1 = bu_cooldowns b" using S(3) one_to_one_mono [OF one(2) nxt(1)] by auto
  have one2: "one_to_one (bu_next b2) (bu_cooldowns b2)" "(s, q) \<in> set (bu_cooldowns b2)" "length (bu_cooldowns b2) \<le> 1000"
    using Q(1,2) cool1 ok one_to_one_add [OF cool1(1)] room by (auto simp: map_of_eq_None_iff tables_ok_def one_to_one_map_of)
  have sub: "set (bu_connections b) \<subseteq> set (bu_connections b1)" "set (bu_cooldowns b) \<subseteq> set (bu_cooldowns b2)"
    using S(1) Q(1) cool1(2) by auto
  have "in_tables ?b w" if "w \<in> set ?cs" for w
  proof -
    have "w = Waiting c s a q ch u \<or> in_tables b w" using update_caller [OF that] ok by (auto simp: tables_ok_def)
    then show ?thesis using sub one1(2) one2(2) Q(3) by (cases w) auto
  qed
  moreover have "slots_ok ?cs ?b"
    unfolding slots_ok_def
  proof
    fix x assume x: "x \<in> snd ` set (bu_connections ?b)"
    have old: "sl_refs (bu_slots b x) = cnt (at_slots x) cs \<and> sl_active (bu_slots b x) = cnt (holds_at x) cs \<and> cnt (holds_at x) cs \<le> 2 \<and> 0 < cnt (at_slots x) cs"
      if "x \<in> snd ` set (bu_connections b)" using ok that unfolding tables_ok_def slots_ok_def by blast
    show "sl_refs (bu_slots ?b x) = cnt (at_slots x) ?cs \<and> sl_active (bu_slots ?b x) = cnt (holds_at x) ?cs
        \<and> cnt (holds_at x) ?cs \<le> 2 \<and> 0 < cnt (at_slots x) ?cs"
      using S(2)
    proof
      assume new: "map_of (bu_connections b) c = None \<and> a = bu_next b \<and> bu_next b1 = bu_next b + 1 \<and> length (bu_connections b) < 1000
         \<and> bu_slots b1 = (bu_slots b)(a := \<lparr>sl_active = 0, sl_refs = 0\<rparr>)"
      have "x = a \<or> x \<in> snd ` set (bu_connections b)" using x S(1) Q(3) new by auto
      then show ?thesis
      proof
        assume "x = a"
        then show ?thesis using new Q(3) fresh_counts [OF ok, of a] by (simp add: n)
      next
        assume o: "x \<in> snd ` set (bu_connections b)"
        then have "x \<noteq> a" using new one(1) by (auto simp: one_to_one_def)
        then show ?thesis using old [OF o] new Q(3) by (simp add: n)
      qed
    next
      assume found: "map_of (bu_connections b) c = Some a \<and> b1 = b"
      then have "x \<in> snd ` set (bu_connections b)" using x Q(3) by simp
      with old found Q(3) show ?thesis by (auto simp: n)
    qed
  qed
  moreover have "quotas_ok ?cs ?b"
    unfolding quotas_ok_def
  proof
    fix x assume x: "x \<in> snd ` set (bu_cooldowns ?b)"
    have old: "q_refs (bu_quotas b x) = cnt (at_quota x) cs" if "x \<in> snd ` set (bu_cooldowns b)"
      using ok that unfolding tables_ok_def quotas_ok_def by blast
    have low: "y < bu_next b1" if "y \<in> snd ` set (bu_cooldowns b)" for y using that one(2) nxt by (force simp: one_to_one_def)
    show "q_refs (bu_quotas ?b x) = cnt (at_quota x) ?cs"
    proof (cases "x \<in> snd ` set (bu_cooldowns b)")
      case True
      then have "q_refs (bu_quotas b2 x) = q_refs (bu_quotas b x)" using low [OF True] Q(2) S(3) by auto
      with old [OF True] show ?thesis by (auto simp: n)
    next
      case False
      then have "x = q \<and> bu_next b \<le> q \<and> q_refs (bu_quotas b2 q) = 0" using x Q(1,2) S(3) nxt by auto
      then show ?thesis using fresh_counts(3) [OF ok, of q] by (auto simp: n)
    qed
  qed
  ultimately show ?thesis using one1 one2 one_to_one_mono [OF one1(1) nxt(2)] Q(3) by (simp add: tables_ok_def)
qed

lemma tables_ok_enter:
  assumes ok: "tables_ok cs b" and k: "k < length cs" "cs ! k = Calling c s" and e: "enter now c s b = (b', Some (a, q))"
  shows "tables_ok (cs[k := Waiting c s a q ch u]) b'"
proof -
  from e obtain b1 b2 where p: "slots_for c (sweep now b) = Some (b1, a)" "quota_for s b1 = (b2, q)"
      "map_of (bu_cooldowns (sweep now b)) s = None \<Longrightarrow> length (bu_cooldowns (sweep now b)) < 1000"
      "b' = set_slots a (\<lambda>s. s\<lparr>sl_refs := sl_refs s + 1\<rparr>) (set_quota q (\<lambda>s. s\<lparr>q_refs := q_refs s + 1\<rparr>) b2)"
    by (auto simp: enter_def Let_def split: if_splits option.splits prod.splits)
  show ?thesis unfolding p(4) by (rule tables_ok_enter_swept [OF tables_ok_sweep [OF ok] k p(3,1,2)])
qed

lemma tables_ok_refused:
  assumes ok: "tables_ok cs b" and e: "enter now c s b = (b', None)"
  shows "tables_ok cs b'"
  using e tables_ok_sweep [OF ok] ok by (auto simp: enter_def Let_def split: if_splits option.splits prod.splits)

section \<open>Cooldowns and wake-ups\<close>

text \<open>A cooldown stays in the table, never shortened, until it has passed.\<close>

definition keeps_cooldowns :: "time \<Rightarrow> budget \<Rightarrow> budget \<Rightarrow> bool" where
  "keeps_cooldowns now b b' \<longleftrightarrow> (\<forall>s q. map_of (bu_cooldowns b) s = Some q \<longrightarrow> q_until (bu_quotas b q) \<le> now
     \<or> map_of (bu_cooldowns b') s = Some q \<and> q_until (bu_quotas b q) \<le> q_until (bu_quotas b' q))"

text \<open>A critical section signals, or frees no slot and moves no cooldown of a cell in use.\<close>

definition wakes :: "budget \<Rightarrow> budget \<Rightarrow> bool" where
  "wakes b b' \<longleftrightarrow> bu_next b \<le> bu_next b' \<and> (bu_changed b < bu_changed b' \<or> bu_changed b' = bu_changed b
     \<and> (\<forall>x < bu_next b. sl_active (bu_slots b x) \<le> sl_active (bu_slots b' x) \<and> q_until (bu_quotas b' x) = q_until (bu_quotas b x)))"

lemma keeps_trans: "keeps_cooldowns now b b1 \<Longrightarrow> keeps_cooldowns later b1 b2 \<Longrightarrow> now \<le> later \<Longrightarrow> keeps_cooldowns later b b2"
  unfolding keeps_cooldowns_def by (meson order_trans)

lemma wakes_trans: "wakes b b1 \<Longrightarrow> wakes b1 b2 \<Longrightarrow> wakes b b2"
  unfolding wakes_def by (auto intro: order_trans)

lemma wakes_refl [simp]: "wakes b b" "keeps_cooldowns now b b"
  by (simp_all add: wakes_def keeps_cooldowns_def)

lemma map_of_drop_key: "map_of (drop_key k t) x = (if x = k then None else map_of t x)"
  by (induction t) (auto simp: drop_key_def)

lemma leave_fields:
  "bu_cooldowns (leave now c s a q b) = bu_cooldowns b \<or> q_until (bu_quotas b q) \<le> now \<and> bu_cooldowns (leave now c s a q b) = drop_key s (bu_cooldowns b)"
  "q_until (bu_quotas (leave now c s a q b) x) = q_until (bu_quotas b x)" "sl_active (bu_slots (leave now c s a q b) x) = sl_active (bu_slots b x)"
  "bu_next (leave now c s a q b) = bu_next b" "bu_changed (leave now c s a q b) = bu_changed b"
  by (auto simp: leave_def Let_def)

lemma keeps_leave:
  assumes "map_of (bu_cooldowns b) s = Some q"
  shows "keeps_cooldowns now b (leave now c s a q b)"
  using leave_fields(1) [of now c s a q b]
proof
  assume "bu_cooldowns (leave now c s a q b) = bu_cooldowns b"
  then show ?thesis by (simp add: keeps_cooldowns_def leave_fields(2-))
next
  assume "q_until (bu_quotas b q) \<le> now \<and> bu_cooldowns (leave now c s a q b) = drop_key s (bu_cooldowns b)"
  with assms show ?thesis by (auto simp: keeps_cooldowns_def leave_fields(2-) map_of_drop_key)
qed

lemma wakes_leave: "wakes b (leave now c s a q b)"
  by (simp add: wakes_def leave_fields)

lemma keeps_release: "map_of (bu_cooldowns b) s = Some q \<Longrightarrow> keeps_cooldowns now b (release now c s a q b)"
  using keeps_leave [of "set_slots a (\<lambda>s. s\<lparr>sl_active := sl_active s - 1\<rparr>) b" s q now c a] by (auto simp: release_def signal_def keeps_cooldowns_def)

lemma wakes_release: "wakes b (release now c s a q b)"
  by (simp add: wakes_def release_def signal_def leave_fields)

lemma keeps_postpone: "keeps_cooldowns now b (postpone now' s delay b)"
  by (auto simp: keeps_cooldowns_def postpone_def signal_def split: option.splits)

lemma wakes_postpone: "wakes b (postpone now s delay b)"
  by (auto simp: wakes_def postpone_def signal_def split: option.splits)

lemma map_of_filter_Some: "distinct (map fst t) \<Longrightarrow> map_of t k = Some v \<Longrightarrow> P (k, v) \<Longrightarrow> map_of (filter P t) k = Some v"
  by (auto simp: distinct_map_filter map_of_eq_Some_iff)

lemma keeps_sweep: "tables_ok cs b \<Longrightarrow> keeps_cooldowns now b (sweep now b)"
  by (auto simp: keeps_cooldowns_def sweep_def tables_ok_def one_to_one_def intro!: map_of_filter_Some)

lemma wakes_sweep: "wakes b (sweep now b)"
  by (simp add: wakes_def sweep_def)

lemma enter_effect:
  assumes ok: "tables_ok cs b" and e: "enter now c s b = (b', r)"
  shows "keeps_cooldowns now b b' \<and> wakes b b'"
proof -
  have grown: "keeps_cooldowns now b1 b3 \<and> wakes b1 b3"
    if sl: "slots_for c b1 = Some (b2, a)" and qu: "quota_for s b2 = (b3, q)" and one: "one_to_one (bu_next b1) (bu_cooldowns b1)" for b1 b2 b3 a q
  proof -
    have low: "x < bu_next b1" if "map_of (bu_cooldowns b1) k = Some x" for k x
      using map_of_SomeD [OF that] one by (force simp: one_to_one_def)
    show ?thesis
      using slots_forD [OF sl] quota_forD [OF qu] low by (fastforce simp: keeps_cooldowns_def wakes_def)
  qed
  have sw: "tables_ok cs (sweep now b)" "keeps_cooldowns now b (sweep now b)" "wakes b (sweep now b)"
    using tables_ok_sweep [OF ok] keeps_sweep [OF ok] wakes_sweep by auto
  show ?thesis
  proof (cases r)
    case None
    then have "b' = b \<or> b' = sweep now b" using e by (auto simp: enter_def Let_def split: if_splits option.splits prod.splits)
    with sw show ?thesis by auto
  next
    case (Some aq)
    with e obtain b1 b2 a q where g: "slots_for c (sweep now b) = Some (b1, a)" "quota_for s b1 = (b2, q)"
      "b' = set_slots a (\<lambda>s. s\<lparr>sl_refs := sl_refs s + 1\<rparr>) (set_quota q (\<lambda>s. s\<lparr>q_refs := q_refs s + 1\<rparr>) b2)"
      by (auto simp: enter_def Let_def split: if_splits option.splits prod.splits)
    have "keeps_cooldowns now (sweep now b) b2 \<and> wakes (sweep now b) b2" using grown [OF g(1,2)] sw(1) by (simp add: tables_ok_def)
    then have "keeps_cooldowns now (sweep now b) b' \<and> wakes (sweep now b) b'" by (auto simp: g(3) keeps_cooldowns_def wakes_def)
    with sw show ?thesis using keeps_trans wakes_trans by blast
  qed
qed

section \<open>The process\<close>

fun waits_ok :: "budget \<Rightarrow> caller \<Rightarrow> bool" where
  "waits_ok b (Waiting _ _ a q ch u) = (ch \<le> bu_changed b \<and> (ch = bu_changed b \<longrightarrow> 2 \<le> sl_active (bu_slots b a) \<or> u = q_until (bu_quotas b q)))"
| "waits_ok b _ = True"

definition cooldowns_ok :: "time \<Rightarrow> (string \<times> time) list \<Rightarrow> budget \<Rightarrow> bool" where
  "cooldowns_ok now sets b \<longleftrightarrow> (\<forall>(s, t) \<in> set sets. t \<le> now \<or> (\<exists>q. map_of (bu_cooldowns b) s = Some q \<and> t \<le> q_until (bu_quotas b q)))"

definition budget_inv :: "process \<Rightarrow> bool" where
  "budget_inv p \<longleftrightarrow> tables_ok (pr_callers p) (pr_budget p) \<and> (\<forall>w \<in> set (pr_callers p). waits_ok (pr_budget p) w)
     \<and> cooldowns_ok (pr_now p) (pr_set p) (pr_budget p)"

lemma waits_ok_step:
  assumes "tables_ok cs b" "w \<in> set cs" "waits_ok b w" "wakes b b'"
  shows "waits_ok b' w"
proof (cases w)
  case (Waiting c s a q ch u)
  with assms(1,2) have "a < bu_next b" "q < bu_next b" by (force simp: tables_ok_def one_to_one_def)+
  with Waiting assms(3,4) show ?thesis by (auto simp: wakes_def intro: order_trans)
qed simp_all

lemma cooldowns_ok_step:
  "cooldowns_ok now sets b \<Longrightarrow> keeps_cooldowns later b b' \<Longrightarrow> now \<le> later \<Longrightarrow> cooldowns_ok later sets b'"
  unfolding cooldowns_ok_def keeps_cooldowns_def by (fastforce intro: order_trans)

text \<open>Every turn of a caller keeps the invariant, whatever its position.\<close>

lemma attempt_effect:
  assumes ok: "tables_ok cs b" and k: "k < length cs" "cs ! k = Waiting c s a q ch u" and at: "attempt cancelled now later c s a q b = (b', t)"
  shows "tables_ok (cs[k := after_turn c s a q t]) b' \<and> keeps_cooldowns later b b' \<and> wakes b b' \<and> waits_ok b' (after_turn c s a q t)"
proof -
  have m: "map_of (bu_cooldowns b) s = Some q" using tables_callerD [OF ok k(1)] k(2) tables_scope [OF ok] by simp
  show ?thesis
  proof (cases t)
    case GivesUp
    then have "b' = leave later c s a q b" using at by (auto simp: attempt_def split: if_splits)
    with GivesUp tables_ok_leave [OF ok k] keeps_leave [OF m] wakes_leave show ?thesis by (simp add: after_turn_def)
  next
    case Admitted
    then have b': "b' = set_slots a (\<lambda>s. s\<lparr>sl_active := sl_active s + 1\<rparr>) b" and free: "sl_active (bu_slots b a) < 2"
      using at by (auto simp: attempt_def admissible_def split: if_splits)
    have "keeps_cooldowns later b b'" "wakes b b'" by (auto simp: b' keeps_cooldowns_def wakes_def)
    with Admitted tables_ok_admit [OF ok k free] show ?thesis by (simp add: after_turn_def b')
  next
    case (Waits ch' u')
    then have b': "b' = b" "ch' = bu_changed b" "2 \<le> sl_active (bu_slots b a) \<or> u' = q_until (bu_quotas b q)"
      using at by (auto simp: attempt_def admissible_def split: if_splits)
    with Waits tables_ok_wait [OF ok k] show ?thesis by (simp add: after_turn_def)
  qed
qed

lemma acquire_effect:
  assumes ok: "tables_ok cs b" and k: "k < length cs" and tm: "now \<le> later" and w: "waits_ok b (cs ! k)" and ac: "acquire cancelled now later (cs ! k) b = (w', b')"
  shows "tables_ok (cs[k := w']) b' \<and> keeps_cooldowns later b b' \<and> wakes b b' \<and> waits_ok b' w'"
proof (cases "cs ! k")
  case (Calling c s)
  obtain b1 r where e: "enter now c s b = (b1, r)" by fastforce
  from enter_effect [OF ok e] have ef: "keeps_cooldowns now b b1" "wakes b b1" by auto
  show ?thesis
  proof (cases r)
    case None
    with e Calling ac have "w' = Returned False" "b' = b1" by auto
    with tables_ok_returned [OF tables_ok_refused [OF ok e [unfolded None]] k Calling] ef keeps_trans [OF ef(1) _ tm, of b1] show ?thesis by simp
  next
    case (Some aq)
    obtain a q where aq: "aq = (a, q)" by (cases aq)
    let ?cs = "cs[k := Waiting c s a q 0 0]"
    have ok1: "tables_ok ?cs b1" by (rule tables_ok_enter [OF ok k Calling e [unfolded Some aq]])
    obtain t where at: "attempt cancelled now later c s a q b1 = (b', t)" and w': "w' = after_turn c s a q t"
      using ac e Calling Some aq by (auto split: prod.splits)
    from attempt_effect [OF ok1 _ _ at, of k 0 0] k have
      "tables_ok (cs[k := w']) b'" "keeps_cooldowns later b1 b'" "wakes b1 b'" "waits_ok b' w'" by (auto simp: w')
    with ef tm show ?thesis using keeps_trans wakes_trans by blast
  qed
next
  case (Waiting c s a q ch u)
  then obtain t where at: "attempt cancelled now later c s a q b = (b', t)" and w': "w' = after_turn c s a q t"
    using ac by (auto split: prod.splits)
  from attempt_effect [OF ok k Waiting at] show ?thesis by (simp add: w')
qed (use ac ok w k in \<open>auto simp: list_update_same_conv\<close>)

lemma finish_effect:
  assumes ok: "tables_ok cs b" and k: "k < length cs" and w: "waits_ok b (cs ! k)" and f: "finish now (cs ! k) b = (w', b')"
  shows "tables_ok (cs[k := w']) b' \<and> keeps_cooldowns now b b' \<and> wakes b b' \<and> waits_ok b' w'"
proof (cases "cs ! k")
  case (Holding c s a q)
  have m: "map_of (bu_cooldowns b) s = Some q" using tables_callerD [OF ok k(1)] Holding tables_scope [OF ok] by simp
  from f Holding tables_ok_release [OF ok k Holding] keeps_release [OF m] wakes_release show ?thesis by auto
qed (use f ok w k in \<open>auto simp: list_update_same_conv\<close>)

lemma budget_inv_caller:
  assumes inv: "budget_inv p" and ef: "tables_ok ((pr_callers p)[k := w]) b \<and> keeps_cooldowns later (pr_budget p) b \<and> wakes (pr_budget p) b \<and> waits_ok b w"
    and tm: "pr_now p \<le> later"
  shows "budget_inv (p\<lparr>pr_callers := (pr_callers p)[k := w], pr_budget := b, pr_now := later\<rparr>)"
proof -
  have "waits_ok b x" if "x \<in> set ((pr_callers p)[k := w])" for x
    using update_caller [OF that] waits_ok_step [of "pr_callers p" "pr_budget p" x b] inv ef by (auto simp: budget_inv_def)
  with inv ef cooldowns_ok_step [OF _ _ tm] show ?thesis by (auto simp: budget_inv_def)
qed

lemma budget_inv_step: "turn_step p p' \<Longrightarrow> budget_inv p \<Longrightarrow> budget_inv p'"
proof (induction rule: turn_step.induct)
  case (arrive p connection scope)
  then have ok: "tables_ok (pr_callers p) (pr_budget p)" by (simp add: budget_inv_def)
  have "tables_ok (pr_callers p @ [Calling connection scope]) (pr_budget p)"
    using ok by (auto simp: tables_ok_def slots_ok_def quotas_ok_def cnt_def)
  with arrive show ?case by (auto simp: budget_inv_def)
next
  case (tick p t)
  then show ?case using cooldowns_ok_step [of "pr_now p" "pr_set p" "pr_budget p" t "pr_budget p"] by (auto simp: budget_inv_def)
next
  case (turns k p later cancelled w b)
  have "tables_ok (pr_callers p) (pr_budget p)" "waits_ok (pr_budget p) (pr_callers p ! k)" using turns by (auto simp: budget_inv_def)
  from budget_inv_caller [OF turns(4) acquire_effect [OF this(1) turns(1,2) this(2) turns(3)] turns(2)] show ?case .
next
  case (return k p w b)
  have "tables_ok (pr_callers p) (pr_budget p)" "waits_ok (pr_budget p) (pr_callers p ! k)" using return by (auto simp: budget_inv_def)
  from budget_inv_caller [OF return(3) finish_effect [OF this(1) return(1) this(2) return(2)]] show ?case by simp
next
  case (limited p scope delay)
  let ?b = "postpone (pr_now p) scope delay (pr_budget p)"
  obtain q where q: "map_of (bu_cooldowns (pr_budget p)) scope = Some q" using limited by auto
  have "cooldowns_ok (pr_now p) (pr_set p) ?b"
    using limited(2) keeps_postpone cooldowns_ok_step by (metis budget_inv_def order_refl)
  moreover have "map_of (bu_cooldowns ?b) scope = Some q" "pr_now p + delay \<le> q_until (bu_quotas ?b q)"
    using q by (auto simp: postpone_def signal_def)
  ultimately have "cooldowns_ok (pr_now p) ((scope, pr_now p + delay) # pr_set p) ?b" by (auto simp: cooldowns_ok_def)
  moreover have "waits_ok ?b w" if "w \<in> set (pr_callers p)" for w
    using waits_ok_step [OF _ that _ wakes_postpone] limited(2) that by (simp add: budget_inv_def)
  ultimately show ?case using limited(2) tables_ok_postpone by (simp add: budget_inv_def)
next
  case (unlimited p scope delay)
  then show ?case by (simp add: postpone_def)
qed

interpretation budget: machine turn_step budget_inv
  by unfold_locales (rule budget_inv_step)

definition at_rest :: process where
  "at_rest = \<lparr>pr_budget = NewBudget, pr_callers = [], pr_now = 0, pr_set = []\<rparr>"

lemma budget_inv_at_rest: "budget_inv at_rest"
  by (simp add: budget_inv_def at_rest_def NewBudget_def tables_ok_def one_to_one_def slots_ok_def quotas_ok_def cooldowns_ok_def)

fun holding :: "uuid \<Rightarrow> caller \<Rightarrow> bool" where
  "holding connection (Holding c _ _ _) = (c = connection)" | "holding connection _ = False"

section \<open>Properties\<close>

text \<open>A run: three callers of one connection, the third of which has to wait; the first reports a rate limit and returns.\<close>

definition take_turn :: "nat \<Rightarrow> process \<Rightarrow> process" where
  "take_turn k p = (case acquire False (pr_now p) (pr_now p) (pr_callers p ! k) (pr_budget p) of (w, b) \<Rightarrow>
     p\<lparr>pr_callers := (pr_callers p)[k := w], pr_budget := b, pr_now := pr_now p\<rparr>)"

definition arrivals :: process where
  "arrivals = at_rest\<lparr>pr_callers := [Calling (v7 1) ''project'', Calling (v7 1) ''project'', Calling (v7 1) ''project'']\<rparr>"

definition crowded :: process where
  "crowded = take_turn 2 (take_turn 1 (take_turn 0 arrivals))"

definition limited_once :: process where
  "limited_once = crowded\<lparr>pr_budget := postpone 0 ''project'' second (pr_budget crowded), pr_set := [(''project'', second)]\<rparr>"

definition freed :: process where
  "freed = (case finish second (pr_callers limited_once ! 0) (pr_budget limited_once) of (w, b) \<Rightarrow>
     limited_once\<lparr>pr_callers := (pr_callers limited_once)[0 := w], pr_budget := b, pr_now := second\<rparr>)"

lemma take_turn_step: "k < length (pr_callers p) \<Longrightarrow> turn_step p (take_turn k p)"
  using turn_step.turns [of k p "pr_now p" False] by (auto simp: take_turn_def split: prod.splits)

lemma length_take_turn [simp]: "length (pr_callers (take_turn k p)) = length (pr_callers p)"
  by (simp add: take_turn_def split: prod.splits)

lemma crowded_reachable: "turn_step\<^sup>*\<^sup>* at_rest crowded"
proof -
  have "turn_step\<^sup>*\<^sup>* at_rest arrivals"
    using turn_step.arrive [of at_rest "v7 1" "''project''"] turn_step.arrive [of "at_rest\<lparr>pr_callers := [Calling (v7 1) ''project'']\<rparr>" "v7 1" "''project''"]
      turn_step.arrive [of "at_rest\<lparr>pr_callers := [Calling (v7 1) ''project'', Calling (v7 1) ''project'']\<rparr>" "v7 1" "''project''"]
    by (simp add: arrivals_def at_rest_def)
  moreover have "turn_step\<^sup>*\<^sup>* arrivals crowded"
    using take_turn_step [of 0 arrivals] take_turn_step [of 1 "take_turn 0 arrivals"] take_turn_step [of 2 "take_turn 1 (take_turn 0 arrivals)"]
    by (simp add: crowded_def arrivals_def)
  ultimately show ?thesis by (rule rtranclp_trans)
qed

lemma crowded_values: "map_of (bu_cooldowns (pr_budget crowded)) ''project'' \<noteq> None" "pr_now crowded = 0" "pr_set crowded = []"
    "cnt (holding (v7 1)) (pr_callers crowded) = 2"
  by code_simp+

lemma limited_once_reachable: "turn_step\<^sup>*\<^sup>* at_rest limited_once"
  using crowded_reachable turn_step.limited [of crowded "''project''" second] crowded_values
  by (simp add: limited_once_def)

lemma freed_reachable: "turn_step\<^sup>*\<^sup>* at_rest freed"
proof -
  obtain w b where f: "finish second (pr_callers limited_once ! 0) (pr_budget limited_once) = (w, b)" by fastforce
  let ?t = "limited_once\<lparr>pr_now := second\<rparr>"
  have "pr_now limited_once = 0" "0 < length (pr_callers limited_once)" by code_simp+
  then have "turn_step limited_once ?t" "turn_step ?t (?t\<lparr>pr_callers := (pr_callers ?t)[0 := w], pr_budget := b\<rparr>)"
    using turn_step.tick [of limited_once second] turn_step.return [of 0 ?t w b] f less_imp_le [OF time_units_pos(1)] by auto
  moreover have "?t\<lparr>pr_callers := (pr_callers ?t)[0 := w], pr_budget := b\<rparr> = freed" using f by (simp add: freed_def)
  ultimately show ?thesis using limited_once_reachable by (metis rtranclp.rtrancl_into_rtrancl)
qed

lemma freed_values: "(''project'', second) \<in> set (pr_set freed)" "2 < length (pr_callers freed)" "pr_now freed = second"
    "pr_callers freed ! 2 = Waiting (v7 1) ''project'' 0 1 0 (30 * second)" "admissible second 0 1 (pr_budget freed)"
    "fst (acquire False second second (pr_callers freed ! 2) (pr_budget freed)) = Holding (v7 1) ''project'' 0 1"
  by code_simp+

text \<open>
  C30: However callers arrive, wait, give up, return and report rate limits, no connection ever has more than two calls in
  progress and neither table exceeds a thousand entries; once every caller has returned no connection entry is left.
\<close>

theorem budget_bounds_concurrency:
  assumes "turn_step\<^sup>*\<^sup>* at_rest p"
  shows "cnt (holding connection) (pr_callers p) \<le> 2 \<and> length (bu_connections (pr_budget p)) \<le> 1000 \<and> length (bu_cooldowns (pr_budget p)) \<le> 1000
     \<and> ((\<forall>w \<in> set (pr_callers p). \<exists>r. w = Returned r) \<longrightarrow> bu_connections (pr_budget p) = [])"
proof -
  have ok: "tables_ok (pr_callers p) (pr_budget p)" using budget.reachable [OF assms budget_inv_at_rest] by (simp add: budget_inv_def)
  have "cnt (holding connection) (pr_callers p) \<le> 2"
  proof (cases "map_of (bu_connections (pr_budget p)) connection")
    case None
    have "\<not> holding connection w" if "w \<in> set (pr_callers p)" for w
      using ok that None by (cases w) (force simp: tables_ok_def map_of_eq_None_iff)+
    then show ?thesis by (simp add: cnt_def filter_empty_conv)
  next
    case (Some a)
    have "holds_at a w" if "w \<in> set (pr_callers p)" "holding connection w" for w
    proof -
      have "in_tables (pr_budget p) w" "one_to_one (bu_next (pr_budget p)) (bu_connections (pr_budget p))" using ok that by (auto simp: tables_ok_def)
      with that(2) Some show ?thesis by (cases w) (auto simp: one_to_one_map_of)
    qed
    then have "filter (holding connection) (pr_callers p) = filter (\<lambda>w. holds_at a w \<and> holding connection w) (pr_callers p)"
      by (intro filter_cong) auto
    then have "cnt (holding connection) (pr_callers p) \<le> cnt (holds_at a) (pr_callers p)"
      by (metis cnt_def filter_filter length_filter_le)
    moreover have "a \<in> snd ` set (bu_connections (pr_budget p))" using map_of_SomeD [OF Some] by force
    ultimately show ?thesis using ok unfolding tables_ok_def slots_ok_def by (meson order_trans)
  qed
  moreover have "bu_connections (pr_budget p) = []" if r: "\<forall>w \<in> set (pr_callers p). \<exists>r. w = Returned r"
  proof -
    have "cnt (at_slots a) (pr_callers p) = 0" for a using r by (auto simp: cnt_def filter_empty_conv)
    then have "snd ` set (bu_connections (pr_budget p)) = {}" using ok unfolding tables_ok_def slots_ok_def by fastforce
    then show ?thesis by simp
  qed
  ultimately show ?thesis using ok by (simp add: tables_ok_def)
qed

theorem budget_bounds_concurrency_witness:
  "cnt (holding (v7 1)) (pr_callers crowded) = 2 \<and> length (bu_connections (pr_budget crowded)) \<le> 1000"
  using budget_bounds_concurrency [OF crowded_reachable, of "v7 1"] crowded_values(4) by simp

text \<open>
  A cooldown is respected by every connection that shares the quota scope: a call that is admitted after a rate limit was
  reported for its scope is admitted at or after the instant the limit asked to wait for.
\<close>

theorem cooldown_is_respected:
  assumes "turn_step\<^sup>*\<^sup>* at_rest p" "(scope, until) \<in> set (pr_set p)" "k < length (pr_callers p)" "\<not> holding c (pr_callers p ! k)"
    and "acquire cancelled (pr_now p) later (pr_callers p ! k) (pr_budget p) = (Holding c scope a q, b')"
  shows "until \<le> pr_now p"
proof -
  let ?b = "pr_budget p"
  have inv: "budget_inv p" by (rule budget.reachable [OF assms(1) budget_inv_at_rest])
  then have ok: "tables_ok (pr_callers p) ?b" and co: "cooldowns_ok (pr_now p) (pr_set p) ?b" by (auto simp: budget_inv_def)
  have open1: "until \<le> pr_now p" if "tables_ok cs b1" "cooldowns_ok (pr_now p) (pr_set p) b1" "(scope, q) \<in> set (bu_cooldowns b1)"
      "attempt cancelled (pr_now p) later c scope a q b1 = (b', Admitted)" for cs b1
    using that tables_scope [OF that(1,3)] assms(2) by (fastforce simp: attempt_def admissible_def cooldowns_ok_def split: if_splits)
  show ?thesis
  proof (cases "pr_callers p ! k")
    case (Calling c1 s1)
    with assms(5) obtain b1 where e: "enter (pr_now p) c scope ?b = (b1, Some (a, q))" and at: "attempt cancelled (pr_now p) later c scope a q b1 = (b', Admitted)"
      and cs: "pr_callers p ! k = Calling c scope"
      by (auto simp: after_turn_def split: prod.splits option.splits turn.splits)
    have ok1: "tables_ok ((pr_callers p)[k := Waiting c scope a q 0 0]) b1" by (rule tables_ok_enter [OF ok assms(3) cs e])
    have "in_tables b1 (Waiting c scope a q 0 0)" using tables_callerD [OF ok1, of k] assms(3) by simp
    moreover have "cooldowns_ok (pr_now p) (pr_set p) b1" using cooldowns_ok_step [OF co] enter_effect [OF ok e] by blast
    ultimately show ?thesis using open1 [OF ok1 _ _ at] by simp
  next
    case (Waiting c1 s1 a1 q1 ch u)
    with assms(5) have at: "attempt cancelled (pr_now p) later c scope a q ?b = (b', Admitted)" and cs: "pr_callers p ! k = Waiting c scope a q ch u"
      by (auto simp: after_turn_def split: prod.splits turn.splits)
    with tables_callerD [OF ok assms(3)] open1 [OF ok co _ at] show ?thesis by simp
  qed (use assms(4,5) in auto)
qed

theorem cooldown_is_respected_witness: "second \<le> pr_now freed"
proof -
  obtain b where "acquire False (pr_now freed) second (pr_callers freed ! 2) (pr_budget freed) = (Holding (v7 1) ''project'' 0 1, b)"
    using freed_values(6) unfolding freed_values(3) by (metis prod.collapse)
  moreover have "\<not> holding (v7 1) (pr_callers freed ! 2)" by (simp add: freed_values(4))
  ultimately show ?thesis using cooldown_is_respected [OF freed_reachable freed_values(1,2)] by blast
qed

text \<open>
  C31: No wake-up is lost: as soon as a waiting caller could be admitted, its channel has been closed or its timer is due, and
  the turn it then takes admits it.
\<close>

theorem no_lost_wakeup:
  assumes "turn_step\<^sup>*\<^sup>* at_rest p" "k < length (pr_callers p)" "pr_callers p ! k = Waiting c s a q ch u" "admissible (pr_now p) a q (pr_budget p)"
  shows "(ch < bu_changed (pr_budget p) \<or> u \<le> pr_now p)
     \<and> fst (acquire False (pr_now p) later (pr_callers p ! k) (pr_budget p)) = Holding c s a q"
proof -
  have "waits_ok (pr_budget p) (pr_callers p ! k)"
    using budget.reachable [OF assms(1) budget_inv_at_rest] assms(2) by (simp add: budget_inv_def)
  with assms(3,4) show ?thesis by (auto simp: admissible_def attempt_def after_turn_def)
qed

theorem no_lost_wakeup_witness:
  "0 < bu_changed (pr_budget freed) \<or> 30 * second \<le> pr_now freed"
  using no_lost_wakeup [OF freed_reachable freed_values(2,4)] freed_values(5) by (simp add: freed_values(3))

end
