(* ===== verification/Sama_Outbound.thy ===== *)
theory Sama_Outbound
  imports Sama_Budget Sama_Intent
begin

text \<open>
  The confinement of provider traffic in \<^verbatim>\<open>internal/platform/outbound\<close> and its shared use in
  \<^verbatim>\<open>internal/provider/power.go\<close>: which addresses may be dialled, which URLs a profile admits, how long a rate
  limit makes callers wait, how often a request is sent, and how a mutation's answer is classified.
\<close>

unbundle bit_operations_syntax

section \<open>Addresses\<close>

text \<open>
  \<^verbatim>\<open>netip.Addr\<close>: the zero value, an IPv4 address, or an IPv6 address with its zone.
\<close>

datatype addr = NoAddr | V4 "32 word" | V6 "128 word" string

text \<open>\<^verbatim>\<open>Unmap\<close> turns \<^verbatim>\<open>::ffff:a.b.c.d\<close> into its IPv4 address, whatever its zone.\<close>

fun Unmap :: "addr \<Rightarrow> addr" where
  "Unmap (V6 w z) = (if drop_bit 32 w = 0xffff then V4 (ucast w) else V6 w z)"
| "Unmap a = a"

text \<open>\<^verbatim>\<open>Prefix.Contains\<close>: the leading bits agree; a zoned address is in no prefix.\<close>

definition in4 :: "32 word \<Rightarrow> nat \<Rightarrow> 32 word \<Rightarrow> bool" where
  "in4 p n w \<longleftrightarrow> drop_bit (32 - n) w = drop_bit (32 - n) p"

definition in6 :: "128 word \<Rightarrow> nat \<Rightarrow> 128 word \<Rightarrow> bool" where
  "in6 p n w \<longleftrightarrow> drop_bit (128 - n) w = drop_bit (128 - n) p"

text \<open>\<^verbatim>\<open>a.b.c.d\<close>, and an IPv6 address from its two leading groups.\<close>

definition ip4 :: "nat \<Rightarrow> nat \<Rightarrow> nat \<Rightarrow> nat \<Rightarrow> 32 word" where
  "ip4 a b c d = of_nat (((a * 256 + b) * 256 + c) * 256 + d)"

definition ip6 :: "nat \<Rightarrow> nat \<Rightarrow> 128 word" where
  "ip6 a b = of_nat ((a * 65536 + b) * 2 ^ 96)"

fun IsLoopback :: "addr \<Rightarrow> bool" where
  "IsLoopback (V4 w) = in4 (ip4 127 0 0 0) 8 w" | "IsLoopback (V6 w z) = (w = 1 \<and> z = [])" | "IsLoopback NoAddr = False"

fun IsMulticast :: "addr \<Rightarrow> bool" where
  "IsMulticast (V4 w) = in4 (ip4 224 0 0 0) 4 w" | "IsMulticast (V6 w z) = in6 (ip6 0xff00 0) 8 w" | "IsMulticast NoAddr = False"

fun IsLinkLocalUnicast :: "addr \<Rightarrow> bool" where
  "IsLinkLocalUnicast (V4 w) = in4 (ip4 169 254 0 0) 16 w" | "IsLinkLocalUnicast (V6 w z) = in6 (ip6 0xfe80 0) 10 w" | "IsLinkLocalUnicast NoAddr = False"

fun IsPrivate :: "addr \<Rightarrow> bool" where
  "IsPrivate (V4 w) = (in4 (ip4 10 0 0 0) 8 w \<or> in4 (ip4 172 16 0 0) 12 w \<or> in4 (ip4 192 168 0 0) 16 w)"
| "IsPrivate (V6 w z) = in6 (ip6 0xfc00 0) 7 w" | "IsPrivate NoAddr = False"

definition IsGlobalUnicast :: "addr \<Rightarrow> bool" where
  "IsGlobalUnicast a \<longleftrightarrow> a \<noteq> NoAddr \<and> a \<noteq> V4 0 \<and> a \<noteq> V4 (ip4 255 255 255 255) \<and> a \<noteq> V6 0 []
     \<and> \<not> IsLoopback a \<and> \<not> IsMulticast a \<and> \<not> IsLinkLocalUnicast a"

definition deniedRanges4 :: "(32 word \<times> nat) list" where
  "deniedRanges4 = [(ip4 0 0 0 0, 8), (ip4 100 64 0 0, 10), (ip4 192 0 0 0, 24), (ip4 192 0 2 0, 24), (ip4 192 88 99 0, 24),
     (ip4 198 18 0 0, 15), (ip4 198 51 100 0, 24), (ip4 203 0 113 0, 24), (ip4 240 0 0 0, 4)]"

definition deniedRanges6 :: "(128 word \<times> nat) list" where
  "deniedRanges6 = [(ip6 0x2001 0, 23), (ip6 0x2001 0xdb8, 32), (ip6 0x2002 0, 16), (ip6 0x3fff 0, 20)]"

fun Zone :: "addr \<Rightarrow> string" where
  "Zone (V6 w z) = z" | "Zone _ = []"

fun denied :: "addr \<Rightarrow> bool" where
  "denied (V4 w) = list_ex (\<lambda>(p, n). in4 p n w) deniedRanges4"
| "denied (V6 w z) = (z = [] \<and> list_ex (\<lambda>(p, n). in6 p n w) deniedRanges6)"
| "denied NoAddr = False"

definition publicAddress :: "addr \<Rightarrow> bool" where
  "publicAddress a = (let ip = Unmap a in
     if ip = NoAddr \<or> Zone ip \<noteq> [] \<or> \<not> IsGlobalUnicast ip \<or> IsPrivate ip \<or> IsLoopback ip \<or> IsLinkLocalUnicast ip then False
     else if (case ip of V6 w z \<Rightarrow> \<not> (z = [] \<and> in6 (ip6 0x2000 0) 3 w) | _ \<Rightarrow> False) then False
     else \<not> denied ip)"

text \<open>
  \<open>safeDial\<close>: \<open>address\<close> is what \<^verbatim>\<open>net.SplitHostPort\<close> gives, \<open>resolved\<close> the resolver's answer, \<open>cancelled k\<close> whether
  the context is done before attempt \<open>k\<close>, and \<open>dial\<close> the dialler. The result is the connection with the address it is to.
\<close>

fun dial_each :: "nat \<Rightarrow> (nat \<Rightarrow> bool) \<Rightarrow> (addr \<Rightarrow> 'c option) \<Rightarrow> addr list \<Rightarrow> err + (addr \<times> 'c)" where
  "dial_each k cancelled dial [] = Inl OutErrNetwork"
| "dial_each k cancelled dial (ip # ips) = (if cancelled k then Inl OutErrNetwork
     else (case dial (Unmap ip) of Some c \<Rightarrow> Inr (Unmap ip, c) | None \<Rightarrow> dial_each (k + 1) cancelled dial ips))"

definition safeDial :: "string \<Rightarrow> string \<Rightarrow> (string \<times> string) option \<Rightarrow> addr list option \<Rightarrow> (nat \<Rightarrow> bool) \<Rightarrow> (addr \<Rightarrow> 'c option) \<Rightarrow> err + (addr \<times> 'c)" where
  "safeDial host network address resolved cancelled dial = (case address of None \<Rightarrow> Inl OutErrNetwork
     | Some (name, port) \<Rightarrow>
         if name \<noteq> host \<or> port \<noteq> ''443'' \<or> network \<noteq> ''tcp'' then Inl OutErrNetwork
         else (case resolved of None \<Rightarrow> Inl OutErrNetwork
           | Some ips \<Rightarrow> if ips = [] \<or> length ips > 32 then Inl OutErrNetwork
               else if list_ex (\<lambda>ip. \<not> publicAddress ip) ips then Inl OutErrNetwork
               else dial_each 0 cancelled dial ips))"

section \<open>Endpoint profiles\<close>

text \<open>The parts of a parsed \<^verbatim>\<open>url.URL\<close> that \<open>validate\<close> looks at.\<close>

record url =
  ur_Scheme :: string
  ur_Opaque :: string
  ur_User :: bool
  ur_Hostname :: string
  ur_Port :: string
  ur_Path :: string
  ur_RawPath :: string
  ur_ForceQuery :: bool
  ur_RawQuery :: string
  ur_Fragment :: string

record profile =
  pf_host :: string
  pf_prefix :: string
  pf_exact :: bool

definition HetznerCloud :: profile where
  "HetznerCloud = \<lparr>pf_host = ''api.hetzner.cloud'', pf_prefix = ''/v1'', pf_exact = False\<rparr>"

definition DigitalOcean :: profile where
  "DigitalOcean = \<lparr>pf_host = ''api.digitalocean.com'', pf_prefix = ''/v2'', pf_exact = False\<rparr>"

definition Vultr :: profile where
  "Vultr = \<lparr>pf_host = ''api.vultr.com'', pf_prefix = ''/v2'', pf_exact = False\<rparr>"

definition Contabo :: profile where
  "Contabo = \<lparr>pf_host = ''api.contabo.com'', pf_prefix = ''/v1'', pf_exact = False\<rparr>"

definition ContaboAuth :: profile where
  "ContaboAuth = \<lparr>pf_host = ''auth.contabo.com'', pf_prefix = ''/auth/realms/contabo/protocol/openid-connect/token'', pf_exact = False\<rparr>"

definition NetcupLegacyDNS :: profile where
  "NetcupLegacyDNS = \<lparr>pf_host = ''ccp.netcup.net'', pf_prefix = ''/run/webservice/servers/endpoint.php'', pf_exact = True\<rparr>"

text \<open>
  \<^verbatim>\<open>path.Clean\<close>: elements are taken from left to right; empty ones and \<^verbatim>\<open>.\<close> vanish, \<^verbatim>\<open>..\<close> removes the element
  before it, or stays where there is none to remove and the path is not rooted.
\<close>

fun clean_step :: "bool \<Rightarrow> string list \<Rightarrow> string list \<Rightarrow> string list" where
  "clean_step rooted out [] = rev out"
| "clean_step rooted out (e # es) =
     (if e = [] \<or> e = ''.'' then clean_step rooted out es
      else if e = ''..'' then (case out of [] \<Rightarrow> clean_step rooted (if rooted then [] else [''..'']) es
        | o1 # out' \<Rightarrow> if o1 = ''..'' then clean_step rooted (''..'' # out) es else clean_step rooted out' es)
      else clean_step rooted (e # out) es)"

fun join_slash :: "string list \<Rightarrow> string" where
  "join_slash [] = []" | "join_slash [e] = e" | "join_slash (e # es) = e @ ''/'' @ join_slash es"

definition path_Clean :: "string \<Rightarrow> string" where
  "path_Clean p = (let rooted = (p \<noteq> [] \<and> hd p = CHR ''/''); es = clean_step rooted [] (split_slash p) in
     if rooted then ''/'' @ join_slash es else if es = [] then ''.'' else join_slash es)"

definition has_prefix :: "string \<Rightarrow> string \<Rightarrow> bool" where
  "has_prefix p s \<longleftrightarrow> take (length p) s = p"

definition profile_validate :: "profile \<Rightarrow> url \<Rightarrow> bool" where
  "profile_validate p u \<longleftrightarrow>
     \<not> (pf_host p = [] \<or> pf_prefix p = [] \<or> ur_Scheme u \<noteq> ''https'' \<or> ur_Opaque u \<noteq> [] \<or> ur_User u \<or> ur_Fragment u \<noteq> []
        \<or> ur_Hostname u \<noteq> pf_host p \<or> ur_Port u \<noteq> [] \<and> ur_Port u \<noteq> ''443'')
     \<and> \<not> (ur_RawPath u \<noteq> [] \<or> list_ex (\<lambda>c. c = CHR 0x5c \<or> c = CHR 0x00) (ur_Path u) \<or> path_Clean (ur_Path u) \<noteq> ur_Path u
        \<or> ur_Path u \<noteq> pf_prefix p \<and> \<not> has_prefix (pf_prefix p @ ''/'') (ur_Path u))
     \<and> \<not> (pf_exact p \<and> (ur_Path u \<noteq> pf_prefix p \<or> ur_RawQuery u \<noteq> ''JSON'' \<or> ur_ForceQuery u))"

text \<open>\<^verbatim>\<open>confinedTransport.RoundTrip\<close>: \<open>host\<close> is the request's \<^verbatim>\<open>Host\<close>, \<open>url_host\<close> the URL's.\<close>

definition confined_RoundTrip :: "profile \<Rightarrow> url \<Rightarrow> string \<Rightarrow> string \<Rightarrow> (url \<Rightarrow> err + 'r) \<Rightarrow> (err + 'r) \<times> bool" where
  "confined_RoundTrip p u host url_host transport =
     (if \<not> profile_validate p u \<or> host \<noteq> [] \<and> host \<noteq> url_host then (Inl OutErrEndpoint, False) else (transport u, True))"

section \<open>Rate limits\<close>

text \<open>\<^verbatim>\<open>strconv.ParseInt(s, 10, 64)\<close>.\<close>

definition digit :: "char \<Rightarrow> bool" where
  "digit c \<longleftrightarrow> CHR ''0'' \<le> c \<and> c \<le> CHR ''9''"

definition digits_value :: "string \<Rightarrow> int" where
  "digits_value s = foldl (\<lambda>v c. 10 * v + int (of_char c - 48)) 0 s"

definition ParseInt64 :: "string \<Rightarrow> int option" where
  "ParseInt64 s = (let neg = (s \<noteq> [] \<and> hd s = CHR ''-''); ds = (if s \<noteq> [] \<and> (hd s = CHR ''-'' \<or> hd s = CHR ''+'') then tl s else s) in
     if ds = [] \<or> \<not> list_all digit ds then None
     else (let v = (if neg then - digits_value ds else digits_value ds) in if - (2 ^ 63) \<le> v \<and> v < 2 ^ 63 then Some v else None))"

text \<open>\<^verbatim>\<open>Time.Sub\<close> saturates at the range of a \<^verbatim>\<open>time.Duration\<close>; \<^verbatim>\<open>Time.Unix\<close> counts seconds from 1970.\<close>

definition time_Sub :: "time \<Rightarrow> time \<Rightarrow> int" where
  "time_Sub a b = max (- (2 ^ 63)) (min (2 ^ 63 - 1) (a - b))"

definition unix_epoch :: time where
  "unix_epoch = 62135596800 * second"

definition time_Unix :: "time \<Rightarrow> int" where
  "time_Unix t = (t - unix_epoch) div second"

text \<open>
  The headers are given by \<^verbatim>\<open>header.Get\<close> of the two names; \<open>parse_time\<close> is \<^verbatim>\<open>http.ParseTime\<close>.
\<close>

definition retryAfter :: "(string \<Rightarrow> time option) \<Rightarrow> string \<Rightarrow> string \<Rightarrow> time \<Rightarrow> int" where
  "retryAfter parse_time retry reset now =
     (let delay = (case ParseInt64 retry of
            Some s \<Rightarrow> if s \<ge> 0 then min s 3600 * second else (case parse_time retry of Some date \<Rightarrow> time_Sub date now | None \<Rightarrow> second)
          | None \<Rightarrow> (case parse_time retry of Some date \<Rightarrow> time_Sub date now | None \<Rightarrow> second));
        delay = (case ParseInt64 reset of
            Some s \<Rightarrow> if s > time_Unix now \<and> s - time_Unix now < 3600 then max delay (time_Sub (unix_epoch + s * second) now) else delay
          | None \<Rightarrow> delay) in
      if delay < 0 then 0 else if delay > hour then hour else delay)"

text \<open>\<^verbatim>\<open>budgetTransport.RoundTrip\<close>: a request inside a \<open>Call\<close> with the same budget, connection and scope reuses its slot.\<close>

record reservation =
  rv_budget :: nat
  rv_connection :: uuid
  rv_scope :: string

definition reuses_slot :: "reservation option \<Rightarrow> reservation \<Rightarrow> bool" where
  "reuses_slot reserved t \<longleftrightarrow> reserved = Some t"

definition after_response :: "(string \<Rightarrow> time option) \<Rightarrow> time \<Rightarrow> reservation \<Rightarrow> int \<Rightarrow> string \<Rightarrow> string \<Rightarrow> budget \<Rightarrow> budget" where
  "after_response parse_time now t status retry reset b =
     (if status = 429 then postpone now (rv_scope t) (retryAfter parse_time retry reset now) b else b)"

section \<open>RequestJSON\<close>

text \<open>
  One exchange: no response, or a status with the body (\<open>None\<close> where it cannot be read) and the wait its headers ask for.
  \<open>rq_done\<close> says whether the context is done after it, \<open>rq_wait\<close> whether waiting for the next attempt was interrupted,
  \<open>rq_jitter\<close> the random delay.
\<close>

datatype exchange = NoResponse | Response int "string option" int

record round =
  rq_exchange :: exchange
  rq_done :: bool
  rq_wait :: bool
  rq_jitter :: int

record failure =
  fa_Code :: string
  fa_RetryAfter :: int

definition failed :: "string \<Rightarrow> failure" where
  "failed code = \<lparr>fa_Code = code, fa_RetryAfter = 0\<rparr>"

definition maxMetadataBytes :: nat where
  "maxMetadataBytes = 8 * 1024 * 1024"

datatype verdict = Final "failure + unit" | Retry failure

definition judge :: "(string \<Rightarrow> bool) \<Rightarrow> exchange \<Rightarrow> verdict" where
  "judge decodes x = (case x of NoResponse \<Rightarrow> Retry (failed ''provider_unavailable'')
     | Response status body after \<Rightarrow>
         if status = 401 \<or> status = 403 then Final (Inl (failed ''provider_permission_denied''))
         else (case body of None \<Rightarrow> Retry (failed ''provider_unavailable'')
           | Some data \<Rightarrow>
               if length data > maxMetadataBytes then Final (Inl (failed ''provider_response_invalid''))
               else if 200 \<le> status \<and> status < 300 then
                 (if \<not> decodes data then Final (Inl (failed ''provider_response_invalid'')) else Final (Inr ()))
               else if status = 429 then Retry \<lparr>fa_Code = ''provider_rate_limited'', fa_RetryAfter = after\<rparr>
               else if status \<ge> 500 then Retry (failed ''provider_unavailable'')
               else Final (Inl (failed ''provider_rejected''))))"

text \<open>The attempts with the waits between them: the outcome, the number of requests sent and the delays waited for.\<close>

fun request_loop :: "(string \<Rightarrow> bool) \<Rightarrow> (nat \<Rightarrow> round) \<Rightarrow> nat \<Rightarrow> nat \<Rightarrow> (failure + unit) \<times> nat \<times> int list" where
  "request_loop decodes env k 0 = (Inl (failed ''provider_unavailable''), 0, [])"
| "request_loop decodes env k (Suc left) = (case judge decodes (rq_exchange (env k)) of
       Final r \<Rightarrow> (r, 1, [])
     | Retry f \<Rightarrow>
         if left = 0 \<or> rq_done (env k) then (Inl f, 1, [])
         else (let delay = max (rq_jitter (env k)) (fa_RetryAfter f) in
           if rq_wait (env k) then (Inl (failed ''provider_unavailable''), 1, [delay])
           else (case request_loop decodes env (k + 1) left of (r, sent, ds) \<Rightarrow> (r, sent + 1, delay # ds))))"

definition attempts_for :: "string \<Rightarrow> nat" where
  "attempts_for verb = (if verb = ''GET'' \<or> verb = ''HEAD'' then 5 else 1)"

definition RequestJSON :: "(string \<Rightarrow> bool) \<Rightarrow> string \<Rightarrow> (nat \<Rightarrow> round) \<Rightarrow> (failure + unit) \<times> nat \<times> int list" where
  "RequestJSON decodes verb env = request_loop decodes env 0 (attempts_for verb)"

section \<open>Mutations\<close>

text \<open>
  \<open>PostMutation\<close>: \<open>url\<close> is the parsed address, \<open>None\<close> where it does not parse. \<^verbatim>\<open>mutationStatus\<close> remembers the status
  of the only exchange; \<open>0\<close> is no response. The errors it returns are \<open>Inl\<close> with the receipt's outcome.
\<close>

definition exchange_status :: "exchange \<Rightarrow> int" where
  "exchange_status x = (case x of NoResponse \<Rightarrow> 0 | Response status _ _ \<Rightarrow> status)"

datatype mutation_error = BadBinding | BadEndpoint | Upstream failure

definition PostMutation :: "binding \<Rightarrow> binding \<Rightarrow> profile \<Rightarrow> bool \<Rightarrow> url option \<Rightarrow> string \<Rightarrow> (string \<Rightarrow> bool) \<Rightarrow> (nat \<Rightarrow> round)
    \<Rightarrow> string \<times> mutation_error option \<times> nat" where
  "PostMutation b expected p client u token decodes env =
     (if b \<noteq> expected \<or> \<not> client \<or> token = [] then ([], Some BadBinding, 0)
      else (case u of None \<Rightarrow> ([], Some BadEndpoint, 0)
        | Some v \<Rightarrow> if \<not> profile_validate p v then ([], Some BadEndpoint, 0)
            else (case RequestJSON decodes ''POST'' env of
                (Inr _, sent, _) \<Rightarrow> (''ambiguous'', None, sent)
              | (Inl f, sent, _) \<Rightarrow>
                  if exchange_status (rq_exchange (env 0)) \<in> {400, 401, 403, 404, 409, 422} then (''rejected'', None, sent)
                  else (''ambiguous'', Some (Upstream f), sent))))"

section \<open>Addresses against a reference\<close>

text \<open>The special-use ranges as intervals of addresses, from the registries the code refers to.\<close>

definition special4 :: "(nat \<times> nat) list" where
  "special4 = [(0x00000000, 0x00ffffff), (0x0a000000, 0x0affffff), (0x64400000, 0x647fffff), (0x7f000000, 0x7fffffff), (0xa9fe0000, 0xa9feffff),
     (0xac100000, 0xac1fffff), (0xc0000000, 0xc00000ff), (0xc0000200, 0xc00002ff), (0xc0586300, 0xc05863ff), (0xc0a80000, 0xc0a8ffff),
     (0xc6120000, 0xc613ffff), (0xc6336400, 0xc63364ff), (0xcb007100, 0xcb0071ff), (0xe0000000, 0xefffffff), (0xf0000000, 0xffffffff)]"

lemma in4_iff: "n \<le> 32 \<Longrightarrow> in4 p n w \<longleftrightarrow> unat w div 2 ^ (32 - n) = unat p div 2 ^ (32 - n)"
  unfolding in4_def word_unat_eq_iff unat_drop_bit_eq by (simp add: drop_bit_eq_div)

lemma in6_iff: "n \<le> 128 \<Longrightarrow> in6 p n w \<longleftrightarrow> unat w div 2 ^ (128 - n) = unat p div 2 ^ (128 - n)"
  unfolding in6_def word_unat_eq_iff unat_drop_bit_eq by (simp add: drop_bit_eq_div)

lemma div_interval: "0 < (k::nat) \<Longrightarrow> x div k = c \<longleftrightarrow> c * k \<le> x \<and> x < c * k + k"
  by (metis add.commute div_nat_eqI dividend_less_times_div less_eq_div_iff_mult_less_eq mult.commute mult_Suc_right order_refl)

lemma unat_ip4: "a < 256 \<Longrightarrow> b < 256 \<Longrightarrow> c < 256 \<Longrightarrow> d < 256 \<Longrightarrow> unat (ip4 a b c d) = ((a * 256 + b) * 256 + c) * 256 + d"
  unfolding ip4_def unat_of_nat by (rule mod_less) simp

lemma unat_ip6: "a < 65536 \<Longrightarrow> b < 65536 \<Longrightarrow> unat (ip6 a b) = (a * 65536 + b) * 2 ^ 96"
  unfolding ip6_def unat_of_nat by (rule mod_less) simp

definition special6 :: "(nat \<times> nat) list" where
  "special6 = [(0, 0x20000000000000000000000000000000 - 1),
     (0x20010000000000000000000000000000, 0x200101ffffffffffffffffffffffffff), (0x20010db8000000000000000000000000, 0x20010db8ffffffffffffffffffffffff),
     (0x20020000000000000000000000000000, 0x2002ffffffffffffffffffffffffffff), (0x3fff0000000000000000000000000000, 0x3fff0fffffffffffffffffffffffffff),
     (0x40000000000000000000000000000000, 0xffffffffffffffffffffffffffffffff)]"

definition within :: "nat \<Rightarrow> nat \<Rightarrow> nat \<Rightarrow> bool" where
  "within lo hi n \<longleftrightarrow> lo \<le> n \<and> n \<le> hi"

definition outside :: "(nat \<times> nat) list \<Rightarrow> nat \<Rightarrow> bool" where
  "outside rs n \<longleftrightarrow> \<not> list_ex (\<lambda>(lo, hi). within lo hi n) rs"

fun public_reference :: "addr \<Rightarrow> bool" where
  "public_reference (V4 w) = outside special4 (unat w)"
| "public_reference (V6 w z) = (z = [] \<and> outside special6 (unat w))"
| "public_reference NoAddr = False"

lemma within_intro: "0 < k \<Longrightarrow> lo = c * k \<Longrightarrow> hi = lo + (k - 1) \<Longrightarrow> (n div k = c) = within lo hi (n :: nat)"
  by (auto simp: div_interval within_def)

lemma ranges4:
  fixes w :: "32 word"
  shows "in4 (ip4 0 0 0 0) 8 w = within 0 16777215 (unat w)"
    and "in4 (ip4 10 0 0 0) 8 w = within 167772160 184549375 (unat w)"
    and "in4 (ip4 100 64 0 0) 10 w = within 1681915904 1686110207 (unat w)"
    and "in4 (ip4 127 0 0 0) 8 w = within 2130706432 2147483647 (unat w)"
    and "in4 (ip4 169 254 0 0) 16 w = within 2851995648 2852061183 (unat w)"
    and "in4 (ip4 172 16 0 0) 12 w = within 2886729728 2887778303 (unat w)"
    and "in4 (ip4 192 0 0 0) 24 w = within 3221225472 3221225727 (unat w)"
    and "in4 (ip4 192 0 2 0) 24 w = within 3221225984 3221226239 (unat w)"
    and "in4 (ip4 192 88 99 0) 24 w = within 3227017984 3227018239 (unat w)"
    and "in4 (ip4 192 168 0 0) 16 w = within 3232235520 3232301055 (unat w)"
    and "in4 (ip4 198 18 0 0) 15 w = within 3323068416 3323199487 (unat w)"
    and "in4 (ip4 198 51 100 0) 24 w = within 3325256704 3325256959 (unat w)"
    and "in4 (ip4 203 0 113 0) 24 w = within 3405803776 3405804031 (unat w)"
    and "in4 (ip4 224 0 0 0) 4 w = within 3758096384 4026531839 (unat w)"
    and "in4 (ip4 240 0 0 0) 4 w = within 4026531840 4294967295 (unat w)"
  by (simp_all add: in4_iff unat_ip4 within_intro)

lemma ranges6:
  fixes w :: "128 word"
  shows "in6 (ip6 0xff00 0) 8 w = within 0xff000000000000000000000000000000 0xffffffffffffffffffffffffffffffff (unat w)"
    and "in6 (ip6 0xfe80 0) 10 w = within 0xfe800000000000000000000000000000 0xfebfffffffffffffffffffffffffffff (unat w)"
    and "in6 (ip6 0xfc00 0) 7 w = within 0xfc000000000000000000000000000000 0xfdffffffffffffffffffffffffffffff (unat w)"
    and "in6 (ip6 0x2000 0) 3 w = within 0x20000000000000000000000000000000 0x3fffffffffffffffffffffffffffffff (unat w)"
    and "in6 (ip6 0x2001 0) 23 w = within 0x20010000000000000000000000000000 0x200101ffffffffffffffffffffffffff (unat w)"
    and "in6 (ip6 0x2001 0xdb8) 32 w = within 0x20010db8000000000000000000000000 0x20010db8ffffffffffffffffffffffff (unat w)"
    and "in6 (ip6 0x2002 0) 16 w = within 0x20020000000000000000000000000000 0x2002ffffffffffffffffffffffffffff (unat w)"
    and "in6 (ip6 0x3fff 0) 20 w = within 0x3fff0000000000000000000000000000 0x3fff0fffffffffffffffffffffffffff (unat w)"
  by (simp_all add: in6_iff unat_ip6 within_intro)

lemma public4: "publicAddress (V4 w) \<longleftrightarrow> outside special4 (unat w)"
proof -
  have "w = 0 \<longrightarrow> within 0 0xffffff (unat w)" "w = ip4 255 255 255 255 \<longrightarrow> within 0xf0000000 0xffffffff (unat w)"
    by (auto simp: within_def unat_ip4)
  then show ?thesis
    by (auto simp: publicAddress_def Let_def IsGlobalUnicast_def deniedRanges4_def ranges4 outside_def special4_def)
qed

lemma public6: "drop_bit 32 w \<noteq> 0xffff \<Longrightarrow> publicAddress (V6 w z) \<longleftrightarrow> z = [] \<and> outside special6 (unat w)"
proof -
  assume mapped: "drop_bit 32 w \<noteq> 0xffff"
  let ?n = "unat w"
  have global: "within 0x20000000000000000000000000000000 0x3fffffffffffffffffffffffffffffff ?n
      \<longleftrightarrow> \<not> within 0 0x1fffffffffffffffffffffffffffffff ?n \<and> \<not> within 0x40000000000000000000000000000000 0xffffffffffffffffffffffffffffffff ?n"
    using unsigned_less [where 'a = nat, of w] by (auto simp: within_def)
  have others: "\<not> within 0xff000000000000000000000000000000 0xffffffffffffffffffffffffffffffff ?n"
      "\<not> within 0xfe800000000000000000000000000000 0xfebfffffffffffffffffffffffffffff ?n"
      "\<not> within 0xfc000000000000000000000000000000 0xfdffffffffffffffffffffffffffffff ?n" "w \<noteq> 0" "w \<noteq> 1"
    if "within 0x20000000000000000000000000000000 0x3fffffffffffffffffffffffffffffff ?n"
    using that by (auto simp: within_def)
  show ?thesis
    using mapped global others
    by (auto simp: publicAddress_def Let_def IsGlobalUnicast_def deniedRanges6_def ranges6 outside_def special6_def)
qed

lemma publicAddress_public_reference: "publicAddress a \<longleftrightarrow> public_reference (Unmap a)"
proof (cases a)
  case NoAddr
  then show ?thesis by (simp add: publicAddress_def)
next
  case (V4 w)
  then show ?thesis by (simp add: public4)
next
  case (V6 w z)
  moreover have "publicAddress (V6 w z) = publicAddress (V4 (ucast w))" if "drop_bit 32 w = 0xffff"
    using that by (simp add: publicAddress_def)
  ultimately show ?thesis by (simp add: public4 public6)
qed

text \<open>
  C35: an address may be dialled exactly when it lies outside every special-use interval of its family, an IPv4 address in
  IPv6 form being judged as the IPv4 address it stands for, and an IPv6 address only within \<^verbatim>\<open>2000::/3\<close> and without a zone:
  the code's list of predicates and prefixes agrees with the table of intervals on all addresses.
\<close>
theorem public_address_reference: "publicAddress a \<longleftrightarrow> public_reference (Unmap a)"
  by (rule publicAddress_public_reference)

section \<open>Dialling\<close>

lemma dial_each_Inr:
  "dial_each k cancelled dial ips = Inr (a, c) \<Longrightarrow> a \<in> Unmap ` set ips \<and> dial a = Some c"
  by (induction ips arbitrary: k) (auto split: if_splits option.splits)

lemma dial_each_reaches:
  "\<lbrakk>\<And>j. \<not> cancelled j; ip \<in> set ips; dial (Unmap ip) \<noteq> None\<rbrakk> \<Longrightarrow> \<exists>r. dial_each k cancelled dial ips = Inr r"
  by (induction ips arbitrary: k) (auto split: option.splits)

lemma safeDial_checks:
  assumes "safeDial host network address resolved cancelled dial = Inr r"
  obtains ips where "address = Some (host, ''443'')" "network = ''tcp''" "resolved = Some ips" "ips \<noteq> []" "length ips \<le> 32"
    "\<forall>ip \<in> set ips. publicAddress ip" "dial_each 0 cancelled dial ips = Inr r"
  using assms by (auto simp: safeDial_def list_ex_iff split: option.splits prod.splits if_splits)

text \<open>
  C36: a connection is only ever made over \<^verbatim>\<open>tcp\<close> to port 443 of the profile's own host, and to one of the addresses the
  resolver gave for it, in the form that was checked; every address of that answer lies outside the special-use
  intervals, so that one private address among them refuses the whole answer. Conversely an answer of 1 to 32 public addresses
  is dialled until one accepts.
\<close>
theorem safe_dial_is_confined:
  "(safeDial host network address resolved cancelled dial = Inr (a, c) \<longrightarrow>
      address = Some (host, ''443'') \<and> network = ''tcp'' \<and> dial a = Some c \<and> public_reference a
      \<and> (\<exists>ips. resolved = Some ips \<and> a \<in> Unmap ` set ips \<and> (\<forall>ip \<in> set ips. public_reference (Unmap ip))))
   \<and> ((\<forall>j. \<not> cancelled j) \<and> length ips \<le> 32 \<and> (\<forall>ip \<in> set ips. public_reference (Unmap ip)) \<and> (\<exists>ip \<in> set ips. dial (Unmap ip) \<noteq> None)
      \<longrightarrow> (\<exists>r. safeDial host ''tcp'' (Some (host, ''443'')) (Some ips) cancelled dial = Inr r))"
proof (rule conjI; rule impI)
  assume "safeDial host network address resolved cancelled dial = Inr (a, c)"
  then obtain ips where *: "address = Some (host, ''443'')" "network = ''tcp''" "resolved = Some ips"
      "\<forall>ip \<in> set ips. publicAddress ip" "dial_each 0 cancelled dial ips = Inr (a, c)"
    by (rule safeDial_checks)
  from dial_each_Inr [OF *(5)] * show "address = Some (host, ''443'') \<and> network = ''tcp'' \<and> dial a = Some c \<and> public_reference a
      \<and> (\<exists>ips. resolved = Some ips \<and> a \<in> Unmap ` set ips \<and> (\<forall>ip \<in> set ips. public_reference (Unmap ip)))"
    by (auto simp: publicAddress_public_reference)
next
  assume *: "(\<forall>j. \<not> cancelled j) \<and> length ips \<le> 32 \<and> (\<forall>ip \<in> set ips. public_reference (Unmap ip)) \<and> (\<exists>ip \<in> set ips. dial (Unmap ip) \<noteq> None)"
  then obtain ip where "ip \<in> set ips" "dial (Unmap ip) \<noteq> None" by blast
  with * dial_each_reaches [of cancelled ip ips dial 0]
  show "\<exists>r. safeDial host ''tcp'' (Some (host, ''443'')) (Some ips) cancelled dial = Inr r"
    by (auto simp: safeDial_def list_ex_iff publicAddress_public_reference)
qed

text \<open>Two public addresses, the first of which does not answer; and one private address beside a public one.\<close>
theorem safe_dial_is_confined_witness:
  "(\<exists>r. safeDial ''api.vultr.com'' ''tcp'' (Some (''api.vultr.com'', ''443'')) (Some [V4 0x08080808, V4 0x01010101]) (\<lambda>_. False)
      (\<lambda>a. if a = V4 0x01010101 then Some () else None) = Inr r)
   \<and> safeDial ''api.vultr.com'' ''tcp'' (Some (''api.vultr.com'', ''443'')) (Some [V4 0x08080808, V6 0xffff0a000001 []]) (\<lambda>_. False)
      (\<lambda>a. Some ()) \<noteq> Inr (V4 0x08080808, ())"
proof
  have "outside special4 134744072" "outside special4 16843009" "\<not> outside special4 167772161"
    by (simp_all add: outside_def special4_def within_def)
  note here = this
  have mapped: "Unmap (V6 0xffff0a000001 []) = V4 167772161" by simp
  show "\<exists>r. safeDial ''api.vultr.com'' ''tcp'' (Some (''api.vultr.com'', ''443'')) (Some [V4 0x08080808, V4 0x01010101]) (\<lambda>_. False)
      (\<lambda>a. if a = V4 0x01010101 then Some () else None) = Inr r"
    using safe_dial_is_confined [of "''api.vultr.com''" "''tcp''" None None "\<lambda>_. False" "\<lambda>a. if a = V4 0x01010101 then Some () else None"
        "V4 0" "()" "[V4 0x08080808, V4 0x01010101]"] here by simp
  show "safeDial ''api.vultr.com'' ''tcp'' (Some (''api.vultr.com'', ''443'')) (Some [V4 0x08080808, V6 0xffff0a000001 []]) (\<lambda>_. False)
      (\<lambda>a. Some ()) \<noteq> Inr (V4 0x08080808, ())"
    using safe_dial_is_confined [of "''api.vultr.com''" "''tcp''" "Some (''api.vultr.com'', ''443'')"
        "Some [V4 0x08080808, V6 0xffff0a000001 []]" "\<lambda>_. False" "\<lambda>a. Some ()" "V4 0x08080808" "()" "[]"] here mapped
    by (auto simp del: Unmap.simps)
qed

section \<open>Endpoints\<close>

text \<open>An element of a clean rooted path.\<close>

definition plain_element :: "string \<Rightarrow> bool" where
  "plain_element e \<longleftrightarrow> e \<noteq> [] \<and> e \<noteq> ''.'' \<and> e \<noteq> ''..'' \<and> CHR ''/'' \<notin> set e"

lemma split_slash_free: "e \<in> set (split_slash p) \<Longrightarrow> CHR ''/'' \<notin> set e"
  by (induction p arbitrary: e rule: split_slash.induct) (auto split: if_splits list.splits)

lemma split_slash_append: "CHR ''/'' \<notin> set e \<Longrightarrow> split_slash (e @ CHR ''/'' # p) = e # split_slash p"
  by (induction e) auto

lemma split_slash_plain: "CHR ''/'' \<notin> set e \<Longrightarrow> split_slash e = [e]"
  by (induction e) auto

lemma split_join: "es \<noteq> [] \<Longrightarrow> \<forall>e \<in> set es. CHR ''/'' \<notin> set e \<Longrightarrow> split_slash (join_slash es) = es"
  by (induction es rule: join_slash.induct) (auto simp: split_slash_plain split_slash_append)

lemma clean_step_plain:
  "\<lbrakk>\<forall>e \<in> set out. plain_element e; \<forall>e \<in> set es. CHR ''/'' \<notin> set e\<rbrakk> \<Longrightarrow> \<forall>e \<in> set (clean_step True out es). plain_element e"
proof (induction es arbitrary: out)
  case (Cons e es)
  consider "e = [] \<or> e = ''.''" | "e = ''..''" | "plain_element e" using Cons.prems(2) by (auto simp: plain_element_def)
  then show ?case
  proof cases
    case 2
    have "\<forall>o1 \<in> set out. o1 \<noteq> ''..''" using Cons.prems(1) by (auto simp: plain_element_def)
    moreover have "\<forall>e \<in> set (clean_step True out' es). plain_element e" if "set out' \<subseteq> set out" for out'
      using that Cons.prems by (intro Cons.IH) auto
    ultimately show ?thesis using 2 by (cases out) auto
  next
    case 3
    then have "e \<noteq> []" "e \<noteq> ''.''" "e \<noteq> ''..''" by (auto simp: plain_element_def)
    then have "clean_step True out (e # es) = clean_step True (e # out) es" by simp
    moreover have "\<forall>e \<in> set (clean_step True (e # out) es). plain_element e" using Cons.prems 3 by (intro Cons.IH) auto
    ultimately show ?thesis by simp
  qed (use Cons in auto)
qed simp

lemma clean_rooted:
  assumes "path_Clean p = p" "p \<noteq> []" "hd p = CHR ''/''"
  obtains es where "p = CHR ''/'' # join_slash es" "\<forall>e \<in> set es. plain_element e"
proof
  show "p = CHR ''/'' # join_slash (clean_step True [] (split_slash p))" using assms by (simp add: path_Clean_def Let_def)
  show "\<forall>e \<in> set (clean_step True [] (split_slash p)). plain_element e" by (rule clean_step_plain) (auto dest: split_slash_free)
qed

lemma validate_parts:
  assumes "profile_validate p u" "pf_prefix p \<noteq> [] \<Longrightarrow> hd (pf_prefix p) = CHR ''/''"
  obtains es where "ur_Path u = CHR ''/'' # join_slash es" "\<forall>e \<in> set es. plain_element e"
proof (rule clean_rooted)
  show "path_Clean (ur_Path u) = ur_Path u" using assms by (auto simp: profile_validate_def)
  have "ur_Path u = pf_prefix p \<or> has_prefix (pf_prefix p @ ''/'') (ur_Path u)" "pf_prefix p \<noteq> []" using assms by (auto simp: profile_validate_def)
  then show "ur_Path u \<noteq> []" "hd (ur_Path u) = CHR ''/''"
    using assms(2) by (cases "ur_Path u"; cases "pf_prefix p"; auto simp: has_prefix_def)+
qed

lemma split_slash_at: "split_slash (p @ CHR ''/'' # q) = split_slash p @ split_slash q"
proof (induction p rule: split_slash.induct)
  case (2 c cs)
  moreover have "split_slash cs \<noteq> []" by (cases cs) (auto split: list.splits)
  ultimately show ?case by (cases "split_slash cs") auto
qed simp

lemma split_slash_chars: "e \<in> set (split_slash p) \<Longrightarrow> set e \<subseteq> set p"
  by (induction p arbitrary: e rule: split_slash.induct) (auto split: if_splits list.splits, blast)

lemma has_prefix_append: "has_prefix p s \<longleftrightarrow> (\<exists>r. s = p @ r)"
  by (metis append_eq_conv_conj append_take_drop_id has_prefix_def)

lemma confined_path:
  assumes ok: "profile_validate p u" and root: "pf_prefix p = CHR ''/'' # q"
  shows "\<exists>es. split_slash (ur_Path u) = [] # split_slash q @ es \<and> (\<forall>e \<in> set es. plain_element e \<and> CHR 0x5c \<notin> set e)"
proof (cases "ur_Path u = pf_prefix p")
  case True
  then show ?thesis using root by (intro exI [of _ "[]"]) simp
next
  case False
  with ok have "has_prefix (pf_prefix p @ ''/'') (ur_Path u)" by (auto simp: profile_validate_def)
  then obtain r where r: "ur_Path u = CHR ''/'' # q @ CHR ''/'' # r" by (auto simp: has_prefix_append root)
  obtain es where es: "ur_Path u = CHR ''/'' # join_slash es" "\<forall>e \<in> set es. plain_element e"
    using validate_parts [OF ok] root by auto
  have "es \<noteq> []" using r es(1) by auto
  then have "split_slash (ur_Path u) = [] # es" using es by (simp add: split_join plain_element_def)
  moreover have "split_slash (ur_Path u) = [] # split_slash q @ split_slash r" by (simp add: r split_slash_at)
  ultimately have parts: "es = split_slash q @ split_slash r" by simp
  have "CHR 0x5c \<notin> set (ur_Path u)" using ok by (auto simp: profile_validate_def list_ex_iff)
  then have "CHR 0x5c \<notin> set e" if "e \<in> set (split_slash r)" for e using r split_slash_chars [OF that] by auto
  moreover have "split_slash (ur_Path u) = [] # split_slash q @ split_slash r" by (simp add: r split_slash_at)
  ultimately show ?thesis using parts es(2) by auto
qed

lemmas profiles = HetznerCloud_def DigitalOcean_def Vultr_def Contabo_def ContaboAuth_def NetcupLegacyDNS_def

text \<open>
  A URL that a compiled profile admits is an \<^verbatim>\<open>https\<close> URL of the profile's host on port 443 without credentials or
  fragment, whose path is the profile's prefix or below it and consists of plain elements: none is empty, \<^verbatim>\<open>.\<close> or \<^verbatim>\<open>..\<close>, and
  there is no backslash, so it cannot leave the prefix. The transport passes nothing on but such requests.
\<close>
theorem endpoint_is_confined:
  assumes "p \<in> {HetznerCloud, DigitalOcean, Vultr, Contabo, ContaboAuth, NetcupLegacyDNS}"
    and "confined_RoundTrip p u host url_host transport = (r, True)"
  shows "ur_Scheme u = ''https'' \<and> ur_Hostname u = pf_host p \<and> ur_Port u \<in> {[], ''443''} \<and> \<not> ur_User u \<and> ur_Fragment u = []
     \<and> (host = [] \<or> host = url_host) \<and> r = transport u
     \<and> (\<exists>es. split_slash (ur_Path u) = [] # split_slash (tl (pf_prefix p)) @ es \<and> (\<forall>e \<in> set es. plain_element e \<and> CHR 0x5c \<notin> set e))
     \<and> (p = NetcupLegacyDNS \<longrightarrow> ur_Path u = pf_prefix p \<and> ur_RawQuery u = ''JSON'')"
proof -
  from assms(2) have ok: "profile_validate p u" and rest: "host = [] \<or> host = url_host" "r = transport u"
    by (auto simp: confined_RoundTrip_def split: if_splits)
  from assms(1) obtain q where "pf_prefix p = CHR ''/'' # q" by (auto simp: profiles)
  with confined_path [OF ok this]
  have "\<exists>es. split_slash (ur_Path u) = [] # split_slash (tl (pf_prefix p)) @ es \<and> (\<forall>e \<in> set es. plain_element e \<and> CHR 0x5c \<notin> set e)" by simp
  moreover have "p = NetcupLegacyDNS \<longrightarrow> ur_Path u = pf_prefix p \<and> ur_RawQuery u = ''JSON''"
    using ok by (auto simp: profile_validate_def NetcupLegacyDNS_def)
  ultimately show ?thesis using ok rest by (auto simp: profile_validate_def)
qed

text \<open>A request for the servers of the Hetzner profile.\<close>
theorem endpoint_is_confined_witness:
  "let u = \<lparr>ur_Scheme = ''https'', ur_Opaque = [], ur_User = False, ur_Hostname = ''api.hetzner.cloud'', ur_Port = [], ur_Path = ''/v1/servers'',
      ur_RawPath = [], ur_ForceQuery = False, ur_RawQuery = [], ur_Fragment = []\<rparr> in
    confined_RoundTrip HetznerCloud u [] [] (\<lambda>_. Inr ()) = (Inr (), True)
    \<and> split_slash (ur_Path u) = [[], ''v1'', ''servers''] \<and> plain_element ''servers''"
proof -
  define u where "u = \<lparr>ur_Scheme = ''https'', ur_Opaque = [], ur_User = False, ur_Hostname = ''api.hetzner.cloud'', ur_Port = [], ur_Path = ''/v1/servers'',
      ur_RawPath = [], ur_ForceQuery = False, ur_RawQuery = [], ur_Fragment = []\<rparr>"
  have ok: "confined_RoundTrip HetznerCloud u [] [] (\<lambda>_. Inr ()) = (Inr (), True)" by (simp add: u_def) code_simp
  moreover have path: "split_slash (ur_Path u) = [[], ''v1'', ''servers'']" by (simp add: u_def)
  moreover have "plain_element ''servers''"
    using endpoint_is_confined [of HetznerCloud u "[]" "[]" "\<lambda>_. Inr ()" "Inr ()"] ok path by (auto simp: HetznerCloud_def)
  ultimately show ?thesis unfolding Let_def u_def [symmetric] by blast
qed

section \<open>Requests\<close>

lemma judge_denied: "judge decodes (Response s body after) = Retry f \<Longrightarrow> s \<noteq> 401 \<and> s \<noteq> 403"
  by (auto simp: judge_def)

lemma judge_success: "judge decodes x = Final (Inr ()) \<longleftrightarrow> (\<exists>s data after. x = Response s (Some data) after \<and> 200 \<le> s \<and> s < 300
    \<and> length data \<le> maxMetadataBytes \<and> decodes data)"
  by (auto simp: judge_def split: exchange.splits option.splits if_splits)

text \<open>Only transport trouble, a rate limit or a server error is tried again.\<close>

definition transient :: "exchange \<Rightarrow> bool" where
  "transient x \<longleftrightarrow> (case x of NoResponse \<Rightarrow> True
     | Response s body after \<Rightarrow> s \<noteq> 401 \<and> s \<noteq> 403 \<and> (body = None \<or> s = 429 \<or> 500 \<le> s))"

lemma judge_retry: "judge decodes x = Retry f \<Longrightarrow> transient x"
  by (auto simp: judge_def transient_def split: exchange.splits option.splits if_splits)

lemma judge_wait: "judge decodes (Response 429 (Some data) after) = Retry f \<Longrightarrow> fa_RetryAfter f = after"
  by (auto simp: judge_def split: if_splits)

lemma request_loop_sent:
  "request_loop decodes env k n = (r, sent, ds) \<Longrightarrow> 0 < n \<Longrightarrow> 0 < sent \<and> sent \<le> n
    \<and> (\<forall>j < sent - 1. transient (rq_exchange (env (k + j))))
    \<and> (r = Inr () \<longleftrightarrow> judge decodes (rq_exchange (env (k + (sent - 1)))) = Final (Inr ()))"
proof (induction n arbitrary: k r sent ds)
  case (Suc n)
  show ?case
  proof (cases "judge decodes (rq_exchange (env k))")
    case (Final r')
    then show ?thesis using Suc.prems by auto
  next
    case (Retry f)
    show ?thesis
    proof (cases "n = 0 \<or> rq_done (env k) \<or> rq_wait (env k)")
      case True
      then show ?thesis using Suc.prems Retry by (auto simp: Let_def split: if_splits)
    next
      case False
      obtain r' sent' ds' where rest: "request_loop decodes env (k + 1) n = (r', sent', ds')" by (metis prod_cases3)
      then have here: "r = r'" "sent = sent' + 1" using Suc.prems(1) False Retry by (auto simp: Let_def)
      note later = Suc.IH [OF rest] 
      have "transient (rq_exchange (env (k + j)))" if "j < sent'" for j
        using that later False judge_retry [OF Retry] by (cases j) auto
      then show ?thesis using later False here by (cases sent') auto
    qed
  qed
qed simp

lemma request_loop_waits:
  "request_loop decodes env k n = (r, sent, ds) \<Longrightarrow>
    length ds \<le> sent \<and> (\<forall>j < length ds. \<forall>data after. rq_exchange (env (k + j)) = Response 429 (Some data) after \<longrightarrow> after \<le> ds ! j)"
proof (induction n arbitrary: k r sent ds)
  case (Suc n)
  show ?case
  proof (cases "judge decodes (rq_exchange (env k))")
    case (Final r')
    then show ?thesis using Suc.prems by auto
  next
    case (Retry f)
    have asked: "after \<le> fa_RetryAfter f" if "rq_exchange (env k) = Response 429 (Some data) after" for data after
      using judge_wait [of decodes data after f] Retry that by simp
    show ?thesis
    proof (cases "n = 0 \<or> rq_done (env k) \<or> rq_wait (env k)")
      case True
      then show ?thesis using Suc.prems Retry asked by (auto simp: Let_def le_max_iff_disj split: if_splits)
    next
      case False
      obtain r' sent' ds' where rest: "request_loop decodes env (k + 1) n = (r', sent', ds')" by (metis prod_cases3)
      then have here: "sent = sent' + 1" "ds = max (rq_jitter (env k)) (fa_RetryAfter f) # ds'"
        using Suc.prems(1) False Retry by (auto simp: Let_def)
      have "after \<le> ds ! j" if "j < length ds" "rq_exchange (env (k + j)) = Response 429 (Some data) after" for j data after
        using that Suc.IH [OF rest] here asked by (cases j) (auto simp: le_max_iff_disj)
      then show ?thesis using Suc.IH [OF rest] here by auto
    qed
  qed
qed simp


definition flaky :: "nat \<Rightarrow> round" where
  "flaky k = \<lparr>rq_exchange = (if k = 0 then Response 429 (Some []) second else if k = 1 then NoResponse else Response 200 (Some ''{}'') 0),
     rq_done = False, rq_wait = False, rq_jitter = 5\<rparr>"


text \<open>
  A mutation is sent at most once, and at all only when binding, client and token are the expected ones and the URL is within the
  profile. It is reported as rejected exactly when the provider's own answer was one of the six explicit refusals; every
  other outcome of a sent mutation, lost and malformed answers included, stays ambiguous, and nothing is ever reported as accepted here.
\<close>
theorem mutation_is_sent_once:
  assumes "PostMutation b expected p client u token decodes env = (outcome, e, sent)"
  shows "sent \<le> 1 \<and> (sent = 1 \<longleftrightarrow> b = expected \<and> client \<and> token \<noteq> [] \<and> (\<exists>v. u = Some v \<and> profile_validate p v))
    \<and> (sent = 0 \<longrightarrow> outcome = [] \<and> e \<noteq> None) \<and> (sent = 1 \<longrightarrow> outcome = ''rejected'' \<or> outcome = ''ambiguous'')
    \<and> (outcome = ''rejected'' \<longleftrightarrow> sent = 1 \<and> exchange_status (rq_exchange (env 0)) \<in> {400, 401, 403, 404, 409, 422})"
proof -
  obtain r n ds where req: "RequestJSON decodes ''POST'' env = (r, n, ds)" by (metis prod_cases3)
  then have loop: "request_loop decodes env 0 1 = (r, n, ds)" by (simp add: RequestJSON_def attempts_for_def)
  have "n = 1" "r = Inr () \<longrightarrow> exchange_status (rq_exchange (env 0)) \<notin> {400, 401, 403, 404, 409, 422}"
    using request_loop_sent [OF loop] by (auto simp: judge_success exchange_status_def)
  then show ?thesis
    using assms req by (cases r) (auto simp: PostMutation_def split: if_splits option.splits)
qed

definition lost :: "nat \<Rightarrow> round" where
  "lost k = \<lparr>rq_exchange = NoResponse, rq_done = False, rq_wait = False, rq_jitter = 0\<rparr>"

definition reboot_url :: url where
  "reboot_url = \<lparr>ur_Scheme = ''https'', ur_Opaque = [], ur_User = False, ur_Hostname = ''api.vultr.com'', ur_Port = [], ur_Path = ''/v2/instances/reboot'',
     ur_RawPath = [], ur_ForceQuery = False, ur_RawQuery = [], ur_Fragment = []\<rparr>"

definition vultr_binding :: binding where
  "vultr_binding = \<lparr>bi_workspace = 1, bi_connection = 2, bi_family = ''vultr'', bi_version = 1\<rparr>"

text \<open>A reboot whose answer is lost: one request, and an ambiguous outcome with the error.\<close>
theorem mutation_is_sent_once_witness:
  "PostMutation vultr_binding vultr_binding Vultr True (Some reboot_url) ''token'' (\<lambda>_. True) lost = (''ambiguous'', Some (Upstream (failed ''provider_unavailable'')), 1)
    \<and> profile_validate Vultr reboot_url"
proof -
  have "profile_validate Vultr reboot_url" by (simp add: reboot_url_def) code_simp
  then have sent: "PostMutation vultr_binding vultr_binding Vultr True (Some reboot_url) ''token'' (\<lambda>_. True) lost = (''ambiguous'', Some (Upstream (failed ''provider_unavailable'')), 1)"
    by (simp add: PostMutation_def RequestJSON_def attempts_for_def judge_def lost_def exchange_status_def)
  with mutation_is_sent_once [OF sent] show ?thesis by simp
qed

section \<open>Waiting for a rate limit\<close>

lemma clamp_hour: "0 \<le> (if d < 0 then 0 else if d > hour then hour else d) \<and> (if d < 0 then 0 else if d > hour then hour else d) \<le> hour"
  by (simp add: less_imp_le)

lemma retryAfter_bounds: "0 \<le> retryAfter pt retry reset now \<and> retryAfter pt retry reset now \<le> hour"
  unfolding retryAfter_def Let_def by (rule clamp_hour)

lemma retryAfter_seconds: "ParseInt64 retry = Some s \<Longrightarrow> 0 \<le> s \<Longrightarrow> min s 3600 * second \<le> retryAfter pt retry reset now"
  by (auto simp: retryAfter_def Let_def hour_def minute_def second_def max_def split: option.splits)

lemma postpone_blocks: "map_of (bu_cooldowns b) scope = Some q \<Longrightarrow> t < now + delay \<Longrightarrow> \<not> admissible t a q (postpone now scope delay b)"
  by (auto simp: postpone_def admissible_def signal_def set_quota_def)

text \<open>
  the wait a rate limit imposes is between zero and an hour whatever the headers hold, and covers a \<^verbatim>\<open>Retry-After\<close> in
  seconds up to that hour; once an answer with status 429 was seen, no caller of the same quota scope is admitted before
  that wait is over, for any connection; another answer leaves the budget as it was.
\<close>
theorem rate_limit_is_honoured:
  "let wait = retryAfter pt retry reset now in 0 \<le> wait \<and> wait \<le> hour
    \<and> (\<forall>s. ParseInt64 retry = Some s \<and> 0 \<le> s \<longrightarrow> min s 3600 * second \<le> wait)
    \<and> (\<forall>q a t. map_of (bu_cooldowns b) (rv_scope rv) = Some q \<and> t < now + wait \<longrightarrow> \<not> admissible t a q (after_response pt now rv 429 retry reset b))
    \<and> (status \<noteq> 429 \<longrightarrow> after_response pt now rv status retry reset b = b)"
  unfolding Let_def using retryAfter_bounds retryAfter_seconds by (auto simp: after_response_def dest: postpone_blocks)

definition project_limit :: reservation where
  "project_limit = \<lparr>rv_budget = 0, rv_connection = 7, rv_scope = ''project''\<rparr>"

definition project_budget :: budget where
  "project_budget = NewBudget\<lparr>bu_cooldowns := [(''project'', 0)], bu_next := 1\<rparr>"

text \<open>An answer that asks for two minutes: nobody is admitted a minute later, and the wait is exactly those two minutes.\<close>
theorem rate_limit_is_honoured_witness:
  "retryAfter (\<lambda>_. None) ''120'' [] 0 = 120 * second
   \<and> \<not> admissible (60 * second) 3 0 (after_response (\<lambda>_. None) 0 project_limit 429 ''120'' [] project_budget)"
proof
  have here: "retryAfter (\<lambda>_. None) ''120'' [] 0 = 120 * second" by code_simp
  then show "retryAfter (\<lambda>_. None) ''120'' [] 0 = 120 * second" .
  have "map_of (bu_cooldowns project_budget) (rv_scope project_limit) = Some 0" by (simp add: project_budget_def project_limit_def)
  with rate_limit_is_honoured [where b = project_budget and rv = project_limit and pt = "\<lambda>_. None" and retry = "''120''" and reset = "[]" and now = 0] here
  show "\<not> admissible (60 * second) 3 0 (after_response (\<lambda>_. None) 0 project_limit 429 ''120'' [] project_budget)"
    by (simp add: second_def)
qed

end
