(* ===== verification/Sama_Net.thy ===== *)
theory Sama_Net
  imports Sama_Outbound
begin

text \<open>
  The functions of the Go standard library that the HTTP boundary and the configuration use on text: \<^verbatim>\<open>strings.TrimSpace\<close>,
  \<^verbatim>\<open>strings.Split\<close>, \<^verbatim>\<open>netip.ParseAddr\<close> and \<^verbatim>\<open>netip.Prefix\<close>. Strings are byte strings.
\<close>

section \<open>Package strings\<close>

text \<open>The UTF-8 encodings of the runes \<^verbatim>\<open>unicode.IsSpace\<close> accepts.\<close>

definition space_encodings :: "string list" where
  "space_encodings = [[CHR 0x09], [CHR 0x0A], [CHR 0x0B], [CHR 0x0C], [CHR 0x0D], [CHR 0x20], [CHR 0xC2, CHR 0x85], [CHR 0xC2, CHR 0xA0],
     [CHR 0xE1, CHR 0x9A, CHR 0x80], [CHR 0xE2, CHR 0x80, CHR 0x80], [CHR 0xE2, CHR 0x80, CHR 0x81],
     [CHR 0xE2, CHR 0x80, CHR 0x82], [CHR 0xE2, CHR 0x80, CHR 0x83], [CHR 0xE2, CHR 0x80, CHR 0x84],
     [CHR 0xE2, CHR 0x80, CHR 0x85], [CHR 0xE2, CHR 0x80, CHR 0x86], [CHR 0xE2, CHR 0x80, CHR 0x87],
     [CHR 0xE2, CHR 0x80, CHR 0x88], [CHR 0xE2, CHR 0x80, CHR 0x89], [CHR 0xE2, CHR 0x80, CHR 0x8A],
     [CHR 0xE2, CHR 0x80, CHR 0xA8], [CHR 0xE2, CHR 0x80, CHR 0xA9], [CHR 0xE2, CHR 0x80, CHR 0xAF],
     [CHR 0xE2, CHR 0x81, CHR 0x9F], [CHR 0xE3, CHR 0x80, CHR 0x80]]"

text \<open>Strips the given non-empty prefixes as long as one is there; the fuel is the length of the string.\<close>

fun strip_all :: "nat \<Rightarrow> string list \<Rightarrow> string \<Rightarrow> string" where
  "strip_all 0 ps s = s"
| "strip_all (Suc n) ps s = (case filter (\<lambda>p. has_prefix p s) ps of [] \<Rightarrow> s | p # _ \<Rightarrow> strip_all n ps (drop (length p) s))"

definition TrimSpace :: "string \<Rightarrow> string" where
  "TrimSpace s = (let t = strip_all (length s) space_encodings s in rev (strip_all (length t) (map rev space_encodings) (rev t)))"

text \<open>\<^verbatim>\<open>strings.Split(s, sep)\<close> for a separator of one byte.\<close>

fun Split :: "char \<Rightarrow> string \<Rightarrow> string list" where
  "Split sep [] = [[]]"
| "Split sep (c # s) = (if c = sep then [] # Split sep s else (case Split sep s of [] \<Rightarrow> [[c]] | w # ws \<Rightarrow> (c # w) # ws))"

definition TrimSuffix :: "string \<Rightarrow> string \<Rightarrow> string" where
  "TrimSuffix s suffix = (if has_prefix (rev suffix) (rev s) then take (length s - length suffix) s else s)"

text \<open>\<^verbatim>\<open>strings.CutPrefix\<close>, and the part \<^verbatim>\<open>strings.Cut\<close> finds before the separator.\<close>

definition CutPrefix :: "string \<Rightarrow> string \<Rightarrow> string option" where
  "CutPrefix s prefix = (if has_prefix prefix s then Some (drop (length prefix) s) else None)"

definition before :: "char \<Rightarrow> string \<Rightarrow> string" where
  "before sep s = takeWhile (\<lambda>c. c \<noteq> sep) s"

text \<open>\<^verbatim>\<open>hex.EncodeToString\<close>.\<close>

definition hex_encode :: "string \<Rightarrow> string" where
  "hex_encode s = concat (map (\<lambda>c. let n = of_char c :: nat in [''0123456789abcdef'' ! (n div 16), ''0123456789abcdef'' ! (n mod 16)]) s)"

lemma Split_not_Nil [simp]: "Split sep s \<noteq> []"
  by (induction s) (auto split: list.splits)

lemma Split_append: "Split sep (a @ sep # b) = Split sep a @ Split sep b"
proof (induction a)
  case (Cons c a)
  then show ?case by (cases "Split sep a") auto
qed simp

lemma Split_word: "sep \<notin> set w \<Longrightarrow> Split sep w = [w]"
  by (induction w) auto

section \<open>Package netip\<close>

text \<open>The decimal fields of an IPv4 address: one to three digits up to 255, without a leading zero.\<close>

definition ip4_field :: "string \<Rightarrow> nat option" where
  "ip4_field s = (if s = [] \<or> \<not> list_all digit s \<or> length s > 1 \<and> hd s = CHR ''0'' \<or> length s > 3 \<or> digits_value s > 255 then None
     else Some (nat (digits_value s)))"

definition ip4_bytes :: "string \<Rightarrow> (nat \<times> nat \<times> nat \<times> nat) option" where
  "ip4_bytes s = (case map ip4_field (Split CHR ''.'' s) of [Some a, Some b, Some c, Some d] \<Rightarrow> Some (a, b, c, d) | _ \<Rightarrow> None)"

text \<open>The groups of an IPv6 address are runs of hexadecimal digits.\<close>

definition hex_digit_value :: "char \<Rightarrow> nat option" where
  "hex_digit_value c = (if digit c then Some (of_char c - 48)
     else if char_between CHR ''a'' CHR ''f'' c then Some (of_char c - 87)
     else if char_between CHR ''A'' CHR ''F'' c then Some (of_char c - 55) else None)"

definition hex_run :: "string \<Rightarrow> string" where
  "hex_run s = takeWhile (\<lambda>c. hex_digit_value c \<noteq> None) s"

definition hex_group :: "string \<Rightarrow> nat" where
  "hex_group s = foldl (\<lambda>n c. 16 * n + (case hex_digit_value c of None \<Rightarrow> 0 | Some v \<Rightarrow> v)) 0 s"

text \<open>
  The loop over the groups: those read so far, the number of groups before \<^verbatim>\<open>::\<close> where it has been seen, and the rest of the
  text. The first argument is the number of groups there is still room for.
\<close>

fun ip6_groups :: "nat \<Rightarrow> nat list \<Rightarrow> nat option \<Rightarrow> string \<Rightarrow> (nat list \<times> nat option) option" where
  "ip6_groups 0 gs ellipsis s = (if s = [] then Some (gs, ellipsis) else None)"
| "ip6_groups (Suc n) gs ellipsis s = (let h = hex_run s; r = drop (length h) s; gs' = gs @ [hex_group h] in
     if h = [] \<or> length h > 4 then None
     else if r \<noteq> [] \<and> hd r = CHR ''.'' then
       (if ellipsis = None \<and> length gs \<noteq> 6 \<or> length gs > 6 then None
        else (case ip4_bytes s of None \<Rightarrow> None | Some (a, b, c, d) \<Rightarrow> Some (gs @ [a * 256 + b, c * 256 + d], ellipsis)))
     else if r = [] then Some (gs', ellipsis)
     else if hd r \<noteq> CHR '':'' \<or> length r = 1 then None
     else if hd (tl r) \<noteq> CHR '':'' then ip6_groups n gs' ellipsis (tl r)
     else if ellipsis \<noteq> None then None
     else if tl (tl r) = [] then Some (gs', Some (length gs'))
     else ip6_groups n gs' (Some (length gs')) (tl (tl r)))"

definition ip6_word :: "nat list \<Rightarrow> 128 word" where
  "ip6_word gs = of_nat (foldl (\<lambda>n g. 65536 * n + g) 0 gs)"

definition ip6_expand :: "nat list \<times> nat option \<Rightarrow> nat list option" where
  "ip6_expand = (\<lambda>(gs, ellipsis). case ellipsis of
       None \<Rightarrow> if length gs < 8 then None else Some gs
     | Some e \<Rightarrow> if length gs < 8 then Some (take e gs @ replicate (8 - length gs) 0 @ drop e gs) else None)"

definition parseIPv6 :: "string \<Rightarrow> addr option" where
  "parseIPv6 text = (let s = before CHR ''%'' text; zone = drop (Suc (length s)) text in
     if length s < length text \<and> zone = [] then None
     else (let start = (if has_prefix ''::'' s then (Some 0, drop 2 s) else (None, s)) in
       if fst start = Some 0 \<and> snd start = [] then Some (V6 0 zone)
       else map_option (\<lambda>gs. V6 (ip6_word gs) zone) (Option.bind (ip6_groups 8 [] (fst start) (snd start)) ip6_expand)))"

text \<open>\<^verbatim>\<open>netip.ParseAddr\<close>: the first of the characters \<^verbatim>\<open>.\<close>, \<^verbatim>\<open>:\<close> and \<^verbatim>\<open>%\<close> decides.\<close>

definition ParseAddr :: "string \<Rightarrow> addr option" where
  "ParseAddr s = (case dropWhile (\<lambda>c. c \<noteq> CHR ''.'' \<and> c \<noteq> CHR '':'' \<and> c \<noteq> CHR ''%'') s of
       [] \<Rightarrow> None
     | c # _ \<Rightarrow> if c = CHR ''.'' then map_option (\<lambda>(a, b, c, d). V4 (ip4 a b c d)) (ip4_bytes s)
        else if c = CHR '':'' then parseIPv6 s else None)"

text \<open>\<^verbatim>\<open>netip.Prefix\<close>, valid by construction where the length is in range; a zoned address is in none, and families do not mix.\<close>

datatype ip_prefix = P4 "32 word" nat | P6 "128 word" nat

fun prefix_Contains :: "ip_prefix \<Rightarrow> addr \<Rightarrow> bool" where
  "prefix_Contains (P4 p n) (V4 w) = in4 p n w"
| "prefix_Contains (P6 p n) (V6 w z) = (z = [] \<and> in6 p n w)"
| "prefix_Contains _ _ = False"

end
