(* ===== verification/Sama_Adapters.thy ===== *)
theory Sama_Adapters
  imports Sama_Connection Sama_Net
begin

text \<open>
  What the provider adapters share (\<^verbatim>\<open>internal/provider/http.go\<close>, \<^verbatim>\<open>power.go\<close>), and the contract of a power adapter,
  with what the dispatch worker may conclude from it.

  An adapter is sequential code that sends requests. Its state is the list of the requests sent so far; the provider is a
  function \<open>wi_provider\<close> that gives, for the requests sent before and a new one, what each attempt of it comes to. The
  provider is otherwise arbitrary: it may lie, forget, time out or answer with any text. What \<^verbatim>\<open>json.Unmarshal\<close> makes of a
  text is an argument, one decoder per response type (\<open>None\<close>: it does not decode), and so are \<^verbatim>\<open>url.Parse\<close> and
  \<^verbatim>\<open>url.ParseQuery\<close>. The contract that the operations rely on is the locale \<open>power_adapter\<close>.
\<close>

section \<open>Requests\<close>

record http_call =
  hc_Method :: string
  hc_Profile :: profile
  hc_URL :: string
  hc_Token :: string
  hc_Body :: string
  hc_RequestID :: string

record wire =
  wi_provider :: "http_call list \<Rightarrow> http_call \<Rightarrow> nat \<Rightarrow> round"
  wi_parse :: "string \<Rightarrow> url option"
  wi_query :: "string \<Rightarrow> (string \<times> string list) list option"
  wi_now :: time
  wi_crypto :: crypto

datatype adapter_error =
    AdapterBinding | AdapterEndpoint | AdapterUnsupported | AdapterUnverified | AdapterFailure failure

definition InvalidResponse :: adapter_error where
  "InvalidResponse = AdapterFailure (failed ''provider_response_invalid'')"

text \<open>A call leaves a result and the requests sent so far.\<close>

type_synonym 'a io = "http_call list \<Rightarrow> (adapter_error + 'a) \<times> http_call list"

definition io_ret :: "'a \<Rightarrow> 's \<Rightarrow> ('e + 'a) \<times> 's" where
  "io_ret x s = (Inr x, s)"

definition io_raise :: "'e \<Rightarrow> 's \<Rightarrow> ('e + 'a) \<times> 's" where
  "io_raise e s = (Inl e, s)"

definition io_bind :: "('s \<Rightarrow> ('e + 'a) \<times> 's) \<Rightarrow> ('a \<Rightarrow> 's \<Rightarrow> ('e + 'b) \<times> 's) \<Rightarrow> 's \<Rightarrow> ('e + 'b) \<times> 's" where
  "io_bind m f s = (case m s of (Inl e, s1) \<Rightarrow> (Inl e, s1) | (Inr x, s1) \<Rightarrow> f x s1)"

definition io_lift :: "('e + 'a) \<Rightarrow> 's \<Rightarrow> ('e + 'a) \<times> 's" where
  "io_lift r s = (r, s)"

text \<open>
  \<^verbatim>\<open>outbound.RequestJSON\<close> with the value it leaves in its output: what the last exchange's body decodes to.
\<close>

definition body_value :: "(string \<Rightarrow> 'a option) \<Rightarrow> exchange \<Rightarrow> 'a option" where
  "body_value decode x = (case x of Response _ (Some data) _ \<Rightarrow> decode data | _ \<Rightarrow> None)"

definition fetch :: "(string \<Rightarrow> 'a option) \<Rightarrow> string \<Rightarrow> (nat \<Rightarrow> round) \<Rightarrow> (failure + 'a) \<times> nat" where
  "fetch decode verb env = (case RequestJSON (\<lambda>s. decode s \<noteq> None) verb env of (Inl f, n, _) \<Rightarrow> (Inl f, n)
     | (Inr _, n, _) \<Rightarrow> (case body_value decode (rq_exchange (env (n - 1))) of
         None \<Rightarrow> (Inl (failed ''provider_response_invalid''), n) | Some v \<Rightarrow> (Inr v, n)))"

definition profile_URL :: "wire \<Rightarrow> profile \<Rightarrow> string \<Rightarrow> url option" where
  "profile_URL w p raw = (case wi_parse w raw of None \<Rightarrow> None | Some u \<Rightarrow> if profile_validate p u then Some u else None)"

definition get_call :: "profile \<Rightarrow> string \<Rightarrow> string \<Rightarrow> http_call" where
  "get_call p raw token = \<lparr>hc_Method = ''GET'', hc_Profile = p, hc_URL = raw, hc_Token = token, hc_Body = [], hc_RequestID = []\<rparr>"

definition post_call :: "profile \<Rightarrow> string \<Rightarrow> string \<Rightarrow> string \<Rightarrow> string \<Rightarrow> http_call" where
  "post_call p raw token body request =
     \<lparr>hc_Method = ''POST'', hc_Profile = p, hc_URL = raw, hc_Token = token, hc_Body = body, hc_RequestID = request\<rparr>"

definition GetJSON :: "wire \<Rightarrow> binding \<Rightarrow> binding \<Rightarrow> profile \<Rightarrow> bool \<Rightarrow> string \<Rightarrow> string \<Rightarrow> (string \<Rightarrow> 'a option) \<Rightarrow> 'a io" where
  "GetJSON w b expected p client raw token decode log =
     (if b \<noteq> expected \<or> \<not> client \<or> token = [] then (Inl AdapterBinding, log)
      else (case profile_URL w p raw of None \<Rightarrow> (Inl AdapterEndpoint, log)
        | Some _ \<Rightarrow> (case fetch decode ''GET'' (wi_provider w log (get_call p raw token)) of
              (Inl f, n) \<Rightarrow> (Inl (AdapterFailure f), log @ replicate n (get_call p raw token))
            | (Inr v, n) \<Rightarrow> (Inr v, log @ replicate n (get_call p raw token)))))"

fun mutation_failure :: "mutation_error \<Rightarrow> adapter_error" where
  "mutation_failure BadBinding = AdapterBinding"
| "mutation_failure BadEndpoint = AdapterEndpoint"
| "mutation_failure (Upstream f) = AdapterFailure f"

text \<open>
  \<open>PostMutation\<close> with the request it sends and the response it decodes. The receipt and the error are both returned,
  as in the code.
\<close>

type_synonym answer = "receipt \<times> adapter_error option"

definition no_receipt :: receipt where
  "no_receipt = \<lparr>re_Outcome = [], re_Reference = []\<rparr>"

definition outcome_only :: "string \<Rightarrow> receipt" where
  "outcome_only outcome = \<lparr>re_Outcome = outcome, re_Reference = []\<rparr>"

definition post_mutation :: "wire \<Rightarrow> binding \<Rightarrow> binding \<Rightarrow> profile \<Rightarrow> bool \<Rightarrow> string \<Rightarrow> string \<Rightarrow> string \<Rightarrow> string \<Rightarrow> (string \<Rightarrow> 'a option)
    \<Rightarrow> http_call list \<Rightarrow> answer \<times> 'a option \<times> http_call list" where
  "post_mutation w b expected p client raw token body request decode log =
     (let call = post_call p raw token body request; env = wi_provider w log call in
      case PostMutation b expected p client (wi_parse w raw) token (\<lambda>s. decode s \<noteq> None) env of
        (outcome, e, sent) \<Rightarrow> ((outcome_only outcome, map_option mutation_failure e), body_value decode (rq_exchange (env 0)), log @ replicate sent call))"

section \<open>Identifiers and observations\<close>

definition NumericID :: "string \<Rightarrow> bool" where
  "NumericID s = (case s of [] \<Rightarrow> False | c # cs \<Rightarrow> char_between CHR ''1'' CHR ''9'' c \<and> length cs \<le> 19
     \<and> list_all (char_between CHR ''0'' CHR ''9'') cs)"

text \<open>\<^verbatim>\<open>StrictQuery\<close>; \<^verbatim>\<open>url.Values\<close> is a list of keys with their values.\<close>

definition StrictQuery :: "wire \<Rightarrow> string \<Rightarrow> string list \<Rightarrow> (string \<times> string list) list option" where
  "StrictQuery w raw allowed = (case wi_query w raw of None \<Rightarrow> None
     | Some q \<Rightarrow> if list_ex (\<lambda>(key, values). key \<notin> set allowed \<or> length values \<noteq> 1 \<or> values ! 0 = []) q then None else Some q)"

definition query_Get :: "(string \<times> string list) list \<Rightarrow> string \<Rightarrow> string" where
  "query_Get q key = (case map_of q key of Some (v # _) \<Rightarrow> v | _ \<Rightarrow> [])"

definition CheckedObservation :: "server_observation \<Rightarrow> adapter_error + server_observation" where
  "CheckedObservation v =
     (if length (vo_NativeID v) = 0 \<or> length (vo_NativeID v) > 512 \<or> length (vo_NativeStatus v) > 128
        \<or> (case runes (vo_Name v) of None \<Rightarrow> True | Some rs \<Rightarrow> length rs > 200)
        \<or> length (vo_Region v) > 128 \<or> length (vo_MachineType v) > 128 then Inl InvalidResponse else Inr v)"

section \<open>Preconditions\<close>

text \<open>
  \<^verbatim>\<open>json.Marshal\<close> of a string: control characters, quotes, backslashes and the characters that are special in HTML are
  escaped, so are the two line separators, and a byte that starts no encoded rune becomes the replacement character.
\<close>

definition json_ascii :: "nat \<Rightarrow> string" where
  "json_ascii c = (if c = 0x22 \<or> c = 0x5c then [CHR 0x5c, char_of c]
     else if c = 8 then CHR 0x5c # ''b'' else if c = 9 then CHR 0x5c # ''t'' else if c = 10 then CHR 0x5c # ''n''
     else if c = 12 then CHR 0x5c # ''f'' else if c = 13 then CHR 0x5c # ''r''
     else if c < 32 \<or> c = 0x3c \<or> c = 0x3e \<or> c = 0x26 then CHR 0x5c # ''u00'' @ hex_encode [char_of c]
     else [char_of c])"

definition one_rune :: "nat list \<Rightarrow> bool" where
  "one_rune bs = (case utf8 bs of Some [_] \<Rightarrow> True | _ \<Rightarrow> False)"

definition rune_width :: "nat list \<Rightarrow> nat" where
  "rune_width bs = (if one_rune (take 2 bs) then 2 else if one_rune (take 3 bs) then 3 else if one_rune (take 4 bs) then 4 else 0)"

function json_bytes :: "nat list \<Rightarrow> string" where
  "json_bytes [] = []"
| "json_bytes (c # cs) =
     (if c < 128 then json_ascii c @ json_bytes cs
      else if rune_width (c # cs) = 0 then CHR 0x5c # ''ufffd'' @ json_bytes cs
      else if utf8 (take 3 (c # cs)) = Some [0x2028] then CHR 0x5c # ''u2028'' @ json_bytes (drop 2 cs)
      else if utf8 (take 3 (c # cs)) = Some [0x2029] then CHR 0x5c # ''u2029'' @ json_bytes (drop 2 cs)
      else map char_of (take (rune_width (c # cs)) (c # cs)) @ json_bytes (drop (rune_width (c # cs) - 1) cs))"
  by pat_completeness auto
termination by (relation "measure length") auto

definition json_string :: "string \<Rightarrow> string" where
  "json_string s = dq (json_bytes (map of_char s))"

definition json_field :: "string \<Rightarrow> string \<Rightarrow> string" where
  "json_field name text = dq name @ '':'' @ text"

fun join_comma :: "string list \<Rightarrow> string" where
  "join_comma [] = []" | "join_comma [x] = x" | "join_comma (x # xs) = x @ '','' @ join_comma xs"

definition details_text :: "server_observation \<Rightarrow> string" where
  "details_text v = ''{'' @ join_comma ((if vo_Region v = [] then [] else [json_field ''region'' (json_string (vo_Region v))])
     @ (if vo_MachineType v = [] then [] else [json_field ''machine_type'' (json_string (vo_MachineType v))])) @ ''}''"

definition power_text :: "binding \<Rightarrow> string \<Rightarrow> server_observation \<Rightarrow> string" where
  "power_text b action v = ''{'' @ join_comma
     [json_field ''Workspace'' (json_string (uuid_String (bi_workspace b))), json_field ''Connection'' (json_string (uuid_String (bi_connection b))),
      json_field ''Family'' (json_string (bi_family b)), json_field ''Version'' (FormatInt (bi_version b)), json_field ''Action'' (json_string action),
      json_field ''NativeID'' (json_string (vo_NativeID v)), json_field ''NativeStatus'' (json_string (vo_NativeStatus v)),
      json_field ''Status'' (json_string (vo_Status v)), json_field ''Name'' (json_string (vo_Name v)), json_field ''Details'' (details_text v)] @ ''}''"

definition PowerPreconditions :: "crypto \<Rightarrow> binding \<Rightarrow> string \<Rightarrow> server_observation \<Rightarrow> adapter_error + preconditions" where
  "PowerPreconditions K b action v =
     (if action = ''compute.server.power_on'' then Inr \<lparr>pc_Fingerprint = sha256 K (power_text b action v), pc_TargetName = vo_Name v,
        pc_Allowed = (vo_Status v = ''stopped''), pc_HighImpact = False\<rparr>
      else if action \<in> {''compute.server.shutdown'', ''compute.server.power_off'', ''compute.server.reboot''} then
        Inr \<lparr>pc_Fingerprint = sha256 K (power_text b action v), pc_TargetName = vo_Name v, pc_Allowed = (vo_Status v = ''running''),
          pc_HighImpact = (action = ''compute.server.power_off'')\<rparr>
      else Inl AdapterUnsupported)"

text \<open>The state of the server that an action aims at.\<close>

definition wanted :: "string \<Rightarrow> string" where
  "wanted action = (if action = ''compute.server.shutdown'' \<or> action = ''compute.server.power_off'' then ''stopped'' else ''running'')"

definition observed :: "string \<Rightarrow> action_observation" where
  "observed outcome = \<lparr>ao_Outcome = outcome, ao_NativeEvidence = False\<rparr>"

definition proven :: "string \<Rightarrow> action_observation" where
  "proven outcome = \<lparr>ao_Outcome = outcome, ao_NativeEvidence = True\<rparr>"

text \<open>The status a capturing transport holds after \<open>n\<close> attempts: that of the last response, if there was one.\<close>

definition last_status :: "(nat \<Rightarrow> round) \<Rightarrow> nat \<Rightarrow> int \<Rightarrow> int" where
  "last_status env n old = foldl (\<lambda>status k. case rq_exchange (env k) of NoResponse \<Rightarrow> status | Response code _ _ \<Rightarrow> code) old [0..<n]"

text \<open>\<^verbatim>\<open>url.QueryEscape\<close>.\<close>

definition upper_hex :: "char \<Rightarrow> char" where
  "upper_hex c = (if char_between CHR ''a'' CHR ''f'' c then char_of (of_char c - (32 :: nat)) else c)"

definition QueryEscape :: "string \<Rightarrow> string" where
  "QueryEscape s = concat (map (\<lambda>c. if alnum c \<or> c \<in> set ''-_.~'' then [c] else if c = CHR '' '' then ''+''
     else CHR ''%'' # map upper_hex (hex_encode [c])) s)"

record api_client =
  ac_binding :: binding
  ac_credential :: credential
  ac_http :: bool

definition new_client :: "string \<Rightarrow> binding \<Rightarrow> credential \<Rightarrow> bool \<Rightarrow> api_client option" where
  "new_client family b c budget = (if bi_family b \<noteq> family \<or> cr_Type c \<noteq> ''bearer_v1'' \<or> \<not> credential_valid c \<or> \<not> budget then None
     else Some \<lparr>ac_binding = b, ac_credential = c, ac_http = True\<rparr>)"

text \<open>The page a cursor stands for: the first one, or a number from 1 to 100.\<close>

definition cursor_page :: "string \<Rightarrow> int option" where
  "cursor_page cursor = (case (if cursor = [] then Some 1 else ParseInt64 cursor) of None \<Rightarrow> None
     | Some page \<Rightarrow> if page < 1 \<or> page > 100 then None else Some page)"

fun map_each :: "('a \<Rightarrow> 'e + 'b) \<Rightarrow> 'a list \<Rightarrow> 'e + 'b list" where
  "map_each f [] = Inr []"
| "map_each f (x # xs) = (case f x of Inl e \<Rightarrow> Inl e | Inr y \<Rightarrow> (case map_each f xs of Inl e \<Rightarrow> Inl e | Inr ys \<Rightarrow> Inr (y # ys)))"

section \<open>Numbered pages\<close>

text \<open>
  Following the cursors of a page reader, with a bound on the pages; \<open>None\<close> where the bound is too small. A reader whose
  cursors count its pages up to 100 needs at most 100.
\<close>

fun walk_pages :: "(string \<Rightarrow> 's \<Rightarrow> ('e + 'a list \<times> string) \<times> 's) \<Rightarrow> nat \<Rightarrow> string \<Rightarrow> 's \<Rightarrow> (('e + 'a list) \<times> 's) option" where
  "walk_pages Page 0 cursor s = None"
| "walk_pages Page (Suc n) cursor s = (case Page cursor s of (Inl e, s1) \<Rightarrow> Some (Inl e, s1)
     | (Inr (found, later), s1) \<Rightarrow> if later = [] then Some (Inr found, s1)
         else (case walk_pages Page n later s1 of None \<Rightarrow> None | Some (Inl e, s2) \<Rightarrow> Some (Inl e, s2) | Some (Inr rest, s2) \<Rightarrow> Some (Inr (found @ rest), s2)))"

definition pages_end :: "(string \<Rightarrow> 's \<Rightarrow> ('e + 'a list \<times> string) \<times> 's) \<Rightarrow> 's \<Rightarrow> bool" where
  "pages_end Page s \<longleftrightarrow> (\<exists>r s'. walk_pages Page 100 [] s = Some (r, s') \<and> (case r of Inl _ \<Rightarrow> True | Inr found \<Rightarrow> length found \<le> 5000))"

locale numbered_pages =
  fixes Page :: "string \<Rightarrow> 's \<Rightarrow> ('e + 'a list \<times> string) \<times> 's"
    and number :: "string \<Rightarrow> int option"
  assumes first_page: "number [] = Some 1"
    and page_size: "Page cursor s = (Inr (found, later), s') \<Longrightarrow> length found \<le> 50"
    and next_page: "Page cursor s = (Inr (found, later), s') \<Longrightarrow> later \<noteq> [] \<Longrightarrow> number cursor = Some p \<Longrightarrow> p < 100 \<and> number later = Some (p + 1)"
begin

lemma walk_ends:
  "number cursor = Some (101 - int n) \<Longrightarrow> 0 < n \<Longrightarrow>
    \<exists>r s'. walk_pages Page n cursor s = Some (r, s') \<and> (case r of Inl _ \<Rightarrow> True | Inr found \<Rightarrow> length found \<le> 50 * n)"
proof (induction n arbitrary: cursor s)
  case (Suc n)
  obtain r s1 where page: "Page cursor s = (r, s1)" by (metis prod.exhaust)
  show ?case
  proof (cases r)
    case (Inr q)
    obtain found later where q: "q = (found, later)" by (metis prod.exhaust)
    note size = page_size [OF page [unfolded Inr q]] and step = next_page [OF page [unfolded Inr q] _ Suc.prems(1)]
    show ?thesis
    proof (cases "later = []")
      case False
      with step have "int n > 0" "number later = Some (101 - int n)" by simp_all
      with Suc.IH [of later s1] obtain r2 s2 where "walk_pages Page n later s1 = Some (r2, s2)"
        "case r2 of Inl _ \<Rightarrow> True | Inr f \<Rightarrow> length f \<le> 50 * n" by auto
      with False size page Inr q show ?thesis by (cases r2) auto
    qed (use page Inr q size in simp)
  qed (simp add: page)
qed simp

lemma pages_end_here: "pages_end Page s"
  using walk_ends [of "[]" 100 s] first_page unfolding pages_end_def by (auto cong: sum.case_cong)

end

lemma digits_value_append: "digits_value (xs @ [c]) = 10 * digits_value xs + int (of_char c - 48)"
  by (simp add: digits_value_def)

lemma nth_digit: "k < 10 \<Longrightarrow> digit (''0123456789'' ! k) \<and> of_char (''0123456789'' ! k) = k + (48 :: nat)"
  by (auto simp: less_Suc_eq eval_nat_numeral digit_def less_eq_char_def)

lemma dec_nat_digits: "dec_nat n \<noteq> [] \<and> list_all digit (dec_nat n) \<and> digits_value (dec_nat n) = int n"
proof (induction n rule: dec_nat.induct)
  case (1 n)
  show ?case
  proof (cases "n < 10")
    case True
    with nth_digit [of n] show ?thesis by (simp add: dec_nat.simps [of n] digits_value_def)
  next
    case False
    with 1 nth_digit [of "n mod 10"] show ?thesis
      by (simp add: dec_nat.simps [of n] digits_value_append flip: of_nat_mult of_nat_add) (metis mult_div_mod_eq of_nat_add of_nat_mult of_nat_numeral)
  qed
qed

lemma digit_sign: "digit c \<Longrightarrow> c \<noteq> CHR ''-'' \<and> c \<noteq> CHR ''+''"
  by (auto simp: digit_def less_eq_char_def)

lemma ParseInt64_FormatInt: "0 \<le> n \<Longrightarrow> n < 2 ^ 63 \<Longrightarrow> ParseInt64 (FormatInt n) = Some n"
  using dec_nat_digits [of "nat n"] digit_sign by (cases "dec_nat (nat n)") (auto simp: ParseInt64_def FormatInt_def Let_def)

lemma FormatInt_nonempty: "0 \<le> n \<Longrightarrow> FormatInt n \<noteq> []"
  using dec_nat_digits [of "nat n"] by (simp add: FormatInt_def)

lemma FormatInt_colon: "0 \<le> n \<Longrightarrow> CHR '':'' \<notin> set (FormatInt n)"
  using dec_nat_digits [of "nat n"] by (auto simp: FormatInt_def list_all_iff digit_def less_eq_char_def)

lemma cursor_page_next: "cursor_page cursor = Some p \<Longrightarrow> p < 100 \<Longrightarrow> cursor_page (FormatInt (p + 1)) = Some (p + 1)"
  by (auto simp: cursor_page_def ParseInt64_FormatInt FormatInt_nonempty split: if_splits option.splits)

lemma cursor_page_first: "cursor_page [] = Some 1"
  by (simp add: cursor_page_def)

lemma map_each_length: "map_each f xs = Inr ys \<Longrightarrow> length ys = length xs"
  by (induction xs arbitrary: ys) (auto split: sum.splits)

section \<open>The contract of a power adapter\<close>

text \<open>The requests that may change something at a provider: all but reads and the acquisition of a token.\<close>

definition is_mutation :: "http_call \<Rightarrow> bool" where
  "is_mutation call \<longleftrightarrow> hc_Method call \<noteq> ''GET'' \<and> hc_Profile call \<noteq> ContaboAuth"

definition mutations :: "http_call list \<Rightarrow> http_call list" where
  "mutations log = filter is_mutation log"

text \<open>The status codes by which a provider says that it did not carry out a request.\<close>

definition refused :: "exchange \<Rightarrow> bool" where
  "refused x \<longleftrightarrow> exchange_status x \<in> {400, 401, 403, 404, 409, 422}"

section \<open>Shared facts\<close>

lemmas io_simps = io_ret_def io_raise_def io_bind_def io_lift_def

lemma mutations_append [simp]: "mutations (xs @ ys) = mutations xs @ mutations ys"
  by (simp add: mutations_def)

lemma mutations_gets [simp]: "mutations (replicate n (get_call p raw token)) = []"
  by (simp add: mutations_def is_mutation_def get_call_def filter_replicate)

lemma GetJSON_reads: "GetJSON w b expected p client raw token decode s = (r, s') \<Longrightarrow> mutations s' = mutations s"
  by (auto simp: GetJSON_def split: if_splits option.splits prod.splits sum.splits)

lemma POST_sent_once: "RequestJSON decodes ''POST'' env = (r, n, ds) \<Longrightarrow> n = 1 \<and> (r = Inr () \<longrightarrow> \<not> refused (rq_exchange (env 0)))"
proof -
  assume "RequestJSON decodes ''POST'' env = (r, n, ds)"
  then have loop: "request_loop decodes env 0 1 = (r, n, ds)" by (simp add: RequestJSON_def attempts_for_def)
  show ?thesis using request_loop_sent [OF loop] by (auto simp: judge_success exchange_status_def refused_def)
qed

text \<open>A mutation is not sent and an error is returned, or it is sent once and judged by its answer.\<close>

lemma post_mutation_cases:
  assumes "post_mutation w b expected p client raw token body request decode log = ((rc, e), response, log')"
  defines "call \<equiv> post_call p raw token body request"
  shows "log' = log \<and> e \<noteq> None \<and> re_Reference rc = []
    \<or> log' = log @ [call] \<and> response = body_value decode (rq_exchange (wi_provider w log call 0))
      \<and> (if refused (rq_exchange (wi_provider w log call 0)) then rc = outcome_only ''rejected'' \<and> e = None else rc = outcome_only ''ambiguous'')"
proof -
  obtain r n ds where req: "RequestJSON (\<lambda>s. decode s \<noteq> None) ''POST'' (wi_provider w log call) = (r, n, ds)" by (metis prod_cases3)
  with POST_sent_once [OF req] assms show ?thesis
    by (cases r) (auto simp: post_mutation_def PostMutation_def Let_def refused_def outcome_only_def split: if_splits option.splits)
qed

section \<open>Honest adapters\<close>

text \<open>The values as the dispatch worker takes them: an error hides the receipt.\<close>

definition receipt_result :: "answer \<Rightarrow> err + receipt" where
  "receipt_result a = (case snd a of Some _ \<Rightarrow> Inl OpErrProvider | None \<Rightarrow> Inr (fst a))"

definition observation_result :: "adapter_error + action_observation \<Rightarrow> err + action_observation" where
  "observation_result r = map_sum (\<lambda>_. OpErrProvider) (\<lambda>q. q) r"

text \<open>
  A submission is honest: either nothing was sent, and then it counts as failed only because the fresh inspection
  disallows the action or differs from the reviewed fingerprint; or exactly one mutation was sent, the one of this action
  and target, as the last request, after an inspection that allowed it with that fingerprint. Then it counts as failed exactly
  when the provider refused it, and as waiting only for a reference that the provider's answer names.
\<close>

definition honest_submission where
  "honest_submission calls provider own supports carries names Inspect Submit b action target fingerprint s \<longleftrightarrow>
     (case Submit b action target fingerprint s of (a, s') \<Rightarrow> case classifyActionReceipt action (receipt_result a) of (st, reference) \<Rightarrow>
       mutations (calls s') = mutations (calls s) \<and> (st = Reconciling \<and> snd a \<noteq> None
           \<or> st = Failed \<and> (\<exists>pre s1. Inspect b action target s = (Inr pre, s1) \<and> (\<not> pc_Allowed pre \<or> pc_Fingerprint pre \<noteq> fingerprint)))
       \<or> (\<exists>before call pre s1. calls s' = before @ [call] \<and> mutations before = mutations (calls s) \<and> is_mutation call \<and> carries action target call
           \<and> b = own \<and> supports action \<and> Inspect b action target s = (Inr pre, s1) \<and> pc_Allowed pre \<and> pc_Fingerprint pre = fingerprint
           \<and> (let x = rq_exchange (provider before call 0) in (st = Failed \<longleftrightarrow> refused x)
              \<and> (st \<noteq> Failed \<longrightarrow> st = Reconciling \<or> st = WaitingProvider \<and> (\<exists>r. reference = Some r \<and> names action target r x)))))"

text \<open>
  An observation is honest: it sends no mutation. It counts as success only after a read of this target that shows the
  state the action aims at, and, for an action known by its reference, only after the provider called that very action
  finished; without a reference a reboot never counts as success. It counts as failed only when the provider called the
  referenced action failed.
\<close>

definition honest_observation where
  "honest_observation calls own supports concluded broken Native Read Observe b action target reference s \<longleftrightarrow>
     (case Observe b action target reference s of (r, s') \<Rightarrow> mutations (calls s') = mutations (calls s) \<and>
       (case observed_state reference (observation_result r) of
          Succeeded \<Rightarrow> b = own \<and> supports action \<and> (\<exists>s1 v. Read b target s1 = (Inr v, s') \<and> vo_NativeID v = target \<and> vo_Status v = wanted action
            \<and> (case reference of None \<Rightarrow> s1 = s \<and> action \<noteq> ''compute.server.reboot''
               | Some q \<Rightarrow> (\<exists>n. Native b action target q s = (Inr n, s1) \<and> concluded n)))
        | Failed \<Rightarrow> b = own \<and> supports action \<and> (\<exists>q n. reference = Some q \<and> Native b action target q s = (Inr n, s') \<and> broken n)
        | _ \<Rightarrow> True))"

text \<open>
  What an allowed submission may do: fail before it sends anything, or send its one mutation last and answer for it.
\<close>

definition sends :: "(http_call list \<Rightarrow> http_call \<Rightarrow> nat \<Rightarrow> round) \<Rightarrow> (http_call \<Rightarrow> bool) \<Rightarrow> (string \<Rightarrow> exchange \<Rightarrow> bool)
    \<Rightarrow> http_call list \<Rightarrow> receipt \<Rightarrow> adapter_error option \<Rightarrow> http_call list \<Rightarrow> bool" where
  "sends provider carries names log rc e log' \<longleftrightarrow>
     mutations log' = mutations log \<and> e \<noteq> None
     \<or> (\<exists>before call. log' = before @ [call] \<and> mutations before = mutations log \<and> is_mutation call \<and> carries call
         \<and> (let x = rq_exchange (provider before call 0) in
            if refused x then rc = outcome_only ''rejected'' \<and> e = None
            else e = None \<longrightarrow> re_Outcome rc = ''ambiguous'' \<or> re_Outcome rc = ''accepted'' \<and> names (re_Reference rc) x))"

lemma sends_mutations: "sends provider carries names log rc e log' \<Longrightarrow> mutations log0 = mutations log \<Longrightarrow> sends provider carries names log0 rc e log'"
  by (simp add: sends_def)

lemma post_mutation_sends:
  assumes post: "post_mutation w b expected p client raw token body request decode log = ((rc, e), response, log')"
    and call: "is_mutation (post_call p raw token body request)" "carries (post_call p raw token body request)"
    and kept: "e \<noteq> None \<or> re_Outcome rc = ''rejected'' \<Longrightarrow> rc' = rc \<and> e' = e"
    and told: "\<And>x. e = None \<Longrightarrow> re_Outcome rc = ''ambiguous'' \<Longrightarrow> e' = None \<Longrightarrow> response = body_value decode x \<Longrightarrow>
      re_Outcome rc' = ''ambiguous'' \<or> re_Outcome rc' = ''accepted'' \<and> names (re_Reference rc') x"
  shows "sends (wi_provider w) carries names log rc' e' log'"
  using post_mutation_cases [OF post]
proof (elim disjE conjE)
  assume "log' = log" "e \<noteq> None"
  with kept show ?thesis by (simp add: sends_def)
next
  let ?call = "post_call p raw token body request"
  let ?x = "rq_exchange (wi_provider w log ?call 0)"
  assume log': "log' = log @ [?call]" and x: "response = body_value decode ?x"
    and judged: "if refused ?x then rc = outcome_only ''rejected'' \<and> e = None else rc = outcome_only ''ambiguous''"
  have "if refused ?x then rc' = outcome_only ''rejected'' \<and> e' = None
      else e' = None \<longrightarrow> re_Outcome rc' = ''ambiguous'' \<or> re_Outcome rc' = ''accepted'' \<and> names (re_Reference rc') ?x"
  proof (cases "refused ?x")
    case True
    with judged kept show ?thesis by (simp add: outcome_only_def)
  next
    case False
    with judged kept told [OF _ _ _ x] show ?thesis by (cases e) (auto simp: outcome_only_def)
  qed
  with log' call show ?thesis unfolding sends_def Let_def by blast
qed

text \<open>The first half of the contract, which the submissions of snapshot actions share.\<close>

locale mutation_adapter =
  fixes calls :: "'s \<Rightarrow> http_call list"
    and provider :: "http_call list \<Rightarrow> http_call \<Rightarrow> nat \<Rightarrow> round"
    and own :: binding
    and supports :: "string \<Rightarrow> bool"
    and carries :: "string \<Rightarrow> string \<Rightarrow> http_call \<Rightarrow> bool"
    and names :: "string \<Rightarrow> string \<Rightarrow> string \<Rightarrow> exchange \<Rightarrow> bool"
    and Inspect :: "binding \<Rightarrow> string \<Rightarrow> string \<Rightarrow> 's \<Rightarrow> (adapter_error + preconditions) \<times> 's"
    and Submit :: "binding \<Rightarrow> string \<Rightarrow> string \<Rightarrow> string \<Rightarrow> 's \<Rightarrow> answer \<times> 's"
  assumes Inspect_reads: "Inspect b a i s = (p, s') \<Longrightarrow> mutations (calls s') = mutations (calls s)"
    and Inspect_bound: "Inspect b a i s = (Inr pre, s') \<Longrightarrow> b = own \<and> supports a"
    and Submit_unread: "Inspect b a i s = (Inl e, s') \<Longrightarrow> Submit b a i f s = ((no_receipt, Some e), s')"
    and Submit_stale: "Inspect b a i s = (Inr pre, s') \<Longrightarrow> \<not> pc_Allowed pre \<or> pc_Fingerprint pre \<noteq> f \<Longrightarrow> Submit b a i f s = ((outcome_only ''rejected'', None), s')"
    and Submit_sends: "Inspect b a i s = (Inr pre, s1) \<Longrightarrow> pc_Allowed pre \<Longrightarrow> pc_Fingerprint pre = f \<Longrightarrow> Submit b a i f s = ((rc, x), s') \<Longrightarrow>
      sends provider (carries a i) (names a i) (calls s1) rc x (calls s')"
begin

text \<open>What the dispatch worker makes of a submission.\<close>

lemma submission_is_honest:
  "honest_submission calls provider own supports carries names Inspect Submit b a i f s"
proof -
  obtain rc e s' where sub: "Submit b a i f s = ((rc, e), s')" by (metis prod.exhaust)
  obtain p s1 where ins: "Inspect b a i s = (p, s1)" by (metis prod.exhaust)
  note reads = Inspect_reads [OF ins]
  show ?thesis
  proof (cases p)
    case (Inl x)
    with sub Submit_unread ins have "rc = no_receipt" "e = Some x" "s' = s1" by auto
    with sub reads show ?thesis by (simp add: honest_submission_def receipt_result_def classifyActionReceipt_def classifyReceipt_def)
  next
    case (Inr pre)
    note ins' = ins [unfolded Inr]
    show ?thesis
    proof (cases "pc_Allowed pre \<and> pc_Fingerprint pre = f")
      case False
      with Submit_stale [OF ins', of f] sub have "rc = outcome_only ''rejected''" "e = None" "s' = s1" by auto
      with sub reads ins' False show ?thesis
        by (auto simp: honest_submission_def receipt_result_def classifyActionReceipt_def classifyReceipt_def outcome_only_def)
    next
      case True
      with Submit_sends [OF ins' _ _ sub] Inspect_bound [OF ins'] reads sub ins' show ?thesis
        unfolding honest_submission_def sends_def Let_def
        by (fastforce simp: receipt_result_def classifyActionReceipt_def classifyReceipt_def outcome_only_def split: if_splits option.splits)
    qed
  qed
qed

end

text \<open>The second half: how a power action is observed.\<close>

locale power_adapter = mutation_adapter calls provider own supports carries names Inspect Submit
  for calls :: "'s \<Rightarrow> http_call list" and provider own supports carries names Inspect Submit +
  fixes concluded :: "'n \<Rightarrow> bool"
    and broken :: "'n \<Rightarrow> bool"
    and Native :: "binding \<Rightarrow> string \<Rightarrow> string \<Rightarrow> string \<Rightarrow> 's \<Rightarrow> (adapter_error + 'n) \<times> 's"
    and Read :: "binding \<Rightarrow> string \<Rightarrow> 's \<Rightarrow> (adapter_error + server_observation) \<times> 's"
    and Observe :: "binding \<Rightarrow> string \<Rightarrow> string \<Rightarrow> string option \<Rightarrow> 's \<Rightarrow> (adapter_error + action_observation) \<times> 's"
  assumes Read_target: "Read b i s = (Inr v, s') \<Longrightarrow> vo_NativeID v = i"
    and Observe_reads: "Observe b a i ref s = (res, s') \<Longrightarrow> mutations (calls s') = mutations (calls s)"
    and Observe_bound: "Observe b a i ref s = (Inr q, s') \<Longrightarrow> b = own \<and> supports a"
    and Observe_unreferenced: "Observe b a i None s = (Inr q, s') \<Longrightarrow> ao_NativeEvidence q \<Longrightarrow>
      ao_Outcome q = ''succeeded'' \<and> a \<noteq> ''compute.server.reboot'' \<and> (\<exists>v. Read b i s = (Inr v, s') \<and> vo_Status v = wanted a)"
    and Observe_referenced: "Observe b a i (Some r) s = (Inr q, s') \<Longrightarrow> ao_NativeEvidence q \<Longrightarrow>
      (\<exists>n s1. Native b a i r s = (Inr n, s1) \<and> (ao_Outcome q = ''failed'' \<and> broken n \<and> s1 = s'
        \<or> ao_Outcome q = ''succeeded'' \<and> concluded n \<and> (\<exists>v. Read b i s1 = (Inr v, s') \<and> vo_Status v = wanted a)))"
begin

text \<open>What the dispatch worker makes of an observation.\<close>

lemma observation_is_honest:
  "honest_observation calls own supports concluded broken Native Read Observe b a i ref s"
proof -
  obtain r s' where obs: "Observe b a i ref s = (r, s')" by (metis prod.exhaust)
  show ?thesis
  proof (cases r)
    case (Inl x)
    with Observe_reads [OF obs] show ?thesis by (simp add: honest_observation_def obs observation_result_def observed_state_def)
  next
    case (Inr q)
    note obs' = obs [unfolded Inr]
    show ?thesis
    proof (cases "ao_NativeEvidence q")
      case False
      with Observe_reads [OF obs] show ?thesis by (auto simp: honest_observation_def obs' observation_result_def observed_state_def)
    next
      case True
      note same = Observe_reads [OF obs] and bound = Observe_bound [OF obs']
      show ?thesis
      proof (cases ref)
        case None
        from Observe_unreferenced [OF obs' [unfolded None] True] obtain v
          where "ao_Outcome q = ''succeeded''" "a \<noteq> ''compute.server.reboot''" "Read b i s = (Inr v, s')" "vo_Status v = wanted a" by blast
        with same bound True None Read_target obs' show ?thesis
          by (auto simp: honest_observation_def observation_result_def observed_state_def)
      next
        case (Some r1)
        from Observe_referenced [OF obs' [unfolded Some] True] obtain n s1
          where nat: "Native b a i r1 s = (Inr n, s1)" and
            ends: "ao_Outcome q = ''failed'' \<and> broken n \<and> s1 = s'
              \<or> ao_Outcome q = ''succeeded'' \<and> concluded n \<and> (\<exists>v. Read b i s1 = (Inr v, s') \<and> vo_Status v = wanted a)" by blast
        from ends show ?thesis
        proof
          assume "ao_Outcome q = ''failed'' \<and> broken n \<and> s1 = s'"
          with same bound True Some nat obs' show ?thesis
            by (simp add: honest_observation_def observation_result_def observed_state_def)
        next
          assume ok: "ao_Outcome q = ''succeeded'' \<and> concluded n \<and> (\<exists>v. Read b i s1 = (Inr v, s') \<and> vo_Status v = wanted a)"
          then obtain v where "Read b i s1 = (Inr v, s')" "vo_Status v = wanted a" by blast
          with ok same bound True Some nat obs' Read_target show ?thesis
            by (auto simp: honest_observation_def observation_result_def observed_state_def)
        qed
      qed
    qed
  qed
qed

end

end
