(* ===== verification/Sama_Snapshots.thy ===== *)
theory Sama_Snapshots
  imports Sama_Adapters
begin

text \<open>
  What the snapshot actions of the provider adapters share (\<^verbatim>\<open>internal/provider/snapshot_review.go\<close>, \<^verbatim>\<open>snapshot_http.go\<close>), and the
  contract of a snapshot action. The JSON text of a snapshot's facts is an argument; a text that cannot be built is \<open>None\<close>.
\<close>

section \<open>Reviews\<close>

definition snapshotPreconditions :: "crypto \<Rightarrow> binding \<Rightarrow> string \<Rightarrow> string \<Rightarrow> string \<Rightarrow> string option \<Rightarrow> bool \<Rightarrow> adapter_error + preconditions" where
  "snapshotPreconditions K b action target name facts allowed = (case facts of None \<Rightarrow> Inl InvalidResponse
     | Some text \<Rightarrow> Inr \<lparr>pc_Fingerprint = sha256 K (''{'' @ join_comma
         [json_field ''Workspace'' (json_string (uuid_String (bi_workspace b))), json_field ''Connection'' (json_string (uuid_String (bi_connection b))),
          json_field ''Family'' (json_string (bi_family b)), json_field ''Version'' (FormatInt (bi_version b)), json_field ''Action'' (json_string action),
          json_field ''NativeID'' (json_string target), json_field ''Facts'' text] @ ''}''),
         pc_TargetName = (if name = [] then target else name), pc_Allowed = allowed, pc_HighImpact = True\<rparr>)"

definition server_facts :: "server_observation \<Rightarrow> bool \<Rightarrow> string" where
  "server_facts v locked = ''{'' @ join_comma [json_field ''NativeID'' (json_string (vo_NativeID v)), json_field ''NativeStatus'' (json_string (vo_NativeStatus v)),
     json_field ''Status'' (json_string (vo_Status v)), json_field ''Name'' (json_string (vo_Name v)), json_field ''ObservedAt'' (dq ''0001-01-01T00:00:00Z''),
     json_field ''Details'' (details_text v), json_field ''Locked'' (if locked then ''true'' else ''false'')] @ ''}''"

definition SnapshotServerReview :: "crypto \<Rightarrow> binding \<Rightarrow> string \<Rightarrow> server_observation \<Rightarrow> bool \<Rightarrow> adapter_error + preconditions" where
  "SnapshotServerReview K b action v locked = (if action \<noteq> SnapshotCreate then Inl AdapterUnsupported
     else snapshotPreconditions K b action (vo_NativeID v) (vo_Name v) (Some (server_facts v locked))
       (\<not> locked \<and> (vo_Status v = ''running'' \<or> vo_Status v = ''stopped'')))"

definition SnapshotImageReview :: "crypto \<Rightarrow> (snapshot_observation \<Rightarrow> string option) \<Rightarrow> binding \<Rightarrow> string \<Rightarrow> snapshot_observation \<Rightarrow> adapter_error + preconditions" where
  "SnapshotImageReview K marshal b action v = (if action \<noteq> SnapshotDelete then Inl AdapterUnsupported
     else snapshotPreconditions K b action (np_NativeID v) (np_Name v) (marshal (v\<lparr>np_ObservedAt := None\<rparr>))
       (np_Status v = ''available'' \<or> np_Status v = ''unknown'' \<and> np_StatusReason v = ''not_reported''))"

definition checked_snapshot :: "snapshot_observation \<Rightarrow> adapter_error + snapshot_observation" where
  "checked_snapshot v = (if CheckedSnapshot v then Inr v else Inl InvalidResponse)"

section \<open>Requests\<close>

definition delete_call :: "profile \<Rightarrow> string \<Rightarrow> string \<Rightarrow> string \<Rightarrow> http_call" where
  "delete_call p raw token request = \<lparr>hc_Method = ''DELETE'', hc_Profile = p, hc_URL = raw, hc_Token = token, hc_Body = [], hc_RequestID = request\<rparr>"

text \<open>The one exchange of a deletion: refusals are definite, and only 204 acknowledges it.\<close>

definition delete_once :: "wire \<Rightarrow> profile \<Rightarrow> string \<Rightarrow> string \<Rightarrow> string \<Rightarrow> http_call list \<Rightarrow> answer \<times> http_call list" where
  "delete_once w p raw token request log = (let call = delete_call p raw token request; env = wi_provider w log call; x = rq_exchange (env 0) in
     case RequestJSON (\<lambda>_. True) ''DELETE'' env of
       (Inl f, n, _) \<Rightarrow> (if exchange_status x \<in> {400, 401, 403, 404, 409, 422} then (outcome_only ''rejected'', None)
           else (outcome_only ''ambiguous'', Some (AdapterFailure f)), log @ replicate n call)
     | (Inr _, n, _) \<Rightarrow> (if exchange_status x \<noteq> 204 then (outcome_only ''ambiguous'', Some InvalidResponse)
           else (outcome_only ''accepted'', None), log @ replicate n call))"

definition DeleteSnapshotRequest :: "wire \<Rightarrow> binding \<Rightarrow> binding \<Rightarrow> profile \<Rightarrow> bool \<Rightarrow> string \<Rightarrow> string \<Rightarrow> string \<Rightarrow> http_call list \<Rightarrow> answer \<times> http_call list" where
  "DeleteSnapshotRequest w b expected p client raw token request log =
     (if b \<noteq> expected \<or> \<not> client \<or> token = [] then ((no_receipt, Some AdapterBinding), log)
      else (case profile_URL w p raw of None \<Rightarrow> ((no_receipt, Some AdapterEndpoint), log) | Some _ \<Rightarrow> delete_once w p raw token request log))"

definition delete_reference :: "string \<Rightarrow> answer \<Rightarrow> answer" where
  "delete_reference target a = (if snd a = None \<and> re_Outcome (fst a) = ''accepted''
     then ((fst a)\<lparr>re_Reference := ''delete/'' @ target\<rparr>, None) else a)"

definition SnapshotJSONStatus :: "wire \<Rightarrow> binding \<Rightarrow> binding \<Rightarrow> profile \<Rightarrow> bool \<Rightarrow> string \<Rightarrow> string \<Rightarrow> (string \<Rightarrow> 'a option)
    \<Rightarrow> http_call list \<Rightarrow> int \<times> (adapter_error + 'a) \<times> http_call list" where
  "SnapshotJSONStatus w b expected p client raw token decode log =
     (if \<not> client then (0, Inl AdapterBinding, log)
      else (case GetJSON w b expected p client raw token decode log of
        (r, log') \<Rightarrow> (last_status (wi_provider w log (get_call p raw token)) (length log' - length log) 0, r, log')))"

section \<open>The contract of a snapshot action\<close>

text \<open>A request for this address was answered with 404.\<close>

definition gone :: "(http_call list \<Rightarrow> http_call \<Rightarrow> nat \<Rightarrow> round) \<Rightarrow> string \<Rightarrow> http_call list \<Rightarrow> http_call list \<Rightarrow> bool" where
  "gone provider raw log log' \<longleftrightarrow> (\<exists>sent call rest k. log' = sent @ call # rest \<and> length log \<le> length sent \<and> hc_Method call = ''GET'' \<and> hc_URL call = raw
     \<and> exchange_status (rq_exchange (provider sent call k)) = 404)"

text \<open>
  An observation of a snapshot action is honest: it sends no mutation, it decides only with the reference of the
  submission, and then only on what \<open>shown\<close> and \<open>refuted\<close> say of that reference and this target.
\<close>

definition honest_snapshot_observation where
  "honest_snapshot_observation calls own supports shown refuted Observe b action target reference s \<longleftrightarrow>
     (case Observe b action target reference s of (r, s') \<Rightarrow> mutations (calls s') = mutations (calls s) \<and>
       (case observed_state reference (observation_result r) of
          Succeeded \<Rightarrow> b = own \<and> supports action \<and> (\<exists>q. reference = Some q \<and> shown target q s s')
        | Failed \<Rightarrow> b = own \<and> supports action \<and> (\<exists>q. reference = Some q \<and> refuted target q s s')
        | _ \<Rightarrow> True))"

locale snapshot_adapter = mutation_adapter calls provider own supports carries names Inspect Submit
  for calls :: "'s \<Rightarrow> http_call list" and provider own supports carries names Inspect Submit +
  fixes shown :: "string \<Rightarrow> string \<Rightarrow> 's \<Rightarrow> 's \<Rightarrow> bool"
    and refuted :: "string \<Rightarrow> string \<Rightarrow> 's \<Rightarrow> 's \<Rightarrow> bool"
    and Observe :: "binding \<Rightarrow> string \<Rightarrow> string \<Rightarrow> string option \<Rightarrow> 's \<Rightarrow> (adapter_error + action_observation) \<times> 's"
  assumes Observe_reads: "Observe b a i ref s = (res, s') \<Longrightarrow> mutations (calls s') = mutations (calls s)"
    and Observe_bound: "Observe b a i ref s = (Inr q, s') \<Longrightarrow> b = own \<and> supports a"
    and Observe_evidence: "Observe b a i ref s = (Inr q, s') \<Longrightarrow> ao_NativeEvidence q \<Longrightarrow>
      (\<exists>r. ref = Some r \<and> (ao_Outcome q = ''succeeded'' \<and> shown i r s s' \<or> ao_Outcome q = ''failed'' \<and> refuted i r s s'))"
begin

lemma snapshot_observation_is_honest:
  "honest_snapshot_observation calls own supports shown refuted Observe b a i ref s"
proof -
  obtain r s' where obs: "Observe b a i ref s = (r, s')" by (metis prod.exhaust)
  show ?thesis
  proof (cases r)
    case (Inl x)
    with Observe_reads [OF obs] show ?thesis by (simp add: honest_snapshot_observation_def obs observation_result_def observed_state_def)
  next
    case (Inr q)
    note obs' = obs [unfolded Inr]
    show ?thesis
    proof (cases "ao_NativeEvidence q")
      case False
      with Observe_reads [OF obs] show ?thesis by (auto simp: honest_snapshot_observation_def obs' observation_result_def observed_state_def)
    next
      case True
      with Observe_evidence [OF obs' True] Observe_reads [OF obs] Observe_bound [OF obs'] obs' show ?thesis
        by (auto simp: honest_snapshot_observation_def observation_result_def observed_state_def)
    qed
  qed
qed

end

section \<open>Shared facts\<close>

lemma DELETE_sent_once: "RequestJSON decodes ''DELETE'' env = (r, n, ds) \<Longrightarrow> n = 1 \<and> (r = Inr () \<longrightarrow> \<not> refused (rq_exchange (env 0)))"
proof -
  assume "RequestJSON decodes ''DELETE'' env = (r, n, ds)"
  then have loop: "request_loop decodes env 0 1 = (r, n, ds)" by (simp add: RequestJSON_def attempts_for_def)
  show ?thesis using request_loop_sent [OF loop] by (auto simp: judge_success exchange_status_def refused_def)
qed

text \<open>The answers that acknowledge a deletion.\<close>

definition acknowledges :: "string \<Rightarrow> string \<Rightarrow> exchange \<Rightarrow> bool" where
  "acknowledges target reference x \<longleftrightarrow> exchange_status x = 204 \<and> reference = ''delete/'' @ target"

lemma delete_once_sends:
  assumes "delete_once w p raw token request log = (a, log')" "is_mutation (delete_call p raw token request)" "carries (delete_call p raw token request)"
    "delete_reference i a = (rc, e)"
  shows "sends (wi_provider w) carries (acknowledges i) log rc e log'"
proof -
  let ?call = "delete_call p raw token request" let ?x = "rq_exchange (wi_provider w log ?call 0)"
  obtain r n ds where req: "RequestJSON (\<lambda>_. True) ''DELETE'' (wi_provider w log ?call) = (r, n, ds)" by (metis prod_cases3)
  note once = DELETE_sent_once [OF req]
  with assms req have log': "log' = log @ [?call]" by (cases r) (auto simp: delete_once_def Let_def)
  have "if refused ?x then rc = outcome_only ''rejected'' \<and> e = None
      else e = None \<longrightarrow> re_Outcome rc = ''ambiguous'' \<or> re_Outcome rc = ''accepted'' \<and> acknowledges i (re_Reference rc) ?x"
    using assms(1,4) req once
    by (cases r) (auto simp: delete_once_def Let_def refused_def delete_reference_def outcome_only_def acknowledges_def split: if_splits)
  with log' assms(2,3) show ?thesis unfolding sends_def Let_def by blast
qed

lemma DeleteSnapshotRequest_sends:
  assumes "DeleteSnapshotRequest w b expected p client raw token request log = (a, log')" "is_mutation (delete_call p raw token request)"
    "carries (delete_call p raw token request)" "delete_reference i a = (rc, e)"
  shows "sends (wi_provider w) carries (acknowledges i) log rc e log'"
proof -
  from assms(1) consider "delete_once w p raw token request log = (a, log')" | "log' = log" "snd a \<noteq> None"
    by (auto simp: DeleteSnapshotRequest_def split: if_splits option.splits)
  then show ?thesis
  proof cases
    case 1
    from delete_once_sends [where carries = carries, OF this assms(2-4)] show ?thesis .
  next
    case 2
    with assms(4) show ?thesis by (auto simp: delete_reference_def sends_def)
  qed
qed

lemma last_status_seen: "last_status env n old = old \<or> (\<exists>k<n. exchange_status (rq_exchange (env k)) = last_status env n old)"
proof (induction n)
  case (Suc n)
  then show ?case
    by (cases "rq_exchange (env n)") (auto simp: last_status_def exchange_status_def less_Suc_eq)
qed (simp add: last_status_def)

lemma GetJSON_status_gone:
  assumes "GetJSON w b expected p client raw token decode log = (r, log')"
    "last_status (wi_provider w log (get_call p raw token)) (length log' - length log) 0 = 404"
  shows "gone (wi_provider w) raw log log'"
proof -
  let ?call = "get_call p raw token"
  from last_status_seen [of "wi_provider w log ?call" "length log' - length log" 0] assms(2) obtain k
    where k: "k < length log' - length log" "exchange_status (rq_exchange (wi_provider w log ?call k)) = 404" by auto
  from assms(1) obtain n where "log' = log @ replicate n ?call" by (auto simp: GetJSON_def split: if_splits option.splits prod.splits sum.splits intro: that [of 0])
  with k have "log' = log @ ?call # replicate (n - 1) ?call" by (cases n) auto
  with k show ?thesis unfolding gone_def by (intro exI [of _ log] exI [of _ ?call] exI conjI) (auto simp: get_call_def)
qed

lemma SnapshotJSONStatus_reads: "SnapshotJSONStatus w b expected p client raw token decode log = (st, r, log') \<Longrightarrow> mutations log' = mutations log"
  by (auto simp: SnapshotJSONStatus_def dest!: GetJSON_reads split: if_splits prod.splits)

lemma SnapshotJSONStatus_gone: "SnapshotJSONStatus w b expected p client raw token decode log = (404, r, log') \<Longrightarrow> gone (wi_provider w) raw log log'"
  by (auto simp: SnapshotJSONStatus_def intro: GetJSON_status_gone split: if_splits prod.splits)

definition delete_carries :: "profile \<Rightarrow> string \<Rightarrow> string \<Rightarrow> string \<Rightarrow> string \<Rightarrow> http_call \<Rightarrow> bool" where
  "delete_carries p address token action target call \<longleftrightarrow> call = delete_call p (address @ ''/'' @ target) token []"

lemma is_mutation_delete: "p \<noteq> ContaboAuth \<Longrightarrow> is_mutation (delete_call p raw token request)"
  by (simp add: is_mutation_def delete_call_def)

lemma other_profiles: "HetznerCloud \<noteq> ContaboAuth" "DigitalOcean \<noteq> ContaboAuth" "Vultr \<noteq> ContaboAuth" "Contabo \<noteq> ContaboAuth"
  by (simp_all add: HetznerCloud_def DigitalOcean_def Vultr_def Contabo_def ContaboAuth_def)

lemma is_mutation_post: "p \<noteq> ContaboAuth \<Longrightarrow> is_mutation (post_call p raw token body request)"
  by (simp add: is_mutation_def post_call_def)

end
