(* ===== verification/Sama_Hetzner.thy ===== *)
theory Sama_Hetzner
  imports Sama_Snapshots
begin

text \<open>
  Package \<^verbatim>\<open>provider/hetzner\<close>: the Cloud API v1 client's inventory (\<^verbatim>\<open>client.go\<close>), power actions (\<^verbatim>\<open>power.go\<close>)
  and snapshots (\<^verbatim>\<open>snapshot.go\<close>, \<^verbatim>\<open>snapshot_create.go\<close>, \<^verbatim>\<open>snapshot_delete.go\<close>).
  A decoded pointer is \<open>None\<close> where the field is missing or null.
\<close>

section \<open>Responses\<close>

record hz_server =
  hs_Locked :: "bool option"
  hs_ID :: string
  hs_Name :: string
  hs_Status :: string
  hs_Location :: string
  hs_Type :: string

record hz_page =
  hp_Servers :: "hz_server list option"
  hp_Pagination :: "(int \<times> int option) option"

record hz_action =
  ha_ID :: string
  ha_Command :: string
  ha_Status :: string
  ha_Resources :: "(string \<times> string) list"

record hetzner_json =
  hj_server :: "string \<Rightarrow> hz_server option option"
  hj_page :: "string \<Rightarrow> hz_page option"
  hj_action :: "string \<Rightarrow> hz_action option option"

section \<open>Inventory\<close>

definition hetzner_base :: string where
  "hetzner_base = ''https://api.hetzner.cloud/v1/servers''"

definition hetzner_New :: "binding \<Rightarrow> credential \<Rightarrow> bool \<Rightarrow> api_client option" where
  "hetzner_New b c budget = new_client ''hetzner.cloud'' b c budget"

definition mapServer :: "wire \<Rightarrow> hz_server \<Rightarrow> adapter_error + server_observation" where
  "mapServer w s = (if \<not> NumericID (hs_ID s) then Inl InvalidResponse
     else CheckedObservation \<lparr>vo_NativeID = hs_ID s, vo_NativeStatus = hs_Status s,
       vo_Status = NormalizeStatus (hs_Status s) [(''running'', ''running''), (''off'', ''stopped''), (''initializing'', ''pending''), (''starting'', ''pending''),
         (''stopping'', ''pending''), (''deleting'', ''pending''), (''migrating'', ''pending''), (''rebuilding'', ''pending'')],
       vo_Name = hs_Name s, vo_ObservedAt = Some (wi_now w), vo_Region = hs_Location s, vo_MachineType = hs_Type s\<rparr>)"

definition hetzner_get :: "wire \<Rightarrow> api_client \<Rightarrow> binding \<Rightarrow> string \<Rightarrow> (string \<Rightarrow> 'a option) \<Rightarrow> 'a io" where
  "hetzner_get w c b raw decode = GetJSON w b (ac_binding c) HetznerCloud (ac_http c) raw (cr_Token (ac_credential c)) decode"

definition hetzner_Page :: "wire \<Rightarrow> hetzner_json \<Rightarrow> api_client \<Rightarrow> binding \<Rightarrow> string \<Rightarrow> (server_observation list \<times> string) io" where
  "hetzner_Page w J c b cursor = (case cursor_page cursor of None \<Rightarrow> io_raise InvalidResponse
     | Some page \<Rightarrow> io_bind (hetzner_get w c b (hetzner_base @ ''?per_page=50&page='' @ FormatInt page) (hj_page J)) (\<lambda>response.
         case (hp_Servers response, hp_Pagination response) of
           (Some servers, Some (current, later)) \<Rightarrow>
             if current \<noteq> page \<or> length servers > 50 then io_raise InvalidResponse
             else io_bind (io_lift (map_each (mapServer w) servers)) (\<lambda>found.
               case later of None \<Rightarrow> io_ret (found, [])
               | Some n \<Rightarrow> if n \<noteq> page + 1 \<or> n > 100 then io_raise InvalidResponse else io_ret (found, FormatInt n))
         | _ \<Rightarrow> io_raise InvalidResponse))"

definition hetzner_Read :: "wire \<Rightarrow> hetzner_json \<Rightarrow> api_client \<Rightarrow> binding \<Rightarrow> string \<Rightarrow> server_observation io" where
  "hetzner_Read w J c b target = (if \<not> NumericID target then io_raise InvalidResponse
     else io_bind (hetzner_get w c b (hetzner_base @ ''/'' @ target) (hj_server J)) (\<lambda>response.
       case response of None \<Rightarrow> io_raise InvalidResponse
       | Some s \<Rightarrow> if hs_ID s \<noteq> target then io_raise InvalidResponse else io_lift (mapServer w s)))"

definition hetzner_Validate :: "wire \<Rightarrow> hetzner_json \<Rightarrow> api_client \<Rightarrow> credential \<Rightarrow> (string \<times> string list) io" where
  "hetzner_Validate w J c input = (if input \<noteq> ac_credential c then io_raise AdapterBinding
     else io_bind (hetzner_Page w J c (ac_binding c) []) (\<lambda>_. io_raise AdapterUnverified))"

section \<open>Power\<close>

definition hetzner_command :: "string \<Rightarrow> string" where
  "hetzner_command action = (if action = ''compute.server.power_on'' then ''start_server''
     else if action = ''compute.server.shutdown'' then ''shutdown_server'' else if action = ''compute.server.reboot'' then ''reboot_server''
     else if action = ''compute.server.power_off'' then ''stop_server'' else [])"

definition hetzner_path :: "string \<Rightarrow> string" where
  "hetzner_path action = (if action = ''compute.server.power_on'' then ''poweron''
     else if action = ''compute.server.shutdown'' then ''shutdown'' else if action = ''compute.server.reboot'' then ''reboot''
     else if action = ''compute.server.power_off'' then ''poweroff'' else [])"

definition hetzner_Inspect :: "wire \<Rightarrow> hetzner_json \<Rightarrow> api_client \<Rightarrow> binding \<Rightarrow> string \<Rightarrow> string \<Rightarrow> preconditions io" where
  "hetzner_Inspect w J c b action target =
     (if b \<noteq> ac_binding c then io_raise AdapterBinding
      else if hetzner_path action = [] then io_raise AdapterUnsupported
      else if \<not> NumericID target then io_raise InvalidResponse
      else io_bind (hetzner_get w c b (hetzner_base @ ''/'' @ target) (hj_server J)) (\<lambda>response.
        case response of None \<Rightarrow> io_raise InvalidResponse
        | Some s \<Rightarrow> (case hs_Locked s of None \<Rightarrow> io_raise InvalidResponse
          | Some locked \<Rightarrow> if hs_ID s \<noteq> target then io_raise InvalidResponse
              else io_bind (io_lift (mapServer w s)) (\<lambda>v. io_bind (io_lift (PowerPreconditions (wi_crypto w) b action v))
                (\<lambda>pre. io_ret (pre\<lparr>pc_Allowed := pc_Allowed pre \<and> \<not> locked\<rparr>))))))"

definition hetzner_matches :: "hz_action option \<Rightarrow> string \<Rightarrow> string \<Rightarrow> bool" where
  "hetzner_matches a action target = (case a of None \<Rightarrow> False
     | Some n \<Rightarrow> ha_Command n = hetzner_command action \<and> length (ha_Resources n) \<le> 100 \<and> NumericID (ha_ID n)
         \<and> list_ex (\<lambda>(resource, kind). resource = target \<and> kind = ''server'') (ha_Resources n))"

definition hetzner_Submit :: "wire \<Rightarrow> hetzner_json \<Rightarrow> api_client \<Rightarrow> binding \<Rightarrow> string \<Rightarrow> string \<Rightarrow> string \<Rightarrow> http_call list \<Rightarrow> answer \<times> http_call list" where
  "hetzner_Submit w J c b action target fingerprint log = (case hetzner_Inspect w J c b action target log of
       (Inl e, log1) \<Rightarrow> ((no_receipt, Some e), log1)
     | (Inr pre, log1) \<Rightarrow>
         if \<not> pc_Allowed pre \<or> pc_Fingerprint pre \<noteq> fingerprint then ((outcome_only ''rejected'', None), log1)
         else (case post_mutation w b (ac_binding c) HetznerCloud (ac_http c) (hetzner_base @ ''/'' @ target @ ''/actions/'' @ hetzner_path action)
               (cr_Token (ac_credential c)) [] [] (hj_action J) log1 of
             ((receipt, e), response, log2) \<Rightarrow>
               if e \<noteq> None \<or> re_Outcome receipt = ''rejected'' then ((receipt, e), log2)
               else let native = Option.bind response (\<lambda>a. a) in
                 if \<not> hetzner_matches native action target then ((outcome_only ''ambiguous'', Some InvalidResponse), log2)
                 else ((\<lparr>re_Outcome = ''accepted'', re_Reference = ha_ID (the native)\<rparr>, None), log2)))"

text \<open>The native action behind a reference, as \<open>Observe\<close> reads and checks it.\<close>

definition hetzner_action :: "wire \<Rightarrow> hetzner_json \<Rightarrow> api_client \<Rightarrow> binding \<Rightarrow> string \<Rightarrow> string \<Rightarrow> string \<Rightarrow> hz_action io" where
  "hetzner_action w J c b action target reference =
     io_bind (hetzner_get w c b (''https://api.hetzner.cloud/v1/actions/'' @ reference) (hj_action J)) (\<lambda>a.
       if \<not> hetzner_matches a action target \<or> ha_ID (the a) \<noteq> reference then io_raise InvalidResponse else io_ret (the a))"

definition hetzner_Observe :: "wire \<Rightarrow> hetzner_json \<Rightarrow> api_client \<Rightarrow> binding \<Rightarrow> string \<Rightarrow> string \<Rightarrow> string option \<Rightarrow> action_observation io" where
  "hetzner_Observe w J c b action target reference =
     (if b \<noteq> ac_binding c then io_raise AdapterBinding
      else if hetzner_path action = [] then io_raise AdapterUnsupported
      else if \<not> NumericID target then io_raise InvalidResponse
      else (case reference of None \<Rightarrow> io_ret (observed ''unknown'')
        | Some r \<Rightarrow> if \<not> NumericID r then io_raise InvalidResponse
            else io_bind (hetzner_action w J c b action target r) (\<lambda>a.
              if ha_Status a = ''running'' then io_ret (observed ''pending'')
              else if ha_Status a = ''error'' then io_ret (proven ''failed'')
              else if ha_Status a = ''success'' then io_bind (hetzner_Read w J c b target) (\<lambda>v.
                if vo_Status v = wanted action then io_ret (proven ''succeeded'') else io_ret (observed ''pending''))
              else io_ret (observed ''unknown''))))"

section \<open>The contract\<close>

lemma hetzner_get_reads: "hetzner_get w c b raw decode s = (r, s') \<Longrightarrow> mutations s' = mutations s"
  unfolding hetzner_get_def by (rule GetJSON_reads)

lemma hetzner_Read_reads: "hetzner_Read w J c b target s = (r, s') \<Longrightarrow> mutations s' = mutations s"
  by (auto simp: hetzner_Read_def io_simps dest!: hetzner_get_reads split: if_splits sum.splits prod.splits option.splits)

lemma hetzner_Read_target: "hetzner_Read w J c b target s = (Inr v, s') \<Longrightarrow> vo_NativeID v = target"
  by (auto simp: hetzner_Read_def io_simps mapServer_def CheckedObservation_def split: if_splits sum.splits prod.splits option.splits)

lemma hetzner_Inspect_reads: "hetzner_Inspect w J c b a target s = (r, s') \<Longrightarrow> mutations s' = mutations s"
  by (auto simp: hetzner_Inspect_def io_simps dest!: hetzner_get_reads split: if_splits sum.splits prod.splits option.splits)

lemma hetzner_action_reads: "hetzner_action w J c b a target q s = (r, s') \<Longrightarrow> mutations s' = mutations s"
  by (auto simp: hetzner_action_def io_simps dest!: hetzner_get_reads split: if_splits sum.splits prod.splits option.splits)

lemma hetzner_Observe_reads: "hetzner_Observe w J c b a target ref s = (r, s') \<Longrightarrow> mutations s' = mutations s"
  by (auto simp: hetzner_Observe_def io_simps dest!: hetzner_action_reads hetzner_Read_reads split: if_splits sum.splits prod.splits option.splits)

text \<open>The request that carries out an action, and the answers that name a native action.\<close>

definition hetzner_carries :: "string \<Rightarrow> string \<Rightarrow> string \<Rightarrow> http_call \<Rightarrow> bool" where
  "hetzner_carries token action target call \<longleftrightarrow>
     call = post_call HetznerCloud (hetzner_base @ ''/'' @ target @ ''/actions/'' @ hetzner_path action) token [] []"

definition hetzner_names :: "hetzner_json \<Rightarrow> string \<Rightarrow> string \<Rightarrow> string \<Rightarrow> exchange \<Rightarrow> bool" where
  "hetzner_names J action target reference x = (case body_value (hj_action J) x of
       Some (Some n) \<Rightarrow> hetzner_matches (Some n) action target \<and> ha_ID n = reference | _ \<Rightarrow> False)"

lemma hetzner_sends:
  assumes "hetzner_Inspect w J c b a i s = (Inr pre, s1)" "pc_Allowed pre" "pc_Fingerprint pre = f" "hetzner_Submit w J c b a i f s = ((rc, e), s')"
  shows "sends (wi_provider w) (hetzner_carries (cr_Token (ac_credential c)) a i) (hetzner_names J a i) s1 rc e s'"
proof -
  let ?raw = "hetzner_base @ ''/'' @ i @ ''/actions/'' @ hetzner_path a"
  obtain rc1 e1 response s2 where post: "post_mutation w b (ac_binding c) HetznerCloud (ac_http c) ?raw (cr_Token (ac_credential c)) [] [] (hj_action J) s1
      = ((rc1, e1), response, s2)" by (metis prod.exhaust)
  with assms have "s' = s2" and kept: "e1 \<noteq> None \<or> re_Outcome rc1 = ''rejected'' \<Longrightarrow> rc = rc1 \<and> e = e1"
    and told: "e1 = None \<Longrightarrow> re_Outcome rc1 = ''ambiguous'' \<Longrightarrow> e = None \<Longrightarrow>
      \<exists>n. response = Some (Some n) \<and> hetzner_matches (Some n) a i \<and> rc = \<lparr>re_Outcome = ''accepted'', re_Reference = ha_ID n\<rparr>"
    by (auto simp: hetzner_Submit_def hetzner_matches_def Let_def bind_eq_Some_conv split: if_splits option.splits)
  have "sends (wi_provider w) (hetzner_carries (cr_Token (ac_credential c)) a i) (hetzner_names J a i) s1 rc e s2"
    by (rule post_mutation_sends [OF post _ _ kept])
      (auto simp: is_mutation_def hetzner_carries_def post_call_def HetznerCloud_def ContaboAuth_def hetzner_names_def dest!: told)
  with \<open>s' = s2\<close> show ?thesis by simp
qed

interpretation hetzner: power_adapter "\<lambda>log. log" "wi_provider w" "ac_binding c" "\<lambda>a. hetzner_path a \<noteq> []" "hetzner_carries (cr_Token (ac_credential c))"
  "hetzner_names J" "hetzner_Inspect w J c" "hetzner_Submit w J c" "\<lambda>n. ha_Status n = ''success''" "\<lambda>n. ha_Status n = ''error''" "hetzner_action w J c"
  "hetzner_Read w J c" "hetzner_Observe w J c" for w J c
proof
  fix b a i f s pre s' e and q :: action_observation and ref r
  show "hetzner_Inspect w J c b a i s = (Inr pre, s') \<Longrightarrow> b = ac_binding c \<and> hetzner_path a \<noteq> []"
    by (auto simp: hetzner_Inspect_def io_simps split: if_splits)
  show "hetzner_Inspect w J c b a i s = (Inl e, s') \<Longrightarrow> hetzner_Submit w J c b a i f s = ((no_receipt, Some e), s')"
    by (simp add: hetzner_Submit_def)
  show "hetzner_Inspect w J c b a i s = (Inr pre, s') \<Longrightarrow> \<not> pc_Allowed pre \<or> pc_Fingerprint pre \<noteq> f \<Longrightarrow>
      hetzner_Submit w J c b a i f s = ((outcome_only ''rejected'', None), s')"
    by (simp add: hetzner_Submit_def)
  show "hetzner_Observe w J c b a i ref s = (Inr q, s') \<Longrightarrow> b = ac_binding c \<and> hetzner_path a \<noteq> []"
    by (auto simp: hetzner_Observe_def io_simps split: if_splits)
  show "hetzner_Observe w J c b a i None s = (Inr q, s') \<Longrightarrow> ao_NativeEvidence q \<Longrightarrow>
      ao_Outcome q = ''succeeded'' \<and> a \<noteq> ''compute.server.reboot'' \<and> (\<exists>v. hetzner_Read w J c b i s = (Inr v, s') \<and> vo_Status v = wanted a)"
    by (auto simp: hetzner_Observe_def io_simps observed_def split: if_splits)
  show "hetzner_Observe w J c b a i (Some r) s = (Inr q, s') \<Longrightarrow> ao_NativeEvidence q \<Longrightarrow>
      (\<exists>n s1. hetzner_action w J c b a i r s = (Inr n, s1) \<and> (ao_Outcome q = ''failed'' \<and> ha_Status n = ''error'' \<and> s1 = s'
        \<or> ao_Outcome q = ''succeeded'' \<and> ha_Status n = ''success'' \<and> (\<exists>v. hetzner_Read w J c b i s1 = (Inr v, s') \<and> vo_Status v = wanted a)))"
    by (auto simp: hetzner_Observe_def io_simps observed_def proven_def split: if_splits sum.splits prod.splits)
qed (erule hetzner_Inspect_reads hetzner_Observe_reads hetzner_Read_target | erule (3) hetzner_sends)+

section \<open>Pages\<close>

interpretation hetzner_pages: numbered_pages "hetzner_Page w J c b" cursor_page for w J c b
proof
  fix cursor s found later s' p
  assume page: "hetzner_Page w J c b cursor s = (Inr (found, later), s')"
  then show "length found \<le> 50"
    by (auto simp: hetzner_Page_def io_simps dest!: map_each_length split: option.splits prod.splits sum.splits if_splits)
  assume "later \<noteq> []" "cursor_page cursor = Some p"
  with page have "p + 1 \<le> 100" "later = FormatInt (p + 1)"
    by (auto simp: hetzner_Page_def io_simps split: option.splits prod.splits sum.splits if_splits)
  with cursor_page_next [OF \<open>cursor_page cursor = Some p\<close>] show "p < 100 \<and> cursor_page later = Some (p + 1)" by simp
qed (rule cursor_page_first)

section \<open>Snapshots\<close>

record hz_image =
  hi_ID :: string
  hi_Name :: "string option"
  hi_Type :: string
  hi_Status :: string
  hi_Created :: "time option option"
  hi_ImageSize :: "float64 option"
  hi_DiskSize :: "float64 option"
  hi_CreatedFrom :: "string option"

record hz_image_page =
  hm_Images :: "hz_image list option"
  hm_Pagination :: "(int \<times> int option) option"

text \<open>An image with its protection flag, the pointer and the flag in it, and its time of deletion.\<close>

record hz_image_detail =
  hd_image :: hz_image
  hd_Protection :: "bool option option"
  hd_Deleted :: "time option option"

record hetzner_snapshot_json =
  hx_server :: "string \<Rightarrow> hz_server option option"
  hx_image :: "string \<Rightarrow> hz_image option option"
  hx_images :: "string \<Rightarrow> hz_image_page option"
  hx_detail :: "string \<Rightarrow> hz_image_detail option option"
  hx_created :: "string \<Rightarrow> (hz_action option \<times> hz_image option) option"
  hx_action :: "string \<Rightarrow> hz_action option option"
  hx_server_text :: "hz_server \<Rightarrow> string option"
  hx_detail_text :: "hz_image_detail \<Rightarrow> string option"

definition imagesBase :: string where
  "imagesBase = ''https://api.hetzner.cloud/v1/images''"

definition snapshotStatus :: "string \<Rightarrow> string" where
  "snapshotStatus native = (if native = ''creating'' then ''pending'' else if native = ''available'' then ''available'' else ''unknown'')"

definition hetzner_mapSnapshot :: "wire \<Rightarrow> hz_image \<Rightarrow> adapter_error + snapshot_observation" where
  "hetzner_mapSnapshot w s = (if \<not> NumericID (hi_ID s) \<or> hi_Type s \<noteq> ''snapshot'' then Inl InvalidResponse
     else if hi_CreatedFrom s \<noteq> None \<and> \<not> NumericID (the (hi_CreatedFrom s)) then Inl InvalidResponse
     else checked_snapshot \<lparr>np_NativeID = hi_ID s, np_Name = (case hi_Name s of None \<Rightarrow> [] | Some n \<Rightarrow> n),
       np_SourceNativeID = (case hi_CreatedFrom s of None \<Rightarrow> [] | Some source \<Rightarrow> source),
       np_SourceType = (if hi_CreatedFrom s = None then [] else ''compute.server''), np_Status = snapshotStatus (hi_Status s), np_NativeStatus = hi_Status s,
       np_StatusReason = [], np_CreatedAt = hi_Created s, np_NativeCreatedAt = [], np_CreationTimeReason = [], np_SizeBytes = None,
       np_SizeGB = hi_ImageSize s, np_MinimumDiskGB = hi_DiskSize s, np_Regions = [], np_ObservedAt = Some (wi_now w)\<rparr>)"

definition hetzner_SnapshotPage :: "wire \<Rightarrow> hetzner_snapshot_json \<Rightarrow> api_client \<Rightarrow> binding \<Rightarrow> string \<Rightarrow> (snapshot_observation list \<times> string) io" where
  "hetzner_SnapshotPage w J c b cursor = (case cursor_page cursor of None \<Rightarrow> io_raise InvalidResponse
     | Some page \<Rightarrow> io_bind (hetzner_get w c b (imagesBase @ ''?type=snapshot&per_page=50&page='' @ FormatInt page) (hx_images J)) (\<lambda>response.
         case (hm_Images response, hm_Pagination response) of
           (Some images, Some (current, later)) \<Rightarrow>
             if current \<noteq> page \<or> length images > 50 then io_raise InvalidResponse
             else io_bind (io_lift (map_each (hetzner_mapSnapshot w) images)) (\<lambda>found.
               case later of None \<Rightarrow> io_ret (found, [])
               | Some n \<Rightarrow> if n \<noteq> page + 1 \<or> n > 100 then io_raise InvalidResponse else io_ret (found, FormatInt n))
         | _ \<Rightarrow> io_raise InvalidResponse))"

definition hetzner_ReadSnapshot :: "wire \<Rightarrow> hetzner_snapshot_json \<Rightarrow> api_client \<Rightarrow> binding \<Rightarrow> string \<Rightarrow> snapshot_observation io" where
  "hetzner_ReadSnapshot w J c b target = (if \<not> NumericID target then io_raise InvalidResponse
     else io_bind (hetzner_get w c b (imagesBase @ ''/'' @ target) (hx_image J)) (\<lambda>response.
       case response of None \<Rightarrow> io_raise InvalidResponse
       | Some s \<Rightarrow> if hi_ID s \<noteq> target then io_raise InvalidResponse else io_lift (hetzner_mapSnapshot w s)))"

definition hetzner_create_Inspect :: "wire \<Rightarrow> hetzner_snapshot_json \<Rightarrow> api_client \<Rightarrow> binding \<Rightarrow> string \<Rightarrow> string \<Rightarrow> preconditions io" where
  "hetzner_create_Inspect w J c b action target =
     (if b \<noteq> ac_binding c then io_raise AdapterBinding
      else if action \<noteq> SnapshotCreate then io_raise AdapterUnsupported
      else if \<not> NumericID target then io_raise InvalidResponse
      else io_bind (hetzner_get w c b (hetzner_base @ ''/'' @ target) (hx_server J)) (\<lambda>response.
        case response of None \<Rightarrow> io_raise InvalidResponse
        | Some s \<Rightarrow> (case hs_Locked s of None \<Rightarrow> io_raise InvalidResponse
          | Some locked \<Rightarrow> if hs_ID s \<noteq> target then io_raise InvalidResponse
              else io_bind (io_lift (mapServer w s)) (\<lambda>_. io_lift (snapshotPreconditions (wi_crypto w) b action target (hs_Name s) (hx_server_text J s)
                (\<not> locked \<and> (hs_Status s = ''running'' \<or> hs_Status s = ''off'')))))))"

definition createMatches :: "hz_action option \<Rightarrow> string \<Rightarrow> string \<Rightarrow> bool" where
  "createMatches a server img = (case a of None \<Rightarrow> False
     | Some n \<Rightarrow> ha_Command n = ''create_image'' \<and> length (ha_Resources n) \<le> 100 \<and> NumericID (ha_ID n)
         \<and> list_ex (\<lambda>(resource, kind). kind = ''server'' \<and> resource = server) (ha_Resources n)
         \<and> list_ex (\<lambda>(resource, kind). kind = ''image'' \<and> resource = img) (ha_Resources n))"

definition hetzner_create_Submit :: "wire \<Rightarrow> hetzner_snapshot_json \<Rightarrow> api_client \<Rightarrow> binding \<Rightarrow> string \<Rightarrow> string \<Rightarrow> string \<Rightarrow> http_call list \<Rightarrow> answer \<times> http_call list" where
  "hetzner_create_Submit w J c b action target fingerprint log = (case hetzner_create_Inspect w J c b action target log of
       (Inl e, log1) \<Rightarrow> ((no_receipt, Some e), log1)
     | (Inr pre, log1) \<Rightarrow>
         if \<not> pc_Allowed pre \<or> pc_Fingerprint pre \<noteq> fingerprint then ((outcome_only ''rejected'', None), log1)
         else (case post_mutation w b (ac_binding c) HetznerCloud (ac_http c) (hetzner_base @ ''/'' @ target @ ''/actions/create_image'')
               (cr_Token (ac_credential c)) (''{'' @ json_field ''type'' (dq ''snapshot'') @ ''}'') [] (hx_created J) log1 of
             ((receipt, e), response, log2) \<Rightarrow>
               if e \<noteq> None \<or> re_Outcome receipt = ''rejected'' then ((receipt, e), log2)
               else (case response of Some (native, Some img) \<Rightarrow>
                     if \<not> NumericID (hi_ID img) \<or> hi_Type img \<noteq> ''snapshot'' \<or> \<not> createMatches native target (hi_ID img)
                     then ((outcome_only ''ambiguous'', Some InvalidResponse), log2)
                     else ((\<lparr>re_Outcome = ''accepted'', re_Reference = ha_ID (the native) @ ''/'' @ hi_ID img\<rparr>, None), log2)
                 | _ \<Rightarrow> ((outcome_only ''ambiguous'', Some InvalidResponse), log2))))"

text \<open>The native action behind a reference, as \<open>Observe\<close> reads and checks it.\<close>

definition hetzner_create_action :: "wire \<Rightarrow> hetzner_snapshot_json \<Rightarrow> api_client \<Rightarrow> binding \<Rightarrow> string \<Rightarrow> string \<Rightarrow> string \<Rightarrow> hz_action io" where
  "hetzner_create_action w J c b target reference img =
     io_bind (hetzner_get w c b (''https://api.hetzner.cloud/v1/actions/'' @ reference) (hx_action J)) (\<lambda>a.
       if \<not> createMatches a target img \<or> ha_ID (the a) \<noteq> reference then io_raise InvalidResponse else io_ret (the a))"

definition hetzner_create_Observe :: "wire \<Rightarrow> hetzner_snapshot_json \<Rightarrow> api_client \<Rightarrow> binding \<Rightarrow> string \<Rightarrow> string \<Rightarrow> string option \<Rightarrow> action_observation io" where
  "hetzner_create_Observe w J c b action target reference =
     (if b \<noteq> ac_binding c then io_raise AdapterBinding
      else if action \<noteq> SnapshotCreate then io_raise AdapterUnsupported
      else if \<not> NumericID target then io_raise InvalidResponse
      else (case reference of None \<Rightarrow> io_ret (observed ''unknown'')
        | Some r \<Rightarrow> (case Split CHR ''/'' r of
            [native, img] \<Rightarrow> if \<not> NumericID native \<or> \<not> NumericID img then io_raise InvalidResponse
              else io_bind (hetzner_create_action w J c b target native img) (\<lambda>a.
                if ha_Status a = ''running'' then io_ret (observed ''pending'')
                else if ha_Status a = ''error'' then io_ret (proven ''failed'')
                else if ha_Status a = ''success'' then io_bind (hetzner_ReadSnapshot w J c b img) (\<lambda>v.
                  if np_SourceNativeID v \<noteq> target \<or> np_SourceType v \<noteq> ''compute.server'' then io_raise InvalidResponse
                  else if np_Status v = ''available'' then io_ret (proven ''succeeded'') else io_ret (observed ''pending''))
                else io_ret (observed ''unknown''))
          | _ \<Rightarrow> io_raise InvalidResponse)))"

definition hetzner_delete_Inspect :: "wire \<Rightarrow> hetzner_snapshot_json \<Rightarrow> api_client \<Rightarrow> binding \<Rightarrow> string \<Rightarrow> string \<Rightarrow> preconditions io" where
  "hetzner_delete_Inspect w J c b action target =
     (if \<not> ac_http c \<or> b \<noteq> ac_binding c then io_raise AdapterBinding
      else if action \<noteq> SnapshotDelete then io_raise AdapterUnsupported
      else if \<not> NumericID target then io_raise InvalidResponse
      else io_bind (hetzner_get w c b (imagesBase @ ''/'' @ target) (hx_detail J)) (\<lambda>response.
        case response of None \<Rightarrow> io_raise InvalidResponse
        | Some d \<Rightarrow> (case hd_Protection d of Some (Some protected) \<Rightarrow>
              if hi_ID (hd_image d) \<noteq> target then io_raise InvalidResponse
              else io_bind (io_lift (hetzner_mapSnapshot w (hd_image d))) (\<lambda>v. io_lift (snapshotPreconditions (wi_crypto w) b action target (np_Name v)
                (hx_detail_text J d) (np_Status v = ''available'' \<and> \<not> protected \<and> hd_Deleted d = None)))
          | _ \<Rightarrow> io_raise InvalidResponse)))"

definition hetzner_delete_Submit :: "wire \<Rightarrow> hetzner_snapshot_json \<Rightarrow> api_client \<Rightarrow> binding \<Rightarrow> string \<Rightarrow> string \<Rightarrow> string \<Rightarrow> http_call list \<Rightarrow> answer \<times> http_call list" where
  "hetzner_delete_Submit w J c b action target fingerprint log = (case hetzner_delete_Inspect w J c b action target log of
       (Inl e, log1) \<Rightarrow> ((no_receipt, Some e), log1)
     | (Inr pre, log1) \<Rightarrow>
         if \<not> pc_Allowed pre \<or> pc_Fingerprint pre \<noteq> fingerprint then ((outcome_only ''rejected'', None), log1)
         else (case profile_URL w HetznerCloud (imagesBase @ ''/'' @ target) of None \<Rightarrow> ((no_receipt, Some AdapterEndpoint), log1)
           | Some _ \<Rightarrow> (case delete_once w HetznerCloud (imagesBase @ ''/'' @ target) (cr_Token (ac_credential c)) [] log1 of
               (a, log2) \<Rightarrow> (delete_reference target a, log2))))"

definition hetzner_delete_Observe :: "wire \<Rightarrow> hetzner_snapshot_json \<Rightarrow> api_client \<Rightarrow> binding \<Rightarrow> string \<Rightarrow> string \<Rightarrow> string option \<Rightarrow> action_observation io" where
  "hetzner_delete_Observe w J c b action target reference =
     (if \<not> ac_http c \<or> b \<noteq> ac_binding c then io_raise AdapterBinding
      else if action \<noteq> SnapshotDelete then io_raise AdapterUnsupported
      else if \<not> NumericID target then io_raise InvalidResponse
      else (case reference of None \<Rightarrow> io_ret (observed ''unknown'')
        | Some r \<Rightarrow> if r \<noteq> ''delete/'' @ target then io_raise InvalidResponse
            else (\<lambda>log. case SnapshotJSONStatus w b (ac_binding c) HetznerCloud (ac_http c) (imagesBase @ ''/'' @ target) (cr_Token (ac_credential c)) (hx_image J) log of
                (status, result, log') \<Rightarrow> (case result of
                    Inl e \<Rightarrow> if status = 404 then (Inr (proven ''succeeded''), log') else (Inl e, log')
                  | Inr None \<Rightarrow> (Inl InvalidResponse, log')
                  | Inr (Some s) \<Rightarrow> if hi_ID s \<noteq> target \<or> hi_Type s \<noteq> ''snapshot'' then (Inl InvalidResponse, log') else (Inr (observed ''pending''), log')))))"

text \<open>What proves and what refutes a creation: the referenced action's end and the image of this server.\<close>

definition hetzner_created :: "wire \<Rightarrow> hetzner_snapshot_json \<Rightarrow> api_client \<Rightarrow> string \<Rightarrow> string \<Rightarrow> http_call list \<Rightarrow> http_call list \<Rightarrow> bool" where
  "hetzner_created w J c target reference s s' \<longleftrightarrow> (\<exists>native img a s1 v. Split CHR ''/'' reference = [native, img]
     \<and> hetzner_create_action w J c (ac_binding c) target native img s = (Inr a, s1) \<and> ha_Status a = ''success''
     \<and> hetzner_ReadSnapshot w J c (ac_binding c) img s1 = (Inr v, s') \<and> np_SourceNativeID v = target \<and> np_Status v = ''available'')"

definition hetzner_not_created :: "wire \<Rightarrow> hetzner_snapshot_json \<Rightarrow> api_client \<Rightarrow> string \<Rightarrow> string \<Rightarrow> http_call list \<Rightarrow> http_call list \<Rightarrow> bool" where
  "hetzner_not_created w J c target reference s s' \<longleftrightarrow> (\<exists>native img a. Split CHR ''/'' reference = [native, img]
     \<and> hetzner_create_action w J c (ac_binding c) target native img s = (Inr a, s') \<and> ha_Status a = ''error'')"

definition hetzner_create_carries :: "string \<Rightarrow> string \<Rightarrow> string \<Rightarrow> http_call \<Rightarrow> bool" where
  "hetzner_create_carries token action target call \<longleftrightarrow> call = post_call HetznerCloud (hetzner_base @ ''/'' @ target @ ''/actions/create_image'') token
     (''{'' @ json_field ''type'' (dq ''snapshot'') @ ''}'') []"

definition hetzner_create_names :: "hetzner_snapshot_json \<Rightarrow> string \<Rightarrow> string \<Rightarrow> string \<Rightarrow> exchange \<Rightarrow> bool" where
  "hetzner_create_names J action target reference x = (case body_value (hx_created J) x of
       Some (Some n, Some img) \<Rightarrow> createMatches (Some n) target (hi_ID img) \<and> reference = ha_ID n @ ''/'' @ hi_ID img | _ \<Rightarrow> False)"

lemma hetzner_ReadSnapshot_reads: "hetzner_ReadSnapshot w J c b target s = (r, s') \<Longrightarrow> mutations s' = mutations s"
  by (auto simp: hetzner_ReadSnapshot_def io_simps dest!: hetzner_get_reads split: if_splits sum.splits prod.splits option.splits)

lemma hetzner_create_Inspect_reads: "hetzner_create_Inspect w J c b a target s = (r, s') \<Longrightarrow> mutations s' = mutations s"
  by (auto simp: hetzner_create_Inspect_def io_simps dest!: hetzner_get_reads split: if_splits sum.splits prod.splits option.splits)

lemma hetzner_create_action_reads: "hetzner_create_action w J c b target native img s = (r, s') \<Longrightarrow> mutations s' = mutations s"
  by (auto simp: hetzner_create_action_def io_simps dest!: hetzner_get_reads split: if_splits sum.splits prod.splits)

lemma hetzner_create_Observe_reads: "hetzner_create_Observe w J c b a target ref s = (r, s') \<Longrightarrow> mutations s' = mutations s"
  by (auto simp: hetzner_create_Observe_def io_simps dest!: hetzner_create_action_reads hetzner_ReadSnapshot_reads
      split: if_splits sum.splits prod.splits option.splits list.splits)

lemma hetzner_delete_Inspect_reads: "hetzner_delete_Inspect w J c b a target s = (r, s') \<Longrightarrow> mutations s' = mutations s"
  by (auto simp: hetzner_delete_Inspect_def io_simps dest!: hetzner_get_reads split: if_splits sum.splits prod.splits option.splits)

lemma hetzner_delete_Observe_reads: "hetzner_delete_Observe w J c b a target ref s = (r, s') \<Longrightarrow> mutations s' = mutations s"
  by (auto simp: hetzner_delete_Observe_def io_simps dest!: SnapshotJSONStatus_reads split: if_splits sum.splits prod.splits option.splits)

lemma hetzner_create_sends:
  assumes "hetzner_create_Inspect w J c b a i s = (Inr pre, s1)" "pc_Allowed pre" "pc_Fingerprint pre = f"
    "hetzner_create_Submit w J c b a i f s = ((rc, e), s')"
  shows "sends (wi_provider w) (hetzner_create_carries (cr_Token (ac_credential c)) a i) (hetzner_create_names J a i) s1 rc e s'"
proof -
  let ?raw = "hetzner_base @ ''/'' @ i @ ''/actions/create_image''" and ?body = "''{'' @ json_field ''type'' (dq ''snapshot'') @ ''}''"
  obtain rc1 e1 response s2 where post: "post_mutation w b (ac_binding c) HetznerCloud (ac_http c) ?raw (cr_Token (ac_credential c)) ?body [] (hx_created J) s1
      = ((rc1, e1), response, s2)" by (metis prod.exhaust)
  with assms have "s' = s2" and kept: "e1 \<noteq> None \<or> re_Outcome rc1 = ''rejected'' \<Longrightarrow> rc = rc1 \<and> e = e1"
    and told: "e1 = None \<Longrightarrow> re_Outcome rc1 = ''ambiguous'' \<Longrightarrow> e = None \<Longrightarrow>
      \<exists>n img. response = Some (Some n, Some img) \<and> createMatches (Some n) i (hi_ID img) \<and> rc = \<lparr>re_Outcome = ''accepted'', re_Reference = ha_ID n @ ''/'' @ hi_ID img\<rparr>"
    by (auto simp: hetzner_create_Submit_def createMatches_def split: if_splits option.splits)
  have "sends (wi_provider w) (hetzner_create_carries (cr_Token (ac_credential c)) a i) (hetzner_create_names J a i) s1 rc e s2"
    by (rule post_mutation_sends [OF post is_mutation_post [OF other_profiles(1)] _ kept])
      (auto simp: hetzner_create_carries_def hetzner_create_names_def dest!: told)
  with \<open>s' = s2\<close> show ?thesis by simp
qed

lemma hetzner_delete_sends:
  assumes "hetzner_delete_Inspect w J c b a i s = (Inr pre, s1)" "pc_Allowed pre" "pc_Fingerprint pre = f"
    "hetzner_delete_Submit w J c b a i f s = ((rc, e), s')"
  shows "sends (wi_provider w) (delete_carries HetznerCloud imagesBase (cr_Token (ac_credential c)) a i) (acknowledges i) s1 rc e s'"
proof -
  let ?raw = "imagesBase @ ''/'' @ i" and ?token = "cr_Token (ac_credential c)"
  from assms consider answer where "delete_once w HetznerCloud ?raw ?token [] s1 = (answer, s')" "delete_reference i answer = (rc, e)" | "s' = s1" "e \<noteq> None"
    by (auto simp: hetzner_delete_Submit_def split: option.splits prod.splits)
  then show ?thesis
  proof cases
    case 1
    show ?thesis
      by (rule delete_once_sends [OF 1(1) is_mutation_delete [OF other_profiles(1)] _ 1(2)]) (simp add: delete_carries_def)
  qed (simp add: sends_def)
qed

interpretation hetzner_create: snapshot_adapter "\<lambda>log. log" "wi_provider w" "ac_binding c" "\<lambda>a. a = SnapshotCreate"
  "hetzner_create_carries (cr_Token (ac_credential c))" "hetzner_create_names J" "hetzner_create_Inspect w J c" "hetzner_create_Submit w J c"
  "hetzner_created w J c" "hetzner_not_created w J c" "hetzner_create_Observe w J c" for w J c
proof
  fix b a i f s pre s' e and q :: action_observation and ref
  show "hetzner_create_Inspect w J c b a i s = (Inr pre, s') \<Longrightarrow> b = ac_binding c \<and> a = SnapshotCreate"
    by (auto simp: hetzner_create_Inspect_def io_simps split: if_splits)
  show "hetzner_create_Inspect w J c b a i s = (Inl e, s') \<Longrightarrow> hetzner_create_Submit w J c b a i f s = ((no_receipt, Some e), s')"
    by (simp add: hetzner_create_Submit_def)
  show "hetzner_create_Inspect w J c b a i s = (Inr pre, s') \<Longrightarrow> \<not> pc_Allowed pre \<or> pc_Fingerprint pre \<noteq> f \<Longrightarrow>
      hetzner_create_Submit w J c b a i f s = ((outcome_only ''rejected'', None), s')"
    by (simp add: hetzner_create_Submit_def)
  show "hetzner_create_Observe w J c b a i ref s = (Inr q, s') \<Longrightarrow> b = ac_binding c \<and> a = SnapshotCreate"
    by (auto simp: hetzner_create_Observe_def io_simps split: if_splits)
  show "hetzner_create_Observe w J c b a i ref s = (Inr q, s') \<Longrightarrow> ao_NativeEvidence q \<Longrightarrow>
      \<exists>r. ref = Some r \<and> (ao_Outcome q = ''succeeded'' \<and> hetzner_created w J c i r s s' \<or> ao_Outcome q = ''failed'' \<and> hetzner_not_created w J c i r s s')"
    by (auto simp: hetzner_create_Observe_def io_simps observed_def proven_def hetzner_created_def hetzner_not_created_def
        split: if_splits sum.splits prod.splits option.splits list.splits)
qed (erule hetzner_create_Inspect_reads hetzner_create_Observe_reads | erule (3) hetzner_create_sends)+

interpretation hetzner_delete: snapshot_adapter "\<lambda>log. log" "wi_provider w" "ac_binding c" "\<lambda>a. a = SnapshotDelete"
  "delete_carries HetznerCloud imagesBase (cr_Token (ac_credential c))" "\<lambda>_. acknowledges" "hetzner_delete_Inspect w J c" "hetzner_delete_Submit w J c"
  "\<lambda>target _. gone (wi_provider w) (imagesBase @ ''/'' @ target)" "\<lambda>_ _ _ _. False" "hetzner_delete_Observe w J c" for w J c
proof
  fix b a i f s pre s' e and q :: action_observation and ref
  show "hetzner_delete_Inspect w J c b a i s = (Inr pre, s') \<Longrightarrow> b = ac_binding c \<and> a = SnapshotDelete"
    by (auto simp: hetzner_delete_Inspect_def io_simps split: if_splits)
  show "hetzner_delete_Inspect w J c b a i s = (Inl e, s') \<Longrightarrow> hetzner_delete_Submit w J c b a i f s = ((no_receipt, Some e), s')"
    by (simp add: hetzner_delete_Submit_def)
  show "hetzner_delete_Inspect w J c b a i s = (Inr pre, s') \<Longrightarrow> \<not> pc_Allowed pre \<or> pc_Fingerprint pre \<noteq> f \<Longrightarrow>
      hetzner_delete_Submit w J c b a i f s = ((outcome_only ''rejected'', None), s')"
    by (simp add: hetzner_delete_Submit_def)
  show "hetzner_delete_Observe w J c b a i ref s = (Inr q, s') \<Longrightarrow> b = ac_binding c \<and> a = SnapshotDelete"
    by (auto simp: hetzner_delete_Observe_def io_simps split: if_splits)
  show "hetzner_delete_Observe w J c b a i ref s = (Inr q, s') \<Longrightarrow> ao_NativeEvidence q \<Longrightarrow>
      \<exists>r. ref = Some r \<and> (ao_Outcome q = ''succeeded'' \<and> gone (wi_provider w) (imagesBase @ ''/'' @ i) s s' \<or> ao_Outcome q = ''failed'' \<and> False)"
    by (auto simp: hetzner_delete_Observe_def io_simps observed_def proven_def dest: SnapshotJSONStatus_gone
        split: if_splits sum.splits prod.splits option.splits)
qed (erule hetzner_delete_Inspect_reads hetzner_delete_Observe_reads | erule (3) hetzner_delete_sends)+

interpretation hetzner_snapshot_pages: numbered_pages "hetzner_SnapshotPage w J c b" cursor_page for w J c b
proof
  fix cursor s found later s' p
  assume page: "hetzner_SnapshotPage w J c b cursor s = (Inr (found, later), s')"
  then show "length found \<le> 50"
    by (auto simp: hetzner_SnapshotPage_def io_simps dest!: map_each_length split: option.splits prod.splits sum.splits if_splits)
  assume "later \<noteq> []" "cursor_page cursor = Some p"
  with page have "p + 1 \<le> 100" "later = FormatInt (p + 1)"
    by (auto simp: hetzner_SnapshotPage_def io_simps split: option.splits prod.splits sum.splits if_splits)
  with cursor_page_next [OF \<open>cursor_page cursor = Some p\<close>] show "p < 100 \<and> cursor_page later = Some (p + 1)" by simp
qed (rule cursor_page_first)

end
