(* ===== verification/Sama_DigitalOcean.thy ===== *)
theory Sama_DigitalOcean
  imports Sama_Snapshots
begin

text \<open>
  Package \<^verbatim>\<open>provider/digitalocean\<close>: the Platform API v2 client's inventory (\<^verbatim>\<open>client.go\<close>), power actions (\<^verbatim>\<open>power.go\<close>)
  and snapshots (\<^verbatim>\<open>snapshot.go\<close>, \<^verbatim>\<open>snapshot_create.go\<close>, \<^verbatim>\<open>snapshot_delete.go\<close>).
  A decoded pointer is \<open>None\<close> where the field is missing or null; a time in it may still be the zero time, \<open>Some None\<close>.
\<close>

section \<open>Responses\<close>

record droplet =
  dr_ID :: string
  dr_Name :: string
  dr_Status :: string
  dr_Size :: string
  dr_Region :: string

record do_page =
  op_Droplets :: "droplet list option"
  op_Links :: "string option"

record do_action =
  da_ID :: string
  da_Status :: string
  da_Type :: string
  da_ResourceID :: string
  da_ResourceType :: string
  da_CompletedAt :: "time option option"

record digitalocean_json =
  dj_droplet :: "string \<Rightarrow> droplet option option"
  dj_locked :: "string \<Rightarrow> (droplet \<times> bool option) option option"
  dj_page :: "string \<Rightarrow> do_page option"
  dj_action :: "string \<Rightarrow> do_action option option"
  dj_account :: "string \<Rightarrow> string option option"

section \<open>Inventory\<close>

definition digitalocean_base :: string where
  "digitalocean_base = ''https://api.digitalocean.com/v2/droplets''"

definition digitalocean_New :: "binding \<Rightarrow> credential \<Rightarrow> bool \<Rightarrow> api_client option" where
  "digitalocean_New b c budget = new_client ''digitalocean.platform'' b c budget"

definition mapDroplet :: "wire \<Rightarrow> droplet \<Rightarrow> adapter_error + server_observation" where
  "mapDroplet w d = (if \<not> NumericID (dr_ID d) then Inl InvalidResponse
     else CheckedObservation \<lparr>vo_NativeID = dr_ID d, vo_NativeStatus = dr_Status d,
       vo_Status = NormalizeStatus (dr_Status d) [(''active'', ''running''), (''off'', ''stopped''), (''new'', ''pending'')],
       vo_Name = dr_Name d, vo_ObservedAt = Some (wi_now w), vo_Region = dr_Region d, vo_MachineType = dr_Size d\<rparr>)"

definition digitalocean_get :: "wire \<Rightarrow> api_client \<Rightarrow> binding \<Rightarrow> string \<Rightarrow> (string \<Rightarrow> 'a option) \<Rightarrow> 'a io" where
  "digitalocean_get w c b raw decode = GetJSON w b (ac_binding c) DigitalOcean (ac_http c) raw (cr_Token (ac_credential c)) decode"

definition droplet_next :: "wire \<Rightarrow> int \<Rightarrow> string \<Rightarrow> adapter_error + string" where
  "droplet_next w page link = (if link = [] then Inr []
     else (case profile_URL w DigitalOcean link of None \<Rightarrow> Inl InvalidResponse
       | Some u \<Rightarrow> (case StrictQuery w (ur_RawQuery u) [''page'', ''per_page''] of None \<Rightarrow> Inl InvalidResponse
         | Some q \<Rightarrow> if ur_Path u \<noteq> ''/v2/droplets'' \<or> query_Get q ''page'' \<noteq> FormatInt (page + 1) \<or> query_Get q ''per_page'' \<noteq> ''50'' \<or> page = 100
             then Inl InvalidResponse else Inr (FormatInt (page + 1)))))"

definition digitalocean_Page :: "wire \<Rightarrow> digitalocean_json \<Rightarrow> api_client \<Rightarrow> binding \<Rightarrow> string \<Rightarrow> (server_observation list \<times> string) io" where
  "digitalocean_Page w J c b cursor = (case cursor_page cursor of None \<Rightarrow> io_raise InvalidResponse
     | Some page \<Rightarrow> io_bind (digitalocean_get w c b (digitalocean_base @ ''?per_page=50&page='' @ FormatInt page) (dj_page J)) (\<lambda>response.
         case (op_Droplets response, op_Links response) of
           (Some droplets, Some link) \<Rightarrow>
             if length droplets > 50 then io_raise InvalidResponse
             else io_bind (io_lift (map_each (mapDroplet w) droplets)) (\<lambda>found.
               io_bind (io_lift (droplet_next w page link)) (\<lambda>later. io_ret (found, later)))
         | _ \<Rightarrow> io_raise InvalidResponse))"

definition digitalocean_Read :: "wire \<Rightarrow> digitalocean_json \<Rightarrow> api_client \<Rightarrow> binding \<Rightarrow> string \<Rightarrow> server_observation io" where
  "digitalocean_Read w J c b target = (if \<not> NumericID target then io_raise InvalidResponse
     else io_bind (digitalocean_get w c b (digitalocean_base @ ''/'' @ target) (dj_droplet J)) (\<lambda>response.
       case response of None \<Rightarrow> io_raise InvalidResponse
       | Some d \<Rightarrow> if dr_ID d \<noteq> target then io_raise InvalidResponse else io_lift (mapDroplet w d)))"

text \<open>\<open>uuid_parse\<close> is \<^verbatim>\<open>uuid.Parse\<close> of the identifier library.\<close>

definition AccountUserID :: "(string \<Rightarrow> uuid option) \<Rightarrow> wire \<Rightarrow> digitalocean_json \<Rightarrow> api_client \<Rightarrow> binding \<Rightarrow> string io" where
  "AccountUserID uuid_parse w J c b = io_bind (digitalocean_get w c b ''https://api.digitalocean.com/v2/account'' (dj_account J)) (\<lambda>account.
     case account of None \<Rightarrow> io_raise InvalidResponse
     | Some text \<Rightarrow> (case uuid_parse text of None \<Rightarrow> io_raise InvalidResponse
         | Some u \<Rightarrow> if u = 0 then io_raise InvalidResponse else io_ret (uuid_String u)))"

definition digitalocean_Validate :: "(string \<Rightarrow> uuid option) \<Rightarrow> wire \<Rightarrow> digitalocean_json \<Rightarrow> api_client \<Rightarrow> credential \<Rightarrow> (string \<times> string list) io" where
  "digitalocean_Validate uuid_parse w J c input = (if input \<noteq> ac_credential c then io_raise AdapterBinding
     else io_bind (AccountUserID uuid_parse w J c (ac_binding c)) (\<lambda>_.
       io_bind (digitalocean_Page w J c (ac_binding c) []) (\<lambda>_. io_raise AdapterUnverified)))"

section \<open>Power\<close>

definition powerType :: "string \<Rightarrow> string" where
  "powerType action = (if action = ''compute.server.power_on'' then ''power_on''
     else if action = ''compute.server.shutdown'' then ''shutdown'' else if action = ''compute.server.reboot'' then ''reboot''
     else if action = ''compute.server.power_off'' then ''power_off'' else [])"

definition digitalocean_Inspect :: "wire \<Rightarrow> digitalocean_json \<Rightarrow> api_client \<Rightarrow> binding \<Rightarrow> string \<Rightarrow> string \<Rightarrow> preconditions io" where
  "digitalocean_Inspect w J c b action target =
     (if b \<noteq> ac_binding c then io_raise AdapterBinding
      else if powerType action = [] then io_raise AdapterUnsupported
      else if \<not> NumericID target then io_raise InvalidResponse
      else io_bind (digitalocean_get w c b (digitalocean_base @ ''/'' @ target) (dj_locked J)) (\<lambda>response.
        case response of None \<Rightarrow> io_raise InvalidResponse
        | Some (d, flag) \<Rightarrow> (case flag of None \<Rightarrow> io_raise InvalidResponse
          | Some locked \<Rightarrow> if dr_ID d \<noteq> target then io_raise InvalidResponse
              else io_bind (io_lift (mapDroplet w d)) (\<lambda>v. io_bind (io_lift (PowerPreconditions (wi_crypto w) b action v))
                (\<lambda>pre. io_ret (pre\<lparr>pc_Allowed := pc_Allowed pre \<and> \<not> locked\<rparr>))))))"

definition digitalocean_matches :: "do_action option \<Rightarrow> string \<Rightarrow> string \<Rightarrow> bool" where
  "digitalocean_matches a action target = (case a of None \<Rightarrow> False
     | Some n \<Rightarrow> da_Type n = powerType action \<and> da_ResourceID n = target \<and> da_ResourceType n = ''droplet'' \<and> NumericID (da_ID n))"

definition digitalocean_body :: "string \<Rightarrow> string" where
  "digitalocean_body action = ''{'' @ json_field ''type'' (json_string (powerType action)) @ ''}''"

definition digitalocean_Submit :: "wire \<Rightarrow> digitalocean_json \<Rightarrow> api_client \<Rightarrow> binding \<Rightarrow> string \<Rightarrow> string \<Rightarrow> string \<Rightarrow> http_call list \<Rightarrow> answer \<times> http_call list" where
  "digitalocean_Submit w J c b action target fingerprint log = (case digitalocean_Inspect w J c b action target log of
       (Inl e, log1) \<Rightarrow> ((no_receipt, Some e), log1)
     | (Inr pre, log1) \<Rightarrow>
         if \<not> pc_Allowed pre \<or> pc_Fingerprint pre \<noteq> fingerprint then ((outcome_only ''rejected'', None), log1)
         else (case post_mutation w b (ac_binding c) DigitalOcean (ac_http c) (digitalocean_base @ ''/'' @ target @ ''/actions'')
               (cr_Token (ac_credential c)) (digitalocean_body action) [] (dj_action J) log1 of
             ((receipt, e), response, log2) \<Rightarrow>
               if e \<noteq> None \<or> re_Outcome receipt = ''rejected'' then ((receipt, e), log2)
               else let native = Option.bind response (\<lambda>a. a) in
                 if \<not> digitalocean_matches native action target then ((outcome_only ''ambiguous'', Some InvalidResponse), log2)
                 else ((\<lparr>re_Outcome = ''accepted'', re_Reference = da_ID (the native)\<rparr>, None), log2)))"

text \<open>The native action behind a reference, as \<open>Observe\<close> reads and checks it.\<close>

definition digitalocean_action :: "wire \<Rightarrow> digitalocean_json \<Rightarrow> api_client \<Rightarrow> binding \<Rightarrow> string \<Rightarrow> string \<Rightarrow> string \<Rightarrow> do_action io" where
  "digitalocean_action w J c b action target reference =
     io_bind (digitalocean_get w c b (digitalocean_base @ ''/'' @ target @ ''/actions/'' @ reference) (dj_action J)) (\<lambda>a.
       if \<not> digitalocean_matches a action target \<or> da_ID (the a) \<noteq> reference then io_raise InvalidResponse else io_ret (the a))"

definition digitalocean_Observe :: "wire \<Rightarrow> digitalocean_json \<Rightarrow> api_client \<Rightarrow> binding \<Rightarrow> string \<Rightarrow> string \<Rightarrow> string option \<Rightarrow> action_observation io" where
  "digitalocean_Observe w J c b action target reference =
     (if b \<noteq> ac_binding c then io_raise AdapterBinding
      else if powerType action = [] then io_raise AdapterUnsupported
      else if \<not> NumericID target then io_raise InvalidResponse
      else (case reference of None \<Rightarrow> io_ret (observed ''unknown'')
        | Some r \<Rightarrow> if \<not> NumericID r then io_raise InvalidResponse
            else io_bind (digitalocean_action w J c b action target r) (\<lambda>a.
              if da_Status a = ''in-progress'' then io_ret (observed ''pending'')
              else if da_Status a = ''errored'' then io_ret (proven ''failed'')
              else if da_Status a = ''completed'' then
                (if da_CompletedAt a = None \<or> da_CompletedAt a = Some None then io_ret (observed ''unknown'')
                 else io_bind (digitalocean_Read w J c b target) (\<lambda>v.
                   if vo_Status v = wanted action then io_ret (proven ''succeeded'') else io_ret (observed ''pending'')))
              else io_ret (observed ''unknown''))))"

section \<open>The contract\<close>

lemma digitalocean_get_reads: "digitalocean_get w c b raw decode s = (r, s') \<Longrightarrow> mutations s' = mutations s"
  unfolding digitalocean_get_def by (rule GetJSON_reads)

lemma digitalocean_Read_reads: "digitalocean_Read w J c b target s = (r, s') \<Longrightarrow> mutations s' = mutations s"
  by (auto simp: digitalocean_Read_def io_simps dest!: digitalocean_get_reads split: if_splits sum.splits prod.splits option.splits)

lemma digitalocean_Read_target: "digitalocean_Read w J c b target s = (Inr v, s') \<Longrightarrow> vo_NativeID v = target"
  by (auto simp: digitalocean_Read_def io_simps mapDroplet_def CheckedObservation_def split: if_splits sum.splits prod.splits option.splits)

lemma digitalocean_Inspect_reads: "digitalocean_Inspect w J c b a target s = (r, s') \<Longrightarrow> mutations s' = mutations s"
  by (auto simp: digitalocean_Inspect_def io_simps dest!: digitalocean_get_reads split: if_splits sum.splits prod.splits option.splits)

lemma digitalocean_action_reads: "digitalocean_action w J c b a target q s = (r, s') \<Longrightarrow> mutations s' = mutations s"
  by (auto simp: digitalocean_action_def io_simps dest!: digitalocean_get_reads split: if_splits sum.splits prod.splits option.splits)

lemma digitalocean_Observe_reads: "digitalocean_Observe w J c b a target ref s = (r, s') \<Longrightarrow> mutations s' = mutations s"
  by (auto simp: digitalocean_Observe_def io_simps dest!: digitalocean_action_reads digitalocean_Read_reads split: if_splits sum.splits prod.splits option.splits)

text \<open>The request that carries out an action, and the answers that name a native action.\<close>

definition digitalocean_carries :: "string \<Rightarrow> string \<Rightarrow> string \<Rightarrow> http_call \<Rightarrow> bool" where
  "digitalocean_carries token action target call \<longleftrightarrow>
     call = post_call DigitalOcean (digitalocean_base @ ''/'' @ target @ ''/actions'') token (digitalocean_body action) []"

definition digitalocean_names :: "digitalocean_json \<Rightarrow> string \<Rightarrow> string \<Rightarrow> string \<Rightarrow> exchange \<Rightarrow> bool" where
  "digitalocean_names J action target reference x = (case body_value (dj_action J) x of
       Some (Some n) \<Rightarrow> digitalocean_matches (Some n) action target \<and> da_ID n = reference | _ \<Rightarrow> False)"

definition completed_action :: "do_action \<Rightarrow> bool" where
  "completed_action n \<longleftrightarrow> da_Status n = ''completed'' \<and> (\<exists>t. da_CompletedAt n = Some (Some t))"

lemma digitalocean_sends:
  assumes "digitalocean_Inspect w J c b a i s = (Inr pre, s1)" "pc_Allowed pre" "pc_Fingerprint pre = f" "digitalocean_Submit w J c b a i f s = ((rc, e), s')"
  shows "sends (wi_provider w) (digitalocean_carries (cr_Token (ac_credential c)) a i) (digitalocean_names J a i) s1 rc e s'"
proof -
  let ?raw = "digitalocean_base @ ''/'' @ i @ ''/actions''"
  obtain rc1 e1 response s2 where post: "post_mutation w b (ac_binding c) DigitalOcean (ac_http c) ?raw (cr_Token (ac_credential c)) (digitalocean_body a) [] (dj_action J) s1
      = ((rc1, e1), response, s2)" by (metis prod.exhaust)
  with assms have "s' = s2" and kept: "e1 \<noteq> None \<or> re_Outcome rc1 = ''rejected'' \<Longrightarrow> rc = rc1 \<and> e = e1"
    and told: "e1 = None \<Longrightarrow> re_Outcome rc1 = ''ambiguous'' \<Longrightarrow> e = None \<Longrightarrow>
      \<exists>n. response = Some (Some n) \<and> digitalocean_matches (Some n) a i \<and> rc = \<lparr>re_Outcome = ''accepted'', re_Reference = da_ID n\<rparr>"
    by (auto simp: digitalocean_Submit_def digitalocean_matches_def Let_def bind_eq_Some_conv split: if_splits option.splits)
  have "sends (wi_provider w) (digitalocean_carries (cr_Token (ac_credential c)) a i) (digitalocean_names J a i) s1 rc e s2"
    by (rule post_mutation_sends [OF post _ _ kept])
      (auto simp: is_mutation_def digitalocean_carries_def post_call_def DigitalOcean_def ContaboAuth_def digitalocean_names_def dest!: told)
  with \<open>s' = s2\<close> show ?thesis by simp
qed

interpretation digitalocean: power_adapter "\<lambda>log. log" "wi_provider w" "ac_binding c" "\<lambda>a. powerType a \<noteq> []" "digitalocean_carries (cr_Token (ac_credential c))"
  "digitalocean_names J" "digitalocean_Inspect w J c" "digitalocean_Submit w J c" completed_action "\<lambda>n. da_Status n = ''errored''" "digitalocean_action w J c"
  "digitalocean_Read w J c" "digitalocean_Observe w J c" for w J c
proof
  fix b a i f s pre s' e and q :: action_observation and ref r
  show "digitalocean_Inspect w J c b a i s = (Inr pre, s') \<Longrightarrow> b = ac_binding c \<and> powerType a \<noteq> []"
    by (auto simp: digitalocean_Inspect_def io_simps split: if_splits)
  show "digitalocean_Inspect w J c b a i s = (Inl e, s') \<Longrightarrow> digitalocean_Submit w J c b a i f s = ((no_receipt, Some e), s')"
    by (simp add: digitalocean_Submit_def)
  show "digitalocean_Inspect w J c b a i s = (Inr pre, s') \<Longrightarrow> \<not> pc_Allowed pre \<or> pc_Fingerprint pre \<noteq> f \<Longrightarrow>
      digitalocean_Submit w J c b a i f s = ((outcome_only ''rejected'', None), s')"
    by (simp add: digitalocean_Submit_def)
  show "digitalocean_Observe w J c b a i ref s = (Inr q, s') \<Longrightarrow> b = ac_binding c \<and> powerType a \<noteq> []"
    by (auto simp: digitalocean_Observe_def io_simps split: if_splits)
  show "digitalocean_Observe w J c b a i None s = (Inr q, s') \<Longrightarrow> ao_NativeEvidence q \<Longrightarrow>
      ao_Outcome q = ''succeeded'' \<and> a \<noteq> ''compute.server.reboot'' \<and> (\<exists>v. digitalocean_Read w J c b i s = (Inr v, s') \<and> vo_Status v = wanted a)"
    by (auto simp: digitalocean_Observe_def io_simps observed_def split: if_splits)
  show "digitalocean_Observe w J c b a i (Some r) s = (Inr q, s') \<Longrightarrow> ao_NativeEvidence q \<Longrightarrow>
      (\<exists>n s1. digitalocean_action w J c b a i r s = (Inr n, s1) \<and> (ao_Outcome q = ''failed'' \<and> da_Status n = ''errored'' \<and> s1 = s'
        \<or> ao_Outcome q = ''succeeded'' \<and> completed_action n \<and> (\<exists>v. digitalocean_Read w J c b i s1 = (Inr v, s') \<and> vo_Status v = wanted a)))"
    by (auto simp: digitalocean_Observe_def io_simps observed_def proven_def completed_action_def split: if_splits sum.splits prod.splits)
qed (erule digitalocean_Inspect_reads digitalocean_Observe_reads digitalocean_Read_target | erule (3) digitalocean_sends)+

section \<open>Pages\<close>

lemma droplet_next_page: "droplet_next w page link = Inr later \<Longrightarrow> later \<noteq> [] \<Longrightarrow> page \<noteq> 100 \<and> later = FormatInt (page + 1)"
  by (auto simp: droplet_next_def split: if_splits option.splits)

interpretation digitalocean_pages: numbered_pages "digitalocean_Page w J c b" cursor_page for w J c b
proof
  fix cursor s found later s' p
  assume page: "digitalocean_Page w J c b cursor s = (Inr (found, later), s')"
  then show "length found \<le> 50"
    by (auto simp: digitalocean_Page_def io_simps dest!: map_each_length split: option.splits prod.splits sum.splits if_splits)
  assume "later \<noteq> []" and p: "cursor_page cursor = Some p"
  with page have "p \<noteq> 100" "later = FormatInt (p + 1)"
    by (auto simp: digitalocean_Page_def io_simps dest!: droplet_next_page split: option.splits prod.splits sum.splits if_splits)
  moreover from p have "p \<le> 100" by (auto simp: cursor_page_def split: if_splits option.splits)
  ultimately show "p < 100 \<and> cursor_page later = Some (p + 1)" using cursor_page_next [OF p] by simp
qed (rule cursor_page_first)

section \<open>Snapshots\<close>

record do_snapshot =
  ds_ID :: string
  ds_Name :: string
  ds_ResourceID :: string
  ds_ResourceType :: string
  ds_Created :: "time option option"
  ds_Regions :: "string list"
  ds_Size :: "float64 option"
  ds_MinimumDisk :: "float64 option"

record do_snapshot_page =
  dn_Snapshots :: "do_snapshot list option"
  dn_Links :: "string option"

record digitalocean_snapshot_json =
  dx_snapshot :: "string \<Rightarrow> do_snapshot option option"
  dx_page :: "string \<Rightarrow> do_snapshot_page option"
  dx_locked :: "string \<Rightarrow> (droplet \<times> bool option) option option"
  dx_action :: "string \<Rightarrow> do_action option option"
  dx_text :: "snapshot_observation \<Rightarrow> string option"

definition do_snapshotsBase :: string where
  "do_snapshotsBase = ''https://api.digitalocean.com/v2/snapshots''"

definition snapshotID :: "string \<Rightarrow> bool" where
  "snapshotID s = code_like ''-'' 127 s"

definition digitalocean_mapSnapshot :: "wire \<Rightarrow> do_snapshot \<Rightarrow> adapter_error + snapshot_observation" where
  "digitalocean_mapSnapshot w s = (if \<not> snapshotID (ds_ID s) \<or> \<not> snapshotID (ds_ResourceID s) then Inl InvalidResponse
     else if ds_ResourceType s \<noteq> ''droplet'' \<and> ds_ResourceType s \<noteq> ''volume'' then Inl InvalidResponse
     else checked_snapshot \<lparr>np_NativeID = ds_ID s, np_Name = ds_Name s, np_SourceNativeID = ds_ResourceID s,
       np_SourceType = (if ds_ResourceType s = ''droplet'' then ''compute.server'' else ''storage.volume''), np_Status = ''unknown'', np_NativeStatus = [],
       np_StatusReason = ''not_reported'', np_CreatedAt = ds_Created s, np_NativeCreatedAt = [], np_CreationTimeReason = [], np_SizeBytes = None,
       np_SizeGB = ds_Size s, np_MinimumDiskGB = ds_MinimumDisk s, np_Regions = ds_Regions s, np_ObservedAt = Some (wi_now w)\<rparr>)"

definition do_snapshot_next :: "wire \<Rightarrow> int \<Rightarrow> string \<Rightarrow> adapter_error + string" where
  "do_snapshot_next w page link = (if link = [] then Inr []
     else (case profile_URL w DigitalOcean link of None \<Rightarrow> Inl InvalidResponse
       | Some u \<Rightarrow> (case StrictQuery w (ur_RawQuery u) [''page'', ''per_page''] of None \<Rightarrow> Inl InvalidResponse
         | Some q \<Rightarrow> if ur_Path u \<noteq> ''/v2/snapshots'' \<or> query_Get q ''page'' \<noteq> FormatInt (page + 1) \<or> query_Get q ''per_page'' \<noteq> ''50'' \<or> page = 100
             then Inl InvalidResponse else Inr (FormatInt (page + 1)))))"

definition digitalocean_SnapshotPage :: "wire \<Rightarrow> digitalocean_snapshot_json \<Rightarrow> api_client \<Rightarrow> binding \<Rightarrow> string \<Rightarrow> (snapshot_observation list \<times> string) io" where
  "digitalocean_SnapshotPage w J c b cursor = (case cursor_page cursor of None \<Rightarrow> io_raise InvalidResponse
     | Some page \<Rightarrow> io_bind (digitalocean_get w c b (do_snapshotsBase @ ''?per_page=50&page='' @ FormatInt page) (dx_page J)) (\<lambda>response.
         case (dn_Snapshots response, dn_Links response) of
           (Some snapshots, Some link) \<Rightarrow>
             if length snapshots > 50 then io_raise InvalidResponse
             else io_bind (io_lift (map_each (digitalocean_mapSnapshot w) snapshots)) (\<lambda>found.
               io_bind (io_lift (do_snapshot_next w page link)) (\<lambda>later. io_ret (found, later)))
         | _ \<Rightarrow> io_raise InvalidResponse))"

definition digitalocean_ReadSnapshot :: "wire \<Rightarrow> digitalocean_snapshot_json \<Rightarrow> api_client \<Rightarrow> binding \<Rightarrow> string \<Rightarrow> snapshot_observation io" where
  "digitalocean_ReadSnapshot w J c b target = (if \<not> snapshotID target then io_raise InvalidResponse
     else io_bind (digitalocean_get w c b (do_snapshotsBase @ ''/'' @ target) (dx_snapshot J)) (\<lambda>response.
       case response of None \<Rightarrow> io_raise InvalidResponse
       | Some s \<Rightarrow> if ds_ID s \<noteq> target then io_raise InvalidResponse else io_lift (digitalocean_mapSnapshot w s)))"

definition digitalocean_create_Inspect :: "wire \<Rightarrow> digitalocean_snapshot_json \<Rightarrow> api_client \<Rightarrow> binding \<Rightarrow> string \<Rightarrow> string \<Rightarrow> preconditions io" where
  "digitalocean_create_Inspect w J c b action target =
     (if b \<noteq> ac_binding c then io_raise AdapterBinding
      else if action \<noteq> SnapshotCreate then io_raise AdapterUnsupported
      else if \<not> NumericID target then io_raise InvalidResponse
      else io_bind (digitalocean_get w c b (digitalocean_base @ ''/'' @ target) (dx_locked J)) (\<lambda>response.
        case response of None \<Rightarrow> io_raise InvalidResponse
        | Some (d, flag) \<Rightarrow> (case flag of None \<Rightarrow> io_raise InvalidResponse
          | Some locked \<Rightarrow> if dr_ID d \<noteq> target then io_raise InvalidResponse
              else io_bind (io_lift (mapDroplet w d)) (\<lambda>v. io_lift (SnapshotServerReview (wi_crypto w) b action v locked)))))"

definition matchesSnapshotAction :: "do_action option \<Rightarrow> string \<Rightarrow> bool" where
  "matchesSnapshotAction a target = (case a of None \<Rightarrow> False
     | Some n \<Rightarrow> da_Type n = ''snapshot'' \<and> da_ResourceID n = target \<and> da_ResourceType n = ''droplet'' \<and> NumericID (da_ID n))"

definition snapshot_body :: "string \<Rightarrow> string" where
  "snapshot_body target = ''{'' @ join_comma [json_field ''type'' (dq ''snapshot''), json_field ''name'' (json_string (''sama-'' @ target))] @ ''}''"

definition digitalocean_create_Submit :: "wire \<Rightarrow> digitalocean_snapshot_json \<Rightarrow> api_client \<Rightarrow> binding \<Rightarrow> string \<Rightarrow> string \<Rightarrow> string \<Rightarrow> http_call list
    \<Rightarrow> answer \<times> http_call list" where
  "digitalocean_create_Submit w J c b action target fingerprint log = (case digitalocean_create_Inspect w J c b action target log of
       (Inl e, log1) \<Rightarrow> ((no_receipt, Some e), log1)
     | (Inr pre, log1) \<Rightarrow>
         if \<not> pc_Allowed pre \<or> pc_Fingerprint pre \<noteq> fingerprint then ((outcome_only ''rejected'', None), log1)
         else (case post_mutation w b (ac_binding c) DigitalOcean (ac_http c) (digitalocean_base @ ''/'' @ target @ ''/actions'')
               (cr_Token (ac_credential c)) (snapshot_body target) [] (dx_action J) log1 of
             ((receipt, e), response, log2) \<Rightarrow>
               if e \<noteq> None \<or> re_Outcome receipt = ''rejected'' then ((receipt, e), log2)
               else let native = Option.bind response (\<lambda>a. a) in
                 if \<not> matchesSnapshotAction native target then ((outcome_only ''ambiguous'', Some InvalidResponse), log2)
                 else ((\<lparr>re_Outcome = ''accepted'', re_Reference = da_ID (the native)\<rparr>, None), log2)))"

definition digitalocean_create_action :: "wire \<Rightarrow> digitalocean_snapshot_json \<Rightarrow> api_client \<Rightarrow> binding \<Rightarrow> string \<Rightarrow> string \<Rightarrow> do_action io" where
  "digitalocean_create_action w J c b target reference =
     io_bind (digitalocean_get w c b (digitalocean_base @ ''/'' @ target @ ''/actions/'' @ reference) (dx_action J)) (\<lambda>a.
       if \<not> matchesSnapshotAction a target \<or> da_ID (the a) \<noteq> reference then io_raise InvalidResponse else io_ret (the a))"

definition digitalocean_create_Observe :: "wire \<Rightarrow> digitalocean_snapshot_json \<Rightarrow> api_client \<Rightarrow> binding \<Rightarrow> string \<Rightarrow> string \<Rightarrow> string option \<Rightarrow> action_observation io" where
  "digitalocean_create_Observe w J c b action target reference =
     (if b \<noteq> ac_binding c then io_raise AdapterBinding
      else if action \<noteq> SnapshotCreate then io_raise AdapterUnsupported
      else if \<not> NumericID target then io_raise InvalidResponse
      else (case reference of None \<Rightarrow> io_ret (observed ''unknown'')
        | Some r \<Rightarrow> if \<not> NumericID r then io_raise InvalidResponse
            else io_bind (digitalocean_create_action w J c b target r) (\<lambda>a.
              if da_Status a = ''in-progress'' then io_ret (observed ''pending'')
              else if da_Status a = ''errored'' then io_ret (proven ''failed'')
              else if da_Status a = ''completed'' then
                (if da_CompletedAt a = None \<or> da_CompletedAt a = Some None then io_ret (observed ''unknown'') else io_ret (proven ''succeeded''))
              else io_ret (observed ''unknown''))))"

definition digitalocean_delete_Inspect :: "wire \<Rightarrow> digitalocean_snapshot_json \<Rightarrow> api_client \<Rightarrow> binding \<Rightarrow> string \<Rightarrow> string \<Rightarrow> preconditions io" where
  "digitalocean_delete_Inspect w J c b action target =
     (if b \<noteq> ac_binding c then io_raise AdapterBinding
      else if action \<noteq> SnapshotDelete then io_raise AdapterUnsupported
      else io_bind (digitalocean_ReadSnapshot w J c b target) (\<lambda>v. io_lift (SnapshotImageReview (wi_crypto w) (dx_text J) b action v)))"

definition digitalocean_delete_Submit :: "wire \<Rightarrow> digitalocean_snapshot_json \<Rightarrow> api_client \<Rightarrow> binding \<Rightarrow> string \<Rightarrow> string \<Rightarrow> string \<Rightarrow> http_call list
    \<Rightarrow> answer \<times> http_call list" where
  "digitalocean_delete_Submit w J c b action target fingerprint log = (case digitalocean_delete_Inspect w J c b action target log of
       (Inl e, log1) \<Rightarrow> ((no_receipt, Some e), log1)
     | (Inr pre, log1) \<Rightarrow>
         if \<not> pc_Allowed pre \<or> pc_Fingerprint pre \<noteq> fingerprint then ((outcome_only ''rejected'', None), log1)
         else (case DeleteSnapshotRequest w b (ac_binding c) DigitalOcean (ac_http c) (do_snapshotsBase @ ''/'' @ target) (cr_Token (ac_credential c)) [] log1 of
             (a, log2) \<Rightarrow> (delete_reference target a, log2)))"

definition digitalocean_delete_Observe :: "wire \<Rightarrow> digitalocean_snapshot_json \<Rightarrow> api_client \<Rightarrow> binding \<Rightarrow> string \<Rightarrow> string \<Rightarrow> string option \<Rightarrow> action_observation io" where
  "digitalocean_delete_Observe w J c b action target reference =
     (if b \<noteq> ac_binding c then io_raise AdapterBinding
      else if action \<noteq> SnapshotDelete then io_raise AdapterUnsupported
      else if \<not> snapshotID target then io_raise InvalidResponse
      else (case reference of None \<Rightarrow> io_ret (observed ''unknown'')
        | Some r \<Rightarrow> if r \<noteq> ''delete/'' @ target then io_raise InvalidResponse
            else (\<lambda>log. case SnapshotJSONStatus w b (ac_binding c) DigitalOcean (ac_http c) (do_snapshotsBase @ ''/'' @ target) (cr_Token (ac_credential c))
                  (dx_snapshot J) log of
                (status, result, log') \<Rightarrow> (case result of
                    Inl e \<Rightarrow> if status = 404 then (Inr (proven ''succeeded''), log') else (Inl e, log')
                  | Inr None \<Rightarrow> (Inl InvalidResponse, log')
                  | Inr (Some s) \<Rightarrow> if ds_ID s \<noteq> target then (Inl InvalidResponse, log')
                      else (case digitalocean_mapSnapshot w s of Inl e \<Rightarrow> (Inl e, log') | Inr _ \<Rightarrow> (Inr (observed ''pending''), log'))))))"

text \<open>What proves and what refutes a creation: the end of the referenced action of this droplet.\<close>

definition digitalocean_created :: "wire \<Rightarrow> digitalocean_snapshot_json \<Rightarrow> api_client \<Rightarrow> string \<Rightarrow> string \<Rightarrow> http_call list \<Rightarrow> http_call list \<Rightarrow> bool" where
  "digitalocean_created w J c target reference s s' \<longleftrightarrow>
     (\<exists>a. digitalocean_create_action w J c (ac_binding c) target reference s = (Inr a, s') \<and> completed_action a)"

definition digitalocean_not_created :: "wire \<Rightarrow> digitalocean_snapshot_json \<Rightarrow> api_client \<Rightarrow> string \<Rightarrow> string \<Rightarrow> http_call list \<Rightarrow> http_call list \<Rightarrow> bool" where
  "digitalocean_not_created w J c target reference s s' \<longleftrightarrow>
     (\<exists>a. digitalocean_create_action w J c (ac_binding c) target reference s = (Inr a, s') \<and> da_Status a = ''errored'')"

definition digitalocean_create_carries :: "string \<Rightarrow> string \<Rightarrow> string \<Rightarrow> http_call \<Rightarrow> bool" where
  "digitalocean_create_carries token action target call \<longleftrightarrow>
     call = post_call DigitalOcean (digitalocean_base @ ''/'' @ target @ ''/actions'') token (snapshot_body target) []"

definition digitalocean_create_names :: "digitalocean_snapshot_json \<Rightarrow> string \<Rightarrow> string \<Rightarrow> string \<Rightarrow> exchange \<Rightarrow> bool" where
  "digitalocean_create_names J action target reference x = (case body_value (dx_action J) x of
       Some (Some n) \<Rightarrow> matchesSnapshotAction (Some n) target \<and> reference = da_ID n | _ \<Rightarrow> False)"

lemma digitalocean_ReadSnapshot_reads: "digitalocean_ReadSnapshot w J c b target s = (r, s') \<Longrightarrow> mutations s' = mutations s"
  by (auto simp: digitalocean_ReadSnapshot_def io_simps dest!: digitalocean_get_reads split: if_splits sum.splits prod.splits option.splits)

lemma digitalocean_create_Inspect_reads: "digitalocean_create_Inspect w J c b a target s = (r, s') \<Longrightarrow> mutations s' = mutations s"
  by (auto simp: digitalocean_create_Inspect_def io_simps dest!: digitalocean_get_reads split: if_splits sum.splits prod.splits option.splits)

lemma digitalocean_create_action_reads: "digitalocean_create_action w J c b target r1 s = (r, s') \<Longrightarrow> mutations s' = mutations s"
  by (auto simp: digitalocean_create_action_def io_simps dest!: digitalocean_get_reads split: if_splits sum.splits prod.splits)

lemma digitalocean_create_Observe_reads: "digitalocean_create_Observe w J c b a target ref s = (r, s') \<Longrightarrow> mutations s' = mutations s"
  by (auto simp: digitalocean_create_Observe_def io_simps dest!: digitalocean_create_action_reads split: if_splits sum.splits prod.splits option.splits)

lemma digitalocean_delete_Inspect_reads: "digitalocean_delete_Inspect w J c b a target s = (r, s') \<Longrightarrow> mutations s' = mutations s"
  by (auto simp: digitalocean_delete_Inspect_def io_simps dest!: digitalocean_ReadSnapshot_reads split: if_splits sum.splits prod.splits)

lemma digitalocean_delete_Observe_reads: "digitalocean_delete_Observe w J c b a target ref s = (r, s') \<Longrightarrow> mutations s' = mutations s"
  by (auto simp: digitalocean_delete_Observe_def io_simps dest!: SnapshotJSONStatus_reads split: if_splits sum.splits prod.splits option.splits)

lemma digitalocean_create_sends:
  assumes "digitalocean_create_Inspect w J c b a i s = (Inr pre, s1)" "pc_Allowed pre" "pc_Fingerprint pre = f"
    "digitalocean_create_Submit w J c b a i f s = ((rc, e), s')"
  shows "sends (wi_provider w) (digitalocean_create_carries (cr_Token (ac_credential c)) a i) (digitalocean_create_names J a i) s1 rc e s'"
proof -
  let ?raw = "digitalocean_base @ ''/'' @ i @ ''/actions''"
  obtain rc1 e1 response s2 where post: "post_mutation w b (ac_binding c) DigitalOcean (ac_http c) ?raw (cr_Token (ac_credential c)) (snapshot_body i) [] (dx_action J) s1
      = ((rc1, e1), response, s2)" by (metis prod.exhaust)
  with assms have "s' = s2" and kept: "e1 \<noteq> None \<or> re_Outcome rc1 = ''rejected'' \<Longrightarrow> rc = rc1 \<and> e = e1"
    and told: "e1 = None \<Longrightarrow> re_Outcome rc1 = ''ambiguous'' \<Longrightarrow> e = None \<Longrightarrow>
      \<exists>n. response = Some (Some n) \<and> matchesSnapshotAction (Some n) i \<and> rc = \<lparr>re_Outcome = ''accepted'', re_Reference = da_ID n\<rparr>"
    by (auto simp: digitalocean_create_Submit_def matchesSnapshotAction_def Let_def bind_eq_Some_conv split: if_splits option.splits)
  have "sends (wi_provider w) (digitalocean_create_carries (cr_Token (ac_credential c)) a i) (digitalocean_create_names J a i) s1 rc e s2"
    by (rule post_mutation_sends [OF post is_mutation_post [OF other_profiles(2)] _ kept])
      (auto simp: digitalocean_create_carries_def digitalocean_create_names_def dest!: told)
  with \<open>s' = s2\<close> show ?thesis by simp
qed

lemma digitalocean_delete_sends:
  assumes "digitalocean_delete_Inspect w J c b a i s = (Inr pre, s1)" "pc_Allowed pre" "pc_Fingerprint pre = f"
    "digitalocean_delete_Submit w J c b a i f s = ((rc, e), s')"
  shows "sends (wi_provider w) (delete_carries DigitalOcean do_snapshotsBase (cr_Token (ac_credential c)) a i) (acknowledges i) s1 rc e s'"
proof -
  from assms obtain answer where del: "DeleteSnapshotRequest w b (ac_binding c) DigitalOcean (ac_http c) (do_snapshotsBase @ ''/'' @ i) (cr_Token (ac_credential c)) [] s1 = (answer, s')"
    and ref: "delete_reference i answer = (rc, e)" by (auto simp: digitalocean_delete_Submit_def split: prod.splits)
  show ?thesis
    by (rule DeleteSnapshotRequest_sends [OF del is_mutation_delete [OF other_profiles(2)] _ ref]) (simp add: delete_carries_def)
qed

interpretation digitalocean_create: snapshot_adapter "\<lambda>log. log" "wi_provider w" "ac_binding c" "\<lambda>a. a = SnapshotCreate"
  "digitalocean_create_carries (cr_Token (ac_credential c))" "digitalocean_create_names J" "digitalocean_create_Inspect w J c" "digitalocean_create_Submit w J c"
  "digitalocean_created w J c" "digitalocean_not_created w J c" "digitalocean_create_Observe w J c" for w J c
proof
  fix b a i f s pre s' e and q :: action_observation and ref
  show "digitalocean_create_Inspect w J c b a i s = (Inr pre, s') \<Longrightarrow> b = ac_binding c \<and> a = SnapshotCreate"
    by (auto simp: digitalocean_create_Inspect_def io_simps split: if_splits)
  show "digitalocean_create_Inspect w J c b a i s = (Inl e, s') \<Longrightarrow> digitalocean_create_Submit w J c b a i f s = ((no_receipt, Some e), s')"
    by (simp add: digitalocean_create_Submit_def)
  show "digitalocean_create_Inspect w J c b a i s = (Inr pre, s') \<Longrightarrow> \<not> pc_Allowed pre \<or> pc_Fingerprint pre \<noteq> f \<Longrightarrow>
      digitalocean_create_Submit w J c b a i f s = ((outcome_only ''rejected'', None), s')"
    by (simp add: digitalocean_create_Submit_def)
  show "digitalocean_create_Observe w J c b a i ref s = (Inr q, s') \<Longrightarrow> b = ac_binding c \<and> a = SnapshotCreate"
    by (auto simp: digitalocean_create_Observe_def io_simps split: if_splits)
  show "digitalocean_create_Observe w J c b a i ref s = (Inr q, s') \<Longrightarrow> ao_NativeEvidence q \<Longrightarrow>
      \<exists>r. ref = Some r \<and> (ao_Outcome q = ''succeeded'' \<and> digitalocean_created w J c i r s s' \<or> ao_Outcome q = ''failed'' \<and> digitalocean_not_created w J c i r s s')"
    by (auto simp: digitalocean_create_Observe_def io_simps observed_def proven_def digitalocean_created_def digitalocean_not_created_def completed_action_def
        split: if_splits sum.splits prod.splits option.splits)
qed (erule digitalocean_create_Inspect_reads digitalocean_create_Observe_reads | erule (3) digitalocean_create_sends)+

interpretation digitalocean_delete: snapshot_adapter "\<lambda>log. log" "wi_provider w" "ac_binding c" "\<lambda>a. a = SnapshotDelete"
  "delete_carries DigitalOcean do_snapshotsBase (cr_Token (ac_credential c))" "\<lambda>_. acknowledges" "digitalocean_delete_Inspect w J c" "digitalocean_delete_Submit w J c"
  "\<lambda>target _. gone (wi_provider w) (do_snapshotsBase @ ''/'' @ target)" "\<lambda>_ _ _ _. False" "digitalocean_delete_Observe w J c" for w J c
proof
  fix b a i f s pre s' e and q :: action_observation and ref
  show "digitalocean_delete_Inspect w J c b a i s = (Inr pre, s') \<Longrightarrow> b = ac_binding c \<and> a = SnapshotDelete"
    by (auto simp: digitalocean_delete_Inspect_def io_simps split: if_splits)
  show "digitalocean_delete_Inspect w J c b a i s = (Inl e, s') \<Longrightarrow> digitalocean_delete_Submit w J c b a i f s = ((no_receipt, Some e), s')"
    by (simp add: digitalocean_delete_Submit_def)
  show "digitalocean_delete_Inspect w J c b a i s = (Inr pre, s') \<Longrightarrow> \<not> pc_Allowed pre \<or> pc_Fingerprint pre \<noteq> f \<Longrightarrow>
      digitalocean_delete_Submit w J c b a i f s = ((outcome_only ''rejected'', None), s')"
    by (simp add: digitalocean_delete_Submit_def)
  show "digitalocean_delete_Observe w J c b a i ref s = (Inr q, s') \<Longrightarrow> b = ac_binding c \<and> a = SnapshotDelete"
    by (auto simp: digitalocean_delete_Observe_def io_simps split: if_splits)
  show "digitalocean_delete_Observe w J c b a i ref s = (Inr q, s') \<Longrightarrow> ao_NativeEvidence q \<Longrightarrow>
      \<exists>r. ref = Some r \<and> (ao_Outcome q = ''succeeded'' \<and> gone (wi_provider w) (do_snapshotsBase @ ''/'' @ i) s s' \<or> ao_Outcome q = ''failed'' \<and> False)"
    by (auto simp: digitalocean_delete_Observe_def io_simps observed_def proven_def dest: SnapshotJSONStatus_gone
        split: if_splits sum.splits prod.splits option.splits)
qed (erule digitalocean_delete_Inspect_reads digitalocean_delete_Observe_reads | erule (3) digitalocean_delete_sends)+

lemma do_snapshot_next_page: "do_snapshot_next w page link = Inr later \<Longrightarrow> later \<noteq> [] \<Longrightarrow> page \<noteq> 100 \<and> later = FormatInt (page + 1)"
  by (auto simp: do_snapshot_next_def split: if_splits option.splits)

interpretation digitalocean_snapshot_pages: numbered_pages "digitalocean_SnapshotPage w J c b" cursor_page for w J c b
proof
  fix cursor s found later s' p
  assume page: "digitalocean_SnapshotPage w J c b cursor s = (Inr (found, later), s')"
  then show "length found \<le> 50"
    by (auto simp: digitalocean_SnapshotPage_def io_simps dest!: map_each_length split: option.splits prod.splits sum.splits if_splits)
  assume "later \<noteq> []" and p: "cursor_page cursor = Some p"
  with page have "p \<noteq> 100" "later = FormatInt (p + 1)"
    by (auto simp: digitalocean_SnapshotPage_def io_simps dest!: do_snapshot_next_page split: option.splits prod.splits sum.splits if_splits)
  moreover from p have "p \<le> 100" by (auto simp: cursor_page_def split: if_splits option.splits)
  ultimately show "p < 100 \<and> cursor_page later = Some (p + 1)" using cursor_page_next [OF p] by simp
qed (rule cursor_page_first)

end
