(* ===== verification/Sama_Vultr.thy ===== *)
theory Sama_Vultr
  imports Sama_Snapshots
begin

text \<open>
  Package \<^verbatim>\<open>provider/vultr\<close>: the Compute API v2 client's inventory (\<^verbatim>\<open>client.go\<close>), power actions (\<^verbatim>\<open>power.go\<close>)
  and snapshots (\<^verbatim>\<open>snapshot.go\<close>, \<^verbatim>\<open>snapshot_create.go\<close>, \<^verbatim>\<open>snapshot_delete.go\<close>). For a power
  action the provider gives no reference, so its submission stays ambiguous and a reboot is never proved.
\<close>

section \<open>Responses\<close>

record vu_instance =
  vi_ID :: string
  vi_Label :: string
  vi_Status :: string
  vi_Power :: string
  vi_Server :: string
  vi_Region :: string
  vi_Plan :: string

record vu_page =
  vp_Instances :: "vu_instance list option"
  vp_Links :: "string option option"

record vultr_json =
  vj_instance :: "string \<Rightarrow> vu_instance option option"
  vj_page :: "string \<Rightarrow> vu_page option"
  vj_account :: "string \<Rightarrow> string list option option"

section \<open>Inventory\<close>

definition vultr_base :: string where
  "vultr_base = ''https://api.vultr.com/v2/instances''"

definition vultr_nativeID :: "string \<Rightarrow> bool" where
  "vultr_nativeID s = code_like ''_-'' 127 s"

definition safeCursor :: "string \<Rightarrow> bool" where
  "safeCursor s \<longleftrightarrow> 1 \<le> length s \<and> length s \<le> 512 \<and> list_all (\<lambda>c. alnum c \<or> c \<in> set ''_=-'') s"

definition vultr_New :: "binding \<Rightarrow> credential \<Rightarrow> bool \<Rightarrow> api_client option" where
  "vultr_New b c budget = new_client ''vultr.compute'' b c budget"

definition vultr_mapInstance :: "wire \<Rightarrow> vu_instance \<Rightarrow> adapter_error + server_observation" where
  "vultr_mapInstance w i = (if \<not> vultr_nativeID (vi_ID i) then Inl InvalidResponse
     else CheckedObservation \<lparr>vo_NativeID = vi_ID i, vo_NativeStatus = vi_Status i @ ''/'' @ vi_Power i @ ''/'' @ vi_Server i,
       vo_Status = (if vi_Status i = ''active'' \<and> vi_Server i = ''ok'' then NormalizeStatus (vi_Power i) [(''running'', ''running''), (''stopped'', ''stopped'')]
         else ''unknown''),
       vo_Name = vi_Label i, vo_ObservedAt = Some (wi_now w), vo_Region = vi_Region i, vo_MachineType = vi_Plan i\<rparr>)"

definition vultr_get :: "wire \<Rightarrow> api_client \<Rightarrow> binding \<Rightarrow> string \<Rightarrow> (string \<Rightarrow> 'a option) \<Rightarrow> 'a io" where
  "vultr_get w c b raw decode = GetJSON w b (ac_binding c) Vultr (ac_http c) raw (cr_Token (ac_credential c)) decode"

definition vultr_Page :: "wire \<Rightarrow> vultr_json \<Rightarrow> api_client \<Rightarrow> binding \<Rightarrow> string \<Rightarrow> (server_observation list \<times> string) io" where
  "vultr_Page w J c b cursor = (if cursor \<noteq> [] \<and> \<not> safeCursor cursor then io_raise InvalidResponse
     else io_bind (vultr_get w c b (vultr_base @ ''?per_page=50'' @ (if cursor = [] then [] else ''&cursor='' @ QueryEscape cursor)) (vj_page J)) (\<lambda>response.
       case (vp_Instances response, vp_Links response) of
         (Some instances, Some (Some later)) \<Rightarrow>
           if length instances > 50 then io_raise InvalidResponse
           else io_bind (io_lift (map_each (vultr_mapInstance w) instances)) (\<lambda>found.
             if later = [] then io_ret (found, [])
             else if \<not> safeCursor later \<or> later = cursor then io_raise InvalidResponse else io_ret (found, later))
       | _ \<Rightarrow> io_raise InvalidResponse))"

definition vultr_Read :: "wire \<Rightarrow> vultr_json \<Rightarrow> api_client \<Rightarrow> binding \<Rightarrow> string \<Rightarrow> server_observation io" where
  "vultr_Read w J c b target = (if \<not> vultr_nativeID target then io_raise InvalidResponse
     else io_bind (vultr_get w c b (vultr_base @ ''/'' @ target) (vj_instance J)) (\<lambda>response.
       case response of None \<Rightarrow> io_raise InvalidResponse
       | Some i \<Rightarrow> if vi_ID i \<noteq> target then io_raise InvalidResponse else io_lift (vultr_mapInstance w i)))"

definition vultr_Validate :: "wire \<Rightarrow> vultr_json \<Rightarrow> api_client \<Rightarrow> credential \<Rightarrow> (string \<times> string list) io" where
  "vultr_Validate w J c input = (if input \<noteq> ac_credential c then io_raise AdapterBinding
     else io_bind (vultr_get w c (ac_binding c) ''https://api.vultr.com/v2/account'' (vj_account J)) (\<lambda>account.
       case account of None \<Rightarrow> io_raise InvalidResponse
       | Some _ \<Rightarrow> io_bind (vultr_Page w J c (ac_binding c) []) (\<lambda>_. io_raise AdapterUnverified)))"

section \<open>Power\<close>

definition vultr_path :: "string \<Rightarrow> string" where
  "vultr_path action = (if action = ''compute.server.power_on'' then ''start'' else if action = ''compute.server.reboot'' then ''reboot''
     else if action = ''compute.server.power_off'' then ''halt'' else [])"

definition vultr_Inspect :: "wire \<Rightarrow> vultr_json \<Rightarrow> api_client \<Rightarrow> binding \<Rightarrow> string \<Rightarrow> string \<Rightarrow> preconditions io" where
  "vultr_Inspect w J c b action target =
     (if b \<noteq> ac_binding c then io_raise AdapterBinding
      else if vultr_path action = [] then io_raise AdapterUnsupported
      else io_bind (vultr_Read w J c b target) (\<lambda>v. io_lift (PowerPreconditions (wi_crypto w) b action v)))"

definition vultr_Submit :: "wire \<Rightarrow> vultr_json \<Rightarrow> api_client \<Rightarrow> binding \<Rightarrow> string \<Rightarrow> string \<Rightarrow> string \<Rightarrow> http_call list \<Rightarrow> answer \<times> http_call list" where
  "vultr_Submit w J c b action target fingerprint log = (case vultr_Inspect w J c b action target log of
       (Inl e, log1) \<Rightarrow> ((no_receipt, Some e), log1)
     | (Inr pre, log1) \<Rightarrow>
         if \<not> pc_Allowed pre \<or> pc_Fingerprint pre \<noteq> fingerprint then ((outcome_only ''rejected'', None), log1)
         else (case post_mutation w b (ac_binding c) Vultr (ac_http c) (vultr_base @ ''/'' @ target @ ''/'' @ vultr_path action)
               (cr_Token (ac_credential c)) [] [] (\<lambda>_. Some ()) log1 of (answer, _, log2) \<Rightarrow> (answer, log2)))"

definition vultr_Observe :: "wire \<Rightarrow> vultr_json \<Rightarrow> api_client \<Rightarrow> binding \<Rightarrow> string \<Rightarrow> string \<Rightarrow> string option \<Rightarrow> action_observation io" where
  "vultr_Observe w J c b action target reference =
     (if b \<noteq> ac_binding c then io_raise AdapterBinding
      else if vultr_path action = [] then io_raise AdapterUnsupported
      else if \<not> vultr_nativeID target \<or> reference \<noteq> None then io_raise InvalidResponse
      else if action = ''compute.server.reboot'' then io_ret (observed ''unknown'')
      else io_bind (vultr_Read w J c b target) (\<lambda>v.
        if vo_Status v = (if action = ''compute.server.power_off'' then ''stopped'' else ''running'') then io_ret (proven ''succeeded'')
        else io_ret (observed ''pending'')))"

section \<open>The contract\<close>

lemma vultr_get_reads: "vultr_get w c b raw decode s = (r, s') \<Longrightarrow> mutations s' = mutations s"
  unfolding vultr_get_def by (rule GetJSON_reads)

lemma vultr_Read_reads: "vultr_Read w J c b target s = (r, s') \<Longrightarrow> mutations s' = mutations s"
  by (auto simp: vultr_Read_def io_simps dest!: vultr_get_reads split: if_splits sum.splits prod.splits option.splits)

lemma vultr_Read_target: "vultr_Read w J c b target s = (Inr v, s') \<Longrightarrow> vo_NativeID v = target"
  by (auto simp: vultr_Read_def io_simps vultr_mapInstance_def CheckedObservation_def split: if_splits sum.splits prod.splits option.splits)

lemma vultr_Inspect_reads: "vultr_Inspect w J c b a target s = (r, s') \<Longrightarrow> mutations s' = mutations s"
  by (auto simp: vultr_Inspect_def io_simps dest!: vultr_Read_reads split: if_splits sum.splits prod.splits)

lemma vultr_Observe_reads: "vultr_Observe w J c b a target ref s = (r, s') \<Longrightarrow> mutations s' = mutations s"
  by (auto simp: vultr_Observe_def io_simps dest!: vultr_Read_reads split: if_splits sum.splits prod.splits)

definition vultr_carries :: "string \<Rightarrow> string \<Rightarrow> string \<Rightarrow> http_call \<Rightarrow> bool" where
  "vultr_carries token action target call \<longleftrightarrow> call = post_call Vultr (vultr_base @ ''/'' @ target @ ''/'' @ vultr_path action) token [] []"

lemma vultr_sends:
  assumes "vultr_Inspect w J c b a i s = (Inr pre, s1)" "pc_Allowed pre" "pc_Fingerprint pre = f" "vultr_Submit w J c b a i f s = ((rc, e), s')"
  shows "sends (wi_provider w) (vultr_carries (cr_Token (ac_credential c)) a i) (\<lambda>_ _. False) s1 rc e s'"
proof -
  let ?raw = "vultr_base @ ''/'' @ i @ ''/'' @ vultr_path a"
  from assms obtain response where post: "post_mutation w b (ac_binding c) Vultr (ac_http c) ?raw (cr_Token (ac_credential c)) [] [] (\<lambda>_. Some ()) s1
      = ((rc, e), response, s')" by (auto simp: vultr_Submit_def split: prod.splits)
  show ?thesis
    by (rule post_mutation_sends [OF post]) (auto simp: is_mutation_def vultr_carries_def post_call_def Vultr_def ContaboAuth_def)
qed

interpretation vultr: power_adapter "\<lambda>log. log" "wi_provider w" "ac_binding c" "\<lambda>a. vultr_path a \<noteq> []" "vultr_carries (cr_Token (ac_credential c))"
  "\<lambda>_ _ _ _. False" "vultr_Inspect w J c" "vultr_Submit w J c" "\<lambda>_ :: unit. False" "\<lambda>_. False" "\<lambda>_ _ _ _. io_raise InvalidResponse"
  "vultr_Read w J c" "vultr_Observe w J c" for w J c
proof
  fix b a i f s pre s' e and q :: action_observation and ref r
  show "vultr_Inspect w J c b a i s = (Inr pre, s') \<Longrightarrow> b = ac_binding c \<and> vultr_path a \<noteq> []"
    by (auto simp: vultr_Inspect_def io_simps split: if_splits)
  show "vultr_Inspect w J c b a i s = (Inl e, s') \<Longrightarrow> vultr_Submit w J c b a i f s = ((no_receipt, Some e), s')"
    by (simp add: vultr_Submit_def)
  show "vultr_Inspect w J c b a i s = (Inr pre, s') \<Longrightarrow> \<not> pc_Allowed pre \<or> pc_Fingerprint pre \<noteq> f \<Longrightarrow>
      vultr_Submit w J c b a i f s = ((outcome_only ''rejected'', None), s')"
    by (simp add: vultr_Submit_def)
  show "vultr_Observe w J c b a i ref s = (Inr q, s') \<Longrightarrow> b = ac_binding c \<and> vultr_path a \<noteq> []"
    by (auto simp: vultr_Observe_def io_simps split: if_splits)
  show "vultr_Observe w J c b a i None s = (Inr q, s') \<Longrightarrow> ao_NativeEvidence q \<Longrightarrow>
      ao_Outcome q = ''succeeded'' \<and> a \<noteq> ''compute.server.reboot'' \<and> (\<exists>v. vultr_Read w J c b i s = (Inr v, s') \<and> vo_Status v = wanted a)"
    by (auto simp: vultr_Observe_def io_simps observed_def proven_def wanted_def vultr_path_def split: if_splits sum.splits prod.splits)
  show "vultr_Observe w J c b a i (Some r) s = (Inr q, s') \<Longrightarrow> ao_NativeEvidence q \<Longrightarrow>
      (\<exists>n s1. io_raise InvalidResponse s = (Inr (n :: unit), s1) \<and> (ao_Outcome q = ''failed'' \<and> False \<and> s1 = s'
        \<or> ao_Outcome q = ''succeeded'' \<and> False \<and> (\<exists>v. vultr_Read w J c b i s1 = (Inr v, s') \<and> vo_Status v = wanted a)))"
    by (auto simp: vultr_Observe_def io_simps split: if_splits)
qed (erule vultr_Inspect_reads vultr_Observe_reads vultr_Read_target | erule (3) vultr_sends)+

section \<open>Snapshots\<close>

record vu_snapshot =
  vs_ID :: string
  vs_Created :: string
  vs_Size :: "int option"
  vs_Status :: string

record vu_snapshot_page =
  vn_Snapshots :: "vu_snapshot list option"
  vn_Links :: "string option option"

text \<open>
  \<open>vx_rfc3339\<close> and \<open>vx_datetime\<close> are \<^verbatim>\<open>time.Parse\<close> with the two layouts; a parsed time may be the zero time, \<open>Some None\<close>.
\<close>

record vultr_snapshot_json =
  vx_snapshot :: "string \<Rightarrow> vu_snapshot option option"
  vx_page :: "string \<Rightarrow> vu_snapshot_page option"
  vx_instance :: "string \<Rightarrow> vu_instance option option"
  vx_rfc3339 :: "string \<Rightarrow> time option option"
  vx_datetime :: "string \<Rightarrow> bool"
  vx_text :: "snapshot_observation \<Rightarrow> string option"

definition vu_snapshotsBase :: string where
  "vu_snapshotsBase = ''https://api.vultr.com/v2/snapshots''"

definition vu_snapshotStatus :: "string \<Rightarrow> string" where
  "vu_snapshotStatus native = (if native = ''complete'' then ''available'' else if native = ''pending'' then ''pending''
     else if native = ''deleted'' then ''deleted'' else ''unknown'')"

definition vultr_mapSnapshot :: "wire \<Rightarrow> vultr_snapshot_json \<Rightarrow> vu_snapshot \<Rightarrow> adapter_error + snapshot_observation" where
  "vultr_mapSnapshot w J s =
     (let created = (if vs_Created s = [] then None else vx_rfc3339 J (vs_Created s));
          reason = (if vs_Created s = [] then ''not_reported'' else if created = None then ''timezone_not_reported'' else []) in
      if \<not> vultr_nativeID (vs_ID s) then Inl InvalidResponse
      else if vs_Created s \<noteq> [] \<and> created = None \<and> \<not> vx_datetime J (vs_Created s) then Inl InvalidResponse
      else checked_snapshot \<lparr>np_NativeID = vs_ID s, np_Name = [], np_SourceNativeID = [], np_SourceType = [], np_Status = vu_snapshotStatus (vs_Status s),
        np_NativeStatus = vs_Status s, np_StatusReason = [], np_CreatedAt = created,
        np_NativeCreatedAt = vs_Created s, np_CreationTimeReason = reason, np_SizeBytes = vs_Size s, np_SizeGB = None, np_MinimumDiskGB = None,
        np_Regions = [], np_ObservedAt = Some (wi_now w)\<rparr>)"

text \<open>The cursor counts the pages in front of the provider's own cursor.\<close>

definition vultr_cursor :: "string \<Rightarrow> (int \<times> string) option" where
  "vultr_cursor cursor = (if cursor = [] then Some (1, [])
     else if CHR '':'' \<notin> set cursor then None
     else let number = before CHR '':'' cursor; native = drop (length number + 1) cursor in
       (case ParseInt64 number of None \<Rightarrow> None
        | Some page \<Rightarrow> if page < 2 \<or> page > 100 \<or> FormatInt page \<noteq> number \<or> \<not> safeCursor native then None else Some (page, native)))"

definition vultr_SnapshotPage :: "wire \<Rightarrow> vultr_snapshot_json \<Rightarrow> api_client \<Rightarrow> binding \<Rightarrow> string \<Rightarrow> (snapshot_observation list \<times> string) io" where
  "vultr_SnapshotPage w J c b cursor = (case vultr_cursor cursor of None \<Rightarrow> io_raise InvalidResponse
     | Some (page, native) \<Rightarrow>
         io_bind (vultr_get w c b (vu_snapshotsBase @ ''?per_page=50'' @ (if cursor = [] then [] else ''&cursor='' @ QueryEscape native)) (vx_page J)) (\<lambda>response.
           case (vn_Snapshots response, vn_Links response) of
             (Some snapshots, Some (Some later)) \<Rightarrow>
               if length snapshots > 50 then io_raise InvalidResponse
               else io_bind (io_lift (map_each (vultr_mapSnapshot w J) snapshots)) (\<lambda>found.
                 if later = [] then io_ret (found, [])
                 else if \<not> safeCursor later \<or> later = native \<or> page = 100 then io_raise InvalidResponse
                 else io_ret (found, FormatInt (page + 1) @ '':'' @ later))
           | _ \<Rightarrow> io_raise InvalidResponse))"

definition vultr_ReadSnapshot :: "wire \<Rightarrow> vultr_snapshot_json \<Rightarrow> api_client \<Rightarrow> binding \<Rightarrow> string \<Rightarrow> snapshot_observation io" where
  "vultr_ReadSnapshot w J c b target = (if \<not> vultr_nativeID target then io_raise InvalidResponse
     else io_bind (vultr_get w c b (vu_snapshotsBase @ ''/'' @ target) (vx_snapshot J)) (\<lambda>response.
       case response of None \<Rightarrow> io_raise InvalidResponse
       | Some s \<Rightarrow> if vs_ID s \<noteq> target then io_raise InvalidResponse else io_lift (vultr_mapSnapshot w J s)))"

text \<open>The creation reads its instance as the power actions do.\<close>

definition instance_json :: "vultr_snapshot_json \<Rightarrow> vultr_json" where
  "instance_json J = \<lparr>vj_instance = vx_instance J, vj_page = (\<lambda>_. None), vj_account = (\<lambda>_. None)\<rparr>"

definition vultr_create_Inspect :: "wire \<Rightarrow> vultr_snapshot_json \<Rightarrow> api_client \<Rightarrow> binding \<Rightarrow> string \<Rightarrow> string \<Rightarrow> preconditions io" where
  "vultr_create_Inspect w J c b action target =
     (if b \<noteq> ac_binding c then io_raise AdapterBinding
      else if action \<noteq> SnapshotCreate then io_raise AdapterUnsupported
      else io_bind (vultr_Read w (instance_json J) c b target) (\<lambda>v. io_lift (SnapshotServerReview (wi_crypto w) b action v False)))"

definition vultr_snapshot_body :: "string \<Rightarrow> string" where
  "vultr_snapshot_body target = ''{'' @ json_field ''instance_id'' (json_string target) @ ''}''"

definition vultr_create_Submit :: "wire \<Rightarrow> vultr_snapshot_json \<Rightarrow> api_client \<Rightarrow> binding \<Rightarrow> string \<Rightarrow> string \<Rightarrow> string \<Rightarrow> http_call list \<Rightarrow> answer \<times> http_call list" where
  "vultr_create_Submit w J c b action target fingerprint log = (case vultr_create_Inspect w J c b action target log of
       (Inl e, log1) \<Rightarrow> ((no_receipt, Some e), log1)
     | (Inr pre, log1) \<Rightarrow>
         if \<not> pc_Allowed pre \<or> pc_Fingerprint pre \<noteq> fingerprint then ((outcome_only ''rejected'', None), log1)
         else (case post_mutation w b (ac_binding c) Vultr (ac_http c) vu_snapshotsBase (cr_Token (ac_credential c)) (vultr_snapshot_body target) [] (vx_snapshot J) log1 of
             ((receipt, e), response, log2) \<Rightarrow>
               if e \<noteq> None \<or> re_Outcome receipt = ''rejected'' then ((receipt, e), log2)
               else (case Option.bind response (\<lambda>s. s) of None \<Rightarrow> ((outcome_only ''ambiguous'', Some InvalidResponse), log2)
                 | Some s \<Rightarrow> (case vultr_mapSnapshot w J s of Inl e' \<Rightarrow> ((outcome_only ''ambiguous'', Some e'), log2)
                   | Inr _ \<Rightarrow> ((\<lparr>re_Outcome = ''accepted'', re_Reference = target @ ''/'' @ vs_ID s\<rparr>, None), log2)))))"

definition vultr_create_Observe :: "wire \<Rightarrow> vultr_snapshot_json \<Rightarrow> api_client \<Rightarrow> binding \<Rightarrow> string \<Rightarrow> string \<Rightarrow> string option \<Rightarrow> action_observation io" where
  "vultr_create_Observe w J c b action target reference =
     (if b \<noteq> ac_binding c then io_raise AdapterBinding
      else if action \<noteq> SnapshotCreate then io_raise AdapterUnsupported
      else if \<not> vultr_nativeID target then io_raise InvalidResponse
      else (case reference of None \<Rightarrow> io_ret (observed ''unknown'')
        | Some r \<Rightarrow> (case Split CHR ''/'' r of
            [source, native] \<Rightarrow> if source \<noteq> target \<or> \<not> vultr_nativeID native then io_raise InvalidResponse
              else io_bind (vultr_ReadSnapshot w J c b native) (\<lambda>v.
                if np_Status v = ''available'' then io_ret (proven ''succeeded'')
                else if np_Status v = ''pending'' then io_ret (observed ''pending'')
                else io_ret (observed ''unknown''))
          | _ \<Rightarrow> io_raise InvalidResponse)))"

definition vultr_delete_Inspect :: "wire \<Rightarrow> vultr_snapshot_json \<Rightarrow> api_client \<Rightarrow> binding \<Rightarrow> string \<Rightarrow> string \<Rightarrow> preconditions io" where
  "vultr_delete_Inspect w J c b action target =
     (if b \<noteq> ac_binding c then io_raise AdapterBinding
      else if action \<noteq> SnapshotDelete then io_raise AdapterUnsupported
      else io_bind (vultr_ReadSnapshot w J c b target) (\<lambda>v. io_lift (SnapshotImageReview (wi_crypto w) (vx_text J) b action v)))"

definition vultr_delete_Submit :: "wire \<Rightarrow> vultr_snapshot_json \<Rightarrow> api_client \<Rightarrow> binding \<Rightarrow> string \<Rightarrow> string \<Rightarrow> string \<Rightarrow> http_call list \<Rightarrow> answer \<times> http_call list" where
  "vultr_delete_Submit w J c b action target fingerprint log = (case vultr_delete_Inspect w J c b action target log of
       (Inl e, log1) \<Rightarrow> ((no_receipt, Some e), log1)
     | (Inr pre, log1) \<Rightarrow>
         if \<not> pc_Allowed pre \<or> pc_Fingerprint pre \<noteq> fingerprint then ((outcome_only ''rejected'', None), log1)
         else (case DeleteSnapshotRequest w b (ac_binding c) Vultr (ac_http c) (vu_snapshotsBase @ ''/'' @ target) (cr_Token (ac_credential c)) [] log1 of
             (a, log2) \<Rightarrow> (delete_reference target a, log2)))"

definition vultr_delete_Observe :: "wire \<Rightarrow> vultr_snapshot_json \<Rightarrow> api_client \<Rightarrow> binding \<Rightarrow> string \<Rightarrow> string \<Rightarrow> string option \<Rightarrow> action_observation io" where
  "vultr_delete_Observe w J c b action target reference =
     (if b \<noteq> ac_binding c then io_raise AdapterBinding
      else if action \<noteq> SnapshotDelete then io_raise AdapterUnsupported
      else if \<not> vultr_nativeID target then io_raise InvalidResponse
      else (case reference of None \<Rightarrow> io_ret (observed ''unknown'')
        | Some r \<Rightarrow> if r \<noteq> ''delete/'' @ target then io_raise InvalidResponse
            else (\<lambda>log. case SnapshotJSONStatus w b (ac_binding c) Vultr (ac_http c) (vu_snapshotsBase @ ''/'' @ target) (cr_Token (ac_credential c))
                  (vx_snapshot J) log of
                (status, result, log') \<Rightarrow> (case result of
                    Inl e \<Rightarrow> if status = 404 then (Inr (proven ''succeeded''), log') else (Inl e, log')
                  | Inr None \<Rightarrow> (Inl InvalidResponse, log')
                  | Inr (Some s) \<Rightarrow> if vs_ID s \<noteq> target then (Inl InvalidResponse, log')
                      else (case vultr_mapSnapshot w J s of Inl e \<Rightarrow> (Inl e, log')
                        | Inr v \<Rightarrow> (Inr (if np_Status v = ''deleted'' then proven ''succeeded'' else observed ''pending''), log'))))))"

text \<open>What proves a creation, and what proves a deletion: the provider says that the snapshot is deleted, or 404.\<close>

definition vultr_created :: "wire \<Rightarrow> vultr_snapshot_json \<Rightarrow> api_client \<Rightarrow> string \<Rightarrow> string \<Rightarrow> http_call list \<Rightarrow> http_call list \<Rightarrow> bool" where
  "vultr_created w J c target reference s s' \<longleftrightarrow> (\<exists>native v. Split CHR ''/'' reference = [target, native]
     \<and> vultr_ReadSnapshot w J c (ac_binding c) native s = (Inr v, s') \<and> np_Status v = ''available'')"

definition vultr_deleted :: "wire \<Rightarrow> vultr_snapshot_json \<Rightarrow> api_client \<Rightarrow> string \<Rightarrow> string \<Rightarrow> http_call list \<Rightarrow> http_call list \<Rightarrow> bool" where
  "vultr_deleted w J c target reference s s' \<longleftrightarrow> gone (wi_provider w) (vu_snapshotsBase @ ''/'' @ target) s s'
     \<or> (\<exists>v. vultr_ReadSnapshot w J c (ac_binding c) target s = (Inr v, s') \<and> np_Status v = ''deleted'')"

definition vultr_create_carries :: "string \<Rightarrow> string \<Rightarrow> string \<Rightarrow> http_call \<Rightarrow> bool" where
  "vultr_create_carries token action target call \<longleftrightarrow> call = post_call Vultr vu_snapshotsBase token (vultr_snapshot_body target) []"

definition vultr_create_names :: "vultr_snapshot_json \<Rightarrow> string \<Rightarrow> string \<Rightarrow> string \<Rightarrow> exchange \<Rightarrow> bool" where
  "vultr_create_names J action target reference x = (case body_value (vx_snapshot J) x of
       Some (Some s) \<Rightarrow> reference = target @ ''/'' @ vs_ID s | _ \<Rightarrow> False)"

lemma vultr_ReadSnapshot_reads: "vultr_ReadSnapshot w J c b target s = (r, s') \<Longrightarrow> mutations s' = mutations s"
  by (auto simp: vultr_ReadSnapshot_def io_simps dest!: vultr_get_reads split: if_splits sum.splits prod.splits option.splits)

lemma vultr_create_Inspect_reads: "vultr_create_Inspect w J c b a target s = (r, s') \<Longrightarrow> mutations s' = mutations s"
  by (auto simp: vultr_create_Inspect_def io_simps dest!: vultr_Read_reads split: if_splits sum.splits prod.splits)

lemma vultr_create_Observe_reads: "vultr_create_Observe w J c b a target ref s = (r, s') \<Longrightarrow> mutations s' = mutations s"
  by (auto simp: vultr_create_Observe_def io_simps dest!: vultr_ReadSnapshot_reads split: if_splits sum.splits prod.splits option.splits list.splits)

lemma vultr_delete_Inspect_reads: "vultr_delete_Inspect w J c b a target s = (r, s') \<Longrightarrow> mutations s' = mutations s"
  by (auto simp: vultr_delete_Inspect_def io_simps dest!: vultr_ReadSnapshot_reads split: if_splits sum.splits prod.splits)

lemma vultr_delete_Observe_reads: "vultr_delete_Observe w J c b a target ref s = (r, s') \<Longrightarrow> mutations s' = mutations s"
  by (auto simp: vultr_delete_Observe_def io_simps dest!: SnapshotJSONStatus_reads split: if_splits sum.splits prod.splits option.splits)

lemma vultr_create_sends:
  assumes "vultr_create_Inspect w J c b a i s = (Inr pre, s1)" "pc_Allowed pre" "pc_Fingerprint pre = f"
    "vultr_create_Submit w J c b a i f s = ((rc, e), s')"
  shows "sends (wi_provider w) (vultr_create_carries (cr_Token (ac_credential c)) a i) (vultr_create_names J a i) s1 rc e s'"
proof -
  obtain rc1 e1 response s2 where post: "post_mutation w b (ac_binding c) Vultr (ac_http c) vu_snapshotsBase (cr_Token (ac_credential c)) (vultr_snapshot_body i) [] (vx_snapshot J) s1
      = ((rc1, e1), response, s2)" by (metis prod.exhaust)
  with assms have "s' = s2" and kept: "e1 \<noteq> None \<or> re_Outcome rc1 = ''rejected'' \<Longrightarrow> rc = rc1 \<and> e = e1"
    and told: "e1 = None \<Longrightarrow> re_Outcome rc1 = ''ambiguous'' \<Longrightarrow> e = None \<Longrightarrow>
      \<exists>n. response = Some (Some n) \<and> rc = \<lparr>re_Outcome = ''accepted'', re_Reference = i @ ''/'' @ vs_ID n\<rparr>"
    by (auto simp: vultr_create_Submit_def bind_eq_Some_conv split: if_splits option.splits sum.splits)
  have "sends (wi_provider w) (vultr_create_carries (cr_Token (ac_credential c)) a i) (vultr_create_names J a i) s1 rc e s2"
    by (rule post_mutation_sends [OF post is_mutation_post [OF other_profiles(3)] _ kept])
      (auto simp: vultr_create_carries_def vultr_create_names_def dest!: told)
  with \<open>s' = s2\<close> show ?thesis by simp
qed

lemma vultr_delete_sends:
  assumes "vultr_delete_Inspect w J c b a i s = (Inr pre, s1)" "pc_Allowed pre" "pc_Fingerprint pre = f"
    "vultr_delete_Submit w J c b a i f s = ((rc, e), s')"
  shows "sends (wi_provider w) (delete_carries Vultr vu_snapshotsBase (cr_Token (ac_credential c)) a i) (acknowledges i) s1 rc e s'"
proof -
  from assms obtain answer where del: "DeleteSnapshotRequest w b (ac_binding c) Vultr (ac_http c) (vu_snapshotsBase @ ''/'' @ i) (cr_Token (ac_credential c)) [] s1 = (answer, s')"
    and ref: "delete_reference i answer = (rc, e)" by (auto simp: vultr_delete_Submit_def split: prod.splits)
  show ?thesis
    by (rule DeleteSnapshotRequest_sends [OF del is_mutation_delete [OF other_profiles(3)] _ ref]) (simp add: delete_carries_def)
qed

lemma vultr_delete_evidence:
  assumes "SnapshotJSONStatus w b (ac_binding c) Vultr (ac_http c) (vu_snapshotsBase @ ''/'' @ i) (cr_Token (ac_credential c)) (vx_snapshot J) s = (status, Inr (Some n), s')"
    "vs_ID n = i" "vultr_nativeID i" "vultr_mapSnapshot w J n = Inr v" "b = ac_binding c"
  shows "vultr_ReadSnapshot w J c b i s = (Inr v, s')"
  using assms by (auto simp: vultr_ReadSnapshot_def SnapshotJSONStatus_def vultr_get_def io_simps split: if_splits prod.splits)

interpretation vultr_create: snapshot_adapter "\<lambda>log. log" "wi_provider w" "ac_binding c" "\<lambda>a. a = SnapshotCreate"
  "vultr_create_carries (cr_Token (ac_credential c))" "vultr_create_names J" "vultr_create_Inspect w J c" "vultr_create_Submit w J c"
  "vultr_created w J c" "\<lambda>_ _ _ _. False" "vultr_create_Observe w J c" for w J c
proof
  fix b a i f s pre s' e and q :: action_observation and ref
  show "vultr_create_Inspect w J c b a i s = (Inr pre, s') \<Longrightarrow> b = ac_binding c \<and> a = SnapshotCreate"
    by (auto simp: vultr_create_Inspect_def io_simps split: if_splits)
  show "vultr_create_Inspect w J c b a i s = (Inl e, s') \<Longrightarrow> vultr_create_Submit w J c b a i f s = ((no_receipt, Some e), s')"
    by (simp add: vultr_create_Submit_def)
  show "vultr_create_Inspect w J c b a i s = (Inr pre, s') \<Longrightarrow> \<not> pc_Allowed pre \<or> pc_Fingerprint pre \<noteq> f \<Longrightarrow>
      vultr_create_Submit w J c b a i f s = ((outcome_only ''rejected'', None), s')"
    by (simp add: vultr_create_Submit_def)
  show "vultr_create_Observe w J c b a i ref s = (Inr q, s') \<Longrightarrow> b = ac_binding c \<and> a = SnapshotCreate"
    by (auto simp: vultr_create_Observe_def io_simps split: if_splits)
  show "vultr_create_Observe w J c b a i ref s = (Inr q, s') \<Longrightarrow> ao_NativeEvidence q \<Longrightarrow>
      \<exists>r. ref = Some r \<and> (ao_Outcome q = ''succeeded'' \<and> vultr_created w J c i r s s' \<or> ao_Outcome q = ''failed'' \<and> False)"
    by (auto simp: vultr_create_Observe_def io_simps observed_def proven_def vultr_created_def
        split: if_splits sum.splits prod.splits option.splits list.splits)
qed (erule vultr_create_Inspect_reads vultr_create_Observe_reads | erule (3) vultr_create_sends)+

interpretation vultr_delete: snapshot_adapter "\<lambda>log. log" "wi_provider w" "ac_binding c" "\<lambda>a. a = SnapshotDelete"
  "delete_carries Vultr vu_snapshotsBase (cr_Token (ac_credential c))" "\<lambda>_. acknowledges" "vultr_delete_Inspect w J c" "vultr_delete_Submit w J c"
  "vultr_deleted w J c" "\<lambda>_ _ _ _. False" "vultr_delete_Observe w J c" for w J c
proof
  fix b a i f s pre s' e and q :: action_observation and ref
  show "vultr_delete_Inspect w J c b a i s = (Inr pre, s') \<Longrightarrow> b = ac_binding c \<and> a = SnapshotDelete"
    by (auto simp: vultr_delete_Inspect_def io_simps split: if_splits)
  show "vultr_delete_Inspect w J c b a i s = (Inl e, s') \<Longrightarrow> vultr_delete_Submit w J c b a i f s = ((no_receipt, Some e), s')"
    by (simp add: vultr_delete_Submit_def)
  show "vultr_delete_Inspect w J c b a i s = (Inr pre, s') \<Longrightarrow> \<not> pc_Allowed pre \<or> pc_Fingerprint pre \<noteq> f \<Longrightarrow>
      vultr_delete_Submit w J c b a i f s = ((outcome_only ''rejected'', None), s')"
    by (simp add: vultr_delete_Submit_def)
  show "vultr_delete_Observe w J c b a i ref s = (Inr q, s') \<Longrightarrow> b = ac_binding c \<and> a = SnapshotDelete"
    by (auto simp: vultr_delete_Observe_def io_simps split: if_splits)
  show "vultr_delete_Observe w J c b a i ref s = (Inr q, s') \<Longrightarrow> ao_NativeEvidence q \<Longrightarrow>
      \<exists>r. ref = Some r \<and> (ao_Outcome q = ''succeeded'' \<and> vultr_deleted w J c i r s s' \<or> ao_Outcome q = ''failed'' \<and> False)"
    by (auto simp: vultr_delete_Observe_def io_simps observed_def proven_def vultr_deleted_def dest: SnapshotJSONStatus_gone vultr_delete_evidence [OF _ refl _ _ refl, simplified]
        split: if_splits sum.splits prod.splits option.splits)
qed (erule vultr_delete_Inspect_reads vultr_delete_Observe_reads | erule (3) vultr_delete_sends)+

lemma vultr_cursor_next: "0 < p \<Longrightarrow> p < 100 \<Longrightarrow> safeCursor later \<Longrightarrow> vultr_cursor (FormatInt (p + 1) @ '':'' @ later) = Some (p + 1, later)"
proof -
  assume "0 < p" "p < 100" "safeCursor later"
  moreover from \<open>0 < p\<close> have "before CHR '':'' (FormatInt (p + 1) @ '':'' @ later) = FormatInt (p + 1)"
    using FormatInt_colon [of "p + 1"] by (force simp: before_def takeWhile_append takeWhile_eq_all_conv)
  ultimately show ?thesis by (simp add: vultr_cursor_def ParseInt64_FormatInt Let_def)
qed

interpretation vultr_snapshot_pages: numbered_pages "vultr_SnapshotPage w J c b" "\<lambda>cursor. map_option fst (vultr_cursor cursor)" for w J c b
proof
  show "map_option fst (vultr_cursor []) = Some 1" by (simp add: vultr_cursor_def)
next
  fix cursor s found later s' p
  assume page: "vultr_SnapshotPage w J c b cursor s = (Inr (found, later), s')"
  then show "length found \<le> 50"
    by (auto simp: vultr_SnapshotPage_def io_simps dest!: map_each_length split: option.splits prod.splits sum.splits if_splits)
  assume "later \<noteq> []" and p: "map_option fst (vultr_cursor cursor) = Some p"
  with page obtain native where "safeCursor native" "p \<noteq> 100" "later = FormatInt (p + 1) @ '':'' @ native"
    by (auto simp: vultr_SnapshotPage_def io_simps split: option.splits prod.splits sum.splits if_splits)
  moreover from p have "0 < p" "p \<le> 100" by (auto simp: vultr_cursor_def Let_def split: if_splits option.splits)
  ultimately show "p < 100 \<and> map_option fst (vultr_cursor later) = Some (p + 1)" using vultr_cursor_next [of p native] by simp
qed

end
