(* ===== verification/Sama_Contabo.thy ===== *)
theory Sama_Contabo
  imports Sama_Snapshots
begin

text \<open>
  Package \<^verbatim>\<open>provider/contabo\<close>: the access tokens (\<^verbatim>\<open>token.go\<close>), the confined read with one renewal (\<^verbatim>\<open>client.go\<close>), the
  inventory (\<^verbatim>\<open>inventory.go\<close>), the power actions (\<^verbatim>\<open>power.go\<close>) and the snapshots (\<^verbatim>\<open>snapshot.go\<close>, \<^verbatim>\<open>snapshot_create.go\<close>,
  \<^verbatim>\<open>snapshot_delete.go\<close>) of the Compute API v1 client.

  Besides the requests sent, the client's state holds the current token, and the status that the capturing transport of a
  deletion's observation sees last. The token's gate makes an acquisition one step;
  \<open>ce_cancelled\<close> says whether the context ended before it was entered. The clock, the random delay and the random request
  identifiers are functions of the requests sent so far.
\<close>

section \<open>Access tokens\<close>

record access_token =
  at_value :: string
  at_epoch :: "64 word"
  at_renewAt :: time

record contabo_state =
  cs_calls :: "http_call list"
  cs_current :: access_token
  cs_status :: int

record co_instance =
  ci_ID :: string
  ci_Name :: string
  ci_Display :: string
  ci_Status :: string
  ci_Region :: string
  ci_Product :: string
  ci_Tenant :: string
  ci_Customer :: string

record co_pagination =
  cp_Page :: int
  cp_Pages :: int
  cp_Size :: int
  cp_Total :: int

record co_page =
  co_Data :: "co_instance list option"
  co_Pagination :: "co_pagination option"
  co_Links :: "string option"

record co_account =
  ca_Tenant :: string
  ca_Customer :: string
  ca_Default :: bool

record contabo_env =
  ce_wire :: wire
  ce_cancelled :: "http_call list \<Rightarrow> bool"
  ce_now :: "http_call list \<Rightarrow> time"
  ce_jitter :: "http_call list \<Rightarrow> nat"
  ce_uuid :: "http_call list \<Rightarrow> string option"
  ce_token :: "string \<Rightarrow> (string \<times> int \<times> string) option"
  ce_page :: "string \<Rightarrow> co_page option"
  ce_instances :: "string \<Rightarrow> co_instance list option option"
  ce_accounts :: "string \<Rightarrow> (co_account list option \<times> (int \<times> int \<times> int) option) option"
  ce_actions :: "string \<Rightarrow> (string \<times> string) list option option"

definition tokenURL :: string where
  "tokenURL = ''https://auth.contabo.com/auth/realms/contabo/protocol/openid-connect/token''"

text \<open>\<^verbatim>\<open>form.Encode()\<close>, in the order of the keys.\<close>

definition token_form :: "credential \<Rightarrow> string" where
  "token_form c = ''client_id='' @ QueryEscape (cr_ClientID c) @ ''&client_secret='' @ QueryEscape (cr_ClientSecret c)
     @ ''&grant_type=password&password='' @ QueryEscape (cr_Password c) @ ''&username='' @ QueryEscape (cr_Username c)"

definition token_call :: "credential \<Rightarrow> http_call" where
  "token_call c = post_call ContaboAuth tokenURL [] (token_form c) []"

definition token_ok :: "string \<times> int \<times> string \<Rightarrow> bool" where
  "token_ok result = (case result of (access, expires, kind) \<Rightarrow>
     \<not> (kind \<noteq> ''Bearer'' \<and> kind \<noteq> ''bearer'' \<or> length access = 0 \<or> length access > 16384
        \<or> list_ex (\<lambda>c. c \<in> {CHR 0x0D, CHR 0x0A, CHR 0x00}) access \<or> expires < 30 \<or> expires > 86400))"

definition renewal :: "time \<Rightarrow> nat \<Rightarrow> int \<Rightarrow> time" where
  "renewal now random expires = (let lifetime = expires * second; margin = min (30 * second) (lifetime div 10); jitter = int random mod (margin div 2 + 1) in
     now + (lifetime - margin - jitter))"

definition tokens_get :: "contabo_env \<Rightarrow> credential \<Rightarrow> access_token option \<Rightarrow> contabo_state \<Rightarrow> (adapter_error + access_token) \<times> contabo_state" where
  "tokens_get E c rejected s = (let log = cs_calls s; current = cs_current s in
     if ce_cancelled E log then (Inl AdapterBinding, s)
     else if rejected = None \<and> at_value current \<noteq> [] \<and> ce_now E log < at_renewAt current then (Inr current, s)
     else if at_value current \<noteq> [] \<and> (case rejected of None \<Rightarrow> False | Some t \<Rightarrow> at_epoch current \<noteq> at_epoch t) then (Inr current, s)
     else (let epoch = at_epoch current + 1; cleared = \<lparr>at_value = [], at_epoch = epoch, at_renewAt = 0\<rparr> in
       case fetch (ce_token E) ''POST'' (wi_provider (ce_wire E) log (token_call c)) of (r, n) \<Rightarrow>
         (let log' = log @ replicate n (token_call c); s' = s\<lparr>cs_calls := log', cs_current := cleared\<rparr> in
          case r of Inl f \<Rightarrow> (Inl (AdapterFailure f), s')
          | Inr result \<Rightarrow> if \<not> token_ok result then (Inl InvalidResponse, s')
              else (let t = \<lparr>at_value = fst result, at_epoch = epoch, at_renewAt = renewal (ce_now E log') (ce_jitter E log') (fst (snd result))\<rparr> in
                (Inr t, s'\<lparr>cs_current := t\<rparr>)))))"

section \<open>Reads\<close>

text \<open>
  The attempts of \<open>get\<close>: a request that the provider answered with 401 is repeated once with a renewed token.
\<close>

definition denied_by :: "(nat \<Rightarrow> round) \<Rightarrow> nat \<Rightarrow> bool" where
  "denied_by env n \<longleftrightarrow> list_ex (\<lambda>k. exchange_status (rq_exchange (env k)) = 401) [0..<n]"

fun contabo_attempts :: "contabo_env \<Rightarrow> credential \<Rightarrow> string \<Rightarrow> (string \<Rightarrow> 'a option) \<Rightarrow> nat \<Rightarrow> access_token \<Rightarrow> contabo_state
    \<Rightarrow> (adapter_error + 'a) \<times> contabo_state" where
  "contabo_attempts E c raw decode 0 token s = (Inl AdapterBinding, s)"
| "contabo_attempts E c raw decode (Suc left) token s = (case ce_uuid E (cs_calls s) of None \<Rightarrow> (Inl AdapterBinding, s)
     | Some request \<Rightarrow> (let call = (get_call Contabo raw (at_value token))\<lparr>hc_RequestID := request\<rparr>; env = wi_provider (ce_wire E) (cs_calls s) call in
         case fetch decode ''GET'' env of (r, n) \<Rightarrow> (let s' = s\<lparr>cs_calls := cs_calls s @ replicate n call, cs_status := last_status env n (cs_status s)\<rparr> in
           case r of Inr v \<Rightarrow> (Inr v, s')
           | Inl f \<Rightarrow> if \<not> denied_by env n \<or> left = 0 then (Inl (AdapterFailure f), s')
               else io_bind (tokens_get E c (Some token)) (contabo_attempts E c raw decode left) s')))"

definition contabo_get :: "contabo_env \<Rightarrow> api_client \<Rightarrow> binding \<Rightarrow> string \<Rightarrow> (string \<Rightarrow> 'a option) \<Rightarrow> contabo_state \<Rightarrow> (adapter_error + 'a) \<times> contabo_state" where
  "contabo_get E c b raw decode =
     (if b \<noteq> ac_binding c then io_raise AdapterBinding
      else (case profile_URL (ce_wire E) Contabo raw of None \<Rightarrow> io_raise AdapterEndpoint
        | Some _ \<Rightarrow> io_bind (tokens_get E (ac_credential c) None) (contabo_attempts E (ac_credential c) raw decode 2)))"

definition contabo_base :: string where
  "contabo_base = ''https://api.contabo.com/v1/compute/instances''"

definition identityPart :: "string \<Rightarrow> bool" where
  "identityPart s = code_like ''_-'' 127 s"

definition contabo_New :: "binding \<Rightarrow> credential \<Rightarrow> bool \<Rightarrow> (api_client \<times> contabo_state) option" where
  "contabo_New b c budget = (if bi_family b \<noteq> ''contabo.compute'' \<or> cr_Type c \<noteq> ''contabo_v1'' \<or> \<not> credential_valid c \<or> \<not> budget then None
     else Some (\<lparr>ac_binding = b, ac_credential = c, ac_http = True\<rparr>, \<lparr>cs_calls = [], cs_current = \<lparr>at_value = [], at_epoch = 0, at_renewAt = 0\<rparr>, cs_status = 0\<rparr>))"

definition DefaultAccountIdentity :: "contabo_env \<Rightarrow> api_client \<Rightarrow> binding \<Rightarrow> contabo_state \<Rightarrow> (adapter_error + string) \<times> contabo_state" where
  "DefaultAccountIdentity E c b = io_bind (contabo_get E c b ''https://api.contabo.com/v1/me/accounts?default=true&page=1&size=50'' (ce_accounts E)) (\<lambda>response.
     case response of (Some [account], Some (page, elements, pages)) \<Rightarrow>
         if page \<noteq> 1 \<or> elements \<noteq> 1 \<or> pages \<noteq> 1 then io_raise AdapterUnverified
         else if \<not> ca_Default account \<or> \<not> identityPart (ca_Tenant account) \<or> \<not> identityPart (ca_Customer account) then io_raise AdapterUnverified
         else io_ret (ca_Tenant account @ ''/'' @ ca_Customer account)
     | _ \<Rightarrow> io_raise AdapterUnverified)"

definition contabo_mapInstance :: "wire \<Rightarrow> co_instance \<Rightarrow> adapter_error + server_observation" where
  "contabo_mapInstance w i = (if \<not> NumericID (ci_ID i) then Inl InvalidResponse
     else if \<not> identityPart (ci_Tenant i) \<or> \<not> identityPart (ci_Customer i) then Inl InvalidResponse
     else CheckedObservation \<lparr>vo_NativeID = ci_ID i, vo_NativeStatus = ci_Status i,
       vo_Status = NormalizeStatus (ci_Status i) [(''running'', ''running''), (''stopped'', ''stopped''), (''provisioning'', ''pending''), (''installing'', ''pending''),
         (''error'', ''failed'')],
       vo_Name = (if ci_Display i = [] then ci_Name i else ci_Display i), vo_ObservedAt = Some (wi_now w), vo_Region = ci_Region i, vo_MachineType = ci_Product i\<rparr>)"

text \<open>The instances of a page must all be of one account.\<close>

fun one_account :: "wire \<Rightarrow> string \<Rightarrow> co_instance list \<Rightarrow> adapter_error + server_observation list" where
  "one_account w account [] = Inr []"
| "one_account w account (i # is) = (let current = ci_Tenant i @ ''/'' @ ci_Customer i in
     if account \<noteq> [] \<and> account \<noteq> current then Inl AdapterUnverified
     else (case contabo_mapInstance w i of Inl e \<Rightarrow> Inl e
       | Inr v \<Rightarrow> (case one_account w current is of Inl e \<Rightarrow> Inl e | Inr vs \<Rightarrow> Inr (v # vs))))"

definition instances_next :: "wire \<Rightarrow> int \<Rightarrow> int \<Rightarrow> string \<Rightarrow> adapter_error + string" where
  "instances_next w page pages link =
     (if link = [] then (if pages > page then Inl InvalidResponse else Inr [])
      else (case profile_URL w Contabo (if has_prefix ''/v1/'' link then ''https://api.contabo.com'' @ link else link) of None \<Rightarrow> Inl InvalidResponse
        | Some u \<Rightarrow> (case StrictQuery w (ur_RawQuery u) [''page'', ''size''] of None \<Rightarrow> Inl InvalidResponse
          | Some q \<Rightarrow> if ur_Path u \<noteq> ''/v1/compute/instances'' \<or> query_Get q ''page'' \<noteq> FormatInt (page + 1)
                \<or> query_Get q ''size'' \<noteq> [] \<and> query_Get q ''size'' \<noteq> ''50'' \<or> pages \<le> page \<or> page = 100
              then Inl InvalidResponse else Inr (FormatInt (page + 1)))))"

definition contabo_Page :: "contabo_env \<Rightarrow> api_client \<Rightarrow> binding \<Rightarrow> string \<Rightarrow> contabo_state \<Rightarrow> (adapter_error + (server_observation list \<times> string)) \<times> contabo_state" where
  "contabo_Page E c b cursor = (case cursor_page cursor of None \<Rightarrow> io_raise InvalidResponse
     | Some page \<Rightarrow> io_bind (contabo_get E c b (contabo_base @ ''?page='' @ FormatInt page @ ''&size=50'') (ce_page E)) (\<lambda>response.
         case (co_Data response, co_Links response, co_Pagination response) of
           (Some instances, Some link, Some p) \<Rightarrow>
             if cp_Page p \<noteq> page \<or> cp_Size p < 1 \<or> cp_Size p > 50 \<or> int (length instances) > cp_Size p \<or> cp_Total p < 0 \<or> cp_Pages p < 0
               \<or> cp_Pages p > 100 \<or> cp_Total p > 0 \<and> cp_Pages p < page then io_raise InvalidResponse
             else io_bind (io_lift (one_account (ce_wire E) [] instances)) (\<lambda>found.
               io_bind (io_lift (instances_next (ce_wire E) page (cp_Pages p) link)) (\<lambda>later. io_ret (found, later)))
         | _ \<Rightarrow> io_raise InvalidResponse))"

definition contabo_Read :: "contabo_env \<Rightarrow> api_client \<Rightarrow> binding \<Rightarrow> string \<Rightarrow> contabo_state \<Rightarrow> (adapter_error + server_observation) \<times> contabo_state" where
  "contabo_Read E c b target = (if \<not> NumericID target then io_raise InvalidResponse
     else io_bind (contabo_get E c b (contabo_base @ ''/'' @ target) (ce_instances E)) (\<lambda>response.
       case response of Some [i] \<Rightarrow> if ci_ID i \<noteq> target then io_raise InvalidResponse else io_lift (contabo_mapInstance (ce_wire E) i)
       | _ \<Rightarrow> io_raise InvalidResponse))"

definition contabo_Validate :: "contabo_env \<Rightarrow> api_client \<Rightarrow> credential \<Rightarrow> contabo_state \<Rightarrow> (adapter_error + (string \<times> string list)) \<times> contabo_state" where
  "contabo_Validate E c input = (if input \<noteq> ac_credential c then io_raise AdapterBinding
     else io_bind (DefaultAccountIdentity E c (ac_binding c)) (\<lambda>_. io_bind (contabo_Page E c (ac_binding c) []) (\<lambda>_. io_raise AdapterUnverified)))"

section \<open>Power\<close>

definition contabo_path :: "string \<Rightarrow> string" where
  "contabo_path action = (if action = ''compute.server.power_on'' then ''start''
     else if action = ''compute.server.shutdown'' then ''shutdown'' else if action = ''compute.server.reboot'' then ''restart''
     else if action = ''compute.server.power_off'' then ''stop'' else [])"

definition contabo_Inspect :: "contabo_env \<Rightarrow> api_client \<Rightarrow> binding \<Rightarrow> string \<Rightarrow> string \<Rightarrow> contabo_state \<Rightarrow> (adapter_error + preconditions) \<times> contabo_state" where
  "contabo_Inspect E c b action target =
     (if b \<noteq> ac_binding c then io_raise AdapterBinding
      else if contabo_path action = [] then io_raise AdapterUnsupported
      else io_bind (contabo_Read E c b target) (\<lambda>v. io_lift (PowerPreconditions (wi_crypto (ce_wire E)) b action v)))"

definition contabo_post :: "contabo_env \<Rightarrow> api_client \<Rightarrow> binding \<Rightarrow> string \<Rightarrow> string \<Rightarrow> string \<Rightarrow> string \<Rightarrow> contabo_state \<Rightarrow> answer \<times> contabo_state" where
  "contabo_post E c b action target token request s =
     (case post_mutation (ce_wire E) b (ac_binding c) Contabo (ac_http c) (contabo_base @ ''/'' @ target @ ''/actions/'' @ contabo_path action)
         token [] request (ce_actions E) (cs_calls s) of
       ((receipt, e), response, log) \<Rightarrow> (let s' = s\<lparr>cs_calls := log\<rparr> in
         if e \<noteq> None \<or> re_Outcome receipt = ''rejected'' then ((receipt, e), s')
         else if Option.bind response (\<lambda>d. d) \<noteq> Some [(target, contabo_path action)] then ((receipt, Some InvalidResponse), s')
         else ((receipt, None), s')))"

definition contabo_Submit :: "contabo_env \<Rightarrow> api_client \<Rightarrow> binding \<Rightarrow> string \<Rightarrow> string \<Rightarrow> string \<Rightarrow> contabo_state \<Rightarrow> answer \<times> contabo_state" where
  "contabo_Submit E c b action target fingerprint s = (case contabo_Inspect E c b action target s of
       (Inl e, s1) \<Rightarrow> ((no_receipt, Some e), s1)
     | (Inr pre, s1) \<Rightarrow>
         if \<not> pc_Allowed pre \<or> pc_Fingerprint pre \<noteq> fingerprint then ((outcome_only ''rejected'', None), s1)
         else (case tokens_get E (ac_credential c) None s1 of
             (Inl e, s2) \<Rightarrow> ((no_receipt, Some e), s2)
           | (Inr token, s2) \<Rightarrow> (case ce_uuid E (cs_calls s2) of None \<Rightarrow> ((no_receipt, Some AdapterBinding), s2)
               | Some request \<Rightarrow> contabo_post E c b action target (at_value token) request s2)))"

definition contabo_Observe :: "contabo_env \<Rightarrow> api_client \<Rightarrow> binding \<Rightarrow> string \<Rightarrow> string \<Rightarrow> string option \<Rightarrow> contabo_state \<Rightarrow> (adapter_error + action_observation) \<times> contabo_state" where
  "contabo_Observe E c b action target reference =
     (if b \<noteq> ac_binding c then io_raise AdapterBinding
      else if contabo_path action = [] then io_raise AdapterUnsupported
      else if \<not> NumericID target then io_raise InvalidResponse
      else if reference \<noteq> None then io_raise InvalidResponse
      else if action = ''compute.server.reboot'' then io_ret (observed ''unknown'')
      else io_bind (contabo_Read E c b target) (\<lambda>v.
        if vo_Status v = wanted action then io_ret (proven ''succeeded'') else io_ret (observed ''pending'')))"

section \<open>The contract\<close>

lemma token_call_reads [simp]: "mutations (replicate n (token_call c)) = []"
  by (simp add: mutations_def is_mutation_def token_call_def post_call_def filter_replicate)

lemma requested_get_reads [simp]: "mutations (replicate n ((get_call p raw token)\<lparr>hc_RequestID := request\<rparr>)) = []"
  by (simp add: mutations_def is_mutation_def get_call_def filter_replicate)

lemma tokens_get_reads: "tokens_get E c rejected s = (r, s') \<Longrightarrow> mutations (cs_calls s') = mutations (cs_calls s)"
  by (auto simp: tokens_get_def Let_def split: if_splits sum.splits prod.splits)

lemma contabo_attempts_reads: "contabo_attempts E c raw decode k token s = (r, s') \<Longrightarrow> mutations (cs_calls s') = mutations (cs_calls s)"
  by (induction k arbitrary: token s)
    (fastforce simp: Let_def io_bind_def dest: tokens_get_reads split: if_splits sum.splits prod.splits option.splits)+

lemma contabo_get_reads: "contabo_get E c b raw decode s = (r, s') \<Longrightarrow> mutations (cs_calls s') = mutations (cs_calls s)"
  by (fastforce simp: contabo_get_def io_simps dest: tokens_get_reads contabo_attempts_reads split: if_splits sum.splits prod.splits option.splits)

lemma contabo_Read_reads: "contabo_Read E c b target s = (r, s') \<Longrightarrow> mutations (cs_calls s') = mutations (cs_calls s)"
  by (auto simp: contabo_Read_def io_simps dest!: contabo_get_reads split: if_splits sum.splits prod.splits option.splits list.splits)

lemma contabo_Read_target: "contabo_Read E c b target s = (Inr v, s') \<Longrightarrow> vo_NativeID v = target"
  by (auto simp: contabo_Read_def io_simps contabo_mapInstance_def CheckedObservation_def split: if_splits sum.splits prod.splits option.splits list.splits)

lemma contabo_Inspect_reads: "contabo_Inspect E c b a target s = (r, s') \<Longrightarrow> mutations (cs_calls s') = mutations (cs_calls s)"
  by (auto simp: contabo_Inspect_def io_simps dest!: contabo_Read_reads split: if_splits sum.splits prod.splits)

lemma contabo_Observe_reads: "contabo_Observe E c b a target ref s = (r, s') \<Longrightarrow> mutations (cs_calls s') = mutations (cs_calls s)"
  by (auto simp: contabo_Observe_def io_simps dest!: contabo_Read_reads split: if_splits sum.splits prod.splits)

text \<open>The request that carries out an action, whatever its token and request identifier.\<close>

definition contabo_carries :: "string \<Rightarrow> string \<Rightarrow> http_call \<Rightarrow> bool" where
  "contabo_carries action target call \<longleftrightarrow>
     call = post_call Contabo (contabo_base @ ''/'' @ target @ ''/actions/'' @ contabo_path action) (hc_Token call) [] (hc_RequestID call)"

lemma contabo_post_sends:
  assumes "contabo_post E c b a i token request s = ((rc, e), s')"
  shows "sends (wi_provider (ce_wire E)) (contabo_carries a i) (\<lambda>_ _. False) (cs_calls s) rc e (cs_calls s')"
proof -
  let ?raw = "contabo_base @ ''/'' @ i @ ''/actions/'' @ contabo_path a"
  obtain rc1 e1 response log where post: "post_mutation (ce_wire E) b (ac_binding c) Contabo (ac_http c) ?raw token [] request (ce_actions E) (cs_calls s)
      = ((rc1, e1), response, log)" by (metis prod.exhaust)
  with assms have "cs_calls s' = log" "rc = rc1" and kept: "e1 \<noteq> None \<or> re_Outcome rc1 = ''rejected'' \<Longrightarrow> rc = rc1 \<and> e = e1"
    by (auto simp: contabo_post_def Let_def split: if_splits)
  moreover have "sends (wi_provider (ce_wire E)) (contabo_carries a i) (\<lambda>_ _. False) (cs_calls s) rc e log"
    by (rule post_mutation_sends [OF post _ _ kept])
      (auto simp: is_mutation_def contabo_carries_def post_call_def Contabo_def ContaboAuth_def \<open>rc = rc1\<close>)
  ultimately show ?thesis by simp
qed

lemma contabo_sends:
  assumes "contabo_Inspect E c b a i s = (Inr pre, s1)" "pc_Allowed pre" "pc_Fingerprint pre = f" "contabo_Submit E c b a i f s = ((rc, e), s')"
  shows "sends (wi_provider (ce_wire E)) (contabo_carries a i) (\<lambda>_ _. False) (cs_calls s1) rc e (cs_calls s')"
proof -
  obtain r s2 where token: "tokens_get E (ac_credential c) None s1 = (r, s2)" by (metis prod.exhaust)
  note same = tokens_get_reads [OF token, symmetric]
  have "s' = s2 \<and> e \<noteq> None \<or> (\<exists>t request. contabo_post E c b a i t request s2 = ((rc, e), s'))"
    using assms token by (auto simp: contabo_Submit_def split: sum.splits option.splits)
  then show ?thesis
  proof
    assume "s' = s2 \<and> e \<noteq> None"
    with same show ?thesis by (simp add: sends_def)
  next
    assume "\<exists>t request. contabo_post E c b a i t request s2 = ((rc, e), s')"
    with same show ?thesis by (blast intro: sends_mutations contabo_post_sends)
  qed
qed

interpretation contabo: power_adapter cs_calls "wi_provider (ce_wire E)" "ac_binding c" "\<lambda>a. contabo_path a \<noteq> []" contabo_carries
  "\<lambda>_ _ _ _. False" "contabo_Inspect E c" "contabo_Submit E c" "\<lambda>_ :: unit. False" "\<lambda>_. False" "\<lambda>_ _ _ _. io_raise InvalidResponse"
  "contabo_Read E c" "contabo_Observe E c" for E c
proof
  fix b a i f s pre s' e and q :: action_observation and ref r
  show "contabo_Inspect E c b a i s = (Inr pre, s') \<Longrightarrow> b = ac_binding c \<and> contabo_path a \<noteq> []"
    by (auto simp: contabo_Inspect_def io_simps split: if_splits)
  show "contabo_Inspect E c b a i s = (Inl e, s') \<Longrightarrow> contabo_Submit E c b a i f s = ((no_receipt, Some e), s')"
    by (simp add: contabo_Submit_def)
  show "contabo_Inspect E c b a i s = (Inr pre, s') \<Longrightarrow> \<not> pc_Allowed pre \<or> pc_Fingerprint pre \<noteq> f \<Longrightarrow>
      contabo_Submit E c b a i f s = ((outcome_only ''rejected'', None), s')"
    by (simp add: contabo_Submit_def)
  show "contabo_Observe E c b a i ref s = (Inr q, s') \<Longrightarrow> b = ac_binding c \<and> contabo_path a \<noteq> []"
    by (auto simp: contabo_Observe_def io_simps split: if_splits)
  show "contabo_Observe E c b a i None s = (Inr q, s') \<Longrightarrow> ao_NativeEvidence q \<Longrightarrow>
      ao_Outcome q = ''succeeded'' \<and> a \<noteq> ''compute.server.reboot'' \<and> (\<exists>v. contabo_Read E c b i s = (Inr v, s') \<and> vo_Status v = wanted a)"
    by (auto simp: contabo_Observe_def io_simps observed_def proven_def split: if_splits sum.splits prod.splits)
  show "contabo_Observe E c b a i (Some r) s = (Inr q, s') \<Longrightarrow> ao_NativeEvidence q \<Longrightarrow>
      (\<exists>n s1. io_raise InvalidResponse s = (Inr (n :: unit), s1) \<and> (ao_Outcome q = ''failed'' \<and> False \<and> s1 = s'
        \<or> ao_Outcome q = ''succeeded'' \<and> False \<and> (\<exists>v. contabo_Read E c b i s1 = (Inr v, s') \<and> vo_Status v = wanted a)))"
    by (auto simp: contabo_Observe_def io_simps split: if_splits)
qed (erule contabo_Inspect_reads contabo_Observe_reads contabo_Read_target | erule (3) contabo_sends)+

section \<open>Pages\<close>

lemma instances_next_page: "instances_next w page pages link = Inr later \<Longrightarrow> later \<noteq> [] \<Longrightarrow> page \<noteq> 100 \<and> later = FormatInt (page + 1)"
  by (auto simp: instances_next_def split: if_splits option.splits)

lemma one_account_length: "one_account w account xs = Inr ys \<Longrightarrow> length ys = length xs"
  by (induction xs arbitrary: account ys) (auto simp: Let_def split: sum.splits if_splits)

interpretation contabo_pages: numbered_pages "contabo_Page E c b" cursor_page for E c b
proof
  fix cursor s found later s' p
  assume page: "contabo_Page E c b cursor s = (Inr (found, later), s')"
  then show "length found \<le> 50"
    by (auto simp: contabo_Page_def io_simps dest!: one_account_length split: option.splits prod.splits sum.splits if_splits)
  assume "later \<noteq> []" and p: "cursor_page cursor = Some p"
  with page have "p \<noteq> 100" "later = FormatInt (p + 1)"
    by (auto simp: contabo_Page_def io_simps dest!: instances_next_page split: option.splits prod.splits sum.splits if_splits)
  moreover from p have "p \<le> 100" by (auto simp: cursor_page_def split: if_splits option.splits)
  ultimately show "p < 100 \<and> cursor_page later = Some (p + 1)" using cursor_page_next [OF p] by simp
qed (rule cursor_page_first)

section \<open>Tokens\<close>

text \<open>
  A token that is handed out is the current one; a rejected token is not handed out again; and a token is renewed before
  it expires.
\<close>

lemma tokens_get_current: "tokens_get E c rejected s = (Inr t, s') \<Longrightarrow> cs_current s' = t \<and> at_value t \<noteq> []"
  by (auto simp: tokens_get_def token_ok_def Let_def split: if_splits sum.splits prod.splits)

lemma rejected_token_is_replaced:
  "tokens_get E c (Some old) s = (Inr t, s') \<Longrightarrow> at_epoch (cs_current s) = at_epoch old \<Longrightarrow> at_epoch t = at_epoch old + 1"
  by (auto simp: tokens_get_def Let_def split: if_splits sum.splits prod.splits)

lemma renewal_precedes_expiry:
  assumes "token_ok (access, expires, kind)"
  shows "now < renewal now random expires \<and> renewal now random expires < now + expires * second"
proof -
  let ?life = "expires * second" let ?margin = "min (30 * second) (?life div 10)"
  from assms have "30 * second \<le> ?life" by (simp add: token_ok_def second_def)
  then have margin: "0 < ?margin" "10 * ?margin \<le> ?life" by (auto simp: second_def min_def)
  then have "0 < ?margin div 2 + 1" by linarith
  from pos_mod_sign [OF this, of "int random"] pos_mod_bound [OF this, of "int random"]
  show ?thesis using margin unfolding renewal_def Let_def by linarith
qed

section \<open>Snapshots\<close>

record co_snapshot =
  ks_ID :: string
  ks_Instance :: string
  ks_Name :: string
  ks_Created :: string
  ks_Tenant :: string
  ks_Customer :: string

record co_snapshots =
  kr_Data :: "co_snapshot list option"
  kr_Pagination :: "co_pagination option"
  kr_Next :: string

record contabo_snapshot_json =
  kx_response :: "string \<Rightarrow> co_snapshots option"
  kx_rfc3339 :: "string \<Rightarrow> time option option"
  kx_text :: "snapshot_observation \<Rightarrow> string option"

definition snapshotParts :: "string \<Rightarrow> (string \<times> string) option" where
  "snapshotParts target = (case Split CHR ''/'' target of
       [server, native] \<Rightarrow> if \<not> identityPart native \<or> \<not> NumericID server then None else Some (server, native) | _ \<Rightarrow> None)"

definition snapshotURL :: "string \<Rightarrow> string" where
  "snapshotURL server = contabo_base @ ''/'' @ server @ ''/snapshots''"

definition contabo_mapSnapshot :: "wire \<Rightarrow> contabo_snapshot_json \<Rightarrow> co_snapshot \<Rightarrow> adapter_error + snapshot_observation" where
  "contabo_mapSnapshot w J s =
     (if \<not> NumericID (ks_Instance s) \<or> \<not> identityPart (ks_ID s) \<or> \<not> identityPart (ks_Tenant s) \<or> \<not> identityPart (ks_Customer s) then Inl InvalidResponse
      else let created = (if ks_Created s = [] then None else kx_rfc3339 J (ks_Created s)) in
        if ks_Created s \<noteq> [] \<and> created = None then Inl InvalidResponse
        else checked_snapshot \<lparr>np_NativeID = ks_Instance s @ ''/'' @ ks_ID s, np_Name = ks_Name s, np_SourceNativeID = ks_Instance s, np_SourceType = ''compute.server'',
          np_Status = ''unknown'', np_NativeStatus = [], np_StatusReason = ''not_reported'', np_CreatedAt = created, np_NativeCreatedAt = ks_Created s,
          np_CreationTimeReason = (if ks_Created s = [] then ''not_reported'' else []), np_SizeBytes = None, np_SizeGB = None, np_MinimumDiskGB = None,
          np_Regions = [], np_ObservedAt = Some (wi_now w)\<rparr>)"

text \<open>
  The cursor of a snapshot page: instance page and index, snapshot page, step and the expected instance.
\<close>

definition exact_int :: "string \<Rightarrow> int option" where
  "exact_int t = (case ParseInt64 t of None \<Rightarrow> None | Some n \<Rightarrow> if FormatInt n = t then Some n else None)"

definition contabo_cursor :: "string \<Rightarrow> (int \<times> int \<times> int \<times> int \<times> string) option" where
  "contabo_cursor cursor = (if cursor = [] then Some (1, 0, 1, 1, [])
     else (case Split CHR '':'' cursor of
         [a, b, c, d, expected] \<Rightarrow> (case (exact_int a, exact_int b, exact_int c, exact_int d) of
             (Some ip, Some index, Some sp, Some step) \<Rightarrow>
               if ip < 1 \<or> ip > 100 \<or> index < 0 \<or> index \<ge> 50 \<or> sp < 1 \<or> sp > 100 \<or> step < 2 \<or> step > 100 \<or> expected \<noteq> [] \<and> \<not> NumericID expected
               then None else Some (ip, index, sp, step, expected)
           | _ \<Rightarrow> None)
       | _ \<Rightarrow> None))"

definition cursor_text :: "int \<Rightarrow> int \<Rightarrow> int \<Rightarrow> int \<Rightarrow> string \<Rightarrow> string" where
  "cursor_text ip index sp step expected = FormatInt ip @ '':'' @ FormatInt index @ '':'' @ FormatInt sp @ '':'' @ FormatInt step @ '':'' @ expected"

fun fresh_snapshots :: "wire \<Rightarrow> contabo_snapshot_json \<Rightarrow> string \<Rightarrow> string list \<Rightarrow> co_snapshot list \<Rightarrow> adapter_error + snapshot_observation list" where
  "fresh_snapshots w J server seen [] = Inr []"
| "fresh_snapshots w J server seen (s # ss) = (case contabo_mapSnapshot w J s of Inl _ \<Rightarrow> Inl InvalidResponse
     | Inr v \<Rightarrow> if np_SourceNativeID v \<noteq> server \<or> np_NativeID v \<in> set seen then Inl InvalidResponse
         else (case fresh_snapshots w J server (np_NativeID v # seen) ss of Inl e \<Rightarrow> Inl e | Inr vs \<Rightarrow> Inr (v # vs)))"

text \<open>Where the walk goes on: the next page of this instance, the next instance, the next page of instances, or nowhere.\<close>

definition contabo_step :: "wire \<Rightarrow> string list \<Rightarrow> string \<Rightarrow> string \<Rightarrow> int \<Rightarrow> string \<Rightarrow> int \<Rightarrow> int \<Rightarrow> int \<Rightarrow> adapter_error + (int \<times> int \<times> int \<times> string) option" where
  "contabo_step w servers others server pages link ip index sp =
     (if link \<noteq> [] then
        (case profile_URL w Contabo (if has_prefix ''/v1/'' link then ''https://api.contabo.com'' @ link else link) of None \<Rightarrow> Inl InvalidResponse
         | Some u \<Rightarrow> (case StrictQuery w (ur_RawQuery u) [''page'', ''size''] of None \<Rightarrow> Inl InvalidResponse
           | Some q \<Rightarrow> if ur_Path u \<noteq> ''/v1/compute/instances/'' @ server @ ''/snapshots'' \<or> query_Get q ''page'' \<noteq> FormatInt (sp + 1)
                 \<or> query_Get q ''size'' \<noteq> [] \<and> query_Get q ''size'' \<noteq> ''50'' \<or> pages \<le> sp
               then Inl InvalidResponse else Inr (Some (ip, index, sp + 1, server))))
      else if pages > sp then Inl InvalidResponse
      else if index + 1 < int (length servers) then Inr (Some (ip, index + 1, 1, servers ! nat (index + 1)))
      else if others = [] then Inr None
      else Inr (Some (ip + 1, 0, 1, [])))"

definition contabo_SnapshotPage :: "contabo_env \<Rightarrow> contabo_snapshot_json \<Rightarrow> api_client \<Rightarrow> binding \<Rightarrow> string \<Rightarrow> contabo_state
    \<Rightarrow> (adapter_error + (snapshot_observation list \<times> string)) \<times> contabo_state" where
  "contabo_SnapshotPage E J c b cursor = (case contabo_cursor cursor of None \<Rightarrow> io_raise InvalidResponse
     | Some (ip, index, sp, step, expected) \<Rightarrow> io_bind (contabo_Page E c b (FormatInt ip)) (\<lambda>(sources, others).
         if sources = [] then (if index \<noteq> 0 \<or> sp \<noteq> 1 \<or> expected \<noteq> [] \<or> others \<noteq> [] then io_raise InvalidResponse else io_ret ([], []))
         else if index \<ge> int (length sources) then io_raise InvalidResponse
         else let server = vo_NativeID (sources ! nat index) in
           if expected \<noteq> [] \<and> expected \<noteq> server then io_raise InvalidResponse
           else io_bind (contabo_get E c b (snapshotURL server @ ''?page='' @ FormatInt sp @ ''&size=50'') (kx_response J)) (\<lambda>response.
             case (kr_Data response, kr_Pagination response) of
               (Some data, Some p) \<Rightarrow>
                 if cp_Page p \<noteq> sp \<or> cp_Size p < 1 \<or> cp_Size p > 50 \<or> cp_Pages p < 0 \<or> cp_Pages p > 100 \<or> cp_Total p < 0 \<or> cp_Total p > 5000
                   \<or> length data > 50 \<or> cp_Pages p < sp \<and> \<not> (sp = 1 \<and> cp_Pages p = 0 \<and> data = []) then io_raise InvalidResponse
                 else io_bind (io_lift (fresh_snapshots (ce_wire E) J server [] data)) (\<lambda>found.
                   io_bind (io_lift (contabo_step (ce_wire E) (map vo_NativeID sources) others server (cp_Pages p) (kr_Next response) ip index sp)) (\<lambda>go.
                     case go of None \<Rightarrow> io_ret (found, [])
                     | Some (ip', index', sp', server') \<Rightarrow> if step = 100 then io_raise InvalidResponse
                         else io_ret (found, cursor_text ip' index' sp' (step + 1) server')))
             | _ \<Rightarrow> io_raise InvalidResponse)))"

definition contabo_ReadSnapshot :: "contabo_env \<Rightarrow> contabo_snapshot_json \<Rightarrow> api_client \<Rightarrow> binding \<Rightarrow> string \<Rightarrow> contabo_state
    \<Rightarrow> (adapter_error + snapshot_observation) \<times> contabo_state" where
  "contabo_ReadSnapshot E J c b target = (case snapshotParts target of None \<Rightarrow> io_raise InvalidResponse
     | Some (server, native) \<Rightarrow> io_bind (contabo_get E c b (snapshotURL server @ ''/'' @ native) (kx_response J)) (\<lambda>response.
         case kr_Data response of Some [s] \<Rightarrow> (case contabo_mapSnapshot (ce_wire E) J s of Inl _ \<Rightarrow> io_raise InvalidResponse
             | Inr v \<Rightarrow> if np_NativeID v \<noteq> target then io_raise InvalidResponse else io_ret v)
         | _ \<Rightarrow> io_raise InvalidResponse))"

definition contabo_create_Inspect :: "contabo_env \<Rightarrow> api_client \<Rightarrow> binding \<Rightarrow> string \<Rightarrow> string \<Rightarrow> contabo_state \<Rightarrow> (adapter_error + preconditions) \<times> contabo_state" where
  "contabo_create_Inspect E c b action target =
     (if b \<noteq> ac_binding c then io_raise AdapterBinding
      else if action \<noteq> SnapshotCreate then io_raise AdapterUnsupported
      else io_bind (contabo_Read E c b target) (\<lambda>v. io_lift (SnapshotServerReview (wi_crypto (ce_wire E)) b action v False)))"

definition contabo_name :: "string \<Rightarrow> string" where
  "contabo_name fingerprint = ''sama-'' @ hex_encode (take 12 fingerprint)"

definition contabo_create_post :: "contabo_env \<Rightarrow> contabo_snapshot_json \<Rightarrow> api_client \<Rightarrow> binding \<Rightarrow> string \<Rightarrow> string \<Rightarrow> string \<Rightarrow> string \<Rightarrow> contabo_state
    \<Rightarrow> answer \<times> contabo_state" where
  "contabo_create_post E J c b target fingerprint token request s =
     (case post_mutation (ce_wire E) b (ac_binding c) Contabo (ac_http c) (snapshotURL target) token
         (''{'' @ json_field ''name'' (json_string (contabo_name fingerprint)) @ ''}'') request (kx_response J) (cs_calls s) of
       ((receipt, e), response, log) \<Rightarrow> (let s' = s\<lparr>cs_calls := log\<rparr>; unclear = ((outcome_only ''ambiguous'', Some InvalidResponse), s') in
         if e \<noteq> None \<or> re_Outcome receipt = ''rejected'' then ((receipt, e), s')
         else (case Option.bind response kr_Data of Some [n] \<Rightarrow> (case contabo_mapSnapshot (ce_wire E) J n of Inl _ \<Rightarrow> unclear
               | Inr v \<Rightarrow> if np_SourceNativeID v \<noteq> target \<or> np_Name v \<noteq> contabo_name fingerprint then unclear
                   else ((\<lparr>re_Outcome = ''accepted'', re_Reference = np_NativeID v\<rparr>, None), s'))
           | _ \<Rightarrow> unclear)))"

definition contabo_create_Submit :: "contabo_env \<Rightarrow> contabo_snapshot_json \<Rightarrow> api_client \<Rightarrow> binding \<Rightarrow> string \<Rightarrow> string \<Rightarrow> string \<Rightarrow> contabo_state \<Rightarrow> answer \<times> contabo_state" where
  "contabo_create_Submit E J c b action target fingerprint s = (case contabo_create_Inspect E c b action target s of
       (Inl e, s1) \<Rightarrow> ((no_receipt, Some e), s1)
     | (Inr pre, s1) \<Rightarrow>
         if \<not> pc_Allowed pre \<or> pc_Fingerprint pre \<noteq> fingerprint then ((outcome_only ''rejected'', None), s1)
         else (case tokens_get E (ac_credential c) None s1 of
             (Inl e, s2) \<Rightarrow> ((no_receipt, Some e), s2)
           | (Inr token, s2) \<Rightarrow> (case ce_uuid E (cs_calls s2) of None \<Rightarrow> ((no_receipt, Some AdapterBinding), s2)
               | Some request \<Rightarrow> contabo_create_post E J c b target fingerprint (at_value token) request s2)))"

definition contabo_create_Observe :: "contabo_env \<Rightarrow> contabo_snapshot_json \<Rightarrow> api_client \<Rightarrow> binding \<Rightarrow> string \<Rightarrow> string \<Rightarrow> string option \<Rightarrow> contabo_state
    \<Rightarrow> (adapter_error + action_observation) \<times> contabo_state" where
  "contabo_create_Observe E J c b action target reference =
     (if b \<noteq> ac_binding c then io_raise AdapterBinding
      else if action \<noteq> SnapshotCreate then io_raise AdapterUnsupported
      else if \<not> NumericID target then io_raise InvalidResponse
      else (case reference of None \<Rightarrow> io_ret (observed ''unknown'')
        | Some r \<Rightarrow> (case snapshotParts r of None \<Rightarrow> io_raise InvalidResponse
            | Some (server, _) \<Rightarrow> if server \<noteq> target then io_raise InvalidResponse
                else io_bind (contabo_ReadSnapshot E J c b r) (\<lambda>_. io_ret (observed ''unknown'')))))"

definition contabo_delete_Inspect :: "contabo_env \<Rightarrow> contabo_snapshot_json \<Rightarrow> api_client \<Rightarrow> binding \<Rightarrow> string \<Rightarrow> string \<Rightarrow> contabo_state
    \<Rightarrow> (adapter_error + preconditions) \<times> contabo_state" where
  "contabo_delete_Inspect E J c b action target =
     (if b \<noteq> ac_binding c then io_raise AdapterBinding
      else if action \<noteq> SnapshotDelete then io_raise AdapterUnsupported
      else io_bind (contabo_ReadSnapshot E J c b target) (\<lambda>v. io_lift (SnapshotImageReview (wi_crypto (ce_wire E)) (kx_text J) b action v)))"

definition contabo_delete_Submit :: "contabo_env \<Rightarrow> contabo_snapshot_json \<Rightarrow> api_client \<Rightarrow> binding \<Rightarrow> string \<Rightarrow> string \<Rightarrow> string \<Rightarrow> contabo_state \<Rightarrow> answer \<times> contabo_state" where
  "contabo_delete_Submit E J c b action target fingerprint s = (case contabo_delete_Inspect E J c b action target s of
       (Inl e, s1) \<Rightarrow> ((no_receipt, Some e), s1)
     | (Inr pre, s1) \<Rightarrow>
         if \<not> pc_Allowed pre \<or> pc_Fingerprint pre \<noteq> fingerprint then ((outcome_only ''rejected'', None), s1)
         else (case tokens_get E (ac_credential c) None s1 of
             (Inl e, s2) \<Rightarrow> ((no_receipt, Some e), s2)
           | (Inr token, s2) \<Rightarrow> (case ce_uuid E (cs_calls s2) of None \<Rightarrow> ((no_receipt, Some AdapterBinding), s2)
               | Some request \<Rightarrow> (case snapshotParts target of None \<Rightarrow> ((no_receipt, Some InvalidResponse), s2)
                 | Some (server, native) \<Rightarrow> (case DeleteSnapshotRequest (ce_wire E) b (ac_binding c) Contabo (ac_http c) (snapshotURL server @ ''/'' @ native)
                       (at_value token) request (cs_calls s2) of
                     (a, log) \<Rightarrow> (delete_reference target a, s2\<lparr>cs_calls := log\<rparr>))))))"

definition contabo_delete_Observe :: "contabo_env \<Rightarrow> contabo_snapshot_json \<Rightarrow> api_client \<Rightarrow> binding \<Rightarrow> string \<Rightarrow> string \<Rightarrow> string option \<Rightarrow> contabo_state
    \<Rightarrow> (adapter_error + action_observation) \<times> contabo_state" where
  "contabo_delete_Observe E J c b action target reference =
     (if b \<noteq> ac_binding c then io_raise AdapterBinding
      else if action \<noteq> SnapshotDelete then io_raise AdapterUnsupported
      else (case snapshotParts target of None \<Rightarrow> io_raise InvalidResponse
        | Some (server, native) \<Rightarrow> (case reference of None \<Rightarrow> io_ret (observed ''unknown'')
          | Some r \<Rightarrow> if r \<noteq> ''delete/'' @ target then io_raise InvalidResponse
              else (\<lambda>s. case contabo_get E c b (snapshotURL server @ ''/'' @ native) (kx_response J) (s\<lparr>cs_status := 0\<rparr>) of
                  (Inl e, s') \<Rightarrow> if cs_status s' = 404 then (Inr (proven ''succeeded''), s') else (Inl e, s')
                | (Inr response, s') \<Rightarrow> (case kr_Data response of Some [n] \<Rightarrow> (case contabo_mapSnapshot (ce_wire E) J n of Inl _ \<Rightarrow> (Inl InvalidResponse, s')
                      | Inr v \<Rightarrow> if np_NativeID v \<noteq> target then (Inl InvalidResponse, s') else (Inr (observed ''pending''), s'))
                    | _ \<Rightarrow> (Inl InvalidResponse, s'))))))"

subsection \<open>Their contract\<close>

definition contabo_create_carries :: "string \<Rightarrow> string \<Rightarrow> http_call \<Rightarrow> bool" where
  "contabo_create_carries action target call \<longleftrightarrow>
     call = post_call Contabo (snapshotURL target) (hc_Token call) (hc_Body call) (hc_RequestID call)"

definition contabo_create_names :: "contabo_env \<Rightarrow> contabo_snapshot_json \<Rightarrow> string \<Rightarrow> string \<Rightarrow> string \<Rightarrow> exchange \<Rightarrow> bool" where
  "contabo_create_names E J action target reference x = (case Option.bind (body_value (kx_response J) x) kr_Data of
       Some [n] \<Rightarrow> (case contabo_mapSnapshot (ce_wire E) J n of Inr v \<Rightarrow> np_SourceNativeID v = target \<and> reference = np_NativeID v | _ \<Rightarrow> False) | _ \<Rightarrow> False)"

definition contabo_delete_carries :: "string \<Rightarrow> string \<Rightarrow> http_call \<Rightarrow> bool" where
  "contabo_delete_carries action target call \<longleftrightarrow> (\<exists>server native. snapshotParts target = Some (server, native)
     \<and> call = delete_call Contabo (snapshotURL server @ ''/'' @ native) (hc_Token call) (hc_RequestID call))"

definition contabo_gone :: "contabo_env \<Rightarrow> string \<Rightarrow> contabo_state \<Rightarrow> contabo_state \<Rightarrow> bool" where
  "contabo_gone E target s s' \<longleftrightarrow> (\<exists>server native. snapshotParts target = Some (server, native)
     \<and> gone (wi_provider (ce_wire E)) (snapshotURL server @ ''/'' @ native) (cs_calls s) (cs_calls s'))"

lemma contabo_ReadSnapshot_reads: "contabo_ReadSnapshot E J c b target s = (r, s') \<Longrightarrow> mutations (cs_calls s') = mutations (cs_calls s)"
  by (auto simp: contabo_ReadSnapshot_def io_simps dest!: contabo_get_reads split: if_splits sum.splits prod.splits option.splits list.splits)

lemma contabo_create_Inspect_reads: "contabo_create_Inspect E c b a target s = (r, s') \<Longrightarrow> mutations (cs_calls s') = mutations (cs_calls s)"
  by (auto simp: contabo_create_Inspect_def io_simps dest!: contabo_Read_reads split: if_splits sum.splits prod.splits)

lemma contabo_create_Observe_reads: "contabo_create_Observe E J c b a target ref s = (r, s') \<Longrightarrow> mutations (cs_calls s') = mutations (cs_calls s)"
  by (auto simp: contabo_create_Observe_def io_simps dest!: contabo_ReadSnapshot_reads split: if_splits sum.splits prod.splits option.splits)

lemma contabo_delete_Inspect_reads: "contabo_delete_Inspect E J c b a target s = (r, s') \<Longrightarrow> mutations (cs_calls s') = mutations (cs_calls s)"
  by (auto simp: contabo_delete_Inspect_def io_simps dest!: contabo_ReadSnapshot_reads split: if_splits sum.splits prod.splits)

lemma contabo_delete_Observe_reads: "contabo_delete_Observe E J c b a target ref s = (r, s') \<Longrightarrow> mutations (cs_calls s') = mutations (cs_calls s)"
  by (auto simp: contabo_delete_Observe_def io_simps dest!: contabo_get_reads split: if_splits sum.splits prod.splits option.splits list.splits)

text \<open>The requests of a read only grow, and a status of 404 was seen on one of them.\<close>

lemma tokens_get_grows: "tokens_get E c rejected s = (r, s') \<Longrightarrow> cs_status s' = cs_status s \<and> (\<exists>ext. cs_calls s' = cs_calls s @ ext)"
  by (auto simp: tokens_get_def Let_def split: if_splits sum.splits prod.splits)

lemma contabo_attempts_grows: "contabo_attempts E c raw decode k token s = (r, s') \<Longrightarrow> \<exists>ext. cs_calls s' = cs_calls s @ ext"
proof (induction k arbitrary: token s)
  case (Suc k)
  have grow: "\<exists>ext. cs_calls s' = cs_calls s @ ext" if "cs_calls s0 = cs_calls s @ calls" "io_bind (tokens_get E c (Some token)) (contabo_attempts E c raw decode k) s0 = (r, s')" for s0 calls
    using that(2) Suc.IH by (auto simp: io_bind_def that(1) dest!: tokens_get_grows split: prod.splits sum.splits) (metis append_assoc that(1))
  from Suc.prems show ?case
    by (auto simp: Let_def dest!: grow [rotated] split: option.splits prod.splits sum.splits if_splits)
qed simp

lemma gone_grows: "gone provider raw log log' \<Longrightarrow> gone provider raw log (log' @ ext)"
  unfolding gone_def by (metis append_Cons append_assoc)

lemma contabo_attempts_gone:
  "contabo_attempts E c raw decode k token s = (r, s') \<Longrightarrow> cs_status s' = 404 \<Longrightarrow> cs_status s \<noteq> 404 \<Longrightarrow> length log \<le> length (cs_calls s) \<Longrightarrow>
    gone (wi_provider (ce_wire E)) raw log (cs_calls s')"
proof (induction k arbitrary: token s)
  case (Suc k)
  note run = Suc.prems(1)
  then obtain request where request: "ce_uuid E (cs_calls s) = Some request" using Suc.prems by (auto split: option.splits)
  define call where "call = (get_call Contabo raw (at_value token))\<lparr>hc_RequestID := request\<rparr>"
  define env where "env = wi_provider (ce_wire E) (cs_calls s) call"
  obtain q n where fetched: "fetch decode ''GET'' env = (q, n)" by (metis prod.exhaust)
  define s1 where "s1 = s\<lparr>cs_calls := cs_calls s @ replicate n call, cs_status := last_status env n (cs_status s)\<rparr>"
  from run request fetched have onward: "s' = s1 \<or> io_bind (tokens_get E c (Some token)) (contabo_attempts E c raw decode k) s1 = (r, s')"
    by (auto simp: Let_def call_def env_def s1_def split: sum.splits if_splits)
  show ?case
  proof (cases "cs_status s1 = 404")
    case True
    with last_status_seen [of env n "cs_status s"] Suc.prems(3) obtain j where j: "j < n" "exchange_status (rq_exchange (env j)) = 404" by (auto simp: s1_def)
    then have "cs_calls s1 = cs_calls s @ call # replicate (n - 1) call" by (cases n) (auto simp: s1_def)
    with j Suc.prems(4) have "gone (wi_provider (ce_wire E)) raw log (cs_calls s1)"
      unfolding gone_def by (intro exI [of _ "cs_calls s"] exI [of _ call] exI conjI) (auto simp: call_def get_call_def env_def)
    moreover from onward obtain ext where "cs_calls s' = cs_calls s1 @ ext"
      by (auto simp: io_bind_def dest!: tokens_get_grows contabo_attempts_grows split: prod.splits sum.splits)
    ultimately show ?thesis using gone_grows by metis
  next
    case False
    with onward Suc.prems(2) obtain t s2 where t: "tokens_get E c (Some token) s1 = (Inr t, s2)" "contabo_attempts E c raw decode k t s2 = (r, s')"
      by (auto simp: io_bind_def dest: tokens_get_grows split: prod.splits sum.splits)
    with tokens_get_grows [OF t(1)] False Suc.prems(2,4) show ?thesis by (intro Suc.IH [OF t(2)]) (auto simp: s1_def)
  qed
qed simp

lemma contabo_get_gone:
  assumes "contabo_get E c b raw decode s = (r, s')" "cs_status s' = 404" "cs_status s = 0"
  shows "gone (wi_provider (ce_wire E)) raw (cs_calls s) (cs_calls s')"
proof -
  from assms obtain t s1 where t: "tokens_get E (ac_credential c) None s = (Inr t, s1)" "contabo_attempts E (ac_credential c) raw decode 2 t s1 = (r, s')"
    by (auto simp: contabo_get_def io_simps dest: tokens_get_grows split: if_splits option.splits prod.splits sum.splits)
  with tokens_get_grows [OF t(1)] assms show ?thesis by (intro contabo_attempts_gone [OF t(2)]) auto
qed

lemma contabo_create_post_sends:
  assumes "contabo_create_post E J c b i f token request s = ((rc, e), s')"
  shows "sends (wi_provider (ce_wire E)) (contabo_create_carries a i) (contabo_create_names E J a i) (cs_calls s) rc e (cs_calls s')"
proof -
  let ?body = "''{'' @ json_field ''name'' (json_string (contabo_name f)) @ ''}''"
  obtain rc1 e1 response log where post: "post_mutation (ce_wire E) b (ac_binding c) Contabo (ac_http c) (snapshotURL i) token ?body request (kx_response J) (cs_calls s)
      = ((rc1, e1), response, log)" by (metis prod.exhaust)
  with assms have "cs_calls s' = log" and kept: "e1 \<noteq> None \<or> re_Outcome rc1 = ''rejected'' \<Longrightarrow> rc = rc1 \<and> e = e1"
    and told: "e1 = None \<Longrightarrow> re_Outcome rc1 = ''ambiguous'' \<Longrightarrow> e = None \<Longrightarrow>
      \<exists>n v. Option.bind response kr_Data = Some [n] \<and> contabo_mapSnapshot (ce_wire E) J n = Inr v \<and> np_SourceNativeID v = i
        \<and> rc = \<lparr>re_Outcome = ''accepted'', re_Reference = np_NativeID v\<rparr>"
    by (auto simp: contabo_create_post_def Let_def split: if_splits option.splits list.splits sum.splits)
  have "sends (wi_provider (ce_wire E)) (contabo_create_carries a i) (contabo_create_names E J a i) (cs_calls s) rc e log"
    by (rule post_mutation_sends [OF post is_mutation_post [OF other_profiles(4)] _ kept])
      (auto simp: contabo_create_carries_def contabo_create_names_def post_call_def dest!: told)
  with \<open>cs_calls s' = log\<close> show ?thesis by simp
qed

lemma contabo_create_sends:
  assumes "contabo_create_Inspect E c b a i s = (Inr pre, s1)" "pc_Allowed pre" "pc_Fingerprint pre = f" "contabo_create_Submit E J c b a i f s = ((rc, e), s')"
  shows "sends (wi_provider (ce_wire E)) (contabo_create_carries a i) (contabo_create_names E J a i) (cs_calls s1) rc e (cs_calls s')"
proof -
  obtain r s2 where token: "tokens_get E (ac_credential c) None s1 = (r, s2)" by (metis prod.exhaust)
  note same = tokens_get_reads [OF token, symmetric]
  from assms token consider "s' = s2" "e \<noteq> None" | t request where "contabo_create_post E J c b i f t request s2 = ((rc, e), s')"
    by (auto simp: contabo_create_Submit_def split: sum.splits option.splits)
  then show ?thesis
  proof cases
    case 1
    with same show ?thesis by (simp add: sends_def)
  next
    case 2
    from sends_mutations [OF contabo_create_post_sends [OF 2] same] show ?thesis .
  qed
qed

lemma contabo_delete_sends:
  assumes "contabo_delete_Inspect E J c b a i s = (Inr pre, s1)" "pc_Allowed pre" "pc_Fingerprint pre = f" "contabo_delete_Submit E J c b a i f s = ((rc, e), s')"
  shows "sends (wi_provider (ce_wire E)) (contabo_delete_carries a i) (acknowledges i) (cs_calls s1) rc e (cs_calls s')"
proof -
  obtain r s2 where token: "tokens_get E (ac_credential c) None s1 = (r, s2)" by (metis prod.exhaust)
  note same = tokens_get_reads [OF token, symmetric]
  from assms token consider "cs_calls s' = cs_calls s2" "e \<noteq> None"
    | server native t request answer where "snapshotParts i = Some (server, native)" "delete_reference i answer = (rc, e)"
      "DeleteSnapshotRequest (ce_wire E) b (ac_binding c) Contabo (ac_http c) (snapshotURL server @ ''/'' @ native) t request (cs_calls s2) = (answer, cs_calls s')"
    by (auto simp: contabo_delete_Submit_def split: sum.splits option.splits prod.splits)
  then show ?thesis
  proof cases
    case 1
    with same show ?thesis by (simp add: sends_def)
  next
    case 2
    then have "contabo_delete_carries a i (delete_call Contabo (snapshotURL server @ ''/'' @ native) t request)"
      by (simp add: contabo_delete_carries_def delete_call_def)
    from sends_mutations [OF DeleteSnapshotRequest_sends [where carries = "contabo_delete_carries a i",
        OF 2(3) is_mutation_delete [OF other_profiles(4)] this 2(2)] same]
    show ?thesis .
  qed
qed

interpretation contabo_create: snapshot_adapter cs_calls "wi_provider (ce_wire E)" "ac_binding c" "\<lambda>a. a = SnapshotCreate"
  contabo_create_carries "contabo_create_names E J" "contabo_create_Inspect E c" "contabo_create_Submit E J c"
  "\<lambda>_ _ _ _. False" "\<lambda>_ _ _ _. False" "contabo_create_Observe E J c" for E J c
proof
  fix b a i f s pre s' e and q :: action_observation and ref
  show "contabo_create_Inspect E c b a i s = (Inr pre, s') \<Longrightarrow> b = ac_binding c \<and> a = SnapshotCreate"
    by (auto simp: contabo_create_Inspect_def io_simps split: if_splits)
  show "contabo_create_Inspect E c b a i s = (Inl e, s') \<Longrightarrow> contabo_create_Submit E J c b a i f s = ((no_receipt, Some e), s')"
    by (simp add: contabo_create_Submit_def)
  show "contabo_create_Inspect E c b a i s = (Inr pre, s') \<Longrightarrow> \<not> pc_Allowed pre \<or> pc_Fingerprint pre \<noteq> f \<Longrightarrow>
      contabo_create_Submit E J c b a i f s = ((outcome_only ''rejected'', None), s')"
    by (simp add: contabo_create_Submit_def)
  show "contabo_create_Observe E J c b a i ref s = (Inr q, s') \<Longrightarrow> b = ac_binding c \<and> a = SnapshotCreate"
    by (auto simp: contabo_create_Observe_def io_simps split: if_splits)
  show "contabo_create_Observe E J c b a i ref s = (Inr q, s') \<Longrightarrow> ao_NativeEvidence q \<Longrightarrow>
      \<exists>r. ref = Some r \<and> (ao_Outcome q = ''succeeded'' \<and> False \<or> ao_Outcome q = ''failed'' \<and> False)"
    by (auto simp: contabo_create_Observe_def io_simps observed_def split: if_splits sum.splits prod.splits option.splits)
qed (erule contabo_create_Inspect_reads contabo_create_Observe_reads | erule (3) contabo_create_sends)+

interpretation contabo_delete: snapshot_adapter cs_calls "wi_provider (ce_wire E)" "ac_binding c" "\<lambda>a. a = SnapshotDelete"
  contabo_delete_carries "\<lambda>_. acknowledges" "contabo_delete_Inspect E J c" "contabo_delete_Submit E J c"
  "\<lambda>target _. contabo_gone E target" "\<lambda>_ _ _ _. False" "contabo_delete_Observe E J c" for E J c
proof
  fix b a i f s pre s' e and q :: action_observation and ref
  show "contabo_delete_Inspect E J c b a i s = (Inr pre, s') \<Longrightarrow> b = ac_binding c \<and> a = SnapshotDelete"
    by (auto simp: contabo_delete_Inspect_def io_simps split: if_splits)
  show "contabo_delete_Inspect E J c b a i s = (Inl e, s') \<Longrightarrow> contabo_delete_Submit E J c b a i f s = ((no_receipt, Some e), s')"
    by (simp add: contabo_delete_Submit_def)
  show "contabo_delete_Inspect E J c b a i s = (Inr pre, s') \<Longrightarrow> \<not> pc_Allowed pre \<or> pc_Fingerprint pre \<noteq> f \<Longrightarrow>
      contabo_delete_Submit E J c b a i f s = ((outcome_only ''rejected'', None), s')"
    by (simp add: contabo_delete_Submit_def)
  show "contabo_delete_Observe E J c b a i ref s = (Inr q, s') \<Longrightarrow> b = ac_binding c \<and> a = SnapshotDelete"
    by (auto simp: contabo_delete_Observe_def io_simps split: if_splits)
  show "contabo_delete_Observe E J c b a i ref s = (Inr q, s') \<Longrightarrow> ao_NativeEvidence q \<Longrightarrow>
      \<exists>r. ref = Some r \<and> (ao_Outcome q = ''succeeded'' \<and> contabo_gone E i s s' \<or> ao_Outcome q = ''failed'' \<and> False)"
    by (auto simp: contabo_delete_Observe_def io_simps observed_def proven_def contabo_gone_def dest!: contabo_get_gone
        split: if_splits sum.splits prod.splits option.splits list.splits)
qed (erule contabo_delete_Inspect_reads contabo_delete_Observe_reads | erule (3) contabo_delete_sends)+

subsection \<open>Their pages\<close>

lemma NumericID_colon: "NumericID s \<Longrightarrow> CHR '':'' \<notin> set s"
  by (auto simp: NumericID_def char_between_def list_all_iff less_eq_char_def split: list.splits)

lemma one_account_ids: "one_account w account xs = Inr ys \<Longrightarrow> v \<in> set ys \<Longrightarrow> NumericID (vo_NativeID v)"
  by (induction xs arbitrary: account ys)
    (auto simp: Let_def contabo_mapInstance_def CheckedObservation_def split: sum.splits if_splits)

lemma contabo_Page_ids: "contabo_Page E c b cursor s = (Inr (found, later), s') \<Longrightarrow> v \<in> set found \<Longrightarrow> NumericID (vo_NativeID v)"
  by (auto simp: contabo_Page_def io_simps dest: one_account_ids split: option.splits prod.splits sum.splits if_splits)

lemma contabo_step_bounds:
  assumes "contabo_step w servers others server pages link ip index sp = Inr (Some (ip', index', sp', server'))"
    "0 \<le> index" "index < int (length servers)" "length servers \<le> 50" "0 < ip" "ip \<le> 100" "others \<noteq> [] \<Longrightarrow> ip < 100" "0 < sp" "pages \<le> 100" "server \<in> set servers"
  shows "0 < ip' \<and> ip' \<le> 100 \<and> 0 \<le> index' \<and> index' < 50 \<and> 0 < sp' \<and> sp' \<le> 100 \<and> (server' = [] \<or> server' \<in> set servers)"
  using assms by (auto simp: contabo_step_def split: if_splits option.splits)

text \<open>The step that a cursor stands for.\<close>

definition contabo_number :: "string \<Rightarrow> int option" where
  "contabo_number cursor = map_option (\<lambda>(_, _, _, step, _). step) (contabo_cursor cursor)"

lemma exact_int_FormatInt: "0 \<le> n \<Longrightarrow> n < 2 ^ 63 \<Longrightarrow> exact_int (FormatInt n) = Some n"
  by (simp add: exact_int_def ParseInt64_FormatInt)

lemma contabo_cursor_next:
  assumes "0 < ip" "ip \<le> 100" "0 \<le> index" "index < 50" "0 < sp" "sp \<le> 100" "1 < step" "step \<le> 100" "server = [] \<or> NumericID server"
  shows "contabo_cursor (cursor_text ip index sp step server) = Some (ip, index, sp, step, server)"
proof -
  have "CHR '':'' \<notin> set server" using assms(9) NumericID_colon by auto
  then have "Split CHR '':'' (cursor_text ip index sp step server)
      = [FormatInt ip, FormatInt index, FormatInt sp, FormatInt step, server]"
    using assms by (simp add: cursor_text_def Split_append Split_word FormatInt_colon)
  moreover have "cursor_text ip index sp step server \<noteq> []" by (simp add: cursor_text_def)
  ultimately show ?thesis using assms by (simp add: contabo_cursor_def exact_int_FormatInt)
qed

lemma contabo_cursor_bounds:
  "contabo_cursor cursor = Some (ip, index, sp, step, server) \<Longrightarrow> 0 < ip \<and> ip \<le> 100 \<and> 0 \<le> index \<and> 0 < sp \<and> 0 < step \<and> step \<le> 100"
  by (auto simp: contabo_cursor_def split: if_splits option.splits list.splits)

lemma fresh_snapshots_length: "fresh_snapshots w J server seen xs = Inr ys \<Longrightarrow> length ys = length xs"
  by (induction xs arbitrary: seen ys) (auto split: sum.splits if_splits)

lemma contabo_Page_more: "contabo_Page E c b (FormatInt ip) s = (Inr (sources, others), s') \<Longrightarrow> 0 < ip \<Longrightarrow> ip \<le> 100 \<Longrightarrow> others \<noteq> [] \<Longrightarrow> ip < 100"
  using contabo_pages.next_page [of E c b "FormatInt ip" s sources others s' ip]
  by (simp add: cursor_page_def ParseInt64_FormatInt FormatInt_nonempty)

text \<open>What a page with a successor went through.\<close>

lemma contabo_SnapshotPage_later:
  assumes "contabo_SnapshotPage E J c b cursor s = (Inr (found, later), s')" "later \<noteq> []" "contabo_cursor cursor = Some (ip, index, sp, step, expected)"
  obtains s1 sources others pages link ip' index' sp' server' where "contabo_Page E c b (FormatInt ip) s = (Inr (sources, others), s1)"
    "index < int (length sources)" "pages \<le> 100" "step \<noteq> 100"
    "contabo_step (ce_wire E) (map vo_NativeID sources) others (vo_NativeID (sources ! nat index)) pages link ip index sp = Inr (Some (ip', index', sp', server'))"
    "later = cursor_text ip' index' sp' (step + 1) server'"
  using assms(1,2) by (auto simp: contabo_SnapshotPage_def assms(3) io_simps Let_def not_le not_less intro: that split: option.splits prod.splits sum.splits if_splits)

lemma contabo_snapshot_size: "contabo_SnapshotPage E J c b cursor s = (Inr (found, later), s') \<Longrightarrow> length found \<le> 50"
  by (auto simp: contabo_SnapshotPage_def io_simps Let_def dest!: fresh_snapshots_length split: option.splits prod.splits sum.splits if_splits)

interpretation contabo_snapshot_pages: numbered_pages "contabo_SnapshotPage E J c b" contabo_number for E J c b
proof
  show "contabo_number [] = Some 1" by (simp add: contabo_number_def contabo_cursor_def)
next
  fix cursor s found later s' p
  assume page: "contabo_SnapshotPage E J c b cursor s = (Inr (found, later), s')"
  then show "length found \<le> 50" by (rule contabo_snapshot_size)
  assume "later \<noteq> []" "contabo_number cursor = Some p"
  then obtain ip index sp expected where cur: "contabo_cursor cursor = Some (ip, index, sp, p, expected)" by (auto simp: contabo_number_def)
  note bounds = contabo_cursor_bounds [OF cur]
  from contabo_SnapshotPage_later [OF page \<open>later \<noteq> []\<close> cur] obtain s1 sources others pages link ip' index' sp' server'
    where src: "contabo_Page E c b (FormatInt ip) s = (Inr (sources, others), s1)" and idx: "index < int (length sources)" and "pages \<le> 100" "p \<noteq> 100"
      and step: "contabo_step (ce_wire E) (map vo_NativeID sources) others (vo_NativeID (sources ! nat index)) pages link ip index sp = Inr (Some (ip', index', sp', server'))"
      and later: "later = cursor_text ip' index' sp' (p + 1) server'" .
  have "vo_NativeID (sources ! nat index) \<in> set (map vo_NativeID sources)" using idx bounds by (simp add: nat_less_iff)
  with contabo_step_bounds [OF step] bounds idx \<open>pages \<le> 100\<close> contabo_pages.page_size [OF src] contabo_Page_more [OF src]
  have "0 < ip' \<and> ip' \<le> 100 \<and> 0 \<le> index' \<and> index' < 50 \<and> 0 < sp' \<and> sp' \<le> 100 \<and> (server' = [] \<or> server' \<in> set (map vo_NativeID sources))" by simp
  moreover from this contabo_Page_ids [OF src] have "server' = [] \<or> NumericID server'" by auto
  ultimately have "contabo_cursor later = Some (ip', index', sp', p + 1, server')"
    unfolding later using bounds \<open>p \<noteq> 100\<close> by (intro contabo_cursor_next) auto
  with bounds \<open>p \<noteq> 100\<close> show "p < 100 \<and> contabo_number later = Some (p + 1)" by (simp add: contabo_number_def)
qed

end
