(* ===== verification/Sama_Providers.thy ===== *)
theory Sama_Providers
  imports Sama_Hetzner Sama_DigitalOcean Sama_Vultr Sama_Contabo
begin

text \<open>
  The adapters together: what the dispatch worker may conclude from their submissions and observations, that their page
  walks end, and a provider for concrete runs.
\<close>

section \<open>Properties\<close>

text \<open>
  C38: whatever a provider answers, a submission by any adapter, a power action, a snapshot's creation or its deletion at any
  of the four providers, is honest. It sends at most one mutation, as its last request, to the address of exactly this
  action and target, and only under the adapter's own binding, for a supported action and after a fresh read that allows it
  with the reviewed fingerprint. The dispatch worker then takes the operation for failed only if nothing was sent or the
  provider refused the request; it waits only for a reference that the provider's answer names for this action and target,
  which the power actions of Vultr and Contabo never have; in all other cases it reconciles.
\<close>
theorem adapter_submission_is_honest:
  "honest_submission (\<lambda>log. log) (wi_provider w) (ac_binding c) (\<lambda>a. hetzner_path a \<noteq> []) (hetzner_carries (cr_Token (ac_credential c))) (hetzner_names H)
      (hetzner_Inspect w H c) (hetzner_Submit w H c) b action target fingerprint log
   \<and> honest_submission (\<lambda>log. log) (wi_provider w) (ac_binding c) (\<lambda>a. powerType a \<noteq> []) (digitalocean_carries (cr_Token (ac_credential c))) (digitalocean_names D)
      (digitalocean_Inspect w D c) (digitalocean_Submit w D c) b action target fingerprint log
   \<and> honest_submission (\<lambda>log. log) (wi_provider w) (ac_binding c) (\<lambda>a. vultr_path a \<noteq> []) (vultr_carries (cr_Token (ac_credential c))) (\<lambda>_ _ _ _. False)
      (vultr_Inspect w V c) (vultr_Submit w V c) b action target fingerprint log
   \<and> honest_submission cs_calls (wi_provider (ce_wire E)) (ac_binding c) (\<lambda>a. contabo_path a \<noteq> []) contabo_carries (\<lambda>_ _ _ _. False)
      (contabo_Inspect E c) (contabo_Submit E c) b action target fingerprint s
   \<and> honest_submission (\<lambda>log. log) (wi_provider w) (ac_binding c) (\<lambda>a. a = SnapshotCreate) (hetzner_create_carries (cr_Token (ac_credential c))) (hetzner_create_names HS)
      (hetzner_create_Inspect w HS c) (hetzner_create_Submit w HS c) b action target fingerprint log
   \<and> honest_submission (\<lambda>log. log) (wi_provider w) (ac_binding c) (\<lambda>a. a = SnapshotCreate) (digitalocean_create_carries (cr_Token (ac_credential c))) (digitalocean_create_names DS)
      (digitalocean_create_Inspect w DS c) (digitalocean_create_Submit w DS c) b action target fingerprint log
   \<and> honest_submission (\<lambda>log. log) (wi_provider w) (ac_binding c) (\<lambda>a. a = SnapshotCreate) (vultr_create_carries (cr_Token (ac_credential c))) (vultr_create_names VS)
      (vultr_create_Inspect w VS c) (vultr_create_Submit w VS c) b action target fingerprint log
   \<and> honest_submission cs_calls (wi_provider (ce_wire E)) (ac_binding c) (\<lambda>a. a = SnapshotCreate) contabo_create_carries (contabo_create_names E CS)
      (contabo_create_Inspect E c) (contabo_create_Submit E CS c) b action target fingerprint s
   \<and> honest_submission (\<lambda>log. log) (wi_provider w) (ac_binding c) (\<lambda>a. a = SnapshotDelete) (delete_carries HetznerCloud imagesBase (cr_Token (ac_credential c))) (\<lambda>_. acknowledges)
      (hetzner_delete_Inspect w HS c) (hetzner_delete_Submit w HS c) b action target fingerprint log
   \<and> honest_submission (\<lambda>log. log) (wi_provider w) (ac_binding c) (\<lambda>a. a = SnapshotDelete) (delete_carries DigitalOcean do_snapshotsBase (cr_Token (ac_credential c))) (\<lambda>_. acknowledges)
      (digitalocean_delete_Inspect w DS c) (digitalocean_delete_Submit w DS c) b action target fingerprint log
   \<and> honest_submission (\<lambda>log. log) (wi_provider w) (ac_binding c) (\<lambda>a. a = SnapshotDelete) (delete_carries Vultr vu_snapshotsBase (cr_Token (ac_credential c))) (\<lambda>_. acknowledges)
      (vultr_delete_Inspect w VS c) (vultr_delete_Submit w VS c) b action target fingerprint log
   \<and> honest_submission cs_calls (wi_provider (ce_wire E)) (ac_binding c) (\<lambda>a. a = SnapshotDelete) contabo_delete_carries (\<lambda>_. acknowledges)
      (contabo_delete_Inspect E CS c) (contabo_delete_Submit E CS c) b action target fingerprint s"
  by (intro conjI hetzner.submission_is_honest digitalocean.submission_is_honest vultr.submission_is_honest contabo.submission_is_honest hetzner_create.submission_is_honest digitalocean_create.submission_is_honest vultr_create.submission_is_honest contabo_create.submission_is_honest hetzner_delete.submission_is_honest digitalocean_delete.submission_is_honest vultr_delete.submission_is_honest contabo_delete.submission_is_honest)


text \<open>
  C40: following the cursors of a provider's pages ends. Whatever the provider answers, the walk over the servers of Hetzner,
  DigitalOcean and Contabo and over the snapshots of all four providers takes at most 100 pages, ends with an error or with a
  complete list, and lists at most 5000 entries.
\<close>
theorem adapter_pages_end:
  "pages_end (hetzner_Page w H c b) log \<and> pages_end (digitalocean_Page w D c b) log \<and> pages_end (contabo_Page E c b) s
   \<and> pages_end (hetzner_SnapshotPage w HS c b) log \<and> pages_end (digitalocean_SnapshotPage w DS c b) log
   \<and> pages_end (vultr_SnapshotPage w VS c b) log \<and> pages_end (contabo_SnapshotPage E CS c b) s"
  by (intro conjI hetzner_pages.pages_end_here digitalocean_pages.pages_end_here contabo_pages.pages_end_here hetzner_snapshot_pages.pages_end_here
      digitalocean_snapshot_pages.pages_end_here vultr_snapshot_pages.pages_end_here contabo_snapshot_pages.pages_end_here)

text \<open>No adapter vouches for an account: its validation always ends with an error, so none can be registered as verified.\<close>

lemma adapters_never_vouch:
  "isl (fst (hetzner_Validate w H c input log))" "isl (fst (digitalocean_Validate uuid_parse w D c input log))"
  "isl (fst (vultr_Validate w V c input log))" "isl (fst (contabo_Validate E c input s))"
  by (auto simp: hetzner_Validate_def digitalocean_Validate_def vultr_Validate_def contabo_Validate_def io_simps split: sum.splits prod.splits option.splits)

section \<open>A concrete run\<close>

text \<open>
  Server 42 of a Hetzner project is running; the provider answers a read with the server, a \<open>POST\<close> with action 9 and the
  read of that action with its end. The texts stand for their JSON.
\<close>

definition example_client :: api_client where
  "example_client = \<lparr>ac_binding = \<lparr>bi_workspace = 1, bi_connection = 2, bi_family = ''hetzner.cloud'', bi_version = 1\<rparr>,
     ac_credential = \<lparr>cr_Type = ''bearer_v1'', cr_Token = ''secret'', cr_ClientID = [], cr_ClientSecret = [], cr_Username = [], cr_Password = [],
       cr_CustomerNumber = [], cr_APIKey = [], cr_APIPassword = []\<rparr>, ac_http = True\<rparr>"

definition example_json :: hetzner_json where
  "example_json = \<lparr>hj_server = (\<lambda>t. if t = ''server'' then Some (Some \<lparr>hs_Locked = Some False, hs_ID = ''42'', hs_Name = ''web'', hs_Status = ''running'',
       hs_Location = ''fsn1'', hs_Type = ''cx22''\<rparr>) else None), hj_page = (\<lambda>_. None),
     hj_action = (\<lambda>t. if t = ''action'' then Some (Some \<lparr>ha_ID = ''9'', ha_Command = ''reboot_server'', ha_Status = ''success'',
       ha_Resources = [(''42'', ''server'')]\<rparr>) else None)\<rparr>"

definition example_answer :: "http_call list \<Rightarrow> http_call \<Rightarrow> nat \<Rightarrow> round" where
  "example_answer log call k = \<lparr>rq_exchange = Response 200 (Some (if hc_URL call = hetzner_base @ ''/42'' then ''server'' else ''action'')) 0,
     rq_done = False, rq_wait = False, rq_jitter = 0\<rparr>"

definition example_parse :: "string \<Rightarrow> url option" where
  "example_parse raw = Some \<lparr>ur_Scheme = ''https'', ur_Opaque = [], ur_User = False, ur_Hostname = ''api.hetzner.cloud'', ur_Port = [],
     ur_Path = drop 25 raw, ur_RawPath = [], ur_ForceQuery = False, ur_RawQuery = [], ur_Fragment = []\<rparr>"

definition example_wire :: wire where
  "example_wire = \<lparr>wi_provider = example_answer, wi_parse = example_parse, wi_query = (\<lambda>_. None), wi_now = 1, wi_crypto = example_crypto\<rparr>"

lemma example_urls:
  "profile_URL example_wire HetznerCloud (hetzner_base @ ''/42'') \<noteq> None"
  "profile_URL example_wire HetznerCloud (hetzner_base @ ''/42/actions/reboot'') \<noteq> None"
  "profile_URL example_wire HetznerCloud ''https://api.hetzner.cloud/v1/actions/9'' \<noteq> None"
  by (simp_all add: profile_URL_def example_wire_def example_parse_def hetzner_base_def) code_simp+

definition example_server :: server_observation where
  "example_server = \<lparr>vo_NativeID = ''42'', vo_NativeStatus = ''running'', vo_Status = ''running'', vo_Name = ''web'', vo_ObservedAt = Some 1,
     vo_Region = ''fsn1'', vo_MachineType = ''cx22''\<rparr>"

definition example_fingerprint :: string where
  "example_fingerprint = sha256 example_crypto (power_text (ac_binding example_client) ''compute.server.reboot'' example_server)"

lemma example_fetch:
  assumes "decode (if hc_URL call = hetzner_base @ ''/42'' then ''server'' else ''action'') = Some v"
  shows "fetch decode ''GET'' (example_answer log call) = (Inr v, 1)"
proof -
  have "request_loop (\<lambda>s. decode s \<noteq> None) (example_answer log call) 0 (Suc 4) = (Inr (), 1, [])"
    by (subst request_loop.simps(2)) (use assms in \<open>simp add: judge_def example_answer_def maxMetadataBytes_def\<close>)
  then have "RequestJSON (\<lambda>s. decode s \<noteq> None) ''GET'' (example_answer log call) = (Inr (), 1, [])"
    by (simp add: RequestJSON_def attempts_for_def)
  with assms show ?thesis by (simp add: fetch_def body_value_def example_answer_def)
qed

lemma example_get:
  assumes "profile_URL example_wire HetznerCloud raw \<noteq> None"
    and "decode (if raw = hetzner_base @ ''/42'' then ''server'' else ''action'') = Some v"
  shows "hetzner_get example_wire example_client (ac_binding example_client) raw decode log = (Inr v, log @ [get_call HetznerCloud raw ''secret''])"
  using assms example_fetch [of decode "get_call HetznerCloud raw ''secret''" v log]
  by (auto simp: hetzner_get_def GetJSON_def example_client_def example_wire_def get_call_def)

lemma example_map: "mapServer example_wire \<lparr>hs_Locked = l, hs_ID = ''42'', hs_Name = ''web'', hs_Status = ''running'', hs_Location = ''fsn1'', hs_Type = ''cx22''\<rparr>
    = Inr example_server"
  by (simp add: mapServer_def example_wire_def NumericID_def char_between_def CheckedObservation_def NormalizeStatus_def example_server_def runes_def cont_byte_def)

lemma example_inspect:
  "hetzner_Inspect example_wire example_json example_client (ac_binding example_client) ''compute.server.reboot'' ''42'' log
    = (Inr \<lparr>pc_Fingerprint = example_fingerprint, pc_TargetName = ''web'', pc_Allowed = True, pc_HighImpact = False\<rparr>,
       log @ [get_call HetznerCloud (hetzner_base @ ''/42'') ''secret''])"
  using example_urls(1)
  by (simp add: hetzner_Inspect_def hetzner_path_def NumericID_def char_between_def io_simps example_get example_json_def example_map
      PowerPreconditions_def example_fingerprint_def example_server_def [THEN arg_cong [of _ _ vo_Status]] example_server_def [THEN arg_cong [of _ _ vo_Name]]
      example_wire_def [THEN arg_cong [of _ _ wi_crypto]])

lemma example_post:
  "post_mutation example_wire (ac_binding example_client) (ac_binding example_client) HetznerCloud (ac_http example_client)
     (hetzner_base @ ''/'' @ ''42'' @ ''/actions/'' @ hetzner_path ''compute.server.reboot'') (cr_Token (ac_credential example_client)) [] [] (hj_action example_json) log
   = ((outcome_only ''ambiguous'', None), hj_action example_json ''action'',
      log @ [post_call HetznerCloud (hetzner_base @ ''/42/actions/reboot'') ''secret'' [] []])"
  using example_urls(2)
  by (auto simp: post_mutation_def PostMutation_def Let_def hetzner_path_def profile_URL_def RequestJSON_def attempts_for_def judge_def example_answer_def
      maxMetadataBytes_def body_value_def post_call_def example_client_def example_wire_def example_json_def hetzner_base_def split: option.splits if_splits)

text \<open>The reboot is accepted as action 9 with one mutation, and the observation of that action then proves it.\<close>

lemma example_reboot:
  "case hetzner_Submit example_wire example_json example_client (ac_binding example_client) ''compute.server.reboot'' ''42'' example_fingerprint [] of
     (answer, log) \<Rightarrow> classifyActionReceipt ''compute.server.reboot'' (receipt_result answer) = (WaitingProvider, Some ''9'') \<and> length (mutations log) = 1
       \<and> observed_state (Some ''9'') (observation_result (fst (hetzner_Observe example_wire example_json example_client (ac_binding example_client)
            ''compute.server.reboot'' ''42'' (Some ''9'') log))) = Succeeded"
proof -
  let ?n = "\<lparr>ha_ID = ''9'', ha_Command = ''reboot_server'', ha_Status = ''success'', ha_Resources = [(''42'', ''server'')]\<rparr>"
  have match: "hetzner_matches (Some ?n) ''compute.server.reboot'' ''42''"
    by (simp add: hetzner_matches_def hetzner_command_def NumericID_def char_between_def)
  have "hetzner_Submit example_wire example_json example_client (ac_binding example_client) ''compute.server.reboot'' ''42'' example_fingerprint []
      = ((\<lparr>re_Outcome = ''accepted'', re_Reference = ''9''\<rparr>, None),
         [get_call HetznerCloud (hetzner_base @ ''/42'') ''secret'', post_call HetznerCloud (hetzner_base @ ''/42/actions/reboot'') ''secret'' [] []])"
    using match by (simp add: hetzner_Submit_def example_inspect example_post [simplified] outcome_only_def) (simp add: example_json_def)
  moreover have "hetzner_Observe example_wire example_json example_client (ac_binding example_client) ''compute.server.reboot'' ''42'' (Some ''9'') log
      = (Inr (proven ''succeeded''), log @ [get_call HetznerCloud ''https://api.hetzner.cloud/v1/actions/9'' ''secret''] @ [get_call HetznerCloud (hetzner_base @ ''/42'') ''secret''])" for log
    using match example_urls(1,3)
    by (simp add: hetzner_Observe_def hetzner_path_def NumericID_def char_between_def hetzner_action_def hetzner_Read_def io_simps example_get example_json_def
        hetzner_base_def example_map wanted_def example_server_def)
  ultimately show ?thesis
    by (simp add: receipt_result_def classifyActionReceipt_def snapshotAction_def SnapshotCreate_def SnapshotDelete_def classifyReceipt_def nativeReference_def code_like_def alnum_def char_between_def mutations_def is_mutation_def
        get_call_def post_call_def HetznerCloud_def ContaboAuth_def observation_result_def observed_state_def proven_def)
qed

end
