(* ===== verification/Sama_Membership.thy ===== *)
theory Sama_Membership
  imports Sama_Workspace
begin

text \<open>
  The workspace services together: a step relation over every operation of \<^verbatim>\<open>internal/workspace\<close> that writes,
  its invariant (well-formed memberships, an enabled owner in each workspace), grants, single-use invitations and the
  paged workspace list, which provides the interface \<open>keyset\<close>.
\<close>

section \<open>The membership machine\<close>

definition ws_inv :: "db \<Rightarrow> bool" where
  "ws_inv d \<longleftrightarrow> members_wf d \<and> (\<forall>w \<in> set (workspaces d). has_owner d (w_id w))"

inductive member_step :: "db \<Rightarrow> db \<Rightarrow> bool" where
  change: "ChangeMember n clk aid actor scope target role version request d = (r, d') \<Longrightarrow> member_step d d'"
| transfer: "Transfer n clk aid1 aid2 actor scope target actorVersion targetVersion demote request d = (r, d') \<Longrightarrow> member_step d d'"
| grant: "SetGrant n clk aid actor scope connection target actions request d = (r, d') \<Longrightarrow> member_step d d'"
| create: "Create n clk wid event user name request d = (r, d') \<Longrightarrow> member_step d d'"
| bootstrap: "Bootstrap n locked clk user workspace event configuredIssuer issuer subject name d = (r, d') \<Longrightarrow> member_step d d'"
| invite: "IssueInvitation K n clk aid raw actor scope issuer subject role request now d = (r, d') \<Longrightarrow> member_step d d'"
| redeem: "run_tx eb ec n (RedeemInvitation clk uid aid digest issuer subject request now) d = (r, d') \<Longrightarrow> member_step d d'"
| settings: "WorkspaceSettings n clk aid actor scope update request d = (r, d') \<Longrightarrow> member_step d d'"

inductive_cases member_stepE: "member_step d d'"

text \<open>Only accounts are added by these operations; none is disabled or removed.\<close>

definition users_grow :: "db \<Rightarrow> db \<Rightarrow> bool" where
  "users_grow d d' \<longleftrightarrow> (\<forall>u. enabled_user d u \<longrightarrow> enabled_user d' u)"

lemma has_owner_mono:
  "has_owner d w \<Longrightarrow> users_grow d d' \<Longrightarrow> set (memberships d) \<subseteq> set (memberships d') \<Longrightarrow> has_owner d' w"
  unfolding has_owner_def enabled_owner_def users_grow_def by blast

lemma enabled_user_append [simp]: "enabled_user d u \<Longrightarrow> enabled_user (d\<lparr>users := users d @ us\<rparr>) u"
  by (auto simp: enabled_user_def)

lemma enabled_user_users: "users d2 = users d1 \<Longrightarrow> enabled_user d2 = enabled_user d1"
  by (simp add: enabled_user_def fun_eq_iff)

text \<open>What every operation leaves: the invariant, and at least the workspaces there were.\<close>

definition ws_next :: "db \<Rightarrow> db \<Rightarrow> bool" where
  "ws_next d d' \<longleftrightarrow> ws_inv d' \<and> w_id ` set (workspaces d) \<subseteq> w_id ` set (workspaces d')"

text \<open>A new workspace with its owner.\<close>

definition founded :: "db \<Rightarrow> db \<Rightarrow> bool" where
  "founded d d' \<longleftrightarrow> (\<exists>w user. workspaces d' = workspaces d @ [w] \<and> w_id w \<notin> set (map w_id (workspaces d)) \<and> w_policy_version w = 1
     \<and> memberships d' = memberships d @ [\<lparr>m_workspace = w_id w, m_user = user, m_role = ''owner'', m_version = 1\<rparr>]
     \<and> enabled_user d' user \<and> users_grow d d')"

lemma new_workspace_simps [simp]: "w_id (new_workspace wid name) = wid" "w_policy_version (new_workspace wid name) = 1"
  by (simp_all add: new_workspace_def)

lemma foundedI:
  assumes "insert_workspace (new_workspace wid name) d1 = Some d2"
    and "insert_member \<lparr>m_workspace = wid, m_user = user, m_role = ''owner'', m_version = 1\<rparr> d2 = Some d3"
    and "enabled_user d1 user" "users_grow d d1" "workspaces d1 = workspaces d" "memberships d1 = memberships d"
    and "workspaces d' = workspaces d3" "memberships d' = memberships d3" "users d' = users d3"
  shows "founded d d'"
proof -
  have "users d' = users d1" using assms(1,2,9) by (auto simp: insert_workspace_def insert_member_def split: if_splits)
  then have "enabled_user d' = enabled_user d1" by (rule enabled_user_users)
  then show ?thesis
    unfolding founded_def using assms
    by (intro exI [of _ "new_workspace wid name"] exI [of _ user])
      (auto simp: insert_workspace_def insert_member_def users_grow_def split: if_splits)
qed

lemma founded_inv:
  assumes "ws_inv d" "founded d d'"
  shows "ws_next d d'"
proof -
  from assms(2) obtain w user where f: "workspaces d' = workspaces d @ [w]" "w_id w \<notin> set (map w_id (workspaces d))" "w_policy_version w = 1"
      "memberships d' = memberships d @ [\<lparr>m_workspace = w_id w, m_user = user, m_role = ''owner'', m_version = 1\<rparr>]"
      "enabled_user d' user" "users_grow d d'" by (auto simp: founded_def)
  have "m_workspace m \<in> w_id ` set (workspaces d)" if "m \<in> set (memberships d)" for m
    using assms(1) that unfolding ws_inv_def members_wf_def by (metis image_eqI)
  then have "w_id w \<notin> m_workspace ` set (memberships d)" using f(2) by auto
  with assms(1) f have "members_wf d'" unfolding ws_inv_def members_wf_def by (auto simp: member_key_def)
  moreover have "has_owner d' (w_id w)" using f by (auto simp: has_owner_def enabled_owner_def)
  moreover have "has_owner d' (w_id x)" if "x \<in> set (workspaces d)" for x
    using assms(1) that f has_owner_mono [of d "w_id x" d'] by (auto simp: ws_inv_def)
  ultimately show ?thesis using f(1) by (auto simp: ws_next_def ws_inv_def)
qed

lemma create_effect: "vc (create_tx clk wid event user name request) (\<lambda>_. founded d) d"
  unfolding create_tx_def
  by (intro vc_rules) (auto simp: admitted_user_def users_grow_def intro: foundedI)

lemma identity_enabled: "identity_of d issuer subject = Some u \<Longrightarrow> enabled_user d u"
  by (auto simp: identity_of_def enabled_user_def dest!: fetch_Some)

lemma admit_user_grow: "admit_user u issuer subject d = Some d' \<Longrightarrow> users_grow d d' \<and> (\<exists>us. d' = d\<lparr>users := us\<rparr>)"
  by (auto simp: admit_user_def users_grow_def split: if_splits intro: exI [of _ "users d"])

lemma bootstrap_effect: "vc (bootstrap_tx locked clk uid wid event issuer subject name) (\<lambda>_. founded d) d"
  unfolding bootstrap_tx_def
  by (intro vc_rules) (auto dest!: admit_user_grow identity_enabled intro: foundedI split: if_splits)

text \<open>Operations that change a workspace row but no membership.\<close>

definition policies_grow :: "db \<Rightarrow> db \<Rightarrow> bool" where
  "policies_grow d d' \<longleftrightarrow> map w_id (workspaces d') = map w_id (workspaces d) \<and> users_grow d d'
     \<and> (\<forall>w \<in> set (workspaces d). \<exists>w' \<in> set (workspaces d'). w_id w' = w_id w \<and> w_policy_version w \<le> w_policy_version w')"

lemma policies_grow_refl: "workspaces d' = workspaces d \<Longrightarrow> users d' = users d \<Longrightarrow> policies_grow d d'"
  by (auto simp: policies_grow_def users_grow_def enabled_user_def)

lemma policies_grow_bumped: "workspaces d' = bumped scope (workspaces d) \<Longrightarrow> users_grow d d' \<Longrightarrow> policies_grow d d'"
  using bumped_mono [of _ "workspaces d" scope] by (fastforce simp: policies_grow_def)

lemma policies_grow_ids: "policies_grow d d' \<Longrightarrow> w_id ` set (workspaces d') = w_id ` set (workspaces d)"
  by (metis policies_grow_def set_map)

text \<open>Every workspace keeps its owner when each old owner row survives or a new owner row of that workspace appears.\<close>

lemma ws_invI:
  assumes "ws_inv d" "policies_grow d d'" "members_wf d'" "\<And>w. has_owner d w \<Longrightarrow> has_owner d' w"
  shows "ws_next d d'"
proof -
  have "has_owner d' (w_id w)" if "w \<in> set (workspaces d')" for w
  proof -
    have "w_id w \<in> w_id ` set (workspaces d)" using that policies_grow_ids [OF assms(2)] by blast
    then show ?thesis using assms(1,4) by (auto simp: ws_inv_def)
  qed
  with assms(3) show ?thesis using policies_grow_ids [OF assms(2)] by (simp add: ws_next_def ws_inv_def)
qed

lemma policies_grow_wf:
  assumes "members_wf d" "policies_grow d d'" "distinct (map member_key (memberships d'))"
    and "\<And>m. m \<in> set (memberships d') \<Longrightarrow> m \<in> set (memberships d) \<or> known_role (m_role m) \<and> 0 < m_version m
       \<and> (\<exists>w \<in> set (workspaces d'). w_id w = m_workspace m \<and> m_version m \<le> w_policy_version w)"
  shows "members_wf d'"
proof -
  have "known_role (m_role m) \<and> 0 < m_version m \<and> (\<exists>w \<in> set (workspaces d'). w_id w = m_workspace m \<and> m_version m \<le> w_policy_version w)"
    if "m \<in> set (memberships d')" for m
  proof (cases "m \<in> set (memberships d)")
    case True
    with assms(1) obtain w where "known_role (m_role m)" "0 < m_version m" "w \<in> set (workspaces d)" "w_id w = m_workspace m" "m_version m \<le> w_policy_version w"
      unfolding members_wf_def by blast
    with assms(2) show ?thesis unfolding policies_grow_def by (metis order.trans)
  qed (use assms(4) that in blast)
  moreover have "distinct (map w_id (workspaces d'))" using assms(1,2) by (simp add: members_wf_def policies_grow_def)
  ultimately show ?thesis using assms(3) by (simp add: members_wf_def)
qed

lemma policies_grow_inv:
  assumes "ws_inv d" "policies_grow d d'" "memberships d' = memberships d"
  shows "ws_next d d'"
proof (rule ws_invI [OF assms(1,2)])
  show "members_wf d'" using assms policies_grow_wf [of d d'] by (auto simp: ws_inv_def members_wf_def)
  show "has_owner d' w" if "has_owner d w" for w using has_owner_mono [OF that] assms(2,3) by (simp add: policies_grow_def)
qed

lemma update_settings_grow:
  assumes "update_settings scope (new\<lparr>st_PolicyVersion := w_policy_version cur + 1\<rparr>) d = Some d'"
    and "fetch (\<lambda>w. w_id w = scope) (workspaces d) = Some cur" "distinct (map w_id (workspaces d))"
    and "workspaces d2 = workspaces d'" "users d2 = users d'"
  shows "policies_grow d d2"
proof -
  let ?f = "\<lambda>w. w\<lparr>w_name := st_Name new, w_policy_version := w_policy_version cur + 1, w_queue_limit := st_QueueLimit new,
    w_audit_retention_days := st_AuditRetentionDays new\<rparr>"
  have d': "d' = d\<lparr>workspaces := upd (\<lambda>w. w_id w = scope) ?f (workspaces d)\<rparr>"
    using assms(1) by (auto simp: update_settings_def split: if_splits)
  have "\<exists>w' \<in> set (workspaces d'). w_id w' = w_id w \<and> w_policy_version w \<le> w_policy_version w'" if w: "w \<in> set (workspaces d)" for w
  proof (cases "w_id w = scope")
    case True
    then have "fetch (\<lambda>w. w_id w = scope) (workspaces d) = Some w"
      using assms(3) w by (intro fetch_unique [where k = w_id]) auto
    with assms(2) have "w_policy_version w = w_policy_version cur" by simp
    then show ?thesis unfolding d' using in_updI [OF w, of "\<lambda>w. w_id w = scope" ?f] True by (intro rev_bexI) auto
  next
    case False
    then show ?thesis unfolding d' using in_upd_other [OF w, of "\<lambda>w. w_id w = scope" ?f] by (intro rev_bexI) auto
  qed
  moreover have "map w_id (workspaces d') = map w_id (workspaces d)" unfolding d' by (simp add: map_upd_key)
  moreover have "users_grow d d2" using assms(5) by (simp add: d' users_grow_def enabled_user_def)
  ultimately show ?thesis using assms(4) by (simp add: policies_grow_def)
qed

lemma update_settings_members: "update_settings scope new d = Some d' \<Longrightarrow> memberships d' = memberships d"
  by (auto simp: update_settings_def split: if_splits)

lemma settings_effect:
  "vc (settings_tx clk aid actor scope update request) (\<lambda>_ d'. memberships d' = memberships d \<and> (members_wf d \<longrightarrow> policies_grow d d')) d"
  unfolding settings_tx_def Let_def
  by (intro vc_rules) (auto simp: policies_grow_refl members_wf_def settings_of_def dest: update_settings_members intro: update_settings_grow)

lemma invite_effect: "vc (issue_invitation_tx clk aid digest actor scope issuer subject role request now)
    (\<lambda>_ d'. memberships d' = memberships d \<and> policies_grow d d') d"
  unfolding issue_invitation_tx_def by (intro vc_rules) (auto simp: insert_invitation_def policies_grow_refl split: if_splits)

text \<open>A redeemed invitation: spent, and its role given to an account that was not yet a member.\<close>

definition redeemed :: "db \<Rightarrow> string \<Rightarrow> time \<Rightarrow> db \<Rightarrow> bool" where
  "redeemed d digest now d' \<longleftrightarrow> (\<exists>inv user caller. inv \<in> set (invitations d) \<and> i_token_digest inv = digest \<and> now < i_expires_at inv
     \<and> live_member d (i_workspace inv) (i_inviter inv) = Some caller \<and> m_version caller = i_inviter_version inv \<and> CanAssign (m_role caller) (i_role inv)
     \<and> memberships d' = members_after (i_workspace inv) user (i_role inv) 0 (next_policy d (i_workspace inv)) (memberships d)
     \<and> (i_workspace inv, user) \<notin> set (map (\<lambda>r. (m_workspace r, m_user r)) (memberships d)) \<and> known_role (i_role inv)
     \<and> workspaces d' = bumped (i_workspace inv) (workspaces d) \<and> users_grow d d' \<and> enabled_user d' user)
     \<and> invitations d' = del (\<lambda>i. i_token_digest i = digest \<and> i_expires_at i > now) (invitations d)"

lemma redeemedI:
  assumes i: "i \<in> set (invitations d)" "i_token_digest i = digest" "now < i_expires_at i"
    and caller: "live_member d (i_workspace i) (i_inviter i) = Some caller" "m_version caller = i_inviter_version i" "CanAssign (m_role caller) (i_role i)"
    and admit: "admit_user u issuer subject (d\<lparr>invitations := del (\<lambda>j. i_token_digest j = digest \<and> now < i_expires_at j) (invitations d)\<rparr>) = Some d1"
    and user: "identity_of d1 issuer subject = Some user"
    and ins: "insert_member_once \<lparr>m_workspace = i_workspace i, m_user = user, m_role = i_role i, m_version = next_policy d1 (i_workspace i)\<rparr>
       (d1\<lparr>workspaces := bumped (i_workspace i) (workspaces d1)\<rparr>) = Some (Suc 0, d2)"
    and d': "workspaces d' = workspaces d2" "memberships d' = memberships d2" "users d' = users d2" "invitations d' = invitations d2"
  shows "redeemed d digest now d'"
proof -
  from admit_user_grow [OF admit] obtain us where us: "d1 = d\<lparr>invitations := del (\<lambda>j. i_token_digest j = digest \<and> now < i_expires_at j) (invitations d), users := us\<rparr>"
    and grow: "users_grow d d1" by (auto simp: users_grow_def enabled_user_def)
  have ins': "(i_workspace i, user) \<notin> set (map (\<lambda>r. (m_workspace r, m_user r)) (memberships d))" "known_role (i_role i)"
      "workspaces d2 = bumped (i_workspace i) (workspaces d)" "users d2 = users d1" "invitations d2 = del (\<lambda>j. i_token_digest j = digest \<and> now < i_expires_at j) (invitations d)"
      "memberships d2 = members_after (i_workspace i) user (i_role i) 0 (next_policy d (i_workspace i)) (memberships d)"
    using ins by (auto simp: insert_member_once_def insert_member_def members_after_def us next_policy_def split: if_splits)
  have "enabled_user d' = enabled_user d1" using d'(3) ins'(4) by (intro enabled_user_users) simp
  with grow identity_enabled [OF user] have "users_grow d d'" "enabled_user d' user" by (auto simp: users_grow_def)
  with i caller ins' d' show ?thesis
    unfolding redeemed_def by (intro conjI exI [of _ i] exI [of _ user] exI [of _ caller]) simp_all
qed

lemma redeem_effect: "vc (RedeemInvitation clk uid aid digest issuer subject request now) (\<lambda>_. redeemed d digest now) d"
  unfolding RedeemInvitation_def
  by (intro vc_rules) (auto split: if_splits dest!: fetch_Some intro: redeemedI)

lemma redeemed_inv:
  assumes inv: "ws_inv d" and r: "redeemed d digest now d'"
  shows "ws_next d d'"
proof -
  from r obtain i :: invitation_row and user caller where i: "live_member d (i_workspace i) (i_inviter i) = Some caller"
     "memberships d' = members_after (i_workspace i) user (i_role i) 0 (next_policy d (i_workspace i)) (memberships d)"
     "(i_workspace i, user) \<notin> set (map (\<lambda>r. (m_workspace r, m_user r)) (memberships d))" "known_role (i_role i)"
     "workspaces d' = bumped (i_workspace i) (workspaces d)" "users_grow d d'"
    unfolding redeemed_def by blast
  have wf: "members_wf d" using inv by (simp add: ws_inv_def)
  obtain w where w: "w \<in> set (workspaces d)" "w_id w = i_workspace i" "0 \<le> w_policy_version w"
    using wf live_member_Some [OF i(1)] unfolding members_wf_def by fastforce
  show ?thesis
  proof (rule ws_invI [OF inv policies_grow_bumped [OF i(5,6)]])
    show "members_wf d'" using i w members_after_wf [OF wf w(1,2) _ w(3) _ i(2,5)] by (cases "i_role i = []") auto
    show "has_owner d' x" if "has_owner d x" for x
      using has_owner_mono [OF that i(6)] i(2) by (auto simp: members_after_def)
  qed
qed

text \<open>A transfer rewrites the rows of its two members only.\<close>

lemma transferred_inv:
  assumes inv: "ws_inv d" and ne: "actor \<noteq> target" and tr: "transferred d actor scope target actorVersion targetVersion demote d'"
  shows "ws_next d d'"
proof -
  have wf: "members_wf d" using inv by (simp add: ws_inv_def)
  let ?t = "members_after scope target ''owner'' 1 (next_policy d scope) (memberships d)"
  have mem: "memberships d' = (if demote then members_after scope actor ''admin'' 1 (next_policy d scope) ?t else ?t)"
    and ws: "workspaces d' = bumped scope (workspaces d)" and users: "users d' = users d"
    using tr by (auto simp: transferred_def Let_def)
  from tr obtain caller where "live_member d scope actor = Some caller" by (auto simp: transferred_def)
  with wf live_member_Some obtain w where w: "w \<in> set (workspaces d)" "w_id w = scope" "0 \<le> w_policy_version w"
    unfolding members_wf_def by fastforce
  have new: "0 < next_policy d scope" "\<exists>w \<in> set (workspaces d'). w_id w = scope \<and> next_policy d scope \<le> w_policy_version w"
    using next_policy_bumped [OF _ w(1,2)] w(3) wf ws by (fastforce simp: members_wf_def)+
  have grow: "policies_grow d d'" using policies_grow_bumped [OF ws] users by (auto simp: users_grow_def enabled_user_def)
  show ?thesis
  proof (rule ws_invI [OF inv grow])
    show "has_owner d' x" if "has_owner d x" for x by (rule transferred_owner [OF wf that ne tr])
    show "members_wf d'"
    proof (rule policies_grow_wf [OF wf grow])
      have "map member_key (memberships d') = map member_key (memberships d)"
        unfolding mem members_after_def by (auto simp: map_upd_key member_key_def)
      then show "distinct (map member_key (memberships d'))" using wf by (simp add: members_wf_def)
      fix m assume "m \<in> set (memberships d')"
      then have "m \<in> set (memberships d) \<or> m_workspace m = scope \<and> known_role (m_role m) \<and> m_version m = next_policy d scope"
        unfolding mem by (auto dest!: members_after_cases simp: member_key_def split: if_splits)
      with new show "m \<in> set (memberships d) \<or> known_role (m_role m) \<and> 0 < m_version m
          \<and> (\<exists>w \<in> set (workspaces d'). w_id w = m_workspace m \<and> m_version m \<le> w_policy_version w)" by auto
    qed
  qed
qed

lemma SetGrant_cases:
  assumes "SetGrant n clk aid actor scope connection target actions request d = (r, d')"
  shows "d' = d \<and> isl r \<or> grant_refused d scope d' \<and> isl r \<or> grant_changed d actor scope connection target actions d'"
proof (cases "grant_request_ok actions")
  case True
  obtain r1 d1 where run: "run_tx WsErrStore WsErrStore n (set_grant_tx clk aid actor scope connection target actions request) d = (r1, d1)" by fastforce
  have "d1 = d \<and> isl r1 \<or> (\<exists>x. grant_outcome d actor scope connection target actions x d1 \<and> (r1 = Inr x \<or> r1 = Inl WsErrStore))"
    by (rule vc_run_tx [OF run set_grant_effect])
  moreover have "d' = d1 \<and> (r1 = Inr None \<or> isl r)" using assms True run by (auto simp: SetGrant_def split: sum.splits option.splits)
  ultimately show ?thesis by (auto simp: grant_outcome_def split: option.splits)
qed (use assms in \<open>auto simp: SetGrant_def\<close>)

lemma ws_next_refl: "ws_inv d \<Longrightarrow> ws_next d d"
  by (simp add: ws_next_def)

lemma member_step_next: "member_step d d' \<Longrightarrow> ws_inv d \<Longrightarrow> ws_next d d'"
proof (induction rule: member_step.induct)
  case (change n clk aid actor scope target role version request d r d')
  from ChangeMember_cases [OF change(1)] show ?case
  proof (elim disjE)
    assume "(role = '''' \<or> known_role role) \<and> member_change d actor scope target role version d'"
    then have role: "role = '''' \<or> known_role role" and ch: "member_change d actor scope target role version d'" by auto
    have wf: "members_wf d" using change by (simp add: ws_inv_def)
    show ?case
    proof (rule ws_invI [OF change(2)])
      show "members_wf d'" by (rule member_change_wf [OF wf ch role])
      show "has_owner d' w" if "has_owner d w" for w by (rule member_change_owner [OF wf that ch])
      show "policies_grow d d'" using ch
        by (intro policies_grow_bumped) (auto simp: member_change_def users_grow_def enabled_user_def)
    qed
  qed (use change in \<open>simp add: ws_next_def\<close>)
next
  case (transfer n clk aid1 aid2 actor scope target actorVersion targetVersion demote request d r d')
  then show ?case
    by (auto simp: Transfer_def ws_next_refl split: if_splits dest!: vc_run_tx [OF _ transfer_effect] intro: transferred_inv)
next
  case (grant n clk aid actor scope connection target actions request d r d')
  from SetGrant_cases [OF grant(1)] show ?case
  proof (elim disjE)
    assume "grant_refused d scope d' \<and> isl r"
    then show ?case using grant(2) policies_grow_inv policies_grow_refl by (simp add: grant_refused_def)
  next
    assume "grant_changed d actor scope connection target actions d'"
    then have "memberships d' = memberships d" "workspaces d' = bumped scope (workspaces d)" "users d' = users d" by (simp_all add: grant_changed_def)
    then show ?case using grant(2) policies_grow_inv policies_grow_bumped by (simp add: users_grow_def enabled_user_def)
  qed (use grant in \<open>simp add: ws_next_def\<close>)
next
  case (create n clk wid event user name request d r d')
  then show ?case
    by (auto simp: Create_def ws_next_refl split: if_splits option.splits dest!: vc_run_tx [OF _ create_effect] intro: founded_inv)
next
  case (bootstrap n locked clk user workspace event configuredIssuer issuer subject name d r d')
  then show ?case
    by (auto simp: Bootstrap_def ws_next_refl split: if_splits option.splits dest!: vc_run_tx [OF _ bootstrap_effect] intro: founded_inv)
next
  case (invite K n clk aid raw actor scope issuer subject role request now d r d')
  then show ?case
    by (auto simp: IssueInvitation_def ws_next_refl Let_def split: if_splits option.splits prod.splits sum.splits
        dest!: vc_run_tx [OF _ invite_effect] intro: policies_grow_inv)
next
  case (redeem eb ec n clk uid aid digest issuer subject request now d r d')
  then show ?case by (auto simp: ws_next_refl dest!: vc_run_tx [OF _ redeem_effect] intro: redeemed_inv)
next
  case (settings n clk aid actor scope update request d r d')
  then have "members_wf d" by (simp add: ws_inv_def)
  with settings show ?case
    by (auto simp: WorkspaceSettings_def ws_next_refl dest!: vc_run_tx_if [OF _ settings_effect] intro: policies_grow_inv)
qed

interpretation members: machine member_step ws_inv
  by unfold_locales (auto dest: member_step_next simp: ws_next_def)

section \<open>The workspace list\<close>

definition listed :: "db \<times> uuid \<Rightarrow> uuid option \<Rightarrow> workspace_view list" where
  "listed s c = List_rows (fst s) (snd s) (case c of None \<Rightarrow> uuid_Nil | Some k \<Rightarrow> k)"

lemma List_rows_ids:
  assumes "distinct (map w_id ws)"
  shows "map w_id (concat (map (\<lambda>m. filter (\<lambda>w. w_id w = m_workspace m \<and> Q w) ws) ms))
    = map m_workspace (filter (\<lambda>m. \<exists>w \<in> set ws. w_id w = m_workspace m \<and> Q w) ms)"
proof (induction ms)
  case (Cons m ms)
  show ?case
  proof (cases "\<exists>w \<in> set ws. w_id w = m_workspace m \<and> Q w")
    case True
    then obtain w where w: "w \<in> set ws" "w_id w = m_workspace m" "Q w" by blast
    then have "filter (\<lambda>w. w_id w = m_workspace m \<and> Q w) ws = [w]" using assms by (intro filter_unique [where k = w_id]) auto
    with Cons w show ?thesis by auto
  next
    case False
    then have "filter (\<lambda>w. w_id w = m_workspace m \<and> Q w) ws = []" by (auto simp: filter_empty_conv)
    with Cons False show ?thesis by simp
  qed
qed simp

definition list_source :: "db \<Rightarrow> uuid \<Rightarrow> workspace_view list" where
  "list_source d user = concat (map (\<lambda>m. map (\<lambda>w. \<lparr>wv_ID = w_id w, wv_Name = w_name w, wv_Role = m_role m\<rparr>)
     (filter (\<lambda>w. w_id w = m_workspace m \<and> w_closed_at w = None) (workspaces d))) (filter (\<lambda>m. m_user m = user) (memberships d)))"

lemma List_rows_source: "List_rows d user c = sort_key wv_ID (filter (\<lambda>v. wv_ID v > c) (list_source d user))"
proof -
  have inner: "map (\<lambda>w. \<lparr>wv_ID = w_id w, wv_Name = w_name w, wv_Role = r\<rparr>) (filter (\<lambda>w. w_id w = x \<and> w_closed_at w = None \<and> c < w_id w) ws)
     = filter (\<lambda>v. c < wv_ID v) (map (\<lambda>w. \<lparr>wv_ID = w_id w, wv_Name = w_name w, wv_Role = r\<rparr>) (filter (\<lambda>w. w_id w = x \<and> w_closed_at w = None) ws))" for ws r x
    by (induction ws) auto
  show ?thesis
    unfolding List_rows_def list_source_def comprehension_map comprehension_filter filter_concat map_map comp_def inner ..
qed

lemma list_source_distinct:
  assumes "members_wf d"
  shows "distinct (map wv_ID (list_source d user))"
proof -
  have ids: "map wv_ID (list_source d user)
    = map w_id (concat (map (\<lambda>m. filter (\<lambda>w. w_id w = m_workspace m \<and> w_closed_at w = None) (workspaces d)) (filter (\<lambda>m. m_user m = user) (memberships d))))"
    by (simp add: list_source_def map_concat comp_def)
  have "inj_on m_workspace {m \<in> set (memberships d). m_user m = user}"
    using assms by (auto simp: members_wf_def member_key_def distinct_map inj_on_def)
  moreover have "distinct (memberships d)" using assms by (simp add: members_wf_def distinct_map)
  ultimately have "distinct (map m_workspace (filter P (filter (\<lambda>m. m_user m = user) (memberships d))))" for P
    by (auto simp: distinct_map inj_on_def)
  then show ?thesis unfolding ids using assms by (subst List_rows_ids) (auto simp: members_wf_def)
qed

interpretation workspaces: keyset "\<lambda>s. members_wf (fst s)" listed wv_ID "(<)"
proof
  fix s :: "db \<times> uuid" and c r assume ok: "members_wf (fst s)"
  have d: "distinct (map wv_ID (filter P (list_source (fst s) (snd s))))" for P
    using list_source_distinct [OF ok, of "snd s"] by (simp add: distinct_map_filter)
  then show "sorted_wrt (\<lambda>a b. wv_ID a < wv_ID b) (listed s c)"
    unfolding listed_def List_rows_source by (rule sort_key_strict)
  assume "r \<in> set (listed s c)"
  then have lt: "(case c of None \<Rightarrow> uuid_Nil | Some k \<Rightarrow> k) < wv_ID r" by (auto simp: listed_def List_rows_source)
  then have "filter (\<lambda>v. wv_ID r < wv_ID v) (list_source (fst s) (snd s))
     = filter (\<lambda>v. (case c of None \<Rightarrow> uuid_Nil | Some k \<Rightarrow> k) < wv_ID v \<and> wv_ID r < wv_ID v) (list_source (fst s) (snd s))"
    by (intro filter_cong) auto
  then show "listed s (Some (wv_ID r)) = filter (\<lambda>x. wv_ID r < wv_ID x) (listed s c)"
    by (simp add: listed_def List_rows_source filter_sort)
qed simp

section \<open>Properties\<close>

text \<open>
  C28: No sequence of membership changes, transfers, grants, workspace creations, bootstraps, invitations, redemptions and
  settings updates, on any network, leaves a workspace without an enabled owner; the membership table stays well formed
  and no workspace disappears.
\<close>

theorem workspace_keeps_an_owner:
  assumes "ws_inv d" "member_step\<^sup>*\<^sup>* d d'" "w \<in> set (workspaces d)"
  shows "has_owner d' (w_id w) \<and> members_wf d' \<and> (\<exists>w' \<in> set (workspaces d'). w_id w' = w_id w)"
proof -
  have inv: "ws_inv d'" using members.reachable [OF assms(2,1)] .
  have "w_id ` set (workspaces d) \<subseteq> w_id ` set (workspaces d')"
  proof (rule members.reachable_rel [OF assms(2,1), where R = "\<lambda>s s'. w_id ` set (workspaces s) \<subseteq> w_id ` set (workspaces s')"])
    show "w_id ` set (workspaces s) \<subseteq> w_id ` set (workspaces s')" if "ws_inv s" "member_step s s'" for s s'
      using member_step_next [OF that(2,1)] by (simp add: ws_next_def)
  qed blast+
  then obtain w' where "w' \<in> set (workspaces d')" "w_id w' = w_id w" using assms(3) by (auto simp: image_subset_iff image_iff)
  with inv show ?thesis unfolding ws_inv_def by metis
qed

text \<open>A workspace with its owner and an account that is not yet a member.\<close>

definition example_team :: db where
  "example_team = empty_db\<lparr>users := [\<lparr>u_id = v7 4, u_issuer = ''iss'', u_subject = ''ann'', u_display_name = ''Ann'', u_disabled_at = None\<rparr>,
       \<lparr>u_id = v7 8, u_issuer = ''iss'', u_subject = ''bob'', u_display_name = ''Bob'', u_disabled_at = None\<rparr>],
     workspaces := [new_workspace (v7 1) ''team''],
     memberships := [\<lparr>m_workspace = v7 1, m_user = v7 4, m_role = ''owner'', m_version = 1\<rparr>],
     invitations := [\<lparr>i_token_digest = replicate 32 CHR ''t'', i_workspace = v7 1, i_inviter = v7 4, i_inviter_version = 1,
       i_issuer = ''iss'', i_subject = ''bob'', i_role = ''operator'', i_expires_at = hour\<rparr>]\<rparr>"

definition example_redeem :: "(err + unit) \<times> db" where
  "example_redeem = run_tx WsErrStore WsErrStore good_net (RedeemInvitation minute (Some (v7 9)) (Some (v7 90)) (replicate 32 CHR ''t'') ''iss'' ''bob'' ''req'' minute) example_team"

lemma ws_inv_team: "ws_inv example_team"
  by code_simp

lemma example_redeem_result: "fst example_redeem = Inr () \<and> length (memberships (snd example_redeem)) = 2"
  by code_simp

theorem workspace_keeps_an_owner_witness:
  "has_owner (snd example_redeem) (v7 1) \<and> members_wf (snd example_redeem)"
proof -
  have "member_step example_team (snd example_redeem)"
    by (rule member_step.redeem [where r = "fst example_redeem"]) (simp add: example_redeem_def)
  then have st: "member_step\<^sup>*\<^sup>* example_team (snd example_redeem)" by simp
  have w: "new_workspace (v7 1) ''team'' \<in> set (workspaces example_team)" by (simp add: example_team_def)
  from workspace_keeps_an_owner [OF ws_inv_team st w] show ?thesis by simp
qed

text \<open>
  An invitation is used at most once. After a redemption that committed, whether or not its answer arrived, every later
  attempt with the same token fails and changes nothing, until a new invitation is issued.
\<close>

theorem invitation_is_single_use:
  assumes "run_tx eb ec n (RedeemInvitation clk uid aid digest issuer subject request now) d = (r, d')" "d' \<noteq> d" "now \<le> now'"
  shows "\<exists>e. run_tx eb ec n' (RedeemInvitation clk' uid' aid' digest issuer' subject' request' now') d' = (Inl e, d')"
proof -
  from vc_run_tx [OF assms(1) redeem_effect] assms(2) have "redeemed d digest now d'" by auto
  then have "invitations d' = del (\<lambda>i. i_token_digest i = digest \<and> i_expires_at i > now) (invitations d)" by (simp add: redeemed_def)
  then have gone: "i_token_digest i = digest \<longrightarrow> i_expires_at i \<le> now'" if "i \<in> set (invitations d')" for i
    using that assms(3) by (auto simp: del_def)
  obtain r' d'' where run: "run_tx eb ec n' (RedeemInvitation clk' uid' aid' digest issuer' subject' request' now') d' = (r', d'')" by fastforce
  from vc_run_tx [OF run redeem_effect] have "d'' = d' \<and> isl r' \<or> redeemed d' digest now' d''" by auto
  moreover have "\<not> redeemed d' digest now' d''" using gone by (fastforce simp: redeemed_def)
  ultimately show ?thesis using run by (cases r') auto
qed

theorem invitation_is_single_use_witness:
  "\<exists>e. run_tx WsErrStore WsErrStore good_net (RedeemInvitation minute (Some (v7 19)) (Some (v7 91)) (replicate 32 CHR ''t'') ''iss'' ''bob'' ''again'' hour)
     (snd example_redeem) = (Inl e, snd example_redeem)"
proof -
  have "snd example_redeem \<noteq> example_team" using example_redeem_result by (auto simp: example_team_def)
  moreover have "minute \<le> hour" by (simp add: time_units)
  ultimately show ?thesis
    by (rule invitation_is_single_use [where r = "fst example_redeem" and d = example_team, rotated]) (simp add: example_redeem_def)
qed


definition example_grant :: "(err + unit) \<times> db" where
  "example_grant = SetGrant good_net minute (Some (v7 92)) (v7 4) (v7 1) (v7 2) (v7 8) [''read'', ''operate''] ''req''
     ((snd example_redeem)\<lparr>connections := [\<lparr>c_id = v7 2, c_workspace = v7 1, c_provider = ''hetzner'', c_api_family = ''hcloud'', c_account_identity = ''acc'', c_region_policy = [],
       c_label = ''l'', c_status = ''active'', c_active_version = Some 1, c_permissions_verified_at = Some 0, c_verified_capabilities = []\<rparr>]\<rparr>)"

lemma example_grant_result: "map g_actions (grants (snd example_grant)) = [[''read'', ''operate'']]"
  by code_simp


definition list_page :: "db \<Rightarrow> uuid \<Rightarrow> int \<Rightarrow> uuid option \<Rightarrow> workspace_view list \<times> uuid option" where
  "list_page d user limit c = (case run_read WsErrStore good_net (List_workspaces user (case c of None \<Rightarrow> uuid_Nil | Some k \<Rightarrow> k) limit) d of
     Inr page \<Rightarrow> page | Inl _ \<Rightarrow> ([], None))"

lemma list_page_eq: "1 \<le> limit \<Longrightarrow> limit \<le> 100 \<Longrightarrow> list_page d user limit = (\<lambda>c. paginate (nat limit) wv_ID (listed (d, user) c))"
  by (auto simp: list_page_def List_workspaces_def run_read_live query_live listed_def fun_eq_iff)

text \<open>
  The workspace list is complete: a caller who follows the cursors sees every open workspace of theirs exactly once, in
  identifier order and with their role in it, on pages no longer than asked for.
\<close>

theorem workspace_list_is_complete:
  assumes "members_wf d" "1 \<le> limit" "limit \<le> 100" "length (listed (d, user) None) < n"
  shows "let pages = walk n (list_page d user limit) None in
     sorted_wrt (<) (map wv_ID (concat pages)) \<and> (\<forall>p \<in> set pages. length p \<le> nat limit)
     \<and> set (concat pages) = {\<lparr>wv_ID = w_id w, wv_Name = w_name w, wv_Role = m_role m\<rparr> | w m.
         m \<in> set (memberships d) \<and> m_user m = user \<and> w \<in> set (workspaces d) \<and> w_id w = m_workspace m \<and> w_closed_at w = None \<and> w_id w \<noteq> uuid_Nil}"
proof -
  have e: "concat (walk n (list_page d user limit) None) = listed (d, user) None"
    using assms workspaces.walk_enumerates [of "(d, user)" "nat limit" None n] by (simp add: list_page_eq)
  have p: "\<forall>p \<in> set (walk n (list_page d user limit) None). length p \<le> nat limit"
    using workspaces.walk_pages [of n "nat limit" "(d, user)" None] assms by (simp add: list_page_eq)
  have s: "sorted_wrt (<) (map wv_ID (listed (d, user) None))"
    using workspaces.strict [of "(d, user)" None] assms(1) by (simp add: sorted_wrt_map)
  have pos: "uuid_Nil < w \<longleftrightarrow> w \<noteq> uuid_Nil" for w by (simp add: uuid_Nil_def word_neq_0_conv)
  have "v \<in> set (listed (d, user) None) \<longleftrightarrow> (\<exists>m \<in> set (memberships d). \<exists>w \<in> set (workspaces d). m_user m = user \<and> w_id w = m_workspace m
      \<and> w_closed_at w = None \<and> w_id w \<noteq> uuid_Nil \<and> v = \<lparr>wv_ID = w_id w, wv_Name = w_name w, wv_Role = m_role m\<rparr>)" for v
    unfolding listed_def List_rows_source list_source_def by (auto simp: pos intro!: bexI)
  then have "set (listed (d, user) None) = {\<lparr>wv_ID = w_id w, wv_Name = w_name w, wv_Role = m_role m\<rparr> | w m.
         m \<in> set (memberships d) \<and> m_user m = user \<and> w \<in> set (workspaces d) \<and> w_id w = m_workspace m \<and> w_closed_at w = None \<and> w_id w \<noteq> uuid_Nil}"
    by blast
  with e p s show ?thesis by (simp add: Let_def del: set_concat)
qed

theorem workspace_list_is_complete_witness:
  "map wv_Role (concat (walk 2 (list_page example_team (v7 4) 1) None)) = [''owner'']"
proof -
  have "length (listed (example_team, v7 4) None) < 2" by code_simp
  from workspace_list_is_complete [OF _ _ _ this, of 1] ws_inv_team
  have s: "set (concat (walk 2 (list_page example_team (v7 4) 1) None)) = {\<lparr>wv_ID = v7 1, wv_Name = ''team'', wv_Role = ''owner''\<rparr>}"
    and d: "sorted_wrt (<) (map wv_ID (concat (walk 2 (list_page example_team (v7 4) 1) None)))"
    by (auto simp: ws_inv_def Let_def example_team_def new_workspace_def uuid_Nil_def v7_def)
  then show ?thesis
    by (cases "concat (walk 2 (list_page example_team (v7 4) 1) None)" rule: remdups_adj.cases) auto
qed

end
