(* ===== verification/Sama_Boundary.thy ===== *)
theory Sama_Boundary
  imports Sama_Net Sama_Identity Sama_Membership
begin

text \<open>
  The boundary of package \<^verbatim>\<open>httpapi\<close>: the client address behind proxies and the request bounds
  (\<^verbatim>\<open>request_limits.go\<close>), request identifiers and the routing (\<^verbatim>\<open>router.go\<close>), the mutation guard (\<^verbatim>\<open>csrf.go\<close>), the session and
  membership guard (\<^verbatim>\<open>principal.go\<close>), sign-in, callback, reauthentication and sign-out (\<^verbatim>\<open>auth.go\<close>, \<^verbatim>\<open>callback.go\<close>,
  \<^verbatim>\<open>reauthenticate.go\<close>, \<^verbatim>\<open>logout.go\<close>), with the token exchange of \<^verbatim>\<open>identity/oidc.go\<close>.

  A handler is a function of the request and the database that gives an answer and the database it leaves. Of a response
  the model keeps the problem (status and code) or the value, not the headers.
\<close>

section \<open>Requests and answers\<close>

text \<open>
  \<^verbatim>\<open>http.Request\<close> as the server delivers it, header keys in canonical spelling, with the values the
  middleware puts in its context. \<open>rq_RemoteHost\<close> is the host part of \<^verbatim>\<open>RemoteAddr\<close>. A body is what reading it delivers and whether it
  ends regularly.
\<close>

record body =
  bd_bytes :: string
  bd_eof :: bool

record request =
  rq_Method :: string
  rq_Path :: string
  rq_RawQuery :: string
  rq_Query :: "(string \<times> string list) list"
  rq_Host :: string
  rq_Header :: "(string \<times> string list) list"
  rq_Cookies :: "(string \<times> string) list"
  rq_RemoteHost :: string
  rq_ContentLength :: int
  rq_Body :: "body option"
  rq_cancelled :: bool
  rq_headerSize :: "nat option"
  rq_clientIP :: addr
  rq_RequestID :: string
  rq_principal :: "principal option"
  rq_membership :: "membership_row option"

datatype 'a answer = Problem nat string | Answer 'a

type_synonym ('s, 'a) handler = "request \<Rightarrow> 's \<Rightarrow> 'a answer \<times> 's"

definition header_Values :: "request \<Rightarrow> string \<Rightarrow> string list" where
  "header_Values r k = (case map_of (rq_Header r) k of None \<Rightarrow> [] | Some vs \<Rightarrow> vs)"

definition header_Get :: "request \<Rightarrow> string \<Rightarrow> string" where
  "header_Get r k = (case header_Values r k of [] \<Rightarrow> [] | v # _ \<Rightarrow> v)"

definition header_Del :: "string list \<Rightarrow> request \<Rightarrow> request" where
  "header_Del ks r = r\<lparr>rq_Header := filter (\<lambda>(k, _). k \<notin> set ks) (rq_Header r)\<rparr>"

definition query_Values :: "request \<Rightarrow> string \<Rightarrow> string list" where
  "query_Values r k = (case map_of (rq_Query r) k of None \<Rightarrow> [] | Some vs \<Rightarrow> vs)"

definition query_Get :: "request \<Rightarrow> string \<Rightarrow> string" where
  "query_Get r k = (case query_Values r k of [] \<Rightarrow> [] | v # _ \<Rightarrow> v)"

section \<open>Bounds\<close>

definition MaxJSONBody :: nat where
  "MaxJSONBody = 1048576"

definition MaxHeaderBytes :: nat where
  "MaxHeaderBytes = 32768"

definition headerSize :: "request \<Rightarrow> nat" where
  "headerSize r = length (rq_Host r) + length ''Host: '' + 2 +
     sum_list (concat (map (\<lambda>(key, values). map (\<lambda>value. length key + length value + 4) values) (rq_Header r)))"

text \<open>
  \<^verbatim>\<open>io.ReadAll\<close> over \<^verbatim>\<open>http.MaxBytesReader\<close>: a body longer than the limit is a \<^verbatim>\<open>MaxBytesError\<close>, one that breaks off before is the
  reader's own error.
\<close>

datatype read_result = ReadOK string | TooLarge | ReadFailed

definition read_limited :: "nat \<Rightarrow> body \<Rightarrow> read_result" where
  "read_limited limit b = (if length (bd_bytes b) > limit then TooLarge else if \<not> bd_eof b then ReadFailed else ReadOK (bd_bytes b))"

definition BoundRequests :: "('s, 'a) handler \<Rightarrow> ('s, 'a) handler" where
  "BoundRequests next r d =
     (let size = (case rq_headerSize r of Some original \<Rightarrow> if original > headerSize r then original else headerSize r | None \<Rightarrow> headerSize r) in
      if size > MaxHeaderBytes then (Problem 431 ''headers_too_large'', d)
      else (case rq_Body r of
          Some b \<Rightarrow>
            if rq_Method r \<noteq> ''GET'' \<and> rq_Method r \<noteq> ''HEAD'' then
              (if rq_ContentLength r > int MaxJSONBody then (Problem 413 ''body_too_large'', d)
               else (case read_limited MaxJSONBody b of
                   ReadOK bytes \<Rightarrow> next (r\<lparr>rq_Body := Some \<lparr>bd_bytes = bytes, bd_eof = True\<rparr>\<rparr>) d
                 | TooLarge \<Rightarrow> (if rq_cancelled r then Problem 408 ''request_cancelled'' else Problem 413 ''body_too_large'', d)
                 | ReadFailed \<Rightarrow> (if rq_cancelled r then Problem 408 ''request_cancelled'' else Problem 400 ''invalid_request'', d)))
            else next r d
        | None \<Rightarrow> next r d))"

section \<open>The client behind trusted proxies\<close>

definition isTrusted :: "ip_prefix list \<Rightarrow> addr \<Rightarrow> bool" where
  "isTrusted trusted ip \<longleftrightarrow> list_ex (\<lambda>p. prefix_Contains p (Unmap ip)) trusted"

text \<open>The loop over the entries of the header from the right: \<open>rest\<close> are those not yet looked at, nearest first.\<close>

fun forwarded :: "ip_prefix list \<Rightarrow> addr \<Rightarrow> addr \<Rightarrow> string list \<Rightarrow> addr" where
  "forwarded trusted ip candidate [] = candidate"
| "forwarded trusted ip candidate (entry # rest) =
     (if \<not> isTrusted trusted candidate then candidate
      else (case ParseAddr (TrimSpace entry) of None \<Rightarrow> ip | Some parsed \<Rightarrow> forwarded trusted ip parsed rest))"

definition peer :: "request \<Rightarrow> addr" where
  "peer r = (case ParseAddr (rq_RemoteHost r) of None \<Rightarrow> NoAddr | Some a \<Rightarrow> a)"

definition client_ip :: "ip_prefix list \<Rightarrow> request \<Rightarrow> addr" where
  "client_ip trusted r = (let ip = peer r; chain = Split CHR '','' (header_Get r ''X-Forwarded-For'') in
     if isTrusted trusted ip \<and> length (header_Values r ''X-Forwarded-For'') = 1 \<and> length chain \<le> 32
     then forwarded trusted ip ip (rev chain) else ip)"

definition forwarding_headers :: "string list" where
  "forwarding_headers = [''Forwarded'', ''X-Forwarded-For'', ''X-Forwarded-Host'', ''X-Forwarded-Proto'', ''X-Real-Ip'']"

definition WithClientIP :: "ip_prefix list \<Rightarrow> ('s, 'a) handler \<Rightarrow> ('s, 'a) handler" where
  "WithClientIP trusted next r =
     next ((header_Del forwarding_headers r)\<lparr>rq_headerSize := Some (headerSize r), rq_clientIP := client_ip trusted r\<rparr>)"

section \<open>Request identifiers\<close>

definition validRequestID :: "string \<Rightarrow> bool" where
  "validRequestID v \<longleftrightarrow> v \<noteq> [] \<and> length v \<le> 64 \<and> list_all (\<lambda>c. alnum c \<or> c \<in> set ''-._'') v"

text \<open>\<open>fresh\<close>: the text of a new random UUID, \<open>None\<close> where the generator failed.\<close>

definition newRequestID :: "string option \<Rightarrow> string" where
  "newRequestID fresh = (case fresh of None \<Rightarrow> ''request-id-unavailable'' | Some s \<Rightarrow> s)"

definition withRequestID :: "string option \<Rightarrow> ('s, 'a) handler \<Rightarrow> ('s, 'a) handler" where
  "withRequestID fresh next r = (let given = header_Get r ''X-Request-Id'' in
     next (r\<lparr>rq_RequestID := if validRequestID given then given else newRequestID fresh\<rparr>))"

section \<open>The mutation guard\<close>

text \<open>
  What a request's handlers are given: the installation's settings, \<^verbatim>\<open>mime.ParseMediaType\<close> (\<open>None\<close> on an error), and, numbered in the
  order of the request's own database calls, the network, the clock and what other transactions commit before the call.
\<close>

record env =
  en_crypto :: crypto
  en_policy :: session_policy
  en_origin :: string
  en_development :: bool
  en_media :: "string \<Rightarrow> string option"
  en_net :: "nat \<Rightarrow> net"
  en_clock :: "nat \<Rightarrow> time"
  en_between :: "nat \<Rightarrow> db \<Rightarrow> db"

definition singleHeader :: "request \<Rightarrow> string \<Rightarrow> string" where
  "singleHeader r name = (let values = header_Values r name in if length values \<noteq> 1 then [] else values ! 0)"

definition validOriginJSON :: "env \<Rightarrow> request \<Rightarrow> bool" where
  "validOriginJSON e r \<longleftrightarrow> (let origin = singleHeader r ''Origin'' in
     origin \<noteq> [] \<and> origin = TrimSuffix (en_origin e) ''/'' \<and> en_media e (singleHeader r ''Content-Type'') = Some ''application/json'')"

definition validMutation :: "env \<Rightarrow> request \<Rightarrow> principal \<Rightarrow> bool" where
  "validMutation e r p \<longleftrightarrow> validOriginJSON e r \<and> ValidCSRF (en_crypto e) p (singleHeader r ''X-Csrf-Token'')"

definition safe_method :: "string \<Rightarrow> bool" where
  "safe_method m \<longleftrightarrow> m \<in> {''GET'', ''HEAD'', ''OPTIONS''}"

definition requireMutation :: "env \<Rightarrow> (db, 'a) handler \<Rightarrow> (db, 'a) handler" where
  "requireMutation e next r d =
     (if \<not> safe_method (rq_Method r) \<and> (case rq_principal r of None \<Rightarrow> True | Some p \<Rightarrow> \<not> validMutation e r p)
      then (Problem 403 ''permission_denied'', d) else next r d)"

section \<open>The session and membership guard\<close>

definition login_problem :: "err \<Rightarrow> 'a answer" where
  "login_problem err = (if err = IdErrReauthUnsupported then Problem 403 ''reauthentication_unsupported''
     else if err = IdErrRecentRequired then Problem 403 ''recent_authentication_required''
     else if err = IdErrStore then Problem 503 ''identity_unavailable'' else Problem 401 ''unauthenticated'')"

definition scope_problem :: "err \<Rightarrow> 'a answer" where
  "scope_problem err = (if err = WsErrDenied then Problem 403 ''permission_denied''
     else if err = WsErrNotFound then Problem 404 ''not_found'' else Problem 503 ''identity_unavailable'')"

definition cookie_name :: "env \<Rightarrow> string \<Rightarrow> string" where
  "cookie_name e kind = (if en_development e then ''sama_'' else ''__Host-sama_'') @ kind"

definition request_cookie :: "request \<Rightarrow> string \<Rightarrow> string option" where
  "request_cookie r name = map_of (rq_Cookies r) name"

definition Protect :: "env \<Rightarrow> string \<Rightarrow> (db, 'a) handler \<Rightarrow> (db, 'a) handler" where
  "Protect e minimumRole next r d = (case request_cookie r (cookie_name e ''session'') of
       None \<Rightarrow> (login_problem IdErrUnauthenticated, d)
     | Some token \<Rightarrow> (case Sessions_Resolve (en_crypto e) (en_policy e) (en_net e 0) (en_clock e 0) token d of
         (Inl err, d1) \<Rightarrow> (login_problem err, d1)
       | (Inr p, d1) \<Rightarrow> (let r1 = r\<lparr>rq_principal := Some p\<rparr> in
           case CutPrefix (rq_Path r) ''/api/v1/workspaces/'' of
             None \<Rightarrow> requireMutation e next r1 d1
           | Some path \<Rightarrow>
               if path = [] then requireMutation e next r1 d1
               else (case Parse (before CHR ''/'' path) of
                   Inl _ \<Rightarrow> (Problem 400 ''invalid_request'', d1)
                 | Inr i \<Rightarrow> (let d2 = en_between e 1 d1 in
                     case run_read WsErrStore (en_net e 1) (ResolveMembership (pr_UserID p) i minimumRole) d2 of
                       Inl err \<Rightarrow> (scope_problem err, d2)
                     | Inr m \<Rightarrow> requireMutation e next (r1\<lparr>rq_membership := Some m\<rparr>) d2)))))"

section \<open>Sign-in\<close>

datatype sign_in = Authorize challenge bool | Reauthorize challenge | SignedIn session_credential | SignedOut

text \<open>
  A strict JSON body of at most \<open>limit\<close> bytes: \<open>json\<close> decodes a whole text into the fields a handler expects and is \<open>None\<close> on a
  syntax error, an unknown field or a second value. A server request always has a body, empty where none was sent.
\<close>

definition body_bytes :: "request \<Rightarrow> body" where
  "body_bytes r = (case rq_Body r of None \<Rightarrow> \<lparr>bd_bytes = [], bd_eof = True\<rparr> | Some b \<Rightarrow> b)"

definition strict_json :: "nat \<Rightarrow> (string \<Rightarrow> 'j option) \<Rightarrow> request \<Rightarrow> 'j option" where
  "strict_json limit json r = (case read_limited limit (body_bytes r) of ReadOK bytes \<Rightarrow> json bytes | _ \<Rightarrow> None)"

definition start_problem :: "err \<Rightarrow> 'a answer" where
  "start_problem err = (if err = IdErrRateLimited then Problem 429 ''rate_limited''
     else if err = IdErrUnauthenticated then Problem 400 ''invalid_request'' else Problem 503 ''identity_unavailable'')"

text \<open>\<open>locked\<close> and \<open>raws\<close>: whether the challenge lock was granted, and the randomness of the four tokens.\<close>

definition login :: "env \<Rightarrow> (string \<Rightarrow> string option) \<Rightarrow> bool \<Rightarrow> string option list \<Rightarrow> (db, sign_in) handler" where
  "login e json locked raws r d =
     (if rq_Method r \<noteq> ''GET'' \<and> rq_Method r \<noteq> ''POST'' then (Problem 405 ''method_not_allowed'', d)
      else if rq_RawQuery r \<noteq> [] then (Problem 400 ''invalid_request'', d)
      else if rq_Method r = ''POST'' \<and> \<not> validOriginJSON e r then (Problem 403 ''permission_denied'', d)
      else (case (if rq_Method r = ''POST'' then map_option Some (strict_json 1024 json r) else Some None) of
          None \<Rightarrow> (Problem 400 ''invalid_request'', d)
        | Some input \<Rightarrow>
            (case (case input of
                Some invitation \<Rightarrow> StartInvitation (en_crypto e) (en_net e 0) locked (en_clock e 0) raws invitation d
              | None \<Rightarrow> Start (en_crypto e) (en_net e 0) locked (en_clock e 0) raws d) of
              (Inl err, d1) \<Rightarrow> (start_problem err, d1)
            | (Inr c, d1) \<Rightarrow> (Answer (Authorize c (rq_Method r = ''POST'' \<and> header_Get r ''Accept'' = ''application/json'')), d1))))"

definition reauthenticate :: "env \<Rightarrow> (string \<Rightarrow> unit option) \<Rightarrow> bool \<Rightarrow> bool \<Rightarrow> string option list \<Rightarrow> (db, sign_in) handler" where
  "reauthenticate e json supported locked raws r d =
     (if rq_Method r \<noteq> ''POST'' then (Problem 405 ''method_not_allowed'', d)
      else if (case rq_principal r of None \<Rightarrow> True | Some p \<Rightarrow> \<not> validMutation e r p) then (Problem 403 ''permission_denied'', d)
      else if strict_json 4096 json r = None then (Problem 400 ''invalid_request'', d)
      else if \<not> supported then (login_problem IdErrReauthUnsupported, d)
      else (case request_cookie r (cookie_name e ''session'') of
          None \<Rightarrow> (login_problem IdErrUnauthenticated, d)
        | Some token \<Rightarrow> (case StartReauthentication (en_crypto e) (en_net e 2) locked (en_clock e 2) raws token (en_between e 2 d) of
              (Inl err, d1) \<Rightarrow> (login_problem err, d1)
            | (Inr c, d1) \<Rightarrow> (Answer (Reauthorize c), d1))))"

text \<open>A body without any JSON value is a sign-out too.\<close>

definition no_value :: "read_result \<Rightarrow> bool" where
  "no_value res = (case res of ReadOK bytes \<Rightarrow> list_all (\<lambda>c. c \<in> {CHR 0x20, CHR 0x09, CHR 0x0A, CHR 0x0D}) bytes | _ \<Rightarrow> False)"

definition logout :: "env \<Rightarrow> (string \<Rightarrow> unit option) \<Rightarrow> time \<Rightarrow> uuid option \<Rightarrow> (db, sign_in) handler" where
  "logout e json clk aid r d =
     (if rq_Method r \<noteq> ''POST'' then (Problem 405 ''method_not_allowed'', d)
      else if \<not> validOriginJSON e r then (Problem 403 ''permission_denied'', d)
      else if \<not> no_value (read_limited 4096 (body_bytes r)) \<and> strict_json 4096 json r = None then (Problem 400 ''invalid_request'', d)
      else (case request_cookie r (cookie_name e ''session'') of
          None \<Rightarrow> (Answer SignedOut, d)
        | Some token \<Rightarrow> (case Sessions_Resolve (en_crypto e) (en_policy e) (en_net e 0) (en_clock e 0) token d of
            (Inl err, d1) \<Rightarrow> (if err \<noteq> IdErrUnauthenticated then login_problem err else Answer SignedOut, d1)
          | (Inr p, d1) \<Rightarrow>
              if \<not> validMutation e r p then (Problem 403 ''permission_denied'', d1)
              else (case Logout (en_crypto e) (en_net e 1) clk aid token (rq_RequestID r) (en_between e 1 d1) of
                  (Inl err, d2) \<Rightarrow> (login_problem err, d2)
                | (Inr _, d2) \<Rightarrow> (Answer SignedOut, d2)))))"

section \<open>The callback\<close>

text \<open>
  A verified ID token: \<open>it_AuthTime\<close> is its \<^verbatim>\<open>auth_time\<close> (0 where absent, \<open>None\<close> where the claims do not decode), \<open>it_Claims\<close> the same
  with the \<^verbatim>\<open>acr\<close>. \<open>oauth\<close> exchanges a code under a PKCE verifier for the response's \<^verbatim>\<open>id_token\<close> (\<open>None\<close>: the exchange
  failed, \<open>Some None\<close>: no such field); \<open>verifier\<close> is the OIDC library's check of a raw token.
\<close>

record id_token =
  it_Issuer :: string
  it_Subject :: string
  it_Nonce :: string
  it_IssuedAt :: time
  it_AuthTime :: "int option"
  it_Claims :: "(int \<times> string) option"

definition oidc_Verify :: "(string \<Rightarrow> id_token option) \<Rightarrow> string \<Rightarrow> id_token option" where
  "oidc_Verify verifier raw = (case verifier raw of None \<Rightarrow> None
     | Some t \<Rightarrow> if it_Subject t = [] \<or> length (it_Subject t) > 255 then None else Some t)"

definition Exchange :: "(string \<Rightarrow> string \<Rightarrow> string option option) \<Rightarrow> (string \<Rightarrow> id_token option) \<Rightarrow> string \<Rightarrow> string \<Rightarrow> string \<Rightarrow> err + id_token" where
  "Exchange oauth verifier code pkce nonce = (case oauth code pkce of
       None \<Rightarrow> Inl IdErrUnauthenticated
     | Some None \<Rightarrow> Inl IdErrUnauthenticated
     | Some (Some raw) \<Rightarrow> (case oidc_Verify verifier raw of
         None \<Rightarrow> Inl IdErrUnauthenticated
       | Some t \<Rightarrow> if it_Nonce t \<noteq> nonce then Inl IdErrUnauthenticated else Inr t))"

text \<open>The account of a verified identity, with the first of its open workspaces.\<close>

definition login_account :: "db \<Rightarrow> string \<Rightarrow> string \<Rightarrow> (uuid \<times> uuid) option" where
  "login_account d issuer subject =
     (case sort_key snd [(u_id u, m_workspace m). u \<leftarrow> users d, u_issuer u = issuer \<and> u_subject u = subject \<and> u_disabled_at u = None,
         m \<leftarrow> memberships d, m_user m = u_id u \<and> open_workspace d (m_workspace m) \<noteq> None] of
       [] \<Rightarrow> None | a # _ \<Rightarrow> Some a)"

text \<open>What the transaction of the callback generates: identifiers and the randomness of the two session tokens.\<close>

record callback_ids =
  cb_user :: "uuid option"
  cb_member_event :: "uuid option"
  cb_login_event :: "uuid option"
  cb_raw_token :: "string option"
  cb_raw_csrf :: "string option"

definition redeem_first :: "env \<Rightarrow> time \<Rightarrow> callback_ids \<Rightarrow> challenge \<Rightarrow> id_token \<Rightarrow> string \<Rightarrow> unit dbtx" where
  "redeem_first e clk ids c t request = (case ch_InvitationDigest c of
       None \<Rightarrow> tx_ret ()
     | Some digest \<Rightarrow> if digest = [] then tx_ret ()
         else tx_bind (tx_try (RedeemInvitation clk (cb_user ids) (cb_member_event ids) digest (it_Issuer t) (it_Subject t) request (en_clock e 1)))
           (\<lambda>res. case res of Inl err \<Rightarrow> tx_raise (if err = WsErrStore then IdErrStore else err) | Inr _ \<Rightarrow> tx_ret ()))"

definition open_session :: "env \<Rightarrow> bool \<Rightarrow> string \<Rightarrow> callback_ids \<Rightarrow> challenge \<Rightarrow> id_token \<Rightarrow> uuid \<Rightarrow> time \<Rightarrow> string \<Rightarrow> session_credential dbtx" where
  "open_session e supported acr ids c t user authenticated previous =
     (let create = Sessions_Create (en_crypto e) (en_policy e) (en_clock e 3) (cb_raw_token ids) (cb_raw_csrf ids) user authenticated previous in
      case ch_SessionDigest c of None \<Rightarrow> create
      | Some bound \<Rightarrow> if bound = [] then create
          else (case AuthenticationTime supported acr (it_Claims t) (en_clock e 2) (ch_StartedAt c) of
              Inl err \<Rightarrow> tx_raise err
            | Inr at \<Rightarrow> RotateRecent (en_crypto e) (en_policy e) (en_clock e 3) (cb_raw_token ids) (cb_raw_csrf ids) user at previous bound))"

definition callback_tx :: "env \<Rightarrow> time \<Rightarrow> bool \<Rightarrow> string \<Rightarrow> callback_ids \<Rightarrow> challenge \<Rightarrow> id_token \<Rightarrow> string \<Rightarrow> string \<Rightarrow> session_credential dbtx" where
  "callback_tx e clk supported acr ids c t previous request =
     tx_bind (redeem_first e clk ids c t request) (\<lambda>_.
     tx_bind (query_row IdErrUnauthenticated IdErrStore (\<lambda>d. login_account d (it_Issuer t) (it_Subject t))) (\<lambda>(user, workspace).
     case it_AuthTime t of None \<Rightarrow> tx_raise IdErrUnauthenticated
     | Some authTime \<Rightarrow>
     tx_bind (open_session e supported acr ids c t user
        (if authTime > 0 then Sama_Identity.unix_epoch + authTime * second else it_IssuedAt t) previous) (\<lambda>credential.
     case cb_login_event ids of None \<Rightarrow> tx_raise IdErrStore
     | Some i \<Rightarrow>
     tx_bind (tx_as IdErrStore (Append clk (user_event i workspace user ''auth.login'' request []))) (\<lambda>_. tx_ret credential))))"

definition callback_query_ok :: "request \<Rightarrow> bool" where
  "callback_query_ok r \<longleftrightarrow> length (query_Values r ''state'') = 1 \<and> length (query_Values r ''code'') = 1 \<and> query_Get r ''error'' = []
     \<and> query_Get r ''code'' \<noteq> [] \<and> length (query_Get r ''code'') \<le> 4096"

definition callback :: "env \<Rightarrow> (string \<Rightarrow> string \<Rightarrow> string option option) \<Rightarrow> (string \<Rightarrow> id_token option) \<Rightarrow> time \<Rightarrow> bool \<Rightarrow> string \<Rightarrow> callback_ids \<Rightarrow> (db, sign_in) handler" where
  "callback e oauth verifier clk supported acr ids r d =
     (if rq_Method r \<noteq> ''GET'' then (Problem 405 ''method_not_allowed'', d)
      else (case request_cookie r (cookie_name e ''login'') of
          None \<Rightarrow> (Problem 401 ''unauthenticated'', d)
        | Some browser \<Rightarrow>
            if \<not> callback_query_ok r then (Problem 401 ''unauthenticated'', d)
            else (case Consume (en_crypto e) (en_net e 0) (en_clock e 0) (query_Get r ''state'') browser d of
                (Inl err, d1) \<Rightarrow> (login_problem err, d1)
              | (Inr c, d1) \<Rightarrow>
                  (case Exchange oauth verifier (query_Get r ''code'') (ch_Verifier c) (ch_Nonce c) of
                      Inl err \<Rightarrow> (login_problem err, d1)
                    | Inr t \<Rightarrow>
                        (case run_tx IdErrStore IdErrStore (en_net e 1) (callback_tx e clk supported acr ids c t
                            (case request_cookie r (cookie_name e ''session'') of None \<Rightarrow> [] | Some old \<Rightarrow> old) (rq_RequestID r)) (en_between e 1 d1) of
                            (Inl err, d2) \<Rightarrow> (login_problem err, d2)
                          | (Inr credential, d2) \<Rightarrow> (Answer (SignedIn credential), d2))))))"

section \<open>Routing\<close>

text \<open>
  The handlers behind the routing are its arguments: the sign-in handlers, the API routes, the static assets where there are any. An
  answer of the liveness route is \<open>Health\<close>.
\<close>

datatype 'a reply = Health | Auth sign_in | Api 'a | Asset 'a

fun relabel :: "('a \<Rightarrow> 'b) \<Rightarrow> 'a answer \<times> 's \<Rightarrow> 'b answer \<times> 's" where
  "relabel f (Problem s c, d) = (Problem s c, d)" | "relabel f (Answer a, d) = (Answer (f a), d)"

definition route :: "('s, 'a reply) handler" where
  "route r d = (if rq_Path r = ''/health'' then
       (if rq_Method r \<noteq> ''GET'' \<and> rq_Method r \<noteq> ''HEAD'' then (Problem 405 ''method_not_allowed'', d) else (Answer Health, d))
     else (Problem 404 ''not_found'', d))"

record 'a handlers =
  hd_login :: "(db, sign_in) handler"
  hd_callback :: "(db, sign_in) handler"
  hd_logout :: "(db, sign_in) handler"
  hd_reauthenticate :: "(db, sign_in) handler"
  hd_api :: "(db, 'a) handler"

definition app_route :: "env \<Rightarrow> 'a handlers option \<Rightarrow> (db, 'a) handler option \<Rightarrow> (db, 'a reply) handler" where
  "app_route e auth assets r d =
     (if auth \<noteq> None \<and> rq_Path r = ''/auth/login'' then relabel Auth (hd_login (the auth) r d)
      else if auth \<noteq> None \<and> rq_Path r = ''/auth/callback'' then relabel Auth (hd_callback (the auth) r d)
      else if auth \<noteq> None \<and> rq_Path r = ''/auth/logout'' then relabel Auth (hd_logout (the auth) r d)
      else if auth \<noteq> None \<and> rq_Path r = ''/auth/reauthenticate'' then relabel Auth (Protect e ''viewer'' (hd_reauthenticate (the auth)) r d)
      else if rq_Path r = ''/api'' \<or> has_prefix ''/api/'' (rq_Path r) then
        (case auth of None \<Rightarrow> route r d | Some h \<Rightarrow> relabel Api (Protect e ''viewer'' (hd_api h) r d))
      else if assets \<noteq> None \<and> rq_Path r \<noteq> ''/health'' \<and> rq_Path r \<noteq> ''/readyz'' \<and> rq_Path r \<noteq> ''/auth'' \<and> \<not> has_prefix ''/auth/'' (rq_Path r)
        then relabel Asset (the assets r d)
      else route r d)"

definition NewAppHandler :: "env \<Rightarrow> string option \<Rightarrow> 'a handlers option \<Rightarrow> (db, 'a) handler option \<Rightarrow> (db, 'a reply) handler" where
  "NewAppHandler e fresh auth assets = withRequestID fresh (BoundRequests (app_route e auth assets))"

section \<open>What the guards admit\<close>

text \<open>
  An admitted request: the bearer of the session cookie is the enabled user of a stored session whose two deadlines are in the future; a request
  that may change something comes from the installation's own origin with that session's CSRF token; and a path inside a
  workspace carries the user's membership of it, read from an open workspace.
\<close>

definition from_own_page :: "env \<Rightarrow> request \<Rightarrow> session_row \<Rightarrow> bool" where
  "from_own_page e r s \<longleftrightarrow> singleHeader r ''Origin'' = TrimSuffix (en_origin e) ''/'' \<and> singleHeader r ''Origin'' \<noteq> []
     \<and> token_digest (en_crypto e) (singleHeader r ''X-Csrf-Token'') = Some (s_csrf_digest s)"

definition workspace_of_path :: "request \<Rightarrow> string option" where
  "workspace_of_path r = (case CutPrefix (rq_Path r) ''/api/v1/workspaces/'' of None \<Rightarrow> None
     | Some path \<Rightarrow> if path = [] then None else Some (before CHR ''/'' path))"

definition admitted :: "env \<Rightarrow> string \<Rightarrow> request \<Rightarrow> db \<Rightarrow> request \<Rightarrow> db \<Rightarrow> bool" where
  "admitted e minimum r d r' d1 \<longleftrightarrow>
     (\<exists>token. \<exists>s \<in> set (sessions d). request_cookie r (cookie_name e ''session'') = Some token
        \<and> token_digest (en_crypto e) token = Some (s_token_digest s) \<and> enabled_user d (s_user s)
        \<and> en_clock e 0 < s_idle_expires_at s \<and> en_clock e 0 < s_absolute_expires_at s
        \<and> (\<exists>p. rq_principal r' = Some p \<and> pr_UserID p = s_user s)
        \<and> (safe_method (rq_Method r) \<or> from_own_page e r s)
        \<and> (case workspace_of_path r of None \<Rightarrow> True
           | Some i \<Rightarrow> (\<exists>m. rq_membership r' = Some m \<and> m \<in> set (memberships d1) \<and> m_user m = s_user s \<and> i = uuid_String (m_workspace m)
               \<and> open_workspace d1 (m_workspace m) \<noteq> None \<and> Allows (m_role m) minimum)))"

lemma Sessions_Resolve_Inr:
  assumes "Sessions_Resolve K policy n now token d = (Inr p, d')"
  obtains digest where "token_digest K token = Some digest" "resolved policy now digest d p d'"
  using Sessions_Resolve_committed [OF assms] by auto

lemma resolved_session:
  assumes "resolved policy now digest d p d'"
  obtains s where "s \<in> set (sessions d)" "session_live d digest now s" "pr_UserID p = s_user s" "pr_CSRFHash p = s_csrf_digest s"
  using assms by (auto simp: resolved_def dest: fetch_Some)

lemma ResolveMembership_Inr:
  assumes "run_read WsErrStore n (ResolveMembership user i role) d = Inr m"
  shows "m \<in> set (memberships d) \<and> m_workspace m = i \<and> m_user m = user \<and> open_workspace d i \<noteq> None \<and> Allows (m_role m) role"
  using assms by (auto elim!: run_read_Inr simp: ResolveMembership_def tx_simps split: option.splits if_splits dest: fetch_Some)

text \<open>Headers, method and path of a request do not depend on the context the guards add.\<close>

lemma header_context [simp]:
  "header_Values (r\<lparr>rq_principal := p\<rparr>) k = header_Values r k" "header_Values (r\<lparr>rq_membership := m\<rparr>) k = header_Values r k"
  by (simp_all add: header_Values_def)

lemma valid_context [simp]:
  "validMutation e (r\<lparr>rq_principal := p\<rparr>) q = validMutation e r q" "validMutation e (r\<lparr>rq_membership := m\<rparr>) q = validMutation e r q"
  by (simp_all add: validMutation_def validOriginJSON_def singleHeader_def)

text \<open>
  A guard either answers by itself, whatever handler it guards, or hands the request to the handler.
\<close>

definition guards :: "((db, 'a) handler \<Rightarrow> 'b) \<Rightarrow> ('a answer \<times> db \<Rightarrow> 'b) \<Rightarrow> (request \<Rightarrow> db \<Rightarrow> bool) \<Rightarrow> bool" where
  "guards run f A \<longleftrightarrow> (\<exists>res. \<forall>next. run next = res) \<or> (\<exists>r' d1. (\<forall>next. run next = f (next r' d1)) \<and> A r' d1)"

lemma guards_refuse: "(\<And>next. run next = res) \<Longrightarrow> guards run f A"
  by (auto simp: guards_def)

lemma guards_call: "(\<And>next. run next = f (next r' d1)) \<Longrightarrow> A r' d1 \<Longrightarrow> guards run f A"
  unfolding guards_def by blast

lemma guards_map: "guards run f A \<Longrightarrow> guards (\<lambda>next. g (run next)) (g \<circ> f) A"
  by (fastforce simp: guards_def)

lemma requireMutation_guards:
  assumes "rq_principal r = Some p" "safe_method (rq_Method r) \<or> validMutation e r p \<Longrightarrow> A r d"
  shows "guards (\<lambda>next. requireMutation e next r d) (\<lambda>x. x) A"
proof (cases "safe_method (rq_Method r) \<or> validMutation e r p")
  case True
  then show ?thesis using assms by (intro guards_call) (auto simp: requireMutation_def)
next
  case False
  then show ?thesis using assms by (intro guards_refuse) (auto simp: requireMutation_def)
qed

lemma from_own_pageI: "validMutation e r p \<Longrightarrow> pr_CSRFHash p = s_csrf_digest s \<Longrightarrow> from_own_page e r s"
  by (auto simp: validMutation_def validOriginJSON_def from_own_page_def ValidCSRF_def Let_def split: option.splits)

lemma admittedI:
  assumes "request_cookie r (cookie_name e ''session'') = Some token" "token_digest (en_crypto e) token = Some digest"
    and "resolved (en_policy e) (en_clock e 0) digest d p d0"
    and "rq_principal r' = Some p" "safe_method (rq_Method r) \<or> validMutation e r p"
    and "case workspace_of_path r of None \<Rightarrow> True | Some i \<Rightarrow> (\<exists>m. rq_membership r' = Some m \<and> m \<in> set (memberships d') \<and> m_user m = pr_UserID p
           \<and> i = uuid_String (m_workspace m) \<and> open_workspace d' (m_workspace m) \<noteq> None \<and> Allows (m_role m) minimum)"
  shows "admitted e minimum r d r' d'"
proof -
  from assms(3) obtain s where s: "s \<in> set (sessions d)" "session_live d digest (en_clock e 0) s" "pr_UserID p = s_user s" "pr_CSRFHash p = s_csrf_digest s"
    by (rule resolved_session)
  show ?thesis unfolding admitted_def using assms s(1,2) from_own_pageI [of e r p, OF _ s(4)] unfolding s(3)
    by (intro exI [of _ token] bexI [of _ s]) (auto simp: session_live_def s(3))
qed

text \<open>The handler gets the request as it came, with the context of the guards.\<close>

definition in_context :: "request \<Rightarrow> request \<Rightarrow> bool" where
  "in_context r r' \<longleftrightarrow> (\<exists>p m. r' = r\<lparr>rq_principal := p, rq_membership := m\<rparr>)"

lemma in_context_both: "in_context r (r\<lparr>rq_principal := p, rq_membership := m\<rparr>)"
  unfolding in_context_def by blast

lemma in_context_principal: "in_context r (r\<lparr>rq_principal := p\<rparr>)"
  using in_context_both [where r = r and p = p and m = "rq_membership r"] by simp

lemmas in_contextI = in_context_both in_context_principal

lemma Protect_guards: "guards (\<lambda>next. Protect e minimum next r d) (\<lambda>x. x) (\<lambda>r' d1. admitted e minimum r d r' d1 \<and> in_context r r')"
proof (cases "request_cookie r (cookie_name e ''session'')")
  case None
  then show ?thesis by (intro guards_refuse) (simp add: Protect_def)
next
  case cookie: (Some token)
  obtain res d1 where res: "Sessions_Resolve (en_crypto e) (en_policy e) (en_net e 0) (en_clock e 0) token d = (res, d1)" by fastforce
  show ?thesis
  proof (cases res)
    case (Inl err)
    with cookie res show ?thesis by (intro guards_refuse) (simp add: Protect_def)
  next
    case (Inr p)
    then obtain digest where digest: "token_digest (en_crypto e) token = Some digest" "resolved (en_policy e) (en_clock e 0) digest d p d1"
      using res by (auto elim: Sessions_Resolve_Inr)
    note ok = admittedI [OF cookie digest, where minimum = minimum]
    show ?thesis
    proof (cases "workspace_of_path r")
      case None
      then have "Protect e minimum h r d = requireMutation e h (r\<lparr>rq_principal := Some p\<rparr>) d1" for h :: "(db, 'a) handler"
        using cookie res Inr by (auto simp: Protect_def workspace_of_path_def Let_def split: option.splits if_splits)
      with None show ?thesis by (auto intro!: requireMutation_guards ok in_contextI)
    next
      case (Some i)
      then obtain path where path: "CutPrefix (rq_Path r) ''/api/v1/workspaces/'' = Some path" "path \<noteq> []" "i = before CHR ''/'' path"
        by (auto simp: workspace_of_path_def split: option.splits if_splits)
      let ?read = "\<lambda>w. run_read WsErrStore (en_net e 1) (ResolveMembership (pr_UserID p) w minimum) (en_between e 1 d1)"
      consider (bad) err where "Parse i = Inl err" | (none) w err where "Parse i = Inr w" "?read w = Inl err"
        | (member) w m where "Parse i = Inr w" "?read w = Inr m"
        by (metis sum.exhaust)
      then show ?thesis
      proof cases
        case member
        then have "Protect e minimum h r d = requireMutation e h (r\<lparr>rq_principal := Some p, rq_membership := Some m\<rparr>) (en_between e 1 d1)"
          for h :: "(db, 'a) handler" using cookie res Inr path by (simp add: Protect_def Let_def)
        with Some ResolveMembership_Inr [OF member(2)] member(1) show ?thesis
          by (auto simp: Parse_Inr_iff intro!: requireMutation_guards ok in_contextI)
      qed (use cookie res Inr path in \<open>simp_all add: guards_refuse Protect_def Let_def\<close>)
    qed
  qed
qed

text \<open>A request passes the bounds with its headers as they were and a body that has been read within the limit.\<close>

definition same_request :: "request \<Rightarrow> request \<Rightarrow> bool" where
  "same_request r r' \<longleftrightarrow> rq_Header r' = rq_Header r \<and> rq_Cookies r' = rq_Cookies r \<and> rq_Path r' = rq_Path r \<and> rq_Method r' = rq_Method r"

definition within_bounds :: "request \<Rightarrow> bool" where
  "within_bounds r \<longleftrightarrow> headerSize r \<le> MaxHeaderBytes \<and> (rq_Method r \<in> {''GET'', ''HEAD''} \<or> length (bd_bytes (body_bytes r)) \<le> MaxJSONBody \<and> bd_eof (body_bytes r))"

lemma BoundRequests_cases:
  fixes d :: 's
  shows "(\<exists>st code. \<forall>run :: ('s, 'a) handler. BoundRequests run r d = (Problem st code, d))
    \<or> (\<exists>r'. (\<forall>run :: ('s, 'a) handler. BoundRequests run r d = run r' d) \<and> same_request r r' \<and> within_bounds r')" (is "?refused \<or> ?passed")
proof (cases "(case rq_headerSize r of Some original \<Rightarrow> if original > headerSize r then original else headerSize r | None \<Rightarrow> headerSize r) > MaxHeaderBytes")
  case True
  then show ?thesis by (simp add: BoundRequests_def)
next
  case False
  then have size: "headerSize r \<le> MaxHeaderBytes" by (auto split: option.splits if_splits)
  show ?thesis
  proof (cases "rq_Body r = None \<or> rq_Method r \<in> {''GET'', ''HEAD''}")
    case True
    with False size show ?thesis by (intro disjI2 exI [of _ r]) (auto simp: BoundRequests_def same_request_def within_bounds_def body_bytes_def split: option.splits)
  next
    case body: False
    then obtain b where b: "rq_Body r = Some b" by auto
    show ?thesis
    proof (cases "rq_ContentLength r > int MaxJSONBody")
      case True
      with False body b show ?thesis by (simp add: BoundRequests_def)
    next
      case short: False
      show ?thesis
      proof (cases "read_limited MaxJSONBody b")
        case (ReadOK bytes)
        with False body b short size show ?thesis
          by (intro disjI2 exI [of _ "r\<lparr>rq_Body := Some \<lparr>bd_bytes = bytes, bd_eof = True\<rparr>\<rparr>"])
            (auto simp: BoundRequests_def same_request_def within_bounds_def body_bytes_def headerSize_def read_limited_def split: if_splits)
      next
        case TooLarge
        with False body b short show ?thesis by (cases "rq_cancelled r") (simp_all add: BoundRequests_def)
      next
        case ReadFailed
        with False body b short show ?thesis by (cases "rq_cancelled r") (simp_all add: BoundRequests_def)
      qed
    qed
  qed
qed

lemma admitted_cong:
  assumes "same_request r r'"
  shows "admitted e minimum r' d r2 d2 = admitted e minimum r d r2 d2"
  using assms by (simp add: same_request_def admitted_def from_own_page_def workspace_of_path_def request_cookie_def singleHeader_def header_Values_def cong: option.case_cong)

lemma app_route_guards: "guards (\<lambda>api. app_route e (Some (h\<lparr>hd_api := api\<rparr>)) assets r d) (relabel Api)
     (\<lambda>r' d1. admitted e ''viewer'' r d r' d1 \<and> in_context r r')"
proof (cases "rq_Path r = ''/api'' \<or> has_prefix ''/api/'' (rq_Path r)")
  case True
  then have "app_route e (Some (h\<lparr>hd_api := api\<rparr>)) assets r d = relabel Api (Protect e ''viewer'' api r d)" for api :: "(db, 'a) handler"
    by (auto simp: app_route_def has_prefix_def)
  with guards_map [OF Protect_guards, of "relabel Api" e "''viewer''" r d] show ?thesis by (simp add: comp_def)
next
  case False
  then show ?thesis by (intro guards_refuse [where res = "app_route e (Some h) assets r d"]) (auto simp: app_route_def)
qed

lemma guards_mono: "guards run f A \<Longrightarrow> (\<And>r' d1. A r' d1 \<Longrightarrow> B r' d1) \<Longrightarrow> guards run f B"
  unfolding guards_def by blast

lemma within_bounds_context: "in_context r r' \<Longrightarrow> within_bounds r \<Longrightarrow> within_bounds r'"
  by (auto simp: in_context_def within_bounds_def headerSize_def body_bytes_def)

text \<open>The whole boundary: the API handler runs only on an admitted request within the bounds.\<close>

lemma NewAppHandler_guards:
  "guards (\<lambda>api. NewAppHandler e fresh (Some (h\<lparr>hd_api := api\<rparr>)) assets r d) (relabel Api) (\<lambda>r' d1. admitted e ''viewer'' r d r' d1 \<and> within_bounds r')"
proof -
  define r0 where "r0 = r\<lparr>rq_RequestID := if validRequestID (header_Get r ''X-Request-Id'') then header_Get r ''X-Request-Id'' else newRequestID fresh\<rparr>"
  have r0: "same_request r r0" "withRequestID fresh run r d = run r0 d" for run :: "(db, 'a reply) handler"
    by (simp_all add: r0_def same_request_def withRequestID_def)
  show ?thesis
  proof (rule disjE [OF BoundRequests_cases [of r0 d, where 'a = "'a reply"]], goal_cases)
    case 1
    then obtain st code where "\<And>run :: (db, 'a reply) handler. BoundRequests run r0 d = (Problem st code, d)" by blast
    then show ?thesis by (intro guards_refuse) (simp add: NewAppHandler_def r0(2))
  next
    case 2
    then obtain r1 where passed: "\<And>run :: (db, 'a reply) handler. BoundRequests run r0 d = run r1 d" "same_request r0 r1" "within_bounds r1" by blast
    have "admitted e ''viewer'' r d r' d1 \<and> within_bounds r'" if "admitted e ''viewer'' r1 d r' d1 \<and> in_context r1 r'" for r' d1
      using that admitted_cong [OF passed(2)] admitted_cong [OF r0(1)] within_bounds_context passed(3) by blast
    from guards_mono [OF app_route_guards this] show ?thesis by (simp add: NewAppHandler_def r0(2) passed(1))
  qed
qed

section \<open>The forwarded chain\<close>

definition trusted_entry :: "ip_prefix list \<Rightarrow> string \<Rightarrow> bool" where
  "trusted_entry trusted entry \<longleftrightarrow> (case ParseAddr (TrimSpace entry) of None \<Rightarrow> False | Some a \<Rightarrow> isTrusted trusted a)"

lemma forwarded_stops:
  assumes "list_all (trusted_entry trusted) ps" "ParseAddr (TrimSpace c) = Some a" "\<not> isTrusted trusted a" "isTrusted trusted candidate"
  shows "forwarded trusted ip candidate (ps @ c # rest) = a"
  using assms(1,4)
proof (induction ps arbitrary: candidate)
  case Nil
  with assms show ?case by (cases rest) simp_all
next
  case (Cons p ps)
  then show ?case by (auto simp: trusted_entry_def split: option.splits)
qed

text \<open>Whatever the header holds, the result is the peer or an address the header's walk has reached through trusted ones only.\<close>

lemma client_ip_chain:
  assumes "isTrusted trusted (peer r)" "header_Values r ''X-Forwarded-For'' = [v]" "Split CHR '','' v = forged @ c # ps"
    "list_all (trusted_entry trusted) ps" "ParseAddr (TrimSpace c) = Some a" "\<not> isTrusted trusted a"
  shows "client_ip trusted r = (if length forged + 1 + length ps \<le> 32 then a else peer r)"
  using assms forwarded_stops [of trusted "rev ps" c a "peer r" "peer r" "rev forged"]
  by (simp add: client_ip_def header_Get_def Let_def list_all_rev)

lemma forwarding_headers_removed: "k \<in> set forwarding_headers \<Longrightarrow> header_Values (header_Del forwarding_headers r) k = []"
  by (auto simp: header_Values_def header_Del_def map_of_filter_in split: option.splits dest!: map_of_SomeD)

section \<open>Sessions of the callback\<close>

text \<open>The session stored under the token a sign-in hands out belongs to the user it was opened for.\<close>

definition owned :: "crypto \<Rightarrow> uuid \<Rightarrow> db \<Rightarrow> session_credential \<Rightarrow> db \<Rightarrow> bool" where
  "owned K user d c d' \<longleftrightarrow> users d' = users d \<and> memberships d' = memberships d \<and> workspaces d' = workspaces d
     \<and> (\<exists>s \<in> set (sessions d'). s_token_digest s = digest_or_nil K (cr_Token c))
     \<and> (\<forall>s \<in> set (sessions d'). s_token_digest s = digest_or_nil K (cr_Token c) \<longrightarrow> s_user s = user)"

lemma new_session_simps [simp]: "s_token_digest (new_session policy now digest csrf user at d) = digest"
  "s_user (new_session policy now digest csrf user at d) = user"
  by (simp_all add: new_session_def)

lemma insert_session_owned:
  assumes "insert_session policy now (digest_or_nil K token) csrf user at d1 = Some d'" "enabled_user d user"
    "users d1 = users d" "memberships d1 = memberships d" "workspaces d1 = workspaces d"
  shows "owned K user d \<lparr>cr_Token = token, cr_CSRF = raw\<rparr> d'"
proof -
  have "enabled_user d1 user" using assms(2,3) by (simp add: enabled_user_def)
  with assms(1) have "d' = d1\<lparr>sessions := sessions d1 @ [new_session policy now (digest_or_nil K token) csrf user at d1]\<rparr>"
      "digest_or_nil K token \<notin> s_token_digest ` set (sessions d1)"
    by (auto simp: insert_session_def Let_def session_insert_ok_def split: if_splits)
  with assms(3-) show ?thesis by (auto simp: owned_def image_iff)
qed

lemma vc_create_owned:
  assumes "enabled_user d user"
  shows "vc (create_session_tx K policy now token csrf user at previous) (owned K user d) d"
  unfolding create_session_tx_def Let_def
  by (intro vc_rules) (auto intro: insert_session_owned assms)

lemma vc_Create_owned:
  assumes "enabled_user d user"
  shows "vc (Sessions_Create K policy now raw_token raw_csrf user at previous) (owned K user d) d"
  using vc_create_owned [OF assms]
  by (auto simp: Sessions_Create_def randomToken_def vc_raise split: option.splits)


lemma owned_mono: "owned K user d1 c d' \<Longrightarrow> users d1 = users d \<Longrightarrow> memberships d1 = memberships d \<Longrightarrow> workspaces d1 = workspaces d \<Longrightarrow> owned K user d c d'"
  by (simp add: owned_def)

lemma owned_upd:
  assumes o: "owned K user d c d'" and f: "\<And>s. s_token_digest (f s) = s_token_digest s" "\<And>s. s_user (f s) = s_user s"
  shows "owned K user d c (d'\<lparr>sessions := upd P f (sessions d')\<rparr>)"
proof -
  have old: "\<exists>s0 \<in> set (sessions d'). s_token_digest s0 = s_token_digest s \<and> s_user s0 = s_user s" if "s \<in> set (upd P f (sessions d'))" for s
    using in_updD [OF that] f by (elim disjE bexE conjE) auto
  have "\<exists>s \<in> set (upd P f (sessions d')). s_token_digest s = s_token_digest s0" if "s0 \<in> set (sessions d')" for s0
    using in_updI [OF that, of P f] in_upd_other [OF that, of P f] f by (cases "P s0") auto
  with o old show ?thesis unfolding owned_def by simp metis
qed

lemma vc_Create_ownedI:
  assumes "enabled_user d user" "\<And>c d'. owned K user d c d' \<Longrightarrow> Q c d'"
  shows "vc (Sessions_Create K policy now raw_token raw_csrf user at previous) Q d"
  by (rule vc_mono [OF vc_Create_owned [OF assms(1)] assms(2)])

lemma vc_rotate_owned:
  assumes "enabled_user d user"
  shows "vc (rotate_tx K policy now raw_token raw_csrf user at digest) (owned K user d) d"
  unfolding rotate_tx_def Let_def
  by (intro vc_bind vc_sql, clarify, intro vc_rules vc_Create_ownedI)
    (use assms in \<open>auto simp: enabled_user_def intro!: owned_upd elim: owned_mono\<close>)

lemma vc_open_session_owned:
  assumes "enabled_user d user"
  shows "vc (open_session e supported acr ids c t user at previous) (owned (en_crypto e) user d) d"
  unfolding open_session_def Let_def RotateRecent_def
  by (intro vc_rules vc_Create_owned vc_rotate_owned assms)

lemma vc_bind_any: "(\<And>x d'. vc (f x) Q d') \<Longrightarrow> vc (tx_bind m f) Q d"
  by (auto simp: vc_def tx_bind_Inr)

text \<open>Who a sign-in proves: an enabled account of the token's identity that is a member of an open workspace.\<close>

definition account :: "db \<Rightarrow> id_token \<Rightarrow> uuid \<Rightarrow> bool" where
  "account d t user \<longleftrightarrow> (\<exists>u \<in> set (users d). u_id u = user \<and> u_issuer u = it_Issuer t \<and> u_subject u = it_Subject t \<and> u_disabled_at u = None)
     \<and> (\<exists>m \<in> set (memberships d). m_user m = user \<and> open_workspace d (m_workspace m) \<noteq> None)"

lemma login_account_Some: "login_account d (it_Issuer t) (it_Subject t) = Some (user, w) \<Longrightarrow> account d t user"
proof -
  let ?xs = "[(u_id u, m_workspace m). u \<leftarrow> users d, u_issuer u = it_Issuer t \<and> u_subject u = it_Subject t \<and> u_disabled_at u = None,
         m \<leftarrow> memberships d, m_user m = u_id u \<and> open_workspace d (m_workspace m) \<noteq> None]"
  assume "login_account d (it_Issuer t) (it_Subject t) = Some (user, w)"
  then have "(user, w) \<in> set (sort_key snd ?xs)" unfolding login_account_def by (cases "sort_key snd ?xs") auto
  then have "(user, w) \<in> set ?xs" by simp
  then show ?thesis by (auto simp: account_def split: if_splits)
qed

lemma account_enabled: "account d t user \<Longrightarrow> enabled_user d user"
  by (auto simp: account_def enabled_user_def)

lemma account_frame: "users d' = users d \<Longrightarrow> memberships d' = memberships d \<Longrightarrow> workspaces d' = workspaces d \<Longrightarrow> account d' t user = account d t user"
  by (simp add: account_def open_workspace_def)

definition signed_in :: "crypto \<Rightarrow> id_token \<Rightarrow> session_credential \<Rightarrow> db \<Rightarrow> bool" where
  "signed_in K t c d' \<longleftrightarrow> (\<exists>user. account d' t user \<and> (\<exists>s \<in> set (sessions d'). s_token_digest s = digest_or_nil K (cr_Token c))
     \<and> (\<forall>s \<in> set (sessions d'). s_token_digest s = digest_or_nil K (cr_Token c) \<longrightarrow> s_user s = user))"

lemma vc_callback: "vc (callback_tx e clk supported acr ids c t previous request) (signed_in (en_crypto e) t) d"
  unfolding callback_tx_def
proof (rule vc_bind_any, intro vc_bind vc_query_row vc_case_prod vc_case_option vc_raise)
  fix d1 :: db and p user w at
  assume acc: "login_account d1 (it_Issuer t) (it_Subject t) = Some p" "p = (user, w)"
  then have a: "account d1 t user" using login_account_Some by blast
  have signed: "signed_in (en_crypto e) t cr d2'" if "owned (en_crypto e) user d1 cr d2" "users d2' = users d2" "memberships d2' = memberships d2"
      "workspaces d2' = workspaces d2" "sessions d2' = sessions d2" for cr d2 d2'
    unfolding signed_in_def using that a account_frame [of d2' d1 t user] by (intro exI [of _ user]) (auto simp: owned_def)
  show "vc (open_session e supported acr ids c t user (if 0 < at then Sama_Identity.unix_epoch + at * second else it_IssuedAt t) previous)
      (\<lambda>x. vc (case cb_login_event ids of None \<Rightarrow> tx_raise IdErrStore
         | Some i \<Rightarrow> tx_bind (tx_as IdErrStore (Append clk (user_event i w user ''auth.login'' request []))) (\<lambda>_. tx_ret x)) (signed_in (en_crypto e) t)) d1"
    by (rule vc_mono [OF vc_open_session_owned [OF account_enabled [OF a]]]) (intro vc_rules, auto intro: signed)
qed

lemma Consume_Inr:
  assumes "Consume K n now state browser d = (Inr c, d')"
  obtains h where "h \<in> set (challenges d)" "token_digest K state = Some (h_state_digest h)" "token_digest K browser = Some (h_browser_digest h)"
    "now < h_expires_at h" "ch_Verifier c = h_verifier h" "ch_Nonce c = h_nonce h" "h \<notin> set (challenges d')"
proof -
  from assms obtain a b where ab: "token_digest K state = Some a" "token_digest K browser = Some b"
      and run: "run_auto IdErrStore n (consume_tx a b now) d = (Inr c, d')"
    by (auto simp: Consume_def split: option.splits)
  from run obtain s s' where "t_db s = d" "consume_tx a b now s = (Inr c, s')" "d' = t_db s'"
    by (auto elim!: run_auto_cases)
  then obtain h where h: "fetch (challenge_open a b now) (challenges d) = Some h" "challenges d' = del (challenge_open a b now) (challenges d)"
      "ch_Verifier c = h_verifier h" "ch_Nonce c = h_nonce h"
    by (auto simp: consume_tx_def tx_simps split: option.splits)
  with fetch_Some [OF h(1)] ab show thesis by (intro that [of h]) (auto simp: challenge_open_def del_def)
qed

lemma Exchange_Inr:
  assumes "Exchange oauth verifier code pkce nonce = Inr t"
  obtains raw where "oauth code pkce = Some (Some raw)" "verifier raw = Some t" "it_Nonce t = nonce"
  using assms by (auto simp: Exchange_def oidc_Verify_def split: option.splits if_splits)

section \<open>Properties\<close>

text \<open>
  C23: The API handler runs only on an admitted request. For every request either the answer is the same whatever the API handler
  is, so it was not called; or it was called with the request, within the header and body limits, of the enabled user of a live
  session, with the user's current membership where the path is inside a workspace, and, unless the method is safe, with the
  installation's own origin and the session's CSRF token.
\<close>

theorem api_requests_are_admitted:
  "(\<exists>res. \<forall>api. NewAppHandler e fresh (Some (h\<lparr>hd_api := api\<rparr>)) assets r d = res)
   \<or> (\<exists>r' d1. (\<forall>api. NewAppHandler e fresh (Some (h\<lparr>hd_api := api\<rparr>)) assets r d = relabel Api (api r' d1))
        \<and> admitted e ''viewer'' r d r' d1 \<and> within_bounds r')"
  using NewAppHandler_guards [unfolded guards_def] .


definition example_request :: request where
  "example_request = \<lparr>rq_Method = ''GET'', rq_Path = ''/api/v1/me'', rq_RawQuery = [], rq_Query = [], rq_Host = ''sama.example'',
     rq_Header = [(''X-Forwarded-For'', [''10.0.0.1, 192.0.2.1, 127.0.0.2''])], rq_Cookies = [], rq_RemoteHost = ''127.0.0.1'',
     rq_ContentLength = 0, rq_Body = None, rq_cancelled = False, rq_headerSize = None, rq_clientIP = NoAddr, rq_RequestID = [],
     rq_principal = None, rq_membership = None\<rparr>"

lemma example_addresses:
  "TrimSpace '' 192.0.2.1'' = ''192.0.2.1'' \<and> TrimSpace '' 127.0.0.2'' = ''127.0.0.2''" "Split CHR '','' '' 192.0.2.1, 127.0.0.2'' = ['' 192.0.2.1'', '' 127.0.0.2'']"
  "ip4_bytes ''192.0.2.1'' = Some (192, 0, 2, 1) \<and> ip4_bytes ''127.0.0.2'' = Some (127, 0, 0, 2) \<and> ip4_bytes ''127.0.0.1'' = Some (127, 0, 0, 1)"
  by code_simp+

lemma example_parsed: "ParseAddr ''192.0.2.1'' = Some (V4 (ip4 192 0 2 1))" "ParseAddr ''127.0.0.2'' = Some (V4 (ip4 127 0 0 2))"
  "ParseAddr ''127.0.0.1'' = Some (V4 (ip4 127 0 0 1))"
  using example_addresses(3) by (simp_all add: ParseAddr_def)


text \<open>
  C24: A sign-in is a proof. Where the callback opens a session, the browser held the cookie of an unexpired challenge with the
  request's state, which is then spent; the identity provider exchanged the code under that challenge's verifier for a token with
  its nonce; the token's identity is an enabled account that is a member of an open workspace; and the new token is that account's alone.
\<close>

theorem sign_in_is_proved:
  assumes "callback e oauth verifier clk supported acr ids r d = (Answer (SignedIn c), d')"
  shows "\<exists>h browser raw t. h \<in> set (challenges d) \<and> request_cookie r (cookie_name e ''login'') = Some browser
     \<and> token_digest (en_crypto e) browser = Some (h_browser_digest h) \<and> token_digest (en_crypto e) (query_Get r ''state'') = Some (h_state_digest h)
     \<and> en_clock e 0 < h_expires_at h
     \<and> h \<notin> set (challenges (snd (Consume (en_crypto e) (en_net e 0) (en_clock e 0) (query_Get r ''state'') browser d)))
     \<and> oauth (query_Get r ''code'') (h_verifier h) = Some (Some raw) \<and> verifier raw = Some t \<and> it_Nonce t = h_nonce h
     \<and> signed_in (en_crypto e) t c d'"
proof -
  from assms obtain browser ch d1 t where *: "request_cookie r (cookie_name e ''login'') = Some browser"
      "Consume (en_crypto e) (en_net e 0) (en_clock e 0) (query_Get r ''state'') browser d = (Inr ch, d1)"
      "Exchange oauth verifier (query_Get r ''code'') (ch_Verifier ch) (ch_Nonce ch) = Inr t"
      "run_tx IdErrStore IdErrStore (en_net e 1) (callback_tx e clk supported acr ids ch t
         (case request_cookie r (cookie_name e ''session'') of None \<Rightarrow> [] | Some old \<Rightarrow> old) (rq_RequestID r)) (en_between e 1 d1) = (Inr c, d')"
    by (auto simp: callback_def login_problem_def split: if_splits option.splits prod.splits sum.splits)
  from *(2) obtain h where h: "h \<in> set (challenges d)" "token_digest (en_crypto e) (query_Get r ''state'') = Some (h_state_digest h)"
      "token_digest (en_crypto e) browser = Some (h_browser_digest h)" "en_clock e 0 < h_expires_at h" "ch_Verifier ch = h_verifier h"
      "ch_Nonce ch = h_nonce h" "h \<notin> set (challenges d1)"
    by (rule Consume_Inr)
  from *(3) obtain raw where "oauth (query_Get r ''code'') (ch_Verifier ch) = Some (Some raw)" "verifier raw = Some t" "it_Nonce t = ch_Nonce ch"
    by (rule Exchange_Inr)
  moreover have "signed_in (en_crypto e) t c d'" by (rule vc_run_tx_Inr [OF *(4) vc_callback])
  ultimately show ?thesis using h *(1,2) by auto
qed

text \<open>A browser that returns from the identity provider.\<close>

definition example_env :: env where
  "example_env = \<lparr>en_crypto = example_crypto, en_policy = DefaultSessionPolicy, en_origin = ''https://sama.example/'', en_development = False,
     en_media = Some, en_net = (\<lambda>_. good_net), en_clock = (\<lambda>_. minute), en_between = (\<lambda>_ d. d)\<rparr>"

definition example_visit :: db where
  "example_visit = example_login\<lparr>challenges := [\<lparr>h_state_digest = replicate 32 CHR ''s'', h_browser_digest = replicate 32 CHR ''b'',
     h_nonce = replicate 43 CHR ''n'', h_verifier = replicate 43 CHR ''v'', h_created_at = second, h_expires_at = 5 * minute,
     h_invitation_digest = None, h_session_digest = None\<rparr>]\<rparr>"

definition example_return :: request where
  "example_return = example_request\<lparr>rq_Path := ''/auth/callback'', rq_Query := [(''state'', [replicate 32 CHR ''s'']), (''code'', [''code''])],
     rq_Cookies := [(''__Host-sama_login'', replicate 32 CHR ''b'')], rq_RequestID := ''req''\<rparr>"

definition example_oauth :: "string \<Rightarrow> string \<Rightarrow> string option option" where
  "example_oauth code pkce = (if pkce = replicate 43 CHR ''v'' then Some (Some ''raw'') else None)"

definition example_verifier :: "string \<Rightarrow> id_token option" where
  "example_verifier raw = Some \<lparr>it_Issuer = ''iss'', it_Subject = ''sub'', it_Nonce = replicate 43 CHR ''n'', it_IssuedAt = second,
     it_AuthTime = Some 0, it_Claims = None\<rparr>"

definition example_callback :: "sign_in answer \<times> db" where
  "example_callback = callback example_env example_oauth example_verifier minute False [] \<lparr>cb_user = None, cb_member_event = None, cb_login_event = Some (v7 70),
     cb_raw_token = Some (replicate 32 CHR ''x''), cb_raw_csrf = Some (replicate 32 CHR ''y'')\<rparr> example_return example_visit"

definition example_credential :: session_credential where
  "example_credential = \<lparr>cr_Token = replicate 32 CHR ''x'', cr_CSRF = replicate 32 CHR ''y''\<rparr>"

lemma example_callback_result: "(case fst example_callback of Answer (SignedIn c) \<Rightarrow> c = example_credential | _ \<Rightarrow> False)"
  by code_simp

theorem sign_in_is_proved_witness:
  "\<exists>t. signed_in example_crypto t example_credential (snd example_callback) \<and> it_Nonce t = replicate 43 CHR ''n''"
proof -
  have "example_callback = (Answer (SignedIn example_credential), snd example_callback)"
    using example_callback_result by (auto split: answer.splits sign_in.splits) (metis prod.collapse)
  from sign_in_is_proved [OF this [unfolded example_callback_def]]
  obtain h raw t where "h \<in> set (challenges example_visit)" "example_verifier raw = Some t" "it_Nonce t = h_nonce h"
      "signed_in (en_crypto example_env) t example_credential (snd example_callback)"
    unfolding example_callback_def by blast
  then show ?thesis by (intro exI [of _ t]) (auto simp: example_visit_def example_env_def)
qed

text \<open>The guards let a request through: a change with the session cookie and its CSRF token, and not without the token.\<close>

definition example_change :: request where
  "example_change = example_request\<lparr>rq_Method := ''POST'', rq_Path := ''/api/v1/workspaces'',
     rq_Header := [(''Origin'', [''https://sama.example'']), (''Content-Type'', [''application/json'']), (''X-Csrf-Token'', [replicate 32 CHR ''c''])],
     rq_Cookies := [(''__Host-sama_session'', example_token)]\<rparr>"

lemma example_change_is_admitted:
  "(case Protect example_env ''viewer'' (\<lambda>r d. (Answer (map_option pr_UserID (rq_principal r)), d)) example_change example_login of
      (Answer (Some user), _) \<Rightarrow> user = v7 4 | _ \<Rightarrow> False)"
  "(case Protect example_env ''viewer'' (\<lambda>r d. (Answer (), d)) (example_change\<lparr>rq_Header := []\<rparr>) example_login of
      (Problem _ code, _) \<Rightarrow> code = ''permission_denied'' | _ \<Rightarrow> False)"
  by code_simp+

end
