(* ===== verification/Sama_Migrations.thy ===== *)
theory Sama_Migrations
  imports Sama_Net
begin

text \<open>
  The schema migrations of \<^verbatim>\<open>internal/platform/migrations.go\<close>: the files of a directory in version order, the ledger of the
  ones applied with their checksums, and the one transaction that applies the rest.

  An installation is its ledger table, absent before the first run, and the schema the files act on, a type of its own. What a
  file's SQL does to that schema is an argument, \<open>None\<close> where PostgreSQL rejects it; no file of \<^verbatim>\<open>backend/migrations\<close> touches the
  ledger.
\<close>

section \<open>The files\<close>

record migrationFile =
  mf_name :: string
  mf_version :: string
  mf_contents :: string
  mf_checksum :: string

definition lower_alnum :: "char \<Rightarrow> bool" where
  "lower_alnum c \<longleftrightarrow> char_between CHR ''a'' CHR ''z'' c \<or> digit c"

text \<open>\<^verbatim>\<open>^[0-9]{6}_[a-z0-9_]+\.sql$\<close>\<close>

definition migrationFileName :: "string \<Rightarrow> bool" where
  "migrationFileName name \<longleftrightarrow> length name \<ge> 12 \<and> list_all digit (take 6 name) \<and> name ! 6 = CHR ''_''
     \<and> list_all (\<lambda>c. lower_alnum c \<or> c = CHR ''_'') (take (length name - 11) (drop 7 name)) \<and> drop (length name - 4) name = ''.sql''"

text \<open>
  A directory: its entries with what reading each delivers. The names are read in byte order; the loop stops at the first
  malformed, duplicate, unreadable or blank file.
\<close>

definition sql_names :: "(string \<times> string option) list \<Rightarrow> string list" where
  "sql_names source = sort (filter (\<lambda>n. has_prefix (rev ''.sql'') (rev n)) (map fst source))"

fun load_files :: "crypto \<Rightarrow> (string \<times> string option) list \<Rightarrow> string list \<Rightarrow> string list \<Rightarrow> migrationFile list option" where
  "load_files K source versions [] = Some []"
| "load_files K source versions (name # names) =
     (if \<not> migrationFileName name then None
      else let version = before CHR ''_'' name in
        if version \<in> set versions then None
        else (case map_of source name of
            Some (Some contents) \<Rightarrow>
              if TrimSpace contents = [] then None
              else map_option ((#) \<lparr>mf_name = name, mf_version = version, mf_contents = contents, mf_checksum = hex_encode (sha256 K contents)\<rparr>)
                (load_files K source (version # versions) names)
          | _ \<Rightarrow> None))"

definition loadMigrationFiles :: "crypto \<Rightarrow> (string \<times> string option) list \<Rightarrow> migrationFile list option" where
  "loadMigrationFiles K source = load_files K source [] (sql_names source)"

section \<open>The ledger\<close>

record ledger_row =
  lr_version :: string
  lr_name :: string
  lr_checksum :: string

text \<open>A column is its name, its type and whether it may be null; of the constraints, the columns of the primary key and the names of the checks.\<close>

record ledger_table =
  lt_columns :: "(string \<times> string \<times> bool) list"
  lt_primary :: "string list"
  lt_checks :: "string list"
  lt_rows :: "ledger_row list"

record 's installation =
  in_ledger :: "ledger_table option"
  in_schema :: 's

definition new_ledger :: ledger_table where
  "new_ledger = \<lparr>lt_columns = [(''version'', ''text'', False), (''migration_name'', ''text'', False), (''checksum'', ''text'', False),
       (''applied_at'', ''timestamp with time zone'', False)], lt_primary = [''version''],
     lt_checks = [''sama_schema_migrations_version_format'', ''sama_schema_migrations_checksum_format''], lt_rows = []\<rparr>"

definition create_ledger :: "'s installation \<Rightarrow> 's installation" where
  "create_ledger d = (case in_ledger d of None \<Rightarrow> d\<lparr>in_ledger := Some new_ledger\<rparr> | Some _ \<Rightarrow> d)"

definition compatible :: "ledger_table \<Rightarrow> bool" where
  "compatible t \<longleftrightarrow> length (lt_columns t) = 4
     \<and> cnt (\<lambda>c. c = (''version'', ''text'', False)) (lt_columns t) = 1
     \<and> cnt (\<lambda>c. c = (''migration_name'', ''text'', False)) (lt_columns t) = 1
     \<and> cnt (\<lambda>c. c = (''checksum'', ''text'', False)) (lt_columns t) = 1
     \<and> cnt (\<lambda>c. c = (''applied_at'', ''timestamp with time zone'', False)) (lt_columns t) = 1
     \<and> ''version'' \<in> set (lt_primary t)
     \<and> ''sama_schema_migrations_version_format'' \<in> set (lt_checks t) \<and> ''sama_schema_migrations_checksum_format'' \<in> set (lt_checks t)"

definition ledger_rows :: "'s installation \<Rightarrow> ledger_row list" where
  "ledger_rows d = (case in_ledger d of None \<Rightarrow> [] | Some t \<Rightarrow> lt_rows t)"

definition validateMigrationLedger :: "'s installation \<Rightarrow> bool" where
  "validateMigrationLedger d = (case in_ledger d of None \<Rightarrow> False | Some t \<Rightarrow> compatible t)"

text \<open>The ledger's own constraints: one row per version, six digits, a hexadecimal digest.\<close>

definition ledger_insert_ok :: "'s installation \<Rightarrow> ledger_row \<Rightarrow> bool" where
  "ledger_insert_ok d r \<longleftrightarrow> lr_version r \<notin> set (map lr_version (ledger_rows d)) \<and> length (lr_version r) = 6 \<and> list_all digit (lr_version r)
     \<and> length (lr_checksum r) = 64 \<and> list_all (\<lambda>c. c \<in> set ''0123456789abcdef'') (lr_checksum r)"

definition record_file :: "migrationFile \<Rightarrow> 's installation \<Rightarrow> 's installation option" where
  "record_file f d = (let r = \<lparr>lr_version = mf_version f, lr_name = mf_name f, lr_checksum = mf_checksum f\<rparr> in
     case in_ledger d of None \<Rightarrow> None
     | Some t \<Rightarrow> if ledger_insert_ok d r then Some (d\<lparr>in_ledger := Some (t\<lparr>lt_rows := lt_rows t @ [r]\<rparr>)\<rparr>) else None)"

section \<open>Applying\<close>

text \<open>\<^verbatim>\<open>readAppliedMigrations\<close>: the rows by version.\<close>

definition readAppliedMigrations :: "'s installation \<Rightarrow> (string \<times> ledger_row) list" where
  "readAppliedMigrations d = map (\<lambda>r. (lr_version r, r)) (sort_key lr_version (ledger_rows d))"

definition file_changed :: "(string \<times> ledger_row) list \<Rightarrow> migrationFile \<Rightarrow> bool" where
  "file_changed applied f = (case map_of applied (mf_version f) of None \<Rightarrow> False
     | Some r \<Rightarrow> lr_checksum r \<noteq> mf_checksum f \<or> lr_name r \<noteq> mf_name f)"

fun apply_files :: "(string \<Rightarrow> 's \<Rightarrow> 's option) \<Rightarrow> (string \<times> ledger_row) list \<Rightarrow> migrationFile list \<Rightarrow> ('s installation, unit) tx" where
  "apply_files run applied [] = tx_ret ()"
| "apply_files run applied (f # fs) =
     (if map_of applied (mf_version f) \<noteq> None then apply_files run applied fs
      else tx_bind (exec (PlatformErr ''migration SQL failed'') (\<lambda>d. map_option (\<lambda>s. d\<lparr>in_schema := s\<rparr>) (run (mf_contents f) (in_schema d)))) (\<lambda>_.
           tx_bind (exec (PlatformErr ''migration ledger update failed'') (record_file f)) (\<lambda>_.
           apply_files run applied fs)))"

definition apply_tx :: "(string \<Rightarrow> 's \<Rightarrow> 's option) \<Rightarrow> migrationFile list \<Rightarrow> ('s installation, unit) tx" where
  "apply_tx run files =
     tx_bind (query (PlatformErr ''migration query timeout could not be set'') (\<lambda>_. ())) (\<lambda>_.
     tx_bind (query (PlatformErr ''migration lock could not be acquired'') (\<lambda>_. ())) (\<lambda>_.
     tx_bind (exec (PlatformErr ''migration ledger could not be initialized'') (\<lambda>d. Some (create_ledger d))) (\<lambda>_.
     tx_bind (query (PlatformErr ''migration ledger schema is incompatible'') validateMigrationLedger) (\<lambda>ok.
     if \<not> ok then tx_raise (PlatformErr ''migration ledger schema is incompatible'')
     else tx_bind (query (PlatformErr ''migration ledger could not be read'') readAppliedMigrations) (\<lambda>applied.
     if list_ex (file_changed applied) files then tx_raise (PlatformErr ''an applied migration file has changed'')
     else if list_ex (\<lambda>(version, _). version \<notin> set (map mf_version files)) applied then tx_raise (PlatformErr ''an applied migration file is missing'')
     else apply_files run applied files)))))"

definition minMigrationQueryTimeout :: time where
  "minMigrationQueryTimeout = second"

definition maxMigrationQueryTimeout :: time where
  "maxMigrationQueryTimeout = 24 * hour"

text \<open>\<open>acquired\<close>: whether the pool gave a connection.\<close>

definition ApplyMigrations :: "crypto \<Rightarrow> net \<Rightarrow> bool \<Rightarrow> (string \<Rightarrow> 's \<Rightarrow> 's option) \<Rightarrow> (string \<times> string option) list \<Rightarrow> time \<Rightarrow> 's installation \<Rightarrow> (err + unit) \<times> 's installation" where
  "ApplyMigrations K n acquired run source queryTimeout d =
     (if queryTimeout < minMigrationQueryTimeout \<or> queryTimeout > maxMigrationQueryTimeout then (Inl (PlatformErr ''migration query timeout is invalid''), d)
      else (case loadMigrationFiles K source of
          None \<Rightarrow> (Inl (PlatformErr ''migration files are invalid''), d)
        | Some files \<Rightarrow>
            if \<not> acquired then (Inl (PlatformErr ''migration database is unavailable''), d)
            else run_tx (PlatformErr ''migration transaction could not start'') (PlatformErr ''migration transaction could not commit'') n (apply_tx run files) d))"

section \<open>What a run leaves behind\<close>

definition row_of :: "migrationFile \<Rightarrow> ledger_row" where
  "row_of f = \<lparr>lr_version = mf_version f, lr_name = mf_name f, lr_checksum = mf_checksum f\<rparr>"

fun run_all :: "(string \<Rightarrow> 's \<Rightarrow> 's option) \<Rightarrow> string list \<Rightarrow> 's \<Rightarrow> 's option" where
  "run_all run [] s = Some s"
| "run_all run (c # cs) s = Option.bind (run c s) (run_all run cs)"

definition with_rows :: "ledger_row list \<Rightarrow> 's installation \<Rightarrow> 's installation" where
  "with_rows rs d = d\<lparr>in_ledger := map_option (\<lambda>t. t\<lparr>lt_rows := lt_rows t @ rs\<rparr>) (in_ledger d)\<rparr>"

lemma row_of_simps [simp]: "lr_version (row_of f) = mf_version f" "lr_name (row_of f) = mf_name f" "lr_checksum (row_of f) = mf_checksum f"
  by (simp_all add: row_of_def)

lemma record_file_Some: "record_file f d = Some d' \<Longrightarrow> d' = with_rows [row_of f] d \<and> in_ledger d \<noteq> None"
  by (auto simp: record_file_def Let_def with_rows_def row_of_def split: option.splits if_splits)

lemma with_rows_append: "with_rows rs (with_rows qs d) = with_rows (qs @ rs) d"
  by (cases "in_ledger d") (simp_all add: with_rows_def)

lemma with_rows_schema: "with_rows rs (d\<lparr>in_schema := s\<rparr>) = (with_rows rs d)\<lparr>in_schema := s\<rparr>"
  by (simp add: with_rows_def)

definition pending :: "(string \<times> ledger_row) list \<Rightarrow> migrationFile list \<Rightarrow> migrationFile list" where
  "pending applied files = filter (\<lambda>f. map_of applied (mf_version f) = None) files"

lemma vc_apply_files:
  "vc (apply_files run applied fs) (\<lambda>_ d'. run_all run (map mf_contents (pending applied fs)) (in_schema d) = Some (in_schema d')
     \<and> d' = with_rows (map row_of (pending applied fs)) (d\<lparr>in_schema := in_schema d'\<rparr>)) d"
proof (induction fs arbitrary: d)
  case Nil
  show ?case by (cases "in_ledger d") (auto intro!: vc_ret simp: pending_def with_rows_def)
next
  case (Cons f fs)
  show ?case
  proof (cases "map_of applied (mf_version f) = None")
    case False
    with Cons show ?thesis by (auto simp: pending_def)
  next
    case True
    have "vc (apply_files run applied fs) (\<lambda>_ d'. run_all run (map mf_contents (pending applied (f # fs))) (in_schema d) = Some (in_schema d')
       \<and> d' = with_rows (map row_of (pending applied (f # fs))) (d\<lparr>in_schema := in_schema d'\<rparr>)) d2"
      if "run (mf_contents f) (in_schema d) = Some s" "record_file f (d\<lparr>in_schema := s\<rparr>) = Some d2" for s d2
    proof -
      have d2: "d2 = with_rows [row_of f] (d\<lparr>in_schema := s\<rparr>)" using record_file_Some [OF that(2)] by simp
      have schema: "in_schema d2 = s" by (simp add: d2 with_rows_def)
      show ?thesis
        by (rule vc_mono [OF Cons.IH]) (use True that(1) schema in \<open>auto simp: pending_def d2 with_rows_schema with_rows_append\<close>)
    qed
    with True show ?thesis by (auto intro!: vc_bind vc_exec)
  qed
qed

text \<open>The loaded files: every SQL file in name order, no two of a version.\<close>

lemma load_files_spec:
  "load_files K source versions names = Some fs \<Longrightarrow> map mf_name fs = names \<and> distinct (map mf_version fs) \<and> set versions \<inter> set (map mf_version fs) = {}
     \<and> (\<forall>f \<in> set fs. migrationFileName (mf_name f) \<and> mf_version f = before CHR ''_'' (mf_name f)
          \<and> map_of source (mf_name f) = Some (Some (mf_contents f)) \<and> mf_checksum f = hex_encode (sha256 K (mf_contents f)))"
proof (induction K source versions names arbitrary: fs rule: load_files.induct)
  case (2 K source versions name names)
  from "2.prems" obtain contents gs where *: "migrationFileName name" "before CHR ''_'' name \<notin> set versions" "map_of source name = Some (Some contents)"
      "TrimSpace contents \<noteq> []" "load_files K source (before CHR ''_'' name # versions) names = Some gs"
      "fs = \<lparr>mf_name = name, mf_version = before CHR ''_'' name, mf_contents = contents, mf_checksum = hex_encode (sha256 K contents)\<rparr> # gs"
    by (auto simp: Let_def split: if_splits option.splits)
  note IH = "2.IH" [OF _ refl *(2,3) refl *(4,5), simplified *(1), simplified]
  from IH * show ?case by auto
qed simp


text \<open>What the check of the applied files establishes.\<close>

lemma applied_map_of:
  assumes "distinct (map lr_version (ledger_rows d))"
  shows "map_of (readAppliedMigrations d) v = Some r \<longleftrightarrow> r \<in> set (ledger_rows d) \<and> lr_version r = v"
proof -
  have "distinct (map fst (readAppliedMigrations d))" using assms by (simp add: readAppliedMigrations_def comp_def distinct_map)
  then show ?thesis by (auto simp: readAppliedMigrations_def map_of_eq_Some_iff)
qed

lemma applied_rows_match:
  assumes pk: "distinct (map lr_version (ledger_rows d))" and files: "distinct (map mf_version files)"
    and changed: "\<not> list_ex (file_changed (readAppliedMigrations d)) files"
    and missing: "\<not> list_ex (\<lambda>(version, _). version \<notin> set (map mf_version files)) (readAppliedMigrations d)"
  shows "set (ledger_rows d) \<subseteq> row_of ` set files"
    and "f \<in> set files \<Longrightarrow> map_of (readAppliedMigrations d) (mf_version f) = None \<longleftrightarrow> row_of f \<notin> set (ledger_rows d)"
proof -
  have same: "row_of f = r" if "f \<in> set files" "r \<in> set (ledger_rows d)" "lr_version r = mf_version f" for f r
  proof -
    have "map_of (readAppliedMigrations d) (mf_version f) = Some r" using applied_map_of [OF pk] that by simp
    with changed that(1) have "lr_checksum r = mf_checksum f" "lr_name r = mf_name f" by (auto simp: list_ex_iff file_changed_def)
    with that(3) show ?thesis by (simp add: row_of_def)
  qed
  show "set (ledger_rows d) \<subseteq> row_of ` set files"
  proof
    fix r assume r: "r \<in> set (ledger_rows d)"
    then have "(lr_version r, r) \<in> set (readAppliedMigrations d)" by (simp add: readAppliedMigrations_def)
    with missing obtain f where "f \<in> set files" "mf_version f = lr_version r" by (fastforce simp: list_ex_iff)
    with same [of f r] r show "r \<in> row_of ` set files" by auto
  qed
  show "map_of (readAppliedMigrations d) (mf_version f) = None \<longleftrightarrow> row_of f \<notin> set (ledger_rows d)" if "f \<in> set files"
    using same [OF that] applied_map_of [OF pk, of "mf_version f"] row_of_simps(1) [of f] by (metis not_None_eq)
qed

text \<open>
  A migrated installation: the applied rows were rows of the files; the rest of the files ran in order on the schema and were
  recorded behind them; every file is now recorded in a ledger of the expected shape.
\<close>

definition migrated :: "(string \<Rightarrow> 's \<Rightarrow> 's option) \<Rightarrow> migrationFile list \<Rightarrow> 's installation \<Rightarrow> 's installation \<Rightarrow> bool" where
  "migrated run files d d' \<longleftrightarrow> (let rest = filter (\<lambda>f. row_of f \<notin> set (ledger_rows d)) files in
     set (ledger_rows d) \<subseteq> row_of ` set files
     \<and> run_all run (map mf_contents rest) (in_schema d) = Some (in_schema d')
     \<and> ledger_rows d' = ledger_rows d @ map row_of rest
     \<and> (\<exists>t. in_ledger d' = Some t \<and> compatible t))"

lemma create_ledger_simps [simp]: "ledger_rows (create_ledger d) = ledger_rows d" "in_schema (create_ledger d) = in_schema d" "in_ledger (create_ledger d) \<noteq> None"
  by (auto simp: create_ledger_def ledger_rows_def new_ledger_def split: option.splits)

lemma applied_create [simp]: "readAppliedMigrations (create_ledger d) = readAppliedMigrations d"
  by (simp add: readAppliedMigrations_def)

lemma with_rows_simps: "in_ledger d = Some t \<Longrightarrow> ledger_rows (with_rows rs d) = ledger_rows d @ rs"
  "in_ledger d = Some t \<Longrightarrow> in_ledger (with_rows rs d) = Some (t\<lparr>lt_rows := lt_rows t @ rs\<rparr>)"
  by (simp_all add: with_rows_def ledger_rows_def)

lemma migratedI:
  assumes pk: "distinct (map lr_version (ledger_rows d))" and files: "distinct (map mf_version files)"
    and valid: "validateMigrationLedger (create_ledger d)"
    and changed: "\<not> list_ex (file_changed (readAppliedMigrations d)) files"
    and missing: "\<not> list_ex (\<lambda>(version, _). version \<notin> set (map mf_version files)) (readAppliedMigrations d)"
    and ran: "run_all run (map mf_contents (pending (readAppliedMigrations d) files)) (in_schema d) = Some (in_schema d')"
    and d': "d' = with_rows (map row_of (pending (readAppliedMigrations d) files)) ((create_ledger d)\<lparr>in_schema := in_schema d'\<rparr>)"
  shows "migrated run files d d'"
proof -
  let ?rest = "filter (\<lambda>f. row_of f \<notin> set (ledger_rows d)) files"
  have rest: "pending (readAppliedMigrations d) files = ?rest"
    unfolding pending_def by (rule filter_cong) (use applied_rows_match(2) [OF pk files changed missing] in auto)
  obtain t where t: "in_ledger (create_ledger d) = Some t" "compatible t" using valid by (auto simp: validateMigrationLedger_def split: option.splits)
  let ?c = "(create_ledger d)\<lparr>in_schema := in_schema d'\<rparr>"
  have c: "in_ledger ?c = Some t" "ledger_rows ?c = ledger_rows d" using t create_ledger_simps(1) [of d] by (simp_all add: ledger_rows_def)
  have "ledger_rows d' = ledger_rows d @ map row_of ?rest" using with_rows_simps(1) [OF c(1)] c(2) d' rest by metis
  moreover have "in_ledger d' = Some (t\<lparr>lt_rows := lt_rows t @ map row_of ?rest\<rparr>)" using with_rows_simps(2) [OF c(1)] d' rest by metis
  ultimately show ?thesis using applied_rows_match(1) [OF pk files changed missing] ran rest t(2) by (simp add: migrated_def compatible_def)
qed

lemma vc_apply_tx:
  assumes "distinct (map lr_version (ledger_rows d))" "distinct (map mf_version files)"
  shows "vc (apply_tx run files) (\<lambda>_. migrated run files d) d"
  unfolding apply_tx_def
  by (intro vc_bind vc_query vc_exec vc_if vc_raise, clarsimp, rule vc_mono [OF vc_apply_files])
    (use assms in \<open>auto intro!: migratedI\<close>)

text \<open>A second run finds everything applied.\<close>

lemma apply_files_skip: "list_all (\<lambda>f. map_of applied (mf_version f) \<noteq> None) fs \<Longrightarrow> apply_files run applied fs = tx_ret ()"
  by (induction fs) auto

lemma migrated_rows: "migrated run files d d' \<Longrightarrow> set (ledger_rows d') = row_of ` set files"
  by (auto simp: migrated_def Let_def)

lemma migrated_versions:
  assumes "migrated run files d d'" "distinct (map lr_version (ledger_rows d))" "distinct (map mf_version files)"
  shows "distinct (map lr_version (ledger_rows d'))"
proof -
  have "mf_version f \<notin> lr_version ` set (ledger_rows d)" if "f \<in> set files" "row_of f \<notin> set (ledger_rows d)" for f
  proof
    assume "mf_version f \<in> lr_version ` set (ledger_rows d)"
    then obtain r where r: "r \<in> set (ledger_rows d)" "lr_version r = mf_version f" by auto
    with assms(1) obtain g where g: "g \<in> set files" "r = row_of g" by (auto simp: migrated_def Let_def)
    with r(2) have "mf_version g = mf_version f" by simp
    with assms(3) that(1) g(1) have "g = f" by (metis distinct_map inj_onD)
    with g r(1) that(2) show False by simp
  qed
  with assms show ?thesis by (auto simp: migrated_def Let_def comp_def distinct_map_filter) (metis imageI)
qed

lemma apply_tx_again:
  assumes m: "migrated run files d d'" and pk: "distinct (map lr_version (ledger_rows d))" and files: "distinct (map mf_version files)"
  shows "apply_tx run files \<lparr>t_db = d', t_left = None\<rparr> = (Inr (), \<lparr>t_db = d', t_left = None\<rparr>)"
proof -
  obtain t where t: "in_ledger d' = Some t" "compatible t" using m by (auto simp: migrated_def Let_def)
  have fixed: "create_ledger d' = d'" "validateMigrationLedger d'" using t by (simp_all add: create_ledger_def validateMigrationLedger_def)
  note map_of = applied_map_of [OF migrated_versions [OF m pk files]]
  have each: "map_of (readAppliedMigrations d') (mf_version f) = Some (row_of f)" if "f \<in> set files" for f
    using map_of migrated_rows [OF m] that by auto
  have "\<not> list_ex (file_changed (readAppliedMigrations d')) files" using each by (auto simp: list_ex_iff file_changed_def)
  moreover have "\<not> list_ex (\<lambda>(version, _). version \<notin> set (map mf_version files)) (readAppliedMigrations d')"
    using migrated_rows [OF m] by (auto simp: list_ex_iff readAppliedMigrations_def)
  moreover have "apply_files run (readAppliedMigrations d') files = tx_ret ()" using each by (intro apply_files_skip) (auto simp: list_all_iff)
  ultimately show ?thesis
    by (simp add: apply_tx_def tx_bind_def query_def exec_def sql_def tx_ret_def fixed)
qed

section \<open>Properties\<close>

text \<open>
  C32: A run of the migrations is all or nothing, and exact. Whatever fails, the installation is as it was; otherwise every applied row
  belonged to an unchanged file, exactly the files not yet applied ran, in version order, each is recorded, and a second run with
  the same files succeeds and changes nothing. \<open>distinct\<close> is the ledger's primary key.
\<close>

theorem migrations_are_atomic_and_exact:
  assumes "ApplyMigrations K n acquired run source queryTimeout d = (r, d')" "distinct (map lr_version (ledger_rows d))"
  shows "(d' = d \<and> isl r)
     \<or> (\<exists>files. loadMigrationFiles K source = Some files \<and> sorted (map mf_name files) \<and> distinct (map mf_version files) \<and> migrated run files d d'
          \<and> ApplyMigrations K good_net True run source queryTimeout d' = (Inr (), d'))"
proof (cases "d' = d \<and> isl r")
  case False
  with assms(1) obtain files where files: "loadMigrationFiles K source = Some files" "acquired"
      "\<not> (queryTimeout < minMigrationQueryTimeout \<or> maxMigrationQueryTimeout < queryTimeout)"
      and run: "run_tx (PlatformErr ''migration transaction could not start'') (PlatformErr ''migration transaction could not commit'') n (apply_tx run files) d = (r, d')"
    by (auto simp: ApplyMigrations_def split: if_splits option.splits)
  note load = load_files_spec [OF files(1) [unfolded loadMigrationFiles_def]]
  have d: "distinct (map mf_version files)" using load by blast
  have sorted: "sorted (map mf_name files)" using load by (simp add: sql_names_def)
  from vc_run_tx [OF run vc_apply_tx [OF assms(2) d]] False have m: "migrated run files d d'" by blast
  have "ApplyMigrations K good_net True run source queryTimeout d' = (Inr (), d')"
    using files by (simp add: ApplyMigrations_def run_tx_def good_net_def apply_tx_again [OF m assms(2) d])
  with files(1) sorted d m show ?thesis by blast
qed simp

definition example_source :: "(string \<times> string option) list" where
  "example_source = [(''000002_b.sql'', Some ''b''), (''000001_a.sql'', Some ''a''), (''files.go'', Some ''x'')]"

text \<open>The schema of the example is the list of what ran.\<close>

definition example_run :: "string \<Rightarrow> string list \<Rightarrow> string list option" where
  "example_run c s = Some (s @ [c])"

definition example_installation :: "string list installation" where
  "example_installation = \<lparr>in_ledger = Some (new_ledger\<lparr>lt_rows := [\<lparr>lr_version = ''000001'', lr_name = ''000001_a.sql'',
     lr_checksum = hex_encode (sha256 example_crypto ''a'')\<rparr>]\<rparr>), in_schema = [''a'']\<rparr>"

definition example_migration :: "(err + unit) \<times> string list installation" where
  "example_migration = ApplyMigrations example_crypto good_net True example_run example_source minute example_installation"

lemma example_migration_result: "\<not> isl (fst example_migration) \<and> in_schema (snd example_migration) = [''a'', ''b'']"
  by code_simp

theorem migrations_are_atomic_and_exact_witness:
  "in_schema (snd example_migration) = [''a'', ''b'']
     \<and> ApplyMigrations example_crypto good_net True example_run example_source minute (snd example_migration) = (Inr (), snd example_migration)"
proof -
  have "ApplyMigrations example_crypto good_net True example_run example_source minute example_installation = (fst example_migration, snd example_migration)"
    by (simp add: example_migration_def)
  moreover have "distinct (map lr_version (ledger_rows example_installation))" by code_simp
  ultimately show ?thesis using migrations_are_atomic_and_exact example_migration_result by blast
qed

end
