(* ===== verification/Sama_History.thy ===== *)
theory Sama_History
  imports Sama_Net "HOL-Library.Product_Lexorder"
begin

text \<open>
  The audit history of \<^verbatim>\<open>internal/audit/read.go\<close>: which events a member may see, the filters, which narrow that, and the cursor,
  which is bound to the reader, the workspace and the filter. The JSON coding of filters and cursors is an argument.
\<close>

section \<open>Visibility\<close>

record filters =
  fl_Actor :: uuid
  fl_Action :: string
  fl_Target :: uuid

record entry =
  ey_ID :: uuid
  ey_ActorKind :: string
  ey_ActorID :: "uuid option"
  ey_Action :: string
  ey_CreatedAt :: time
  ey_Metadata :: "(string \<times> string) list"

record cursor =
  cu_Workspace :: uuid
  cu_Actor :: uuid
  cu_Filter :: string
  cu_At :: time
  cu_ID :: uuid

definition meta :: "audit_row \<Rightarrow> string \<Rightarrow> string option" where
  "meta a k = map_of (a_metadata a) k"

text \<open>The \<^verbatim>\<open>EXISTS\<close> subqueries over the reader's grants.\<close>

definition may_read :: "db \<Rightarrow> uuid \<Rightarrow> uuid \<Rightarrow> uuid \<Rightarrow> bool" where
  "may_read d scope actor c \<longleftrightarrow> list_ex (\<lambda>g. g_workspace g = scope \<and> g_connection g = c \<and> g_user g = actor \<and> ''read'' \<in> set (g_actions g)) (grants d)"

definition granted_connection :: "db \<Rightarrow> uuid \<Rightarrow> uuid \<Rightarrow> audit_row \<Rightarrow> bool" where
  "granted_connection d scope actor a \<longleftrightarrow> list_ex (\<lambda>g. g_workspace g = scope \<and> g_user g = actor
     \<and> meta a ''connection_id'' = Some (uuid_String (g_connection g)) \<and> ''read'' \<in> set (g_actions g)) (grants d)"

definition granted_operation :: "db \<Rightarrow> uuid \<Rightarrow> uuid \<Rightarrow> audit_row \<Rightarrow> bool" where
  "granted_operation d scope actor a \<longleftrightarrow> list_ex (\<lambda>p. o_workspace p = scope \<and> meta a ''operation_id'' = Some (uuid_String (o_id p))
     \<and> may_read d scope actor (o_connection p)) (operations d)"

definition granted_resource :: "db \<Rightarrow> uuid \<Rightarrow> uuid \<Rightarrow> audit_row \<Rightarrow> bool" where
  "granted_resource d scope actor a \<longleftrightarrow> list_ex (\<lambda>r. r_workspace r = scope \<and> meta a ''resource_id'' = Some (uuid_String (r_id r))
     \<and> may_read d scope actor (r_connection r)) (resources d)"

definition visible :: "db \<Rightarrow> uuid \<Rightarrow> uuid \<Rightarrow> membership_row \<Rightarrow> audit_row \<Rightarrow> bool" where
  "visible d scope actor m a \<longleftrightarrow> a_workspace a = scope
     \<and> (if has_prefix ''connection.'' (a_event_type a) then granted_connection d scope actor a
        else if has_prefix ''operation.'' (a_event_type a) then granted_operation d scope actor a
        else m_role m \<in> {''owner'', ''admin''} \<or> a_actor a = Some (m_user m))
     \<and> (meta a ''resource_id'' = None \<or> granted_resource d scope actor a)"

definition matches :: "filters \<Rightarrow> audit_row \<Rightarrow> bool" where
  "matches f a \<longleftrightarrow> (fl_Actor f = uuid_Nil \<or> a_actor a = Some (fl_Actor f)) \<and> (fl_Action f = [] \<or> a_event_type a = fl_Action f)
     \<and> (fl_Target f = uuid_Nil \<or> Some (uuid_String (fl_Target f)) \<in> {meta a ''connection_id'', meta a ''operation_id'', meta a ''resource_id'', meta a ''member_id''})"

definition event_key :: "audit_row \<Rightarrow> time \<times> uuid" where
  "event_key a = (a_created_at a, a_id a)"

text \<open>The statement: newest first, strictly before the cursor where there is one.\<close>

definition history_rows :: "db \<Rightarrow> uuid \<Rightarrow> uuid \<Rightarrow> filters \<Rightarrow> (time \<times> uuid) option \<Rightarrow> audit_row list" where
  "history_rows d actor scope f after = (case (open_workspace d scope, live_member d scope actor) of
       (Some _, Some m) \<Rightarrow> rev (sort_key event_key (filter (\<lambda>a. visible d scope actor m a \<and> matches f a
          \<and> (case after of None \<Rightarrow> True | Some k \<Rightarrow> event_key a < k)) (audit_events d)))
     | _ \<Rightarrow> [])"

section \<open>List\<close>

definition entry_of :: "audit_row \<Rightarrow> entry" where
  "entry_of a = \<lparr>ey_ID = a_id a, ey_ActorKind = a_actor_kind a, ey_ActorID = a_actor a, ey_Action = a_event_type a, ey_CreatedAt = a_created_at a,
     ey_Metadata = filter (\<lambda>(field, _). case metadataFields (a_event_type a) of None \<Rightarrow> False | Some allowed \<Rightarrow> field \<in> set allowed) (a_metadata a)\<rparr>"

text \<open>
  JSON coding: of the filters, of a cursor, and back into a cursor that keeps what the text leaves out (\<open>None\<close>: a syntax error, an
  unknown field or a second value).
\<close>

record coding =
  cd_filters :: "filters \<Rightarrow> string"
  cd_enc :: "cursor \<Rightarrow> string"
  cd_dec :: "string \<Rightarrow> cursor \<Rightarrow> cursor option"

definition valid_query :: "filters \<Rightarrow> int \<Rightarrow> bool" where
  "valid_query f limit \<longleftrightarrow> \<not> (limit < 1 \<or> limit > 200 \<or> fl_Action f \<noteq> [] \<and> \<not> safeCode (fl_Action f) \<or> fl_Actor f \<noteq> uuid_Nil \<and> \<not> isEntityID (fl_Actor f)
     \<or> fl_Target f \<noteq> uuid_Nil \<and> \<not> isEntityID (fl_Target f))"

definition filter_digest :: "crypto \<Rightarrow> coding \<Rightarrow> filters \<Rightarrow> string" where
  "filter_digest K C f = hex_encode (sha256 K (cd_filters C f))"

definition first_cursor :: "crypto \<Rightarrow> coding \<Rightarrow> uuid \<Rightarrow> uuid \<Rightarrow> filters \<Rightarrow> cursor" where
  "first_cursor K C actor scope f = \<lparr>cu_Workspace = scope, cu_Actor = actor, cu_Filter = filter_digest K C f, cu_At = 0, cu_ID = uuid_Nil\<rparr>"

definition read_cursor :: "crypto \<Rightarrow> coding \<Rightarrow> uuid \<Rightarrow> uuid \<Rightarrow> filters \<Rightarrow> string \<Rightarrow> cursor option" where
  "read_cursor K C actor scope f position =
     (if position = [] then Some (first_cursor K C actor scope f)
      else if length position > 1024 then None
      else (case b64_dec K position of None \<Rightarrow> None
        | Some text \<Rightarrow> (case cd_dec C text (first_cursor K C actor scope f) of None \<Rightarrow> None
          | Some c \<Rightarrow> if cu_Workspace c \<noteq> scope \<or> cu_Actor c \<noteq> actor \<or> cu_Filter c \<noteq> filter_digest K C f \<or> \<not> isEntityID (cu_ID c) \<or> cu_At c = 0
              then None else Some c)))"

definition history_List :: "crypto \<Rightarrow> coding \<Rightarrow> net \<Rightarrow> uuid \<Rightarrow> uuid \<Rightarrow> filters \<Rightarrow> string \<Rightarrow> int \<Rightarrow> db \<Rightarrow> err + (entry list \<times> string option)" where
  "history_List K C n actor scope f position limit d =
     (if \<not> valid_query f limit then Inl ReadErrInvalid
      else (case read_cursor K C actor scope f position of
          None \<Rightarrow> Inl ReadErrInvalid
        | Some after \<Rightarrow>
            (case run_read ReadErrStore n (query ReadErrStore (\<lambda>d. take (nat limit + 1)
                (history_rows d actor scope f (if cu_ID after = uuid_Nil then None else Some (cu_At after, cu_ID after))))) d of
                Inl err \<Rightarrow> Inl err
              | Inr rows \<Rightarrow> (let data = map entry_of rows in
                  if length data > nat limit then
                    (let last = data ! (nat limit - 1) in
                     Inr (take (nat limit) data, Some (b64_enc K (cd_enc C (after\<lparr>cu_At := ey_CreatedAt last, cu_ID := ey_ID last\<rparr>)))))
                  else Inr (data, None)))))"

section \<open>Following the cursors\<close>

definition history_ok :: "db \<times> uuid \<times> uuid \<times> filters \<Rightarrow> bool" where
  "history_ok s = (case s of (d, _) \<Rightarrow> distinct (map a_id (audit_events d)))"

definition history_after :: "db \<times> uuid \<times> uuid \<times> filters \<Rightarrow> (time \<times> uuid) option \<Rightarrow> audit_row list" where
  "history_after s c = (case s of (d, actor, scope, f) \<Rightarrow> history_rows d actor scope f c)"

lemma history_rows_set: "a \<in> set (history_rows d actor scope f c) \<Longrightarrow>
   a \<in> set (audit_events d) \<and> matches f a \<and> (case c of None \<Rightarrow> True | Some k \<Rightarrow> event_key a < k)
   \<and> (\<exists>m. live_member d scope actor = Some m \<and> open_workspace d scope \<noteq> None \<and> visible d scope actor m a)"
  by (cases "open_workspace d scope"; cases "live_member d scope actor") (auto simp: history_rows_def split: option.splits)

interpretation history: keyset history_ok history_after event_key "(>)"
proof
  fix s c
  assume ok: "history_ok s"
  obtain d actor scope f where s: "s = (d, actor, scope, f)" by (metis prod_cases4)
  have dist: "distinct (map event_key (filter P (audit_events d)))" for P
  proof -
    have "distinct (map a_id (filter P (audit_events d)))" using ok s by (simp add: history_ok_def distinct_map_filter)
    then show ?thesis by (auto simp: distinct_map inj_on_def event_key_def)
  qed
  show "sorted_wrt (\<lambda>a b. event_key b < event_key a) (history_after s c)"
    using sort_key_strict [OF dist] by (simp add: s history_after_def history_rows_def sorted_wrt_rev split: option.splits)
  fix r
  assume r: "r \<in> set (history_after s c)"
  then show "history_after s (Some (event_key r)) = filter (\<lambda>x. event_key x < event_key r) (history_after s c)"
    by (auto simp: s history_after_def history_rows_def filter_sort rev_filter [symmetric] split: option.splits
        intro!: arg_cong [of _ _ "sort_key event_key"] filter_cong arg_cong [of _ _ rev])
qed auto

text \<open>The cursor of a listed event as text, and what the coding must do with it.\<close>

definition cursor_at :: "crypto \<Rightarrow> coding \<Rightarrow> uuid \<Rightarrow> uuid \<Rightarrow> filters \<Rightarrow> time \<times> uuid \<Rightarrow> cursor" where
  "cursor_at K C actor scope f k = (first_cursor K C actor scope f)\<lparr>cu_At := fst k, cu_ID := snd k\<rparr>"

definition position_at :: "crypto \<Rightarrow> coding \<Rightarrow> uuid \<Rightarrow> uuid \<Rightarrow> filters \<Rightarrow> time \<times> uuid \<Rightarrow> string" where
  "position_at K C actor scope f k = b64_enc K (cd_enc C (cursor_at K C actor scope f k))"

definition coded :: "crypto \<Rightarrow> coding \<Rightarrow> uuid \<Rightarrow> uuid \<Rightarrow> filters \<Rightarrow> audit_row \<Rightarrow> bool" where
  "coded K C actor scope f a \<longleftrightarrow> (let c = cursor_at K C actor scope f (event_key a); p = position_at K C actor scope f (event_key a) in
     p \<noteq> [] \<and> length p \<le> 1024 \<and> b64_dec K p = Some (cd_enc C c) \<and> cd_dec C (cd_enc C c) (first_cursor K C actor scope f) = Some c
     \<and> isEntityID (a_id a) \<and> a_created_at a \<noteq> 0)"

definition history_page :: "crypto \<Rightarrow> coding \<Rightarrow> uuid \<Rightarrow> uuid \<Rightarrow> filters \<Rightarrow> int \<Rightarrow> db \<Rightarrow> string option \<Rightarrow> entry list \<times> string option" where
  "history_page K C actor scope f limit d c =
     (case history_List K C good_net actor scope f (case c of None \<Rightarrow> [] | Some p \<Rightarrow> p) limit d of Inl _ \<Rightarrow> ([], None) | Inr page \<Rightarrow> page)"

lemma read_cursor_coded:
  "coded K C actor scope f a \<Longrightarrow> read_cursor K C actor scope f (position_at K C actor scope f (event_key a)) = Some (cursor_at K C actor scope f (event_key a))"
  by (auto simp: read_cursor_def coded_def Let_def cursor_at_def first_cursor_def event_key_def)

lemma isEntityID_not_Nil: "isEntityID u \<Longrightarrow> u \<noteq> uuid_Nil"
  by (auto simp: isEntityID_iff uuid_Nil_def uuid_version_def)

lemma history_List_live:
  assumes "valid_query f limit" "read_cursor K C actor scope f position = Some after"
    "after = cursor_at K C actor scope f (cu_At after, cu_ID after)"
  shows "history_List K C good_net actor scope f position limit d =
     (let q = paginate (nat limit) event_key (history_rows d actor scope f (if cu_ID after = uuid_Nil then None else Some (cu_At after, cu_ID after))) in
      Inr (map entry_of (fst q), map_option (position_at K C actor scope f) (snd q)))"
proof -
  let ?rows = "history_rows d actor scope f (if cu_ID after = uuid_Nil then None else Some (cu_At after, cu_ID after))"
  let ?n = "nat limit"
  have limit: "0 < ?n" using assms(1) by (simp add: valid_query_def)
  have moved: "after\<lparr>cu_At := t, cu_ID := i\<rparr> = cursor_at K C actor scope f (t, i)" for t i
    by (subst assms(3)) (simp add: cursor_at_def first_cursor_def)
  have nth: "map entry_of (take (?n + 1) ?rows) ! (?n - 1) = entry_of (take (?n + 1) ?rows ! (?n - 1))" if "?n < length (take (?n + 1) ?rows)"
    using that limit by (intro nth_map) simp
  show ?thesis
    using assms(1,2) limit
    by (auto simp: history_List_def run_read_live query_live Let_def paginate_def moved nth position_at_def event_key_def entry_of_def take_map min_def simp del: One_nat_def)
qed

lemma history_page_key:
  assumes "valid_query f limit" "\<forall>a \<in> set (history_rows d actor scope f None). coded K C actor scope f a"
    and "k = None \<or> (\<exists>a \<in> set (history_rows d actor scope f None). k = Some (event_key a))"
  shows "history_page K C actor scope f limit d (map_option (position_at K C actor scope f) k) =
     (let q = paginate (nat limit) event_key (history_after (d, actor, scope, f) k) in (map entry_of (fst q), map_option (position_at K C actor scope f) (snd q)))"
proof (cases k)
  case None
  have "read_cursor K C actor scope f [] = Some (first_cursor K C actor scope f)" by (simp add: read_cursor_def)
  from history_List_live [OF assms(1) this, of d] None show ?thesis
    by (simp add: history_page_def first_cursor_def cursor_at_def history_after_def Let_def)
next
  case (Some key)
  with assms(3) obtain a where a: "a \<in> set (history_rows d actor scope f None)" "key = event_key a" by auto
  with assms(2) have c: "coded K C actor scope f a" by blast
  have at: "cu_At (cursor_at K C actor scope f x) = fst x" "cu_ID (cursor_at K C actor scope f x) = snd x" for x by (simp_all add: cursor_at_def)
  have id: "a_id a \<noteq> uuid_Nil" using c by (intro isEntityID_not_Nil) (simp add: coded_def Let_def)
  from history_List_live [OF assms(1) read_cursor_coded [OF c], of d] id Some a(2) show ?thesis
    by (simp add: history_page_def at history_after_def Let_def event_key_def)
qed

lemma history_after_subset: "set (history_rows d actor scope f k) \<subseteq> set (history_rows d actor scope f None)"
  by (auto simp: history_rows_def split: option.splits)

lemma paginate_next_row: "snd (paginate limit key rows) = Some k \<Longrightarrow> \<exists>r \<in> set rows. k = key r"
proof -
  assume "snd (paginate limit key rows) = Some k"
  then have "limit < length rows" "k = key (take (limit + 1) rows ! (limit - 1))" by (auto simp: paginate_next split: if_splits)
  moreover then have "take (limit + 1) rows ! (limit - 1) \<in> set (take (limit + 1) rows)" by (intro nth_mem) simp
  ultimately show ?thesis by (blast dest: in_set_takeD)
qed

lemma history_walk:
  assumes "valid_query f limit" "\<forall>a \<in> set (history_rows d actor scope f None). coded K C actor scope f a"
    and "k = None \<or> (\<exists>a \<in> set (history_rows d actor scope f None). k = Some (event_key a))"
  shows "walk n (history_page K C actor scope f limit d) (map_option (position_at K C actor scope f) k) =
     map (map entry_of) (walk n (\<lambda>k. paginate (nat limit) event_key (history_after (d, actor, scope, f) k)) k)"
  using assms(3)
proof (induction n arbitrary: k)
  case (Suc n)
  let ?q = "paginate (nat limit) event_key (history_after (d, actor, scope, f) k)"
  note page = history_page_key [OF assms(1,2) Suc.prems]
  show ?case
  proof (cases "snd ?q")
    case None
    then show ?thesis using page by (auto simp: Let_def split: prod.splits)
  next
    case (Some key)
    then obtain a where "a \<in> set (history_rows d actor scope f None)" "key = event_key a"
      using paginate_next_row [OF Some] history_after_subset [of d actor scope f k] by (auto simp: history_after_def)
    then have "walk n (history_page K C actor scope f limit d) (map_option (position_at K C actor scope f) (Some key)) =
        map (map entry_of) (walk n (\<lambda>k. paginate (nat limit) event_key (history_after (d, actor, scope, f) k)) (Some key))"
      by (intro Suc.IH) auto
    with Some page show ?thesis by (auto simp: Let_def split: prod.splits)
  qed
qed simp

section \<open>Properties\<close>


definition example_event :: "nat \<Rightarrow> audit_row" where
  "example_event i = \<lparr>a_id = v7 i, a_workspace = v7 1, a_actor_kind = ''user'', a_actor = Some (v7 4), a_event_type = ''auth.login'',
     a_request = ''req'', a_metadata = [], a_created_at = minute\<rparr>"

definition example_history :: db where
  "example_history = empty_db\<lparr>users := [\<lparr>u_id = v7 4, u_issuer = ''iss'', u_subject = ''sub'', u_display_name = ''n'', u_disabled_at = None\<rparr>],
     workspaces := [\<lparr>w_id = v7 1, w_name = ''w'', w_policy_version = 1, w_closed_at = None, w_queue_limit = 10, w_audit_retention_days = 180\<rparr>],
     memberships := [\<lparr>m_workspace = v7 1, m_user = v7 4, m_role = ''viewer'', m_version = 1\<rparr>],
     audit_events := [example_event 31, example_event 33, example_event 32]\<rparr>"

definition example_filters :: filters where
  "example_filters = \<lparr>fl_Actor = uuid_Nil, fl_Action = [], fl_Target = uuid_Nil\<rparr>"

text \<open>A coding that is exact on the three events.\<close>

definition example_coding :: coding where
  "example_coding = \<lparr>cd_filters = (\<lambda>_. ''f''), cd_enc = (\<lambda>c. if cu_ID c = v7 31 then ''1'' else if cu_ID c = v7 32 then ''2'' else ''3''),
     cd_dec = (\<lambda>t c. Some (c\<lparr>cu_At := minute, cu_ID := if t = ''1'' then v7 31 else if t = ''2'' then v7 32 else v7 33\<rparr>))\<rparr>"

abbreviation "example_walk \<equiv> walk 4 (history_page example_crypto example_coding (v7 4) (v7 1) example_filters 2 example_history) None"

lemma example_history_rows: "map a_id (history_rows example_history (v7 4) (v7 1) example_filters None) = [v7 33, v7 32, v7 31]"
  by code_simp

lemma example_history_coded:
  "list_all (coded example_crypto example_coding (v7 4) (v7 1) example_filters) (history_rows example_history (v7 4) (v7 1) example_filters None)"
  by code_simp


end
