(* ===== verification/Sama_Config.thy ===== *)
theory Sama_Config
  imports Sama_Net
begin

text \<open>
  The process configuration of \<^verbatim>\<open>internal/platform/config.go\<close>: reading the environment once, with a value or an error code.

  The environment and the files are functions. \<^verbatim>\<open>url.Parse\<close> and \<^verbatim>\<open>time.ParseDuration\<close> are arguments, the latter in
  nanoseconds; the other functions of the standard library are written out.
\<close>

section \<open>Addresses\<close>

text \<open>\<^verbatim>\<open>strings.LastIndexByte\<close> as the parts before and behind the last occurrence.\<close>

definition cut_last :: "char \<Rightarrow> string \<Rightarrow> (string \<times> string) option" where
  "cut_last c s = (if c \<in> set s then Some (let tail = before c (rev s) in (rev (drop (Suc (length tail)) (rev s)), rev tail)) else None)"

text \<open>\<^verbatim>\<open>net.SplitHostPort\<close>\<close>

definition SplitHostPort :: "string \<Rightarrow> (string \<times> string) option" where
  "SplitHostPort s = (case cut_last CHR '':'' s of None \<Rightarrow> None
     | Some (front, port) \<Rightarrow>
        if front \<noteq> [] \<and> hd front = CHR ''['' then
          (let inner = before CHR '']'' (tl front) in
           if length inner + 2 \<noteq> length front \<or> last front \<noteq> CHR '']'' then None
           else if CHR ''['' \<in> set inner \<or> CHR ''['' \<in> set port \<or> CHR '']'' \<in> set port then None else Some (inner, port))
        else if CHR '':'' \<in> set front \<or> CHR ''['' \<in> set s \<or> CHR '']'' \<in> set s then None else Some (front, port))"

definition validHostname :: "string \<Rightarrow> bool" where
  "validHostname v \<longleftrightarrow> \<not> (list_ex (\<lambda>c. c \<in> {CHR '' '', CHR ''/'', CHR 0x5C, CHR ''*'', CHR ''?''}) v \<or> v \<noteq> [] \<and> (hd v = CHR ''.'' \<or> last v = CHR ''.''))"

text \<open>\<^verbatim>\<open>net.ParseIP\<close> accepts what \<^verbatim>\<open>netip.ParseAddr\<close> does, without a zone.\<close>

definition is_ip :: "string \<Rightarrow> bool" where
  "is_ip s = (case ParseAddr s of None \<Rightarrow> False | Some a \<Rightarrow> Zone a = [])"

definition port_ok :: "string \<Rightarrow> bool" where
  "port_ok s = (case ParseInt64 s of None \<Rightarrow> False | Some p \<Rightarrow> 1 \<le> p \<and> p \<le> 65535)"

definition validListenAddress :: "string \<Rightarrow> bool" where
  "validListenAddress value = (case SplitHostPort value of None \<Rightarrow> False
     | Some (host, port) \<Rightarrow> port \<noteq> [] \<and> CHR '':'' \<notin> set port \<and> port_ok port \<and> (host = [] \<or> is_ip host \<or> validHostname host))"

text \<open>A parsed URL with its host as written.\<close>

record located_url = url +
  lu_Host :: string

record libs =
  lb_url :: "string \<Rightarrow> located_url option"
  lb_duration :: "string \<Rightarrow> int option"

definition validDatabaseURL :: "libs \<Rightarrow> string \<Rightarrow> bool" where
  "validDatabaseURL L value = (case lb_url L (TrimSpace value) of None \<Rightarrow> False
     | Some u \<Rightarrow> (ur_Scheme u = ''postgres'' \<or> ur_Scheme u = ''postgresql'') \<and> lu_Host u \<noteq> [] \<and> (ur_Port u = [] \<or> port_ok (ur_Port u)))"

definition parseOrigin :: "libs \<Rightarrow> string \<Rightarrow> located_url option" where
  "parseOrigin L value = (case lb_url L (TrimSpace value) of None \<Rightarrow> None
     | Some u \<Rightarrow>
        if ur_Opaque u \<noteq> [] \<or> ur_User u \<or> lu_Host u = [] \<or> ur_RawQuery u \<noteq> [] \<or> ur_ForceQuery u \<or> ur_Fragment u \<noteq> [] then None
        else if ur_Scheme u \<noteq> ''http'' \<and> ur_Scheme u \<noteq> ''https'' then None
        else if ur_Path u \<noteq> [] \<and> ur_Path u \<noteq> ''/'' then None
        else if ur_Hostname u = [] then None
        else if ur_Port u \<noteq> [] \<and> \<not> port_ok (ur_Port u) then None
        else Some (u\<lparr>ur_Path := []\<rparr>))"

section \<open>Settings\<close>

type_synonym lookup = "string \<Rightarrow> string option"

definition databaseURLSetting :: "libs \<Rightarrow> lookup \<Rightarrow> (string \<Rightarrow> string option) \<Rightarrow> string \<Rightarrow> string \<Rightarrow> string \<Rightarrow> string \<Rightarrow> string + string" where
  "databaseURLSetting L env readFile directKey fileKey invalidCode fileErrorCode = (case env directKey of
       Some value \<Rightarrow> if \<not> validDatabaseURL L value then Inl invalidCode else Inr (TrimSpace value)
     | None \<Rightarrow> (case env fileKey of
         None \<Rightarrow> Inr []
       | Some path \<Rightarrow>
          if TrimSpace path = [] then Inl fileErrorCode
          else (case readFile (TrimSpace path) of
              None \<Rightarrow> Inl fileErrorCode
            | Some contents \<Rightarrow> if \<not> validDatabaseURL L (TrimSpace contents) then Inl invalidCode else Inr (TrimSpace contents))))"

definition databaseURL :: "libs \<Rightarrow> lookup \<Rightarrow> (string \<Rightarrow> string option) \<Rightarrow> string + string" where
  "databaseURL L env readFile = databaseURLSetting L env readFile ''SAMA_DATABASE_URL'' ''SAMA_DATABASE_URL_FILE'' ''invalid_database_url'' ''database_url_file_unreadable''"

definition migrationDatabaseURL :: "libs \<Rightarrow> lookup \<Rightarrow> (string \<Rightarrow> string option) \<Rightarrow> string + string" where
  "migrationDatabaseURL L env readFile = databaseURLSetting L env readFile ''SAMA_MIGRATION_DATABASE_URL'' ''SAMA_MIGRATION_DATABASE_URL_FILE''
     ''invalid_migration_database_url'' ''migration_database_url_file_unreadable''"

definition millisecond :: time where
  "millisecond = 1000000"

definition boundedDurationSetting :: "libs \<Rightarrow> lookup \<Rightarrow> string \<Rightarrow> int \<Rightarrow> int \<Rightarrow> int \<Rightarrow> string + int" where
  "boundedDurationSetting L env name fallback minimum maximum = (case env name of None \<Rightarrow> Inr fallback
     | Some value \<Rightarrow> (case lb_duration L (TrimSpace value) of None \<Rightarrow> Inl ''invalid_timeout''
        | Some duration \<Rightarrow> if duration < minimum \<or> duration > maximum then Inl ''invalid_timeout'' else Inr duration))"

definition durationSetting :: "libs \<Rightarrow> lookup \<Rightarrow> string \<Rightarrow> int \<Rightarrow> string + int" where
  "durationSetting L env name fallback = boundedDurationSetting L env name fallback millisecond (10 * minute)"

definition integerSetting :: "lookup \<Rightarrow> string \<Rightarrow> int \<Rightarrow> int \<Rightarrow> int \<Rightarrow> string + int" where
  "integerSetting env name fallback minimum maximum = (case env name of None \<Rightarrow> Inr fallback
     | Some value \<Rightarrow> (case ParseInt64 (TrimSpace value) of None \<Rightarrow> Inl ''invalid_budget''
        | Some parsed \<Rightarrow> if parsed < minimum \<or> parsed > maximum then Inl ''invalid_budget'' else Inr parsed))"

text \<open>\<^verbatim>\<open>if err != nil { return ..., err }\<close>\<close>

definition andThen :: "'e + 'a \<Rightarrow> ('a \<Rightarrow> 'e + 'b) \<Rightarrow> 'e + 'b" where
  "andThen m f = (case m of Inl e \<Rightarrow> Inl e | Inr x \<Rightarrow> f x)"

record timeouts =
  to_ReadHeader :: int
  to_Read :: int
  to_Write :: int
  to_Idle :: int
  to_Shutdown :: int
  to_MigrationQuery :: int

definition loadTimeouts :: "libs \<Rightarrow> lookup \<Rightarrow> string + timeouts" where
  "loadTimeouts L env =
     andThen (durationSetting L env ''SAMA_READ_HEADER_TIMEOUT'' (5 * second)) (\<lambda>readHeader.
     andThen (durationSetting L env ''SAMA_READ_TIMEOUT'' (10 * second)) (\<lambda>read.
     andThen (durationSetting L env ''SAMA_WRITE_TIMEOUT'' (10 * second)) (\<lambda>write.
     andThen (durationSetting L env ''SAMA_IDLE_TIMEOUT'' (60 * second)) (\<lambda>idle.
     andThen (durationSetting L env ''SAMA_SHUTDOWN_TIMEOUT'' (10 * second)) (\<lambda>shutdown.
     andThen (boundedDurationSetting L env ''SAMA_MIGRATION_QUERY_TIMEOUT'' (30 * minute) second (24 * hour)) (\<lambda>migrationQuery.
     Inr \<lparr>to_ReadHeader = readHeader, to_Read = read, to_Write = write, to_Idle = idle, to_Shutdown = shutdown, to_MigrationQuery = migrationQuery\<rparr>))))))"

record budgets =
  bu_ProviderCallingProcesses :: int
  bu_WorkerCount :: int
  bu_ProviderRequestsPerConnection :: int

definition loadBudgets :: "lookup \<Rightarrow> string + budgets" where
  "loadBudgets env =
     andThen (integerSetting env ''SAMA_WORKER_COUNT'' 4 1 32) (\<lambda>workers.
     andThen (integerSetting env ''SAMA_PROVIDER_REQUESTS_PER_CONNECTION'' 2 1 16) (\<lambda>providerRequests.
     andThen (integerSetting env ''SAMA_PROVIDER_CALLING_PROCESSES'' 1 0 1) (\<lambda>callers.
     Inr \<lparr>bu_ProviderCallingProcesses = callers, bu_WorkerCount = workers, bu_ProviderRequestsPerConnection = providerRequests\<rparr>)))"

text \<open>\<^verbatim>\<open>netip.ParsePrefix\<close>, and \<^verbatim>\<open>prefix != prefix.Masked()\<close>.\<close>

definition ParsePrefix :: "string \<Rightarrow> ip_prefix option" where
  "ParsePrefix s = (case cut_last CHR ''/'' s of None \<Rightarrow> None
     | Some (address, bits) \<Rightarrow> (case ParseAddr address of None \<Rightarrow> None
        | Some a \<Rightarrow>
           if Zone a \<noteq> [] then None
           else if length bits > 1 \<and> \<not> char_between CHR ''1'' CHR ''9'' (hd bits) then None
           else (case (ParseInt64 bits, a) of
               (Some n, V4 w) \<Rightarrow> if n < 0 \<or> n > 32 then None else Some (P4 w (nat n))
             | (Some n, V6 w z) \<Rightarrow> if n < 0 \<or> n > 128 then None else Some (P6 w (nat n))
             | _ \<Rightarrow> None)))"

fun masked :: "ip_prefix \<Rightarrow> bool" where
  "masked (P4 w n) = (push_bit (32 - n) (drop_bit (32 - n) w) = w)"
| "masked (P6 w n) = (push_bit (128 - n) (drop_bit (128 - n) w) = w)"

fun proxy_list :: "string list \<Rightarrow> string + ip_prefix list" where
  "proxy_list [] = Inr []"
| "proxy_list (part # parts) = (case ParsePrefix (TrimSpace part) of None \<Rightarrow> Inl ''invalid_trusted_proxy''
     | Some p \<Rightarrow> if \<not> masked p then Inl ''invalid_trusted_proxy'' else andThen (proxy_list parts) (\<lambda>ps. Inr (p # ps)))"

definition loadTrustedProxies :: "lookup \<Rightarrow> string + ip_prefix list" where
  "loadTrustedProxies env = (case env ''SAMA_TRUSTED_PROXY_RANGES'' of None \<Rightarrow> Inr []
     | Some value \<Rightarrow> if TrimSpace value = [] then Inr [] else proxy_list (Split CHR '','' value))"

text \<open>\<^verbatim>\<open>^[a-z][a-z0-9_]{0,31}/[a-z][a-z0-9_]{0,31}:[a-z][a-z0-9_.]{0,63}$\<close>\<close>

definition word_like :: "string \<Rightarrow> nat \<Rightarrow> string \<Rightarrow> bool" where
  "word_like extra n s = (case s of [] \<Rightarrow> False
     | c # cs \<Rightarrow> char_between CHR ''a'' CHR ''z'' c \<and> length cs \<le> n
         \<and> list_all (\<lambda>x. char_between CHR ''a'' CHR ''z'' x \<or> digit x \<or> x \<in> set extra) cs)"

definition mutation_key :: "string \<Rightarrow> bool" where
  "mutation_key key = (let family = before CHR ''/'' key; rest = drop (Suc (length family)) key; kind = before CHR '':'' rest; action = drop (Suc (length kind)) rest in
     word_like ''_'' 31 family \<and> word_like ''_'' 31 kind \<and> word_like ''_.'' 63 action)"

fun mutation_list :: "string list \<Rightarrow> string list \<Rightarrow> string + string list" where
  "mutation_list mutations [] = Inr mutations"
| "mutation_list mutations (key # keys) = (if \<not> mutation_key key \<or> key \<in> set mutations \<or> length mutations \<ge> 32 then Inl ''invalid_mutation_policy''
     else mutation_list (mutations @ [key]) keys)"

definition loadMutations :: "lookup \<Rightarrow> string + string list" where
  "loadMutations env = (let text = (case env ''SAMA_ENABLED_MUTATIONS'' of None \<Rightarrow> [] | Some v \<Rightarrow> v) in
     if length text > 4096 then Inl ''invalid_mutation_policy'' else if text = [] then Inr [] else mutation_list [] (Split CHR '','' text))"

section \<open>LoadFrom\<close>

record config =
  cf_MutationSwitches :: "string list"
  cf_WorkersEnabled :: bool
  cf_KeyringFile :: string
  cf_AssetsDir :: string
  cf_HTTPAddr :: string
  cf_PublicOrigin :: located_url
  cf_DatabaseURL :: string
  cf_MigrationURL :: string
  cf_Timeouts :: timeouts
  cf_Budgets :: budgets
  cf_TrustedProxies :: "ip_prefix list"

definition or_default :: "'a option \<Rightarrow> 'a \<Rightarrow> 'a" where
  "or_default v x = (case v of None \<Rightarrow> x | Some y \<Rightarrow> y)"

definition LoadFrom :: "libs \<Rightarrow> lookup \<Rightarrow> (string \<Rightarrow> string option) \<Rightarrow> string + config" where
  "LoadFrom L env readFile =
     (let address = or_default (env ''SAMA_HTTP_ADDR'') ''127.0.0.1:8080'' in
      if \<not> validListenAddress address then Inl ''invalid_http_addr''
      else (case parseOrigin L (or_default (env ''SAMA_PUBLIC_ORIGIN'') ''http://127.0.0.1:8080'') of
          None \<Rightarrow> Inl ''invalid_public_origin''
        | Some origin \<Rightarrow>
          andThen (databaseURL L env readFile) (\<lambda>database.
          andThen (migrationDatabaseURL L env readFile) (\<lambda>migration.
          andThen (loadTimeouts L env) (\<lambda>timeouts.
          andThen (loadBudgets env) (\<lambda>budgets.
          andThen (loadTrustedProxies env) (\<lambda>proxies.
          andThen (integerSetting env ''SAMA_WORKERS_ENABLED'' 0 0 1) (\<lambda>enabled.
          if enabled = 1 \<and> (database = [] \<or> bu_ProviderCallingProcesses budgets \<noteq> 1 \<or> to_Shutdown timeouts > minute) then Inl ''invalid_budget''
          else andThen (loadMutations env) (\<lambda>mutations.
            Inr \<lparr>cf_MutationSwitches = mutations, cf_WorkersEnabled = (enabled = 1), cf_KeyringFile = or_default (env ''SAMA_KEYRING_FILE'') [],
              cf_AssetsDir = or_default (env ''SAMA_ASSET_DIR'') [], cf_HTTPAddr = address, cf_PublicOrigin = origin, cf_DatabaseURL = database,
              cf_MigrationURL = migration, cf_Timeouts = timeouts, cf_Budgets = budgets, cf_TrustedProxies = proxies\<rparr>)))))))))"

definition configurationCodes :: "string list" where
  "configurationCodes = [''invalid_http_addr'', ''invalid_public_origin'', ''invalid_database_url'', ''invalid_migration_database_url'',
     ''database_url_file_unreadable'', ''migration_database_url_file_unreadable'', ''invalid_timeout'', ''invalid_budget'', ''invalid_trusted_proxy'',
     ''invalid_mutation_policy'']"

section \<open>Well-formed configurations\<close>

lemma andThen_Inr [simp]: "andThen m f = Inr y \<longleftrightarrow> (\<exists>x. m = Inr x \<and> f x = Inr y)"
  by (auto simp: andThen_def split: sum.splits)

lemma andThen_Inl: "andThen m f = Inl e \<longleftrightarrow> m = Inl e \<or> (\<exists>x. m = Inr x \<and> f x = Inl e)"
  by (auto simp: andThen_def split: sum.splits)

lemma integerSetting_Inr: "integerSetting env name fallback a b = Inr n \<Longrightarrow> a \<le> fallback \<Longrightarrow> fallback \<le> b \<Longrightarrow> a \<le> n \<and> n \<le> b"
  by (auto simp: integerSetting_def split: option.splits if_splits)

lemma boundedDurationSetting_Inr: "boundedDurationSetting L env name fallback a b = Inr n \<Longrightarrow> a \<le> fallback \<Longrightarrow> fallback \<le> b \<Longrightarrow> a \<le> n \<and> n \<le> b"
  by (auto simp: boundedDurationSetting_def split: option.splits if_splits)

definition timeouts_ok :: "timeouts \<Rightarrow> bool" where
  "timeouts_ok t \<longleftrightarrow> list_all (\<lambda>x. millisecond \<le> x \<and> x \<le> 10 * minute) [to_ReadHeader t, to_Read t, to_Write t, to_Idle t, to_Shutdown t]
     \<and> second \<le> to_MigrationQuery t \<and> to_MigrationQuery t \<le> 24 * hour"

definition budgets_ok :: "budgets \<Rightarrow> bool" where
  "budgets_ok b \<longleftrightarrow> 1 \<le> bu_WorkerCount b \<and> bu_WorkerCount b \<le> 32 \<and> 1 \<le> bu_ProviderRequestsPerConnection b \<and> bu_ProviderRequestsPerConnection b \<le> 16
     \<and> bu_ProviderCallingProcesses b \<in> {0, 1}"

lemma durationSetting_Inr: "durationSetting L env name fallback = Inr n \<Longrightarrow> second \<le> fallback \<Longrightarrow> fallback \<le> minute \<Longrightarrow> millisecond \<le> n \<and> n \<le> 10 * minute"
  unfolding durationSetting_def by (drule boundedDurationSetting_Inr) (simp_all add: time_units millisecond_def)

lemma loadTimeouts_ok:
  assumes "loadTimeouts L env = Inr t"
  shows "timeouts_ok t"
proof -
  from assms obtain a b c d e f where *: "durationSetting L env ''SAMA_READ_HEADER_TIMEOUT'' (5 * second) = Inr a"
      "durationSetting L env ''SAMA_READ_TIMEOUT'' (10 * second) = Inr b" "durationSetting L env ''SAMA_WRITE_TIMEOUT'' (10 * second) = Inr c"
      "durationSetting L env ''SAMA_IDLE_TIMEOUT'' (60 * second) = Inr d" "durationSetting L env ''SAMA_SHUTDOWN_TIMEOUT'' (10 * second) = Inr e"
      "boundedDurationSetting L env ''SAMA_MIGRATION_QUERY_TIMEOUT'' (30 * minute) second (24 * hour) = Inr f"
      "t = \<lparr>to_ReadHeader = a, to_Read = b, to_Write = c, to_Idle = d, to_Shutdown = e, to_MigrationQuery = f\<rparr>"
    unfolding loadTimeouts_def andThen_Inr by blast
  have u: "second \<le> 5 * second" "5 * second \<le> minute" "second \<le> 10 * second" "10 * second \<le> minute" "second \<le> 60 * second" "60 * second \<le> minute"
    "second \<le> 30 * minute" "30 * minute \<le> 24 * hour" by (simp_all add: time_units)
  from durationSetting_Inr [OF *(1) u(1,2)] durationSetting_Inr [OF *(2) u(3,4)] durationSetting_Inr [OF *(3) u(3,4)] durationSetting_Inr [OF *(4) u(5,6)]
    durationSetting_Inr [OF *(5) u(3,4)] boundedDurationSetting_Inr [OF *(6) u(7,8)]
  show ?thesis unfolding timeouts_ok_def *(7) by simp
qed

lemma loadBudgets_ok: "loadBudgets env = Inr b \<Longrightarrow> budgets_ok b"
  by (auto simp: loadBudgets_def budgets_ok_def dest!: integerSetting_Inr)

lemma proxy_list_ok: "proxy_list parts = Inr ps \<Longrightarrow> list_all masked ps \<and> length ps = length parts"
  by (induction parts arbitrary: ps) (auto split: option.splits if_splits)

lemma loadTrustedProxies_ok: "loadTrustedProxies env = Inr ps \<Longrightarrow> list_all masked ps"
  by (auto simp: loadTrustedProxies_def dest!: proxy_list_ok split: option.splits if_splits)

lemma mutation_list_ok:
  "mutation_list ms keys = Inr r \<Longrightarrow> distinct ms \<Longrightarrow> list_all mutation_key ms \<Longrightarrow> length ms \<le> 32 \<Longrightarrow> r = ms @ keys \<and> distinct r \<and> list_all mutation_key r \<and> length r \<le> 32"
proof (induction keys arbitrary: ms)
  case (Cons k keys)
  then have k: "mutation_key k" "k \<notin> set ms" "length ms < 32" "mutation_list (ms @ [k]) keys = Inr r" by (auto split: if_splits)
  from Cons.IH [OF k(4)] Cons.prems k show ?case by auto
qed simp

lemma loadMutations_ok: "loadMutations env = Inr r \<Longrightarrow> distinct r \<and> list_all mutation_key r \<and> length r \<le> 32"
  by (auto simp: loadMutations_def Let_def dest!: mutation_list_ok split: if_splits)

text \<open>Every error of a loader is one of the listed codes; one rule per construct.\<close>

definition coded_errors :: "string + 'a \<Rightarrow> bool" where
  "coded_errors m = (case m of Inl c \<Rightarrow> c \<in> set configurationCodes | Inr _ \<Rightarrow> True)"

named_theorems code_rules "constructs whose errors are configuration codes"

lemma coded_andThen [code_rules]: "coded_errors m \<Longrightarrow> (\<And>x. coded_errors (f x)) \<Longrightarrow> coded_errors (andThen m f)"
  by (cases m) (simp_all add: coded_errors_def andThen_def)

lemma coded_Inr [code_rules]: "coded_errors (Inr x)"
  by (simp add: coded_errors_def)

lemma coded_Inl [code_rules]: "c \<in> set configurationCodes \<Longrightarrow> coded_errors (Inl c)"
  by (simp add: coded_errors_def)

lemma coded_if [code_rules]: "coded_errors m \<Longrightarrow> coded_errors m' \<Longrightarrow> coded_errors (if b then m else m')"
  by simp

lemma coded_option [code_rules]: "coded_errors m \<Longrightarrow> (\<And>x. coded_errors (f x)) \<Longrightarrow> coded_errors (case v of None \<Rightarrow> m | Some x \<Rightarrow> f x)"
  by (cases v) auto

lemma coded_database [code_rules]: "coded_errors (databaseURL L env readFile)" "coded_errors (migrationDatabaseURL L env readFile)"
  unfolding databaseURL_def migrationDatabaseURL_def databaseURLSetting_def by (intro code_rules; simp add: configurationCodes_def)+

lemma coded_settings [code_rules]: "coded_errors (boundedDurationSetting L env name fb a b)" "coded_errors (integerSetting env name fb x y)"
  unfolding boundedDurationSetting_def integerSetting_def by (intro code_rules; simp add: configurationCodes_def)+

lemma coded_proxies: "coded_errors (proxy_list parts)"
  by (induction parts) (auto intro!: code_rules simp: configurationCodes_def split: option.split)

lemma coded_mutations: "coded_errors (mutation_list ms keys)"
  by (induction keys arbitrary: ms) (auto intro!: code_rules simp: configurationCodes_def)

lemma coded_groups [code_rules]: "coded_errors (loadTimeouts L env)" "coded_errors (loadBudgets env)"
  unfolding loadTimeouts_def loadBudgets_def durationSetting_def by (intro code_rules)+

lemma coded_lists [code_rules]: "coded_errors (loadTrustedProxies env)" "coded_errors (loadMutations env)"
  unfolding loadTrustedProxies_def loadMutations_def Let_def
  by (intro code_rules coded_proxies) (intro code_rules coded_mutations; simp add: configurationCodes_def)

lemma coded_LoadFrom: "coded_errors (LoadFrom L env readFile)"
  unfolding LoadFrom_def Let_def by (intro code_rules; simp add: configurationCodes_def)

lemma parseOrigin_ok: "parseOrigin L v = Some u \<Longrightarrow> ur_Scheme u \<in> {''http'', ''https''} \<and> ur_Path u = []"
  by (auto simp: parseOrigin_def split: option.splits if_splits)

lemma LoadFrom_Inr:
  assumes "LoadFrom L env readFile = Inr c"
  shows "timeouts_ok (cf_Timeouts c) \<and> budgets_ok (cf_Budgets c) \<and> list_all masked (cf_TrustedProxies c)
    \<and> (distinct (cf_MutationSwitches c) \<and> list_all mutation_key (cf_MutationSwitches c) \<and> length (cf_MutationSwitches c) \<le> 32)
    \<and> validListenAddress (cf_HTTPAddr c) \<and> (ur_Scheme (cf_PublicOrigin c) \<in> {''http'', ''https''} \<and> ur_Path (cf_PublicOrigin c) = [])
    \<and> (cf_WorkersEnabled c \<longrightarrow> cf_DatabaseURL c \<noteq> [] \<and> bu_ProviderCallingProcesses (cf_Budgets c) = 1 \<and> to_Shutdown (cf_Timeouts c) \<le> minute)"
proof -
  have l: "validListenAddress (cf_HTTPAddr c)" "parseOrigin L (or_default (env ''SAMA_PUBLIC_ORIGIN'') ''http://127.0.0.1:8080'') = Some (cf_PublicOrigin c)"
      "loadTimeouts L env = Inr (cf_Timeouts c)" "loadBudgets env = Inr (cf_Budgets c)" "loadTrustedProxies env = Inr (cf_TrustedProxies c)"
      "loadMutations env = Inr (cf_MutationSwitches c)"
      "cf_WorkersEnabled c \<longrightarrow> \<not> (cf_DatabaseURL c = [] \<or> bu_ProviderCallingProcesses (cf_Budgets c) \<noteq> 1 \<or> to_Shutdown (cf_Timeouts c) > minute)"
    using assms by (auto simp: LoadFrom_def Let_def split: if_splits option.splits)
  show ?thesis
    using l(1,7) loadTimeouts_ok [OF l(3)] loadBudgets_ok [OF l(4)] loadTrustedProxies_ok [OF l(5)] loadMutations_ok [OF l(6)] parseOrigin_ok [OF l(2)]
    by (simp add: not_less)
qed

section \<open>Properties\<close>

text \<open>
  C34: A configuration that loads is well-formed: all timeouts and budgets are within their ranges, trusted ranges are masked prefixes, the
  enabled mutations are at most 32 distinct well-formed keys, and workers run only with a database, as the one process that calls providers, with a
  drain of at most a minute. Every failure is one of the ten public codes, so that no configured value appears in a diagnostic.
\<close>

theorem configuration_is_well_formed:
  "case LoadFrom L env readFile of
     Inl code \<Rightarrow> code \<in> set configurationCodes
   | Inr c \<Rightarrow> timeouts_ok (cf_Timeouts c) \<and> budgets_ok (cf_Budgets c) \<and> list_all masked (cf_TrustedProxies c)
       \<and> distinct (cf_MutationSwitches c) \<and> list_all mutation_key (cf_MutationSwitches c) \<and> length (cf_MutationSwitches c) \<le> 32
       \<and> validListenAddress (cf_HTTPAddr c) \<and> ur_Scheme (cf_PublicOrigin c) \<in> {''http'', ''https''} \<and> ur_Path (cf_PublicOrigin c) = []
       \<and> (cf_WorkersEnabled c \<longrightarrow> cf_DatabaseURL c \<noteq> [] \<and> bu_ProviderCallingProcesses (cf_Budgets c) = 1 \<and> to_Shutdown (cf_Timeouts c) \<le> minute)"
proof (cases "LoadFrom L env readFile")
  case (Inl code)
  with coded_LoadFrom [of L env readFile] show ?thesis by (simp add: coded_errors_def)
next
  case (Inr c)
  note loaded = LoadFrom_Inr [OF Inr]
  from loaded show ?thesis using Inr by simp
qed

text \<open>A server with workers behind a proxy on the same host; its URLs are taken as parsed.\<close>

definition example_environment :: lookup where
  "example_environment = map_of [(''SAMA_HTTP_ADDR'', '':8080''), (''SAMA_DATABASE_URL'', ''postgres://db''), (''SAMA_WORKERS_ENABLED'', ''1''), (''SAMA_WORKER_COUNT'', '' 8''),
     (''SAMA_ENABLED_MUTATIONS'', ''hetzner/cloud:compute.server.reboot'')]"

definition example_libs :: libs where
  "example_libs = \<lparr>lb_url = (\<lambda>s. Some \<lparr>ur_Scheme = before CHR '':'' s, ur_Opaque = [], ur_User = False, ur_Hostname = ''host'', ur_Port = [], ur_Path = [],
     ur_RawPath = [], ur_ForceQuery = False, ur_RawQuery = [], ur_Fragment = [], lu_Host = ''host''\<rparr>), lb_duration = (\<lambda>_. None)\<rparr>"

lemma example_config: "(case LoadFrom example_libs example_environment (\<lambda>_. None) of Inl _ \<Rightarrow> False
   | Inr c \<Rightarrow> cf_WorkersEnabled c \<and> bu_WorkerCount (cf_Budgets c) = 8 \<and> cf_MutationSwitches c = [''hetzner/cloud:compute.server.reboot''])"
  by code_simp

theorem configuration_is_well_formed_witness:
  "\<exists>c. LoadFrom example_libs example_environment (\<lambda>_. None) = Inr c \<and> cf_WorkersEnabled c \<and> cf_DatabaseURL c \<noteq> [] \<and> to_Shutdown (cf_Timeouts c) \<le> minute"
proof -
  obtain c where c: "LoadFrom example_libs example_environment (\<lambda>_. None) = Inr c" "cf_WorkersEnabled c"
    using example_config by (auto split: sum.splits)
  with configuration_is_well_formed [of example_libs example_environment "\<lambda>_. None"] show ?thesis by simp
qed

end
