(* ===== verification/Spec2Isabelle.thy ===== *)
theory Spec2Isabelle
  imports Sama_Providers Sama_Boundary Sama_Migrations Sama_History Sama_Config
begin

text \<open>
  \<^bold>\<open>Sama\<close>: a verification of the Go backend under \<^verbatim>\<open>src/backend\<close>.

  Sama lets the members of a workspace see the servers they hold at several hosting providers and act on them: power actions and snapshots.
  The backend keeps everything in PostgreSQL. A browser signs in through OIDC and talks to the HTTP API; the API reviews and
  accepts operations; workers claim jobs, read the providers' inventories and submit the accepted operations; owners resolve what
  stayed unknown. What makes this hard is that a provider call and a commit can never be one step: the program must not
  act twice, must not act for somebody who has lost the right, and must be able to say what it does not know.

  \<^bold>\<open>How the program is modelled.\<close>

  \<^item> The database is a record of tables, each the list of its rows (\<^verbatim>\<open>Sama_Schema\<close>, from \<^verbatim>\<open>backend/migrations\<close>). A transaction is a body in
    a state and error monad (\<^verbatim>\<open>Sama_Tx\<close>): every statement can fail, a failed statement or a violated constraint aborts the
    transaction, and the acknowledgement of a commit can be lost. \<open>vc\<close> gives one proof rule per construct; most
    handlers are proved by \<open>vc_rules\<close> and what their statements do.
  \<^item> A handler that reads, calls a provider and then writes is the composition of its transactions, with an argument for what others
    committed in between. Workers, callers of the outbound budget and members of a workspace are step relations, with
    invariants over all interleavings through the locale \<open>machine\<close> of \<^verbatim>\<open>Sama_Prelude\<close>.
  \<^item> Errors are values (\<open>err\<close>), Go's nil is \<open>None\<close>, instants are nanoseconds, identifiers are 128-bit words, strings are byte strings.
  \<^item> What is not code of the repository is an argument: SHA-256 and base64 (\<open>crypto\<close>), AES-GCM, JSON and URL coding, the providers, the
    resolver and the network, the identity provider, clocks, randomness and generated identifiers (\<open>None\<close> where the generator fails).
    Where a theorem needs a law of such an argument, the law is a named hypothesis and its witness instantiates the argument.

  \<^bold>\<open>The theories\<close>, in the order of their imports.

  \<^item> \<^verbatim>\<open>Sama_Prelude\<close>, \<^verbatim>\<open>Sama_Text\<close>, \<^verbatim>\<open>Sama_Tx\<close>, \<^verbatim>\<open>Sama_Schema\<close>: tables, UTF-8 and decimal text, the keyset pages every list uses (locale
    \<open>keyset\<close>: following the cursors enumerates), transactions, the schema.
  \<^item> \<^verbatim>\<open>Sama_Audit\<close>: \<^verbatim>\<open>internal/identifier\<close> and \<^verbatim>\<open>audit/append.go\<close>, identifiers as text and the append of validated events.
    \<^verbatim>\<open>Sama_History\<close>: \<^verbatim>\<open>audit/read.go\<close>, visibility, filters and the bound cursor; the history is complete.
  \<^item> \<^verbatim>\<open>Sama_Workspace\<close>, \<^verbatim>\<open>Sama_Membership\<close>: \<^verbatim>\<open>internal/workspace\<close>, members, grants, transfer, invitations, settings, creation. A workspace keeps an
    enabled owner, grants stay within the granting member's authority, an invitation is single-use.
  \<^item> \<^verbatim>\<open>Sama_Identity\<close>: \<^verbatim>\<open>internal/identity\<close>, sessions with their deadlines, recent authentication, rotation, sign-out, login challenges.
  \<^item> \<^verbatim>\<open>Sama_Job\<close>: \<^verbatim>\<open>internal/job\<close>, claim, renew and finish, the renewal loop, one round of the worker, retention. The locale \<open>lease_store\<close> is the contract of
    the lease; a superseded lease is fenced.
  \<^item> \<^verbatim>\<open>Sama_Intent\<close>, \<^verbatim>\<open>Sama_OpState\<close>, \<^verbatim>\<open>Sama_Review\<close>, \<^verbatim>\<open>Sama_Dispatch\<close>: \<^verbatim>\<open>internal/operation\<close>, typed intents and their digest, the
    installation policy, the transition table and event log, target reservations, review and idempotent acceptance, the dispatch worker as a
    walk through \<open>work_pc\<close>, the deadline sweep, user controls, owner resolution, the recovery gate, retention and history.
    \<^verbatim>\<open>Sama_Lifecycle\<close> states the abstract lifecycle \<open>abs_move\<close> and what each transaction does to it; \<^verbatim>\<open>Sama_System\<close> runs one
    database with any number of workers, refines the lifecycle and proves that a provider is asked at most once.
  \<^item> \<^verbatim>\<open>Sama_Inventory\<close>: \<^verbatim>\<open>internal/inventory\<close>, refresh admission, scanning into staging, publication of a complete generation, freshness, lists and detail.
  \<^item> \<^verbatim>\<open>Sama_Envelope\<close>, \<^verbatim>\<open>Sama_Connection\<close>: \<^verbatim>\<open>platform/credentials\<close> and \<^verbatim>\<open>internal/connection\<close>, sealed credentials, the key ring, saving, rotating,
    disabling and rewrapping, and the loop of \<^verbatim>\<open>cmd/sama-keys-rewrap\<close>.
  \<^item> \<^verbatim>\<open>Sama_Budget\<close>, \<^verbatim>\<open>Sama_Outbound\<close>: \<^verbatim>\<open>platform/outbound\<close> and \<^verbatim>\<open>provider/power.go\<close>, the admission budget as a machine over shared cells, which
    addresses and endpoints may be reached, rate limits, the retry loop, the classification of a mutation's answer.
  \<^item> \<^verbatim>\<open>Sama_Adapters\<close>, \<^verbatim>\<open>Sama_Snapshots\<close>, \<^verbatim>\<open>Sama_Hetzner\<close>, \<^verbatim>\<open>Sama_DigitalOcean\<close>, \<^verbatim>\<open>Sama_Vultr\<close>, \<^verbatim>\<open>Sama_Contabo\<close>, \<^verbatim>\<open>Sama_Providers\<close>: \<^verbatim>\<open>internal/provider\<close>, what
    the adapters share and one theory per package with its server and snapshot pages, power actions, snapshot creation and deletion.
    The locales \<open>mutation_adapter\<close>, \<open>power_adapter\<close> and \<open>snapshot_adapter\<close> are the contract that the dispatch worker relies on, interpreted on
    twelve adapters; \<open>numbered_pages\<close> is the contract of a page walk that ends. The provider may answer anything.
  \<^item> \<^verbatim>\<open>Sama_Net\<close>, \<^verbatim>\<open>Sama_Boundary\<close>: the text functions of the standard library, and the boundary of \<^verbatim>\<open>internal/httpapi\<close>: client address,
    request bounds, routing, the session, membership and CSRF guards, sign-in, callback and sign-out. Its main lemma is of the
    form of a non-interference: either the answer does not depend on the guarded handler, or the request is admitted.
  \<^item> \<^verbatim>\<open>Sama_Migrations\<close>, \<^verbatim>\<open>Sama_Config\<close>: \<^verbatim>\<open>platform/migrations.go\<close> and \<^verbatim>\<open>platform/config.go\<close>.

  \<^bold>\<open>Bounds and fuel.\<close> The worker's walk is cut at six steps, and \<open>worker_returns\<close> shows that it has always returned by then. The retry loop makes at most five
  attempts, one for a mutation, as the code does. \<open>walk\<close> follows cursors for a number of pages above the number of rows, which
  suffices because every page but the last is full. The rewrap command is given more rounds than there are references to the old
  key, each round moving at least one. The renewal loop, the scan and the resolver's loops recurse over the events, pages
  and addresses they are given. The pages of an adapter are followed for 100 calls, which suffices because a cursor counts its page.

  \<^bold>\<open>Not modelled.\<close>

  \<^item> The DNS reader of \<^verbatim>\<open>provider/netcup\<close> and the qualification probes of \<^verbatim>\<open>provider/qualification\<close>, which no production path calls. JSON decoding is an
    argument of the adapters, one decoder per response type.
  \<^item> The route handlers of \<^verbatim>\<open>internal/httpapi\<close> behind the guards decode a body, call one operation modelled here and map its error to a status; static assets are files.
  \<^item> OIDC discovery, pool set-up, TLS and HTTP client settings, logging, the wiring of the commands, \<^verbatim>\<open>Runner.Run\<close>'s goroutines (advisory lock, heartbeat,
    drain), and the read-only aggregate \<^verbatim>\<open>workspace.ReadOverview\<close>.
  \<^item> The database runs every transaction at once. The code relies on row locks for that, in the order workspace, connection, job, operation; the
    locks themselves are not in the model.
\<close>

end
